(* ===== verification/Nsmb_Prelude.thy ===== *)
theory Nsmb_Prelude
  imports Main "HOL-Library.Word" "HOL-Library.Finite_Map" "HOL-Library.Signed_Division"
    "HOL-Library.Multiset"
begin

text \<open>
  The vocabulary shared by the component theories: the machine integer types of
  \<^verbatim>\<open>src/src/types.h\<close>, the C++ conversions between them, the \<^verbatim>\<open>std::map\<close> operations the
  netplay code uses (as finite maps, which are ordered by their key type), the controller
  input of \<^verbatim>\<open>NsmbMvlNetplayRuntime.h\<close>, and two interfaces stated as locales:
  \<open>state_machine\<close> (an invariant that every operation keeps holds after every run) and
  \<open>release_queue\<close> (a queue of delayed items drained in order).
\<close>

unbundle bit_operations_syntax

section \<open>Machine integers\<close>

type_synonym u8 = "8 word"
type_synonym u16 = "16 word"
type_synonym u32 = "32 word"
type_synonym u64 = "64 word"

text \<open>
  A \<^verbatim>\<open>std::chrono::steady_clock\<close> time point is a signed count of nanoseconds; the default
  constructed time point is 0.
\<close>

type_synonym time_point = int

named_theorems frame_simps \<open>unsigned frame arithmetic\<close>

definition u32_max :: u32 where
  "u32_max = 0xFFFFFFFF"

definition u32_of_int :: "int \<Rightarrow> u32" where
  "u32_of_int i = word_of_int i"

definition int_of_u32 :: "u32 \<Rightarrow> int" where
  "int_of_u32 w = sint w"

definition clamp :: "'a::linorder \<Rightarrow> 'a \<Rightarrow> 'a \<Rightarrow> 'a" where
  "clamp v lo hi = (if v < lo then lo else if hi < v then hi else v)"

lemma clamp_bounds: "lo \<le> hi \<Longrightarrow> lo \<le> clamp v lo hi \<and> clamp v lo hi \<le> hi"
  by (auto simp: clamp_def)

lemma unat_u32_less: "unat (w :: u32) < 2 ^ 32"
  using unsigned_less [of w, where 'a = nat] by simp

lemma unat_u32_max [frame_simps]: "unat u32_max = 2 ^ 32 - 1"
  by (simp add: u32_max_def)

lemma u32_le_max [simp]: "(w :: u32) \<le> u32_max"
  using unat_u32_less [of w] by (simp add: word_le_nat_alt unat_u32_max)

lemma u32_max_less_iff [simp]: "\<not> u32_max < (w :: u32)"
  by (simp add: not_less)

lemma unat_Suc_u32 [frame_simps]: "(w :: u32) \<noteq> u32_max \<Longrightarrow> unat (w + 1) = Suc (unat w)"
proof -
  assume "w \<noteq> u32_max"
  then have "unat w \<noteq> 2 ^ 32 - 1"
    by (metis unat_u32_max word_unat_eq_iff)
  with unat_u32_less [of w] have "unat w + 1 < 2 ^ 32"
    by simp
  then show ?thesis
    by (simp add: unat_word_ariths)
qed

lemma u32_less_Suc [frame_simps]: "(w :: u32) \<noteq> u32_max \<Longrightarrow> (v < w + 1) = (v \<le> w)"
  by (simp add: word_less_nat_alt word_le_nat_alt unat_Suc_u32 less_Suc_eq_le)

lemma u32_Suc_le [frame_simps]: "(w :: u32) \<noteq> u32_max \<Longrightarrow> (w + 1 \<le> v) = (w < v)"
  by (simp add: word_less_nat_alt word_le_nat_alt unat_Suc_u32 Suc_le_eq)

lemma u32_less_imp_not_max: "(w :: u32) < v \<Longrightarrow> w \<noteq> u32_max"
  by auto

lemma u32_le_pred [frame_simps]: "(w :: u32) \<noteq> 0 \<Longrightarrow> (v \<le> w - 1) = (v < w)"
proof -
  assume "w \<noteq> 0"
  then have "unat (w - 1) = unat w - 1" and "0 < unat w"
    by (auto simp: unat_minus_one word_neq_0_conv unat_gt_0)
  then show ?thesis
    by (auto simp: word_less_nat_alt word_le_nat_alt)
qed

lemma unat_sub_u32 [frame_simps]: "(b :: u32) \<le> a \<Longrightarrow> unat (a - b) = unat a - unat b"
  by (simp add: unat_sub)

lemma u32_of_int_nonneg:
  "0 \<le> i \<Longrightarrow> i < 2 ^ 32 \<Longrightarrow> unat (u32_of_int i) = nat i"
  by (simp add: u32_of_int_def unat_eq_nat_uint uint_word_of_int)

text \<open>The frames from \<open>a\<close> up to \<open>b\<close>, counted without wrap-around.\<close>

lemma card_u32_interval: "(a :: u32) \<le> b \<Longrightarrow> card {a..b} = unat b - unat a + 1"
proof -
  assume le: "a \<le> b"
  have "{a..b} = word_of_nat ` {unat a..unat b}"
  proof (intro equalityI subsetI)
    fix w assume "w \<in> {a..b}"
    then have "unat w \<in> {unat a..unat b}" and "w = word_of_nat (unat w)"
      by (auto simp: word_le_nat_alt)
    then show "w \<in> word_of_nat ` {unat a..unat b}"
      by blast
  next
    fix w :: u32 assume "w \<in> word_of_nat ` {unat a..unat b}"
    then obtain n where n: "w = word_of_nat n" "unat a \<le> n" "n \<le> unat b"
      by auto
    with unat_u32_less [of b] have "unat w = n"
      by (simp add: unat_of_nat)
    with n show "w \<in> {a..b}"
      by (simp add: word_le_nat_alt)
  qed
  moreover have "inj_on (word_of_nat :: nat \<Rightarrow> u32) {unat a..unat b}"
  proof (rule inj_onI)
    fix x y assume "x \<in> {unat a..unat b}" "y \<in> {unat a..unat b}"
      and eq: "(word_of_nat x :: u32) = word_of_nat y"
    with unat_u32_less [of b] have "x < 2 ^ 32" "y < 2 ^ 32"
      by auto
    then show "x = y"
      using arg_cong [OF eq, of unat] by (simp add: unat_of_nat)
  qed
  ultimately show ?thesis
    using le by (simp add: card_image word_le_nat_alt)
qed

section \<open>Ordered maps\<close>

text \<open>
  \<^verbatim>\<open>std::map<u32, V>\<close> is a finite map; \<^const>\<open>fmlookup\<close> is \<^verbatim>\<open>find\<close>, \<^const>\<open>fmupd\<close> is
  \<^verbatim>\<open>operator[]\<close> with an assignment, \<^const>\<open>fmdrop\<close> is \<^verbatim>\<open>erase(key)\<close>, and erasing a range
  given by \<^verbatim>\<open>lower_bound\<close> or \<^verbatim>\<open>upper_bound\<close> is \<^const>\<open>fmfilter\<close> on the key.
\<close>

type_synonym 'v frame_map = "(u32, 'v) fmap"

declare fmfilter_cong [cong del]

definition fm_emplace :: "'k \<Rightarrow> 'v \<Rightarrow> ('k, 'v) fmap \<Rightarrow> ('k, 'v) fmap" where
  "fm_emplace k v m = (case fmlookup m k of None \<Rightarrow> fmupd k v m | Some _ \<Rightarrow> m)"

definition fm_size :: "('k, 'v) fmap \<Rightarrow> nat" where
  "fm_size m = fcard (fmdom m)"

definition fm_keys :: "('k::linorder, 'v) fmap \<Rightarrow> 'k list" where
  "fm_keys m = sorted_list_of_fset (fmdom m)"

text \<open>\<^verbatim>\<open>begin()->first\<close>, \<^verbatim>\<open>std::prev(lower_bound(k))->first\<close>, \<^verbatim>\<open>std::prev(upper_bound(k))->first\<close>.\<close>

definition fm_first :: "('k::linorder, 'v) fmap \<Rightarrow> 'k option" where
  "fm_first m = (if fmdom m = {||} then None else Some (fMin (fmdom m)))"

definition fm_last_below :: "'k::linorder \<Rightarrow> ('k, 'v) fmap \<Rightarrow> 'k option" where
  "fm_last_below k m =
     (let ks = ffilter (\<lambda>x. x < k) (fmdom m) in if ks = {||} then None else Some (fMax ks))"

definition fm_last_upto :: "'k::linorder \<Rightarrow> ('k, 'v) fmap \<Rightarrow> 'k option" where
  "fm_last_upto k m =
     (let ks = ffilter (\<lambda>x. x \<le> k) (fmdom m) in if ks = {||} then None else Some (fMax ks))"

lemma fmlookup_emplace [simp]:
  "fmlookup (fm_emplace k v m) x =
     (if x = k then (case fmlookup m k of None \<Rightarrow> Some v | Some w \<Rightarrow> Some w) else fmlookup m x)"
  by (auto simp: fm_emplace_def split: option.splits)

lemma fmdom'_emplace [simp]: "fmdom' (fm_emplace k v m) = insert k (fmdom' m)"
  by (auto simp: fm_emplace_def fmdom'I split: option.splits)

lemma fm_lookup_ne_None: "(fmlookup m k \<noteq> None) = (k \<in> fmdom' m)"
  by (cases "fmlookup m k") (auto simp: fmdom'I dest: fmdom'_notI)

lemma fmdom_eq_empty [simp]: "(fmdom m = {||}) = (m = fmempty)"
proof
  assume "fmdom m = {||}"
  then have "fmlookup m x = None" for x
    by (metis fempty_iff fmdom_notD)
  then show "m = fmempty"
    by (simp add: fmap_ext)
qed simp

lemma fm_first_None [simp]: "(fm_first m = None) = (m = fmempty)"
  by (simp add: fm_first_def)

lemma fm_first_Some:
  "fm_first m = Some k \<longleftrightarrow> k \<in> fmdom' m \<and> (\<forall>x \<in> fmdom' m. k \<le> x)"
proof -
  have "fMin (fmdom m) = k \<longleftrightarrow> k |\<in>| fmdom m \<and> (\<forall>x. x |\<in>| fmdom m \<longrightarrow> k \<le> x)"
    if "fmdom m \<noteq> {||}"
    using fMin_in [OF that] fMin_le by (metis order_antisym)
  then show ?thesis
    by (auto simp: fm_first_def fmdom'_alt_def)
qed

lemma fMax_ffilter_Some:
  "(let ks = ffilter P (fmdom m) in if ks = {||} then None else Some (fMax ks)) = Some k
   \<longleftrightarrow> P k \<and> k \<in> fmdom' m \<and> (\<forall>x \<in> fmdom' m. P x \<longrightarrow> x \<le> k)"
proof (cases "ffilter P (fmdom m) = {||}")
  case True
  then have "\<not> (P k \<and> k |\<in>| fmdom m)"
    by (metis ffmember_filter fempty_iff)
  with True show ?thesis
    by (auto simp: fmdom'_alt_def)
next
  case False
  have "fMax (ffilter P (fmdom m)) = k \<longleftrightarrow>
      k |\<in>| ffilter P (fmdom m) \<and> (\<forall>x. x |\<in>| ffilter P (fmdom m) \<longrightarrow> x \<le> k)"
    using fMax_in [OF False] fMax_ge by (metis order_antisym)
  with False show ?thesis
    by (auto simp: Let_def fmdom'_alt_def)
qed

lemma fMax_ffilter_None:
  "(let ks = ffilter P (fmdom m) in if ks = {||} then None else Some (fMax ks)) = None
   \<longleftrightarrow> (\<forall>x \<in> fmdom' m. \<not> P x)"
  by (auto simp: Let_def fmdom'_alt_def)

lemma fm_last_below_Some:
  "fm_last_below k m = Some p \<longleftrightarrow>
     p < k \<and> p \<in> fmdom' m \<and> (\<forall>x \<in> fmdom' m. x < k \<longrightarrow> x \<le> p)"
  unfolding fm_last_below_def by (rule fMax_ffilter_Some)

lemma fm_last_below_None: "fm_last_below k m = None \<longleftrightarrow> (\<forall>x \<in> fmdom' m. k \<le> x)"
  unfolding fm_last_below_def fMax_ffilter_None by (auto simp: not_less)

lemma fm_last_upto_Some:
  "fm_last_upto k m = Some p \<longleftrightarrow>
     p \<le> k \<and> p \<in> fmdom' m \<and> (\<forall>x \<in> fmdom' m. x \<le> k \<longrightarrow> x \<le> p)"
  unfolding fm_last_upto_def by (rule fMax_ffilter_Some)

lemma fm_last_upto_None: "fm_last_upto k m = None \<longleftrightarrow> (\<forall>x \<in> fmdom' m. k < x)"
  unfolding fm_last_upto_def fMax_ffilter_None by (auto simp: not_le)

lemma fm_size_conv_card: "fm_size m = card (fmdom' m)"
  by (simp add: fm_size_def fcard.rep_eq fmdom'_alt_def)

lemma set_fm_keys [simp]: "set (fm_keys m) = fmdom' m"
  by (simp add: fm_keys_def fmdom'_alt_def)

section \<open>The controller input\<close>

record InputState =
  KeyMask :: u32
  Touching :: bool
  TouchX :: u16
  TouchY :: u16

definition InputState_default :: InputState where
  "InputState_default = \<lparr>KeyMask = 0xFFF, Touching = False, TouchX = 0, TouchY = 0\<rparr>"

definition InputsEqual :: "InputState \<Rightarrow> InputState \<Rightarrow> bool" where
  "InputsEqual left right \<longleftrightarrow>
     KeyMask left = KeyMask right \<and> Touching left = Touching right
     \<and> TouchX left = TouchX right \<and> TouchY left = TouchY right"

lemma InputsEqual_eq [simp]: "InputsEqual a b = (a = b)"
  by (cases a; cases b) (auto simp: InputsEqual_def)

section \<open>Interfaces\<close>

text \<open>
  Several components are objects driven by a sequence of calls. The interface is the
  function that runs one call and an invariant it keeps for the calls that are \<open>ok\<close>; the
  client's fact is that the invariant holds after any sequence of such calls. A machine whose
  invariant every call keeps is the special case without a guard.
\<close>

locale guarded_machine =
  fixes step :: "'s \<Rightarrow> 'e \<Rightarrow> 's" and inv :: "'s \<Rightarrow> bool" and ok :: "'e \<Rightarrow> bool"
  assumes guarded_step_inv: "ok e \<Longrightarrow> inv s \<Longrightarrow> inv (step s e)"
begin

lemma guarded_run_inv: "inv s \<Longrightarrow> \<forall>e \<in> set es. ok e \<Longrightarrow> inv (foldl step s es)"
  by (induction es arbitrary: s) (simp_all add: guarded_step_inv)

end

locale state_machine =
  fixes step :: "'s \<Rightarrow> 'e \<Rightarrow> 's" and inv :: "'s \<Rightarrow> bool"
  assumes step_inv: "inv s \<Longrightarrow> inv (step s e)"
begin

sublocale guarded_machine step inv "\<lambda>_. True"
  by unfold_locales (rule step_inv)

lemma run_inv: "inv s \<Longrightarrow> inv (foldl step s es)"
  by (rule guarded_run_inv) simp_all

end

text \<open>
  Delayed payloads wait in a queue; draining walks it once, front to back, releasing what is
  due and keeping the rest. \<open>drain now q\<close> returns what was released, in order, and the queue
  left.
\<close>

locale release_queue =
  fixes due :: "'n \<Rightarrow> 'p \<Rightarrow> bool" and drain :: "'n \<Rightarrow> 'p list \<Rightarrow> 'p list \<times> 'p list"
  assumes drain_Nil: "drain n [] = ([], [])"
    and drain_Cons: "drain n (x # xs) =
      (let (out, rest) = drain n xs in if due n x then (x # out, rest) else (out, x # rest))"
begin

lemma drain_filter: "drain n q = (filter (due n) q, filter (\<lambda>x. \<not> due n x) q)"
  by (induction q) (auto simp: drain_Nil drain_Cons Let_def split: prod.splits)

lemma drain_conserves: "mset (fst (drain n q)) + mset (snd (drain n q)) = mset q"
  by (simp add: drain_filter)

lemma drain_releases_exactly: "set (fst (drain n q)) = {x \<in> set q. due n x}"
  by (auto simp: drain_filter)

lemma drain_rest_not_due: "\<forall>x \<in> set (snd (drain n q)). \<not> due n x"
  by (simp add: drain_filter)

lemma drain_all_due: "(\<forall>x \<in> set q. due n x) \<Longrightarrow> drain n q = (q, [])"
  by (simp add: drain_filter)

end

end
