(* ===== verification/Wire_Bytes.thy ===== *)
theory Wire_Bytes
  imports Nsmb_Prelude
begin

text \<open>
  The wire structures are packed by \<^verbatim>\<open>std::memcpy\<close> of plain structs without padding (each is
  pinned by a \<^verbatim>\<open>static_assert\<close> on its size) on a little endian host. A payload is a list of
  bytes; a field is written by \<open>u32_le\<close>, \<open>u16_le\<close> or as a byte, and read at its offset
  by \<open>rd32\<close>, \<open>rd16\<close> or \<open>rd8\<close>. The locales \<open>codec\<close> and \<open>fixed_codec\<close> are the
  contract between an encoder and its decoder; every wire format of the program interprets
  one of them.
\<close>

type_synonym payload = "u8 list"

section \<open>Little endian fields\<close>

definition u32_le :: "u32 \<Rightarrow> payload" where
  "u32_le w = [ucast w, ucast (drop_bit 8 w), ucast (drop_bit 16 w), ucast (drop_bit 24 w)]"

definition u16_le :: "u16 \<Rightarrow> payload" where
  "u16_le w = [ucast w, ucast (drop_bit 8 w)]"

definition u32_of_bytes :: "u8 \<Rightarrow> u8 \<Rightarrow> u8 \<Rightarrow> u8 \<Rightarrow> u32" where
  "u32_of_bytes a b c d =
     ucast a OR push_bit 8 (ucast b) OR push_bit 16 (ucast c) OR push_bit 24 (ucast d)"

definition u16_of_bytes :: "u8 \<Rightarrow> u8 \<Rightarrow> u16" where
  "u16_of_bytes a b = ucast a OR push_bit 8 (ucast b)"

definition rd8 :: "payload \<Rightarrow> nat \<Rightarrow> u8" where
  "rd8 bs i = bs ! i"

definition rd16 :: "payload \<Rightarrow> nat \<Rightarrow> u16" where
  "rd16 bs i = u16_of_bytes (bs ! i) (bs ! (i + 1))"

definition rd32 :: "payload \<Rightarrow> nat \<Rightarrow> u32" where
  "rd32 bs i = u32_of_bytes (bs ! i) (bs ! (i + 1)) (bs ! (i + 2)) (bs ! (i + 3))"

lemma length_u32_le [simp]: "length (u32_le w) = 4"
  by (simp add: u32_le_def)

lemma length_u16_le [simp]: "length (u16_le w) = 2"
  by (simp add: u16_le_def)

lemma u32_of_bytes_split [simp]:
  "u32_of_bytes (ucast w) (ucast (drop_bit 8 w)) (ucast (drop_bit 16 w)) (ucast (drop_bit 24 w)) = w"
proof (rule bit_word_eqI)
  fix n assume "n < LENGTH(32)"
  then consider "n < 8" | "8 \<le> n \<and> n < 16" | "16 \<le> n \<and> n < 24" | "24 \<le> n \<and> n < 32"
    by (simp add: not_le) linarith
  then show "bit (u32_of_bytes (ucast w) (ucast (drop_bit 8 w)) (ucast (drop_bit 16 w))
      (ucast (drop_bit 24 w))) n = bit w n"
    by cases (auto simp: u32_of_bytes_def bit_simps)
qed

lemma u16_of_bytes_split [simp]: "u16_of_bytes (ucast w) (ucast (drop_bit 8 w)) = w"
  by (rule bit_word_eqI) (auto simp: u16_of_bytes_def bit_simps not_less)

lemma u32_le_join [simp]: "u32_le (u32_of_bytes a b c d) = [a, b, c, d]"
  unfolding u32_le_def u32_of_bytes_def
  by (intro list.inject [THEN iffD2] conjI refl; rule bit_word_eqI)
    (auto simp: bit_simps dest: bit_imp_le_length)

lemma rd32_append_left: "i + 4 \<le> length xs \<Longrightarrow> rd32 (xs @ ys) i = rd32 xs i"
  by (simp add: rd32_def nth_append)

lemma rd16_append_left: "i + 2 \<le> length xs \<Longrightarrow> rd16 (xs @ ys) i = rd16 xs i"
  by (simp add: rd16_def nth_append)

lemma rd8_append_left: "i < length xs \<Longrightarrow> rd8 (xs @ ys) i = rd8 xs i"
  by (simp add: rd8_def nth_append)

lemma rd32_append_right [simp]: "length xs \<le> i \<Longrightarrow> rd32 (xs @ ys) i = rd32 ys (i - length xs)"
  by (simp add: rd32_def nth_append Suc_diff_le)

lemma rd16_append_right [simp]: "length xs \<le> i \<Longrightarrow> rd16 (xs @ ys) i = rd16 ys (i - length xs)"
  by (simp add: rd16_def nth_append Suc_diff_le)

lemma rd8_append_right [simp]: "length xs \<le> i \<Longrightarrow> rd8 (xs @ ys) i = rd8 ys (i - length xs)"
  by (simp add: rd8_def nth_append)

lemma rd32_u32_le [simp]: "rd32 (u32_le w @ ys) 0 = w"
  by (simp add: rd32_def u32_le_def numeral_2_eq_2 numeral_3_eq_3)

lemma rd32_u32_le_end [simp]: "rd32 (u32_le w) 0 = w"
  using rd32_u32_le [of w "[]"] by simp

lemma rd16_u16_le [simp]: "rd16 (u16_le w @ ys) 0 = w"
  by (simp add: rd16_def u16_le_def)

lemma rd8_Cons [simp]: "rd8 (b # ys) 0 = b"
  by (simp add: rd8_def)

lemma rd32_drop: "n \<le> length bs \<Longrightarrow> rd32 (drop n bs) i = rd32 bs (n + i)"
  by (simp add: rd32_def add.assoc)

lemma u32_le_rd32: "i + 4 \<le> length bs \<Longrightarrow> u32_le (rd32 bs i) = take 4 (drop i bs)"
proof -
  assume "i + 4 \<le> length bs"
  then have "take 4 (drop i bs) = [bs ! i, bs ! (i + 1), bs ! (i + 2), bs ! (i + 3)]"
    by (intro nth_equalityI) (auto simp: less_Suc_eq numeral_nat)
  then show ?thesis
    by (simp add: rd32_def)
qed

lemma concat_words: "length bs = 4 * n \<Longrightarrow> concat (map (\<lambda>i. u32_le (rd32 bs (4 * i))) [0..<n]) = bs"
proof (induction n arbitrary: bs)
  case 0
  then show ?case by simp
next
  case (Suc n)
  let ?r = "take (4 * n) bs"
  have "rd32 bs (4 * i) = rd32 ?r (4 * i)" if "i < n" for i
    using that Suc.prems rd32_append_left [of "4 * i" ?r "drop (4 * n) bs"] by simp
  then have "map (\<lambda>i. u32_le (rd32 bs (4 * i))) [0..<n] = map (\<lambda>i. u32_le (rd32 ?r (4 * i))) [0..<n]"
    by simp
  moreover have "concat (map (\<lambda>i. u32_le (rd32 ?r (4 * i))) [0..<n]) = ?r"
    using Suc.prems by (intro Suc.IH) simp
  moreover have "u32_le (rd32 bs (4 * n)) = drop (4 * n) bs"
    using Suc.prems by (simp add: u32_le_rd32)
  ultimately show ?case
    by (simp del: map_eq_conv)
qed

section \<open>The contract of a wire format\<close>

locale codec =
  fixes enc :: "'a \<Rightarrow> payload" and dec :: "payload \<Rightarrow> 'a option" and valid :: "'a \<Rightarrow> bool"
  assumes dec_enc: "valid x \<Longrightarrow> dec (enc x) = Some x"
begin

lemma enc_inject: "valid x \<Longrightarrow> valid y \<Longrightarrow> enc x = enc y \<Longrightarrow> x = y"
  by (metis dec_enc option.inject)

end

locale fixed_codec = codec +
  fixes width :: nat
  assumes length_enc: "length (enc x) = width"
    and dec_length: "dec bs = Some x \<Longrightarrow> length bs = width"
begin

lemma dec_other_length: "length bs \<noteq> width \<Longrightarrow> dec bs = None"
  using dec_length by (cases "dec bs") auto

lemma length_concat_enc: "length (concat (map enc xs)) = width * length xs"
  by (induction xs) (simp_all add: length_enc)

lemma chunk_enc:
  "i < length xs \<Longrightarrow> take width (drop (width * i) (concat (map enc xs) @ ys)) = enc (xs ! i)"
proof (induction xs arbitrary: i)
  case Nil
  then show ?case by simp
next
  case (Cons x xs)
  show ?case
  proof (cases i)
    case 0
    then show ?thesis by (simp add: length_enc)
  next
    case (Suc j)
    with Cons show ?thesis by (simp add: length_enc)
  qed
qed

lemma decode_chunks:
  assumes "\<forall>x \<in> set xs. valid x"
  shows "map (\<lambda>i. dec (take width (drop (width * i) (concat (map enc xs))))) [0..<length xs] = map Some xs"
proof (rule nth_equalityI)
  fix i assume "i < length (map (\<lambda>i. dec (take width (drop (width * i) (concat (map enc xs))))) [0..<length xs])"
  then have i: "i < length xs" by simp
  with assms have "valid (xs ! i)" by simp
  with i chunk_enc [of i xs "[]"] show "map (\<lambda>i. dec (take width (drop (width * i) (concat (map enc xs))))) [0..<length xs] ! i
      = map Some xs ! i"
    by (simp add: dec_enc)
qed simp

end

end
