(* ===== verification/Input_Protocol.thy ===== *)
theory Input_Protocol
  imports Wire_Bytes
begin

text \<open>
  \<^verbatim>\<open>NsmbInputProtocol.cpp\<close>: the single input packet (28 bytes) and the input bundle
  (a 24 byte header and 16 bytes per entry, at most 32 entries). Encoding and decoding are
  the source's functions over byte lists; a null data pointer is \<^const>\<open>None\<close>, a rejected
  payload is \<^const>\<open>None\<close>, and the empty payload is the encoder's refusal.
\<close>

section \<open>Packet structures\<close>

record FramedInput =
  FI_Generation :: u32
  FI_Frame :: u32
  FI_Input :: InputState

definition kInputPacketSize :: nat where "kInputPacketSize = 28"
definition kInputBundleHeaderSize :: nat where "kInputBundleHeaderSize = 24"
definition kInputBundleEntrySize :: nat where "kInputBundleEntrySize = 16"
definition kMaxInputBundleEntries :: nat where "kMaxInputBundleEntries = 32"

definition kMagic :: u32 where "kMagic = 0x4C4D534E"
definition kInputVersion :: u32 where "kInputVersion = 2"
definition kInputBundleVersion :: u32 where "kInputBundleVersion = 3"
definition kInputBundleKind :: u32 where "kInputBundleKind = 0x42504E49"
definition kNoAckFrame :: u32 where "kNoAckFrame = u32_max"

record WireInput =
  WI_Magic :: u32
  WI_Version :: u32
  WI_Generation :: u32
  WI_Frame :: u32
  WI_KeyMask :: u32
  WI_TouchX :: u16
  WI_TouchY :: u16
  WI_Touching :: u8
  WI_Reserved :: "u8 list"

record WireInputBundleHeader =
  BH_Magic :: u32
  BH_Version :: u32
  BH_Kind :: u32
  BH_Generation :: u32
  BH_Count :: u32
  BH_AckFrame :: u32

record WireInputBundleEntry =
  BE_Frame :: u32
  BE_KeyMask :: u32
  BE_TouchX :: u16
  BE_TouchY :: u16
  BE_Touching :: u8
  BE_Reserved :: "u8 list"

text \<open>The memory image of each structure, and reading a structure back from one.\<close>

definition WireInput_bytes :: "WireInput \<Rightarrow> payload" where
  "WireInput_bytes w = u32_le (WI_Magic w) @ u32_le (WI_Version w) @ u32_le (WI_Generation w)
     @ u32_le (WI_Frame w) @ u32_le (WI_KeyMask w) @ u16_le (WI_TouchX w) @ u16_le (WI_TouchY w)
     @ [WI_Touching w] @ WI_Reserved w"

definition WireInput_read :: "payload \<Rightarrow> WireInput" where
  "WireInput_read bs = \<lparr>WI_Magic = rd32 bs 0, WI_Version = rd32 bs 4, WI_Generation = rd32 bs 8,
     WI_Frame = rd32 bs 12, WI_KeyMask = rd32 bs 16, WI_TouchX = rd16 bs 20, WI_TouchY = rd16 bs 22,
     WI_Touching = rd8 bs 24, WI_Reserved = drop 25 bs\<rparr>"

definition WireInputBundleHeader_bytes :: "WireInputBundleHeader \<Rightarrow> payload" where
  "WireInputBundleHeader_bytes h = u32_le (BH_Magic h) @ u32_le (BH_Version h) @ u32_le (BH_Kind h)
     @ u32_le (BH_Generation h) @ u32_le (BH_Count h) @ u32_le (BH_AckFrame h)"

definition WireInputBundleHeader_read :: "payload \<Rightarrow> WireInputBundleHeader" where
  "WireInputBundleHeader_read bs = \<lparr>BH_Magic = rd32 bs 0, BH_Version = rd32 bs 4, BH_Kind = rd32 bs 8,
     BH_Generation = rd32 bs 12, BH_Count = rd32 bs 16, BH_AckFrame = rd32 bs 20\<rparr>"

definition WireInputBundleEntry_bytes :: "WireInputBundleEntry \<Rightarrow> payload" where
  "WireInputBundleEntry_bytes e = u32_le (BE_Frame e) @ u32_le (BE_KeyMask e)
     @ u16_le (BE_TouchX e) @ u16_le (BE_TouchY e) @ [BE_Touching e] @ BE_Reserved e"

definition WireInputBundleEntry_read :: "payload \<Rightarrow> WireInputBundleEntry" where
  "WireInputBundleEntry_read bs = \<lparr>BE_Frame = rd32 bs 0, BE_KeyMask = rd32 bs 4,
     BE_TouchX = rd16 bs 8, BE_TouchY = rd16 bs 10, BE_Touching = rd8 bs 12, BE_Reserved = drop 13 bs\<rparr>"

section \<open>The single input packet\<close>

definition ToWireInput :: "FramedInput \<Rightarrow> WireInput" where
  "ToWireInput input = \<lparr>WI_Magic = kMagic, WI_Version = kInputVersion,
     WI_Generation = FI_Generation input, WI_Frame = FI_Frame input,
     WI_KeyMask = KeyMask (FI_Input input), WI_TouchX = TouchX (FI_Input input),
     WI_TouchY = TouchY (FI_Input input),
     WI_Touching = (if Touching (FI_Input input) then 1 else 0), WI_Reserved = [0, 0, 0]\<rparr>"

definition FromWireInput :: "WireInput \<Rightarrow> FramedInput" where
  "FromWireInput wire = \<lparr>FI_Generation = WI_Generation wire, FI_Frame = WI_Frame wire,
     FI_Input = \<lparr>KeyMask = WI_KeyMask wire, Touching = (WI_Touching wire \<noteq> 0),
       TouchX = WI_TouchX wire, TouchY = WI_TouchY wire\<rparr>\<rparr>"

definition EncodeInput :: "FramedInput \<Rightarrow> payload" where
  "EncodeInput input = WireInput_bytes (ToWireInput input)"

definition DecodeInput :: "payload option \<Rightarrow> FramedInput option" where
  "DecodeInput data =
     (case data of None \<Rightarrow> None
      | Some bs \<Rightarrow>
          if length bs \<noteq> kInputPacketSize then None
          else let wire = WireInput_read bs in
            if WI_Magic wire \<noteq> kMagic \<or> WI_Version wire \<noteq> kInputVersion then None
            else Some (FromWireInput wire))"

section \<open>The input bundle\<close>

definition ToBundleEntry :: "FramedInput \<Rightarrow> WireInputBundleEntry" where
  "ToBundleEntry input = \<lparr>BE_Frame = FI_Frame input, BE_KeyMask = KeyMask (FI_Input input),
     BE_TouchX = TouchX (FI_Input input), BE_TouchY = TouchY (FI_Input input),
     BE_Touching = (if Touching (FI_Input input) then 1 else 0), BE_Reserved = [0, 0, 0]\<rparr>"

definition FromBundleEntry :: "u32 \<Rightarrow> WireInputBundleEntry \<Rightarrow> FramedInput" where
  "FromBundleEntry generation entry = \<lparr>FI_Generation = generation, FI_Frame = BE_Frame entry,
     FI_Input = \<lparr>KeyMask = BE_KeyMask entry, Touching = (BE_Touching entry \<noteq> 0),
       TouchX = BE_TouchX entry, TouchY = BE_TouchY entry\<rparr>\<rparr>"

text \<open>The loop over the inputs: it stops with a refusal at the first foreign generation.\<close>

fun bundle_entries :: "u32 \<Rightarrow> FramedInput list \<Rightarrow> WireInputBundleEntry list option" where
  "bundle_entries generation [] = Some []"
| "bundle_entries generation (input # inputs) =
     (if FI_Generation input \<noteq> generation then None
      else map_option (\<lambda>es. ToBundleEntry input # es) (bundle_entries generation inputs))"

definition EncodeInputBundle :: "FramedInput list \<Rightarrow> u32 option \<Rightarrow> payload" where
  "EncodeInputBundle inputs ackFrame =
     (if inputs = [] \<or> kMaxInputBundleEntries < length inputs then []
      else
        let header = \<lparr>BH_Magic = kMagic, BH_Version = kInputBundleVersion, BH_Kind = kInputBundleKind,
              BH_Generation = FI_Generation (hd inputs), BH_Count = of_nat (length inputs),
              BH_AckFrame = (case ackFrame of None \<Rightarrow> kNoAckFrame | Some f \<Rightarrow> f)\<rparr>
        in case bundle_entries (BH_Generation header) inputs of
             None \<Rightarrow> []
           | Some entries \<Rightarrow> WireInputBundleHeader_bytes header
               @ concat (map WireInputBundleEntry_bytes entries))"

text \<open>The decoder returns the inputs and the acknowledged frame the header carries.\<close>

definition DecodeInputBundle :: "payload option \<Rightarrow> (FramedInput list \<times> u32 option) option" where
  "DecodeInputBundle data =
     (case data of None \<Rightarrow> None
      | Some bs \<Rightarrow>
          if length bs < kInputBundleHeaderSize then None
          else let header = WireInputBundleHeader_read bs in
            if BH_Magic header \<noteq> kMagic \<or> BH_Version header \<noteq> kInputBundleVersion
               \<or> BH_Kind header \<noteq> kInputBundleKind \<or> BH_Count header = 0
               \<or> kMaxInputBundleEntries < unat (BH_Count header)
               \<or> length bs \<noteq> kInputBundleHeaderSize + kInputBundleEntrySize * unat (BH_Count header)
            then None
            else Some
              (map (\<lambda>index. FromBundleEntry (BH_Generation header)
                  (WireInputBundleEntry_read
                     (take kInputBundleEntrySize
                       (drop (kInputBundleHeaderSize + kInputBundleEntrySize * index) bs))))
                 [0..<unat (BH_Count header)],
               if BH_AckFrame header \<noteq> kNoAckFrame then Some (BH_AckFrame header) else None))"

lemmas protocol_consts = kInputPacketSize_def kInputBundleHeaderSize_def kInputBundleEntrySize_def
  kMaxInputBundleEntries_def kMagic_def kInputVersion_def kInputBundleVersion_def
  kInputBundleKind_def

section \<open>Correctness\<close>

subsection \<open>Single packets\<close>

lemma length_EncodeInput [simp]: "length (EncodeInput input) = kInputPacketSize"
  by (simp add: EncodeInput_def WireInput_bytes_def ToWireInput_def kInputPacketSize_def)

lemma WireInput_read_bytes [simp]: "WireInput_read (WireInput_bytes w) = w"
  by (simp add: WireInput_read_def WireInput_bytes_def)

lemma FromWireInput_ToWireInput [simp]: "FromWireInput (ToWireInput input) = input"
  by (simp add: FromWireInput_def ToWireInput_def)

lemma ToWireInput_header [simp]:
  "WI_Magic (ToWireInput input) = kMagic" "WI_Version (ToWireInput input) = kInputVersion"
  by (simp_all add: ToWireInput_def)

lemma DecodeInput_EncodeInput: "DecodeInput (Some (EncodeInput input)) = Some input"
proof -
  have "WireInput_read (EncodeInput input) = ToWireInput input"
    by (simp add: EncodeInput_def)
  then show ?thesis
    by (simp add: DecodeInput_def)
qed

interpretation input_packet: fixed_codec EncodeInput "\<lambda>bs. DecodeInput (Some bs)" "\<lambda>_. True"
  kInputPacketSize
proof unfold_locales
  show "DecodeInput (Some (EncodeInput x)) = Some x" for x
    by (rule DecodeInput_EncodeInput)
qed (auto simp: DecodeInput_def Let_def split: if_splits)

subsection \<open>Bundle entries\<close>

definition entry_enc :: "FramedInput \<Rightarrow> payload" where
  "entry_enc input = WireInputBundleEntry_bytes (ToBundleEntry input)"

definition entry_dec :: "u32 \<Rightarrow> payload \<Rightarrow> FramedInput option" where
  "entry_dec generation bs =
     (if length bs = kInputBundleEntrySize
      then Some (FromBundleEntry generation (WireInputBundleEntry_read bs)) else None)"

lemma length_entry_enc [simp]: "length (entry_enc input) = kInputBundleEntrySize"
  by (simp add: entry_enc_def WireInputBundleEntry_bytes_def ToBundleEntry_def
      kInputBundleEntrySize_def)

lemma entry_read_enc [simp]: "WireInputBundleEntry_read (entry_enc input) = ToBundleEntry input"
  by (simp add: entry_enc_def WireInputBundleEntry_read_def WireInputBundleEntry_bytes_def)

lemma FromBundleEntry_ToBundleEntry [simp]:
  "FI_Generation input = generation \<Longrightarrow> FromBundleEntry generation (ToBundleEntry input) = input"
  by (auto simp: FromBundleEntry_def ToBundleEntry_def)

interpretation bundle_entry: fixed_codec entry_enc "entry_dec generation"
  "\<lambda>input. FI_Generation input = generation" kInputBundleEntrySize for generation
  by unfold_locales (auto simp: entry_dec_def split: if_splits)

lemma bundle_entries_eq:
  "bundle_entries generation inputs =
     (if list_all (\<lambda>i. FI_Generation i = generation) inputs then Some (map ToBundleEntry inputs) else None)"
  by (induction inputs) auto

subsection \<open>Bundles\<close>

text \<open>What the sender must supply: 1 to 32 inputs of one match generation.\<close>

definition valid_bundle :: "FramedInput list \<Rightarrow> bool" where
  "valid_bundle inputs \<longleftrightarrow> inputs \<noteq> [] \<and> length inputs \<le> kMaxInputBundleEntries
     \<and> list_all (\<lambda>i. FI_Generation i = FI_Generation (hd inputs)) inputs"

definition bundle_header :: "FramedInput list \<Rightarrow> u32 option \<Rightarrow> WireInputBundleHeader" where
  "bundle_header inputs ackFrame = \<lparr>BH_Magic = kMagic, BH_Version = kInputBundleVersion,
     BH_Kind = kInputBundleKind, BH_Generation = FI_Generation (hd inputs),
     BH_Count = of_nat (length inputs),
     BH_AckFrame = (case ackFrame of None \<Rightarrow> kNoAckFrame | Some f \<Rightarrow> f)\<rparr>"

lemma entry_enc_comp: "WireInputBundleEntry_bytes \<circ> ToBundleEntry = entry_enc"
  by (simp add: fun_eq_iff entry_enc_def)

lemma EncodeInputBundle_eq:
  "EncodeInputBundle inputs ackFrame =
     (if valid_bundle inputs
      then WireInputBundleHeader_bytes (bundle_header inputs ackFrame) @ concat (map entry_enc inputs)
      else [])"
  by (auto simp: EncodeInputBundle_def valid_bundle_def bundle_header_def bundle_entries_eq
      entry_enc_comp Let_def)

lemma length_header_bytes [simp]:
  "length (WireInputBundleHeader_bytes h) = kInputBundleHeaderSize"
  by (simp add: WireInputBundleHeader_bytes_def kInputBundleHeaderSize_def)

lemma header_read_bytes [simp]:
  "WireInputBundleHeader_read (WireInputBundleHeader_bytes h @ rest) = h"
  by (simp add: WireInputBundleHeader_read_def WireInputBundleHeader_bytes_def)

lemma length_EncodeInputBundle:
  "valid_bundle inputs \<Longrightarrow>
     length (EncodeInputBundle inputs ackFrame)
     = kInputBundleHeaderSize + kInputBundleEntrySize * length inputs"
  by (simp add: EncodeInputBundle_eq bundle_entry.length_concat_enc)

lemma EncodeInputBundle_refuses: "EncodeInputBundle inputs ackFrame = [] \<longleftrightarrow> \<not> valid_bundle inputs"
proof (cases "valid_bundle inputs")
  case True
  then have "0 < length (EncodeInputBundle inputs ackFrame)"
    unfolding length_EncodeInputBundle [OF True] by (simp add: kInputBundleHeaderSize_def)
  with True show ?thesis by simp
qed (simp add: EncodeInputBundle_eq)

lemma unat_bundle_count: "valid_bundle inputs \<Longrightarrow> unat (of_nat (length inputs) :: u32) = length inputs"
  by (simp add: unat_of_nat valid_bundle_def kMaxInputBundleEntries_def)

lemma bundle_chunk:
  assumes "valid_bundle inputs" and "i < length inputs"
  shows "FromBundleEntry (FI_Generation (hd inputs)) (WireInputBundleEntry_read
     (take kInputBundleEntrySize (drop (kInputBundleEntrySize * i) (concat (map entry_enc inputs)))))
     = inputs ! i"
proof -
  have "FI_Generation (inputs ! i) = FI_Generation (hd inputs)"
    using assms by (simp add: valid_bundle_def list_all_length)
  then show ?thesis
    using assms(2) bundle_entry.chunk_enc [of i inputs "[]"] by simp
qed

lemma DecodeInputBundle_EncodeInputBundle:
  assumes v: "valid_bundle inputs"
  shows "DecodeInputBundle (Some (EncodeInputBundle inputs ackFrame))
     = Some (inputs, if ackFrame = Some kNoAckFrame then None else ackFrame)"
proof -
  let ?h = "bundle_header inputs ackFrame" and ?b = "concat (map entry_enc inputs)"
  have hdr: "BH_Magic ?h = kMagic" "BH_Version ?h = kInputBundleVersion"
      "BH_Kind ?h = kInputBundleKind" "BH_Generation ?h = FI_Generation (hd inputs)"
      "unat (BH_Count ?h) = length inputs"
    using unat_bundle_count [OF v] by (simp_all add: bundle_header_def)
  have cnt: "BH_Count ?h \<noteq> 0"
    using v hdr(5) by (auto simp: valid_bundle_def)
  have ack: "(if BH_AckFrame ?h \<noteq> kNoAckFrame then Some (BH_AckFrame ?h) else None)
      = (if ackFrame = Some kNoAckFrame then None else ackFrame)"
    by (auto simp: bundle_header_def split: option.splits)
  have body: "map (\<lambda>index. FromBundleEntry (FI_Generation (hd inputs)) (WireInputBundleEntry_read
        (take kInputBundleEntrySize (drop (kInputBundleEntrySize * index) ?b)))) [0..<length inputs]
      = inputs"
    by (rule nth_equalityI) (simp_all add: bundle_chunk [OF v])
  have len: "length ?b = kInputBundleEntrySize * length inputs" "\<not> kMaxInputBundleEntries < length inputs"
    using v by (simp_all add: bundle_entry.length_concat_enc valid_bundle_def)
  show ?thesis
    using v by (simp add: DecodeInputBundle_def EncodeInputBundle_eq Let_def hdr cnt ack body len)
qed

interpretation input_bundle: codec "\<lambda>(inputs, ack). EncodeInputBundle inputs ack"
  "\<lambda>bs. DecodeInputBundle (Some bs)"
  "\<lambda>(inputs, ack). valid_bundle inputs \<and> ack \<noteq> Some kNoAckFrame"
  by unfold_locales (auto simp: DecodeInputBundle_EncodeInputBundle)

lemma DecodeInputBundle_SomeD:
  assumes "DecodeInputBundle data = Some (inputs, ack)"
  shows "\<exists>bs. data = Some bs \<and> valid_bundle inputs \<and> ack \<noteq> Some kNoAckFrame
     \<and> length bs = kInputBundleHeaderSize + kInputBundleEntrySize * length inputs"
proof -
  obtain bs where bs: "data = Some bs"
    using assms by (cases data) (auto simp: DecodeInputBundle_def)
  let ?h = "WireInputBundleHeader_read bs"
  let ?e = "\<lambda>index. FromBundleEntry (BH_Generation ?h) (WireInputBundleEntry_read
      (take kInputBundleEntrySize (drop (kInputBundleHeaderSize + kInputBundleEntrySize * index) bs)))"
  have n: "BH_Count ?h \<noteq> 0" "unat (BH_Count ?h) \<le> kMaxInputBundleEntries"
      "length bs = kInputBundleHeaderSize + kInputBundleEntrySize * unat (BH_Count ?h)"
      "inputs = map ?e [0..<unat (BH_Count ?h)]" "ack \<noteq> Some kNoAckFrame"
    using assms by (auto simp: DecodeInputBundle_def bs Let_def split: if_splits)
  have "0 < unat (BH_Count ?h)"
    using n(1) by (simp add: unat_gt_0)
  moreover have "FI_Generation i = BH_Generation ?h" if "i \<in> set inputs" for i
    using that n(4) by (auto simp: FromBundleEntry_def)
  moreover have len: "length inputs = unat (BH_Count ?h)"
    by (simp add: n(4))
  ultimately have "inputs \<noteq> []" and "\<forall>i \<in> set inputs. FI_Generation i = BH_Generation ?h"
    by auto
  then have "valid_bundle inputs"
    using n(2) len unfolding valid_bundle_def list_all_iff by (metis hd_in_set)
  with n(3,5) len bs show ?thesis
    by simp
qed

section \<open>Properties\<close>

text \<open>Decoding an encoded input packet gives back exactly the generation, the frame and the
  controller state that were encoded, for every packet; the encoding is always 28 bytes and a
  payload of any other size is rejected.\<close>

theorem input_packet_roundtrip:
  "DecodeInput (Some (EncodeInput input)) = Some input
   \<and> length (EncodeInput input) = kInputPacketSize
   \<and> (length bs = kInputPacketSize \<or> DecodeInput (Some bs) = None)"
  using input_packet.dec_other_length [of bs] input_packet.dec_enc [of input] length_EncodeInput
  by metis

text \<open>C22: a bundle of 1 to 32 inputs of one generation decodes to the same inputs in the same
  order together with the acknowledged frame, so nothing in a bundle is lost or reordered.\<close>

theorem input_bundle_roundtrip:
  assumes "inputs \<noteq> []" and "length inputs \<le> kMaxInputBundleEntries"
    and "\<forall>i \<in> set inputs. FI_Generation i = g" and "ack \<noteq> Some kNoAckFrame"
  shows "DecodeInputBundle (Some (EncodeInputBundle inputs ack)) = Some (inputs, ack)"
proof -
  have "valid_bundle inputs"
    using assms(1,2,3) by (simp add: valid_bundle_def list_all_iff)
  then show ?thesis
    using input_bundle.dec_enc [of "(inputs, ack)"] assms(4) by simp
qed

theorem input_bundle_roundtrip_witness:
  "DecodeInputBundle (Some (EncodeInputBundle
      [\<lparr>FI_Generation = 7, FI_Frame = 100, FI_Input = InputState_default\<rparr>,
       \<lparr>FI_Generation = 7, FI_Frame = 101, FI_Input = InputState_default\<lparr>KeyMask := 0xFFE\<rparr>\<rparr>]
      (Some 95)))
   = Some ([\<lparr>FI_Generation = 7, FI_Frame = 100, FI_Input = InputState_default\<rparr>,
       \<lparr>FI_Generation = 7, FI_Frame = 101, FI_Input = InputState_default\<lparr>KeyMask := 0xFFE\<rparr>\<rparr>], Some 95)"
  by (rule input_bundle_roundtrip [where g = 7])
    (simp_all add: kMaxInputBundleEntries_def kNoAckFrame_def u32_max_def)

text \<open>The bundle encoder refuses (returns the empty payload) exactly the lists the format
  cannot carry, and whatever the decoder accepts is such a list: 1 to 32 entries, one
  generation, in a payload of exactly the size the header announces.\<close>

theorem input_bundle_accepts_only_valid:
  "(EncodeInputBundle inputs ack = [] \<longleftrightarrow>
      inputs = [] \<or> kMaxInputBundleEntries < length inputs
      \<or> (\<exists>i \<in> set inputs. FI_Generation i \<noteq> FI_Generation (hd inputs)))
   \<and> (DecodeInputBundle (Some bs) = Some (decoded, ack') \<longrightarrow>
      1 \<le> length decoded \<and> length decoded \<le> kMaxInputBundleEntries
      \<and> (\<forall>i \<in> set decoded. FI_Generation i = FI_Generation (hd decoded))
      \<and> length bs = kInputBundleHeaderSize + kInputBundleEntrySize * length decoded)"
proof (intro conjI impI)
  show "EncodeInputBundle inputs ack = [] \<longleftrightarrow>
      inputs = [] \<or> kMaxInputBundleEntries < length inputs
      \<or> (\<exists>i \<in> set inputs. FI_Generation i \<noteq> FI_Generation (hd inputs))"
    unfolding EncodeInputBundle_refuses valid_bundle_def list_all_iff by (auto simp: not_le)
next
  assume "DecodeInputBundle (Some bs) = Some (decoded, ack')"
  then have d: "valid_bundle decoded"
      "length bs = kInputBundleHeaderSize + kInputBundleEntrySize * length decoded"
    using DecodeInputBundle_SomeD by blast+
  then show "1 \<le> length decoded" "length decoded \<le> kMaxInputBundleEntries"
    by (auto simp: valid_bundle_def Suc_le_eq)
  show "length bs = kInputBundleHeaderSize + kInputBundleEntrySize * length decoded"
    by (rule d)
  show "\<forall>i \<in> set decoded. FI_Generation i = FI_Generation (hd decoded)"
    using d(1) unfolding valid_bundle_def list_all_iff by blast
qed

theorem input_bundle_accepts_only_valid_witness:
  "length (EncodeInputBundle [\<lparr>FI_Generation = 7, FI_Frame = 100, FI_Input = InputState_default\<rparr>] None)
     = kInputBundleHeaderSize + kInputBundleEntrySize * 1"
proof -
  let ?i = "\<lparr>FI_Generation = 7, FI_Frame = 100, FI_Input = InputState_default\<rparr>"
  have "DecodeInputBundle (Some (EncodeInputBundle [?i] None)) = Some ([?i], None)"
    by (simp add: DecodeInputBundle_EncodeInputBundle valid_bundle_def kMaxInputBundleEntries_def)
  then show ?thesis
    using input_bundle_accepts_only_valid [of "[]" None "EncodeInputBundle [?i] None" "[?i]" None]
    by simp
qed

end
