(* ===== verification/Input_Delivery.thy ===== *)
theory Input_Delivery
  imports Input_Protocol
begin

text \<open>
  \<^verbatim>\<open>NsmbInputDelivery.cpp\<close>: which local inputs a packet carries, the test hooks that drop or
  delay packets, the queue of delayed payloads and the acknowledgement the peer reported.
  \<open>SelectUnackedInputs\<close> is the resend window: a bundle starts right after the
  acknowledged frame and holds at most 32 consecutive frames.
\<close>

section \<open>Send decisions\<close>

record SendConfig =
  SC_UseHistoryBundle :: bool
  SC_BundleHistory :: int
  SC_DropModulo :: int
  SC_DropOffset :: int
  SC_DropStartFrame :: u32
  SC_DropEndFrame :: u32
  SC_DelayFrames :: int
  SC_JitterFrames :: int
  SC_DelayStartFrame :: u32
  SC_DelayEndFrame :: u32

definition SendConfig_default :: SendConfig where
  "SendConfig_default = \<lparr>SC_UseHistoryBundle = False, SC_BundleHistory = 0, SC_DropModulo = 0,
     SC_DropOffset = 0, SC_DropStartFrame = 0, SC_DropEndFrame = 0, SC_DelayFrames = 0,
     SC_JitterFrames = 0, SC_DelayStartFrame = 0, SC_DelayEndFrame = 0\<rparr>"

record SendDecision =
  SD_Drop :: bool
  SD_Bundle :: bool
  SD_BundleHistory :: int
  SD_DelayFrames :: int

definition DecideSend :: "u32 \<Rightarrow> SendConfig \<Rightarrow> SendDecision" where
  "DecideSend frame config =
     (let dropByModulo = 0 < SC_DropModulo config
            \<and> frame mod u32_of_int (SC_DropModulo config) = u32_of_int (SC_DropOffset config);
          dropByRange = 0 < SC_DropStartFrame config \<and> SC_DropStartFrame config \<le> frame
            \<and> (SC_DropEndFrame config = 0 \<or> frame \<le> SC_DropEndFrame config);
          history = clamp (SC_BundleHistory config) 0 31;
          delayActive = SC_DelayStartFrame config \<le> frame
            \<and> (SC_DelayEndFrame config = 0 \<or> frame \<le> SC_DelayEndFrame config);
          jitterFrames =
            (if delayActive \<and> 0 < SC_JitterFrames config
             then int_of_u32 (frame mod u32_of_int (SC_JitterFrames config + 1)) else 0)
      in \<lparr>SD_Drop = dropByModulo \<or> dropByRange,
          SD_Bundle = SC_UseHistoryBundle config \<and> 0 < history,
          SD_BundleHistory = history,
          SD_DelayFrames =
            (if delayActive then max 0 (SC_DelayFrames config) + jitterFrames else 0)\<rparr>)"

section \<open>Which inputs a packet carries\<close>

text \<open>The body of both selection loops: the stored input of a frame, or the current one.\<close>

definition bundle_entry_for ::
  "u32 \<Rightarrow> InputState \<Rightarrow> InputState frame_map \<Rightarrow> u32 \<Rightarrow> FramedInput" where
  "bundle_entry_for generation currentInput localInputs entryFrame =
     \<lparr>FI_Generation = generation, FI_Frame = entryFrame,
      FI_Input = (case fmlookup localInputs entryFrame of None \<Rightarrow> currentInput | Some i \<Rightarrow> i)\<rparr>"

definition history_entry ::
  "u32 \<Rightarrow> u32 \<Rightarrow> InputState \<Rightarrow> InputState frame_map \<Rightarrow> nat \<Rightarrow> FramedInput list" where
  "history_entry generation frame currentInput localInputs offset =
     (if frame < word_of_nat offset then []
      else [bundle_entry_for generation currentInput localInputs (frame - word_of_nat offset)])"

fun history_loop ::
  "u32 \<Rightarrow> u32 \<Rightarrow> InputState \<Rightarrow> InputState frame_map \<Rightarrow> nat \<Rightarrow> FramedInput list" where
  "history_loop generation frame currentInput localInputs 0 =
     history_entry generation frame currentInput localInputs 0"
| "history_loop generation frame currentInput localInputs (Suc offset) =
     history_entry generation frame currentInput localInputs (Suc offset)
     @ history_loop generation frame currentInput localInputs offset"

definition SelectBundleInputs ::
  "u32 \<Rightarrow> u32 \<Rightarrow> InputState \<Rightarrow> int \<Rightarrow> InputState frame_map \<Rightarrow> FramedInput list" where
  "SelectBundleInputs generation frame currentInput history localInputs =
     history_loop generation frame currentInput localInputs (nat (clamp history 0 31))"

definition unacked_first :: "u32 \<Rightarrow> InputState frame_map \<Rightarrow> u32 option \<Rightarrow> u32" where
  "unacked_first frame localInputs remoteAckFrame =
     (let first1 = (case remoteAckFrame of
            Some a \<Rightarrow> if a < frame then a + 1 else frame
          | None \<Rightarrow> (case fm_first localInputs of None \<Rightarrow> frame | Some b \<Rightarrow> min frame b));
          first2 = (case fm_first localInputs of None \<Rightarrow> first1 | Some b \<Rightarrow> max first1 b)
      in if frame < first2 then frame else first2)"

text \<open>\<open>room\<close> counts the entries still allowed, \<open>maxEntries - entries.size()\<close>.\<close>

fun unacked_loop ::
  "u32 \<Rightarrow> u32 \<Rightarrow> InputState \<Rightarrow> InputState frame_map \<Rightarrow> nat \<Rightarrow> u32 \<Rightarrow> FramedInput list" where
  "unacked_loop generation frame currentInput localInputs 0 entryFrame = []"
| "unacked_loop generation frame currentInput localInputs (Suc room) entryFrame =
     (if entryFrame \<le> frame
      then bundle_entry_for generation currentInput localInputs entryFrame
        # (if entryFrame = u32_max then []
           else unacked_loop generation frame currentInput localInputs room (entryFrame + 1))
      else [])"

definition SelectUnackedInputs ::
  "u32 \<Rightarrow> u32 \<Rightarrow> InputState \<Rightarrow> int \<Rightarrow> InputState frame_map \<Rightarrow> u32 option \<Rightarrow> FramedInput list" where
  "SelectUnackedInputs generation frame currentInput maxEntries localInputs remoteAckFrame =
     unacked_loop generation frame currentInput localInputs
       (nat (clamp maxEntries 1 (int kMaxInputBundleEntries)))
       (unacked_first frame localInputs remoteAckFrame)"

definition ShouldReleaseDelayedInput :: "u32 \<Rightarrow> time_point \<Rightarrow> u32 \<Rightarrow> time_point \<Rightarrow> bool" where
  "ShouldReleaseDelayedInput currentFrame now releaseFrame releaseTime \<longleftrightarrow>
     releaseFrame \<le> currentFrame \<or> releaseTime \<le> now"

definition SelectDelayProgressFrame :: "u32 \<Rightarrow> u32 \<Rightarrow> u32 \<Rightarrow> u32" where
  "SelectDelayProgressFrame lastSentInputFrame fallbackRawFrame noFrame =
     (if lastSentInputFrame = noFrame then fallbackRawFrame else lastSentInputFrame)"

section \<open>The delivery runtime\<close>

record PreparedSend =
  PS_Decision :: SendDecision
  PS_ImmediatePayload :: payload

datatype AckUpdate = Advanced | Stale | Future

record PendingPayload =
  PP_ReleaseFrame :: u32
  PP_ReleaseTime :: time_point
  PP_Payload :: payload

record DeliveryRuntime =
  DR_Pending :: "PendingPayload list"
  DR_RemoteAckFrame :: "u32 option"

definition DeliveryRuntime_init :: DeliveryRuntime where
  "DeliveryRuntime_init = \<lparr>DR_Pending = [], DR_RemoteAckFrame = None\<rparr>"

definition BuildPayload ::
  "u32 \<Rightarrow> u32 \<Rightarrow> InputState \<Rightarrow> int \<Rightarrow> InputState frame_map \<Rightarrow> u32 option \<Rightarrow> DeliveryRuntime \<Rightarrow> payload" where
  "BuildPayload generation frame input bundleHistory localInputs ackFrameToSend r =
     (if bundleHistory \<le> 0
      then EncodeInput \<lparr>FI_Generation = generation, FI_Frame = frame, FI_Input = input\<rparr>
      else EncodeInputBundle
        (SelectUnackedInputs generation frame input (int kMaxInputBundleEntries) localInputs
           (DR_RemoteAckFrame r))
        ackFrameToSend)"

definition Prepare ::
  "u32 \<Rightarrow> u32 \<Rightarrow> InputState \<Rightarrow> SendConfig \<Rightarrow> InputState frame_map \<Rightarrow> time_point \<Rightarrow> u32 option
   \<Rightarrow> DeliveryRuntime \<Rightarrow> PreparedSend \<times> DeliveryRuntime" where
  "Prepare generation frame input config localInputs now ackFrameToSend r =
     (let decision = DecideSend frame config in
      if SD_Drop decision then (\<lparr>PS_Decision = decision, PS_ImmediatePayload = []\<rparr>, r)
      else
        let payload = (if SD_Bundle decision
              then BuildPayload generation frame input (SD_BundleHistory decision) localInputs
                     ackFrameToSend r
              else EncodeInput \<lparr>FI_Generation = generation, FI_Frame = frame, FI_Input = input\<rparr>);
            delayFrames = SD_DelayFrames decision
        in if delayFrames \<le> 0
           then (\<lparr>PS_Decision = decision, PS_ImmediatePayload = payload\<rparr>, r)
           else (\<lparr>PS_Decision = decision, PS_ImmediatePayload = []\<rparr>,
             r\<lparr>DR_Pending := DR_Pending r @
               [\<lparr>PP_ReleaseFrame = frame + u32_of_int delayFrames,
                 PP_ReleaseTime = now + 1000000 * ((delayFrames * 1000 + 59) div 60),
                 PP_Payload = payload\<rparr>]\<rparr>))"

text \<open>The draining loop; the first component lists what was handed to \<^verbatim>\<open>send\<close>, in order.\<close>

fun drain_pending ::
  "u32 \<times> time_point \<Rightarrow> PendingPayload list \<Rightarrow> PendingPayload list \<times> PendingPayload list" where
  "drain_pending now [] = ([], [])"
| "drain_pending now (pending # rest) =
     (let (sent, kept) = drain_pending now rest in
      if ShouldReleaseDelayedInput (fst now) (snd now) (PP_ReleaseFrame pending) (PP_ReleaseTime pending)
      then (pending # sent, kept) else (sent, pending # kept))"

definition DrainDue :: "u32 \<Rightarrow> time_point \<Rightarrow> DeliveryRuntime \<Rightarrow> payload list \<times> DeliveryRuntime" where
  "DrainDue currentFrame now r =
     (let (sent, kept) = drain_pending (currentFrame, now) (DR_Pending r)
      in (map PP_Payload sent, r\<lparr>DR_Pending := kept\<rparr>))"

definition DrainAll :: "DeliveryRuntime \<Rightarrow> payload list \<times> DeliveryRuntime" where
  "DrainAll r = (map PP_Payload (DR_Pending r), r\<lparr>DR_Pending := []\<rparr>)"

definition RecordRemoteAck :: "u32 \<Rightarrow> u32 \<Rightarrow> u32 \<Rightarrow> DeliveryRuntime \<Rightarrow> AckUpdate \<times> DeliveryRuntime" where
  "RecordRemoteAck ackFrame lastSentInputFrame noFrame r =
     (if lastSentInputFrame = noFrame \<or> lastSentInputFrame < ackFrame then (Future, r)
      else if (case DR_RemoteAckFrame r of None \<Rightarrow> False | Some a \<Rightarrow> ackFrame \<le> a) then (Stale, r)
      else (Advanced, r\<lparr>DR_RemoteAckFrame := Some ackFrame\<rparr>))"

definition DeliveryClear :: "DeliveryRuntime \<Rightarrow> DeliveryRuntime" where
  "DeliveryClear r = r\<lparr>DR_Pending := [], DR_RemoteAckFrame := None\<rparr>"

definition DeliveryPendingCount :: "DeliveryRuntime \<Rightarrow> nat" where
  "DeliveryPendingCount r = length (DR_Pending r)"

section \<open>Correctness of the selection\<close>

lemma bundle_entry_for_simps [simp]:
  "FI_Generation (bundle_entry_for g cur loc f) = g"
  "FI_Frame (bundle_entry_for g cur loc f) = f"
  by (simp_all add: bundle_entry_for_def)

lemma upt_min_Suc: "map h [0..<Suc n] = h 0 # map (\<lambda>k. h (Suc k)) [0..<n]"
proof -
  have "[0..<Suc n] = 0 # map Suc [0..<n]"
    by (simp add: upt_conv_Cons map_Suc_upt del: upt_Suc)
  then show ?thesis by (simp del: upt_Suc)
qed

lemma unacked_loop_eq:
  "e \<le> frame \<Longrightarrow> unacked_loop g frame cur loc room e =
     map (\<lambda>k. bundle_entry_for g cur loc (e + word_of_nat k)) [0..<min room (Suc (unat frame - unat e))]"
proof (induction room arbitrary: e)
  case 0
  then show ?case by simp
next
  case (Suc room)
  let ?h = "\<lambda>k. bundle_entry_for g cur loc (e + word_of_nat k)"
  show ?case
  proof (cases "e = frame")
    case True
    have "unacked_loop g frame cur loc room (e + 1) = []" if "e \<noteq> u32_max"
      using that True by (cases room) (simp_all add: u32_Suc_le)
    with True show ?thesis by simp
  next
    case False
    with Suc.prems have lt: "e < frame" by simp
    then have nm: "e \<noteq> u32_max" and le: "e + 1 \<le> frame"
      by (auto simp: u32_less_imp_not_max u32_Suc_le)
    have d: "Suc (unat frame - unat e) = Suc (Suc (unat frame - unat (e + 1)))"
      using lt nm by (simp add: unat_Suc_u32 word_less_nat_alt)
    have "map ?h [0..<Suc (min room (Suc (unat frame - unat (e + 1))))]
        = ?h 0 # map (\<lambda>k. ?h (Suc k)) [0..<min room (Suc (unat frame - unat (e + 1)))]"
      by (rule upt_min_Suc)
    moreover have "(\<lambda>k. ?h (Suc k)) = (\<lambda>k. bundle_entry_for g cur loc (e + 1 + word_of_nat k))"
      by (simp add: fun_eq_iff ac_simps)
    ultimately show ?thesis
      using Suc.prems nm Suc.IH [OF le] by (simp add: d)
  qed
qed

lemma unacked_first_le: "unacked_first frame loc ack \<le> frame"
  by (auto simp: unacked_first_def Let_def not_less)

lemma unacked_first_after_ack:
  assumes "a < frame" and "a + 1 \<in> fmdom' loc"
  shows "unacked_first frame loc (Some a) \<le> a + 1"
proof -
  have "a + 1 \<le> frame"
    using assms(1) by (simp add: u32_Suc_le u32_less_imp_not_max)
  moreover have "b \<le> a + 1" if "fm_first loc = Some b" for b
    using that assms(2) by (auto simp: fm_first_Some)
  ultimately show ?thesis
    using assms(1) by (auto simp: unacked_first_def Let_def split: option.splits)
qed

lemma unacked_first_eq:
  assumes "a < frame" and "a + 1 \<in> fmdom' loc"
  shows "unacked_first frame loc (Some a) = a + 1"
proof (rule antisym)
  show "unacked_first frame loc (Some a) \<le> a + 1"
    by (rule unacked_first_after_ack [OF assms])
  have "a + 1 \<le> frame"
    using assms(1) by (simp add: u32_Suc_le u32_less_imp_not_max)
  then show "a + 1 \<le> unacked_first frame loc (Some a)"
    using assms(1) by (auto simp: unacked_first_def Let_def le_max_iff_disj split: option.splits)
qed

lemma SelectUnackedInputs_eq:
  "SelectUnackedInputs g frame cur (int kMaxInputBundleEntries) loc ack =
     (let first = unacked_first frame loc ack in
      map (\<lambda>k. bundle_entry_for g cur loc (first + word_of_nat k))
        [0..<min kMaxInputBundleEntries (Suc (unat frame - unat first))])"
  by (simp add: SelectUnackedInputs_def unacked_loop_eq unacked_first_le Let_def clamp_def
      kMaxInputBundleEntries_def)

lemma valid_bundle_SelectUnackedInputs:
  "valid_bundle (SelectUnackedInputs g frame cur (int kMaxInputBundleEntries) loc ack)"
proof -
  let ?first = "unacked_first frame loc ack"
  define n where "n = min kMaxInputBundleEntries (Suc (unat frame - unat ?first))"
  have "n \<noteq> 0" "n \<le> kMaxInputBundleEntries"
    by (auto simp: n_def kMaxInputBundleEntries_def)
  then show ?thesis
    unfolding SelectUnackedInputs_eq Let_def n_def [symmetric] valid_bundle_def
    by (auto simp: list_all_iff hd_map)
qed

text \<open>The frames of a bundle, as a set: everything from the first unacknowledged frame on, up to
  the current frame and the wire limit.\<close>

lemma unat_add_offset:
  "(first :: u32) \<le> frame \<Longrightarrow> k \<le> unat frame - unat first \<Longrightarrow> unat (first + word_of_nat k) = unat first + k"
proof -
  assume a: "first \<le> frame" "k \<le> unat frame - unat first"
  then have "unat first + k \<le> unat frame"
    by (simp add: word_le_nat_alt)
  with unat_u32_less [of frame] show ?thesis
    by (simp add: unat_word_ariths unat_of_nat)
qed

lemma frame_in_SelectUnackedInputs:
  assumes "unacked_first frame loc ack \<le> f" and "f \<le> frame"
    and "unat f - unat (unacked_first frame loc ack) < kMaxInputBundleEntries"
  shows "bundle_entry_for g cur loc f
     \<in> set (SelectUnackedInputs g frame cur (int kMaxInputBundleEntries) loc ack)"
proof -
  let ?first = "unacked_first frame loc ack" and ?k = "unat f - unat (unacked_first frame loc ack)"
  have k: "?k < min kMaxInputBundleEntries (Suc (unat frame - unat ?first))"
    using assms by (auto simp: word_le_nat_alt)
  have "unat (?first + word_of_nat ?k) = unat f"
    using assms k unat_add_offset [OF unacked_first_le, of ?k frame loc ack]
    by (simp add: word_le_nat_alt)
  then have "f = ?first + word_of_nat ?k"
    by (simp add: word_unat_eq_iff)
  then have "bundle_entry_for g cur loc f
      = (\<lambda>k. bundle_entry_for g cur loc (?first + word_of_nat k)) ?k"
    by simp
  with k show ?thesis
    unfolding SelectUnackedInputs_eq Let_def set_map by (metis atLeastLessThan_iff imageI le0 set_upt)
qed

section \<open>The queue and the acknowledgement\<close>

definition pending_due :: "u32 \<times> time_point \<Rightarrow> PendingPayload \<Rightarrow> bool" where
  "pending_due now p =
     ShouldReleaseDelayedInput (fst now) (snd now) (PP_ReleaseFrame p) (PP_ReleaseTime p)"

interpretation delivery_queue: release_queue pending_due drain_pending
  by unfold_locales (simp_all add: pending_due_def)

text \<open>The calls that change the delivery runtime, for the invariant over any sequence of them.\<close>

datatype delivery_call =
    CallPrepare u32 u32 InputState SendConfig "InputState frame_map" time_point "u32 option"
  | CallDrainDue u32 time_point
  | CallDrainAll
  | CallRecordRemoteAck u32 u32 u32

fun delivery_step :: "DeliveryRuntime \<Rightarrow> delivery_call \<Rightarrow> DeliveryRuntime" where
  "delivery_step r (CallPrepare g f i c loc now ack) = snd (Prepare g f i c loc now ack r)"
| "delivery_step r (CallDrainDue f now) = snd (DrainDue f now r)"
| "delivery_step r CallDrainAll = snd (DrainAll r)"
| "delivery_step r (CallRecordRemoteAck a s n) = snd (RecordRemoteAck a s n r)"

definition ack_at_least :: "u32 option \<Rightarrow> DeliveryRuntime \<Rightarrow> bool" where
  "ack_at_least a r = (case a of None \<Rightarrow> True
     | Some x \<Rightarrow> (case DR_RemoteAckFrame r of None \<Rightarrow> False | Some y \<Rightarrow> x \<le> y))"

lemma Prepare_ack [simp]:
  "DR_RemoteAckFrame (snd (Prepare g f i c loc now ack r)) = DR_RemoteAckFrame r"
  by (simp add: Prepare_def Let_def)

lemma DrainDue_ack [simp]: "DR_RemoteAckFrame (snd (DrainDue f now r)) = DR_RemoteAckFrame r"
  by (simp add: DrainDue_def split: prod.splits)

lemma DrainAll_ack [simp]: "DR_RemoteAckFrame (snd (DrainAll r)) = DR_RemoteAckFrame r"
  by (simp add: DrainAll_def)

interpretation delivery_ack: state_machine delivery_step "ack_at_least a" for a
proof unfold_locales
  fix r e assume "ack_at_least a r"
  then show "ack_at_least a (delivery_step r e)"
    by (cases e) (auto simp: ack_at_least_def RecordRemoteAck_def split: option.splits)
qed

section \<open>Properties\<close>

text \<open>C23: the bundle the delivery layer builds is always accepted by the peer's decoder and gives
  back the selected inputs and the piggybacked acknowledgement; the selection never overflows the
  32 entry wire limit and is never empty.\<close>

theorem build_payload_decodes:
  assumes "0 < bundleHistory" and "ackFrameToSend \<noteq> Some kNoAckFrame"
  shows "DecodeInputBundle (Some (BuildPayload generation frame input bundleHistory localInputs
       ackFrameToSend r))
     = Some (SelectUnackedInputs generation frame input (int kMaxInputBundleEntries) localInputs
         (DR_RemoteAckFrame r), ackFrameToSend)"
  using assms valid_bundle_SelectUnackedInputs
  by (simp add: BuildPayload_def DecodeInputBundle_EncodeInputBundle)

theorem build_payload_decodes_witness:
  "DecodeInputBundle (Some (BuildPayload 1 5 InputState_default 12 (fmupd 5 InputState_default fmempty)
       (Some 3) DeliveryRuntime_init))
     = Some (SelectUnackedInputs 1 5 InputState_default (int kMaxInputBundleEntries)
         (fmupd 5 InputState_default fmempty) (DR_RemoteAckFrame DeliveryRuntime_init), Some 3)"
  by (rule build_payload_decodes) (simp_all add: kNoAckFrame_def u32_max_def)

text \<open>The resend window. With the peer's acknowledgement at \<open>a\<close> and every later local input
  still stored, the bundle built for \<open>frame\<close> carries, for each of the next 32 frames after
  \<open>a\<close> (up to \<open>frame\<close>), exactly the input stored for that frame.\<close>

theorem unacked_window_complete:
  assumes "a < frame" and "\<forall>f. a < f \<and> f \<le> frame \<longrightarrow> fmlookup localInputs f = Some (stored f)"
    and "a < f" and "f \<le> frame"
    and "unat f - unat a \<le> kMaxInputBundleEntries"
  shows "\<lparr>FI_Generation = generation, FI_Frame = f, FI_Input = stored f\<rparr>
     \<in> set (SelectUnackedInputs generation frame input (int kMaxInputBundleEntries) localInputs (Some a))"
proof -
  have nm: "a \<noteq> u32_max" and le: "a + 1 \<le> f"
    using assms(3) by (auto simp: u32_less_imp_not_max u32_Suc_le)
  have "a + 1 \<in> fmdom' localInputs"
    using assms(1,2) nm by (intro fmdom'I [of _ _ "stored (a + 1)"])
      (auto simp: u32_less_Suc u32_Suc_le)
  then have first: "unacked_first frame localInputs (Some a) = a + 1"
    by (rule unacked_first_eq [OF assms(1)])
  have "unat f - unat (a + 1) < kMaxInputBundleEntries"
    using assms(3,5) nm by (simp add: unat_Suc_u32 word_less_nat_alt)
  with le assms(4) have "bundle_entry_for generation input localInputs f
      \<in> set (SelectUnackedInputs generation frame input (int kMaxInputBundleEntries) localInputs (Some a))"
    by (intro frame_in_SelectUnackedInputs) (simp_all add: first)
  moreover have "bundle_entry_for generation input localInputs f
      = \<lparr>FI_Generation = generation, FI_Frame = f, FI_Input = stored f\<rparr>"
    using assms(2,3,4) by (simp add: bundle_entry_for_def)
  ultimately show ?thesis
    by simp
qed

theorem unacked_window_complete_witness:
  "\<lparr>FI_Generation = 1, FI_Frame = 11, FI_Input = InputState_default\<rparr>
     \<in> set (SelectUnackedInputs 1 11 InputState_default (int kMaxInputBundleEntries)
          (fmupd 11 InputState_default fmempty) (Some 10))"
proof (rule unacked_window_complete [where stored = "\<lambda>_. InputState_default"])
  show "\<forall>f. (10 :: u32) < f \<and> f \<le> 11 \<longrightarrow>
      fmlookup (fmupd 11 InputState_default fmempty) f = Some InputState_default"
  proof (intro allI impI)
    fix f :: u32 assume "10 < f \<and> f \<le> 11"
    then have "unat f = 11" by (simp add: word_less_nat_alt word_le_nat_alt)
    then have "f = 11" by (simp add: word_unat_eq_iff)
    then show "fmlookup (fmupd 11 InputState_default fmempty) f = Some InputState_default"
      by simp
  qed
qed (simp_all add: kMaxInputBundleEntries_def)

text \<open>Whatever sequence of sends, drains and acknowledgement reports runs, the recorded
  acknowledgement never moves backwards; a report changes it only when it is beyond the recorded
  one and not beyond the last frame that was sent.\<close>

theorem remote_ack_monotone:
  "(case DR_RemoteAckFrame r of None \<Rightarrow> True
    | Some x \<Rightarrow> \<exists>y. DR_RemoteAckFrame (foldl delivery_step r calls) = Some y \<and> x \<le> y)
   \<and> (let (u, r') = RecordRemoteAck ack lastSent noFrame r in
      (u = Advanced \<longleftrightarrow> r' = r\<lparr>DR_RemoteAckFrame := Some ack\<rparr> \<and> lastSent \<noteq> noFrame \<and> ack \<le> lastSent
         \<and> (\<forall>x. DR_RemoteAckFrame r = Some x \<longrightarrow> x < ack))
      \<and> (u \<noteq> Advanced \<longrightarrow> r' = r))"
proof (rule conjI)
  have "ack_at_least (DR_RemoteAckFrame r) (foldl delivery_step r calls)"
    by (rule delivery_ack.run_inv) (simp add: ack_at_least_def split: option.splits)
  then show "case DR_RemoteAckFrame r of None \<Rightarrow> True
    | Some x \<Rightarrow> \<exists>y. DR_RemoteAckFrame (foldl delivery_step r calls) = Some y \<and> x \<le> y"
    by (auto simp: ack_at_least_def split: option.splits)
qed (auto simp: RecordRemoteAck_def not_le split: option.splits)

theorem remote_ack_monotone_witness:
  "fst (RecordRemoteAck 5 9 0xFFFFFFFF DeliveryRuntime_init) = Advanced"
  using remote_ack_monotone [of DeliveryRuntime_init "[]" 5 9 "0xFFFFFFFF"]
  by (simp add: RecordRemoteAck_def DeliveryRuntime_init_def)

text \<open>A delayed payload is neither lost nor duplicated nor reordered: a drain hands out exactly
  the due payloads in queue order and keeps exactly the others, and a drain at a frame past every
  release frame empties the queue.\<close>

theorem drain_due_conserves:
  "DrainDue frame now r =
     (map PP_Payload (filter (pending_due (frame, now)) (DR_Pending r)),
      r\<lparr>DR_Pending := filter (\<lambda>p. \<not> pending_due (frame, now) p) (DR_Pending r)\<rparr>)
   \<and> mset (fst (DrainDue frame now r)) + mset (map PP_Payload (DR_Pending (snd (DrainDue frame now r))))
     = mset (map PP_Payload (DR_Pending r))
   \<and> ((\<forall>p \<in> set (DR_Pending r). PP_ReleaseFrame p \<le> frame) \<longrightarrow>
      DrainDue frame now r = (map PP_Payload (DR_Pending r), r\<lparr>DR_Pending := []\<rparr>))"
proof -
  have eq: "DrainDue frame now r =
     (map PP_Payload (filter (pending_due (frame, now)) (DR_Pending r)),
      r\<lparr>DR_Pending := filter (\<lambda>p. \<not> pending_due (frame, now) p) (DR_Pending r)\<rparr>)"
    by (simp add: DrainDue_def delivery_queue.drain_filter)
  moreover have "image_mset PP_Payload (mset (filter (pending_due (frame, now)) (DR_Pending r)))
      + image_mset PP_Payload (mset (filter (\<lambda>p. \<not> pending_due (frame, now) p) (DR_Pending r)))
      = image_mset PP_Payload (mset (DR_Pending r))"
    using delivery_queue.drain_conserves [of "(frame, now)" "DR_Pending r"]
    by (simp add: delivery_queue.drain_filter flip: image_mset_union mset_filter)
  moreover have "pending_due (frame, now) p" if "PP_ReleaseFrame p \<le> frame" for p
    using that by (simp add: pending_due_def ShouldReleaseDelayedInput_def)
  ultimately show ?thesis
    by (simp add: mset_map filter_empty_conv)
qed

theorem drain_due_conserves_witness:
  "DrainDue 9 0 (DeliveryRuntime_init\<lparr>DR_Pending :=
       [\<lparr>PP_ReleaseFrame = 8, PP_ReleaseTime = 50, PP_Payload = [1]\<rparr>]\<rparr>)
   = ([[1]], DeliveryRuntime_init)"
  using drain_due_conserves [of 9 0 "DeliveryRuntime_init\<lparr>DR_Pending :=
       [\<lparr>PP_ReleaseFrame = 8, PP_ReleaseTime = 50, PP_Payload = [1]\<rparr>]\<rparr>"]
  by (simp add: DeliveryRuntime_init_def pending_due_def ShouldReleaseDelayedInput_def)

end
