(* ===== verification/Input_Timeline.thy ===== *)
theory Input_Timeline
  imports Nsmb_Prelude
begin

text \<open>
  \<^verbatim>\<open>NsmbInputTimeline.cpp\<close>, the input history of a match: \<open>PredictionRuntime\<close> guesses the
  remote input of a frame that has not arrived and remembers the guess, so that a later
  confirmation can ask for a rollback; \<open>TimelineRuntime\<close> holds the local and remote inputs
  and the highest frame up to which every remote input has arrived (which is what the
  peer is told in acknowledgements). The counters are 32 bit and wrap.
\<close>

section \<open>Predictions\<close>

record PredictionProbe =
  PB_Modulo :: int
  PB_Offset :: int
  PB_Limit :: int
  PB_StartFrame :: u32
  PB_EndFrame :: "u32 option"
  PB_KeyMask :: u32
  PB_RetainConfirmation :: bool

definition PredictionProbe_default :: PredictionProbe where
  "PredictionProbe_default = \<lparr>PB_Modulo = 0, PB_Offset = 0, PB_Limit = -1, PB_StartFrame = 0,
     PB_EndFrame = None, PB_KeyMask = 1, PB_RetainConfirmation = False\<rparr>"

record ConfirmedInputResult =
  CR_Mismatch :: bool
  CR_FrameAlreadySimulated :: bool
  CR_PredictedInput :: InputState

definition ConfirmedInputResult_default :: ConfirmedInputResult where
  "ConfirmedInputResult_default = \<lparr>CR_Mismatch = False, CR_FrameAlreadySimulated = False,
     CR_PredictedInput = InputState_default\<rparr>"

record PredictionRuntime =
  PR_Predictions :: "InputState frame_map"
  PR_ProbeConfirmations :: "InputState frame_map"
  PR_PendingRollbackFrame :: "u32 option"
  PR_PendingRollbackObservedFrame :: "u32 option"
  PR_PredictionCount :: u32
  PR_PredictionProbeCount :: u32
  PR_MismatchCount :: u32

definition PredictionRuntime_init :: PredictionRuntime where
  "PredictionRuntime_init = \<lparr>PR_Predictions = fmempty, PR_ProbeConfirmations = fmempty,
     PR_PendingRollbackFrame = None, PR_PendingRollbackObservedFrame = None,
     PR_PredictionCount = 0, PR_PredictionProbeCount = 0, PR_MismatchCount = 0\<rparr>"

text \<open>\<^verbatim>\<open>Confirm\<close>: the part that runs when the frame was already simulated with a wrong guess.\<close>

definition note_rollback :: "u32 \<Rightarrow> u32 option \<Rightarrow> PredictionRuntime \<Rightarrow> PredictionRuntime" where
  "note_rollback frame localFrame p =
     (let observedFrame = (case localFrame of None \<Rightarrow> frame | Some l \<Rightarrow> l) in
      if (case PR_PendingRollbackFrame p of None \<Rightarrow> True | Some q \<Rightarrow> frame < q)
      then p\<lparr>PR_PendingRollbackFrame := Some frame, PR_PendingRollbackObservedFrame := Some observedFrame\<rparr>
      else if PR_PendingRollbackObservedFrame p = None
      then p\<lparr>PR_PendingRollbackObservedFrame := Some observedFrame\<rparr>
      else p)"

definition Confirm ::
  "u32 \<Rightarrow> InputState \<Rightarrow> u32 option \<Rightarrow> PredictionRuntime \<Rightarrow> ConfirmedInputResult \<times> PredictionRuntime" where
  "Confirm frame input localFrame p =
     (let (result, p1) =
        (case fmlookup (PR_Predictions p) frame of
           None \<Rightarrow> (ConfirmedInputResult_default, p)
         | Some predicted \<Rightarrow>
             if InputsEqual predicted input then (ConfirmedInputResult_default, p)
             else
               let simulated = (case localFrame of None \<Rightarrow> True | Some l \<Rightarrow> frame < l);
                   pm = p\<lparr>PR_MismatchCount := PR_MismatchCount p + 1\<rparr>;
                   pr = (if simulated then note_rollback frame localFrame pm else pm)
               in (\<lparr>CR_Mismatch = True, CR_FrameAlreadySimulated = simulated,
                    CR_PredictedInput = predicted\<rparr>,
                   pr\<lparr>PR_Predictions := fmfilter (\<lambda>k. k < frame) (PR_Predictions pr),
                      PR_ProbeConfirmations := fmfilter (\<lambda>k. k < frame) (PR_ProbeConfirmations pr)\<rparr>))
      in (result, p1\<lparr>PR_ProbeConfirmations := fmdrop frame (PR_ProbeConfirmations p1)\<rparr>))"

definition apply_probe :: "u32 \<Rightarrow> PredictionProbe \<Rightarrow> PredictionRuntime \<Rightarrow> bool" where
  "apply_probe frame probe p \<longleftrightarrow>
     (let belowProbeLimit = PB_Limit probe < 0 \<or> PR_PredictionProbeCount p < u32_of_int (PB_Limit probe);
          insideProbeRange = PB_StartFrame probe \<le> frame
            \<and> (case PB_EndFrame probe of None \<Rightarrow> True | Some e \<Rightarrow> frame \<le> e)
      in 0 < PB_Modulo probe \<and> belowProbeLimit \<and> insideProbeRange
         \<and> frame mod u32_of_int (PB_Modulo probe) = u32_of_int (PB_Offset probe))"

definition toggle_keys :: "PredictionProbe \<Rightarrow> InputState \<Rightarrow> InputState" where
  "toggle_keys probe input = input\<lparr>KeyMask := KeyMask input XOR (PB_KeyMask probe AND 0xFFF)\<rparr>"

text \<open>The guess for a frame with neither a confirmed input nor an earlier guess.\<close>

definition predict_base ::
  "u32 \<Rightarrow> InputState frame_map \<Rightarrow> InputState \<Rightarrow> PredictionRuntime \<Rightarrow> InputState" where
  "predict_base frame confirmedInputs neutralInput p =
     (case (if 0 < frame then fmlookup (PR_Predictions p) (frame - 1) else None) of
        Some previous \<Rightarrow> previous
      | None \<Rightarrow>
          (case fm_last_below frame confirmedInputs of
             None \<Rightarrow> neutralInput
           | Some prior \<Rightarrow> (case fmlookup confirmedInputs prior of None \<Rightarrow> neutralInput | Some i \<Rightarrow> i)))"

definition Resolve ::
  "u32 \<Rightarrow> InputState frame_map \<Rightarrow> InputState \<Rightarrow> PredictionProbe \<Rightarrow> PredictionRuntime
   \<Rightarrow> (InputState \<times> bool) \<times> PredictionRuntime" where
  "Resolve frame confirmedInputs neutralInput probe p =
     (let applyProbe = apply_probe frame probe p in
      case fmlookup confirmedInputs frame of
        Some confirmed \<Rightarrow>
          if applyProbe \<and> PB_RetainConfirmation probe then
            let input = toggle_keys probe confirmed in
            ((input, True),
             p\<lparr>PR_ProbeConfirmations := fmupd frame confirmed (PR_ProbeConfirmations p),
               PR_Predictions := fmupd frame input (PR_Predictions p),
               PR_PredictionProbeCount := PR_PredictionProbeCount p + 1,
               PR_PredictionCount := PR_PredictionCount p + 1\<rparr>)
          else ((confirmed, False), p)
      | None \<Rightarrow>
          (case fmlookup (PR_Predictions p) frame of
             Some existing \<Rightarrow> ((existing, True), p)
           | None \<Rightarrow>
               let base = predict_base frame confirmedInputs neutralInput p;
                   pp = (if applyProbe
                     then p\<lparr>PR_ProbeConfirmations := (if PB_RetainConfirmation probe
                              then fm_emplace frame base (PR_ProbeConfirmations p)
                              else PR_ProbeConfirmations p),
                            PR_PredictionProbeCount := PR_PredictionProbeCount p + 1\<rparr>
                     else p);
                   input = (if applyProbe then toggle_keys probe base else base)
               in ((input, True),
                   pp\<lparr>PR_Predictions := fm_emplace frame input (PR_Predictions pp),
                      PR_PredictionCount := PR_PredictionCount pp + 1\<rparr>)))"

definition PredictionPrune :: "u32 \<Rightarrow> u32 \<Rightarrow> InputState frame_map \<Rightarrow> PredictionRuntime \<Rightarrow> PredictionRuntime" where
  "PredictionPrune currentFrame window confirmedInputs p =
     (let keepFrom = (if window < currentFrame then currentFrame - window else 0)
      in p\<lparr>PR_Predictions := fmfilter
            (\<lambda>k. \<not> (k < keepFrom \<and> fmlookup confirmedInputs k \<noteq> None)) (PR_Predictions p)\<rparr>)"

definition ClearPredictions :: "PredictionRuntime \<Rightarrow> PredictionRuntime" where
  "ClearPredictions p = p\<lparr>PR_Predictions := fmempty, PR_ProbeConfirmations := fmempty\<rparr>"

definition ClearPendingRollbackFrame :: "PredictionRuntime \<Rightarrow> PredictionRuntime" where
  "ClearPendingRollbackFrame p = p\<lparr>PR_PendingRollbackFrame := None\<rparr>"

definition ClearPendingRollback :: "PredictionRuntime \<Rightarrow> PredictionRuntime" where
  "ClearPendingRollback p =
     p\<lparr>PR_PendingRollbackFrame := None, PR_PendingRollbackObservedFrame := None\<rparr>"

definition PredictionResetForRestart :: "PredictionRuntime \<Rightarrow> PredictionRuntime" where
  "PredictionResetForRestart p = ClearPendingRollback (ClearPredictions p)"

definition TakePredictionProbeConfirmation ::
  "u32 \<Rightarrow> PredictionRuntime \<Rightarrow> InputState option \<times> PredictionRuntime" where
  "TakePredictionProbeConfirmation frame p =
     (case fmlookup (PR_ProbeConfirmations p) frame of
        None \<Rightarrow> (None, p)
      | Some input \<Rightarrow>
          (Some input, p\<lparr>PR_ProbeConfirmations := fmdrop frame (PR_ProbeConfirmations p)\<rparr>))"

definition TakePredictionProbeConfirmationAtOrBefore ::
  "u32 \<Rightarrow> PredictionRuntime \<Rightarrow> (u32 \<times> InputState) option \<times> PredictionRuntime" where
  "TakePredictionProbeConfirmationAtOrBefore frame p =
     (case fm_first (PR_ProbeConfirmations p) of
        None \<Rightarrow> (None, p)
      | Some first \<Rightarrow>
          if frame < first then (None, p)
          else (map_option (Pair first) (fmlookup (PR_ProbeConfirmations p) first),
                p\<lparr>PR_ProbeConfirmations := fmdrop first (PR_ProbeConfirmations p)\<rparr>))"

section \<open>The timeline runtime\<close>

text \<open>
  The health and trace markers of the source are kept: all of them are reset together.
\<close>

record TimelineRuntime =
  TR_RollbackInputs :: PredictionRuntime
  TR_LocalInputs :: "InputState frame_map"
  TR_RemoteInputs :: "InputState frame_map"
  TR_LastInputFrameLeadResendAt :: time_point
  TR_InputFrameLeadResendCount :: int
  TR_LastTracedSentInputFrame :: u32
  TR_LastTracedReceivedInputFrame :: u32
  TR_LastReceivedInputFrame :: u32
  TR_LastSentInputFrame :: u32
  TR_LastInputHealthSummaryFrame :: u32
  TR_LastInputHealthRemoteWaitFrame :: u32
  TR_LastInputHealthThrottleFrame :: u32
  TR_LastInputHealthThrottleResolvedFrame :: u32
  TR_LastInputHealthReceiveGapFrame :: u32
  TR_LastInputHealthSendGapFrame :: u32
  TR_LastInputFrameThrottleTraceFrame :: u32
  TR_LastRollbackHorizonTraceFrame :: u32
  TR_RemoteInputWaitCount :: u64
  TR_RemoteInputWaitLoops :: u64
  TR_RemoteInputWaitUs :: u64
  TR_RemoteInputWaitMaxUs :: u64
  TR_FrameLeadThrottleCount :: u64
  TR_FrameLeadThrottleLoops :: u64
  TR_FrameLeadThrottleUs :: u64
  TR_FrameLeadThrottleMaxUs :: u64
  TR_RemoteInputEpochStartFrame :: "u32 option"
  TR_HighestContiguousRemoteFrame :: "u32 option"

definition TimelineRuntime_init :: TimelineRuntime where
  "TimelineRuntime_init = \<lparr>TR_RollbackInputs = PredictionRuntime_init, TR_LocalInputs = fmempty,
     TR_RemoteInputs = fmempty, TR_LastInputFrameLeadResendAt = 0, TR_InputFrameLeadResendCount = 0,
     TR_LastTracedSentInputFrame = 0, TR_LastTracedReceivedInputFrame = 0,
     TR_LastReceivedInputFrame = 0, TR_LastSentInputFrame = 0, TR_LastInputHealthSummaryFrame = 0,
     TR_LastInputHealthRemoteWaitFrame = 0, TR_LastInputHealthThrottleFrame = 0,
     TR_LastInputHealthThrottleResolvedFrame = 0, TR_LastInputHealthReceiveGapFrame = 0,
     TR_LastInputHealthSendGapFrame = 0, TR_LastInputFrameThrottleTraceFrame = 0,
     TR_LastRollbackHorizonTraceFrame = 0, TR_RemoteInputWaitCount = 0, TR_RemoteInputWaitLoops = 0,
     TR_RemoteInputWaitUs = 0, TR_RemoteInputWaitMaxUs = 0, TR_FrameLeadThrottleCount = 0,
     TR_FrameLeadThrottleLoops = 0, TR_FrameLeadThrottleUs = 0, TR_FrameLeadThrottleMaxUs = 0,
     TR_RemoteInputEpochStartFrame = None, TR_HighestContiguousRemoteFrame = None\<rparr>"

definition TimelineResetForRestart :: "u32 \<Rightarrow> TimelineRuntime \<Rightarrow> TimelineRuntime" where
  "TimelineResetForRestart noFrameLimit t =
     t\<lparr>TR_LocalInputs := fmempty, TR_RemoteInputs := fmempty,
       TR_RollbackInputs := PredictionResetForRestart (TR_RollbackInputs t),
       TR_LastReceivedInputFrame := noFrameLimit, TR_LastSentInputFrame := noFrameLimit,
       TR_LastTracedSentInputFrame := noFrameLimit, TR_LastTracedReceivedInputFrame := noFrameLimit,
       TR_LastInputHealthSummaryFrame := noFrameLimit,
       TR_LastInputHealthRemoteWaitFrame := noFrameLimit,
       TR_LastInputHealthThrottleFrame := noFrameLimit,
       TR_LastInputHealthThrottleResolvedFrame := noFrameLimit,
       TR_LastInputHealthReceiveGapFrame := noFrameLimit,
       TR_LastInputHealthSendGapFrame := noFrameLimit,
       TR_LastInputFrameThrottleTraceFrame := noFrameLimit,
       TR_LastRollbackHorizonTraceFrame := noFrameLimit,
       TR_LastInputFrameLeadResendAt := 0, TR_InputFrameLeadResendCount := 0,
       TR_RemoteInputEpochStartFrame := None, TR_HighestContiguousRemoteFrame := None\<rparr>"

text \<open>The loop of \<^verbatim>\<open>AdvanceContiguousRemoteFrame\<close>; the frame counter never wraps because the
  loop stops at the last frame.\<close>

function advance_loop :: "InputState frame_map \<Rightarrow> u32 \<Rightarrow> u32 option \<Rightarrow> u32 option" where
  "advance_loop remoteInputs nextFrame highest =
     (if fmlookup remoteInputs nextFrame = None then highest
      else if nextFrame = u32_max then Some nextFrame
      else advance_loop remoteInputs (nextFrame + 1) (Some nextFrame))"
  by pat_completeness auto
termination
proof (relation "measure (\<lambda>(_, n, _). 2 ^ 32 - unat (n :: u32))")
  fix m :: "InputState frame_map" and n :: u32 and h :: "u32 option"
  assume "n \<noteq> u32_max"
  then have "unat (n + 1) = Suc (unat n)"
    by (rule unat_Suc_u32)
  moreover have "unat n < 2 ^ 32"
    by (rule unat_u32_less)
  ultimately show "((m, n + 1, Some n), m, n, h) \<in> measure (\<lambda>(_, n, _). 2 ^ 32 - unat (n :: u32))"
    by simp
qed simp

declare advance_loop.simps [simp del]

definition AdvanceContiguousRemoteFrame :: "TimelineRuntime \<Rightarrow> TimelineRuntime" where
  "AdvanceContiguousRemoteFrame t =
     (case TR_RemoteInputEpochStartFrame t of
        None \<Rightarrow> t
      | Some start \<Rightarrow>
          if TR_HighestContiguousRemoteFrame t = Some u32_max then t
          else
            let nextFrame = (case TR_HighestContiguousRemoteFrame t of
                  None \<Rightarrow> start | Some h \<Rightarrow> h + 1)
            in t\<lparr>TR_HighestContiguousRemoteFrame :=
                 advance_loop (TR_RemoteInputs t) nextFrame (TR_HighestContiguousRemoteFrame t)\<rparr>)"

record RemoteInputStoreResult =
  RS_PreviousLastReceived :: u32
  RS_Confirmation :: ConfirmedInputResult

definition StoreRemote ::
  "u32 \<Rightarrow> InputState \<Rightarrow> u32 option \<Rightarrow> bool \<Rightarrow> u32 \<Rightarrow> TimelineRuntime
   \<Rightarrow> RemoteInputStoreResult \<times> TimelineRuntime" where
  "StoreRemote frame input localFrame confirmPrediction noFrameLimit t =
     (let (confirmation, p) = (if confirmPrediction
            then Confirm frame input localFrame (TR_RollbackInputs t)
            else (ConfirmedInputResult_default, TR_RollbackInputs t));
          last = TR_LastReceivedInputFrame t
      in (\<lparr>RS_PreviousLastReceived = last, RS_Confirmation = confirmation\<rparr>,
          AdvanceContiguousRemoteFrame
            (t\<lparr>TR_RollbackInputs := p, TR_RemoteInputs := fmupd frame input (TR_RemoteInputs t),
               TR_LastReceivedInputFrame :=
                 (if last = noFrameLimit \<or> last < frame then frame else last)\<rparr>)))"

definition PruneHistory :: "u32 \<Rightarrow> TimelineRuntime \<Rightarrow> TimelineRuntime" where
  "PruneHistory keepFromFrame t =
     t\<lparr>TR_LocalInputs := fmfilter (\<lambda>k. keepFromFrame \<le> k) (TR_LocalInputs t),
       TR_RemoteInputs := fmfilter (\<lambda>k. keepFromFrame \<le> k) (TR_RemoteInputs t)\<rparr>"

text \<open>The priming loop of \<^verbatim>\<open>PrimeEpoch\<close>: neutral inputs for the frames before the delay is over.\<close>

function prime_loop ::
  "u32 \<Rightarrow> u32 \<Rightarrow> InputState \<Rightarrow> InputState frame_map \<Rightarrow> InputState frame_map" where
  "prime_loop frame firstInputFrame neutralInput inputs =
     (if frame < firstInputFrame
      then prime_loop (frame + 1) firstInputFrame neutralInput (fm_emplace frame neutralInput inputs)
      else inputs)"
  by pat_completeness auto
termination
proof (relation "measure (\<lambda>(f, l, _, _). unat (l :: u32) - unat f)")
  fix f l :: u32 and i :: InputState and m :: "InputState frame_map"
  assume lt: "f < l"
  then have "unat (f + 1) = Suc (unat f)"
    by (simp add: unat_Suc_u32 u32_less_imp_not_max)
  with lt show "((f + 1, l, i, fm_emplace f i m), f, l, i, m) \<in> measure (\<lambda>(f, l, _, _). unat (l :: u32) - unat f)"
    by (simp add: word_less_nat_alt)
qed simp

declare prime_loop.simps [simp del]

definition PrimeEpoch :: "u32 \<Rightarrow> u32 \<Rightarrow> InputState \<Rightarrow> u32 \<Rightarrow> TimelineRuntime \<Rightarrow> TimelineRuntime" where
  "PrimeEpoch startFrame delay neutralInput noFrameLimit t =
     (let t1 = PruneHistory startFrame t;
          firstInputFrame = startFrame + delay;
          t2 = t1\<lparr>TR_RemoteInputEpochStartFrame := Some startFrame,
                  TR_HighestContiguousRemoteFrame := None,
                  TR_LocalInputs := prime_loop startFrame firstInputFrame neutralInput (TR_LocalInputs t1),
                  TR_RemoteInputs := prime_loop startFrame firstInputFrame neutralInput (TR_RemoteInputs t1)\<rparr>;
          primedThrough = firstInputFrame - 1;
          last = TR_LastReceivedInputFrame t2;
          t3 = (if 0 < delay \<and> (last = noFrameLimit \<or> last < primedThrough)
                then t2\<lparr>TR_LastReceivedInputFrame := primedThrough\<rparr> else t2)
      in AdvanceContiguousRemoteFrame t3)"

definition UnconfirmedRemoteFrameCountThrough :: "u32 \<Rightarrow> TimelineRuntime \<Rightarrow> u32 option" where
  "UnconfirmedRemoteFrameCountThrough frame t =
     (case TR_RemoteInputEpochStartFrame t of
        None \<Rightarrow> None
      | Some start \<Rightarrow>
          if frame < start then None
          else if (case TR_HighestContiguousRemoteFrame t of None \<Rightarrow> False | Some h \<Rightarrow> frame \<le> h)
          then Some 0
          else
            let firstUnconfirmed = (case TR_HighestContiguousRemoteFrame t of
                  None \<Rightarrow> start | Some h \<Rightarrow> h + 1)
            in Some (frame - firstUnconfirmed + 1))"

definition Lead :: "u32 \<Rightarrow> u32 \<Rightarrow> TimelineRuntime \<Rightarrow> int" where
  "Lead sendFrame noFrameLimit t =
     (if TR_LastReceivedInputFrame t = noFrameLimit then 0
      else int_of_u32 sendFrame - int_of_u32 (TR_LastReceivedInputFrame t))"

definition RecordRemoteInputWait :: "u64 \<Rightarrow> u64 \<Rightarrow> TimelineRuntime \<Rightarrow> TimelineRuntime" where
  "RecordRemoteInputWait elapsedUs loops t =
     t\<lparr>TR_RemoteInputWaitCount := TR_RemoteInputWaitCount t + 1,
       TR_RemoteInputWaitLoops := TR_RemoteInputWaitLoops t + loops,
       TR_RemoteInputWaitUs := TR_RemoteInputWaitUs t + elapsedUs,
       TR_RemoteInputWaitMaxUs := max (TR_RemoteInputWaitMaxUs t) elapsedUs\<rparr>"

definition RecordFrameLeadThrottle :: "u64 \<Rightarrow> u64 \<Rightarrow> TimelineRuntime \<Rightarrow> TimelineRuntime" where
  "RecordFrameLeadThrottle elapsedUs loops t =
     t\<lparr>TR_FrameLeadThrottleCount := TR_FrameLeadThrottleCount t + 1,
       TR_FrameLeadThrottleLoops := TR_FrameLeadThrottleLoops t + loops,
       TR_FrameLeadThrottleUs := TR_FrameLeadThrottleUs t + elapsedUs,
       TR_FrameLeadThrottleMaxUs := max (TR_FrameLeadThrottleMaxUs t) elapsedUs\<rparr>"

record ReplayFrameInputs =
  RF_Local :: InputState
  RF_Remote :: InputState
  RF_Players :: "InputState list"
  RF_RemotePredicted :: bool

definition ResolveReplayFrameInputs ::
  "u32 \<Rightarrow> int \<Rightarrow> InputState \<Rightarrow> PredictionProbe \<Rightarrow> TimelineRuntime
   \<Rightarrow> ReplayFrameInputs option \<times> TimelineRuntime" where
  "ResolveReplayFrameInputs frame localPlayer neutralInput probe t =
     (if localPlayer < 0 \<or> 1 < localPlayer then (None, t)
      else
        let loc = (case fmlookup (TR_LocalInputs t) frame of None \<Rightarrow> neutralInput | Some i \<Rightarrow> i);
            ((remote, predicted), p) =
              Resolve frame (TR_RemoteInputs t) neutralInput probe (TR_RollbackInputs t)
        in (Some \<lparr>RF_Local = loc, RF_Remote = remote,
                 RF_Players = [InputState_default, InputState_default]
                    [nat localPlayer := loc, nat (1 - localPlayer) := remote],
                 RF_RemotePredicted = predicted\<rparr>,
            t\<lparr>TR_RollbackInputs := p\<rparr>))"

section \<open>Predictions are correct\<close>

lemma note_rollback_simps [simp]:
  "PR_Predictions (note_rollback f l p) = PR_Predictions p"
  "PR_ProbeConfirmations (note_rollback f l p) = PR_ProbeConfirmations p"
  "PR_MismatchCount (note_rollback f l p) = PR_MismatchCount p"
  by (auto simp: note_rollback_def Let_def split: option.splits)

lemma note_rollback_pending:
  "PR_PendingRollbackFrame (note_rollback f l p) =
     Some (case PR_PendingRollbackFrame p of None \<Rightarrow> f | Some q \<Rightarrow> min f q)"
  by (auto simp: note_rollback_def Let_def min_def split: option.splits)

text \<open>What a confirmation is about: the guess on record is different and was already simulated.\<close>

definition mispredicted :: "u32 \<Rightarrow> InputState \<Rightarrow> u32 option \<Rightarrow> PredictionRuntime \<Rightarrow> bool" where
  "mispredicted frame input localFrame p \<longleftrightarrow>
     (case fmlookup (PR_Predictions p) frame of None \<Rightarrow> False | Some g \<Rightarrow> g \<noteq> input)
     \<and> (case localFrame of None \<Rightarrow> True | Some l \<Rightarrow> frame < l)"

lemma Confirm_result:
  "CR_Mismatch (fst (Confirm frame input localFrame p)) \<longleftrightarrow>
     (\<exists>g. fmlookup (PR_Predictions p) frame = Some g \<and> g \<noteq> input)"
  "CR_Mismatch (fst (Confirm frame input localFrame p))
     \<and> CR_FrameAlreadySimulated (fst (Confirm frame input localFrame p)) \<longleftrightarrow>
     mispredicted frame input localFrame p"
  by (auto simp: Confirm_def Let_def mispredicted_def ConfirmedInputResult_default_def
      split: option.splits if_splits)

lemma Confirm_predictions:
  "PR_Predictions (snd (Confirm frame input localFrame p)) =
     (if \<exists>g. fmlookup (PR_Predictions p) frame = Some g \<and> g \<noteq> input
      then fmfilter (\<lambda>k. k < frame) (PR_Predictions p) else PR_Predictions p)"
  by (auto simp: Confirm_def Let_def split: option.splits)

lemma Confirm_pending:
  "PR_PendingRollbackFrame (snd (Confirm frame input localFrame p)) =
     (if mispredicted frame input localFrame p
      then Some (case PR_PendingRollbackFrame p of None \<Rightarrow> frame | Some q \<Rightarrow> min frame q)
      else PR_PendingRollbackFrame p)"
  by (auto simp: Confirm_def Let_def mispredicted_def note_rollback_pending split: option.splits)

text \<open>A sequence of confirmations, with the frames each result asks to roll back to.\<close>

fun confirm_all ::
  "(u32 \<times> InputState \<times> u32 option) list \<Rightarrow> PredictionRuntime \<Rightarrow> u32 list \<times> PredictionRuntime" where
  "confirm_all [] p = ([], p)"
| "confirm_all ((frame, input, localFrame) # cs) p =
     (let (r, p1) = Confirm frame input localFrame p; (fs, p2) = confirm_all cs p1
      in (if CR_Mismatch r \<and> CR_FrameAlreadySimulated r then frame # fs else fs, p2))"

lemma confirm_all_Cons:
  "confirm_all ((frame, input, localFrame) # cs) p =
     (let (fs, p2) = confirm_all cs (snd (Confirm frame input localFrame p))
      in (if mispredicted frame input localFrame p then frame # fs else fs, p2))"
  by (cases "Confirm frame input localFrame p"; cases "confirm_all cs (snd (Confirm frame input localFrame p))")
    (simp add: Let_def Confirm_result(2) [symmetric])

declare confirm_all.simps(2) [simp del]

definition pending_set :: "PredictionRuntime \<Rightarrow> u32 set" where
  "pending_set p = (case PR_PendingRollbackFrame p of None \<Rightarrow> {} | Some q \<Rightarrow> {q})"

lemma confirm_all_pending:
  "(case PR_PendingRollbackFrame (snd (confirm_all cs p)) of
      None \<Rightarrow> set (fst (confirm_all cs p)) \<union> pending_set p = {}
    | Some q \<Rightarrow> q \<in> set (fst (confirm_all cs p)) \<union> pending_set p
        \<and> (\<forall>f \<in> set (fst (confirm_all cs p)) \<union> pending_set p. q \<le> f))"
proof (induction cs arbitrary: p)
  case Nil
  then show ?case by (auto simp: pending_set_def split: option.splits)
next
  case (Cons c cs)
  obtain frame input localFrame where c: "c = (frame, input, localFrame)"
    by (cases c) auto
  let ?p1 = "snd (Confirm frame input localFrame p)"
  have ps: "pending_set ?p1 = (if mispredicted frame input localFrame p
      then {case PR_PendingRollbackFrame p of None \<Rightarrow> frame | Some q \<Rightarrow> min frame q}
      else pending_set p)"
    by (simp add: pending_set_def Confirm_pending)
  show ?case
    using Cons.IH [of ?p1] unfolding c confirm_all_Cons ps
    by (auto simp: Let_def pending_set_def min_def split: prod.splits option.splits if_splits)
qed

section \<open>Resolution of a remote input\<close>

lemma apply_probe_off: "PB_Modulo probe \<le> 0 \<Longrightarrow> \<not> apply_probe frame probe p"
  by (simp add: apply_probe_def)

lemma Resolve_confirmed:
  "fmlookup confirmed frame = Some i \<Longrightarrow> PB_Modulo probe \<le> 0
   \<Longrightarrow> Resolve frame confirmed neutral probe p = ((i, False), p)"
  by (simp add: Resolve_def apply_probe_off Let_def)

lemma Resolve_known:
  "fmlookup confirmed frame = None \<Longrightarrow> fmlookup (PR_Predictions p) frame = Some g
   \<Longrightarrow> Resolve frame confirmed neutral probe p = ((g, True), p)"
  by (simp add: Resolve_def Let_def)

lemma Resolve_fresh:
  "fmlookup confirmed frame = None \<Longrightarrow> fmlookup (PR_Predictions p) frame = None \<Longrightarrow> PB_Modulo probe \<le> 0
   \<Longrightarrow> Resolve frame confirmed neutral probe p =
     ((predict_base frame confirmed neutral p, True),
      p\<lparr>PR_Predictions := fmupd frame (predict_base frame confirmed neutral p) (PR_Predictions p),
        PR_PredictionCount := PR_PredictionCount p + 1\<rparr>)"
  by (simp add: Resolve_def apply_probe_off Let_def fm_emplace_def)

lemma last_confirmed_eq:
  "(case fm_last_below frame confirmed of None \<Rightarrow> neutral
    | Some prior \<Rightarrow> (case fmlookup confirmed prior of None \<Rightarrow> neutral | Some i \<Rightarrow> i)) =
   (if \<exists>k \<in> fmdom' confirmed. k < frame
    then the (fmlookup confirmed (Max {k \<in> fmdom' confirmed. k < frame})) else neutral)"
proof (cases "fm_last_below frame confirmed")
  case None
  then have "\<not> (\<exists>k \<in> fmdom' confirmed. k < frame)"
    by (auto simp: fm_last_below_None not_less)
  with None show ?thesis by simp
next
  case (Some k)
  then have k: "k < frame" "k \<in> fmdom' confirmed" "\<forall>x \<in> fmdom' confirmed. x < frame \<longrightarrow> x \<le> k"
    by (auto simp: fm_last_below_Some)
  then have "Max {k \<in> fmdom' confirmed. k < frame} = k"
    by (intro Max_eqI) auto
  moreover from k(2) obtain i where "fmlookup confirmed k = Some i"
    by (metis fmlookup_dom'_iff)
  ultimately show ?thesis
    using k Some by auto
qed

lemma predict_base_eq:
  "predict_base frame confirmed neutral p =
     (if 0 < frame \<and> frame - 1 \<in> fmdom' (PR_Predictions p)
      then the (fmlookup (PR_Predictions p) (frame - 1))
      else if \<exists>k \<in> fmdom' confirmed. k < frame
      then the (fmlookup confirmed (Max {k \<in> fmdom' confirmed. k < frame})) else neutral)"
  unfolding predict_base_def last_confirmed_eq
  by (cases "fmlookup (PR_Predictions p) (frame - 1)") (auto simp: fmdom'I dest: fmdom'_notI)

lemma Resolve_remembers:
  assumes "fmlookup confirmed frame = None"
  shows "fmlookup (PR_Predictions (snd (Resolve frame confirmed neutral probe p))) frame
     = Some (fst (fst (Resolve frame confirmed neutral probe p)))"
  using assms by (auto simp: Resolve_def Let_def split: option.splits)

lemma Resolve_predictions:
  "\<not> PB_RetainConfirmation probe \<Longrightarrow>
   PR_Predictions (snd (Resolve frame confirmed neutral probe p)) =
     (if fmlookup confirmed frame = None
      then fm_emplace frame (fst (fst (Resolve frame confirmed neutral probe p))) (PR_Predictions p)
      else PR_Predictions p)"
  by (auto simp: Resolve_def Let_def fm_emplace_def split: option.splits)

section \<open>Contiguous remote frames\<close>

lemma advance_loop_missing: "fmlookup m n = None \<Longrightarrow> advance_loop m n h = h"
  by (simp add: advance_loop.simps)

lemma advance_loop_found:
  "fmlookup m n \<noteq> None \<Longrightarrow> \<exists>k. advance_loop m n h = Some k \<and> n \<le> k \<and> {n..k} \<subseteq> fmdom' m
     \<and> (k = u32_max \<or> k + 1 \<notin> fmdom' m)"
proof (induction m n h rule: advance_loop.induct)
  case (1 m n h)
  have n: "n \<in> fmdom' m"
    using "1.prems" by (metis fm_lookup_ne_None)
  show ?case
  proof (cases "n = u32_max \<or> fmlookup m (n + 1) = None")
    case True
    then have "advance_loop m n h = Some n" and "n = u32_max \<or> n + 1 \<notin> fmdom' m"
      using "1.prems" by (auto simp: advance_loop.simps [of m n] advance_loop_missing fmdom'_notI)
    with n show ?thesis by auto
  next
    case False
    with "1.prems" "1.IH" obtain k where k: "advance_loop m (n + 1) (Some n) = Some k" "n + 1 \<le> k"
        "{n + 1..k} \<subseteq> fmdom' m" "k = u32_max \<or> k + 1 \<notin> fmdom' m"
      by blast
    have "n < k" and "{n..k} \<subseteq> insert n {n + 1..k}"
      using k(2) False by (auto simp: u32_Suc_le)
    with n k False "1.prems" show ?thesis
      by (auto simp: advance_loop.simps [of m n])
  qed
qed

lemma prime_loop_lookup:
  "fmlookup (prime_loop f l neutral m) k =
     (if f \<le> k \<and> k < l \<and> fmlookup m k = None then Some neutral else fmlookup m k)"
proof (induction f l neutral m rule: prime_loop.induct)
  case (1 f l neutral m)
  show ?case
  proof (cases "f < l")
    case True
    then have "f + 1 \<le> k \<longleftrightarrow> f < k"
      by (simp add: u32_Suc_le u32_less_imp_not_max)
    with True "1.IH" show ?thesis
      by (auto simp: prime_loop.simps [of f l] split: option.splits)
  next
    case False
    then show ?thesis by (auto simp: prime_loop.simps [of f l])
  qed
qed

lemma fmdom'_prime_loop: "fmdom' (prime_loop f l neutral m) = fmdom' m \<union> {k. f \<le> k \<and> k < l}"
  by (auto simp: prime_loop_lookup simp flip: fm_lookup_ne_None split: if_splits)

text \<open>
  The invariant of the timeline, relative to the set \<open>received\<close> of frames that ever got a remote
  input (or were primed): the contiguous range lies in it, and the frame after it is not stored.
\<close>

definition contiguous_inv :: "u32 set \<Rightarrow> TimelineRuntime \<Rightarrow> bool" where
  "contiguous_inv received t \<longleftrightarrow>
     fmdom' (TR_RemoteInputs t) \<subseteq> received \<and>
     (case TR_RemoteInputEpochStartFrame t of
        None \<Rightarrow> TR_HighestContiguousRemoteFrame t = None
      | Some start \<Rightarrow>
          (case TR_HighestContiguousRemoteFrame t of
             None \<Rightarrow> start \<notin> fmdom' (TR_RemoteInputs t)
           | Some h \<Rightarrow> start \<le> h \<and> {start..h} \<subseteq> received
               \<and> (h = u32_max \<or> h + 1 \<notin> fmdom' (TR_RemoteInputs t))))"

text \<open>What must hold before the frontier is advanced; the advance re-establishes the invariant.\<close>

definition contiguous_pre :: "u32 set \<Rightarrow> TimelineRuntime \<Rightarrow> bool" where
  "contiguous_pre received t \<longleftrightarrow>
     fmdom' (TR_RemoteInputs t) \<subseteq> received \<and>
     (case TR_RemoteInputEpochStartFrame t of
        None \<Rightarrow> TR_HighestContiguousRemoteFrame t = None
      | Some start \<Rightarrow>
          (case TR_HighestContiguousRemoteFrame t of
             None \<Rightarrow> True
           | Some h \<Rightarrow> start \<le> h \<and> {start..h} \<subseteq> received))"

lemma contiguous_inv_pre: "contiguous_inv received t \<Longrightarrow> contiguous_pre received t"
  by (auto simp: contiguous_inv_def contiguous_pre_def split: option.splits)

lemma contiguous_inv_mono:
  "contiguous_inv r t \<Longrightarrow> r \<subseteq> r' \<Longrightarrow> contiguous_inv r' t"
  by (auto simp: contiguous_inv_def split: option.splits)

lemma AdvanceContiguousRemoteFrame_inv:
  assumes "contiguous_pre received t"
  shows "contiguous_inv received (AdvanceContiguousRemoteFrame t)"
proof (cases "TR_RemoteInputEpochStartFrame t")
  case None
  with assms show ?thesis
    by (simp add: AdvanceContiguousRemoteFrame_def contiguous_inv_def contiguous_pre_def)
next
  case (Some start)
  note ep = Some
  have sub: "fmdom' (TR_RemoteInputs t) \<subseteq> received"
    using assms by (simp add: contiguous_pre_def)
  show ?thesis
  proof (cases "TR_HighestContiguousRemoteFrame t")
    case None
    show ?thesis
    proof (cases "fmlookup (TR_RemoteInputs t) start")
      case missing: None
      then show ?thesis
        using ep None sub by (simp add: AdvanceContiguousRemoteFrame_def contiguous_inv_def
            advance_loop_missing fmdom'_notI)
    next
      case (Some i)
      then obtain k where "advance_loop (TR_RemoteInputs t) start None = Some k" "start \<le> k"
          "{start..k} \<subseteq> fmdom' (TR_RemoteInputs t)" "k = u32_max \<or> k + 1 \<notin> fmdom' (TR_RemoteInputs t)"
        using advance_loop_found [of "TR_RemoteInputs t" start None] by auto
      then show ?thesis
        using ep None sub by (auto simp: AdvanceContiguousRemoteFrame_def contiguous_inv_def)
    qed
  next
    case (Some h)
    with ep assms have h: "start \<le> h" "{start..h} \<subseteq> received"
      by (auto simp: contiguous_pre_def)
    consider "h = u32_max" | "h \<noteq> u32_max" "fmlookup (TR_RemoteInputs t) (h + 1) = None"
      | "h \<noteq> u32_max" "fmlookup (TR_RemoteInputs t) (h + 1) \<noteq> None"
      by blast
    then show ?thesis
    proof cases
      case 1
      with ep Some h sub show ?thesis
        by (simp add: AdvanceContiguousRemoteFrame_def contiguous_inv_def)
    next
      case 2
      with ep Some h sub show ?thesis
        by (simp add: AdvanceContiguousRemoteFrame_def contiguous_inv_def advance_loop_missing fmdom'_notI)
    next
      case 3
      then obtain k where k: "advance_loop (TR_RemoteInputs t) (h + 1) (Some h) = Some k" "h + 1 \<le> k"
          "{h + 1..k} \<subseteq> fmdom' (TR_RemoteInputs t)" "k = u32_max \<or> k + 1 \<notin> fmdom' (TR_RemoteInputs t)"
        using advance_loop_found [of "TR_RemoteInputs t" "h + 1" "Some h"] by blast
      have "{start..k} \<subseteq> {start..h} \<union> {h + 1..k}" and "start \<le> k"
        using k(2) h(1) 3(1) by (auto simp: u32_Suc_le)
      with k h sub have "{start..k} \<subseteq> received" "start \<le> k" by auto
      with 3 k ep Some sub show ?thesis
        by (simp add: AdvanceContiguousRemoteFrame_def contiguous_inv_def)
    qed
  qed
qed

lemma Advance_simps [simp]:
  "TR_RemoteInputs (AdvanceContiguousRemoteFrame t) = TR_RemoteInputs t"
  "TR_LocalInputs (AdvanceContiguousRemoteFrame t) = TR_LocalInputs t"
  "TR_RollbackInputs (AdvanceContiguousRemoteFrame t) = TR_RollbackInputs t"
  "TR_RemoteInputEpochStartFrame (AdvanceContiguousRemoteFrame t) = TR_RemoteInputEpochStartFrame t"
  "TR_LastReceivedInputFrame (AdvanceContiguousRemoteFrame t) = TR_LastReceivedInputFrame t"
  by (simp_all add: AdvanceContiguousRemoteFrame_def Let_def split: option.splits)

lemma StoreRemote_simps [simp]:
  "TR_RemoteInputs (snd (StoreRemote f i l c n t)) = fmupd f i (TR_RemoteInputs t)"
  "TR_RemoteInputEpochStartFrame (snd (StoreRemote f i l c n t)) = TR_RemoteInputEpochStartFrame t"
  "TR_RollbackInputs (snd (StoreRemote f i l c n t)) =
     (if c then snd (Confirm f i l (TR_RollbackInputs t)) else TR_RollbackInputs t)"
  by (simp_all add: StoreRemote_def Let_def split: prod.splits)

lemma StoreRemote_advances:
  obtains t' where "snd (StoreRemote f i l c n t) = AdvanceContiguousRemoteFrame t'"
    "TR_RemoteInputs t' = fmupd f i (TR_RemoteInputs t)"
    "TR_RemoteInputEpochStartFrame t' = TR_RemoteInputEpochStartFrame t"
    "TR_HighestContiguousRemoteFrame t' = TR_HighestContiguousRemoteFrame t"
proof -
  obtain cf p where "(if c then Confirm f i l (TR_RollbackInputs t)
      else (ConfirmedInputResult_default, TR_RollbackInputs t)) = (cf, p)"
    by fastforce
  then have "snd (StoreRemote f i l c n t) = AdvanceContiguousRemoteFrame
      (t\<lparr>TR_RollbackInputs := p, TR_RemoteInputs := fmupd f i (TR_RemoteInputs t),
         TR_LastReceivedInputFrame := (if TR_LastReceivedInputFrame t = n
           \<or> TR_LastReceivedInputFrame t < f then f else TR_LastReceivedInputFrame t)\<rparr>)"
    by (simp add: StoreRemote_def Let_def)
  then show thesis
    by (rule that) simp_all
qed

lemma StoreRemote_inv:
  assumes "contiguous_inv r t"
  shows "contiguous_inv (insert f r) (snd (StoreRemote f i l c n t))"
proof (rule StoreRemote_advances [of f i l c n t])
  fix t' assume t': "snd (StoreRemote f i l c n t) = AdvanceContiguousRemoteFrame t'"
    "TR_RemoteInputs t' = fmupd f i (TR_RemoteInputs t)"
    "TR_RemoteInputEpochStartFrame t' = TR_RemoteInputEpochStartFrame t"
    "TR_HighestContiguousRemoteFrame t' = TR_HighestContiguousRemoteFrame t"
  have "contiguous_pre (insert f r) t'"
    using contiguous_inv_pre [OF assms] t' by (auto simp: contiguous_pre_def split: option.splits)
  then show ?thesis
    unfolding t'(1) by (rule AdvanceContiguousRemoteFrame_inv)
qed

lemma PruneHistory_inv: "contiguous_inv r t \<Longrightarrow> contiguous_inv r (PruneHistory k t)"
  by (auto simp: contiguous_inv_def PruneHistory_def split: option.splits)

lemma PrimeEpoch_inv:
  "contiguous_inv r t \<Longrightarrow> contiguous_inv (r \<union> {k. start \<le> k \<and> k < start + delay})
     (PrimeEpoch start delay neutral n t)"
  unfolding PrimeEpoch_def Let_def
  by (rule AdvanceContiguousRemoteFrame_inv)
    (auto simp: contiguous_pre_def contiguous_inv_def PruneHistory_def fmdom'_prime_loop split: option.splits)

text \<open>The calls that change the timeline during a match, and the frames a call supplies.\<close>

datatype timeline_call =
    CallStoreRemote u32 InputState "u32 option" bool u32
  | CallPruneHistory u32
  | CallPrimeEpoch u32 u32 InputState u32
  | CallResetForRestart u32
  | CallResolveReplay u32 int InputState PredictionProbe
  | CallPrunePredictions u32 u32
  | CallClearPendingRollback
  | CallClearPendingRollbackFrame

fun timeline_step :: "TimelineRuntime \<Rightarrow> timeline_call \<Rightarrow> TimelineRuntime" where
  "timeline_step t (CallStoreRemote f i l c n) = snd (StoreRemote f i l c n t)"
| "timeline_step t (CallPruneHistory k) = PruneHistory k t"
| "timeline_step t (CallPrimeEpoch start delay neutral n) = PrimeEpoch start delay neutral n t"
| "timeline_step t (CallResetForRestart n) = TimelineResetForRestart n t"
| "timeline_step t (CallResolveReplay f player neutral probe) =
     snd (ResolveReplayFrameInputs f player neutral probe t)"
| "timeline_step t (CallPrunePredictions current window) =
     t\<lparr>TR_RollbackInputs := PredictionPrune current window (TR_RemoteInputs t) (TR_RollbackInputs t)\<rparr>"
| "timeline_step t CallClearPendingRollback =
     t\<lparr>TR_RollbackInputs := ClearPendingRollback (TR_RollbackInputs t)\<rparr>"
| "timeline_step t CallClearPendingRollbackFrame =
     t\<lparr>TR_RollbackInputs := ClearPendingRollbackFrame (TR_RollbackInputs t)\<rparr>"

fun call_frames :: "timeline_call \<Rightarrow> u32 set" where
  "call_frames (CallStoreRemote f i l c n) = {f}"
| "call_frames (CallPrimeEpoch start delay neutral n) = {k. start \<le> k \<and> k < start + delay}"
| "call_frames _ = {}"

definition timeline_gstep :: "u32 set \<times> TimelineRuntime \<Rightarrow> timeline_call \<Rightarrow> u32 set \<times> TimelineRuntime" where
  "timeline_gstep s c = (fst s \<union> call_frames c, timeline_step (snd s) c)"

lemma ResolveReplay_simps [simp]:
  "TR_RemoteInputs (snd (ResolveReplayFrameInputs f p n pr t)) = TR_RemoteInputs t"
  "TR_RemoteInputEpochStartFrame (snd (ResolveReplayFrameInputs f p n pr t)) = TR_RemoteInputEpochStartFrame t"
  "TR_HighestContiguousRemoteFrame (snd (ResolveReplayFrameInputs f p n pr t))
     = TR_HighestContiguousRemoteFrame t"
  by (simp_all add: ResolveReplayFrameInputs_def Let_def split: prod.splits)

interpretation timeline: state_machine timeline_gstep "\<lambda>(r, t). contiguous_inv r t"
proof unfold_locales
  fix s c assume inv: "case s of (r, t) \<Rightarrow> contiguous_inv r t"
  obtain r t where s: "s = (r, t)" by (cases s)
  with inv have "contiguous_inv (r \<union> call_frames c) (timeline_step t c)"
  proof (cases c)
    case CallStoreRemote
    then show ?thesis using inv s by (simp add: StoreRemote_inv)
  next
    case CallPrimeEpoch
    then show ?thesis using inv s by (simp add: PrimeEpoch_inv)
  next
    case CallPruneHistory
    then show ?thesis using inv s by (simp add: PruneHistory_inv)
  qed (auto simp: contiguous_inv_def TimelineResetForRestart_def split: option.splits)
  then show "case timeline_gstep s c of (r, t) \<Rightarrow> contiguous_inv r t"
    by (simp add: s timeline_gstep_def)
qed

lemma foldl_timeline_gstep:
  "foldl timeline_gstep (r, t) calls = (r \<union> (\<Union>c \<in> set calls. call_frames c), foldl timeline_step t calls)"
  by (induction calls arbitrary: r t) (auto simp: timeline_gstep_def)

lemma timeline_run_inv:
  "contiguous_inv (\<Union>c \<in> set calls. call_frames c) (foldl timeline_step TimelineRuntime_init calls)"
proof -
  have "contiguous_inv {} TimelineRuntime_init"
    by (simp add: contiguous_inv_def TimelineRuntime_init_def)
  then show ?thesis
    using timeline.run_inv [of "({}, TimelineRuntime_init)" calls] by (simp add: foldl_timeline_gstep)
qed

section \<open>No guess is left standing against a received input\<close>

definition coherent :: "TimelineRuntime \<Rightarrow> bool" where
  "coherent t \<longleftrightarrow> (\<forall>f g i. fmlookup (PR_Predictions (TR_RollbackInputs t)) f = Some g
     \<and> fmlookup (TR_RemoteInputs t) f = Some i \<longrightarrow> g = i)"

text \<open>
  The calls of a rollback match: every remote input is confirmed, and the prediction probe (a test
  hook) does not hold confirmations back. Priming an epoch is the one call that adds remote inputs
  without confirming them, so it is allowed only while there are no predictions.
\<close>

fun rollback_call :: "timeline_call \<Rightarrow> bool" where
  "rollback_call (CallStoreRemote f i l c n) = c"
| "rollback_call (CallResolveReplay f player neutral probe) = (\<not> PB_RetainConfirmation probe)"
| "rollback_call (CallPrimeEpoch start delay neutral n) = False"
| "rollback_call _ = True"

interpretation coherence: guarded_machine timeline_step coherent rollback_call
proof unfold_locales
  fix c t assume ok: "rollback_call c" and coh: "coherent t"
  show "coherent (timeline_step t c)"
  proof (cases c)
    case (CallStoreRemote f i l c' n)
    then show ?thesis
      using ok coh by (auto simp: coherent_def Confirm_predictions split: if_splits)
  next
    case (CallResolveReplay f player neutral probe)
    then have "PR_Predictions (snd (Resolve f (TR_RemoteInputs t) neutral probe (TR_RollbackInputs t)))
        = (if fmlookup (TR_RemoteInputs t) f = None
           then fm_emplace f (fst (fst (Resolve f (TR_RemoteInputs t) neutral probe (TR_RollbackInputs t))))
             (PR_Predictions (TR_RollbackInputs t))
           else PR_Predictions (TR_RollbackInputs t))"
      using ok by (intro Resolve_predictions) simp
    with CallResolveReplay coh show ?thesis
      by (auto simp: coherent_def ResolveReplayFrameInputs_def Let_def split: prod.splits if_splits)
  qed (use ok coh in \<open>auto simp: coherent_def PruneHistory_def TimelineResetForRestart_def
        PredictionResetForRestart_def ClearPendingRollback_def ClearPredictions_def
        ClearPendingRollbackFrame_def PredictionPrune_def Let_def split: if_splits\<close>)
qed

text \<open>The frames with a prediction: only a resolution adds one, and a contradicted guess takes every later
  one with it.\<close>

definition predicted_frames :: "TimelineRuntime \<Rightarrow> u32 set" where
  "predicted_frames t = fmdom' (PR_Predictions (TR_RollbackInputs t))"

fun resolved_frames :: "timeline_call \<Rightarrow> u32 set" where
  "resolved_frames (CallResolveReplay f player neutral probe) = {f}"
| "resolved_frames _ = {}"

lemma StoreRemote_mismatch:
  assumes "CR_Mismatch (RS_Confirmation (fst (StoreRemote f i l True n t)))"
  shows "predicted_frames (snd (StoreRemote f i l True n t)) = {k \<in> predicted_frames t. k < f}"
proof -
  have "CR_Mismatch (fst (Confirm f i l (TR_RollbackInputs t)))"
    using assms by (simp add: StoreRemote_def case_prod_beta Let_def)
  then show ?thesis
    by (auto simp: Confirm_result(1) predicted_frames_def Confirm_predictions)
qed

lemma Resolve_frames:
  "fmdom' (PR_Predictions (snd (Resolve f confirmed neutral probe p))) \<subseteq> insert f (fmdom' (PR_Predictions p))"
  by (auto simp: Resolve_def Let_def fm_emplace_def split: option.splits if_splits)

lemma timeline_step_frames: "predicted_frames (timeline_step t c) \<subseteq> predicted_frames t \<union> resolved_frames c"
proof (cases c)
  case (CallResolveReplay f player neutral probe)
  then show ?thesis
    using Resolve_frames [of f "TR_RemoteInputs t" neutral probe "TR_RollbackInputs t"]
    by (auto simp: predicted_frames_def ResolveReplayFrameInputs_def Let_def split: prod.splits)
qed (auto simp: predicted_frames_def Confirm_predictions PruneHistory_def PrimeEpoch_def
    TimelineResetForRestart_def PredictionResetForRestart_def ClearPendingRollback_def ClearPredictions_def
    ClearPendingRollbackFrame_def PredictionPrune_def Let_def split: if_splits)

lemma predicted_frames_run:
  "k \<in> predicted_frames (foldl timeline_step t calls) \<Longrightarrow> k \<notin> predicted_frames t
    \<Longrightarrow> \<exists>player neutral probe. CallResolveReplay k player neutral probe \<in> set calls"
proof (induction calls arbitrary: t)
  case (Cons c calls)
  show ?case
  proof (cases "k \<in> predicted_frames (timeline_step t c)")
    case True
    then have "k \<in> resolved_frames c"
      using timeline_step_frames Cons.prems(2) by blast
    then show ?thesis
      by (cases c) auto
  next
    case False
    with Cons show ?thesis
      by fastforce
  qed
qed simp

section \<open>The frontier as seen by the receiver\<close>

text \<open>A frame of the epoch is covered when it lies in the contiguous range.\<close>

definition covered :: "TimelineRuntime \<Rightarrow> u32 \<Rightarrow> bool" where
  "covered t f \<longleftrightarrow> (case (TR_RemoteInputEpochStartFrame t, TR_HighestContiguousRemoteFrame t) of
     (Some start, Some h) \<Rightarrow> start \<le> f \<and> f \<le> h | _ \<Rightarrow> False)"

lemma covered_next:
  assumes "contiguous_inv r t" and "TR_RemoteInputEpochStartFrame t = Some start"
    and "f \<in> fmdom' (TR_RemoteInputs t)" and "f = start \<or> start < f \<and> covered t (f - 1)"
  shows "covered t f"
proof (cases "TR_HighestContiguousRemoteFrame t")
  case None
  then show ?thesis
    using assms by (auto simp: contiguous_inv_def covered_def)
next
  case (Some h)
  have h: "start \<le> h" "h = u32_max \<or> h + 1 \<notin> fmdom' (TR_RemoteInputs t)"
    using assms(1,2) Some by (auto simp: contiguous_inv_def)
  have "f \<le> h"
  proof (rule ccontr)
    assume "\<not> f \<le> h"
    then have lt: "h < f" by simp
    with h(1) assms(4) have "f - 1 \<le> h"
      using assms(2) Some by (auto simp: covered_def)
    moreover have "h \<le> f - 1"
      using lt by (subst u32_le_pred) auto
    ultimately have "f - 1 = h" by simp
    then have "f = h + 1" by auto
    with h(2) assms(3) lt show False by auto
  qed
  with Some assms(2,4) show ?thesis
    by (auto simp: covered_def)
qed

lemma advance_loop_mono:
  "(case h of None \<Rightarrow> True | Some k \<Rightarrow> k < n) \<Longrightarrow>
   (case h of None \<Rightarrow> True | Some k \<Rightarrow> \<exists>k'. advance_loop m n h = Some k' \<and> k \<le> k')"
  using advance_loop_found [of m n h] advance_loop_missing [of m n h]
  by (cases "fmlookup m n") (fastforce split: option.splits)+

lemma Advance_covered: "covered t f \<Longrightarrow> covered (AdvanceContiguousRemoteFrame t) f"
proof -
  assume c: "covered t f"
  then obtain start h where eh: "TR_RemoteInputEpochStartFrame t = Some start"
      "TR_HighestContiguousRemoteFrame t = Some h" and f: "start \<le> f" "f \<le> h"
    by (auto simp: covered_def split: option.splits)
  show ?thesis
  proof (cases "h = u32_max")
    case True
    with eh c show ?thesis by (simp add: AdvanceContiguousRemoteFrame_def)
  next
    case False
    then have "h < h + 1" by (simp add: u32_less_Suc)
    then obtain k where "advance_loop (TR_RemoteInputs t) (h + 1) (Some h) = Some k" "h \<le> k"
      using advance_loop_mono [where h = "Some h" and n = "h + 1" and m = "TR_RemoteInputs t"] by auto
    with eh f False show ?thesis
      by (simp add: AdvanceContiguousRemoteFrame_def covered_def)
  qed
qed

lemma StoreRemote_covered: "covered t f \<Longrightarrow> covered (snd (StoreRemote k i l c n t)) f"
proof (rule StoreRemote_advances [of k i l c n t])
  fix t' assume "covered t f" and t': "snd (StoreRemote k i l c n t) = AdvanceContiguousRemoteFrame t'"
    "TR_RemoteInputEpochStartFrame t' = TR_RemoteInputEpochStartFrame t"
    "TR_HighestContiguousRemoteFrame t' = TR_HighestContiguousRemoteFrame t"
  then have "covered t' f" by (simp add: covered_def)
  then show ?thesis unfolding t'(1) by (rule Advance_covered)
qed

lemma covered_range:
  assumes inv: "contiguous_inv r t" and ep: "TR_RemoteInputEpochStartFrame t = Some start"
    and dom: "\<forall>k. start \<le> k \<and> k \<le> f \<longrightarrow> k \<in> fmdom' (TR_RemoteInputs t)" and "start \<le> f"
  shows "covered t f"
  using dom \<open>start \<le> f\<close>
proof (induction "unat f" arbitrary: f)
  case 0
  then have "f = start"
    by (simp add: word_le_nat_alt unat_eq_0)
  with 0 show ?case by (intro covered_next [OF inv ep]) auto
next
  case (Suc m)
  show ?case
  proof (cases "f = start")
    case True
    with Suc.prems show ?thesis by (intro covered_next [OF inv ep]) auto
  next
    case False
    with Suc.prems have lt: "start < f" and f0: "f \<noteq> 0"
      by auto
    have m: "m = unat (f - 1)"
      using Suc.hyps(2) f0 by (simp add: unat_minus_one)
    have le: "k \<le> f" if "k \<le> f - 1" for k
      using that f0 by (simp add: u32_le_pred)
    have "covered t (f - 1)"
      using Suc.prems(1) lt f0 le by (intro Suc.hyps(1) [OF m]) (auto simp: u32_le_pred)
    with lt Suc.prems show ?thesis by (intro covered_next [OF inv ep]) auto
  qed
qed

lemma PrimeEpoch_fields:
  "TR_RemoteInputEpochStartFrame (PrimeEpoch start delay neutral n t) = Some start"
  "TR_LocalInputs (PrimeEpoch start delay neutral n t) =
     prime_loop start (start + delay) neutral (fmfilter (\<lambda>k. start \<le> k) (TR_LocalInputs t))"
  "TR_RemoteInputs (PrimeEpoch start delay neutral n t) =
     prime_loop start (start + delay) neutral (fmfilter (\<lambda>k. start \<le> k) (TR_RemoteInputs t))"
  by (simp_all add: PrimeEpoch_def Let_def PruneHistory_def)

lemma PrimeEpoch_covered:
  assumes "contiguous_inv r t" and "start \<le> f" and "f < start + delay"
  shows "covered (PrimeEpoch start delay neutral n t) f"
  using assms
  by (intro covered_range [OF PrimeEpoch_inv [OF assms(1)] PrimeEpoch_fields(1)])
    (auto simp: PrimeEpoch_fields fmdom'_prime_loop)

section \<open>Properties\<close>

text \<open>C24: the frame a peer is told is acknowledged is sound and maximal. After any sequence of
  timeline calls, every frame from the start of the epoch up to the highest contiguous remote frame
  was supplied by a stored remote input (or primed at the start of the epoch), and the frame after
  it is not stored.\<close>

theorem contiguous_frontier_sound:
  assumes "t = foldl timeline_step TimelineRuntime_init calls"
    and "TR_HighestContiguousRemoteFrame t = Some h"
  shows "\<exists>start. TR_RemoteInputEpochStartFrame t = Some start \<and> start \<le> h
     \<and> (\<forall>f. start \<le> f \<and> f \<le> h \<longrightarrow> (\<exists>c \<in> set calls. f \<in> call_frames c))
     \<and> (h = u32_max \<or> h + 1 \<notin> fmdom' (TR_RemoteInputs t))"
proof -
  have inv: "contiguous_inv (\<Union>c \<in> set calls. call_frames c) t"
    unfolding assms(1) by (rule timeline_run_inv)
  then obtain start where st: "TR_RemoteInputEpochStartFrame t = Some start" "start \<le> h"
      "{start..h} \<subseteq> (\<Union>c \<in> set calls. call_frames c)"
      "h = u32_max \<or> h + 1 \<notin> fmdom' (TR_RemoteInputs t)"
    using assms(2) unfolding contiguous_inv_def by (auto split: option.splits)
  have "\<exists>c \<in> set calls. f \<in> call_frames c" if "start \<le> f \<and> f \<le> h" for f
    using that st(3) by fastforce
  with st show ?thesis by blast
qed

theorem contiguous_frontier_sound_witness:
  "\<exists>start. TR_RemoteInputEpochStartFrame (foldl timeline_step TimelineRuntime_init
       [CallPrimeEpoch 10 2 InputState_default 0xFFFFFFFF,
        CallStoreRemote 12 InputState_default None True 0xFFFFFFFF,
        CallStoreRemote 14 InputState_default None True 0xFFFFFFFF]) = Some start \<and> start \<le> 12"
proof -
  let ?cs = "[CallPrimeEpoch 10 2 InputState_default 0xFFFFFFFF,
        CallStoreRemote 12 InputState_default None True 0xFFFFFFFF,
        CallStoreRemote 14 InputState_default None True 0xFFFFFFFF]"
  have "TR_HighestContiguousRemoteFrame (foldl timeline_step TimelineRuntime_init ?cs) = Some 12"
    by code_simp
  from contiguous_frontier_sound [OF refl this] show ?thesis
    by blast
qed

text \<open>C25: in a rollback match no wrong guess survives. Take any run of confirmed remote inputs,
  resolutions, prunes and resets, starting without predictions, in which the input received for a
  frame contradicts the guess on record. Whatever the guesses were, and whatever the run goes on to
  do, a prediction on record at or beyond that frame was made after the input arrived: all the
  guesses that extended the wrong one are gone. And a prediction still on record for any frame whose
  remote input has arrived equals that input.\<close>

theorem no_stale_prediction:
  assumes "PR_Predictions (TR_RollbackInputs t) = fmempty" and "t1 = foldl timeline_step t before"
    and "CR_Mismatch (RS_Confirmation (fst (StoreRemote frame input localFrame True n t1)))"
    and "t2 = foldl timeline_step t1 (CallStoreRemote frame input localFrame True n # after)"
    and "\<forall>c \<in> set (before @ after). rollback_call c"
  shows "(\<forall>k guess. frame \<le> k \<and> fmlookup (PR_Predictions (TR_RollbackInputs t2)) k = Some guess \<longrightarrow>
        (\<exists>player neutral probe. CallResolveReplay k player neutral probe \<in> set after))
    \<and> (\<forall>k guess received. fmlookup (PR_Predictions (TR_RollbackInputs t2)) k = Some guess
        \<and> fmlookup (TR_RemoteInputs t2) k = Some received \<longrightarrow> guess = received)"
proof (intro conjI allI impI)
  have "coherent t"
    using assms(1) by (simp add: coherent_def)
  moreover have "t2 = foldl timeline_step t (before @ CallStoreRemote frame input localFrame True n # after)"
    using assms(2,4) by simp
  moreover have "\<forall>c \<in> set (before @ CallStoreRemote frame input localFrame True n # after). rollback_call c"
    using assms(5) by auto
  ultimately have "coherent t2"
    using coherence.guarded_run_inv by metis
  then show "guess = received" if "fmlookup (PR_Predictions (TR_RollbackInputs t2)) k = Some guess
      \<and> fmlookup (TR_RemoteInputs t2) k = Some received" for k guess received
    using that by (auto simp: coherent_def)
  fix k guess
  assume k: "frame \<le> k \<and> fmlookup (PR_Predictions (TR_RollbackInputs t2)) k = Some guess"
  then have "k \<notin> predicted_frames (snd (StoreRemote frame input localFrame True n t1))"
    by (simp add: StoreRemote_mismatch [OF assms(3)] not_less)
  moreover have "k \<in> predicted_frames (foldl timeline_step (snd (StoreRemote frame input localFrame True n t1)) after)"
    using k assms(4) by (simp add: predicted_frames_def fmdom'I)
  ultimately show "\<exists>player neutral probe. CallResolveReplay k player neutral probe \<in> set after"
    by (intro predicted_frames_run)
qed

theorem no_stale_prediction_witness:
  "fmlookup (PR_Predictions (TR_RollbackInputs (foldl timeline_step TimelineRuntime_init
      [CallResolveReplay 5 0 InputState_default PredictionProbe_default,
       CallResolveReplay 6 0 InputState_default PredictionProbe_default,
       CallResolveReplay 7 0 InputState_default PredictionProbe_default,
       CallStoreRemote 5 (InputState_default\<lparr>KeyMask := 1\<rparr>) (Some 8) True 0xFFFFFFFF,
       CallResolveReplay 6 0 InputState_default PredictionProbe_default]))) 7 = None"
proof -
  let ?r = "\<lambda>f. CallResolveReplay f 0 InputState_default PredictionProbe_default"
  let ?i = "InputState_default\<lparr>KeyMask := 1\<rparr>"
  let ?t1 = "foldl timeline_step TimelineRuntime_init [?r 5, ?r 6, ?r 7]"
  have "PR_Predictions (TR_RollbackInputs TimelineRuntime_init) = fmempty"
    by (simp add: TimelineRuntime_init_def PredictionRuntime_init_def)
  moreover have "CR_Mismatch (RS_Confirmation (fst (StoreRemote 5 ?i (Some 8) True 0xFFFFFFFF ?t1)))"
    by code_simp
  moreover have "\<forall>c \<in> set ([?r 5, ?r 6, ?r 7] @ [?r 6]). rollback_call c"
    by (simp add: PredictionProbe_default_def)
  ultimately have "5 \<le> (7 :: u32) \<and> fmlookup (PR_Predictions (TR_RollbackInputs (foldl timeline_step ?t1
      [CallStoreRemote 5 ?i (Some 8) True 0xFFFFFFFF, ?r 6]))) 7 = Some guess \<longrightarrow>
        (\<exists>player neutral probe. CallResolveReplay 7 player neutral probe \<in> set [?r 6])" for guess
    using no_stale_prediction [OF _ refl _ refl, of TimelineRuntime_init 5 ?i "Some 8" "0xFFFFFFFF"
        "[?r 5, ?r 6, ?r 7]" "[?r 6]"] by blast
  moreover have "\<not> (\<exists>player neutral probe. CallResolveReplay 7 player neutral probe \<in> set [?r 6])" "5 \<le> (7 :: u32)"
    by simp_all
  ultimately have "fmlookup (PR_Predictions (TR_RollbackInputs (foldl timeline_step ?t1
      [CallStoreRemote 5 ?i (Some 8) True 0xFFFFFFFF, ?r 6]))) 7 \<noteq> Some guess" for guess
    by blast
  then show ?thesis
    unfolding foldl.simps by (blast intro: option.exhaust)
qed

text \<open>C26: the rollback target. While a sequence of confirmations arrives, the pending rollback
  frame is exactly the earliest frame among those that were simulated with a wrong guess (and the
  target pending before), so resimulating from it corrects all of them; it is absent exactly when
  there is none.\<close>

theorem rollback_target_earliest:
  "(case PR_PendingRollbackFrame (snd (confirm_all cs p)) of
      None \<Rightarrow> fst (confirm_all cs p) = [] \<and> PR_PendingRollbackFrame p = None
    | Some q \<Rightarrow> (q \<in> set (fst (confirm_all cs p)) \<or> PR_PendingRollbackFrame p = Some q)
        \<and> (\<forall>f \<in> set (fst (confirm_all cs p)). q \<le> f)
        \<and> (\<forall>f. PR_PendingRollbackFrame p = Some f \<longrightarrow> q \<le> f))"
  using confirm_all_pending [of cs p]
  by (auto simp: pending_set_def split: option.splits)

theorem rollback_target_earliest_witness:
  "PR_PendingRollbackFrame (snd (confirm_all
      [(8, InputState_default\<lparr>KeyMask := 0\<rparr>, Some 12), (6, InputState_default\<lparr>KeyMask := 1\<rparr>, Some 12)]
      (PredictionRuntime_init\<lparr>PR_Predictions := fmupd 6 InputState_default (fmupd 8 InputState_default fmempty)\<rparr>)))
   = Some 6"
proof -
  let ?cs = "[(8, InputState_default\<lparr>KeyMask := 0\<rparr>, Some 12), (6, InputState_default\<lparr>KeyMask := 1\<rparr>, Some 12)]"
  let ?p = "PredictionRuntime_init\<lparr>PR_Predictions := fmupd 6 InputState_default (fmupd 8 InputState_default fmempty)\<rparr>"
  have fs: "fst (confirm_all ?cs ?p) = [8, 6]"
    by code_simp
  have "PR_PendingRollbackFrame ?p = None"
    by (simp add: PredictionRuntime_init_def)
  with rollback_target_earliest [of ?cs ?p] fs show ?thesis
    by (auto split: option.splits)
qed

text \<open>What a frame is simulated with, when the prediction probe is off. A received remote input
  is used as it is and is not a prediction; otherwise the remembered guess is used; a fresh guess
  repeats the guess of the previous frame, or else the latest received input before the frame, or
  else the neutral input; and asking again for the same frame gives the same answer and changes
  nothing.\<close>

theorem resolve_specification:
  assumes "PB_Modulo probe \<le> 0"
  shows "case fmlookup confirmed frame of
       Some i \<Rightarrow> Resolve frame confirmed neutral probe p = ((i, False), p)
     | None \<Rightarrow>
         (case fmlookup (PR_Predictions p) frame of
            Some g \<Rightarrow> Resolve frame confirmed neutral probe p = ((g, True), p)
          | None \<Rightarrow> fst (Resolve frame confirmed neutral probe p) =
              (if 0 < frame \<and> frame - 1 \<in> fmdom' (PR_Predictions p)
               then the (fmlookup (PR_Predictions p) (frame - 1))
               else if \<exists>k \<in> fmdom' confirmed. k < frame
               then the (fmlookup confirmed (Max {k \<in> fmdom' confirmed. k < frame}))
               else neutral, True))
       \<and> (let r = Resolve frame confirmed neutral probe p in
          Resolve frame confirmed neutral probe (snd r) = r)"
proof (cases "fmlookup confirmed frame")
  case None
  note nc = None
  have again: "Resolve frame confirmed neutral probe (snd (Resolve frame confirmed neutral probe p))
      = Resolve frame confirmed neutral probe p"
    using Resolve_known [OF nc Resolve_remembers [OF nc]] Resolve_known [OF nc] Resolve_fresh [OF nc _ assms]
    by (cases "fmlookup (PR_Predictions p) frame") (simp_all add: prod_eq_iff)
  show ?thesis
    using nc again Resolve_known [OF nc] Resolve_fresh [OF nc _ assms]
    by (auto simp: predict_base_eq Let_def split: option.splits)
next
  case (Some i)
  with Resolve_confirmed [OF Some assms] show ?thesis by simp
qed

theorem resolve_specification_witness:
  "fst (Resolve 9 (fmupd 4 (InputState_default\<lparr>KeyMask := 1\<rparr>) (fmupd 7 (InputState_default\<lparr>KeyMask := 2\<rparr>) fmempty))
     InputState_default PredictionProbe_default PredictionRuntime_init)
   = (InputState_default\<lparr>KeyMask := 2\<rparr>, True)"
proof -
  let ?c = "fmupd (4 :: u32) (InputState_default\<lparr>KeyMask := 1\<rparr>) (fmupd 7 (InputState_default\<lparr>KeyMask := 2\<rparr>) fmempty)"
  have "PB_Modulo PredictionProbe_default \<le> 0"
    by (simp add: PredictionProbe_default_def)
  note r = resolve_specification [OF this, where confirmed = ?c and frame = 9
      and neutral = InputState_default and p = PredictionRuntime_init]
  have "{k \<in> fmdom' ?c. k < 9} = {4, 7}"
    by auto
  moreover have "fmlookup (PR_Predictions PredictionRuntime_init) 9 = None"
    and "8 \<notin> fmdom' (PR_Predictions PredictionRuntime_init)"
    by (simp_all add: PredictionRuntime_init_def)
  ultimately show ?thesis
    using r by simp
qed

text \<open>The unconfirmed count is the number of frames of the epoch, up to the given one, that lie
  beyond the contiguous range; it is reported for frames of the epoch only. (At the very last frame
  number of an epoch that starts at 0 the count would be \<open>2^32\<close>, which a 32 bit result cannot
  hold.)\<close>

theorem unconfirmed_count_is_cardinality:
  assumes "t = foldl timeline_step TimelineRuntime_init calls" and "frame \<noteq> u32_max"
  shows "case TR_RemoteInputEpochStartFrame t of
       None \<Rightarrow> UnconfirmedRemoteFrameCountThrough frame t = None
     | Some start \<Rightarrow>
         (if frame < start then UnconfirmedRemoteFrameCountThrough frame t = None
          else map_option unat (UnconfirmedRemoteFrameCountThrough frame t) =
            Some (card {f. start \<le> f \<and> f \<le> frame \<and> \<not> covered t f}))"
proof (cases "TR_RemoteInputEpochStartFrame t")
  case None
  then show ?thesis by (simp add: UnconfirmedRemoteFrameCountThrough_def)
next
  case (Some start)
  have inv: "contiguous_inv (\<Union>c \<in> set calls. call_frames c) t"
    unfolding assms(1) by (rule timeline_run_inv)
  have count: "unat (frame - a + 1) = card {a..frame}" if "a \<le> frame" for a
  proof -
    have "unat (frame - a) \<le> unat frame"
      using that by (simp add: unat_sub_u32)
    then have "unat (frame - a) < unat u32_max"
      using assms(2) by (metis le_less_trans order_le_less u32_le_max word_less_nat_alt)
    then have "frame - a \<noteq> u32_max" by auto
    then show ?thesis
      using that by (simp add: unat_Suc_u32 unat_sub_u32 card_u32_interval)
  qed
  show ?thesis
  proof (cases "TR_HighestContiguousRemoteFrame t")
    case None
    have "{f. start \<le> f \<and> f \<le> frame \<and> \<not> covered t f} = {start..frame}"
      using None by (auto simp: covered_def split: option.splits)
    then show ?thesis
      using Some None count [of start] by (auto simp: UnconfirmedRemoteFrameCountThrough_def)
  next
    case h: (Some h)
    have sh: "start \<le> h"
      using inv Some h by (auto simp: contiguous_inv_def)
    have cov: "covered t f \<longleftrightarrow> start \<le> f \<and> f \<le> h" for f
      using Some h by (simp add: covered_def)
    show ?thesis
    proof (cases "frame \<le> h")
      case True
      then have "{f. start \<le> f \<and> f \<le> frame \<and> \<not> covered t f} = {}"
        by (auto simp: cov)
      then show ?thesis
        using Some h True by (simp add: UnconfirmedRemoteFrameCountThrough_def)
    next
      case False
      then have lt: "h < frame" by simp
      then have nm: "h \<noteq> u32_max" by (rule u32_less_imp_not_max)
      with lt have le: "h + 1 \<le> frame" by (simp add: u32_Suc_le)
      have "{f. start \<le> f \<and> f \<le> frame \<and> \<not> covered t f} = {h + 1..frame}"
        using sh nm by (auto simp: cov u32_Suc_le)
      then show ?thesis
        using Some h False sh count [OF le] by (simp add: UnconfirmedRemoteFrameCountThrough_def)
    qed
  qed
qed

theorem unconfirmed_count_is_cardinality_witness:
  "map_option unat (UnconfirmedRemoteFrameCountThrough 15 (foldl timeline_step TimelineRuntime_init
      [CallPrimeEpoch 10 2 InputState_default 0xFFFFFFFF]))
   = Some (card {f. 10 \<le> f \<and> f \<le> 15 \<and> \<not> covered (foldl timeline_step TimelineRuntime_init
      [CallPrimeEpoch 10 2 InputState_default 0xFFFFFFFF]) f})"
proof -
  let ?cs = "[CallPrimeEpoch 10 2 InputState_default 0xFFFFFFFF]"
  have "TR_RemoteInputEpochStartFrame (foldl timeline_step TimelineRuntime_init ?cs) = Some 10"
    by code_simp
  with unconfirmed_count_is_cardinality [OF refl, of 15 ?cs] show ?thesis
    by (simp add: u32_max_def)
qed

text \<open>After an epoch is primed with an input delay, every frame of the delay window has a local
  and a remote input (received inputs are kept, missing ones are neutral), nothing older than the
  start is left, and the contiguous range already covers the window, so the match can start without
  waiting.\<close>

theorem prime_epoch_covers_delay_window:
  assumes "contiguous_inv r t" and "start \<le> f" and "f < start + delay"
  shows "fmlookup (TR_LocalInputs (PrimeEpoch start delay neutral n t)) f =
       Some (case fmlookup (TR_LocalInputs t) f of None \<Rightarrow> neutral | Some i \<Rightarrow> i)
     \<and> fmlookup (TR_RemoteInputs (PrimeEpoch start delay neutral n t)) f =
       Some (case fmlookup (TR_RemoteInputs t) f of None \<Rightarrow> neutral | Some i \<Rightarrow> i)
     \<and> fmdom' (TR_RemoteInputs (PrimeEpoch start delay neutral n t)) \<subseteq> {start..}
     \<and> covered (PrimeEpoch start delay neutral n t) f"
proof (intro conjI)
  let ?t = "PrimeEpoch start delay neutral n t"
  show "fmlookup (TR_LocalInputs ?t) f =
       Some (case fmlookup (TR_LocalInputs t) f of None \<Rightarrow> neutral | Some i \<Rightarrow> i)"
    using assms(2,3) by (auto simp: PrimeEpoch_fields prime_loop_lookup split: option.splits)
  show "fmlookup (TR_RemoteInputs ?t) f =
       Some (case fmlookup (TR_RemoteInputs t) f of None \<Rightarrow> neutral | Some i \<Rightarrow> i)"
    using assms(2,3) by (auto simp: PrimeEpoch_fields prime_loop_lookup split: option.splits)
  show "fmdom' (TR_RemoteInputs ?t) \<subseteq> {start..}"
    by (auto simp: PrimeEpoch_fields fmdom'_prime_loop)
  show "covered ?t f"
    using assms by (rule PrimeEpoch_covered)
qed

theorem prime_epoch_covers_delay_window_witness:
  "covered (PrimeEpoch 100 4 InputState_default 0xFFFFFFFF TimelineRuntime_init) 103"
proof -
  have "contiguous_inv {} TimelineRuntime_init"
    by (simp add: contiguous_inv_def TimelineRuntime_init_def)
  from prime_epoch_covers_delay_window [OF this, where start = 100 and f = 103 and delay = 4
      and neutral = InputState_default and n = "0xFFFFFFFF"]
  show ?thesis by simp
qed

end
