(* ===== verification/Session_Protocol.thy ===== *)
theory Session_Protocol
  imports Wire_Bytes
begin

text \<open>
  The session messages of \<^verbatim>\<open>NsmbNetplayProtocol.cpp\<close> (namespace \<^verbatim>\<open>SessionProtocol\<close>): the 64 byte
  \<^verbatim>\<open>WireMessage\<close>, \<open>Encode\<close> and \<open>Decode\<close>. The decoder's out parameter is the value of an
  option. \<open>session_wire\<close> interprets the wire format contract.
\<close>

section \<open>The message and its layout\<close>

definition kSessionPacketSize :: nat where "kSessionPacketSize = 64"

datatype MessageKind = MatchSeed | StartReady | Resume

record Message =
  SM_Kind :: MessageKind
  SM_Value :: u32
  SM_Generation :: u32
  SM_RawReadyFrame :: u32
  SM_SharedLogicalEpoch :: u32
  SM_StageID :: u32
  SM_StageGroup :: u32
  SM_MatchSeed :: u32
  SM_PacketTick :: u32
  SM_RngValue :: u32
  SM_RngCallCount :: u32
  SM_RngBranchAddress :: u32
  SM_SemanticHash :: u64

definition Message_default :: Message where
  "Message_default = \<lparr>SM_Kind = MatchSeed, SM_Value = 0, SM_Generation = 0, SM_RawReadyFrame = 0,
     SM_SharedLogicalEpoch = 0, SM_StageID = 0, SM_StageGroup = 0, SM_MatchSeed = 0,
     SM_PacketTick = 0, SM_RngValue = 0, SM_RngCallCount = 0, SM_RngBranchAddress = 0,
     SM_SemanticHash = 0\<rparr>"

definition kSessionMagic :: u32 where "kSessionMagic = 0x4C4D534E"
definition kSessionVersion :: u32 where "kSessionVersion = 2"
definition kMatchSeedKind :: u32 where "kMatchSeedKind = 0x44454553"
definition kStartReadyKind :: u32 where "kStartReadyKind = 0x54525453"
definition kResumeKind :: u32 where "kResumeKind = 0x4D555352"

record WireMessage =
  WM_Magic :: u32
  WM_Version :: u32
  WM_Kind :: u32
  WM_Value :: u32
  WM_Generation :: u32
  WM_RawReadyFrame :: u32
  WM_SharedLogicalEpoch :: u32
  WM_StageID :: u32
  WM_StageGroup :: u32
  WM_MatchSeed :: u32
  WM_PacketTick :: u32
  WM_RngValue :: u32
  WM_RngCallCount :: u32
  WM_RngBranchAddress :: u32
  WM_SemanticHashLo :: u32
  WM_SemanticHashHi :: u32

definition WireMessage_words :: "WireMessage \<Rightarrow> u32 list" where
  "WireMessage_words w = [WM_Magic w, WM_Version w, WM_Kind w, WM_Value w, WM_Generation w,
     WM_RawReadyFrame w, WM_SharedLogicalEpoch w, WM_StageID w, WM_StageGroup w, WM_MatchSeed w,
     WM_PacketTick w, WM_RngValue w, WM_RngCallCount w, WM_RngBranchAddress w,
     WM_SemanticHashLo w, WM_SemanticHashHi w]"

definition WireMessage_bytes :: "WireMessage \<Rightarrow> payload" where
  "WireMessage_bytes w = concat (map u32_le (WireMessage_words w))"

definition WireMessage_read :: "payload \<Rightarrow> WireMessage" where
  "WireMessage_read bs = \<lparr>WM_Magic = rd32 bs 0, WM_Version = rd32 bs 4, WM_Kind = rd32 bs 8,
     WM_Value = rd32 bs 12, WM_Generation = rd32 bs 16, WM_RawReadyFrame = rd32 bs 20,
     WM_SharedLogicalEpoch = rd32 bs 24, WM_StageID = rd32 bs 28, WM_StageGroup = rd32 bs 32,
     WM_MatchSeed = rd32 bs 36, WM_PacketTick = rd32 bs 40, WM_RngValue = rd32 bs 44,
     WM_RngCallCount = rd32 bs 48, WM_RngBranchAddress = rd32 bs 52,
     WM_SemanticHashLo = rd32 bs 56, WM_SemanticHashHi = rd32 bs 60\<rparr>"

section \<open>Encoding and decoding\<close>

fun ToWireKind :: "MessageKind \<Rightarrow> u32" where
  "ToWireKind MatchSeed = kMatchSeedKind"
| "ToWireKind StartReady = kStartReadyKind"
| "ToWireKind Resume = kResumeKind"

definition FromWireKind :: "u32 \<Rightarrow> MessageKind option" where
  "FromWireKind kind =
     (if kind = kMatchSeedKind then Some MatchSeed
      else if kind = kStartReadyKind then Some StartReady
      else if kind = kResumeKind then Some Resume
      else None)"

definition ToWireMessage :: "Message \<Rightarrow> WireMessage" where
  "ToWireMessage m = \<lparr>WM_Magic = kSessionMagic, WM_Version = kSessionVersion,
     WM_Kind = ToWireKind (SM_Kind m), WM_Value = SM_Value m, WM_Generation = SM_Generation m,
     WM_RawReadyFrame = SM_RawReadyFrame m, WM_SharedLogicalEpoch = SM_SharedLogicalEpoch m,
     WM_StageID = SM_StageID m, WM_StageGroup = SM_StageGroup m, WM_MatchSeed = SM_MatchSeed m,
     WM_PacketTick = SM_PacketTick m, WM_RngValue = SM_RngValue m,
     WM_RngCallCount = SM_RngCallCount m, WM_RngBranchAddress = SM_RngBranchAddress m,
     WM_SemanticHashLo = ucast (SM_SemanticHash m AND 0xFFFFFFFF),
     WM_SemanticHashHi = ucast (drop_bit 32 (SM_SemanticHash m))\<rparr>"

definition Encode :: "Message \<Rightarrow> payload" where
  "Encode m = WireMessage_bytes (ToWireMessage m)"

definition Decode :: "payload option \<Rightarrow> Message option" where
  "Decode data =
     (case data of None \<Rightarrow> None
      | Some bs \<Rightarrow>
          if length bs \<noteq> kSessionPacketSize then None
          else let wire = WireMessage_read bs in
            if WM_Magic wire \<noteq> kSessionMagic \<or> WM_Version wire \<noteq> kSessionVersion then None
            else case FromWireKind (WM_Kind wire) of None \<Rightarrow> None
              | Some kind \<Rightarrow> Some \<lparr>SM_Kind = kind, SM_Value = WM_Value wire,
                  SM_Generation = WM_Generation wire, SM_RawReadyFrame = WM_RawReadyFrame wire,
                  SM_SharedLogicalEpoch = WM_SharedLogicalEpoch wire, SM_StageID = WM_StageID wire,
                  SM_StageGroup = WM_StageGroup wire, SM_MatchSeed = WM_MatchSeed wire,
                  SM_PacketTick = WM_PacketTick wire, SM_RngValue = WM_RngValue wire,
                  SM_RngCallCount = WM_RngCallCount wire,
                  SM_RngBranchAddress = WM_RngBranchAddress wire,
                  SM_SemanticHash = push_bit 32 (ucast (WM_SemanticHashHi wire))
                    OR ucast (WM_SemanticHashLo wire)\<rparr>)"

lemmas session_consts = kSessionPacketSize_def kSessionMagic_def kSessionVersion_def
  kMatchSeedKind_def kStartReadyKind_def kResumeKind_def

section \<open>Correctness\<close>

lemma length_WireMessage_bytes [simp]: "length (WireMessage_bytes w) = 64"
  by (simp add: WireMessage_bytes_def WireMessage_words_def)

lemma WireMessage_read_bytes [simp]: "WireMessage_read (WireMessage_bytes w) = w"
  by (simp add: WireMessage_read_def WireMessage_bytes_def WireMessage_words_def)

lemma WireMessage_bytes_read: "length bs = 64 \<Longrightarrow> WireMessage_bytes (WireMessage_read bs) = bs"
proof -
  assume "length bs = 64"
  then have "concat (map (\<lambda>i. u32_le (rd32 bs (4 * i))) [0..<16]) = bs"
    by (intro concat_words) simp
  moreover have "[0..<16] = [0, 1, 2, 3, 4, 5, 6, 7, 8, 9, 10, 11, 12, 13, 14, 15 :: nat]"
    by (simp add: upt_rec)
  ultimately show ?thesis
    by (simp add: WireMessage_bytes_def WireMessage_words_def WireMessage_read_def)
qed

lemma FromWireKind_Some: "FromWireKind k = Some kind \<longleftrightarrow> k = ToWireKind kind"
  by (cases kind) (auto simp: FromWireKind_def session_consts)

lemma hash_halves:
  "push_bit 32 (ucast (ucast (drop_bit 32 h) :: u32)) OR ucast (ucast (h AND 0xFFFFFFFF) :: u32) = (h :: u64)"
  "ucast ((push_bit 32 (ucast hi) OR ucast lo :: u64) AND 0xFFFFFFFF) = (lo :: u32)"
  "ucast (drop_bit 32 (push_bit 32 (ucast hi) OR ucast lo :: u64)) = (hi :: u32)"
proof -
  have "(0xFFFFFFFF :: u64) = mask 32"
    by (simp add: mask_eq_exp_minus_1)
  then have lo: "ucast (x AND 0xFFFFFFFF) = (ucast x :: u32)" for x :: u64
    by (intro bit_word_eqI) (auto simp only: bit_unsigned_iff bit_and_iff bit_mask_iff possible_bit_word, simp_all)
  show "push_bit 32 (ucast (ucast (drop_bit 32 h) :: u32)) OR ucast (ucast (h AND 0xFFFFFFFF) :: u32) = (h :: u64)"
    unfolding lo by (rule bit_word_eqI) (auto simp: bit_simps not_less)
  show "ucast ((push_bit 32 (ucast hi) OR ucast lo :: u64) AND 0xFFFFFFFF) = (lo :: u32)"
    unfolding lo by (rule bit_word_eqI) (auto simp: bit_simps)
  show "ucast (drop_bit 32 (push_bit 32 (ucast hi) OR ucast lo :: u64)) = (hi :: u32)"
    by (rule bit_word_eqI) (auto simp: bit_simps dest: bit_imp_le_length)
qed

lemma Decode_Encode: "Decode (Some (Encode m)) = Some m"
proof -
  have "FromWireKind (ToWireKind k) = Some k" for k
    by (simp add: FromWireKind_Some)
  then show ?thesis
    by (simp add: Decode_def Encode_def kSessionPacketSize_def Let_def ToWireMessage_def hash_halves(1))
qed

lemma Decode_Some_Encode: "Decode (Some bs) = Some m \<Longrightarrow> bs = Encode m"
proof -
  assume d: "Decode (Some bs) = Some m"
  let ?w = "WireMessage_read bs"
  have len: "length bs = 64"
    using d by (auto simp: Decode_def kSessionPacketSize_def split: if_splits)
  obtain kind where k: "WM_Magic ?w = kSessionMagic" "WM_Version ?w = kSessionVersion"
    "FromWireKind (WM_Kind ?w) = Some kind"
    using d by (auto simp: Decode_def Let_def split: if_splits option.splits)
  have "ToWireMessage m = ?w"
    using d k len by (auto simp: Decode_def Let_def kSessionPacketSize_def ToWireMessage_def hash_halves(2,3)
        FromWireKind_Some simp del: drop_bit_or intro!: WireMessage.equality)
  with WireMessage_bytes_read [OF len] show ?thesis
    by (simp add: Encode_def)
qed

interpretation session_wire: fixed_codec Encode "\<lambda>bs. Decode (Some bs)" "\<lambda>_. True" kSessionPacketSize
proof unfold_locales
  show "Decode (Some (Encode m)) = Some m" for m
    by (rule Decode_Encode)
  show "length (Encode m) = kSessionPacketSize" for m
    by (simp add: Encode_def kSessionPacketSize_def)
  show "Decode (Some bs) = Some m \<Longrightarrow> length bs = kSessionPacketSize" for bs m
    by (auto simp: Decode_def split: if_splits)
qed

text \<open>C28: The session wire format is a bijection between messages and the payloads the
  decoder accepts: a payload decodes to a message exactly when it is that message's encoding,
  every encoding is 64 bytes long, and a missing buffer is refused.\<close>

theorem session_message_bijection:
  "(Decode (Some bs) = Some m \<longleftrightarrow> bs = Encode m) \<and> length (Encode m) = 64 \<and> Decode None = None"
proof (intro conjI)
  show "Decode (Some bs) = Some m \<longleftrightarrow> bs = Encode m"
    using Decode_Encode Decode_Some_Encode by blast
  show "length (Encode m) = 64"
    using session_wire.length_enc [of m] by (simp add: kSessionPacketSize_def)
qed (simp add: Decode_def)

end
