(* ===== verification/Session_Handshake.thy ===== *)
theory Session_Handshake
  imports Session_Protocol
begin

text \<open>
  The start handshake of \<^verbatim>\<open>NsmbNetplayProtocol.cpp\<close> (namespace \<^verbatim>\<open>SessionPolicy\<close>): the decisions
  (\<open>ValidateStartReady\<close>, \<open>ShouldAcceptStartReady\<close>, \<open>ShouldResendStartReady\<close>,
  \<open>LogicalInputFrame\<close>) and the \<open>HandshakeRuntime\<close> object with one definition per method.
  \<open>handshake\<close> interprets the state machine contract: the invariant \<open>handshake_inv\<close> holds after
  every sequence of calls. The validation's diagnostic names are \<open>StartReadyValidationName\<close>.
\<close>

section \<open>Decisions\<close>

definition kStartReadyResendIntervalMs :: int where "kStartReadyResendIntervalMs = 250"

record StartReadyResendState =
  RR_HasPeer :: bool
  RR_InputNetplayOnly :: bool
  RR_AllowBeforeAccepted :: bool
  RR_WaitedForPeerAtStart :: bool
  RR_StartReadySent :: bool
  RR_HasLocalReadyFrame :: bool
  RR_HasReceivedInputFrame :: bool
  RR_LastReceivedInputFrame :: u32
  RR_NetplayStartFrame :: u32
  RR_InputDelay :: int
  RR_SendCount :: int
  RR_ElapsedSinceLastSendMs :: int

definition FirstGameplayInputFrame :: "u32 \<Rightarrow> int \<Rightarrow> u32" where
  "FirstGameplayInputFrame netplayStartFrame inputDelay =
     netplayStartFrame + u32_of_int (max 0 inputDelay)"

definition HasPostStartRemoteInput :: "bool \<Rightarrow> u32 \<Rightarrow> u32 \<Rightarrow> int \<Rightarrow> bool" where
  "HasPostStartRemoteInput hasReceivedInputFrame lastReceivedInputFrame netplayStartFrame inputDelay \<longleftrightarrow>
     hasReceivedInputFrame
     \<and> FirstGameplayInputFrame netplayStartFrame inputDelay \<le> lastReceivedInputFrame"

datatype StartReadyValidation = Match | GenerationMismatch | EpochMissing | EpochMismatch
  | StageMismatch | SeedMismatch | PacketTickMismatch | RngMismatch | SemanticStateMismatch

definition ValidateStartReady :: "Message \<Rightarrow> Message \<Rightarrow> u32 \<Rightarrow> u32 \<Rightarrow> StartReadyValidation" where
  "ValidateStartReady local remote expectedGeneration sharedLogicalEpoch =
     (if SM_Generation local \<noteq> expectedGeneration \<or> SM_Generation remote \<noteq> expectedGeneration
      then GenerationMismatch
      else if sharedLogicalEpoch = 0 \<or> SM_SharedLogicalEpoch local = 0
        \<or> SM_SharedLogicalEpoch remote = 0
      then EpochMissing
      else if SM_SharedLogicalEpoch local \<noteq> sharedLogicalEpoch
        \<or> SM_SharedLogicalEpoch remote \<noteq> sharedLogicalEpoch
      then EpochMismatch
      else if SM_StageID local \<noteq> SM_StageID remote \<or> SM_StageGroup local \<noteq> SM_StageGroup remote
      then StageMismatch
      else if SM_MatchSeed local \<noteq> SM_MatchSeed remote then SeedMismatch
      else if SM_PacketTick local \<noteq> SM_PacketTick remote then PacketTickMismatch
      else if SM_RngValue local \<noteq> SM_RngValue remote
        \<or> SM_RngCallCount local \<noteq> SM_RngCallCount remote
        \<or> SM_RngBranchAddress local \<noteq> SM_RngBranchAddress remote
      then RngMismatch
      else if SM_SemanticHash local \<noteq> SM_SemanticHash remote then SemanticStateMismatch
      else Match)"

fun StartReadyValidationName :: "StartReadyValidation \<Rightarrow> string" where
  "StartReadyValidationName Match = ''match''"
| "StartReadyValidationName GenerationMismatch = ''generation-mismatch''"
| "StartReadyValidationName EpochMissing = ''epoch-missing''"
| "StartReadyValidationName EpochMismatch = ''epoch-mismatch''"
| "StartReadyValidationName StageMismatch = ''stage-mismatch''"
| "StartReadyValidationName SeedMismatch = ''seed-mismatch''"
| "StartReadyValidationName PacketTickMismatch = ''packet-tick-mismatch''"
| "StartReadyValidationName RngMismatch = ''rng-mismatch''"
| "StartReadyValidationName SemanticStateMismatch = ''semantic-state-mismatch''"

definition ShouldAcceptStartReady :: "bool \<Rightarrow> bool \<Rightarrow> bool \<Rightarrow> bool" where
  "ShouldAcceptStartReady hasRemoteReadyFrame remoteReadyAfterLocal hasPostStartRemoteInput \<longleftrightarrow>
     hasRemoteReadyFrame \<and> (remoteReadyAfterLocal \<or> hasPostStartRemoteInput)"

definition ShouldResendStartReady :: "StartReadyResendState \<Rightarrow> bool" where
  "ShouldResendStartReady s =
     (if \<not> RR_HasPeer s \<or> \<not> RR_InputNetplayOnly s
         \<or> (\<not> RR_AllowBeforeAccepted s \<and> \<not> RR_WaitedForPeerAtStart s)
         \<or> \<not> RR_StartReadySent s \<or> \<not> RR_HasLocalReadyFrame s
      then False
      else if HasPostStartRemoteInput (RR_HasReceivedInputFrame s) (RR_LastReceivedInputFrame s)
        (RR_NetplayStartFrame s) (RR_InputDelay s)
      then False
      else RR_SendCount s \<le> 0 \<or> kStartReadyResendIntervalMs \<le> RR_ElapsedSinceLastSendMs s)"

definition ShouldPumpNetworkAtFrame :: "bool \<Rightarrow> u32 \<Rightarrow> u32 \<Rightarrow> u32 \<Rightarrow> bool" where
  "ShouldPumpNetworkAtFrame deferUntilStart netplayStartFrame syncFrame sendStartFrame \<longleftrightarrow>
     \<not> deferUntilStart \<or> netplayStartFrame = 0 \<or> sendStartFrame \<le> syncFrame"

definition LogicalInputFrame :: "bool \<Rightarrow> u32 option \<Rightarrow> u32 \<Rightarrow> u32 \<Rightarrow> u32" where
  "LogicalInputFrame inputNetplayOnly localReadyFrame netplayStartFrame rawFrame =
     (case localReadyFrame of
        None \<Rightarrow> rawFrame
      | Some ready \<Rightarrow>
          if \<not> inputNetplayOnly \<or> rawFrame < ready then rawFrame
          else netplayStartFrame + (rawFrame - ready))"

section \<open>The handshake object\<close>

record HandshakeRuntime =
  HR_MatchSeedSent :: bool
  HR_WaitedForPeerAtStart :: bool
  HR_StartReadySent :: bool
  HR_StartReadySendCount :: int
  HR_LastStartReadySentAt :: time_point
  HR_LocalReadyFrame :: "u32 option"
  HR_RemoteReadyFrame :: "u32 option"
  HR_LocalReady :: "Message option"
  HR_RemoteReady :: "Message option"
  HR_Generation :: u32
  HR_SharedLogicalEpoch :: u32
  HR_LogicalEpochEstablished :: bool
  HR_Validation :: StartReadyValidation
  HR_RemoteReadyAfterLocal :: bool
  HR_InputEpochPrimedStartFrame :: "u32 option"

definition HandshakeRuntime_init :: HandshakeRuntime where
  "HandshakeRuntime_init = \<lparr>HR_MatchSeedSent = False, HR_WaitedForPeerAtStart = False,
     HR_StartReadySent = False, HR_StartReadySendCount = 0, HR_LastStartReadySentAt = 0,
     HR_LocalReadyFrame = None, HR_RemoteReadyFrame = None, HR_LocalReady = None,
     HR_RemoteReady = None, HR_Generation = 0, HR_SharedLogicalEpoch = 0,
     HR_LogicalEpochEstablished = False, HR_Validation = GenerationMismatch,
     HR_RemoteReadyAfterLocal = False, HR_InputEpochPrimedStartFrame = None\<rparr>"

definition ResetStartHandshake :: "HandshakeRuntime \<Rightarrow> HandshakeRuntime" where
  "ResetStartHandshake h = h\<lparr>HR_WaitedForPeerAtStart := False, HR_StartReadySent := False,
     HR_StartReadySendCount := 0, HR_LastStartReadySentAt := 0, HR_LocalReadyFrame := None,
     HR_RemoteReadyFrame := None, HR_LocalReady := None, HR_RemoteReady := None,
     HR_RemoteReadyAfterLocal := False, HR_InputEpochPrimedStartFrame := None,
     HR_Validation := GenerationMismatch\<rparr>"

definition BeginGeneration :: "u32 \<Rightarrow> u32 \<Rightarrow> bool \<Rightarrow> HandshakeRuntime \<Rightarrow> HandshakeRuntime" where
  "BeginGeneration generation sharedLogicalEpoch host h =
     (ResetStartHandshake h)\<lparr>HR_Generation := generation,
       HR_SharedLogicalEpoch := (if host then sharedLogicalEpoch else 0),
       HR_LogicalEpochEstablished := (host \<and> sharedLogicalEpoch \<noteq> 0)\<rparr>"

definition OnPeerConnected :: "HandshakeRuntime \<Rightarrow> HandshakeRuntime" where
  "OnPeerConnected h = h\<lparr>HR_MatchSeedSent := False, HR_StartReadySent := False,
     HR_RemoteReadyFrame := None, HR_RemoteReady := None, HR_RemoteReadyAfterLocal := False\<rparr>"

definition ResetReadyWaitAfterTimeout :: "HandshakeRuntime \<Rightarrow> HandshakeRuntime" where
  "ResetReadyWaitAfterTimeout h = h\<lparr>HR_LocalReadyFrame := None, HR_RemoteReadyAfterLocal := False,
     HR_StartReadySent := False\<rparr>"

definition MarkMatchSeedSent :: "HandshakeRuntime \<Rightarrow> HandshakeRuntime" where
  "MarkMatchSeedSent h = h\<lparr>HR_MatchSeedSent := True\<rparr>"

definition CanSendStartReady :: "bool \<Rightarrow> HandshakeRuntime \<Rightarrow> bool" where
  "CanSendStartReady force h \<longleftrightarrow> \<not> HR_StartReadySent h \<or> force"

definition MarkStartReadySent :: "time_point \<Rightarrow> HandshakeRuntime \<Rightarrow> HandshakeRuntime" where
  "MarkStartReadySent sentAt h = h\<lparr>HR_StartReadySent := True,
     HR_StartReadySendCount := HR_StartReadySendCount h + 1, HR_LastStartReadySentAt := sentAt\<rparr>"

definition BeginLocalReady :: "Message \<Rightarrow> HandshakeRuntime \<Rightarrow> HandshakeRuntime" where
  "BeginLocalReady message h =
     (if HR_LocalReadyFrame h \<noteq> None then h
      else
        (if SM_RawReadyFrame message = 0
         then h\<lparr>HR_LocalReadyFrame := None, HR_LocalReady := None\<rparr>
         else h\<lparr>HR_LocalReadyFrame := Some (SM_RawReadyFrame message), HR_LocalReady := Some message\<rparr>)
        \<lparr>HR_RemoteReadyAfterLocal := False\<rparr>)"

definition ReceiveRemoteReady :: "Message \<Rightarrow> HandshakeRuntime \<Rightarrow> HandshakeRuntime" where
  "ReceiveRemoteReady message h =
     (let h' = (if SM_RawReadyFrame message = 0
                then h\<lparr>HR_RemoteReadyFrame := None, HR_RemoteReady := None\<rparr>
                else h\<lparr>HR_RemoteReadyFrame := Some (SM_RawReadyFrame message),
                       HR_RemoteReady := Some message\<rparr>)
      in if HR_LocalReadyFrame h' \<noteq> None then h'\<lparr>HR_RemoteReadyAfterLocal := True\<rparr> else h')"

definition AdoptHostLogicalEpoch :: "u32 \<Rightarrow> HandshakeRuntime \<Rightarrow> HandshakeRuntime" where
  "AdoptHostLogicalEpoch epoch h =
     h\<lparr>HR_SharedLogicalEpoch := epoch, HR_LogicalEpochEstablished := (epoch \<noteq> 0)\<rparr>"

definition MarkStartReadyValidation :: "StartReadyValidation \<Rightarrow> HandshakeRuntime \<Rightarrow> HandshakeRuntime" where
  "MarkStartReadyValidation validation h = h\<lparr>HR_Validation := validation\<rparr>"

definition MarkWaitedForPeerAtStart :: "HandshakeRuntime \<Rightarrow> HandshakeRuntime" where
  "MarkWaitedForPeerAtStart h = h\<lparr>HR_WaitedForPeerAtStart := True\<rparr>"

definition MarkInputEpochPrimed :: "u32 \<Rightarrow> HandshakeRuntime \<Rightarrow> HandshakeRuntime" where
  "MarkInputEpochPrimed startFrame h =
     h\<lparr>HR_InputEpochPrimedStartFrame := (if startFrame = 0 then None else Some startFrame)\<rparr>"

definition StartReadyValidated :: "HandshakeRuntime \<Rightarrow> bool" where
  "StartReadyValidated h \<longleftrightarrow> HR_Validation h = Match"

definition InputEpochPrimedFor :: "u32 \<Rightarrow> HandshakeRuntime \<Rightarrow> bool" where
  "InputEpochPrimedFor startFrame h \<longleftrightarrow> HR_InputEpochPrimedStartFrame h = Some startFrame"

section \<open>The session's use of the object\<close>

text \<open>
  The handshake part of \<^verbatim>\<open>HandleReceivedSessionLocked\<close> for a start-ready message of the current
  generation, and of \<^verbatim>\<open>WaitForRemoteStartReady\<close> when the local game becomes ready (diagnostic
  output apart). \<open>BuildStartReady\<close> is the message the game hook returns.
\<close>

definition normalized_local :: "Message \<Rightarrow> HandshakeRuntime \<Rightarrow> Message" where
  "normalized_local local h = local\<lparr>SM_SharedLogicalEpoch := HR_SharedLogicalEpoch h\<rparr>"

definition receive_start_ready :: "bool \<Rightarrow> Message \<Rightarrow> HandshakeRuntime \<Rightarrow> HandshakeRuntime" where
  "receive_start_ready host message h =
     (if SM_Generation message \<noteq> HR_Generation h then h
      else
        let h1 = (if \<not> host then AdoptHostLogicalEpoch (SM_SharedLogicalEpoch message) h else h);
            h2 = ReceiveRemoteReady message h1
        in case HR_LocalReady h2 of
             None \<Rightarrow> h2
           | Some local \<Rightarrow>
               MarkStartReadyValidation
                 (ValidateStartReady (normalized_local local h2) message (HR_Generation h2)
                    (HR_SharedLogicalEpoch h2)) h2)"

definition local_ready_message :: "Message \<Rightarrow> u32 \<Rightarrow> HandshakeRuntime \<Rightarrow> Message" where
  "local_ready_message BuildStartReady syncFrame h =
     BuildStartReady\<lparr>SM_Kind := StartReady, SM_Generation := HR_Generation h,
       SM_RawReadyFrame := syncFrame, SM_SharedLogicalEpoch := HR_SharedLogicalEpoch h\<rparr>"

definition begin_start_ready :: "Message \<Rightarrow> u32 \<Rightarrow> HandshakeRuntime \<Rightarrow> HandshakeRuntime" where
  "begin_start_ready BuildStartReady syncFrame h =
     (let localReady = local_ready_message BuildStartReady syncFrame h;
          h1 = BeginLocalReady localReady h
      in case HR_RemoteReady h1 of
           None \<Rightarrow> h1
         | Some remote \<Rightarrow>
             MarkStartReadyValidation
               (ValidateStartReady (normalized_local localReady h1) remote (HR_Generation h1)
                  (HR_SharedLogicalEpoch h1)) h1)"


section \<open>The object's invariant\<close>

datatype handshake_call =
    CallReset
  | CallBeginGeneration u32 u32 bool
  | CallPeerConnected
  | CallReadyTimeout
  | CallMatchSeedSent
  | CallStartReadySent time_point
  | CallBeginLocalReady Message
  | CallReceiveRemoteReady Message
  | CallAdoptEpoch u32
  | CallValidation StartReadyValidation
  | CallWaitedForPeer
  | CallEpochPrimed u32

fun handshake_step :: "HandshakeRuntime \<Rightarrow> handshake_call \<Rightarrow> HandshakeRuntime" where
  "handshake_step h CallReset = ResetStartHandshake h"
| "handshake_step h (CallBeginGeneration g e host) = BeginGeneration g e host h"
| "handshake_step h CallPeerConnected = OnPeerConnected h"
| "handshake_step h CallReadyTimeout = ResetReadyWaitAfterTimeout h"
| "handshake_step h CallMatchSeedSent = MarkMatchSeedSent h"
| "handshake_step h (CallStartReadySent t) = MarkStartReadySent t h"
| "handshake_step h (CallBeginLocalReady m) = BeginLocalReady m h"
| "handshake_step h (CallReceiveRemoteReady m) = ReceiveRemoteReady m h"
| "handshake_step h (CallAdoptEpoch e) = AdoptHostLogicalEpoch e h"
| "handshake_step h (CallValidation v) = MarkStartReadyValidation v h"
| "handshake_step h CallWaitedForPeer = MarkWaitedForPeerAtStart h"
| "handshake_step h (CallEpochPrimed f) = MarkInputEpochPrimed f h"

lemmas handshake_defs = ResetStartHandshake_def BeginGeneration_def OnPeerConnected_def
  ResetReadyWaitAfterTimeout_def MarkMatchSeedSent_def MarkStartReadySent_def BeginLocalReady_def
  ReceiveRemoteReady_def AdoptHostLogicalEpoch_def MarkStartReadyValidation_def
  MarkWaitedForPeerAtStart_def MarkInputEpochPrimed_def

definition handshake_inv :: "HandshakeRuntime \<Rightarrow> bool" where
  "handshake_inv h \<longleftrightarrow>
     (case HR_LocalReadyFrame h of None \<Rightarrow> True
      | Some f \<Rightarrow> f \<noteq> 0 \<and> map_option SM_RawReadyFrame (HR_LocalReady h) = Some f)
     \<and> HR_RemoteReadyFrame h = map_option SM_RawReadyFrame (HR_RemoteReady h)
     \<and> HR_RemoteReadyFrame h \<noteq> Some 0
     \<and> (HR_RemoteReadyAfterLocal h \<longrightarrow> HR_LocalReadyFrame h \<noteq> None)
     \<and> HR_LogicalEpochEstablished h = (HR_SharedLogicalEpoch h \<noteq> 0)
     \<and> HR_InputEpochPrimedStartFrame h \<noteq> Some 0
     \<and> 0 \<le> HR_StartReadySendCount h"

lemma handshake_step_inv: "handshake_inv h \<Longrightarrow> handshake_inv (handshake_step h c)"
  by (cases c) (auto simp: handshake_inv_def handshake_defs Let_def split: option.splits)

interpretation handshake: state_machine handshake_step handshake_inv
  by unfold_locales (rule handshake_step_inv)

text \<open>After any sequence of calls on a fresh handshake object its fields agree: a local
  ready frame is nonzero and is the raw frame of the stored local message; the remote ready
  frame is exactly the raw frame of the stored remote message and is nonzero; a remote
  message counts as received after the local one only while a local ready frame is set; the
  logical epoch is established exactly when it is nonzero.\<close>

theorem handshake_state_coherent:
  "handshake_inv (foldl handshake_step HandshakeRuntime_init calls)"
  by (rule handshake.run_inv) (simp add: handshake_inv_def HandshakeRuntime_init_def)

section \<open>Validation\<close>

lemma ValidateStartReady_sym: "ValidateStartReady l r g e = ValidateStartReady r l g e"
  unfolding ValidateStartReady_def by (intro if_cong refl) auto

text \<open>The game state two ready messages describe.\<close>

definition ready_state :: "Message \<Rightarrow> u32 list \<times> u64" where
  "ready_state m = ([SM_StageID m, SM_StageGroup m, SM_MatchSeed m, SM_PacketTick m, SM_RngValue m,
     SM_RngCallCount m, SM_RngBranchAddress m], SM_SemanticHash m)"

lemma ValidateStartReady_Match:
  "ValidateStartReady l r g e = Match \<longleftrightarrow>
     SM_Generation l = g \<and> SM_Generation r = g \<and> e \<noteq> 0
     \<and> SM_SharedLogicalEpoch l = e \<and> SM_SharedLogicalEpoch r = e \<and> ready_state l = ready_state r"
  by (simp add: ValidateStartReady_def ready_state_def) auto

text \<open>Start-ready validation succeeds exactly when both messages are of the expected
  generation, carry the same nonzero epoch and describe the same stage, seed, packet tick,
  random generator and semantic state; and both peers reach the same verdict, whichever side
  they call local.\<close>

theorem start_ready_validation_exact:
  "(ValidateStartReady l r g e = Match \<longleftrightarrow>
      SM_Generation l = g \<and> SM_Generation r = g \<and> e \<noteq> 0
      \<and> SM_SharedLogicalEpoch l = e \<and> SM_SharedLogicalEpoch r = e \<and> ready_state l = ready_state r)
   \<and> ValidateStartReady l r g e = ValidateStartReady r l g e"
  by (intro conjI ValidateStartReady_Match ValidateStartReady_sym)

section \<open>The start barrier\<close>

text \<open>
  The start barrier as a step relation. The state is whether \<^verbatim>\<open>WaitForRemoteStartReady\<close> is in its
  loop, and the handshake object. Entering needs that the peer was not yet waited for; the loop
  ends by acceptance (\<^verbatim>\<open>ShouldAcceptStartReady\<close> and \<^verbatim>\<open>StartReadyValidated\<close>) or by timeout.
  Messages arrive and sends happen at any moment; a new generation or a reset only happens
  outside the loop.
\<close>

inductive barrier_step :: "bool \<Rightarrow> bool \<times> HandshakeRuntime \<Rightarrow> bool \<times> HandshakeRuntime \<Rightarrow> bool"
  for host :: bool where
  enter: "\<not> HR_WaitedForPeerAtStart h \<Longrightarrow> syncFrame \<noteq> 0 \<Longrightarrow>
    barrier_step host (False, h) (True, begin_start_ready built syncFrame h)"
| receive: "barrier_step host (w, h) (w, receive_start_ready host m h)"
| connect: "barrier_step host (w, h) (w, OnPeerConnected h)"
| sent: "barrier_step host (w, h) (w, MarkStartReadySent t h)"
| accept: "ShouldAcceptStartReady (HR_RemoteReadyFrame h \<noteq> None) (HR_RemoteReadyAfterLocal h) post \<Longrightarrow>
    StartReadyValidated h \<Longrightarrow> barrier_step host (True, h) (False, MarkWaitedForPeerAtStart h)"
| prime: "barrier_step host (w, h) (w, MarkInputEpochPrimed f h)"
| timeout: "barrier_step host (True, h) (False, ResetReadyWaitAfterTimeout h)"
| generation: "barrier_step host (False, h) (False, BeginGeneration g e host h)"
| reset: "barrier_step host (False, h) (False, ResetStartHandshake h)"

inductive_cases barrier_acceptE: "barrier_step host (True, h) (False, h')"

inductive barrier_reach :: "bool \<Rightarrow> bool \<times> HandshakeRuntime \<Rightarrow> bool" for host :: bool where
  start: "barrier_reach host (False, BeginGeneration g e host HandshakeRuntime_init)"
| step: "barrier_reach host s \<Longrightarrow> barrier_step host s s' \<Longrightarrow> barrier_reach host s'"

text \<open>
  The verdict on record is the verdict on the messages on record whenever both are there, the
  two ready frames are those of the messages, and outside the loop and before acceptance there
  is no local ready frame.
\<close>

definition verdict :: "Message \<Rightarrow> Message \<Rightarrow> HandshakeRuntime \<Rightarrow> StartReadyValidation" where
  "verdict local remote h = ValidateStartReady (normalized_local local h) remote (HR_Generation h)
     (HR_SharedLogicalEpoch h)"

definition barrier_inv :: "bool \<times> HandshakeRuntime \<Rightarrow> bool" where
  "barrier_inv s = (case s of (w, h) \<Rightarrow>
     (case (HR_LocalReady h, HR_RemoteReady h) of
        (Some l, Some r) \<Rightarrow> HR_Validation h = verdict l r h
      | _ \<Rightarrow> True)
     \<and> (w \<longrightarrow> HR_LocalReady h \<noteq> None \<and> HR_LocalReadyFrame h \<noteq> None)
     \<and> (\<not> w \<and> \<not> HR_WaitedForPeerAtStart h \<longrightarrow> HR_LocalReadyFrame h = None)
     \<and> (w \<longrightarrow> \<not> HR_WaitedForPeerAtStart h)
     \<and> HR_RemoteReadyFrame h = map_option SM_RawReadyFrame (HR_RemoteReady h))"

lemmas barrier_defs = barrier_inv_def verdict_def normalized_local_def

lemma barrier_step_inv: "barrier_step host s s' \<Longrightarrow> barrier_inv s \<Longrightarrow> barrier_inv s'"
proof (induction rule: barrier_step.induct)
  case (enter h syncFrame built)
  then show ?case
    by (auto simp: barrier_defs begin_start_ready_def local_ready_message_def BeginLocalReady_def
        MarkStartReadyValidation_def Let_def split: option.splits)
next
  case (receive w h m)
  then show ?case
    by (auto simp: barrier_defs receive_start_ready_def ReceiveRemoteReady_def AdoptHostLogicalEpoch_def
        MarkStartReadyValidation_def Let_def split: option.splits if_splits)
qed (auto simp: barrier_defs handshake_defs split: option.splits)

lemma barrier_reach_inv: "barrier_reach host s \<Longrightarrow> barrier_inv s"
proof (induction rule: barrier_reach.induct)
  case (start g e)
  then show ?case
    by (simp add: barrier_inv_def BeginGeneration_def ResetStartHandshake_def HandshakeRuntime_init_def)
next
  case (step s t)
  then show ?case
    by (blast intro: barrier_step_inv)
qed

text \<open>C29: The start barrier lets a game begin only in agreement. Whenever the barrier loop of a
  reachable state ends with the peer accepted, a local and a remote ready message are on record,
  both of the current generation, the remote one carries the nonzero shared epoch, and both
  describe the same stage, seed, packet tick, random generator and semantic state.\<close>

theorem start_barrier_agreement:
  assumes "barrier_reach host (True, h)" "barrier_step host (True, h) (False, h')"
    "HR_WaitedForPeerAtStart h'"
  shows "\<exists>l r. HR_LocalReady h' = Some l \<and> HR_RemoteReady h' = Some r
    \<and> SM_Generation l = HR_Generation h' \<and> SM_Generation r = HR_Generation h'
    \<and> HR_SharedLogicalEpoch h' \<noteq> 0 \<and> SM_SharedLogicalEpoch r = HR_SharedLogicalEpoch h'
    \<and> ready_state l = ready_state r"
proof -
  have inv: "barrier_inv (True, h)"
    using assms(1) by (rule barrier_reach_inv)
  from assms(2) have "HR_RemoteReadyFrame h \<noteq> None \<and> StartReadyValidated h \<and> h' = MarkWaitedForPeerAtStart h"
  proof (rule barrier_acceptE)
    assume "h' = ResetReadyWaitAfterTimeout h"
    then show ?thesis
      using inv assms(3) by (auto simp: barrier_inv_def ResetReadyWaitAfterTimeout_def)
  qed (auto simp: ShouldAcceptStartReady_def)
  then have acc: "HR_RemoteReadyFrame h \<noteq> None" "HR_Validation h = Match" "h' = MarkWaitedForPeerAtStart h"
    by (auto simp: StartReadyValidated_def)
  with inv obtain l r where lr: "HR_LocalReady h = Some l" "HR_RemoteReady h = Some r"
    by (auto simp: barrier_inv_def)
  with inv acc(2) have "verdict l r h = Match"
    by (simp add: barrier_inv_def)
  with lr acc(3) show ?thesis
    by (auto simp: verdict_def normalized_local_def ValidateStartReady_Match ready_state_def
        MarkWaitedForPeerAtStart_def)
qed

theorem start_barrier_agreement_witness:
  "\<exists>h. barrier_reach True (True, h) \<and> HR_RemoteReady h \<noteq> None
     \<and> (\<exists>l r. HR_LocalReady (MarkWaitedForPeerAtStart h) = Some l
        \<and> HR_RemoteReady (MarkWaitedForPeerAtStart h) = Some r \<and> ready_state l = ready_state r)"
proof -
  define built where "built = Message_default\<lparr>SM_Kind := StartReady, SM_StageID := 3, SM_MatchSeed := 0xBEEF\<rparr>"
  define h0 where "h0 = BeginGeneration 1 100 True HandshakeRuntime_init"
  define h1 where "h1 = begin_start_ready built 50 h0"
  define remote where "remote = built\<lparr>SM_Generation := 1, SM_RawReadyFrame := 61, SM_SharedLogicalEpoch := 100\<rparr>"
  define h2 where "h2 = receive_start_ready True remote h1"
  note defs = h0_def h1_def h2_def remote_def built_def begin_start_ready_def local_ready_message_def
    receive_start_ready_def normalized_local_def handshake_defs HandshakeRuntime_init_def Let_def
    Message_default_def ValidateStartReady_def
  have r0: "barrier_reach True (False, h0)"
    unfolding h0_def by (rule barrier_reach.start)
  have "barrier_step True (False, h0) (True, h1)"
    unfolding h1_def by (rule barrier_step.enter) (simp_all add: h0_def handshake_defs)
  with r0 have "barrier_reach True (True, h1)"
    by (rule barrier_reach.step)
  then have r2: "barrier_reach True (True, h2)"
    by (rule barrier_reach.step) (simp add: h2_def barrier_step.receive)
  have v: "HR_RemoteReadyFrame h2 = Some 61" "HR_RemoteReadyAfterLocal h2" "HR_Validation h2 = Match"
    "HR_RemoteReady h2 = Some remote"
    by (simp_all add: defs)
  then have "barrier_step True (True, h2) (False, MarkWaitedForPeerAtStart h2)"
    by (intro barrier_step.accept [where post = False])
      (simp_all add: ShouldAcceptStartReady_def StartReadyValidated_def)
  then have "\<exists>l r. HR_LocalReady (MarkWaitedForPeerAtStart h2) = Some l
        \<and> HR_RemoteReady (MarkWaitedForPeerAtStart h2) = Some r \<and> ready_state l = ready_state r"
    using start_barrier_agreement [OF r2, of "MarkWaitedForPeerAtStart h2"]
    by (auto simp: MarkWaitedForPeerAtStart_def)
  with r2 v show ?thesis
    by (intro exI [of _ h2]) simp
qed

section \<open>Logical frames\<close>

lemma LogicalInputFrame_offset: "a \<le> a + k \<Longrightarrow> LogicalInputFrame True (Some a) s (a + k) = s + k"
  by (simp add: LogicalInputFrame_def not_less [symmetric])

text \<open>Logical frames line up. Two peers that became ready at different raw frames agree on
  the logical frame of every raw frame at the same distance after their own ready frame (the raw
  counters not wrapping), the logical frame of the ready frame itself is the shared epoch, and
  on one peer distinct raw frames from the ready frame on get distinct logical frames.\<close>

theorem logical_frames_align:
  assumes "a \<le> a + k" "b \<le> b + k"
  shows "LogicalInputFrame True (Some a) s (a + k) = LogicalInputFrame True (Some b) s (b + k)
    \<and> LogicalInputFrame True (Some a) s a = s
    \<and> (\<forall>x. a \<le> x \<longrightarrow> (LogicalInputFrame True (Some a) s x = LogicalInputFrame True (Some a) s (a + k)) = (x = a + k))"
  using assms LogicalInputFrame_offset [OF assms(1)] LogicalInputFrame_offset [OF assms(2)]
  by (auto simp: LogicalInputFrame_def not_less [symmetric] algebra_simps)

theorem logical_frames_align_witness:
  "LogicalInputFrame True (Some 400) 120 (400 + 7) = LogicalInputFrame True (Some 655) 120 (655 + 7)"
  using logical_frames_align [of 400 7 655 120] by simp

end
