(* ===== verification/Packet_Classifier.thy ===== *)
theory Packet_Classifier
  imports Input_Protocol Session_Protocol
begin

text \<open>
  The size based dispatch of received packets (\<^verbatim>\<open>NsmbNetplayProtocol.cpp\<close>, namespace
  \<^verbatim>\<open>PacketClassifier\<close>), with the sizes \<^verbatim>\<open>NsmbNetplaySession.cpp\<close> passes to it. The properties tie it to
  the decoders: a packet that some decoder accepts is dispatched to that decoder.
\<close>

datatype PacketClass = PcUnknown | PcInput | PcInputBundleCandidate | PcSession | PcNSMLPacket | PcGameState

record KnownPacketSizes =
  KS_Input :: nat
  KS_Session :: nat
  KS_NSMLPacket :: nat
  KS_GameState :: nat

definition IsGamePacketSize :: "nat \<Rightarrow> KnownPacketSizes \<Rightarrow> bool" where
  "IsGamePacketSize sz known \<longleftrightarrow> sz = KS_NSMLPacket known \<or> sz = KS_GameState known"

definition Classify :: "nat \<Rightarrow> KnownPacketSizes \<Rightarrow> PacketClass" where
  "Classify packetSize sizes =
     (if packetSize = KS_Input sizes then PcInput
      else if packetSize = KS_Session sizes then PcSession
      else if packetSize = KS_NSMLPacket sizes then PcNSMLPacket
      else if packetSize = KS_GameState sizes then PcGameState
      else if KS_Input sizes < packetSize \<and> \<not> IsGamePacketSize packetSize sizes
      then PcInputBundleCandidate
      else PcUnknown)"

text \<open>The fields of \<^verbatim>\<open>WireNSMLPacket\<close> with their sizes and of \<^verbatim>\<open>WireGameState\<close> (each a 32 bit word), in
  order; the structures are packed without padding.\<close>

definition WireNSMLPacket_fields :: "(string \<times> nat) list" where
  "WireNSMLPacket_fields = [(''Magic'', 4), (''Version'', 4), (''Kind'', 4), (''Generation'', 4),
     (''Frame'', 4), (''Player'', 4), (''Tick'', 4), (''Packet'', 52)]"

definition WireGameState_fields :: "string list" where
  "WireGameState_fields = [''Magic'', ''Version'', ''Kind'', ''Generation'', ''Frame'',
     ''Instance'', ''StageID'', ''StageGroup'', ''VsMode'', ''LocalPlayerID'', ''GGID'',
     ''NetRandomValue'', ''NetRandomCallCount'', ''NetRandomBranchAddress'', ''VsStarFound'',
     ''VsStarGUID'', ''VsStarBase'', ''VsStarSettings'', ''VsStarStateType'', ''VsStarFlags'',
     ''VsStarPosX'', ''VsStarPosY'', ''VsStarPosZ'', ''VsStarActorFound'', ''VsStarActorGUID'',
     ''VsStarActorBase'', ''VsStarActorSettings'', ''VsStarActorStateType'',
     ''VsStarActorFlags'', ''VsStarActorPosX'', ''VsStarActorPosY'', ''VsStarActorPosZ'',
     ''PlayerActor0Found'', ''PlayerActor0GUID'', ''PlayerActor0Settings'',
     ''PlayerActor0PosX'', ''PlayerActor0PosY'', ''PlayerActor0PosZ'', ''PlayerActor0PrevX'',
     ''PlayerActor0PrevY'', ''PlayerActor0PrevZ'', ''PlayerActor0VelX'', ''PlayerActor0VelY'',
     ''PlayerActor0VelZ'', ''PlayerActor1Found'', ''PlayerActor1GUID'',
     ''PlayerActor1Settings'', ''PlayerActor1PosX'', ''PlayerActor1PosY'',
     ''PlayerActor1PosZ'', ''PlayerActor1PrevX'', ''PlayerActor1PrevY'', ''PlayerActor1PrevZ'',
     ''PlayerActor1VelX'', ''PlayerActor1VelY'', ''PlayerActor1VelZ'', ''PlayerCount'',
     ''Player0BattleStars'', ''Player1BattleStars'', ''Player0Coins'', ''Player1Coins'',
     ''Player0Score'', ''Player1Score'', ''Player0DisplayedStars'', ''Player1DisplayedStars'',
     ''Player0Deaths'', ''Player1Deaths'', ''Player0CollectedStars'',
     ''Player1CollectedStars'', ''VsCoinCount'', ''StageCameraFound'', ''StageCameraWord190'',
     ''StageCameraWord194'', ''StageCameraWord19C'', ''StageCameraWord1A0'',
     ''StageSceneFound'', ''StageSceneWord154'', ''StageSceneWord160'', ''MovingHazardFound'',
     ''MovingHazardGUID'', ''MovingHazardSettings'', ''MovingHazardStateType'',
     ''MovingHazardFlags'', ''MovingHazardPosX'', ''MovingHazardPosY'', ''MovingHazardPosZ'',
     ''MovingHazardVelX'', ''MovingHazardVelY'', ''BasicHashLo'', ''BasicHashHi'',
     ''PlayerGlobalHashLo'', ''PlayerGlobalHashHi'', ''WifiCandidateHashLo'',
     ''WifiCandidateHashHi'', ''RenderCandidateHashLo'', ''RenderCandidateHashHi'']"

definition kWireNSMLPacketSize :: nat where
  "kWireNSMLPacketSize = sum_list (map snd WireNSMLPacket_fields)"

definition kWireGameStateSize :: nat where
  "kWireGameStateSize = 4 * length WireGameState_fields"

definition known_sizes :: KnownPacketSizes where
  "known_sizes = \<lparr>KS_Input = kInputPacketSize, KS_Session = kSessionPacketSize,
     KS_NSMLPacket = kWireNSMLPacketSize, KS_GameState = kWireGameStateSize\<rparr>"

lemma wire_sizes: "kWireNSMLPacketSize = 80" "kWireGameStateSize = 384"
  by (simp_all add: kWireNSMLPacketSize_def WireNSMLPacket_fields_def kWireGameStateSize_def
      WireGameState_fields_def)

lemmas size_consts = known_sizes_def kInputPacketSize_def kSessionPacketSize_def wire_sizes

lemma Classify_bundle_size:
  assumes "1 \<le> n"
  shows "Classify (kInputBundleHeaderSize + kInputBundleEntrySize * n) known_sizes = PcInputBundleCandidate"
proof -
  have "24 + 16 * n \<noteq> 28" "24 + 16 * n \<noteq> 64" "24 + 16 * n \<noteq> 80" "24 + 16 * n \<noteq> 384" "28 < 24 + 16 * n"
    using assms by presburger+
  then show ?thesis
    by (simp add: Classify_def IsGamePacketSize_def size_consts kInputBundleHeaderSize_def
        kInputBundleEntrySize_def)
qed

lemma DecodeInputBundle_class:
  assumes "DecodeInputBundle (Some bs) = Some r"
  shows "Classify (length bs) known_sizes = PcInputBundleCandidate"
proof -
  let ?n = "unat (BH_Count (WireInputBundleHeader_read bs))"
  have "length bs = kInputBundleHeaderSize + kInputBundleEntrySize * ?n" "1 \<le> ?n"
    using assms by (auto simp: DecodeInputBundle_def Let_def Suc_le_eq unat_gt_0 split: if_splits)
  then show ?thesis
    using Classify_bundle_size by metis
qed

text \<open>C30: Dispatch by size never hides a packet from its decoder. With the sizes the session
  passes, every packet the single input decoder accepts is classified as an input, every packet
  the session decoder accepts as a session message and every packet the bundle decoder accepts
  as a bundle candidate; so no packet is accepted by two of the decoders.\<close>

theorem classifier_agrees_with_decoders:
  "(DecodeInput (Some bs) \<noteq> None \<longrightarrow> Classify (length bs) known_sizes = PcInput)
   \<and> (Decode (Some bs) \<noteq> None \<longrightarrow> Classify (length bs) known_sizes = PcSession)
   \<and> (DecodeInputBundle (Some bs) \<noteq> None \<longrightarrow> Classify (length bs) known_sizes = PcInputBundleCandidate)"
proof (intro conjI impI)
  assume "DecodeInput (Some bs) \<noteq> None"
  then have "length bs = kInputPacketSize"
    using input_packet.dec_length [of bs] by auto
  then show "Classify (length bs) known_sizes = PcInput"
    by (simp add: Classify_def size_consts)
next
  assume "Decode (Some bs) \<noteq> None"
  then have "length bs = kSessionPacketSize"
    using session_wire.dec_length [of bs] by auto
  then show "Classify (length bs) known_sizes = PcSession"
    by (simp add: Classify_def size_consts)
next
  assume "DecodeInputBundle (Some bs) \<noteq> None"
  then show "Classify (length bs) known_sizes = PcInputBundleCandidate"
    using DecodeInputBundle_class by blast
qed

theorem classifier_agrees_with_decoders_witness:
  "Classify (length (EncodeInput \<lparr>FI_Generation = 1, FI_Frame = 2, FI_Input = InputState_default\<rparr>)) known_sizes = PcInput
   \<and> Classify (length (Encode Message_default)) known_sizes = PcSession"
  using classifier_agrees_with_decoders [of "EncodeInput \<lparr>FI_Generation = 1, FI_Frame = 2, FI_Input = InputState_default\<rparr>"]
    classifier_agrees_with_decoders [of "Encode Message_default"]
  by (simp add: DecodeInput_EncodeInput Decode_Encode del: length_EncodeInput)

end
