(* ===== verification/Transport.thy ===== *)
theory Transport
  imports Nsmb_Prelude
begin

text \<open>
  The transport of \<^verbatim>\<open>NsmbNetplayTransport.cpp\<close> over the ENet library. ENet is not part of the
  program: what its functions return is an argument of the definitions (handles are numbers, a
  null pointer is \<^const>\<open>None\<close>), and the calls the program makes are returned as a list of
  \<open>enet_call\<close>, in order. The process wide reference count is the global part of the state. The
  trace output of \<open>Service\<close> is modelled as far as it changes state; the text it prints is not.
\<close>

section \<open>State\<close>

definition SendUnavailable :: int where "SendUnavailable = -2"

record InitializeOptions =
  IO_Client :: bool
  IO_Port :: u16
  IO_PeerHost :: string

definition InitializeOptions_default :: InitializeOptions where
  "InitializeOptions_default = \<lparr>IO_Client = False, IO_Port = 8065, IO_PeerHost = ''127.0.0.1''\<rparr>"

datatype InitializeResult = Success | ENetInitializationFailed | HostCreationFailed

type_synonym handle = nat

record TransportState =
  TP_Host :: "handle option"
  TP_ConnectingPeer :: "handle option"
  TP_Peer :: "handle option"
  TP_ENetAcquired :: bool
  TP_Options :: InitializeOptions
  TP_TraceENet :: bool
  TP_LastTraceTime :: u32

definition TransportState_init :: TransportState where
  "TransportState_init = \<lparr>TP_Host = None, TP_ConnectingPeer = None, TP_Peer = None,
     TP_ENetAcquired = False, TP_Options = InitializeOptions_default, TP_TraceENet = False,
     TP_LastTraceTime = 0\<rparr>"

datatype enet_call =
    EInitialize
  | EDeinitialize
  | EHostCreate "u16 option"
  | EHostDestroy handle
  | EAddressSetHost string
  | EHostConnect handle u16
  | EPeerTimeout handle int int int
  | EHostService handle
  | EPacketCreate handle
  | EPeerSend handle handle
  | EPacketDestroy handle
  | EHostFlush handle

section \<open>The reference count\<close>

text \<open>\<open>initialized\<close> is whether \<^verbatim>\<open>enet_initialize\<close> returns 0.\<close>

definition AcquireENet :: "bool \<Rightarrow> int \<Rightarrow> bool \<times> int \<times> enet_call list" where
  "AcquireENet initialized referenceCount =
     (let calls = (if referenceCount = 0 then [EInitialize] else []) in
      if referenceCount = 0 \<and> \<not> initialized then (False, referenceCount, calls)
      else (True, referenceCount + 1, calls))"

definition ReleaseENet :: "int \<Rightarrow> int \<times> enet_call list" where
  "ReleaseENet referenceCount =
     (if referenceCount \<le> 0 then (referenceCount, [])
      else (referenceCount - 1, if referenceCount - 1 = 0 then [EDeinitialize] else []))"

section \<open>Operations\<close>

definition Shutdown :: "TransportState \<Rightarrow> int \<Rightarrow> TransportState \<times> int \<times> enet_call list" where
  "Shutdown t rc =
     (let destroy = (case TP_Host t of None \<Rightarrow> [] | Some h \<Rightarrow> [EHostDestroy h]);
          t1 = t\<lparr>TP_Host := None, TP_ConnectingPeer := None, TP_Peer := None\<rparr>
      in if TP_ENetAcquired t1
         then let (rc', calls) = ReleaseENet rc
              in (t1\<lparr>TP_ENetAcquired := False\<rparr>, rc', destroy @ calls)
         else (t1, rc, destroy))"

text \<open>The results of ENet: initialisation, the created host, the connecting peer.\<close>

definition Initialize ::
  "InitializeOptions \<Rightarrow> bool \<Rightarrow> bool \<Rightarrow> handle option \<Rightarrow> handle option \<Rightarrow> TransportState \<Rightarrow> int
     \<Rightarrow> InitializeResult \<times> TransportState \<times> int \<times> enet_call list" where
  "Initialize options trace initialized created connecting t rc =
     (let (t0, rc0, calls0) = Shutdown t rc;
          t1 = t0\<lparr>TP_Options := options, TP_TraceENet := trace, TP_LastTraceTime := 0\<rparr>;
          (acquired, rc1, calls1) = AcquireENet initialized rc0
      in if \<not> acquired then (ENetInitializationFailed, t1, rc1, calls0 @ calls1)
         else
           let t2 = t1\<lparr>TP_ENetAcquired := True, TP_Host := created\<rparr>;
               (t3, calls2) =
                 (if \<not> IO_Client options then (t2, [EHostCreate (Some (IO_Port options))])
                  else case created of
                    None \<Rightarrow> (t2, [EHostCreate None])
                  | Some h \<Rightarrow> (t2\<lparr>TP_ConnectingPeer := connecting\<rparr>,
                      [EHostCreate None, EAddressSetHost (IO_PeerHost options), EHostConnect h (IO_Port options)]))
           in if TP_Host t3 = None
              then let (t4, rc2, calls3) = Shutdown t3 rc1
                   in (HostCreationFailed, t4, rc2, calls0 @ calls1 @ calls2 @ calls3)
              else (Success, t3, rc1, calls0 @ calls1 @ calls2))"

definition HasHost :: "TransportState \<Rightarrow> bool" where
  "HasHost t \<longleftrightarrow> TP_Host t \<noteq> None"

definition IsConnected :: "TransportState \<Rightarrow> bool" where
  "IsConnected t \<longleftrightarrow> TP_Peer t \<noteq> None"

definition IsConnecting :: "TransportState \<Rightarrow> bool" where
  "IsConnecting t \<longleftrightarrow> TP_ConnectingPeer t \<noteq> None"

definition IsPeer :: "handle option \<Rightarrow> TransportState \<Rightarrow> bool" where
  "IsPeer peer t \<longleftrightarrow> TP_Peer t = peer"

text \<open>The state ENet records for a peer and the port it records for a host are parameters.\<close>

definition PeerState :: "(handle \<Rightarrow> int) \<Rightarrow> TransportState \<Rightarrow> int" where
  "PeerState state t = (case TP_Peer t of None \<Rightarrow> -1 | Some p \<Rightarrow> state p)"

definition ConnectingPeerState :: "(handle \<Rightarrow> int) \<Rightarrow> TransportState \<Rightarrow> int" where
  "ConnectingPeerState state t = (case TP_ConnectingPeer t of None \<Rightarrow> -1 | Some p \<Rightarrow> state p)"

definition BoundPort :: "(handle \<Rightarrow> u16) \<Rightarrow> TransportState \<Rightarrow> u16" where
  "BoundPort port t = (case TP_Host t of None \<Rightarrow> 0 | Some h \<Rightarrow> port h)"

definition HandleConnected :: "handle \<Rightarrow> bool \<Rightarrow> TransportState \<Rightarrow> TransportState \<times> enet_call list" where
  "HandleConnected peer recoverable t =
     (let t1 = t\<lparr>TP_Peer := Some peer\<rparr>
      in (if TP_ConnectingPeer t1 = Some peer then t1\<lparr>TP_ConnectingPeer := None\<rparr> else t1,
          if recoverable then [EPeerTimeout peer 32 3000 5000] else []))"

definition HandleDisconnected :: "handle \<Rightarrow> TransportState \<Rightarrow> TransportState" where
  "HandleDisconnected peer t =
     (let t1 = (if TP_Peer t = Some peer then t\<lparr>TP_Peer := None\<rparr> else t)
      in if TP_ConnectingPeer t1 = Some peer then t1\<lparr>TP_ConnectingPeer := None\<rparr> else t1)"

definition RetryConnection :: "bool \<Rightarrow> handle option \<Rightarrow> TransportState \<Rightarrow> TransportState \<times> enet_call list" where
  "RetryConnection addressSet connecting t =
     (case TP_Host t of
        None \<Rightarrow> (t, [])
      | Some h \<Rightarrow>
          if \<not> IO_Client (TP_Options t) \<or> TP_Peer t \<noteq> None \<or> TP_ConnectingPeer t \<noteq> None then (t, [])
          else if \<not> addressSet then (t, [EAddressSetHost (IO_PeerHost (TP_Options t))])
          else (t\<lparr>TP_ConnectingPeer := connecting\<rparr>,
                [EAddressSetHost (IO_PeerHost (TP_Options t)), EHostConnect h (IO_Port (TP_Options t))]
                @ (case connecting of None \<Rightarrow> [] | Some p \<Rightarrow> [EPeerTimeout p 32 1000 3000])))"

definition Flush :: "TransportState \<Rightarrow> enet_call list" where
  "Flush t = (case TP_Host t of None \<Rightarrow> [] | Some h \<Rightarrow> [EHostFlush h])"

text \<open>\<open>created\<close> is the packet \<^verbatim>\<open>enet_packet_create\<close> returns, \<open>sent\<close> the result of \<^verbatim>\<open>enet_peer_send\<close>.\<close>

definition Send :: "handle option \<Rightarrow> int \<Rightarrow> bool \<Rightarrow> TransportState \<Rightarrow> int \<times> enet_call list" where
  "Send created sent flush t =
     (case TP_Peer t of
        None \<Rightarrow> (SendUnavailable, [])
      | Some peer \<Rightarrow>
          (case created of
             None \<Rightarrow> (SendUnavailable, [])
           | Some packet \<Rightarrow>
               (sent, [EPacketCreate packet, EPeerSend peer packet]
                  @ (if sent \<noteq> 0 then [EPacketDestroy packet] else [])
                  @ (if flush then Flush t else []))))"

text \<open>
  What \<open>Service\<close> reads of the peer it watches: the connected peer, else the connecting one. The
  arguments are ENet's clock, each peer's state and last receive time, the service result and
  whether the event is a disconnect.
\<close>

definition ENET_PEER_STATE_CONNECTED :: int where "ENET_PEER_STATE_CONNECTED = 5"

definition Service ::
  "u32 \<Rightarrow> (handle \<Rightarrow> int) \<Rightarrow> (handle \<Rightarrow> u32) \<Rightarrow> int \<Rightarrow> bool \<Rightarrow> TransportState
     \<Rightarrow> int \<times> TransportState \<times> enet_call list" where
  "Service now state lastReceiveTime result disconnect t =
     (case TP_Host t of
        None \<Rightarrow> (0, t, [])
      | Some h \<Rightarrow>
          let peer = (if TP_Peer t \<noteq> None then TP_Peer t else TP_ConnectingPeer t);
              overdue = (case peer of None \<Rightarrow> False
                | Some p \<Rightarrow> TP_TraceENet t \<and> 1000 \<le> now - lastReceiveTime p);
              stall = (case peer of None \<Rightarrow> False
                | Some p \<Rightarrow> overdue \<and> state p = ENET_PEER_STATE_CONNECTED
                    \<and> 1000 \<le> now - lastReceiveTime p \<and> 250 \<le> now - TP_LastTraceTime t)
          in (result,
              if TP_TraceENet t \<and> overdue \<and> 0 < result \<and> disconnect then t
              else if TP_TraceENet t \<and> stall then t\<lparr>TP_LastTraceTime := now\<rparr> else t,
              [EHostService h]))"

section \<open>Several transports in one process\<close>

text \<open>
  A process holds a list of transports that share the reference count. The world also keeps
  whether ENet is initialised (set by a successful \<^verbatim>\<open>enet_initialize\<close>, cleared by
  \<^verbatim>\<open>enet_deinitialize\<close>).
\<close>

record enet_world =
  EW_Transports :: "TransportState list"
  EW_ReferenceCount :: int
  EW_Initialized :: bool

definition enet_world_init :: "nat \<Rightarrow> enet_world" where
  "enet_world_init n = \<lparr>EW_Transports = replicate n TransportState_init, EW_ReferenceCount = 0,
     EW_Initialized = False\<rparr>"

datatype transport_call =
    CallInitialize nat InitializeOptions bool bool "handle option" "handle option"
  | CallShutdown nat
  | CallConnected nat handle bool
  | CallDisconnected nat handle
  | CallRetry nat bool "handle option"
  | CallService nat u32 int u32 int bool

text \<open>The effect of the calls on whether ENet is initialised; \<open>ok\<close> is the result of an
  \<^verbatim>\<open>enet_initialize\<close> among them.\<close>

fun enet_effect :: "bool \<Rightarrow> enet_call list \<Rightarrow> bool \<Rightarrow> bool" where
  "enet_effect ok [] up = up"
| "enet_effect ok (EInitialize # cs) up = enet_effect ok cs ok"
| "enet_effect ok (EDeinitialize # cs) up = enet_effect ok cs False"
| "enet_effect ok (c # cs) up = enet_effect ok cs up"

fun transport_step :: "enet_world \<Rightarrow> transport_call \<Rightarrow> enet_world" where
  "transport_step w (CallInitialize i options trace initialized created connecting) =
     (if i < length (EW_Transports w) then
        let (r, t, rc, calls) = Initialize options trace initialized created connecting
              (EW_Transports w ! i) (EW_ReferenceCount w)
        in w\<lparr>EW_Transports := (EW_Transports w)[i := t], EW_ReferenceCount := rc,
             EW_Initialized := enet_effect initialized calls (EW_Initialized w)\<rparr>
      else w)"
| "transport_step w (CallShutdown i) =
     (if i < length (EW_Transports w) then
        let (t, rc, calls) = Shutdown (EW_Transports w ! i) (EW_ReferenceCount w)
        in w\<lparr>EW_Transports := (EW_Transports w)[i := t], EW_ReferenceCount := rc,
             EW_Initialized := enet_effect True calls (EW_Initialized w)\<rparr>
      else w)"
| "transport_step w (CallConnected i p r) =
     w\<lparr>EW_Transports := (EW_Transports w)[i := fst (HandleConnected p r (EW_Transports w ! i))]\<rparr>"
| "transport_step w (CallDisconnected i p) =
     w\<lparr>EW_Transports := (EW_Transports w)[i := HandleDisconnected p (EW_Transports w ! i)]\<rparr>"
| "transport_step w (CallRetry i a c) =
     w\<lparr>EW_Transports := (EW_Transports w)[i := fst (RetryConnection a c (EW_Transports w ! i))]\<rparr>"
| "transport_step w (CallService i now st last_time result d) =
     w\<lparr>EW_Transports := (EW_Transports w)[i :=
         fst (snd (Service now (\<lambda>_. st) (\<lambda>_. last_time) result d (EW_Transports w ! i)))]\<rparr>"

definition acquired_count :: "TransportState list \<Rightarrow> nat" where
  "acquired_count ts = length (filter TP_ENetAcquired ts)"

definition enet_inv :: "enet_world \<Rightarrow> bool" where
  "enet_inv w \<longleftrightarrow> EW_ReferenceCount w = int (acquired_count (EW_Transports w))
     \<and> EW_Initialized w = (0 < EW_ReferenceCount w)
     \<and> list_all (\<lambda>t. TP_Host t \<noteq> None \<longrightarrow> TP_ENetAcquired t) (EW_Transports w)"

lemma acquired_count_update:
  "i < length ts \<Longrightarrow> int (acquired_count (ts[i := t])) =
     int (acquired_count ts) - of_bool (TP_ENetAcquired (ts ! i)) + of_bool (TP_ENetAcquired t)"
proof (induction ts arbitrary: i)
  case (Cons x ts)
  then show ?case
    by (cases i) (auto simp: acquired_count_def)
qed simp

lemma enet_effect_append: "enet_effect ok (xs @ ys) up = enet_effect ok ys (enet_effect ok xs up)"
  by (induction ok xs up rule: enet_effect.induct) simp_all

lemma Shutdown_spec:
  assumes "0 \<le> base" "Shutdown t (base + of_bool (TP_ENetAcquired t)) = (t', rc', calls)"
  shows "rc' = base \<and> \<not> TP_ENetAcquired t' \<and> TP_Host t' = None \<and>
    enet_effect ok calls (0 < base + of_bool (TP_ENetAcquired t)) = (0 < base)"
  using assms by (auto simp: Shutdown_def ReleaseENet_def Let_def enet_effect_append split: option.splits if_splits)

lemma AcquireENet_spec:
  assumes "0 \<le> base" "AcquireENet initialized base = (got, rc', calls)"
  shows "rc' = base + of_bool got" "enet_effect initialized calls (0 < base) = (0 < rc')"
  using assms by (auto simp: AcquireENet_def Let_def split: if_splits)

lemma Initialize_spec:
  assumes base: "0 \<le> base"
    and i: "Initialize options trace initialized created connecting t (base + of_bool (TP_ENetAcquired t))
      = (r, t', rc', calls)"
  shows "rc' = base + of_bool (TP_ENetAcquired t') \<and> (TP_Host t' \<noteq> None \<longrightarrow> TP_ENetAcquired t')
    \<and> enet_effect initialized calls (0 < base + of_bool (TP_ENetAcquired t)) = (0 < rc')
    \<and> (r = Success \<longleftrightarrow> TP_Host t' \<noteq> None)"
proof -
  obtain t0 rc0 calls0 where s: "Shutdown t (base + of_bool (TP_ENetAcquired t)) = (t0, rc0, calls0)"
    by (metis prod_cases3)
  obtain got rc1 calls1 where a: "AcquireENet initialized base = (got, rc1, calls1)"
    by (metis prod_cases3)
  note S = Shutdown_spec [OF base s, of initialized] and A = AcquireENet_spec [OF base a]
  define t3 where "t3 = (if IO_Client options \<and> created \<noteq> None
    then t0\<lparr>TP_Options := options, TP_TraceENet := trace, TP_LastTraceTime := 0, TP_ENetAcquired := True,
      TP_Host := created, TP_ConnectingPeer := connecting\<rparr>
    else t0\<lparr>TP_Options := options, TP_TraceENet := trace, TP_LastTraceTime := 0, TP_ENetAcquired := True,
      TP_Host := created\<rparr>)"
  have t3: "TP_ENetAcquired t3" "TP_Host t3 = created"
    by (simp_all add: t3_def)
  show ?thesis
  proof (cases got)
    case False
    with i s a S A show ?thesis
      by (auto simp: Initialize_def enet_effect_append)
  next
    case True
    show ?thesis
    proof (cases created)
      case None
      obtain t4 rc2 calls3 where s4: "Shutdown t3 (base + of_bool (TP_ENetAcquired t3)) = (t4, rc2, calls3)"
        by (metis prod_cases3)
      note S4 = Shutdown_spec [OF base s4, of initialized]
      from None True i s a S A s4 t3 S4 show ?thesis
        by (auto simp: Initialize_def enet_effect_append t3_def Let_def split: if_splits)
    next
      case (Some h)
      with True i s a S A show ?thesis
        by (auto simp: Initialize_def enet_effect_append Let_def split: if_splits)
    qed
  qed
qed

lemma enet_inv_update:
  assumes inv: "enet_inv w" and i: "i < length (EW_Transports w)"
    and rc: "rc' = EW_ReferenceCount w - of_bool (TP_ENetAcquired (EW_Transports w ! i)) + of_bool (TP_ENetAcquired t')"
    and host: "TP_Host t' \<noteq> None \<longrightarrow> TP_ENetAcquired t'" and up: "up' = (0 < rc')"
  shows "enet_inv (w\<lparr>EW_Transports := (EW_Transports w)[i := t'], EW_ReferenceCount := rc', EW_Initialized := up'\<rparr>)"
proof -
  have "\<forall>x \<in> set ((EW_Transports w)[i := t']). TP_Host x \<noteq> None \<longrightarrow> TP_ENetAcquired x"
    using inv host set_update_subset_insert [of "EW_Transports w" i t'] unfolding enet_inv_def list_all_iff by blast
  then show ?thesis
    using inv rc up acquired_count_update [OF i, of t'] by (simp add: enet_inv_def list_all_iff)
qed

lemma acquired_base:
  assumes "enet_inv w" "i < length (EW_Transports w)"
  shows "0 \<le> EW_ReferenceCount w - of_bool (TP_ENetAcquired (EW_Transports w ! i))"
proof (cases "TP_ENetAcquired (EW_Transports w ! i)")
  case True
  with assms(2) have "EW_Transports w ! i \<in> set (filter TP_ENetAcquired (EW_Transports w))"
    by simp
  then have "0 < acquired_count (EW_Transports w)"
    unfolding acquired_count_def by (rule length_pos_if_in_set)
  with assms(1) show ?thesis
    by (simp add: enet_inv_def)
qed (use assms(1) in \<open>simp add: enet_inv_def\<close>)

lemma transport_local_inv:
  assumes "enet_inv w" "TP_ENetAcquired t' = TP_ENetAcquired (EW_Transports w ! i)"
    "TP_Host t' = TP_Host (EW_Transports w ! i)"
  shows "enet_inv (w\<lparr>EW_Transports := (EW_Transports w)[i := t']\<rparr>)"
proof (cases "i < length (EW_Transports w)")
  case True
  then have "TP_Host t' \<noteq> None \<longrightarrow> TP_ENetAcquired t'"
    using assms by (auto simp: enet_inv_def list_all_length)
  with True assms enet_inv_update [OF assms(1) True, of "EW_ReferenceCount w" t' "EW_Initialized w"] show ?thesis
    by (simp add: enet_inv_def)
next
  case False
  then have "(EW_Transports w)[i := t'] = EW_Transports w"
    by (simp add: list_update_beyond)
  with assms(1) show ?thesis
    by (simp add: enet_inv_def)
qed

lemma transport_step_inv: "enet_inv w \<Longrightarrow> enet_inv (transport_step w c)"
proof (cases c)
  case (CallInitialize i options trace initialized created connecting)
  assume inv: "enet_inv w"
  show ?thesis
  proof (cases "i < length (EW_Transports w)")
    case True
    let ?t = "EW_Transports w ! i"
    let ?base = "EW_ReferenceCount w - of_bool (TP_ENetAcquired ?t)"
    obtain r t' rc' calls where I: "Initialize options trace initialized created connecting ?t
        (?base + of_bool (TP_ENetAcquired ?t)) = (r, t', rc', calls)"
      by (metis prod_cases4)
    note S = Initialize_spec [OF acquired_base [OF inv True] I]
    have "EW_Initialized w = (0 < EW_ReferenceCount w)"
      using inv by (simp add: enet_inv_def)
    with S have "enet_inv (w\<lparr>EW_Transports := (EW_Transports w)[i := t'], EW_ReferenceCount := rc',
        EW_Initialized := enet_effect initialized calls (EW_Initialized w)\<rparr>)"
      by (intro enet_inv_update [OF inv True]) simp_all
    with I True show ?thesis
      by (simp add: CallInitialize)
  qed (use inv in \<open>simp add: CallInitialize\<close>)
next
  case (CallShutdown i)
  assume inv: "enet_inv w"
  show ?thesis
  proof (cases "i < length (EW_Transports w)")
    case True
    let ?t = "EW_Transports w ! i"
    let ?base = "EW_ReferenceCount w - of_bool (TP_ENetAcquired ?t)"
    obtain t' rc' calls where I: "Shutdown ?t (?base + of_bool (TP_ENetAcquired ?t)) = (t', rc', calls)"
      by (metis prod_cases3)
    note S = Shutdown_spec [OF acquired_base [OF inv True] I, of True]
    have "EW_Initialized w = (0 < EW_ReferenceCount w)"
      using inv by (simp add: enet_inv_def)
    with S have "enet_inv (w\<lparr>EW_Transports := (EW_Transports w)[i := t'], EW_ReferenceCount := rc',
        EW_Initialized := enet_effect True calls (EW_Initialized w)\<rparr>)"
      by (intro enet_inv_update [OF inv True]) simp_all
    with I True show ?thesis
      by (simp add: CallShutdown)
  qed (use inv in \<open>simp add: CallShutdown\<close>)
qed (auto intro!: transport_local_inv
  simp: HandleConnected_def HandleDisconnected_def RetryConnection_def Service_def Let_def split: option.splits)

interpretation enet: state_machine transport_step enet_inv
  by unfold_locales (rule transport_step_inv)

text \<open>C36: ENet stays balanced. Whatever transports of a process do, in any order and with any
  ENet results, the reference count is the number of transports that hold ENet, ENet is
  initialised exactly while that number is positive, and every transport with a host holds ENet.\<close>

theorem enet_balanced:
  "enet_inv (foldl transport_step (enet_world_init n) calls)"
  by (rule enet.run_inv)
    (simp add: enet_inv_def enet_world_init_def acquired_count_def TransportState_init_def list_all_length)

text \<open>A connection attempt is made only when it should be, and a packet has one owner.
  \<open>RetryConnection\<close> changes the transport only for a client with a host and neither a peer nor
  an attempt under way; a send without a peer makes no ENet call at all; and a created packet is
  handed to ENet exactly once and destroyed exactly when ENet refused it.\<close>

theorem transport_ownership:
  "(fst (RetryConnection a c t) \<noteq> t \<longrightarrow>
      HasHost t \<and> IO_Client (TP_Options t) \<and> \<not> IsConnected t \<and> \<not> IsConnecting t)
   \<and> (\<not> IsConnected t \<longrightarrow> Send (Some packet) sent flush t = (SendUnavailable, []))
   \<and> (IsConnected t \<longrightarrow>
        fst (Send (Some packet) sent flush t) = sent
        \<and> count_list (snd (Send (Some packet) sent flush t)) (EPacketCreate packet) = 1
        \<and> count_list (snd (Send (Some packet) sent flush t)) (EPeerSend (the (TP_Peer t)) packet) = 1
        \<and> count_list (snd (Send (Some packet) sent flush t)) (EPacketDestroy packet) = of_bool (sent \<noteq> 0))"
  by (auto simp: RetryConnection_def HasHost_def IsConnected_def IsConnecting_def Send_def Flush_def
      split: option.splits if_splits)

theorem transport_ownership_witness:
  "Send (Some 3) (-1) False (TransportState_init\<lparr>TP_Peer := Some 9\<rparr>)
     = (-1, [EPacketCreate 3, EPeerSend 9 3, EPacketDestroy 3])
   \<and> count_list (snd (Send (Some 3) (-1) False (TransportState_init\<lparr>TP_Peer := Some 9\<rparr>))) (EPacketDestroy 3) = 1"
  using transport_ownership [of True None "TransportState_init\<lparr>TP_Peer := Some 9\<rparr>" 3 "-1" False]
  by (simp add: IsConnected_def Send_def)

end
