(* ===== verification/Phase_Recovery.thy ===== *)
theory Phase_Recovery
  imports Complex_Main Nsmb_Prelude
begin

text \<open>
  The pacing control of \<^verbatim>\<open>NsmbPhaseRecovery.cpp\<close>. Time points are nanoseconds; \<^verbatim>\<open>long long\<close> values
  are integers (frame distances times 16666 and sums of 30 samples stay far below \<open>2^63\<close>), C++
  division truncates (\<^term>\<open>a sdiv b\<close>). A \<^verbatim>\<open>double\<close> is the rational number it denotes and every
  operation rounds to 53 significant bits, half to even (\<open>round_double\<close>; no overflow and no
  subnormals occur with the magnitudes used).
\<close>

section \<open>Doubles\<close>

definition pow2 :: "int \<Rightarrow> rat" where
  "pow2 e = (if 0 \<le> e then 2 ^ nat e else 1 / 2 ^ nat (- e))"

function bit_length :: "int \<Rightarrow> int" where
  "bit_length n = (if n \<le> 0 then 0 else bit_length (n div 2) + 1)"
  by pat_completeness auto
termination
  by (relation "measure nat") auto

declare bit_length.simps [simp del]

text \<open>The exponent of the last of the 53 bits of a positive number.\<close>

definition ulp_exponent :: "rat \<Rightarrow> int" where
  "ulp_exponent x =
     (let (p, q) = quotient_of x; e = bit_length p - bit_length q
      in (if pow2 e \<le> x then e else e - 1) - 52)"

definition round_half_even :: "rat \<Rightarrow> int" where
  "round_half_even x =
     (let n = \<lfloor>x\<rfloor>; d = x - of_int n
      in if d < 1 / 2 then n else if 1 / 2 < d then n + 1 else if even n then n else n + 1)"

definition round_double :: "rat \<Rightarrow> rat" where
  "round_double x =
     (if x = 0 then 0
      else let a = \<bar>x\<bar>; u = pow2 (ulp_exponent a); r = of_int (round_half_even (a / u)) * u
           in if x < 0 then - r else r)"

text \<open>\<^verbatim>\<open>std::llround\<close>: half away from zero.\<close>

definition llround :: "rat \<Rightarrow> int" where
  "llround x = (if 0 \<le> x then \<lfloor>x + 1 / 2\<rfloor> else - \<lfloor>- x + 1 / 2\<rfloor>)"

section \<open>State\<close>

definition kFrameDurationUs :: int where "kFrameDurationUs = 1000000 sdiv 60"
definition kSampleWindow :: nat where "kSampleWindow = 30"
definition kMinimumSamples :: nat where "kMinimumSamples = 10"
definition kEvaluationIntervalFrames :: u32 where "kEvaluationIntervalFrames = 30"
definition kRecoveryStartFrame :: u32 where "kRecoveryStartFrame = 120"
definition kAdvanceSpacingFrames :: u32 where "kAdvanceSpacingFrames = 5"
definition kMaxAdvanceFrames :: int where "kMaxAdvanceFrames = 3"
definition kAdvanceThresholdUs :: int where "kAdvanceThresholdUs = 26683"
definition kCorrectionPeriodUs :: int where "kCorrectionPeriodUs = 30000000"
definition kMaximumRttUs :: int where "kMaximumRttUs = 10000000"
definition kObservationFreshness :: int where "kObservationFreshness = 500 * 1000000"
definition kSendTimestampHistoryFrames :: u32 where "kSendTimestampHistoryFrames = 1024"

definition slowest_ratio :: rat where "slowest_ratio = round_double (995 / 1000)"
definition fastest_ratio :: rat where "fastest_ratio = round_double (101 / 100)"

record PacingDecision =
  PD_SpeedRatio :: rat
  PD_SkipFrameLimit :: bool
  PD_Evaluated :: bool
  PD_OffsetUs :: int
  PD_RttUs :: int
  PD_PendingAdvanceFrames :: int
  PD_TotalAdvanceFrames :: u64
  PD_OffsetSamples :: nat
  PD_RttSamples :: nat

record PhaseRuntime =
  PH_Enabled :: bool
  PH_Generation :: "u32 option"
  PH_LastLocalFrame :: "u32 option"
  PH_LastObservedRemoteFrame :: "u32 option"
  PH_LastRemoteAckFrame :: "u32 option"
  PH_LastEvaluationFrame :: "u32 option"
  PH_LastAdvanceFrame :: "u32 option"
  PH_LastLocalSendAt :: time_point
  PH_LastRemoteObservationAt :: time_point
  PH_LocalSendTimes :: "time_point frame_map"
  PH_OffsetSamples :: "int list"
  PH_RttSamples :: "int list"
  PH_SpeedRatio :: rat
  PH_OffsetUs :: int
  PH_RttUs :: int
  PH_PendingAdvanceFrames :: int
  PH_TotalAdvanceFrames :: u64

definition PhaseRuntime_init :: PhaseRuntime where
  "PhaseRuntime_init = \<lparr>PH_Enabled = False, PH_Generation = None, PH_LastLocalFrame = None,
     PH_LastObservedRemoteFrame = None, PH_LastRemoteAckFrame = None, PH_LastEvaluationFrame = None,
     PH_LastAdvanceFrame = None, PH_LastLocalSendAt = 0, PH_LastRemoteObservationAt = 0,
     PH_LocalSendTimes = fmempty, PH_OffsetSamples = [], PH_RttSamples = [], PH_SpeedRatio = 1,
     PH_OffsetUs = 0, PH_RttUs = 0, PH_PendingAdvanceFrames = 0, PH_TotalAdvanceFrames = 0\<rparr>"

section \<open>Operations\<close>

definition PhaseReset :: "PhaseRuntime \<Rightarrow> PhaseRuntime" where
  "PhaseReset r = PhaseRuntime_init\<lparr>PH_Enabled := PH_Enabled r\<rparr>"

definition Configure :: "bool \<Rightarrow> PhaseRuntime \<Rightarrow> PhaseRuntime" where
  "Configure enabled r =
     (if PH_Enabled r = enabled then r else (PhaseReset r)\<lparr>PH_Enabled := enabled\<rparr>)"

definition EnsureGeneration :: "u32 \<Rightarrow> PhaseRuntime \<Rightarrow> PhaseRuntime" where
  "EnsureGeneration generation r =
     (if PH_Generation r = Some generation then r
      else (PhaseReset r)\<lparr>PH_Generation := Some generation\<rparr>)"

text \<open>The loop that drops the oldest send times: from the first key on while it is too old.\<close>

definition too_old :: "u32 \<Rightarrow> u32 \<Rightarrow> bool" where
  "too_old frame key \<longleftrightarrow> key < frame \<and> kSendTimestampHistoryFrames < frame - key"

definition drop_old_times :: "u32 \<Rightarrow> time_point frame_map \<Rightarrow> time_point frame_map" where
  "drop_old_times frame sendTimes =
     fold fmdrop (takeWhile (too_old frame) (fm_keys sendTimes)) sendTimes"

definition RecordLocalInput :: "u32 \<Rightarrow> u32 \<Rightarrow> time_point \<Rightarrow> PhaseRuntime \<Rightarrow> PhaseRuntime" where
  "RecordLocalInput generation frame now r =
     (if \<not> PH_Enabled r then r
      else
        let r1 = EnsureGeneration generation r
        in r1\<lparr>PH_LastLocalFrame := Some frame, PH_LastLocalSendAt := now,
              PH_LocalSendTimes := drop_old_times frame (fm_emplace frame now (PH_LocalSendTimes r1))\<rparr>)"

definition RobustAverage :: "int list \<Rightarrow> int" where
  "RobustAverage samples =
     (if samples = [] then 0
      else
        let ordered = sort samples;
            third = (if 3 \<le> length samples then length samples div 3 else 0);
            lower = third; upper = length samples - third;
            total = foldl (+) 0 (map (\<lambda>index. ordered ! index) [lower..<upper])
        in total sdiv int (upper - lower))"

definition PushSample :: "int list \<Rightarrow> int \<Rightarrow> nat \<Rightarrow> int list" where
  "PushSample samples value capacity =
     (if length samples = capacity then tl samples else samples) @ [value]"

definition PhaseRecordRemoteAck :: "u32 \<Rightarrow> time_point \<Rightarrow> PhaseRuntime \<Rightarrow> PhaseRuntime" where
  "PhaseRecordRemoteAck ackFrame now r =
     (if \<not> PH_Enabled r \<or> (case PH_LastRemoteAckFrame r of None \<Rightarrow> False | Some a \<Rightarrow> ackFrame \<le> a) then r
      else
        let r1 = r\<lparr>PH_LastRemoteAckFrame := Some ackFrame\<rparr>
        in case fmlookup (PH_LocalSendTimes r1) ackFrame of
             None \<Rightarrow> r1
           | Some sent \<Rightarrow>
               if now \<le> sent then r1
               else
                 let rttUs = (now - sent) sdiv 1000
                 in if rttUs \<le> 0 \<or> kMaximumRttUs < rttUs then r1
                    else
                      let samples = PushSample (PH_RttSamples r1) rttUs kSampleWindow
                      in r1\<lparr>PH_RttSamples := samples, PH_RttUs := RobustAverage samples\<rparr>)"

definition ObserveRemoteInput :: "u32 \<Rightarrow> u32 \<Rightarrow> time_point \<Rightarrow> PhaseRuntime \<Rightarrow> PhaseRuntime" where
  "ObserveRemoteInput generation frame now r =
     (if \<not> PH_Enabled r then r
      else
        let r1 = EnsureGeneration generation r
        in case PH_LastLocalFrame r1 of
             None \<Rightarrow> r1
           | Some lastLocal \<Rightarrow>
               if length (PH_RttSamples r1) < 3
                  \<or> (case PH_LastObservedRemoteFrame r1 of None \<Rightarrow> False | Some f \<Rightarrow> frame \<le> f)
               then r1
               else
                 let elapsedUs = (now - PH_LastLocalSendAt r1) sdiv 1000;
                     frameDelta = uint lastLocal - uint frame;
                     offsetUs = elapsedUs - (PH_RttUs r1 sdiv 2) + frameDelta * kFrameDurationUs
                 in r1\<lparr>PH_OffsetSamples := PushSample (PH_OffsetSamples r1) offsetUs kSampleWindow,
                       PH_LastObservedRemoteFrame := Some frame,
                       PH_LastRemoteObservationAt := now\<rparr>)"

definition speed_for_offset :: "int \<Rightarrow> rat" where
  "speed_for_offset offsetUs =
     (let correction = round_double (round_double (of_int offsetUs) / of_int kCorrectionPeriodUs)
      in clamp (round_double (1 - correction)) slowest_ratio fastest_ratio)"

text \<open>The number of frames to catch up; the cast from \<^verbatim>\<open>long long\<close> to \<^verbatim>\<open>int\<close> keeps 32 bits.\<close>

definition needed_frames :: "int \<Rightarrow> int" where
  "needed_frames offsetUs =
     max 1 (sint (word_of_int (llround (round_double
       (round_double (of_int (- offsetUs)) / of_int kFrameDurationUs))) :: u32))"

definition Evaluate :: "u32 \<Rightarrow> PhaseRuntime \<Rightarrow> PhaseRuntime" where
  "Evaluate localFrame r =
     (let offsetUs = RobustAverage (PH_OffsetSamples r);
          r1 = r\<lparr>PH_OffsetUs := offsetUs, PH_SpeedRatio := speed_for_offset offsetUs\<rparr>
      in if localFrame < kRecoveryStartFrame \<or> - kAdvanceThresholdUs \<le> offsetUs
         then r1\<lparr>PH_PendingAdvanceFrames := 0\<rparr>
         else r1\<lparr>PH_PendingAdvanceFrames :=
                max (PH_PendingAdvanceFrames r1) (min kMaxAdvanceFrames (needed_frames offsetUs))\<rparr>)"

definition PhaseSnapshot :: "PhaseRuntime \<Rightarrow> PacingDecision" where
  "PhaseSnapshot r = \<lparr>PD_SpeedRatio = PH_SpeedRatio r, PD_SkipFrameLimit = False, PD_Evaluated = False,
     PD_OffsetUs = PH_OffsetUs r, PD_RttUs = PH_RttUs r,
     PD_PendingAdvanceFrames = PH_PendingAdvanceFrames r,
     PD_TotalAdvanceFrames = PH_TotalAdvanceFrames r,
     PD_OffsetSamples = length (PH_OffsetSamples r), PD_RttSamples = length (PH_RttSamples r)\<rparr>"

definition frames_passed :: "u32 option \<Rightarrow> u32 \<Rightarrow> u32 \<Rightarrow> bool" where
  "frames_passed since frame distance =
     (case since of None \<Rightarrow> True | Some f \<Rightarrow> distance \<le> frame - f)"

definition Consume :: "u32 \<Rightarrow> time_point \<Rightarrow> PhaseRuntime \<Rightarrow> PacingDecision \<times> PhaseRuntime" where
  "Consume localFrame now r =
     (if \<not> PH_Enabled r then (PhaseSnapshot r, r)
      else if PH_LastRemoteObservationAt r = 0
        \<or> kObservationFreshness < now - PH_LastRemoteObservationAt r
      then let r1 = r\<lparr>PH_SpeedRatio := 1, PH_PendingAdvanceFrames := 0\<rparr> in (PhaseSnapshot r1, r1)
      else
        let evaluated = kMinimumSamples \<le> length (PH_OffsetSamples r)
              \<and> frames_passed (PH_LastEvaluationFrame r) localFrame kEvaluationIntervalFrames;
            r1 = (if evaluated then (Evaluate localFrame r)\<lparr>PH_LastEvaluationFrame := Some localFrame\<rparr> else r);
            skipFrameLimit = (0 < PH_PendingAdvanceFrames r1
              \<and> frames_passed (PH_LastAdvanceFrame r1) localFrame kAdvanceSpacingFrames);
            r2 = (if skipFrameLimit
                  then r1\<lparr>PH_PendingAdvanceFrames := PH_PendingAdvanceFrames r1 - 1,
                          PH_LastAdvanceFrame := Some localFrame,
                          PH_TotalAdvanceFrames := PH_TotalAdvanceFrames r1 + 1\<rparr>
                  else r1)
        in ((PhaseSnapshot r2)\<lparr>PD_Evaluated := evaluated, PD_SkipFrameLimit := skipFrameLimit\<rparr>, r2))"

section \<open>The robust average\<close>

lemma sdiv_between:
  assumes n: "0 < (n :: int)" and lo: "lo * n \<le> s" and hi: "s \<le> hi * n"
  shows "lo \<le> s sdiv n \<and> s sdiv n \<le> hi"
proof (cases "0 \<le> s")
  case True
  then have "s sdiv n = s div n"
    using n by (cases "s = 0") (simp_all add: signed_divide_int_def)
  moreover have "lo \<le> s div n" "s div n \<le> hi"
    using n lo hi zdiv_mono1 [of "lo * n" s n] zdiv_mono1 [of s "hi * n" n] by simp_all
  ultimately show ?thesis by simp
next
  case False
  then have "s sdiv n = - ((- s) div n)"
    using n by (simp add: signed_divide_int_def)
  moreover have "- hi \<le> (- s) div n" "(- s) div n \<le> - lo"
    using n lo hi zdiv_mono1 [of "(- hi) * n" "- s" n] zdiv_mono1 [of "- s" "(- lo) * n" n]
      nonzero_mult_div_cancel_right [of n "- hi"] nonzero_mult_div_cancel_right [of n "- lo"] by auto
  ultimately show ?thesis by simp
qed

lemma sum_list_between:
  "(\<forall>x \<in> set xs. lo \<le> x \<and> x \<le> hi) \<Longrightarrow> lo * int (length xs) \<le> sum_list xs \<and> sum_list xs \<le> hi * int (length xs)"
  by (induction xs) (auto simp: algebra_simps)


lemma foldl_plus_sum_list: "foldl (+) a xs = a + sum_list xs" for a :: int
  by (induction xs arbitrary: a) simp_all

text \<open>The samples a robust average uses: the sorted samples without the lowest and highest third.\<close>

definition trimmed_third :: "int list \<Rightarrow> nat" where
  "trimmed_third samples = (if 3 \<le> length samples then length samples div 3 else 0)"

lemma trimmed_third_less: "samples \<noteq> [] \<Longrightarrow> 2 * trimmed_third samples < length samples"
  by (cases "length samples") (auto simp: trimmed_third_def)

lemma RobustAverage_bounds:
  assumes "samples \<noteq> []"
  shows "sort samples ! trimmed_third samples \<le> RobustAverage samples
    \<and> RobustAverage samples \<le> sort samples ! (length samples - 1 - trimmed_third samples)"
proof -
  let ?t = "trimmed_third samples" and ?n = "length samples"
  let ?xs = "map (\<lambda>i. sort samples ! i) [?t..<?n - ?t]"
  have lt: "2 * ?t < ?n"
    by (rule trimmed_third_less [OF assms])
  have "sort samples ! ?t \<le> x \<and> x \<le> sort samples ! (?n - 1 - ?t)" if "x \<in> set ?xs" for x
    using that lt by (auto intro!: sorted_nth_mono)
  then have "sort samples ! ?t * int (length ?xs) \<le> sum_list ?xs
      \<and> sum_list ?xs \<le> sort samples ! (?n - 1 - ?t) * int (length ?xs)"
    by (intro sum_list_between) blast
  moreover have "RobustAverage samples = sum_list ?xs sdiv int (length ?xs)"
    using assms by (simp add: RobustAverage_def trimmed_third_def Let_def foldl_plus_sum_list)
  ultimately show ?thesis
    using lt sdiv_between [of "int (length ?xs)" "sort samples ! ?t" "sum_list ?xs" "sort samples ! (?n - 1 - ?t)"]
    by simp
qed


text \<open>The robust average ignores outliers. For a nonempty sample list the average lies between
  the smallest and the largest sample that remain after the lowest and the highest third of the
  sorted samples are cut off, and it depends only on which samples there are, not on their order.\<close>

theorem robust_average_bounded:
  assumes "samples \<noteq> []"
  shows "sort samples ! trimmed_third samples \<le> RobustAverage samples
    \<and> RobustAverage samples \<le> sort samples ! (length samples - 1 - trimmed_third samples)
    \<and> (\<forall>other. mset other = mset samples \<longrightarrow> RobustAverage other = RobustAverage samples)"
proof (intro conjI allI impI)
  fix other assume m: "mset other = mset samples"
  have "length other = length samples"
    using m by (rule mset_eq_length)
  moreover have "sort other = sort samples"
    by (rule properties_for_sort) (simp_all add: m)
  moreover have "other \<noteq> []"
    using m assms by auto
  ultimately show "RobustAverage other = RobustAverage samples"
    using assms by (simp add: RobustAverage_def)
qed (use RobustAverage_bounds [OF assms] in auto)

theorem robust_average_bounded_witness:
  "11 \<le> RobustAverage [-900000, 10, 12, 11, 900000, 900000]
   \<and> RobustAverage [-900000, 10, 12, 11, 900000, 900000] \<le> 12
   \<and> RobustAverage [10, 11, 12, -900000, 900000, 900000] = RobustAverage [-900000, 10, 12, 11, 900000, 900000]"
proof -
  let ?xs = "[-900000, 10, 12, 11, 900000, 900000] :: int list"
  have "?xs \<noteq> []"
    by simp
  note T = robust_average_bounded [OF this]
  have e: "sort ?xs ! trimmed_third ?xs = 11" "sort ?xs ! (length ?xs - 1 - trimmed_third ?xs) = 12"
    by code_simp+
  have m: "mset [10, 11, 12, -900000, 900000, 900000] = mset ?xs"
    by (simp add: add_mset_commute)
  show ?thesis
    using T [THEN conjunct1] T [THEN conjunct2, THEN conjunct1]
      T [THEN conjunct2, THEN conjunct2, rule_format, OF m] unfolding e by blast
qed

section \<open>Bounds of the pacing\<close>

datatype phase_call =
    CallConfigure bool
  | CallPhaseReset
  | CallLocalInput u32 u32 time_point
  | CallRemoteAck u32 time_point
  | CallObserve u32 u32 time_point
  | CallConsume u32 time_point

fun phase_step :: "PhaseRuntime \<Rightarrow> phase_call \<Rightarrow> PhaseRuntime" where
  "phase_step r (CallConfigure b) = Configure b r"
| "phase_step r CallPhaseReset = PhaseReset r"
| "phase_step r (CallLocalInput g f t) = RecordLocalInput g f t r"
| "phase_step r (CallRemoteAck f t) = PhaseRecordRemoteAck f t r"
| "phase_step r (CallObserve g f t) = ObserveRemoteInput g f t r"
| "phase_step r (CallConsume f t) = snd (Consume f t r)"

definition phase_inv :: "PhaseRuntime \<Rightarrow> bool" where
  "phase_inv r \<longleftrightarrow>
     length (PH_OffsetSamples r) \<le> kSampleWindow \<and> length (PH_RttSamples r) \<le> kSampleWindow
     \<and> list_all (\<lambda>x. 0 < x \<and> x \<le> kMaximumRttUs) (PH_RttSamples r)
     \<and> 0 \<le> PH_RttUs r \<and> PH_RttUs r \<le> kMaximumRttUs
     \<and> 0 \<le> PH_PendingAdvanceFrames r \<and> PH_PendingAdvanceFrames r \<le> kMaxAdvanceFrames
     \<and> slowest_ratio \<le> PH_SpeedRatio r \<and> PH_SpeedRatio r \<le> fastest_ratio"

lemma ratio_order: "slowest_ratio \<le> 1" "1 \<le> fastest_ratio"
  by code_simp+

lemma length_PushSample: "length xs \<le> n \<Longrightarrow> length (PushSample xs v n) \<le> n + of_bool (n = 0)"
  by (auto simp: PushSample_def)

lemma length_PushSample_window: "length xs \<le> kSampleWindow \<Longrightarrow> length (PushSample xs v kSampleWindow) \<le> kSampleWindow"
  using length_PushSample [of xs kSampleWindow v] by (simp add: kSampleWindow_def)

lemma list_all_PushSample: "list_all P xs \<Longrightarrow> P v \<Longrightarrow> list_all P (PushSample xs v n)"
  by (cases xs) (auto simp: PushSample_def)

lemma RobustAverage_in:
  assumes "xs \<noteq> []" "list_all (\<lambda>x. lo \<le> x \<and> x \<le> hi) xs"
  shows "lo \<le> RobustAverage xs \<and> RobustAverage xs \<le> hi"
proof -
  have "trimmed_third xs < length xs" "length xs - 1 - trimmed_third xs < length xs"
    using trimmed_third_less [OF assms(1)] assms(1) by auto
  then have "sort xs ! trimmed_third xs \<in> set xs" "sort xs ! (length xs - 1 - trimmed_third xs) \<in> set xs"
    by (metis length_sort nth_mem set_sort)+
  with assms(2) RobustAverage_bounds [OF assms(1)] show ?thesis
    unfolding list_all_iff by force
qed

lemma speed_for_offset_bounds: "slowest_ratio \<le> speed_for_offset x \<and> speed_for_offset x \<le> fastest_ratio"
  using ratio_order by (simp add: speed_for_offset_def Let_def clamp_bounds)

lemma phase_inv_reset: "phase_inv (PhaseRuntime_init\<lparr>PH_Enabled := e, PH_Generation := g\<rparr>)"
  using ratio_order by (simp add: phase_inv_def PhaseRuntime_init_def kMaximumRttUs_def kMaxAdvanceFrames_def)

lemma phase_inv_PhaseReset: "phase_inv (PhaseReset r)"
  using phase_inv_reset [where e = "PH_Enabled r" and g = None] by (simp add: PhaseReset_def PhaseRuntime_init_def)

lemma phase_inv_Ensure: "phase_inv r \<Longrightarrow> phase_inv (EnsureGeneration g r)"
  using phase_inv_reset by (simp add: EnsureGeneration_def PhaseReset_def)

lemma phase_inv_ack: "phase_inv r \<Longrightarrow> phase_inv (PhaseRecordRemoteAck f t r)"
proof -
  assume inv: "phase_inv r"
  have "phase_inv (r\<lparr>PH_LastRemoteAckFrame := Some f, PH_RttSamples := PushSample (PH_RttSamples r) v kSampleWindow,
      PH_RttUs := RobustAverage (PushSample (PH_RttSamples r) v kSampleWindow)\<rparr>)"
    if v: "0 < v" "v \<le> kMaximumRttUs" for v
  proof -
    let ?s = "PushSample (PH_RttSamples r) v kSampleWindow"
    have "list_all (\<lambda>x. 0 < x \<and> x \<le> kMaximumRttUs) ?s"
      using inv v by (intro list_all_PushSample) (simp_all add: phase_inv_def)
    moreover from this have "0 \<le> RobustAverage ?s \<and> RobustAverage ?s \<le> kMaximumRttUs"
      by (intro RobustAverage_in) (auto simp: PushSample_def less_imp_le elim!: list.pred_mono_strong)
    moreover have "length ?s \<le> kSampleWindow"
      using inv by (intro length_PushSample_window) (simp add: phase_inv_def)
    ultimately show ?thesis
      using inv by (simp add: phase_inv_def)
  qed
  with inv show ?thesis
    by (auto simp: PhaseRecordRemoteAck_def Let_def not_le split: option.splits) (auto simp: phase_inv_def)
qed

lemma phase_inv_Evaluate: "phase_inv r \<Longrightarrow> phase_inv (Evaluate f r)"
  using speed_for_offset_bounds by (auto simp: phase_inv_def Evaluate_def Let_def needed_frames_def kMaxAdvanceFrames_def)

lemma phase_inv_Consume: "phase_inv r \<Longrightarrow> phase_inv (snd (Consume f t r))"
proof -
  assume inv: "phase_inv r"
  have ev: "phase_inv ((Evaluate f r)\<lparr>PH_LastEvaluationFrame := x\<rparr>)" for x
    using phase_inv_Evaluate [OF inv, of f] by (simp add: phase_inv_def)
  have adv: "phase_inv (q\<lparr>PH_PendingAdvanceFrames := PH_PendingAdvanceFrames q - 1, PH_LastAdvanceFrame := x,
      PH_TotalAdvanceFrames := y\<rparr>)" if "phase_inv q" "0 < PH_PendingAdvanceFrames q" for q x y
    using that by (simp add: phase_inv_def)
  show ?thesis
    using inv ev adv ratio_order
    by (auto simp: Consume_def Let_def) (auto simp: phase_inv_def kMaxAdvanceFrames_def)
qed

lemma phase_step_inv: "phase_inv r \<Longrightarrow> phase_inv (phase_step r c)"
proof (cases c)
  case (CallLocalInput g f t)
  assume "phase_inv r"
  then show ?thesis
    using phase_inv_Ensure [of r g] by (auto simp: CallLocalInput RecordLocalInput_def Let_def phase_inv_def)
next
  case (CallObserve g f t)
  assume inv: "phase_inv r"
  note e = phase_inv_Ensure [OF inv, of g]
  have "length (PushSample (PH_OffsetSamples (EnsureGeneration g r)) v kSampleWindow) \<le> kSampleWindow" for v
    using e by (intro length_PushSample_window) (simp add: phase_inv_def)
  with inv e show ?thesis
    by (auto simp: CallObserve ObserveRemoteInput_def Let_def phase_inv_def split: option.splits)
next
  case (CallConfigure b)
  assume "phase_inv r"
  then show ?thesis
    using phase_inv_PhaseReset [of r] by (auto simp: CallConfigure Configure_def phase_inv_def)
qed (simp_all add: phase_inv_PhaseReset phase_inv_ack phase_inv_Consume)

interpretation phase: state_machine phase_step phase_inv
  by unfold_locales (rule phase_step_inv)

text \<open>C37: Pacing corrections are bounded. After any sequence of calls the speed ratio lies between
  the doubles nearest 0.995 and 1.01, at most three frames wait to be skipped, each sample window
  holds at most 30 samples, and every round trip sample, and their average, is within ten seconds.\<close>

theorem pacing_bounded:
  "phase_inv (foldl phase_step PhaseRuntime_init calls)"
  by (rule phase.run_inv) (use phase_inv_reset [where e = False and g = None] in \<open>simp add: PhaseRuntime_init_def\<close>)

section \<open>Spacing of skipped frames\<close>

fun skipped_frames :: "PhaseRuntime \<Rightarrow> (u32 \<times> time_point) list \<Rightarrow> u32 list" where
  "skipped_frames r [] = []"
| "skipped_frames r ((f, t) # cs) =
     (if PD_SkipFrameLimit (fst (Consume f t r)) then [f] else []) @ skipped_frames (snd (Consume f t r)) cs"

lemma Evaluate_LastAdvance [simp]: "PH_LastAdvanceFrame (Evaluate f r) = PH_LastAdvanceFrame r"
  by (simp add: Evaluate_def Let_def)

lemma Consume_advance:
  "PH_LastAdvanceFrame (snd (Consume f t r)) =
     (if PD_SkipFrameLimit (fst (Consume f t r)) then Some f else PH_LastAdvanceFrame r)"
  "PD_SkipFrameLimit (fst (Consume f t r)) \<Longrightarrow> frames_passed (PH_LastAdvanceFrame r) f kAdvanceSpacingFrames"
  by (auto simp: Consume_def Let_def PhaseSnapshot_def split: if_splits)

lemma spacing_add:
  fixes a b c :: u32
  assumes "a < b" "b < c" "k \<le> b - a"
  shows "k \<le> c - a"
proof -
  have "unat (b - a) = unat b - unat a" "unat (c - a) = unat c - unat a"
    using assms by (simp_all add: unat_sub_u32)
  with assms show ?thesis
    by (auto simp: word_le_nat_alt word_less_nat_alt)
qed

lemma skipped_frames_sub: "set (skipped_frames r cs) \<subseteq> fst ` set cs"
  by (induction r cs rule: skipped_frames.induct) auto

lemma skipped_frames_after:
  "sorted_wrt (<) (map fst cs) \<Longrightarrow> PH_LastAdvanceFrame r = Some a \<Longrightarrow> \<forall>f \<in> fst ` set cs. a < f \<Longrightarrow>
   \<forall>b \<in> set (skipped_frames r cs). kAdvanceSpacingFrames \<le> b - a"
proof (induction r cs rule: skipped_frames.induct)
  case (1 r)
  then show ?case by simp
next
  case (2 r f t cs)
  show ?case
  proof (cases "PD_SkipFrameLimit (fst (Consume f t r))")
    case True
    then have fa: "kAdvanceSpacingFrames \<le> f - a"
      using Consume_advance(2) [of f t r] 2(3) by (simp add: frames_passed_def)
    have "kAdvanceSpacingFrames \<le> b - a" if "b \<in> set (skipped_frames (snd (Consume f t r)) cs)" for b
    proof -
      have "b \<in> fst ` set cs"
        using that skipped_frames_sub by blast
      then have "f < b"
        using 2(2) by auto
      with fa 2(4) show ?thesis
        by (intro spacing_add [of a f b]) auto
    qed
    with True fa show ?thesis by auto
  next
    case False
    with 2 show ?thesis
      by (auto simp: Consume_advance(1))
  qed
qed

text \<open>Skipped frames are spaced. Over any run of pacing decisions for increasing frames, two
  decisions that skip the frame limit are at least five frames apart.\<close>

theorem skips_spaced:
  "sorted_wrt (<) (map fst cs) \<Longrightarrow> sorted_wrt (\<lambda>a b. 5 \<le> b - a) (skipped_frames r cs)"
proof (induction r cs rule: skipped_frames.induct)
  case (1 r)
  then show ?case by simp
next
  case (2 r f t cs)
  have s: "sorted_wrt (<) (map fst cs)" "\<forall>g \<in> fst ` set cs. f < g"
    using 2(2) by auto
  show ?case
  proof (cases "PD_SkipFrameLimit (fst (Consume f t r))")
    case True
    then have "PH_LastAdvanceFrame (snd (Consume f t r)) = Some f"
      by (simp add: Consume_advance(1))
    with s have "\<forall>b \<in> set (skipped_frames (snd (Consume f t r)) cs). 5 \<le> b - f"
      using skipped_frames_after [of cs "snd (Consume f t r)" f] by (simp add: kAdvanceSpacingFrames_def)
    with True 2(1) s(1) show ?thesis by simp
  next
    case False
    with 2(1) s(1) show ?thesis by simp
  qed
qed

theorem skips_spaced_witness:
  "skipped_frames (PhaseRuntime_init\<lparr>PH_Enabled := True, PH_PendingAdvanceFrames := 3, PH_LastRemoteObservationAt := 1\<rparr>)
     [(10, 2), (12, 3), (15, 4), (16, 5), (30, 6)] = [10, 15, 30]
   \<and> sorted_wrt (\<lambda>a b. 5 \<le> b - a) (skipped_frames (PhaseRuntime_init\<lparr>PH_Enabled := True,
       PH_PendingAdvanceFrames := 3, PH_LastRemoteObservationAt := 1\<rparr>)
     [(10, 2), (12, 3), (15, 4), (16, 5), (30, 6)])"
proof
  show "skipped_frames (PhaseRuntime_init\<lparr>PH_Enabled := True, PH_PendingAdvanceFrames := 3, PH_LastRemoteObservationAt := 1\<rparr>)
     [(10, 2), (12, 3), (15, 4), (16, 5), (30, 6)] = [10, 15, 30]"
    by code_simp
qed (rule skips_spaced, simp)

end
