(* ===== verification/Mvl_Runtime.thy ===== *)
theory Mvl_Runtime
  imports Nsmb_Prelude
begin

text \<open>
  The match bookkeeping of \<^verbatim>\<open>NsmbMvlRuntime.cpp\<close>: deciding the winner of a finished game, the
  stage and seed of the next one, and the rebasing of startup frames after a restart, with the
  match configuration of \<^verbatim>\<open>NsmbNetplayConfig.h\<close>. A two element C array is a pair.
\<close>

section \<open>Configuration\<close>

record MvlCameraInitHoldConfig =
  CH_Enabled :: bool
  CH_HostOnly :: bool
  CH_ClientOnly :: bool
  CH_StartFrame :: u32
  CH_EndFrame :: u32

definition MvlCameraInitHoldConfig_default :: MvlCameraInitHoldConfig where
  "MvlCameraInitHoldConfig_default = \<lparr>CH_Enabled = False, CH_HostOnly = False, CH_ClientOnly = False,
     CH_StartFrame = 840, CH_EndFrame = 0\<rparr>"

record MvlNetRandomConfig =
  NR_Enabled :: bool
  NR_Auto :: bool
  NR_Frame :: u32
  NR_Value :: u32

definition MvlNetRandomConfig_default :: MvlNetRandomConfig where
  "MvlNetRandomConfig_default = \<lparr>NR_Enabled = False, NR_Auto = False, NR_Frame = 0, NR_Value = 0\<rparr>"

record MvlConfig =
  MC_Stage :: int
  MC_StageSequence :: "int list"
  MC_StageSceneSettings :: u32
  MC_CourseMode :: string
  MC_InvalidCourseMode :: string
  MC_TargetWins :: int
  MC_BigStarTarget :: int
  MC_RuntimeConfigEnabled :: bool
  MC_InitialLives :: u32
  MC_LifeModeSelector :: u32
  MC_BigStarSelector :: u32
  MC_AutoRestartAfterResult :: bool
  MC_AutoRestartDelayFrames :: u32
  MC_AutoRestartBootstrapFrame :: u32
  MC_CameraInitHold :: MvlCameraInitHoldConfig
  MC_NetRandom :: MvlNetRandomConfig
  MC_MatchSeedConfigured :: bool
  MC_MatchSeed :: u32
  MC_MatchSeedSequence :: "u32 list"

definition MvlConfig_default :: MvlConfig where
  "MvlConfig_default = \<lparr>MC_Stage = 0, MC_StageSequence = [], MC_StageSceneSettings = 0x00B4FF00,
     MC_CourseMode = ''fixed'', MC_InvalidCourseMode = [], MC_TargetWins = 2, MC_BigStarTarget = 5,
     MC_RuntimeConfigEnabled = False, MC_InitialLives = 3, MC_LifeModeSelector = 2,
     MC_BigStarSelector = 1, MC_AutoRestartAfterResult = False, MC_AutoRestartDelayFrames = 120,
     MC_AutoRestartBootstrapFrame = 120, MC_CameraInitHold = MvlCameraInitHoldConfig_default,
     MC_NetRandom = MvlNetRandomConfig_default, MC_MatchSeedConfigured = False, MC_MatchSeed = 0,
     MC_MatchSeedSequence = []\<rparr>"

section \<open>State\<close>

definition kInstanceCount :: nat where "kInstanceCount = 16"
definition kMvlNoFrame :: u32 where "kMvlNoFrame = -1"

record MvlCheckpoint =
  CK_Buffer :: "u8 list"
  CK_Frame :: u32
  CK_Stage :: int
  CK_Logged :: bool

definition MvlCheckpoint_default :: MvlCheckpoint where
  "MvlCheckpoint_default = \<lparr>CK_Buffer = [], CK_Frame = 0, CK_Stage = 0, CK_Logged = False\<rparr>"

record InstanceState =
  IN_InResult :: bool
  IN_ResultScored :: bool
  IN_ResultUnresolvedLogged :: bool
  IN_ClearCameraInitHoldApplied :: bool
  IN_NetRandomPatchApplied :: bool
  IN_ResultFrame :: u32
  IN_LastRestartFrame :: u32
  IN_RestartCount :: int
  IN_Wins :: "int \<times> int"
  IN_BootstrapCheckpoint :: MvlCheckpoint
  IN_GameplayCheckpoint :: MvlCheckpoint

definition InstanceState_default :: InstanceState where
  "InstanceState_default = \<lparr>IN_InResult = False, IN_ResultScored = False,
     IN_ResultUnresolvedLogged = False, IN_ClearCameraInitHoldApplied = False,
     IN_NetRandomPatchApplied = False, IN_ResultFrame = 0, IN_LastRestartFrame = 0,
     IN_RestartCount = 0, IN_Wins = (0, 0), IN_BootstrapCheckpoint = MvlCheckpoint_default,
     IN_GameplayCheckpoint = MvlCheckpoint_default\<rparr>"

record ResultSnapshot =
  RE_BattleStars :: "u32 \<times> u32"
  RE_DisplayedStars :: "u32 \<times> u32"
  RE_CollectedStars :: "u32 \<times> u32"
  RE_Lives :: "u32 \<times> u32"
  RE_Deaths :: "u32 \<times> u32"
  RE_Dead :: "u32 \<times> u32"

record MvlRuntime =
  MV_Instances :: "InstanceState list"
  MV_StartupFrameBase :: u32

definition MvlRuntime_init :: MvlRuntime where
  "MvlRuntime_init = \<lparr>MV_Instances = replicate kInstanceCount InstanceState_default,
     MV_StartupFrameBase = 0\<rparr>"

section \<open>The winner\<close>

definition higherWins :: "u32 \<times> u32 \<Rightarrow> int" where
  "higherWins = (\<lambda>(a, b). if a = b then -1 else if b < a then 0 else 1)"

definition lowerWins :: "u32 \<times> u32 \<Rightarrow> int" where
  "lowerWins = (\<lambda>(a, b). if a = b then -1 else if a < b then 0 else 1)"

definition ResolveResultWinner :: "ResultSnapshot \<Rightarrow> int" where
  "ResolveResultWinner result =
     (let player0Dead = fst (RE_Dead result) \<noteq> 0; player1Dead = snd (RE_Dead result) \<noteq> 0 in
      if player0Dead \<noteq> player1Dead then (if player0Dead then 1 else 0)
      else if 0 \<le> higherWins (RE_BattleStars result) then higherWins (RE_BattleStars result)
      else if 0 \<le> higherWins (RE_DisplayedStars result) then higherWins (RE_DisplayedStars result)
      else if 0 \<le> higherWins (RE_CollectedStars result) then higherWins (RE_CollectedStars result)
      else if 0 \<le> higherWins (RE_Lives result) then higherWins (RE_Lives result)
      else if 0 \<le> lowerWins (RE_Deaths result) then lowerWins (RE_Deaths result)
      else -1)"

definition IsFrameInRange :: "u32 \<Rightarrow> u32 \<Rightarrow> u32 \<Rightarrow> bool" where
  "IsFrameInRange frame startFrame endFrame \<longleftrightarrow>
     startFrame \<le> frame \<and> (endFrame = 0 \<or> frame \<le> endFrame)"

definition IsRoleAllowed :: "bool \<Rightarrow> bool \<Rightarrow> bool \<Rightarrow> bool" where
  "IsRoleAllowed isHost hostOnly clientOnly \<longleftrightarrow>
     (\<not> hostOnly \<or> isHost) \<and> (\<not> clientOnly \<or> \<not> isHost)"

section \<open>Stages, seeds and restarts\<close>

definition MvlIsValidInstance :: "int \<Rightarrow> MvlRuntime \<Rightarrow> bool" where
  "MvlIsValidInstance instanceID r \<longleftrightarrow> 0 \<le> instanceID \<and> instanceID < int (length (MV_Instances r))"

definition GameIndex :: "int \<Rightarrow> MvlRuntime \<Rightarrow> int" where
  "GameIndex instanceID r =
     (if \<not> MvlIsValidInstance instanceID r then 0
      else max 0 (IN_RestartCount (MV_Instances r ! nat instanceID)))"

definition StageForGame :: "int \<Rightarrow> MvlConfig \<Rightarrow> int \<Rightarrow> MvlRuntime \<Rightarrow> int" where
  "StageForGame instanceID config currentStage r =
     (let index = GameIndex instanceID r in
      if MC_StageSequence config \<noteq> []
      then MC_StageSequence config ! nat (min index (int (length (MC_StageSequence config)) - 1))
      else if MC_CourseMode config = ''random'' \<and> MC_MatchSeedConfigured config
      then int_of_u32 ((MC_MatchSeed config + u32_of_int index) mod 5)
      else clamp currentStage 0 4)"

definition MatchSeedForGame :: "int \<Rightarrow> MvlConfig \<Rightarrow> MvlRuntime \<Rightarrow> u32" where
  "MatchSeedForGame instanceID config r =
     (let index = GameIndex instanceID r in
      if MC_MatchSeedSequence config \<noteq> []
      then MC_MatchSeedSequence config ! nat (min index (int (length (MC_MatchSeedSequence config)) - 1))
      else MC_MatchSeed config + u32_of_int index)"

definition RestartPacketCutoffFrame :: "MvlRuntime \<Rightarrow> u32" where
  "RestartPacketCutoffFrame r =
     foldl (\<lambda>cutoff i. max cutoff (IN_LastRestartFrame i)) 0 (MV_Instances r)"

definition MvlResetStartupHookState :: "int \<Rightarrow> MvlRuntime \<Rightarrow> MvlRuntime" where
  "MvlResetStartupHookState instanceID r =
     (if \<not> MvlIsValidInstance instanceID r then r
      else r\<lparr>MV_Instances := (MV_Instances r)[nat instanceID :=
               (MV_Instances r ! nat instanceID)\<lparr>IN_ClearCameraInitHoldApplied := False\<rparr>]\<rparr>)"

definition RelativeStartupFrame :: "u32 \<Rightarrow> MvlRuntime \<Rightarrow> u32" where
  "RelativeStartupFrame value r =
     (if value = 0 \<or> value = kMvlNoFrame then value
      else if MV_StartupFrameBase r \<noteq> 0 \<and> MV_StartupFrameBase r \<le> value
      then value - MV_StartupFrameBase r else value)"

definition RebaseStartupFrame :: "u32 \<Rightarrow> u32 \<Rightarrow> MvlRuntime \<Rightarrow> u32" where
  "RebaseStartupFrame restartFrame value r =
     (if value = 0 \<or> value = kMvlNoFrame then value
      else restartFrame + RelativeStartupFrame value r)"

definition RebaseStartupFrameFromCheckpoint :: "u32 \<Rightarrow> u32 \<Rightarrow> u32 \<Rightarrow> MvlRuntime \<Rightarrow> u32" where
  "RebaseStartupFrameFromCheckpoint restoreFrame checkpointFrame value r =
     (if value = 0 \<or> value = kMvlNoFrame then value
      else
        let relative = RelativeStartupFrame value r in
        if relative = 0 \<or> relative = kMvlNoFrame then relative
        else restoreFrame + (if checkpointFrame < relative then relative - checkpointFrame else 1))"

definition SetStartupFrameBase :: "u32 \<Rightarrow> MvlRuntime \<Rightarrow> MvlRuntime" where
  "SetStartupFrameBase frame r = r\<lparr>MV_StartupFrameBase := frame\<rparr>"

section \<open>Correctness\<close>

definition swap_players :: "ResultSnapshot \<Rightarrow> ResultSnapshot" where
  "swap_players r = \<lparr>RE_BattleStars = prod.swap (RE_BattleStars r),
     RE_DisplayedStars = prod.swap (RE_DisplayedStars r), RE_CollectedStars = prod.swap (RE_CollectedStars r),
     RE_Lives = prod.swap (RE_Lives r), RE_Deaths = prod.swap (RE_Deaths r), RE_Dead = prod.swap (RE_Dead r)\<rparr>"

text \<open>The comparison the rules describe: a dead player loses; then more stars, displayed stars,
  collected stars, lives, and fewer deaths, decide in this order.\<close>

definition standing :: "(nat \<times> nat) list \<Rightarrow> int" where
  "standing rows = (case filter (\<lambda>(a, b). a \<noteq> b) rows of [] \<Rightarrow> -1 | (a, b) # _ \<Rightarrow> if b < a then 0 else 1)"

definition result_rows :: "ResultSnapshot \<Rightarrow> (nat \<times> nat) list" where
  "result_rows r =
     [(of_bool (fst (RE_Dead r) = 0), of_bool (snd (RE_Dead r) = 0)),
      map_prod unat unat (RE_BattleStars r), map_prod unat unat (RE_DisplayedStars r),
      map_prod unat unat (RE_CollectedStars r), map_prod unat unat (RE_Lives r),
      (2 ^ 32 - unat (fst (RE_Deaths r)), 2 ^ 32 - unat (snd (RE_Deaths r)))]"

lemma standing_Cons: "standing ((a, b) # rows) = (if a = b then standing rows else if b < a then 0 else 1)"
  by (simp add: standing_def)

lemma standing_Nil: "standing [] = -1"
  by (simp add: standing_def)

lemma higherWins_standing:
  "(if 0 \<le> higherWins p then higherWins p else standing rows) = standing (map_prod unat unat p # rows)"
  by (cases p) (auto simp: higherWins_def standing_Cons word_less_nat_alt word_unat_eq_iff)

lemma lowerWins_standing:
  "(if 0 \<le> lowerWins p then lowerWins p else standing rows)
   = standing ((2 ^ 32 - unat (fst p), 2 ^ 32 - unat (snd p)) # rows)"
proof (cases p)
  case (Pair a b)
  have "unat a < 2 ^ 32" "unat b < 2 ^ 32"
    by (rule unat_u32_less)+
  with Pair show ?thesis
    by (auto simp: lowerWins_def standing_Cons word_less_nat_alt word_unat_eq_iff)
qed

lemma ResolveResultWinner_standing: "ResolveResultWinner r = standing (result_rows r)"
proof -
  have "(if 0 \<le> lowerWins (RE_Deaths r) then lowerWins (RE_Deaths r) else -1)
      = standing [(2 ^ 32 - unat (fst (RE_Deaths r)), 2 ^ 32 - unat (snd (RE_Deaths r)))]"
    using lowerWins_standing [of "RE_Deaths r" "[]"] by (simp only: standing_Nil)
  then show ?thesis
    unfolding ResolveResultWinner_def result_rows_def standing_Cons Let_def higherWins_standing [symmetric]
    by auto
qed

lemma standing_swap:
  "standing (map prod.swap rows) = (if standing rows = -1 then -1 else 1 - standing rows)"
proof (induction rows)
  case Nil
  then show ?case
    by (simp add: standing_Nil)
next
  case (Cons p rows)
  then show ?case
    by (cases p) (simp add: standing_Cons)
qed

lemma result_rows_swap: "result_rows (swap_players r) = map prod.swap (result_rows r)"
  by (simp add: result_rows_def swap_players_def prod.swap_def)

text \<open>The winner of a game is decided by the documented order of criteria and fairly. The
  result is the first criterion on which the players differ (alive, battle stars, displayed
  stars, collected stars, lives, fewer deaths), or a draw; and exchanging the two players
  exchanges the winner.\<close>

theorem result_winner_fair:
  "ResolveResultWinner r = standing (result_rows r)
   \<and> ResolveResultWinner (swap_players r) =
       (if ResolveResultWinner r = -1 then -1 else 1 - ResolveResultWinner r)"
proof
  show "ResolveResultWinner r = standing (result_rows r)"
    by (rule ResolveResultWinner_standing)
  show "ResolveResultWinner (swap_players r) =
       (if ResolveResultWinner r = -1 then -1 else 1 - ResolveResultWinner r)"
    unfolding ResolveResultWinner_standing result_rows_swap by (rule standing_swap)
qed

end
