(* ===== verification/Netplay_Config.thy ===== *)
theory Netplay_Config
  imports Nsmb_Prelude
begin

text \<open>
  The configuration structures of \<^verbatim>\<open>NsmbNetplayConfig.h\<close> that the session and the rollback runtime
  read, field by field, with their member initialisers as the \<open>_default\<close> values. The match and
  the packet bridge configuration are declared beside the runtimes that own them.
\<close>

record BootstrapConfig =
  BO_Enabled :: bool
  BO_TestEnabled :: bool
  BO_TestFrames :: u32
  BO_TestInstanceCount :: int
  BO_HashEnabled :: bool
  BO_HashInterval :: int
  BO_WaitTimeoutMs :: int
  BO_QuitGraceMs :: int
  BO_InputTraceEnabled :: bool
  BO_InputTraceInterval :: int

definition BootstrapConfig_default :: BootstrapConfig where
  "BootstrapConfig_default = \<lparr>BO_Enabled = False, BO_TestEnabled = False,
     BO_TestFrames = 0, BO_TestInstanceCount = 1, BO_HashEnabled = True, BO_HashInterval = 60,
     BO_WaitTimeoutMs = 60000, BO_QuitGraceMs = 0, BO_InputTraceEnabled = False,
     BO_InputTraceInterval = 60\<rparr>"

record ConnectionConfig =
  CC_Client :: bool
  CC_Delay :: int
  CC_WarmupFrames :: int
  CC_Port :: int
  CC_LocalInstance :: int
  CC_StartFrame :: u32
  CC_LocalStartupRawFrame :: u32
  CC_SharedLogicalEpoch :: u32
  CC_LocalWaitsForRemote :: bool
  CC_RemoteInputTimeoutFatal :: bool
  CC_PeerHost :: string

definition ConnectionConfig_default :: ConnectionConfig where
  "ConnectionConfig_default = \<lparr>CC_Client = False, CC_Delay = 6, CC_WarmupFrames = 0,
     CC_Port = 8065, CC_LocalInstance = 0, CC_StartFrame = 0, CC_LocalStartupRawFrame = 0,
     CC_SharedLogicalEpoch = 0, CC_LocalWaitsForRemote = True,
     CC_RemoteInputTimeoutFatal = False, CC_PeerHost = ''127.0.0.1''\<rparr>"

record InputConfig =
  IC_SendDelayFrames :: int
  IC_SendJitterFrames :: int
  IC_SendDelayStartFrame :: u32
  IC_SendDelayEndFrame :: u32
  IC_UseHistoryBundle :: bool
  IC_BundleHistory :: int
  IC_DropModulo :: int
  IC_DropOffset :: int
  IC_DropStartFrame :: u32
  IC_DropEndFrame :: u32
  IC_MaxFrameLead :: int
  IC_NetplayOnly :: bool
  IC_NetplayTrace :: bool
  IC_HealthTrace :: bool
  IC_HealthTraceInterval :: int
  IC_HealthTraceWaitThresholdMs :: int
  IC_WaitPollUs :: int

definition InputConfig_default :: InputConfig where
  "InputConfig_default = \<lparr>IC_SendDelayFrames = 0, IC_SendJitterFrames = 0,
     IC_SendDelayStartFrame = 0, IC_SendDelayEndFrame = 0, IC_UseHistoryBundle = False,
     IC_BundleHistory = 0, IC_DropModulo = 0, IC_DropOffset = 0, IC_DropStartFrame = 0,
     IC_DropEndFrame = 0, IC_MaxFrameLead = -1, IC_NetplayOnly = False, IC_NetplayTrace = False,
     IC_HealthTrace = False, IC_HealthTraceInterval = 120, IC_HealthTraceWaitThresholdMs = 16,
     IC_WaitPollUs = 100\<rparr>"

record RuntimePatchConfig =
  PC_PlayerStickToStarStartFrame :: u32
  PC_PlayerStickToStarEndFrame :: u32
  PC_PlayerStickToStarSlot :: int
  PC_ForcePlayerDeathCountersEnabled :: bool
  PC_ForcePlayerDeathCountersHostOnly :: bool
  PC_ForcePlayerDeathCountersClientOnly :: bool
  PC_ForcePlayerDeathCountersStartFrame :: u32
  PC_ForcePlayerDeathCountersEndFrame :: u32
  PC_ForcePlayerDeathCounter0 :: u32
  PC_ForcePlayerDeathCounter1 :: u32
  PC_ForcePlayerLivesEnabled :: bool
  PC_ForcePlayerLife0 :: u32
  PC_ForcePlayerLife1 :: u32
  PC_ForcePlayerPowerupsEnabled :: bool
  PC_ForcePlayerPowerupsStartFrame :: u32
  PC_ForcePlayerPowerupsEndFrame :: u32
  PC_ForcePlayerPowerup0 :: u32
  PC_ForcePlayerPowerup1 :: u32
  PC_ForcePlayerInventoryPowerupsEnabled :: bool
  PC_ForcePlayerInventoryPowerupsStartFrame :: u32
  PC_ForcePlayerInventoryPowerupsEndFrame :: u32
  PC_ForcePlayerInventoryPowerup0 :: u32
  PC_ForcePlayerInventoryPowerup1 :: u32
  PC_ForcePlayerCoinsEnabled :: bool
  PC_ForcePlayerCoinsStartFrame :: u32
  PC_ForcePlayerCoinsEndFrame :: u32
  PC_ForcePlayerCoins0 :: u32
  PC_ForcePlayerCoins1 :: u32
  PC_ForcePlayerStarCountersEnabled :: bool
  PC_ForcePlayerStarCountersStartFrame :: u32
  PC_ForcePlayerStarCountersEndFrame :: u32
  PC_ForcePlayerBattleStars0 :: u32
  PC_ForcePlayerBattleStars1 :: u32
  PC_ForcePlayerDisplayedStars0 :: u32
  PC_ForcePlayerDisplayedStars1 :: u32
  PC_ForcePlayerCollectedStars0 :: u32
  PC_ForcePlayerCollectedStars1 :: u32
  PC_TracePlayerLifeChanges :: bool
  PC_PacketBridgeJitHelperPatchEnabled :: bool
  PC_PacketBridgeJitHelperPatchFrame :: u32

definition RuntimePatchConfig_default :: RuntimePatchConfig where
  "RuntimePatchConfig_default = \<lparr>PC_PlayerStickToStarStartFrame = 0,
     PC_PlayerStickToStarEndFrame = 0, PC_PlayerStickToStarSlot = 0,
     PC_ForcePlayerDeathCountersEnabled = False, PC_ForcePlayerDeathCountersHostOnly = False,
     PC_ForcePlayerDeathCountersClientOnly = False, PC_ForcePlayerDeathCountersStartFrame = 0,
     PC_ForcePlayerDeathCountersEndFrame = 0, PC_ForcePlayerDeathCounter0 = 0,
     PC_ForcePlayerDeathCounter1 = 0, PC_ForcePlayerLivesEnabled = False,
     PC_ForcePlayerLife0 = 5, PC_ForcePlayerLife1 = 5, PC_ForcePlayerPowerupsEnabled = False,
     PC_ForcePlayerPowerupsStartFrame = 0, PC_ForcePlayerPowerupsEndFrame = 0,
     PC_ForcePlayerPowerup0 = 0, PC_ForcePlayerPowerup1 = 0,
     PC_ForcePlayerInventoryPowerupsEnabled = False,
     PC_ForcePlayerInventoryPowerupsStartFrame = 0, PC_ForcePlayerInventoryPowerupsEndFrame = 0,
     PC_ForcePlayerInventoryPowerup0 = 0, PC_ForcePlayerInventoryPowerup1 = 0,
     PC_ForcePlayerCoinsEnabled = False, PC_ForcePlayerCoinsStartFrame = 0,
     PC_ForcePlayerCoinsEndFrame = 0, PC_ForcePlayerCoins0 = 0, PC_ForcePlayerCoins1 = 0,
     PC_ForcePlayerStarCountersEnabled = False, PC_ForcePlayerStarCountersStartFrame = 0,
     PC_ForcePlayerStarCountersEndFrame = 0, PC_ForcePlayerBattleStars0 = 0,
     PC_ForcePlayerBattleStars1 = 0, PC_ForcePlayerDisplayedStars0 = 0,
     PC_ForcePlayerDisplayedStars1 = 0, PC_ForcePlayerCollectedStars0 = 0,
     PC_ForcePlayerCollectedStars1 = 0, PC_TracePlayerLifeChanges = False,
     PC_PacketBridgeJitHelperPatchEnabled = False,
     PC_PacketBridgeJitHelperPatchFrame = 0\<rparr>"

record HarnessConfig =
  HA_InputScriptPath :: string
  HA_FrameBarrierEnabled :: bool
  HA_SerialRunEnabled :: bool
  HA_SeedWaitTimeoutMs :: int
  HA_WaitForPeerBeforeStart :: bool
  HA_WaitForPeerAtNetplayStart :: bool
  HA_DeferNetworkUntilStart :: bool
  HA_NetplayFrameBarrierEnabled :: bool
  HA_NeutralizePolledInput :: bool
  HA_NeutralizePolledInputPreserveTouch :: bool
  HA_NetworkPumpThreadEnabled :: bool
  HA_NetworkPumpSleepUs :: int
  HA_StateSaveDir :: string
  HA_StateSaveFrame :: u32
  HA_StateLoadDir :: string
  HA_StateLoadFrame :: u32
  HA_StateLoadFrameSet :: bool
  HA_TestEmulationPauseFrame :: u32
  HA_TestEmulationPauseDurationMs :: int
  HA_TestEmulationPauseRole :: string

definition HarnessConfig_default :: HarnessConfig where
  "HarnessConfig_default = \<lparr>HA_InputScriptPath = [], HA_FrameBarrierEnabled = False,
     HA_SerialRunEnabled = False, HA_SeedWaitTimeoutMs = 10000,
     HA_WaitForPeerBeforeStart = False, HA_WaitForPeerAtNetplayStart = False,
     HA_DeferNetworkUntilStart = False, HA_NetplayFrameBarrierEnabled = False,
     HA_NeutralizePolledInput = False, HA_NeutralizePolledInputPreserveTouch = False,
     HA_NetworkPumpThreadEnabled = False, HA_NetworkPumpSleepUs = 250, HA_StateSaveDir = [],
     HA_StateSaveFrame = 0, HA_StateLoadDir = [], HA_StateLoadFrame = 0,
     HA_StateLoadFrameSet = False, HA_TestEmulationPauseFrame = 0,
     HA_TestEmulationPauseDurationMs = 0, HA_TestEmulationPauseRole = []\<rparr>"

datatype RollbackBackend = Savestate | CoreLite | CoreSparse | CoreDelta | CoreFrameDelta | CorePreimage
  | TinyCorePreimage | RomLoop

record RollbackConfig =
  RB_Enabled :: bool
  RB_Resimulate :: bool
  RB_SkipRenderDuringResim :: bool
  RB_SkipIntermediateResimCheckpoints :: bool
  RB_SkipJitReset :: bool
  RB_InputWaitUs :: int
  RB_RestoreProbe :: bool
  RB_PredictionProbeModulo :: int
  RB_PredictionProbeOffset :: int
  RB_PredictionProbeLimit :: int
  RB_PredictionProbeStartFrame :: u32
  RB_PredictionProbeEndFrame :: u32
  RB_PredictionProbeKeyMask :: u32
  RB_PredictionProbeConfirmDelayFrames :: int
  RB_Backend :: RollbackBackend
  RB_Window :: int
  RB_CheckpointInterval :: int
  RB_DeltaKeyframeInterval :: int
  RB_MainRAMPageSize :: int
  RB_CoreSkipMask :: int
  RB_TinyCoreFlags :: int
  RB_ResimulateDelayFrames :: int
  RB_MaxResimFrames :: int
  RB_PredictionHorizonFrames :: int
  RB_PredictionHorizonTimeoutMs :: int
  RB_PhaseRecoveryEnabled :: bool

definition RollbackConfig_default :: RollbackConfig where
  "RollbackConfig_default = \<lparr>RB_Enabled = False, RB_Resimulate = False,
     RB_SkipRenderDuringResim = False, RB_SkipIntermediateResimCheckpoints = False,
     RB_SkipJitReset = False, RB_InputWaitUs = 0, RB_RestoreProbe = False,
     RB_PredictionProbeModulo = 0, RB_PredictionProbeOffset = 0, RB_PredictionProbeLimit = -1,
     RB_PredictionProbeStartFrame = 0, RB_PredictionProbeEndFrame = 0,
     RB_PredictionProbeKeyMask = 1, RB_PredictionProbeConfirmDelayFrames = 0,
     RB_Backend = Savestate, RB_Window = 20, RB_CheckpointInterval = 1,
     RB_DeltaKeyframeInterval = 10, RB_MainRAMPageSize = 4096, RB_CoreSkipMask = 0,
     RB_TinyCoreFlags = 0, RB_ResimulateDelayFrames = 0, RB_MaxResimFrames = 0,
     RB_PredictionHorizonFrames = 0, RB_PredictionHorizonTimeoutMs = 7000,
     RB_PhaseRecoveryEnabled = False\<rparr>"

end
