(* ===== verification/Packet_Bridge.thy ===== *)
theory Packet_Bridge
  imports Input_Protocol Netplay_Config
begin

text \<open>
  \<^verbatim>\<open>NsmbPacketBridgeRuntime.cpp\<close>: the queue that hands complete input pairs to the game at its own
  update boundary, the four instruction patch that moves the boundary marker, the choice of the
  canonical tick, and the runtime of the packet bridge (queued packets, delayed packets, receive
  progress, the state of the JIT hook per instance). A nullable pointer is an option, the
  arrays of 16 entries are lists of that length, and a time point counts nanoseconds.
\<close>

section \<open>Configuration and wire data\<close>

definition kVersion :: u32 where "kVersion = 2"
definition kWireKindPacket :: u32 where "kWireKindPacket = 0x4B434150"
definition kUnsetProgress :: u32 where "kUnsetProgress = 0xFFFFFFFF"

record PacketBridgeConfig =
  BC_Enabled :: bool
  BC_Only :: bool
  BC_AllowPreGame :: bool
  BC_TraceEnabled :: bool
  BC_LocalPlayerOverride :: int
  BC_DirectCaptureEnabled :: bool
  BC_ForceTickEnabled :: bool
  BC_ForceTickStartFrame :: u32
  BC_ForceTickBase :: int
  BC_ForceGameLocalPlayerID :: int
  BC_ForceGameLocalPlayerIDStartFrame :: u32
  BC_ForceGameLocalPlayerIDEarly :: bool
  BC_MaxFrameLead :: int
  BC_ThrottleTimeoutMs :: int
  BC_ThrottleStartFrame :: u32
  BC_LocalInputDelay :: int
  BC_NeutralizeLocalInput :: bool
  BC_PreserveLocalTouch :: bool
  BC_SendDelayFrames :: int
  BC_SendJitterFrames :: int

definition PacketBridgeConfig_default :: PacketBridgeConfig where
  "PacketBridgeConfig_default = \<lparr>BC_Enabled = False, BC_Only = False, BC_AllowPreGame = False,
     BC_TraceEnabled = False, BC_LocalPlayerOverride = -1, BC_DirectCaptureEnabled = False,
     BC_ForceTickEnabled = False, BC_ForceTickStartFrame = 0, BC_ForceTickBase = -1,
     BC_ForceGameLocalPlayerID = -1, BC_ForceGameLocalPlayerIDStartFrame = 0,
     BC_ForceGameLocalPlayerIDEarly = False, BC_MaxFrameLead = -1, BC_ThrottleTimeoutMs = 5000,
     BC_ThrottleStartFrame = 0, BC_LocalInputDelay = 0, BC_NeutralizeLocalInput = False,
     BC_PreserveLocalTouch = False, BC_SendDelayFrames = 0, BC_SendJitterFrames = 0\<rparr>"

record WireNSMLPacket =
  NW_Magic :: u32
  NW_Version :: u32
  NW_Kind :: u32
  NW_Generation :: u32
  NW_Frame :: u32
  NW_Player :: u32
  NW_Tick :: u32
  NW_Packet :: "u8 list"

section \<open>The queue of game tick inputs\<close>

record GameTickInput =
  GT_Frame :: u32
  GT_Local :: InputState
  GT_Remote :: InputState
  GT_HasRemote :: bool

record GameTickInputQueue =
  GQ_Generation :: u32
  GQ_Inputs :: "GameTickInput list"
  GQ_LastQueuedFrame :: "u32 option"
  GQ_AppliedFrame :: "u32 option"

definition Capacity :: nat where "Capacity = 2048"

definition GameTickInputQueue_init :: GameTickInputQueue where
  "GameTickInputQueue_init = \<lparr>GQ_Generation = kUnsetProgress, GQ_Inputs = [],
     GQ_LastQueuedFrame = None, GQ_AppliedFrame = None\<rparr>"

definition QueueReset :: "u32 \<Rightarrow> GameTickInputQueue \<Rightarrow> GameTickInputQueue" where
  "QueueReset generation q = q\<lparr>GQ_Generation := generation, GQ_Inputs := [],
     GQ_LastQueuedFrame := None, GQ_AppliedFrame := None\<rparr>"

definition Enqueue :: "GameTickInput \<Rightarrow> GameTickInputQueue \<Rightarrow> bool \<times> GameTickInputQueue" where
  "Enqueue input q =
     (if Capacity \<le> length (GQ_Inputs q)
         \<or> (case GQ_LastQueuedFrame q of None \<Rightarrow> False | Some l \<Rightarrow> GT_Frame input \<noteq> l + 1)
      then (False, q)
      else (True, q\<lparr>GQ_Inputs := GQ_Inputs q @ [input], GQ_LastQueuedFrame := Some (GT_Frame input)\<rparr>))"

definition QueueConsume :: "GameTickInputQueue \<Rightarrow> GameTickInput option \<times> GameTickInputQueue" where
  "QueueConsume q =
     (case GQ_Inputs q of
        [] \<Rightarrow> (None, q)
      | input # rest \<Rightarrow>
          (Some input, q\<lparr>GQ_Inputs := rest, GQ_AppliedFrame := Some (GT_Frame input)\<rparr>))"

definition QueuePendingCount :: "GameTickInputQueue \<Rightarrow> nat" where
  "QueuePendingCount q = length (GQ_Inputs q)"

section \<open>The boundary patch\<close>

text \<open>A \<^verbatim>\<open>BL\<close> to \<^verbatim>\<open>InputUpdate\<close>: the 24 bit offset is sign extended and scaled by shifting left 8
  and arithmetically right 6.\<close>

definition callsInputUpdate :: "u32 \<Rightarrow> u32 \<Rightarrow> bool" where
  "callsInputUpdate pc word \<longleftrightarrow> word AND 0xFF000000 = 0xEB000000
     \<and> pc + 8 + signed_drop_bit 6 (push_bit 8 word) = 0x02005230"

type_synonym patch_words = "u32 \<times> u32 \<times> u32 \<times> u32"

definition BuildGameTickInputBoundaryPatch :: "u32 \<Rightarrow> patch_words \<Rightarrow> u32 \<Rightarrow> patch_words option" where
  "BuildGameTickInputBoundaryPatch address ws markerLiteral =
     (case ws of (w0, w1, w2, w3) \<Rightarrow>
        if address AND 3 \<noteq> 0 \<or> address < 0x02001B50 \<or> 0x02001CD0 < address
           \<or> markerLiteral \<noteq> 0x04FFFA28 then None
        else if w0 AND 0xFFFFF000 = 0xE59F2000 \<and> w1 = 0xE3A01002 \<and> w2 = 0xE5821000
           \<and> callsInputUpdate (address + 12) w3 then Some ws
        else if \<not> callsInputUpdate address w0 \<or> w1 AND 0xFFFFF000 \<noteq> 0xE59F2000
           \<or> 0xFFB < w1 AND 0xFFF \<or> w2 \<noteq> 0xE3A01003 \<or> w3 \<noteq> 0xE5821000 then None
        else Some (w1 + 4, 0xE3A01002, w3, w0 - 3))"

section \<open>Choices of the bridge\<close>

definition SelectPlayerInput :: "int \<Rightarrow> int \<Rightarrow> InputState \<Rightarrow> InputState \<Rightarrow> bool \<Rightarrow> InputState" where
  "SelectPlayerInput player localPlayer localInput remoteInput hasRemoteInput =
     (if player = localPlayer then localInput
      else if hasRemoteInput then remoteInput
      else InputState_default)"

definition CanonicalTick :: "PacketBridgeConfig \<Rightarrow> u32 \<Rightarrow> u32 \<Rightarrow> u32 \<Rightarrow> u32" where
  "CanonicalTick config sharedLogicalEpoch frame observedTick =
     (let startFrame = (if sharedLogicalEpoch \<noteq> 0 then sharedLogicalEpoch
                        else BC_ForceTickStartFrame config)
      in if \<not> BC_ForceTickEnabled config \<or> frame < startFrame \<or> BC_ForceTickBase config < 0
         then observedTick
         else (u32_of_int (BC_ForceTickBase config) + (frame - startFrame)) AND 0xFFFF)"

definition IsAcceptedIncomingPacket :: "WireNSMLPacket \<Rightarrow> u32 \<Rightarrow> bool" where
  "IsAcceptedIncomingPacket packet expectedGeneration =
     (if NW_Magic packet \<noteq> kMagic \<or> NW_Version packet \<noteq> kVersion
         \<or> NW_Kind packet \<noteq> kWireKindPacket \<or> 1 < NW_Player packet
      then False
      else NW_Generation packet = expectedGeneration)"

definition ShouldWriteJitScratchInputs :: "bool \<Rightarrow> bool \<Rightarrow> bool \<Rightarrow> u32 \<Rightarrow> u32 \<Rightarrow> bool" where
  "ShouldWriteJitScratchInputs jitHookApplied inputNetplayOnly inputEpochReady sharedLogicalEpoch
       logicalFrame =
     (if \<not> jitHookApplied then False
      else if \<not> inputNetplayOnly then True
      else inputEpochReady \<and> sharedLogicalEpoch \<noteq> 0 \<and> sharedLogicalEpoch \<le> logicalFrame)"

section \<open>The runtime of the bridge\<close>

record ReceivedProgress =
  RP_Tick :: u32
  RP_Frame :: u32

definition ReceivedProgress_default :: ReceivedProgress where
  "ReceivedProgress_default = \<lparr>RP_Tick = kUnsetProgress, RP_Frame = kUnsetProgress\<rparr>"

datatype JitHookRestoreAction = JitDisabled | KeepApplied | JitSchedule

record JitHookRestoreResult =
  JR_Action :: JitHookRestoreAction
  JR_ResumeFrame :: u32

definition JitHookRestoreResult_default :: JitHookRestoreResult where
  "JitHookRestoreResult_default = \<lparr>JR_Action = JitDisabled, JR_ResumeFrame = 0\<rparr>"

record DelayedPacket =
  DP_ReleaseFrame :: u32
  DP_ReleaseTime :: time_point
  DP_Packet :: WireNSMLPacket

record BridgeRuntime =
  BR_PacketInputs :: "InputState frame_map"
  BR_PendingPackets :: "WireNSMLPacket list"
  BR_DelayedPackets :: "DelayedPacket list"
  BR_LastSentTick :: u32
  BR_ReceivedProgress :: "ReceivedProgress list"
  BR_LastFrameThrottleFrame :: u32
  BR_LastForcedTickFrame :: "u32 list"
  BR_JitHookApplied :: "bool list"
  BR_JitHookResumeFrame :: "u32 list"

definition BridgeRuntime_init :: BridgeRuntime where
  "BridgeRuntime_init = \<lparr>BR_PacketInputs = fmempty, BR_PendingPackets = [], BR_DelayedPackets = [],
     BR_LastSentTick = kUnsetProgress, BR_ReceivedProgress = replicate 2 ReceivedProgress_default,
     BR_LastFrameThrottleFrame = kUnsetProgress, BR_LastForcedTickFrame = replicate 16 0,
     BR_JitHookApplied = replicate 16 False, BR_JitHookResumeFrame = replicate 16 0\<rparr>"

definition ValidInstance :: "int \<Rightarrow> bool" where
  "ValidInstance instanceID \<longleftrightarrow> 0 \<le> instanceID \<and> instanceID < 16"

definition UpdateTraceMarker :: "u32 \<Rightarrow> u32 \<Rightarrow> bool \<times> u32" where
  "UpdateTraceMarker v lastValue = (if lastValue = v then (False, lastValue) else (True, v))"

definition ResetQueuesForRestart :: "BridgeRuntime \<Rightarrow> BridgeRuntime" where
  "ResetQueuesForRestart r =
     r\<lparr>BR_PacketInputs := fmempty, BR_PendingPackets := [], BR_DelayedPackets := []\<rparr>"

definition ResetStartupHookState :: "int \<Rightarrow> BridgeRuntime \<Rightarrow> BridgeRuntime" where
  "ResetStartupHookState instanceID r =
     (if \<not> ValidInstance instanceID then r
      else r\<lparr>BR_JitHookApplied := (BR_JitHookApplied r)[nat instanceID := False],
             BR_JitHookResumeFrame := (BR_JitHookResumeFrame r)[nat instanceID := 0],
             BR_LastForcedTickFrame := (BR_LastForcedTickFrame r)[nat instanceID := 0]\<rparr>)"

definition StorePacketInput :: "u32 \<Rightarrow> InputState \<Rightarrow> BridgeRuntime \<Rightarrow> BridgeRuntime" where
  "StorePacketInput frame input r =
     r\<lparr>BR_PacketInputs := fmupd frame input (BR_PacketInputs r)\<rparr>"

definition PacketInput :: "u32 \<Rightarrow> BridgeRuntime \<Rightarrow> InputState option" where
  "PacketInput frame r =
     (case fmlookup (BR_PacketInputs r) frame of
        Some input \<Rightarrow> Some input
      | None \<Rightarrow> if 0 < frame then fmlookup (BR_PacketInputs r) (frame - 1) else None)"

definition PrunePacketInputs :: "u32 \<Rightarrow> u32 \<Rightarrow> BridgeRuntime \<Rightarrow> BridgeRuntime" where
  "PrunePacketInputs frame historyFrames r =
     (let keepFrom = (if historyFrames < frame then frame - historyFrames else 0)
      in r\<lparr>BR_PacketInputs := fmfilter (\<lambda>k. \<not> k < keepFrom) (BR_PacketInputs r)\<rparr>)"

definition PacketInputCount :: "BridgeRuntime \<Rightarrow> nat" where
  "PacketInputCount r = fm_size (BR_PacketInputs r)"

definition QueuePendingPacket :: "WireNSMLPacket \<Rightarrow> BridgeRuntime \<Rightarrow> BridgeRuntime" where
  "QueuePendingPacket packet r = r\<lparr>BR_PendingPackets := BR_PendingPackets r @ [packet]\<rparr>"

definition TakePendingPackets :: "BridgeRuntime \<Rightarrow> WireNSMLPacket list \<times> BridgeRuntime" where
  "TakePendingPackets r = (BR_PendingPackets r, r\<lparr>BR_PendingPackets := []\<rparr>)"

definition PendingPacketCount :: "BridgeRuntime \<Rightarrow> nat" where
  "PendingPacketCount r = length (BR_PendingPackets r)"

text \<open>The sums and products of the delays are computed on \<^verbatim>\<open>int\<close>; here they are unbounded, which differs
  only for settings near the limits of an \<^verbatim>\<open>int\<close>, where the source overflows.\<close>

definition send_delay_frames :: "u32 \<Rightarrow> PacketBridgeConfig \<Rightarrow> int" where
  "send_delay_frames frame config =
     (let jitterFrames =
            (if 0 < BC_SendJitterFrames config
             then int_of_u32 (frame mod u32_of_int (BC_SendJitterFrames config + 1)) else 0)
      in BC_SendDelayFrames config + jitterFrames)"

definition PrepareOutgoingPacket ::
  "u32 \<Rightarrow> u32 \<Rightarrow> u32 \<Rightarrow> u32 \<Rightarrow> u8 list option \<Rightarrow> PacketBridgeConfig \<Rightarrow> time_point
   \<Rightarrow> BridgeRuntime \<Rightarrow> WireNSMLPacket option \<times> BridgeRuntime" where
  "PrepareOutgoingPacket generation frame player tick packetBytes config now r =
     (case packetBytes of
        None \<Rightarrow> (None, r)
      | Some bytes \<Rightarrow>
          if 1 < player then (None, r)
          else
            let packet = \<lparr>NW_Magic = kMagic, NW_Version = kVersion, NW_Kind = kWireKindPacket,
                   NW_Generation = generation, NW_Frame = frame, NW_Player = player,
                   NW_Tick = tick, NW_Packet = take 52 bytes\<rparr>;
                sendDelayFrames = send_delay_frames frame config
            in if sendDelayFrames \<le> 0 then (Some packet, r)
               else (None, r\<lparr>BR_DelayedPackets := BR_DelayedPackets r @
                 [\<lparr>DP_ReleaseFrame = frame + u32_of_int sendDelayFrames,
                   DP_ReleaseTime = now + 1000000 * ((sendDelayFrames * 1000 + 59) div 60),
                   DP_Packet = packet\<rparr>]\<rparr>))"

definition delayed_due :: "u32 \<times> time_point \<Rightarrow> DelayedPacket \<Rightarrow> bool" where
  "delayed_due n d \<longleftrightarrow> DP_ReleaseFrame d \<le> fst n \<or> DP_ReleaseTime d \<le> snd n"

fun take_due :: "u32 \<times> time_point \<Rightarrow> DelayedPacket list \<Rightarrow> DelayedPacket list \<times> DelayedPacket list" where
  "take_due n [] = ([], [])"
| "take_due n (d # ds) =
     (let (out, rest) = take_due n ds
      in if delayed_due n d then (d # out, rest) else (out, d # rest))"

definition TakeDueOutgoingPackets ::
  "u32 \<Rightarrow> time_point \<Rightarrow> BridgeRuntime \<Rightarrow> WireNSMLPacket list \<times> BridgeRuntime" where
  "TakeDueOutgoingPackets frame now r =
     (let (out, rest) = take_due (frame, now) (BR_DelayedPackets r)
      in (map DP_Packet out, r\<lparr>BR_DelayedPackets := rest\<rparr>))"

definition DelayedPacketCount :: "BridgeRuntime \<Rightarrow> nat" where
  "DelayedPacketCount r = length (BR_DelayedPackets r)"

definition RecordReceivedPacket :: "u32 \<Rightarrow> u32 \<Rightarrow> u32 \<Rightarrow> BridgeRuntime \<Rightarrow> bool \<times> BridgeRuntime" where
  "RecordReceivedPacket player tick frame r =
     (if length (BR_ReceivedProgress r) \<le> unat player then (False, r)
      else (RP_Tick (BR_ReceivedProgress r ! unat player) \<noteq> tick,
            r\<lparr>BR_ReceivedProgress := (BR_ReceivedProgress r)
                [unat player := \<lparr>RP_Tick = tick, RP_Frame = frame\<rparr>]\<rparr>))"

definition ReceivedPacketProgress :: "u32 \<Rightarrow> BridgeRuntime \<Rightarrow> ReceivedProgress" where
  "ReceivedPacketProgress player r =
     (if length (BR_ReceivedProgress r) \<le> unat player then ReceivedProgress_default
      else BR_ReceivedProgress r ! unat player)"

definition ShouldTraceSentTick :: "u32 \<Rightarrow> BridgeRuntime \<Rightarrow> bool \<times> BridgeRuntime" where
  "ShouldTraceSentTick tick r =
     (let (b, v) = UpdateTraceMarker tick (BR_LastSentTick r) in (b, r\<lparr>BR_LastSentTick := v\<rparr>))"

definition ShouldTraceFrameThrottle :: "u32 \<Rightarrow> BridgeRuntime \<Rightarrow> bool \<times> BridgeRuntime" where
  "ShouldTraceFrameThrottle frame r =
     (let (b, v) = UpdateTraceMarker frame (BR_LastFrameThrottleFrame r)
      in (b, r\<lparr>BR_LastFrameThrottleFrame := v\<rparr>))"

definition MarkForcedTickFrame :: "int \<Rightarrow> u32 \<Rightarrow> BridgeRuntime \<Rightarrow> bool \<times> BridgeRuntime" where
  "MarkForcedTickFrame instanceID frame r =
     (if \<not> ValidInstance instanceID \<or> BR_LastForcedTickFrame r ! nat instanceID = frame then (False, r)
      else (True, r\<lparr>BR_LastForcedTickFrame := (BR_LastForcedTickFrame r)[nat instanceID := frame]\<rparr>))"

definition ScheduleJitHookAfterRestore ::
  "int \<Rightarrow> u32 \<Rightarrow> u32 \<Rightarrow> RuntimePatchConfig \<Rightarrow> BridgeRuntime \<Rightarrow> JitHookRestoreResult \<times> BridgeRuntime" where
  "ScheduleJitHookAfterRestore instanceID restoreFrame checkpointFrame config r =
     (if \<not> ValidInstance instanceID then (JitHookRestoreResult_default, r)
      else
        let i = nat instanceID;
            r1 = r\<lparr>BR_JitHookResumeFrame := (BR_JitHookResumeFrame r)[i := 0]\<rparr>
        in if \<not> PC_PacketBridgeJitHelperPatchEnabled config then
             (JitHookRestoreResult_default,
              r1\<lparr>BR_JitHookApplied := (BR_JitHookApplied r1)[i := False]\<rparr>)
           else if PC_PacketBridgeJitHelperPatchFrame config \<le> checkpointFrame then
             (\<lparr>JR_Action = KeepApplied, JR_ResumeFrame = 0\<rparr>,
              r1\<lparr>BR_JitHookApplied := (BR_JitHookApplied r1)[i := True]\<rparr>)
           else
             let delay0 = PC_PacketBridgeJitHelperPatchFrame config - checkpointFrame;
                 delay = (if 6 < delay0 then delay0 - 6 else delay0);
                 r2 = r1\<lparr>BR_JitHookApplied := (BR_JitHookApplied r1)[i := False],
                         BR_JitHookResumeFrame := (BR_JitHookResumeFrame r1)[i := restoreFrame + delay]\<rparr>
             in (\<lparr>JR_Action = JitSchedule, JR_ResumeFrame = BR_JitHookResumeFrame r2 ! i\<rparr>, r2))"

definition ShouldApplyJitHook :: "int \<Rightarrow> u32 \<Rightarrow> u32 \<Rightarrow> BridgeRuntime \<Rightarrow> bool" where
  "ShouldApplyJitHook instanceID frame configuredPatchFrame r =
     (if \<not> ValidInstance instanceID \<or> BR_JitHookApplied r ! nat instanceID then False
      else
        let resume = BR_JitHookResumeFrame r ! nat instanceID;
            patchFrame = (if resume \<noteq> 0 then max configuredPatchFrame resume else configuredPatchFrame)
        in patchFrame \<le> frame)"

definition MarkJitHookApplied :: "int \<Rightarrow> BridgeRuntime \<Rightarrow> BridgeRuntime" where
  "MarkJitHookApplied instanceID r =
     (if \<not> ValidInstance instanceID then r
      else r\<lparr>BR_JitHookApplied := (BR_JitHookApplied r)[nat instanceID := True],
             BR_JitHookResumeFrame := (BR_JitHookResumeFrame r)[nat instanceID := 0]\<rparr>)"

definition IsJitHookApplied :: "int \<Rightarrow> BridgeRuntime \<Rightarrow> bool" where
  "IsJitHookApplied instanceID r \<longleftrightarrow> ValidInstance instanceID \<and> BR_JitHookApplied r ! nat instanceID"

definition JitHookResumeFrame :: "int \<Rightarrow> BridgeRuntime \<Rightarrow> u32" where
  "JitHookResumeFrame instanceID r =
     (if ValidInstance instanceID then BR_JitHookResumeFrame r ! nat instanceID else 0)"

interpretation bridge_queue: release_queue delayed_due take_due
  by unfold_locales simp_all

section \<open>The queue hands over every input once\<close>

datatype queue_call = CallEnqueue GameTickInput | CallConsume

text \<open>The inputs accepted so far, the inputs handed to the game so far, and the queue.\<close>

type_synonym queue_log = "GameTickInput list \<times> GameTickInput list \<times> GameTickInputQueue"

fun queue_step :: "queue_log \<Rightarrow> queue_call \<Rightarrow> queue_log" where
  "queue_step (accepted, applied, q) (CallEnqueue input) =
     (case Enqueue input q of (ok, q') \<Rightarrow> (if ok then accepted @ [input] else accepted, applied, q'))"
| "queue_step (accepted, applied, q) CallConsume =
     (case QueueConsume q of (None, q') \<Rightarrow> (accepted, applied, q')
      | (Some input, q') \<Rightarrow> (accepted, applied @ [input], q'))"

definition consecutive :: "u32 list \<Rightarrow> bool" where
  "consecutive fs \<longleftrightarrow> (\<exists>first. fs = map (\<lambda>k. first + word_of_nat k) [0..<length fs])"

definition last_frame :: "GameTickInput list \<Rightarrow> u32 option" where
  "last_frame xs = (if xs = [] then None else Some (GT_Frame (last xs)))"

fun queue_inv :: "u32 \<Rightarrow> queue_log \<Rightarrow> bool" where
  "queue_inv g (accepted, applied, q) \<longleftrightarrow>
     applied @ GQ_Inputs q = accepted \<and> consecutive (map GT_Frame accepted)
     \<and> length (GQ_Inputs q) \<le> Capacity \<and> GQ_LastQueuedFrame q = last_frame accepted
     \<and> GQ_AppliedFrame q = last_frame applied \<and> GQ_Generation q = g"

lemma consecutive_snoc:
  assumes "consecutive fs" and "fs = [] \<or> f = last fs + 1"
  shows "consecutive (fs @ [f])"
proof (cases "fs = []")
  case True
  then show ?thesis
    by (auto simp: consecutive_def)
next
  case False
  obtain first where fs: "fs = map (\<lambda>k. first + word_of_nat k) [0..<length fs]"
    using assms(1) by (auto simp: consecutive_def)
  obtain n where n: "length fs = Suc n"
    using False by (cases fs) auto
  have "last fs = first + word_of_nat n"
    by (subst fs) (simp add: n)
  then have "f = first + word_of_nat (length fs)"
    using assms(2) False n by simp
  with fs show ?thesis
    by (auto simp: consecutive_def intro!: exI [of _ first])
qed

lemma queue_step_inv: "queue_inv g s \<Longrightarrow> queue_inv g (queue_step s c)"
proof (cases s)
  case (fields accepted applied q)
  assume inv: "queue_inv g s"
  show ?thesis
  proof (cases c)
    case (CallEnqueue i)
    then show ?thesis
      using inv fields consecutive_snoc [of "map GT_Frame accepted" "GT_Frame i"]
      by (auto simp: Enqueue_def last_frame_def last_map split: option.splits if_splits)
  next
    case CallConsume
    then show ?thesis
      using inv fields by (auto simp: QueueConsume_def last_frame_def split: list.splits)
  qed
qed

lemma queue_foldl_inv: "queue_inv g s \<Longrightarrow> queue_inv g (foldl queue_step s calls)"
  by (induction calls arbitrary: s) (simp_all add: queue_step_inv)

text \<open>C39: The game consumes the input pairs exactly as they were accepted. After a reset to
  generation \<open>g\<close> and any sequence of enqueues and consumes, the inputs handed to the game
  followed by those still queued are the accepted inputs in order (none lost, repeated or
  reordered), their frames are consecutive, at most 2048 wait, and the applied frame is that of
  the last input handed over.\<close>

theorem game_tick_inputs_in_order:
  "queue_inv g (foldl queue_step ([], [], QueueReset g q) calls)"
  by (rule queue_foldl_inv) (simp add: QueueReset_def consecutive_def last_frame_def)

section \<open>The boundary patch keeps the call and the literal\<close>

text \<open>The address a \<^verbatim>\<open>LDR r2, [pc, #imm]\<close> at \<open>pc\<close> reads.\<close>

definition ldr_literal :: "u32 \<Rightarrow> u32 \<Rightarrow> u32" where
  "ldr_literal pc word = pc + 8 + (word AND 0xFFF)"

definition patch_addresses :: "u32 list" where
  "patch_addresses = map (\<lambda>k. 0x02001B50 + 4 * word_of_nat k) [0..<97]"

text \<open>The one instruction that calls \<^verbatim>\<open>InputUpdate\<close> from an address.\<close>

definition call_word :: "u32 \<Rightarrow> u32" where
  "call_word pc = 0xEB000000 OR drop_bit 8 (push_bit 6 (0x02005230 - pc - 8))"

lemma callsInputUpdate_word: "callsInputUpdate pc w \<Longrightarrow> w = call_word pc"
proof -
  assume c: "callsInputUpdate pc w"
  let ?x = "push_bit 8 w"
  have x: "push_bit 6 (signed_drop_bit 6 ?x) = ?x"
    by (rule bit_word_eqI) (auto simp: bit_simps)
  have "signed_drop_bit 6 ?x = 0x02005230 - pc - 8"
    using c unfolding callsInputUpdate_def by (metis add.commute add_diff_cancel_right' diff_diff_eq)
  with x have "drop_bit 8 ?x = drop_bit 8 (push_bit 6 (0x02005230 - pc - 8))"
    by simp
  moreover have "w = (w AND 0xFF000000) OR drop_bit 8 ?x"
  proof (rule bit_word_eqI)
    fix n :: nat
    assume "n < LENGTH(32)"
    moreover have "bit (0xFF000000 :: u32) n = (24 \<le> n)" if "n < 32"
    proof -
      have e: "(0xFF000000 :: u32) = push_bit 24 (mask 8)"
        by (simp add: mask_eq_exp_minus_1)
      show ?thesis
        unfolding e bit_push_bit_iff bit_mask_iff using that by auto
    qed
    ultimately show "bit w n = bit (w AND 0xFF000000 OR drop_bit 8 ?x) n"
      by (auto simp: bit_simps)
  qed
  ultimately show ?thesis
    using c by (simp add: callsInputUpdate_def call_word_def)
qed

lemma call_word_moves:
  "list_all (\<lambda>a. callsInputUpdate (a + 12) (call_word a - 3)) patch_addresses"
  by code_simp

lemma patch_address_cases:
  assumes "(a :: u32) AND 3 = 0" "0x02001B50 \<le> a" "a \<le> 0x02001CD0"
  shows "a \<in> set patch_addresses"
proof -
  have "a AND mask 2 = 0"
    using assms(1) by (simp add: mask_eq_exp_minus_1)
  then have "take_bit 2 a = 0"
    by (simp add: take_bit_eq_mask)
  then have "take_bit 2 (unat a) = 0"
    by (metis unsigned_0 unsigned_take_bit_eq)
  then have "unat a mod 4 = 0"
    by (simp add: take_bit_eq_mod)
  then obtain m where m: "unat a = 4 * m"
    by auto
  have b: "0x02001B50 \<le> unat a" "unat a \<le> 0x02001CD0"
    using assms(2,3) by (simp_all add: word_le_nat_alt)
  let ?k = "m - 0x8006D4"
  have "a = word_of_nat (unat a)"
    by simp
  also have "\<dots> = word_of_nat (0x02001B50 + 4 * ?k)"
    using m b by simp
  also have "\<dots> = 0x02001B50 + 4 * word_of_nat ?k"
    by simp
  finally have "a = 0x02001B50 + 4 * word_of_nat ?k" .
  moreover have "?k < 97"
    using m b by linarith
  ultimately show ?thesis
    unfolding patch_addresses_def by auto
qed

lemma word_split_12: "(w :: u32) = (w AND 0xFFFFF000) OR (w AND 0xFFF)"
proof -
  have "(0xFFFFF000 OR 0xFFF :: u32) = - 1"
    by simp
  then show ?thesis
    by (metis and.right_neutral bit.conj_disj_distrib)
qed

lemma ldr_offset_add:
  assumes "(w :: u32) AND 0xFFFFF000 = 0xE59F2000" and "w AND 0xFFF \<le> 0xFFB"
  shows "(w + 4) AND 0xFFFFF000 = 0xE59F2000" and "(w + 4) AND 0xFFF = (w AND 0xFFF) + 4"
proof -
  let ?o = "w AND 0xFFF"
  have split: "a + b = a OR b" if "(a :: u32) AND b = 0" for a b
    using that by (rule disjunctive_add_eq_or)
  have "w = 0xE59F2000 OR ?o"
    using word_split_12 [of w] assms(1) by simp
  moreover have "0xE59F2000 AND ?o = 0"
    by (simp add: and.left_commute [of _ w])
  ultimately have w: "w = 0xE59F2000 + ?o"
    using split [of "0xE59F2000" ?o] by simp
  have le: "?o + 4 \<le> 0xFFF"
    using assms(2) by (simp add: word_le_nat_alt unat_word_ariths)
  have small: "x AND 0xFFF = x" if "x \<le> 0xFFF" for x :: u32
  proof -
    have "unat x < 2 ^ 12"
      using that by (simp add: word_le_nat_alt)
    then have "take_bit 12 x = x"
      by (simp add: word_unat_eq_iff unsigned_take_bit_eq take_bit_nat_eq_self)
    then show ?thesis
      by (simp add: take_bit_eq_mask mask_eq_exp_minus_1)
  qed
  let ?p = "?o + 4"
  have p: "?p AND 0xFFF = ?p"
    by (rule small [OF le])
  have hi: "?p AND 0xFFFFF000 = 0" "0xE59F2000 AND ?p = 0"
    using arg_cong [OF p, of "\<lambda>x. x AND 0xFFFFF000"] arg_cong [OF p, of "\<lambda>x. 0xE59F2000 AND x"]
    by (simp_all add: and.assoc and.left_commute [of _ ?p])
  have "w + 4 = 0xE59F2000 OR ?p"
    using w split [OF hi(2)] by (simp add: algebra_simps)
  then show "(w + 4) AND 0xFFFFF000 = 0xE59F2000" and "(w + 4) AND 0xFFF = ?p"
    using hi p by (simp_all add: bit.conj_disj_distrib2)
qed

lemma callsInputUpdate_moved:
  assumes "callsInputUpdate a w" and "a AND 3 = 0" "0x02001B50 \<le> a" "a \<le> 0x02001CD0"
  shows "callsInputUpdate (a + 12) (w - 3)"
  using call_word_moves patch_address_cases [OF assms(2-4)] callsInputUpdate_word [OF assms(1)]
  unfolding list_all_iff by blast

text \<open>The sequence in place after patching: load of the marker address, marker value 2, store,
  call of \<^verbatim>\<open>InputUpdate\<close> from the last slot.\<close>

fun boundary_installed :: "u32 \<Rightarrow> patch_words \<Rightarrow> bool" where
  "boundary_installed address (w0, w1, w2, w3) \<longleftrightarrow>
     w0 AND 0xFFFFF000 = 0xE59F2000 \<and> w1 = 0xE3A01002 \<and> w2 = 0xE5821000
     \<and> callsInputUpdate (address + 12) w3"

lemma patch_installed:
  "BuildGameTickInputBoundaryPatch address ws lit = Some ws' \<Longrightarrow> boundary_installed address ws'"
  by (cases ws) (auto simp: BuildGameTickInputBoundaryPatch_def ldr_offset_add callsInputUpdate_moved
      not_less split: if_splits)

text \<open>C40: Moving the input boundary keeps what the four instructions do. A successful patch
  leaves the begin marker store before a call that still reaches \<^verbatim>\<open>InputUpdate\<close> from its new
  address; the relocated load reads the same literal as before; and patching again changes
  nothing, so a restored patched checkpoint stays as it is.\<close>

theorem boundary_patch_correct:
  assumes "BuildGameTickInputBoundaryPatch address ws lit = Some ws'"
  shows "boundary_installed address ws'
    \<and> BuildGameTickInputBoundaryPatch address ws' lit = Some ws'
    \<and> (ws' = ws \<or> ldr_literal address (fst ws') = ldr_literal (address + 4) (fst (snd ws))
         \<and> callsInputUpdate address (fst ws))"
proof (intro conjI)
  show inst: "boundary_installed address ws'"
    by (rule patch_installed [OF assms])
  show "BuildGameTickInputBoundaryPatch address ws' lit = Some ws'"
    using assms inst by (cases ws; cases ws')
      (auto simp: BuildGameTickInputBoundaryPatch_def split: if_splits)
  show "ws' = ws \<or> ldr_literal address (fst ws') = ldr_literal (address + 4) (fst (snd ws))
      \<and> callsInputUpdate address (fst ws)"
    using assms by (cases ws) (auto simp: BuildGameTickInputBoundaryPatch_def ldr_literal_def
        ldr_offset_add(2) not_less split: if_splits)
qed

theorem boundary_patch_correct_witness:
  "boundary_installed 0x02001B50 (0xE59F2014, 0xE3A01002, 0xE5821000, 0xEB000DB3)
    \<and> ldr_literal 0x02001B50 0xE59F2014 = ldr_literal 0x02001B54 0xE59F2010"
proof -
  have "BuildGameTickInputBoundaryPatch 0x02001B50 (0xEB000DB6, 0xE59F2010, 0xE3A01003, 0xE5821000)
      0x04FFFA28 = Some (0xE59F2014, 0xE3A01002, 0xE5821000, 0xEB000DB3)"
    by code_simp
  from boundary_patch_correct [OF this] show ?thesis
    by simp
qed

end
