(* ===== verification/Netplay_Session.thy ===== *)
theory Netplay_Session
  imports Input_Delivery Input_Timeline Session_Handshake Packet_Classifier Transport Phase_Recovery
    Mvl_Runtime Packet_Bridge Netplay_Config
begin

text \<open>
  The network session of \<^verbatim>\<open>NsmbNetplaySession.cpp\<close>: the pump that services ENet, the handlers of
  received packets, the senders, and the recovery of a lost connection. The record \<open>Session\<close> holds
  what the \<^verbatim>\<open>Context\<close> refers to; \<open>NS_Wire\<close> lists, in order, the packets ENet accepted and the
  payloads handed to the game hooks. One call of an operation reads the clock once, and the
  results of ENet and of the random device come from \<open>NetEnv\<close>. \<^verbatim>\<open>FailRecovery\<close> ends the process and
  is the error side of a sum. Status files, trace and diagnostic output are left out.
\<close>

section \<open>State\<close>

datatype PacketFlag = Reliable | Unsequenced

datatype wire_event = Sent PacketFlag payload | ToPacketBridge payload u32 | ToGameState payload

record NetEnv =
  NE_Now :: time_point
  NE_PacketCreate :: "payload \<Rightarrow> handle option"
  NE_PeerSend :: "payload \<Rightarrow> int"
  NE_AddressSet :: bool
  NE_Connect :: "handle option"
  NE_Random :: "u32 \<times> u32"
  NE_Clock :: u32
  NE_PeerState :: "handle \<Rightarrow> int"
  NE_LastReceive :: "handle \<Rightarrow> u32"

record Session =
  NS_Bootstrap :: BootstrapConfig
  NS_Connection :: ConnectionConfig
  NS_PacketBridge :: PacketBridgeConfig
  NS_Input :: InputConfig
  NS_Rollback :: RollbackConfig
  NS_Harness :: HarnessConfig
  NS_Mvl :: MvlConfig
  NS_Inputs :: TimelineRuntime
  NS_PhaseRecovery :: PhaseRuntime
  NS_Transport :: TransportState
  NS_Handshake :: HandshakeRuntime
  NS_Delivery :: DeliveryRuntime
  NS_ConnectedOnce :: bool
  NS_ResumeValidated :: bool
  NS_SessionNonce :: u64
  NS_RemoteSessionNonce :: u64
  NS_RecoveryStarted :: "time_point option"
  NS_LastResumeSent :: time_point
  NS_LastConnectAttempt :: time_point
  NS_NetworkPumpThreadStarted :: bool
  NS_NetworkPumpStop :: bool
  NS_Enabled :: bool
  NS_Ready :: bool
  NS_TestEnabled :: bool
  NS_Host :: bool
  NS_Wire :: "wire_event list"

definition Session_init :: Session where
  "Session_init = \<lparr>NS_Bootstrap = BootstrapConfig_default, NS_Connection = ConnectionConfig_default,
     NS_PacketBridge = PacketBridgeConfig_default, NS_Input = InputConfig_default,
     NS_Rollback = RollbackConfig_default, NS_Harness = HarnessConfig_default,
     NS_Mvl = MvlConfig_default, NS_Inputs = TimelineRuntime_init, NS_PhaseRecovery = PhaseRuntime_init,
     NS_Transport = TransportState_init, NS_Handshake = HandshakeRuntime_init,
     NS_Delivery = DeliveryRuntime_init, NS_ConnectedOnce = False, NS_ResumeValidated = True,
     NS_SessionNonce = 0, NS_RemoteSessionNonce = 0, NS_RecoveryStarted = None, NS_LastResumeSent = 0,
     NS_LastConnectAttempt = 0, NS_NetworkPumpThreadStarted = False, NS_NetworkPumpStop = False,
     NS_Enabled = False, NS_Ready = False, NS_TestEnabled = False, NS_Host = False, NS_Wire = []\<rparr>"

datatype RecoveryFailure = DifferentPeerSession | DifferentInputEpoch | FutureInputAck
  | InputHistoryMissing | DeadlineExceeded | PredictionHorizonTimeout

definition milliseconds :: "int \<Rightarrow> int" where "milliseconds n = n * 1000000"

definition kPumpEventLimit :: nat where "kPumpEventLimit = 64"

section \<open>Sending through the transport\<close>

definition connected :: "Session \<Rightarrow> bool" where
  "connected s \<longleftrightarrow> IsConnected (NS_Transport s)"

definition transport_send :: "NetEnv \<Rightarrow> payload \<Rightarrow> PacketFlag \<Rightarrow> bool \<Rightarrow> Session \<Rightarrow> int \<times> Session" where
  "transport_send env data flags flush s =
     (let result = fst (Send (NE_PacketCreate env data) (NE_PeerSend env data) flush (NS_Transport s))
      in (result, if result = 0 then s\<lparr>NS_Wire := NS_Wire s @ [Sent flags data]\<rparr> else s))"

section \<open>Recovery\<close>

definition RecoveryEnabled :: "Session \<Rightarrow> bool" where
  "RecoveryEnabled s \<longleftrightarrow> IC_NetplayOnly (NS_Input s)
     \<and> (\<not> RB_Enabled (NS_Rollback s)
        \<or> RB_Backend (NS_Rollback s) = RomLoop \<and> 0 < RB_PredictionHorizonFrames (NS_Rollback s))"

definition BeginRecovery :: "NetEnv \<Rightarrow> Session \<Rightarrow> Session" where
  "BeginRecovery env s =
     (if \<not> RecoveryEnabled s \<or> NS_RecoveryStarted s \<noteq> None then s
      else s\<lparr>NS_RecoveryStarted := Some (NE_Now env)\<rparr>)"

definition CompleteRecovery :: "Session \<Rightarrow> Session" where
  "CompleteRecovery s =
     (if NS_RecoveryStarted s = None \<or> \<not> NS_ResumeValidated s \<or> \<not> connected s then s
      else s\<lparr>NS_RecoveryStarted := None\<rparr>)"

definition last_local_frame :: "Session \<Rightarrow> u32 option" where
  "last_local_frame s =
     (let inputs = TR_LocalInputs (NS_Inputs s)
      in if inputs = fmempty then None else Some (fMax (fmdom inputs)))"

definition resume_message :: "Session \<Rightarrow> Message" where
  "resume_message s = Message_default\<lparr>SM_Kind := Resume, SM_Generation := HR_Generation (NS_Handshake s),
     SM_SharedLogicalEpoch := HR_SharedLogicalEpoch (NS_Handshake s),
     SM_Value := (case TR_HighestContiguousRemoteFrame (NS_Inputs s) of None \<Rightarrow> 0 | Some f \<Rightarrow> f),
     SM_RawReadyFrame := (case last_local_frame s of None \<Rightarrow> 0 | Some f \<Rightarrow> f),
     SM_SemanticHash := NS_SessionNonce s\<rparr>"

definition SendResumeLocked :: "NetEnv \<Rightarrow> bool \<Rightarrow> Session \<Rightarrow> Session" where
  "SendResumeLocked env force s =
     (if \<not> RecoveryEnabled s \<or> \<not> connected s then s
      else if \<not> force \<and> NE_Now env - NS_LastResumeSent s < milliseconds 250 then s
      else
        let s1 = (if NS_SessionNonce s = 0
                  then s\<lparr>NS_SessionNonce :=
                      push_bit 32 (ucast (fst (NE_Random env))) OR ucast (snd (NE_Random env)) OR 1\<rparr>
                  else s);
            (_, s2) = transport_send env (Encode (resume_message s1))
                        (if force then Reliable else Unsequenced) True s1
        in s2\<lparr>NS_LastResumeSent := NE_Now env\<rparr>)"

text \<open>One iteration of the replay loop of \<^verbatim>\<open>ReceiveResumeLocked\<close>.\<close>

definition replay_input :: "NetEnv \<Rightarrow> u32 \<Rightarrow> Session \<Rightarrow> Session" where
  "replay_input env frame s =
     (case fmlookup (TR_LocalInputs (NS_Inputs s)) frame of
        None \<Rightarrow> s
      | Some input \<Rightarrow>
          let (_, s1) = transport_send env (EncodeInput \<lparr>FI_Generation = HR_Generation (NS_Handshake s),
                FI_Frame = frame, FI_Input = input\<rparr>) Reliable False s
          in s1\<lparr>NS_Inputs := (NS_Inputs s1)\<lparr>TR_LastSentInputFrame := frame\<rparr>\<rparr>)"

definition frames_after :: "u32 \<Rightarrow> Session \<Rightarrow> u32 list" where
  "frames_after frame s = filter (\<lambda>k. frame < k) (fm_keys (TR_LocalInputs (NS_Inputs s)))"

definition ReceiveResumeLocked :: "NetEnv \<Rightarrow> Message \<Rightarrow> Session \<Rightarrow> RecoveryFailure + Session" where
  "ReceiveResumeLocked env message s =
     (if \<not> RecoveryEnabled s \<or> SM_SemanticHash message = 0 then Inr s
      else if NS_RemoteSessionNonce s \<noteq> 0 \<and> NS_RemoteSessionNonce s \<noteq> SM_SemanticHash message
      then Inl DifferentPeerSession
      else
        let s1 = s\<lparr>NS_RemoteSessionNonce := SM_SemanticHash message\<rparr>
        in if SM_Generation message \<noteq> HR_Generation (NS_Handshake s1) then Inr s1
           else if \<not> NS_ResumeValidated s1 \<and> HR_LogicalEpochEstablished (NS_Handshake s1)
             \<and> SM_SharedLogicalEpoch message \<noteq> 0
             \<and> SM_SharedLogicalEpoch message \<noteq> HR_SharedLogicalEpoch (NS_Handshake s1)
           then Inl DifferentInputEpoch
           else
             let resuming = \<not> NS_ResumeValidated s1;
                 s2 = s1\<lparr>NS_ResumeValidated := True\<rparr>;
                 pending = frames_after (SM_Value message) s2
             in if \<not> resuming then Inr s2
                else if (case last_local_frame s2 of None \<Rightarrow> False | Some l \<Rightarrow> l < SM_Value message)
                then Inl FutureInputAck
                else if pending \<noteq> [] \<and> SM_Value message \<noteq> 0 \<and> hd pending \<noteq> SM_Value message + 1
                then Inl InputHistoryMissing
                else Inr (fold (replay_input env) pending s2))"

section \<open>Received inputs\<close>

definition SendInputPayloadNowLocked :: "NetEnv \<Rightarrow> PacketFlag \<Rightarrow> payload \<Rightarrow> Session \<Rightarrow> Session" where
  "SendInputPayloadNowLocked env flags data s =
     (if \<not> connected s then s else snd (transport_send env data flags True s))"

definition InputPacketFlags :: "Session \<Rightarrow> PacketFlag" where
  "InputPacketFlags s = (if IC_UseHistoryBundle (NS_Input s) then Unsequenced else Reliable)"

definition FlushDelayedInputsLocked :: "NetEnv \<Rightarrow> u32 \<Rightarrow> Session \<Rightarrow> Session" where
  "FlushDelayedInputsLocked env frame s =
     (if \<not> connected s \<or> DeliveryPendingCount (NS_Delivery s) = 0 then s
      else
        let progressFrame = SelectDelayProgressFrame (TR_LastSentInputFrame (NS_Inputs s)) frame 0;
            (payloads, delivery) = DrainDue progressFrame (NE_Now env) (NS_Delivery s)
        in fold (SendInputPayloadNowLocked env (InputPacketFlags s)) payloads
             (s\<lparr>NS_Delivery := delivery\<rparr>))"

text \<open>The trace markers of \<^verbatim>\<open>StoreRemoteInputLocked\<close>: the last receive gap and the last traced frame.\<close>

definition mark_receive_gap :: "Session \<Rightarrow> u32 \<Rightarrow> u32 \<Rightarrow> TimelineRuntime \<Rightarrow> TimelineRuntime" where
  "mark_receive_gap s previousLastReceived frame t =
     (if IC_HealthTrace (NS_Input s) \<and> previousLastReceived \<noteq> 0 \<and> previousLastReceived + 1 < frame
         \<and> TR_LastInputHealthReceiveGapFrame t \<noteq> frame
      then t\<lparr>TR_LastInputHealthReceiveGapFrame := frame\<rparr> else t)"

definition trace_interval_hit :: "Session \<Rightarrow> u32 \<Rightarrow> bool" where
  "trace_interval_hit s frame \<longleftrightarrow> BO_InputTraceInterval (NS_Bootstrap s) \<le> 1
     \<or> frame mod u32_of_int (BO_InputTraceInterval (NS_Bootstrap s)) = 0"

definition mark_traced_receive :: "Session \<Rightarrow> u32 \<Rightarrow> TimelineRuntime \<Rightarrow> TimelineRuntime" where
  "mark_traced_receive s frame t =
     (if (BO_InputTraceEnabled (NS_Bootstrap s) \<or> IC_NetplayTrace (NS_Input s))
         \<and> frame \<noteq> TR_LastTracedReceivedInputFrame t \<and> trace_interval_hit s frame
      then t\<lparr>TR_LastTracedReceivedInputFrame := frame\<rparr> else t)"

definition StoreRemoteInputLocked :: "u32 \<Rightarrow> InputState \<Rightarrow> u32 \<Rightarrow> Session \<Rightarrow> Session" where
  "StoreRemoteInputLocked frame receivedInput localFrame s =
     (if IC_NetplayOnly (NS_Input s) \<and> CC_SharedLogicalEpoch (NS_Connection s) \<noteq> 0
         \<and> frame < CC_SharedLogicalEpoch (NS_Connection s)
      then
        if IC_NetplayTrace (NS_Input s) \<and> TR_LastTracedReceivedInputFrame (NS_Inputs s) \<noteq> frame
        then s\<lparr>NS_Inputs := (NS_Inputs s)\<lparr>TR_LastTracedReceivedInputFrame := frame\<rparr>\<rparr>
        else s
      else
        let (stored, t) = StoreRemote frame receivedInput
              (if localFrame = 0 then None else Some localFrame)
              (RB_Enabled (NS_Rollback s)) 0 (NS_Inputs s)
        in s\<lparr>NS_Inputs := mark_traced_receive s frame
               (mark_receive_gap s (RS_PreviousLastReceived stored) frame t)\<rparr>)"

definition IsCurrentGeneration :: "u32 \<Rightarrow> Session \<Rightarrow> bool" where
  "IsCurrentGeneration generation s \<longleftrightarrow> generation = HR_Generation (NS_Handshake s)"

definition observe_remote :: "NetEnv \<Rightarrow> FramedInput \<Rightarrow> Session \<Rightarrow> Session" where
  "observe_remote env packet s = s\<lparr>NS_PhaseRecovery :=
     ObserveRemoteInput (FI_Generation packet) (FI_Frame packet) (NE_Now env) (NS_PhaseRecovery s)\<rparr>"

definition HandleReceivedInputLocked :: "NetEnv \<Rightarrow> payload \<Rightarrow> u32 \<Rightarrow> Session \<Rightarrow> Session" where
  "HandleReceivedInputLocked env data localFrame s =
     (case DecodeInput (Some data) of
        None \<Rightarrow> s
      | Some packet \<Rightarrow>
          if \<not> IsCurrentGeneration (FI_Generation packet) s then s
          else observe_remote env packet
                 (StoreRemoteInputLocked (FI_Frame packet) (FI_Input packet) localFrame s))"

text \<open>\<^verbatim>\<open>std::max_element\<close> on the frame: the first entry with the largest frame.\<close>

definition newest_entry :: "FramedInput list \<Rightarrow> FramedInput" where
  "newest_entry entries =
     foldl (\<lambda>best e. if FI_Frame best < FI_Frame e then e else best) (hd entries) (tl entries)"

definition record_ack :: "NetEnv \<Rightarrow> u32 option \<Rightarrow> Session \<Rightarrow> Session" where
  "record_ack env ackFrame s =
     (case ackFrame of
        None \<Rightarrow> s
      | Some ack \<Rightarrow>
          let (update, delivery) =
                RecordRemoteAck ack (TR_LastSentInputFrame (NS_Inputs s)) 0 (NS_Delivery s);
              s1 = s\<lparr>NS_Delivery := delivery\<rparr>
          in if update = Advanced
             then s1\<lparr>NS_PhaseRecovery := PhaseRecordRemoteAck ack (NE_Now env) (NS_PhaseRecovery s1)\<rparr>
             else s1)"

definition store_entries :: "FramedInput list \<Rightarrow> u32 \<Rightarrow> Session \<Rightarrow> Session" where
  "store_entries entries localFrame s =
     foldl (\<lambda>s e. StoreRemoteInputLocked (FI_Frame e) (FI_Input e) localFrame s) s entries"

definition HandleReceivedInputBundleLocked :: "NetEnv \<Rightarrow> payload \<Rightarrow> u32 \<Rightarrow> Session \<Rightarrow> Session" where
  "HandleReceivedInputBundleLocked env data localFrame s =
     (case DecodeInputBundle (Some data) of
        None \<Rightarrow> s
      | Some (entries, ackFrame) \<Rightarrow>
          if entries \<noteq> [] \<and> \<not> IsCurrentGeneration (FI_Generation (hd entries)) s then s
          else
            let s1 = record_ack env ackFrame s;
                s2 = store_entries entries localFrame s1
            in if entries \<noteq> [] then observe_remote env (newest_entry entries) s2 else s2)"

section \<open>Received session messages\<close>

definition receive_match_seed :: "u32 \<Rightarrow> Session \<Rightarrow> Session" where
  "receive_match_seed seed s =
     (let mvl = (NS_Mvl s)\<lparr>MC_MatchSeed := seed, MC_MatchSeedConfigured := True\<rparr>
      in s\<lparr>NS_Mvl :=
           (if HA_StateLoadDir (NS_Harness s) = [] \<and> \<not> BC_Only (NS_PacketBridge s)
            then mvl\<lparr>MC_NetRandom := (MC_NetRandom mvl)\<lparr>NR_Value := seed, NR_Enabled := True,
                        NR_Auto := True\<rparr>\<rparr>
            else mvl)\<rparr>)"

definition HandleReceivedSessionLocked :: "NetEnv \<Rightarrow> payload \<Rightarrow> Session \<Rightarrow> RecoveryFailure + Session" where
  "HandleReceivedSessionLocked env data s =
     (case Decode (Some data) of
        None \<Rightarrow> Inr s
      | Some message \<Rightarrow>
          if SM_Kind message = Resume then ReceiveResumeLocked env message s
          else if \<not> NS_ResumeValidated s then Inr s
          else if SM_Kind message = MatchSeed then Inr (receive_match_seed (SM_Value message) s)
          else if \<not> IsCurrentGeneration (SM_Generation message) s then Inr s
          else
            let s1 = (if \<not> NS_Host s
                      then s\<lparr>NS_Connection := (NS_Connection s)
                               \<lparr>CC_SharedLogicalEpoch := SM_SharedLogicalEpoch message\<rparr>\<rparr>
                      else s)
            in Inr (s1\<lparr>NS_Handshake := receive_start_ready (NS_Host s1) message (NS_Handshake s1)\<rparr>))"

section \<open>The pump\<close>

datatype pump_event = PeerConnect handle | PacketReceive handle payload
  | PeerDisconnect handle | NoEvent

definition service :: "NetEnv \<Rightarrow> int \<Rightarrow> bool \<Rightarrow> Session \<Rightarrow> Session" where
  "service env result disconnect s = s\<lparr>NS_Transport :=
     fst (snd (Service (NE_Clock env) (NE_PeerState env) (NE_LastReceive env) result disconnect
       (NS_Transport s)))\<rparr>"

definition on_connect :: "NetEnv \<Rightarrow> handle \<Rightarrow> Session \<Rightarrow> Session" where
  "on_connect env peer s =
     (let s1 = s\<lparr>NS_Transport := fst (HandleConnected peer (RecoveryEnabled s) (NS_Transport s))\<rparr>;
          s2 = (if NS_ConnectedOnce s1 \<and> RecoveryEnabled s1
                then (BeginRecovery env s1)\<lparr>NS_ResumeValidated := False\<rparr>
                else s1\<lparr>NS_Handshake := OnPeerConnected (NS_Handshake s1)\<rparr>)
      in SendResumeLocked env True (s2\<lparr>NS_ConnectedOnce := True\<rparr>))"

definition on_disconnect :: "NetEnv \<Rightarrow> handle \<Rightarrow> Session \<Rightarrow> Session" where
  "on_disconnect env peer s =
     (let s1 = s\<lparr>NS_Transport := HandleDisconnected peer (NS_Transport s)\<rparr>
      in if NS_ConnectedOnce s1 \<and> RecoveryEnabled s1
         then BeginRecovery env (s1\<lparr>NS_ResumeValidated := False\<rparr>) else s1)"

definition on_receive ::
  "NetEnv \<Rightarrow> handle \<Rightarrow> payload \<Rightarrow> u32 \<Rightarrow> Session \<Rightarrow> RecoveryFailure + Session" where
  "on_receive env peer data localFrame s =
     (let packetClass = Classify (length data) known_sizes
      in if \<not> IsPeer (Some peer) (NS_Transport s) \<or> \<not> NS_ResumeValidated s \<and> packetClass \<noteq> PcSession
         then Inr s
         else case packetClass of
           PcInput \<Rightarrow> Inr (HandleReceivedInputLocked env data localFrame s)
         | PcInputBundleCandidate \<Rightarrow> Inr (HandleReceivedInputBundleLocked env data localFrame s)
         | PcSession \<Rightarrow> HandleReceivedSessionLocked env data s
         | PcNSMLPacket \<Rightarrow> Inr (s\<lparr>NS_Wire := NS_Wire s @ [ToPacketBridge data localFrame]\<rparr>)
         | PcGameState \<Rightarrow> Inr (s\<lparr>NS_Wire := NS_Wire s @ [ToGameState data]\<rparr>)
         | PcUnknown \<Rightarrow> Inr s)"

fun pump_event_step :: "NetEnv \<Rightarrow> u32 \<Rightarrow> pump_event \<Rightarrow> Session \<Rightarrow> RecoveryFailure + Session" where
  "pump_event_step env localFrame (PeerConnect peer) s = Inr (on_connect env peer s)"
| "pump_event_step env localFrame (PacketReceive peer data) s = on_receive env peer data localFrame s"
| "pump_event_step env localFrame (PeerDisconnect peer) s = Inr (on_disconnect env peer s)"
| "pump_event_step env localFrame NoEvent s = Inr s"

text \<open>The loop over the events ENet reports; when they run out, \<^verbatim>\<open>Service\<close> returns 0.\<close>

fun pump_loop :: "NetEnv \<Rightarrow> u32 \<Rightarrow> nat \<Rightarrow> pump_event list \<Rightarrow> Session \<Rightarrow> RecoveryFailure + Session" where
  "pump_loop env localFrame 0 events s = Inr s"
| "pump_loop env localFrame (Suc n) [] s = Inr (service env 0 False s)"
| "pump_loop env localFrame (Suc n) (e # events) s =
     (case pump_event_step env localFrame e
        (service env 1 (case e of PeerDisconnect _ \<Rightarrow> True | _ \<Rightarrow> False) s) of
        Inl failure \<Rightarrow> Inl failure
      | Inr s1 \<Rightarrow> pump_loop env localFrame n events s1)"

definition retry_connection :: "NetEnv \<Rightarrow> Session \<Rightarrow> Session" where
  "retry_connection env s =
     (if RecoveryEnabled s \<and> \<not> connected s \<and> milliseconds 500 \<le> NE_Now env - NS_LastConnectAttempt s
      then s\<lparr>NS_Transport := fst (RetryConnection (NE_AddressSet env) (NE_Connect env) (NS_Transport s)),
             NS_LastConnectAttempt := NE_Now env\<rparr>
      else s)"

definition PumpLocked :: "NetEnv \<Rightarrow> pump_event list \<Rightarrow> u32 \<Rightarrow> Session \<Rightarrow> RecoveryFailure + Session" where
  "PumpLocked env events localFrame s =
     (if \<not> HasHost (NS_Transport s) then Inr s
      else if (case NS_RecoveryStarted s of None \<Rightarrow> False
               | Some started \<Rightarrow> milliseconds 60000 \<le> NE_Now env - started)
      then Inl DeadlineExceeded
      else
        case pump_loop env localFrame kPumpEventLimit events
               (FlushDelayedInputsLocked env localFrame (retry_connection env s)) of
          Inl failure \<Rightarrow> Inl failure
        | Inr s1 \<Rightarrow> Inr (SendResumeLocked env False s1))"

definition FlushPendingInputsLocked :: "NetEnv \<Rightarrow> Session \<Rightarrow> Session" where
  "FlushPendingInputsLocked env s =
     (if \<not> connected s \<or> DeliveryPendingCount (NS_Delivery s) = 0 then s
      else
        let (payloads, delivery) = DrainAll (NS_Delivery s)
        in fold (SendInputPayloadNowLocked env (InputPacketFlags s)) payloads
             (s\<lparr>NS_Delivery := delivery\<rparr>))"

section \<open>Senders\<close>

definition SendMatchSeedLocked :: "NetEnv \<Rightarrow> Session \<Rightarrow> Session" where
  "SendMatchSeedLocked env s =
     (if \<not> connected s \<or> \<not> NS_Host s \<or> \<not> MC_MatchSeedConfigured (NS_Mvl s)
         \<or> HR_MatchSeedSent (NS_Handshake s)
      then s
      else
        let (result, s1) = transport_send env
              (Encode (Message_default\<lparr>SM_Kind := MatchSeed, SM_Value := MC_MatchSeed (NS_Mvl s)\<rparr>))
              Reliable True s
        in if result = SendUnavailable then s1
           else s1\<lparr>NS_Handshake := MarkMatchSeedSent (NS_Handshake s1)\<rparr>)"

definition SendStartReadyLocked :: "NetEnv \<Rightarrow> u32 \<Rightarrow> bool \<Rightarrow> Session \<Rightarrow> Session" where
  "SendStartReadyLocked env frame force s =
     (if \<not> connected s \<or> \<not> CanSendStartReady force (NS_Handshake s)
         \<or> \<not> HR_LogicalEpochEstablished (NS_Handshake s)
      then s
      else
        case HR_LocalReady (NS_Handshake s) of
          None \<Rightarrow> s
        | Some ready \<Rightarrow>
            let message = ready\<lparr>SM_Generation := HR_Generation (NS_Handshake s),
                  SM_RawReadyFrame := frame,
                  SM_SharedLogicalEpoch := HR_SharedLogicalEpoch (NS_Handshake s)\<rparr>;
                (result, s1) = transport_send env (Encode message) Reliable True s
            in if result = SendUnavailable then s1
               else s1\<lparr>NS_Handshake := MarkStartReadySent (NE_Now env) (NS_Handshake s1)\<rparr>)"

definition resend_state :: "NetEnv \<Rightarrow> bool \<Rightarrow> Session \<Rightarrow> StartReadyResendState" where
  "resend_state env allowBeforeAccepted s =
     \<lparr>RR_HasPeer = connected s, RR_InputNetplayOnly = IC_NetplayOnly (NS_Input s),
      RR_AllowBeforeAccepted = allowBeforeAccepted,
      RR_WaitedForPeerAtStart = HR_WaitedForPeerAtStart (NS_Handshake s),
      RR_StartReadySent = HR_StartReadySent (NS_Handshake s),
      RR_HasLocalReadyFrame = (HR_LocalReadyFrame (NS_Handshake s) \<noteq> None),
      RR_HasReceivedInputFrame = (TR_LastReceivedInputFrame (NS_Inputs s) \<noteq> 0),
      RR_LastReceivedInputFrame = TR_LastReceivedInputFrame (NS_Inputs s),
      RR_NetplayStartFrame = CC_SharedLogicalEpoch (NS_Connection s),
      RR_InputDelay = CC_Delay (NS_Connection s),
      RR_SendCount = HR_StartReadySendCount (NS_Handshake s),
      RR_ElapsedSinceLastSendMs =
        (NE_Now env - HR_LastStartReadySentAt (NS_Handshake s)) sdiv milliseconds 1\<rparr>"

definition MaybeResendStartReadyLocked :: "NetEnv \<Rightarrow> bool \<Rightarrow> Session \<Rightarrow> Session" where
  "MaybeResendStartReadyLocked env allowBeforeAccepted s =
     (if \<not> ShouldResendStartReady (resend_state env allowBeforeAccepted s) then s
      else SendStartReadyLocked env
             (case HR_LocalReadyFrame (NS_Handshake s) of None \<Rightarrow> 0 | Some f \<Rightarrow> f) True s)"

definition send_config :: "InputConfig \<Rightarrow> SendConfig" where
  "send_config c = \<lparr>SC_UseHistoryBundle = IC_UseHistoryBundle c, SC_BundleHistory = IC_BundleHistory c,
     SC_DropModulo = IC_DropModulo c, SC_DropOffset = IC_DropOffset c,
     SC_DropStartFrame = IC_DropStartFrame c, SC_DropEndFrame = IC_DropEndFrame c,
     SC_DelayFrames = IC_SendDelayFrames c, SC_JitterFrames = IC_SendJitterFrames c,
     SC_DelayStartFrame = IC_SendDelayStartFrame c, SC_DelayEndFrame = IC_SendDelayEndFrame c\<rparr>"

definition mark_send_gap :: "Session \<Rightarrow> u32 \<Rightarrow> u32 \<Rightarrow> TimelineRuntime \<Rightarrow> TimelineRuntime" where
  "mark_send_gap s previousLastSent frame t =
     (if IC_HealthTrace (NS_Input s) \<and> previousLastSent \<noteq> 0 \<and> previousLastSent + 1 < frame
         \<and> TR_LastInputHealthSendGapFrame t \<noteq> frame
      then t\<lparr>TR_LastInputHealthSendGapFrame := frame\<rparr> else t)"

definition mark_traced_send :: "u32 \<Rightarrow> Session \<Rightarrow> Session" where
  "mark_traced_send frame s =
     (if (BO_InputTraceEnabled (NS_Bootstrap s) \<or> IC_NetplayTrace (NS_Input s))
         \<and> frame \<noteq> TR_LastTracedSentInputFrame (NS_Inputs s) \<and> trace_interval_hit s frame
      then s\<lparr>NS_Inputs := (NS_Inputs s)\<lparr>TR_LastTracedSentInputFrame := frame\<rparr>\<rparr> else s)"

definition SendInputLocked :: "NetEnv \<Rightarrow> u32 \<Rightarrow> InputState \<Rightarrow> Session \<Rightarrow> Session" where
  "SendInputLocked env frame input s =
     (if \<not> connected s \<or> \<not> NS_ResumeValidated s then s
      else
        let s1 = MaybeResendStartReadyLocked env False (SendMatchSeedLocked env s);
            previousLastSent = TR_LastSentInputFrame (NS_Inputs s1);
            s2 = s1\<lparr>NS_Inputs := mark_send_gap s1 previousLastSent frame
                       ((NS_Inputs s1)\<lparr>TR_LastSentInputFrame := frame\<rparr>),
                    NS_PhaseRecovery := RecordLocalInput (HR_Generation (NS_Handshake s1)) frame
                       (NE_Now env) (NS_PhaseRecovery s1)\<rparr>;
            (prepared, delivery) = Prepare (HR_Generation (NS_Handshake s2)) frame input
              (send_config (NS_Input s2)) (TR_LocalInputs (NS_Inputs s2)) (NE_Now env)
              (TR_HighestContiguousRemoteFrame (NS_Inputs s2)) (NS_Delivery s2);
            s3 = s2\<lparr>NS_Delivery := delivery\<rparr>
        in if SD_Drop (PS_Decision prepared) then s3
           else
             mark_traced_send frame
               (if PS_ImmediatePayload prepared \<noteq> []
                then SendInputPayloadNowLocked env (InputPacketFlags s3) (PS_ImmediatePayload prepared) s3
                else s3))"

definition MaybeResendLatestInputForFrameLeadLocked :: "NetEnv \<Rightarrow> Session \<Rightarrow> Session" where
  "MaybeResendLatestInputForFrameLeadLocked env s =
     (if \<not> connected s \<or> \<not> IC_NetplayOnly (NS_Input s) \<or> TR_LastSentInputFrame (NS_Inputs s) = 0 then s
      else if 0 < TR_InputFrameLeadResendCount (NS_Inputs s)
        \<and> NE_Now env - TR_LastInputFrameLeadResendAt (NS_Inputs s) < milliseconds 50
      then s
      else
        case fmlookup (TR_LocalInputs (NS_Inputs s)) (TR_LastSentInputFrame (NS_Inputs s)) of
          None \<Rightarrow> s
        | Some input \<Rightarrow>
            let data = BuildPayload (HR_Generation (NS_Handshake s)) (TR_LastSentInputFrame (NS_Inputs s))
                  input (IC_BundleHistory (NS_Input s)) (TR_LocalInputs (NS_Inputs s))
                  (TR_HighestContiguousRemoteFrame (NS_Inputs s)) (NS_Delivery s);
                s1 = SendInputPayloadNowLocked env (InputPacketFlags s) data s
            in s1\<lparr>NS_Inputs := (NS_Inputs s1)\<lparr>TR_LastInputFrameLeadResendAt := NE_Now env,
                    TR_InputFrameLeadResendCount := TR_InputFrameLeadResendCount (NS_Inputs s1) + 1\<rparr>\<rparr>)"

section \<open>Reading the timeline\<close>

definition CurrentInputLead :: "u32 \<Rightarrow> Session \<Rightarrow> int" where
  "CurrentInputLead sendFrame s = Lead sendFrame 0 (NS_Inputs s)"

definition PrimeInputEpochLocked :: "Session \<Rightarrow> Session" where
  "PrimeInputEpochLocked s =
     (let epoch = CC_SharedLogicalEpoch (NS_Connection s)
      in if \<not> IC_NetplayOnly (NS_Input s) \<or> epoch = 0 \<or> InputEpochPrimedFor epoch (NS_Handshake s) then s
         else s\<lparr>NS_Inputs := PrimeEpoch epoch (u32_of_int (max 0 (CC_Delay (NS_Connection s))))
                  InputState_default 0 (NS_Inputs s),
                NS_Handshake := MarkInputEpochPrimed epoch (NS_Handshake s)\<rparr>)"

definition IsPastTestInputRange :: "u32 \<Rightarrow> Session \<Rightarrow> bool" where
  "IsPastTestInputRange targetFrame s \<longleftrightarrow> NS_TestEnabled s \<and> BO_TestFrames (NS_Bootstrap s) \<noteq> 0
     \<and> BO_TestFrames (NS_Bootstrap s) \<le> targetFrame"

definition TryGetRemoteInputLocked :: "u32 \<Rightarrow> Session \<Rightarrow> InputState option \<times> Session" where
  "TryGetRemoteInputLocked targetFrame s =
     (if \<not> NS_ResumeValidated s \<or> RecoveryEnabled s \<and> \<not> connected s then (None, s)
      else
        case fmlookup (TR_RemoteInputs (NS_Inputs s)) targetFrame of
          None \<Rightarrow> (None, s)
        | Some input \<Rightarrow> (Some input, CompleteRecovery s))"

definition LogicalFrame :: "u32 \<Rightarrow> Session \<Rightarrow> u32" where
  "LogicalFrame rawFrame s = LogicalInputFrame (IC_NetplayOnly (NS_Input s))
     (HR_LocalReadyFrame (NS_Handshake s)) (CC_SharedLogicalEpoch (NS_Connection s)) rawFrame"

end
