(* ===== verification/Peer_Network.thy ===== *)
theory Peer_Network
  imports Netplay_Session
begin

text \<open>
  Two sessions connected by a network that may lose, repeat, delay and reorder packets. Each peer
  is a \<open>Session\<close> with a history: every local input it ever recorded, by generation and frame. The
  step relation runs the operations of \<^verbatim>\<open>NsmbNetplaySession.cpp\<close> on either side, in any order; a pump
  may receive any packets the other side has sent so far. The invariant says that what is on the
  wire, queued or stored came from the history of the peer that sent it.
\<close>

section \<open>Authentic payloads\<close>

type_synonym history = "(u32 \<times> u32, InputState) fmap"

definition in_history :: "history \<Rightarrow> FramedInput \<Rightarrow> bool" where
  "in_history h e \<longleftrightarrow> fmlookup h (FI_Generation e, FI_Frame e) = Some (FI_Input e)"

definition authentic :: "history \<Rightarrow> payload \<Rightarrow> bool" where
  "authentic h data \<longleftrightarrow>
     (\<forall>e. DecodeInput (Some data) = Some e \<longrightarrow> in_history h e)
     \<and> (\<forall>es ack. DecodeInputBundle (Some data) = Some (es, ack) \<longrightarrow> (\<forall>e \<in> set es. in_history h e))"

lemma DecodeInput_class:
  assumes "DecodeInput (Some bs) = Some e"
  shows "Classify (length bs) known_sizes = PcInput"
proof -
  have "length bs = kInputPacketSize"
    using assms input_packet.dec_length [of bs] by auto
  then show ?thesis
    by (simp add: Classify_def size_consts)
qed

lemma authentic_session [simp]: "authentic h (Encode m)"
proof -
  have c: "Classify (length (Encode m)) known_sizes = PcSession"
    using session_wire.dec_length [of "Encode m"] by (simp add: Decode_Encode Classify_def size_consts)
  have "DecodeInput (Some (Encode m)) = None"
    using DecodeInput_class [of "Encode m"] c by (cases "DecodeInput (Some (Encode m))") auto
  moreover have "DecodeInputBundle (Some (Encode m)) = None"
    using DecodeInputBundle_class [of "Encode m"] c by (cases "DecodeInputBundle (Some (Encode m))") auto
  ultimately show ?thesis
    by (simp add: authentic_def)
qed

lemma authentic_input: "in_history h e \<Longrightarrow> authentic h (EncodeInput e)"
proof -
  assume e: "in_history h e"
  have c: "Classify (length (EncodeInput e)) known_sizes = PcInput"
    by (rule DecodeInput_class) (rule DecodeInput_EncodeInput)
  have "DecodeInputBundle (Some (EncodeInput e)) = None"
    using DecodeInputBundle_class [of "EncodeInput e"] c
    by (cases "DecodeInputBundle (Some (EncodeInput e))") auto
  with e show ?thesis
    by (simp add: authentic_def DecodeInput_EncodeInput)
qed

lemma authentic_bundle:
  assumes "valid_bundle es" and "\<forall>e \<in> set es. in_history h e"
  shows "authentic h (EncodeInputBundle es ack)"
proof -
  let ?data = "EncodeInputBundle es ack"
  have d: "DecodeInputBundle (Some ?data) = Some (es, if ack = Some kNoAckFrame then None else ack)"
    by (rule DecodeInputBundle_EncodeInputBundle [OF assms(1)])
  have "DecodeInput (Some ?data) = None"
    using DecodeInputBundle_class [OF d] DecodeInput_class [of ?data]
    by (cases "DecodeInput (Some ?data)") auto
  with d assms(2) show ?thesis
    by (simp add: authentic_def)
qed

lemma authentic_Nil [simp]: "authentic h []"
  by (simp add: authentic_def DecodeInput_def DecodeInputBundle_def kInputPacketSize_def
      kInputBundleHeaderSize_def)

definition history_le :: "history \<Rightarrow> history \<Rightarrow> bool" where
  "history_le h h' \<longleftrightarrow> (\<forall>k v. fmlookup h k = Some v \<longrightarrow> fmlookup h' k = Some v)"

lemma authentic_mono: "history_le h h' \<Longrightarrow> authentic h data \<Longrightarrow> authentic h' data"
  by (auto simp: authentic_def in_history_def history_le_def)

section \<open>What a peer may hold\<close>

definition local_inputs :: "Session \<Rightarrow> InputState frame_map" where
  "local_inputs s = TR_LocalInputs (NS_Inputs s)"

definition remote_inputs :: "Session \<Rightarrow> InputState frame_map" where
  "remote_inputs s = TR_RemoteInputs (NS_Inputs s)"

definition generation :: "Session \<Rightarrow> u32" where
  "generation s = HR_Generation (NS_Handshake s)"

definition gap_free :: "u32 set \<Rightarrow> bool" where
  "gap_free A \<longleftrightarrow> (\<forall>a \<in> A. \<forall>c \<in> A. \<forall>b. a \<le> b \<and> b \<le> c \<longrightarrow> b \<in> A)"

definition sender_ok :: "history \<Rightarrow> Session \<Rightarrow> bool" where
  "sender_ok h s \<longleftrightarrow>
     (\<forall>f i. fmlookup (local_inputs s) f = Some i \<longrightarrow> fmlookup h (generation s, f) = Some i)
     \<and> gap_free (fmdom' (local_inputs s))
     \<and> (\<forall>p \<in> set (DR_Pending (NS_Delivery s)). authentic h (PP_Payload p))
     \<and> (\<forall>flags data. Sent flags data \<in> set (NS_Wire s) \<longrightarrow> authentic h data)"

text \<open>\<open>primed\<close> are the frames this side filled with the neutral input when it primed the epoch.\<close>

definition receiver_ok :: "history \<Rightarrow> u32 set \<Rightarrow> Session \<Rightarrow> bool" where
  "receiver_ok h primed s \<longleftrightarrow>
     (\<forall>f i. fmlookup (remote_inputs s) f = Some i \<longrightarrow>
        fmlookup h (generation s, f) = Some i \<or> i = InputState_default \<and> f \<in> primed)"

named_theorems view_simps \<open>what an operation leaves of the local, remote and generation view\<close>

lemma sender_ok_cong:
  "local_inputs s' = local_inputs s \<Longrightarrow> generation s' = generation s \<Longrightarrow>
   DR_Pending (NS_Delivery s') = DR_Pending (NS_Delivery s) \<Longrightarrow> NS_Wire s' = NS_Wire s \<Longrightarrow>
   sender_ok h s' = sender_ok h s"
  by (simp add: sender_ok_def)

lemma receiver_ok_cong:
  "remote_inputs s' = remote_inputs s \<Longrightarrow> generation s' = generation s \<Longrightarrow>
   receiver_ok h P s' = receiver_ok h P s"
  by (simp add: receiver_ok_def)

lemma transport_send_cases:
  "snd (transport_send env data flags b s) = s
   \<or> snd (transport_send env data flags b s) = s\<lparr>NS_Wire := NS_Wire s @ [Sent flags data]\<rparr>"
  by (simp add: transport_send_def Let_def)

lemma transport_send_fields [simp]:
  "NS_Inputs (snd (transport_send env data flags b s)) = NS_Inputs s"
  "NS_Handshake (snd (transport_send env data flags b s)) = NS_Handshake s"
  "NS_Delivery (snd (transport_send env data flags b s)) = NS_Delivery s"
  "NS_Input (snd (transport_send env data flags b s)) = NS_Input s"
  "NS_Transport (snd (transport_send env data flags b s)) = NS_Transport s"
  by (simp_all add: transport_send_def Let_def)

lemma transport_send_ok:
  assumes "sender_ok h s" and "authentic h data"
  shows "sender_ok h (snd (transport_send env data flags b s))"
  using transport_send_cases [of env data flags b s] assms
  by (auto simp: sender_ok_def local_inputs_def generation_def)

section \<open>The operations keep both invariants\<close>

text \<open>Everything an operation may not touch without care, as one tuple.\<close>

definition peer_view :: "Session \<Rightarrow> InputState frame_map \<times> InputState frame_map \<times> u32 \<times> PendingPayload list \<times> wire_event list" where
  "peer_view s = (local_inputs s, remote_inputs s, generation s, DR_Pending (NS_Delivery s), NS_Wire s)"

definition peer_ok :: "history \<Rightarrow> history \<Rightarrow> u32 set \<Rightarrow> Session \<Rightarrow> bool" where
  "peer_ok own other primed s \<longleftrightarrow> sender_ok own s \<and> receiver_ok other primed s"

lemma peer_ok_view:
  "peer_ok own other P s \<Longrightarrow> peer_view s' = peer_view s \<Longrightarrow> peer_ok own other P s'"
  by (simp add: peer_ok_def peer_view_def sender_ok_def receiver_ok_def)

lemmas view_defs = peer_view_def local_inputs_def remote_inputs_def generation_def

lemma transport_send_peer:
  assumes "peer_ok own other P s" and "authentic own data"
  shows "peer_ok own other P (snd (transport_send env data flags b s))"
  using assms transport_send_ok receiver_ok_cong [of "snd (transport_send env data flags b s)" s]
  by (auto simp: peer_ok_def remote_inputs_def generation_def)

lemma SendInputPayloadNowLocked_peer:
  "peer_ok own other P s \<Longrightarrow> authentic own data \<Longrightarrow>
   peer_ok own other P (SendInputPayloadNowLocked env flags data s)"
  by (simp add: SendInputPayloadNowLocked_def transport_send_peer)

lemma send_all_peer:
  "peer_ok own other P s \<Longrightarrow> \<forall>data \<in> set ps. authentic own data \<Longrightarrow>
   peer_ok own other P (fold (SendInputPayloadNowLocked env flags) ps s)"
  by (induction ps arbitrary: s) (simp_all add: SendInputPayloadNowLocked_peer)

lemma BeginRecovery_view [simp]: "peer_view (BeginRecovery env s) = peer_view s"
  by (simp add: BeginRecovery_def view_defs)

lemma SendResumeLocked_peer:
  assumes "peer_ok own other P s"
  shows "peer_ok own other P (SendResumeLocked env force s)"
proof -
  let ?s1 = "if NS_SessionNonce s = 0
      then s\<lparr>NS_SessionNonce :=
        push_bit 32 (ucast (fst (NE_Random env))) OR ucast (snd (NE_Random env)) OR 1\<rparr> else s"
  let ?s2 = "snd (transport_send env (Encode (resume_message ?s1)) (if force then Reliable else Unsequenced) True ?s1)"
  have "peer_view ?s1 = peer_view s"
    by (simp add: view_defs)
  then have "peer_ok own other P ?s2"
    by (intro transport_send_peer peer_ok_view [OF assms] authentic_session)
  moreover have "peer_view (?s2\<lparr>NS_LastResumeSent := NE_Now env\<rparr>) = peer_view ?s2"
    by (simp add: view_defs)
  ultimately have "peer_ok own other P (?s2\<lparr>NS_LastResumeSent := NE_Now env\<rparr>)"
    by (rule peer_ok_view)
  then show ?thesis
    unfolding SendResumeLocked_def Let_def using assms by (simp add: case_prod_beta)
qed

lemma replay_input_peer:
  assumes "peer_ok own other P s"
  shows "peer_ok own other P (replay_input env frame s)"
proof (cases "fmlookup (TR_LocalInputs (NS_Inputs s)) frame")
  case None
  then show ?thesis
    using assms by (simp add: replay_input_def)
next
  case (Some input)
  let ?e = "\<lparr>FI_Generation = HR_Generation (NS_Handshake s), FI_Frame = frame, FI_Input = input\<rparr>"
  let ?s1 = "snd (transport_send env (EncodeInput ?e) Reliable False s)"
  have "in_history own ?e"
    using assms Some by (simp add: peer_ok_def sender_ok_def in_history_def local_inputs_def generation_def)
  then have "peer_ok own other P ?s1"
    using assms by (intro transport_send_peer authentic_input)
  moreover have "peer_view (?s1\<lparr>NS_Inputs := (NS_Inputs ?s1)\<lparr>TR_LastSentInputFrame := frame\<rparr>\<rparr>) = peer_view ?s1"
    by (simp add: view_defs)
  ultimately have "peer_ok own other P (?s1\<lparr>NS_Inputs := (NS_Inputs ?s1)\<lparr>TR_LastSentInputFrame := frame\<rparr>\<rparr>)"
    by (rule peer_ok_view)
  then show ?thesis
    using Some by (simp add: replay_input_def case_prod_beta)
qed

lemma replay_all_peer:
  "peer_ok own other P s \<Longrightarrow> peer_ok own other P (fold (replay_input env) fs s)"
  by (induction fs arbitrary: s) (simp_all add: replay_input_peer)

lemma ReceiveResumeLocked_peer:
  assumes "peer_ok own other P s" and "ReceiveResumeLocked env m s = Inr s'"
  shows "peer_ok own other P s'"
proof -
  let ?s1 = "s\<lparr>NS_RemoteSessionNonce := SM_SemanticHash m\<rparr>"
  let ?s2 = "?s1\<lparr>NS_ResumeValidated := True\<rparr>"
  have v: "peer_ok own other P ?s1" "peer_ok own other P ?s2"
    by (rule peer_ok_view [OF assms(1)], simp add: view_defs)+
  have "s' \<in> {s, ?s1, ?s2, fold (replay_input env) (frames_after (SM_Value m) ?s2) ?s2}"
    using assms(2) unfolding ReceiveResumeLocked_def Let_def by (auto split: if_splits)
  then show ?thesis
    using v assms(1) replay_all_peer [OF v(2)] by auto
qed

lemma drained_authentic:
  assumes "sender_ok h s" and "DrainDue f now (NS_Delivery s) = (ps, d)"
  shows "\<forall>data \<in> set ps. authentic h data" and "set (DR_Pending d) \<subseteq> set (DR_Pending (NS_Delivery s))"
  using assms by (auto simp: DrainDue_def delivery_queue.drain_filter sender_ok_def)

lemma set_delivery_peer:
  assumes "peer_ok own other P s" and "set (DR_Pending d) \<subseteq> set (DR_Pending (NS_Delivery s))"
  shows "peer_ok own other P (s\<lparr>NS_Delivery := d\<rparr>)"
  using assms by (auto simp: peer_ok_def sender_ok_def receiver_ok_def local_inputs_def
      remote_inputs_def generation_def)

lemma FlushDelayedInputsLocked_peer:
  assumes "peer_ok own other P s"
  shows "peer_ok own other P (FlushDelayedInputsLocked env frame s)"
proof -
  obtain ps d where d: "DrainDue (SelectDelayProgressFrame (TR_LastSentInputFrame (NS_Inputs s)) frame 0)
      (NE_Now env) (NS_Delivery s) = (ps, d)"
    by fastforce
  have "sender_ok own s"
    using assms by (simp add: peer_ok_def)
  from drained_authentic [OF this d] show ?thesis
    using assms d by (auto simp: FlushDelayedInputsLocked_def intro!: send_all_peer set_delivery_peer)
qed

lemma FlushPendingInputsLocked_peer:
  assumes "peer_ok own other P s"
  shows "peer_ok own other P (FlushPendingInputsLocked env s)"
proof -
  have "\<forall>data \<in> set (map PP_Payload (DR_Pending (NS_Delivery s))). authentic own data"
    using assms by (simp add: peer_ok_def sender_ok_def)
  then show ?thesis
    using assms unfolding FlushPendingInputsLocked_def DrainAll_def Let_def
    by (auto intro!: send_all_peer set_delivery_peer)
qed

lemma StoreRemoteInputLocked_view:
  "local_inputs (StoreRemoteInputLocked f i l s) = local_inputs s"
  "generation (StoreRemoteInputLocked f i l s) = generation s"
  "NS_Delivery (StoreRemoteInputLocked f i l s) = NS_Delivery s"
  "NS_Wire (StoreRemoteInputLocked f i l s) = NS_Wire s"
  "remote_inputs (StoreRemoteInputLocked f i l s) = remote_inputs s
   \<or> remote_inputs (StoreRemoteInputLocked f i l s) = fmupd f i (remote_inputs s)"
proof -
  obtain stored t where st: "StoreRemote f i (if l = 0 then None else Some l) (RB_Enabled (NS_Rollback s)) 0
      (NS_Inputs s) = (stored, t)"
    by fastforce
  have t: "t = snd (StoreRemote f i (if l = 0 then None else Some l) (RB_Enabled (NS_Rollback s)) 0 (NS_Inputs s))"
    by (simp add: st)
  have l: "TR_LocalInputs t = TR_LocalInputs (NS_Inputs s)"
    unfolding t by (simp add: StoreRemote_def Let_def split: prod.splits)
  have r: "TR_RemoteInputs t = fmupd f i (TR_RemoteInputs (NS_Inputs s))"
    unfolding t by simp
  show "local_inputs (StoreRemoteInputLocked f i l s) = local_inputs s"
    "generation (StoreRemoteInputLocked f i l s) = generation s"
    "NS_Delivery (StoreRemoteInputLocked f i l s) = NS_Delivery s"
    "NS_Wire (StoreRemoteInputLocked f i l s) = NS_Wire s"
    "remote_inputs (StoreRemoteInputLocked f i l s) = remote_inputs s
   \<or> remote_inputs (StoreRemoteInputLocked f i l s) = fmupd f i (remote_inputs s)"
    by (simp_all add: StoreRemoteInputLocked_def st l r mark_traced_receive_def mark_receive_gap_def
        local_inputs_def remote_inputs_def generation_def)
qed

lemma StoreRemoteInputLocked_receiver:
  assumes r: "receiver_ok other P s" and i: "fmlookup other (generation s, f) = Some i"
  shows "receiver_ok other P (StoreRemoteInputLocked f i l s)"
  unfolding receiver_ok_def StoreRemoteInputLocked_view(2)
proof (intro allI impI)
  fix f' i'
  assume "fmlookup (remote_inputs (StoreRemoteInputLocked f i l s)) f' = Some i'"
  then have "fmlookup (remote_inputs s) f' = Some i' \<or> f' = f \<and> i' = i"
    using StoreRemoteInputLocked_view(5) [of f i l s] by (auto split: if_splits)
  then show "fmlookup other (generation s, f') = Some i' \<or> i' = InputState_default \<and> f' \<in> P"
    using r i unfolding receiver_ok_def by blast
qed

lemma StoreRemoteInputLocked_peer:
  "peer_ok own other P s \<Longrightarrow> fmlookup other (generation s, f) = Some i \<Longrightarrow>
   peer_ok own other P (StoreRemoteInputLocked f i l s)"
  unfolding peer_ok_def
  using sender_ok_cong [of "StoreRemoteInputLocked f i l s" s own]
  by (simp add: StoreRemoteInputLocked_view(1-4) StoreRemoteInputLocked_receiver)

lemma observe_remote_peer: "peer_ok own other P s \<Longrightarrow> peer_ok own other P (observe_remote env e s)"
  by (erule peer_ok_view) (simp add: observe_remote_def view_defs)

lemma HandleReceivedInputLocked_peer:
  assumes "peer_ok own other P s" and "authentic other data"
  shows "peer_ok own other P (HandleReceivedInputLocked env data l s)"
proof (cases "DecodeInput (Some data)")
  case None
  then show ?thesis
    using assms by (simp add: HandleReceivedInputLocked_def)
next
  case (Some e)
  have "in_history other e"
    using assms(2) Some by (simp add: authentic_def)
  then show ?thesis
    using assms(1) Some by (auto simp: HandleReceivedInputLocked_def IsCurrentGeneration_def in_history_def
        generation_def intro!: observe_remote_peer StoreRemoteInputLocked_peer)
qed

lemma record_ack_peer: "peer_ok own other P s \<Longrightarrow> peer_ok own other P (record_ack env ack s)"
  by (erule peer_ok_view)
    (auto simp: record_ack_def view_defs RecordRemoteAck_def Let_def split: option.splits)

lemma record_ack_generation [simp]: "generation (record_ack env ack s) = generation s"
  by (auto simp: record_ack_def generation_def Let_def split: option.splits prod.splits)

lemma store_entries_peer:
  assumes "peer_ok own other P s"
    and "\<forall>e \<in> set es. fmlookup other (generation s, FI_Frame e) = Some (FI_Input e)"
  shows "peer_ok own other P (store_entries es l s)"
  using assms
proof (induction es arbitrary: s)
  case Nil
  then show ?case
    by (simp add: store_entries_def)
next
  case (Cons e es)
  then have "peer_ok own other P (store_entries es l (StoreRemoteInputLocked (FI_Frame e) (FI_Input e) l s))"
    by (intro Cons.IH StoreRemoteInputLocked_peer) (simp_all add: StoreRemoteInputLocked_view)
  then show ?case
    by (simp add: store_entries_def)
qed

lemma HandleReceivedInputBundleLocked_peer:
  assumes "peer_ok own other P s" and "authentic other data"
  shows "peer_ok own other P (HandleReceivedInputBundleLocked env data l s)"
proof (cases "DecodeInputBundle (Some data)")
  case None
  then show ?thesis
    using assms by (simp add: HandleReceivedInputBundleLocked_def)
next
  case (Some r)
  then obtain es ack where d: "DecodeInputBundle (Some data) = Some (es, ack)"
    by (cases r) auto
  then have v: "valid_bundle es"
    using DecodeInputBundle_SomeD by blast
  have h: "\<forall>e \<in> set es. in_history other e"
    using assms(2) d by (auto simp: authentic_def)
  show ?thesis
  proof (cases "IsCurrentGeneration (FI_Generation (hd es)) s")
    case True
    have "\<forall>e \<in> set es. FI_Generation e = generation s"
      using True v by (auto simp: IsCurrentGeneration_def generation_def valid_bundle_def list_all_iff)
    then have "\<forall>e \<in> set es. fmlookup other (generation (record_ack env ack s), FI_Frame e) = Some (FI_Input e)"
      using h by (auto simp: in_history_def)
    then have "peer_ok own other P (store_entries es l (record_ack env ack s))"
      by (intro store_entries_peer record_ack_peer assms(1))
    moreover have "es \<noteq> []"
      using v by (auto simp: valid_bundle_def)
    ultimately show ?thesis
      using True d by (simp add: HandleReceivedInputBundleLocked_def observe_remote_peer Let_def)
  next
    case False
    have "es \<noteq> []"
      using v by (auto simp: valid_bundle_def)
    with False d assms(1) show ?thesis
      by (simp add: HandleReceivedInputBundleLocked_def)
  qed
qed

lemma receive_start_ready_generation [simp]:
  "HR_Generation (receive_start_ready host m h) = HR_Generation h"
  by (auto simp: receive_start_ready_def Let_def AdoptHostLogicalEpoch_def ReceiveRemoteReady_def
      MarkStartReadyValidation_def split: option.splits)

lemma HandleReceivedSessionLocked_peer:
  assumes "peer_ok own other P s" and "HandleReceivedSessionLocked env data s = Inr s'"
  shows "peer_ok own other P s'"
proof (cases "Decode (Some data)")
  case None
  then show ?thesis
    using assms by (simp add: HandleReceivedSessionLocked_def)
next
  case (Some m)
  show ?thesis
  proof (cases "SM_Kind m = Resume")
    case True
    then show ?thesis
      using assms Some ReceiveResumeLocked_peer by (auto simp: HandleReceivedSessionLocked_def)
  next
    case False
    then have "peer_view s' = peer_view s"
      using assms(2) Some by (auto simp: HandleReceivedSessionLocked_def receive_match_seed_def view_defs
          Let_def split: if_splits)
    then show ?thesis
      by (rule peer_ok_view [OF assms(1)])
  qed
qed

section \<open>The pump keeps both invariants\<close>

lemma service_peer: "peer_ok own other P s \<Longrightarrow> peer_ok own other P (service env r d s)"
  by (erule peer_ok_view) (simp add: service_def view_defs)

lemma retry_connection_peer: "peer_ok own other P s \<Longrightarrow> peer_ok own other P (retry_connection env s)"
  by (erule peer_ok_view) (simp add: retry_connection_def view_defs)

lemma on_connect_peer:
  assumes "peer_ok own other P s"
  shows "peer_ok own other P (on_connect env peer s)"
  unfolding on_connect_def Let_def
  by (intro SendResumeLocked_peer peer_ok_view [OF assms])
    (simp add: view_defs BeginRecovery_def OnPeerConnected_def)

lemma on_disconnect_peer:
  assumes "peer_ok own other P s"
  shows "peer_ok own other P (on_disconnect env peer s)"
  unfolding on_disconnect_def Let_def
  by (intro peer_ok_view [OF assms]) (simp add: view_defs BeginRecovery_def)

lemma hook_peer:
  assumes "peer_ok own other P s" and "\<forall>flags data. e \<noteq> Sent flags data"
  shows "peer_ok own other P (s\<lparr>NS_Wire := NS_Wire s @ [e]\<rparr>)"
  using assms by (auto simp: peer_ok_def sender_ok_def receiver_ok_def local_inputs_def
      remote_inputs_def generation_def)

lemma on_receive_peer:
  assumes "peer_ok own other P s" and "authentic other data" and "on_receive env peer data l s = Inr s'"
  shows "peer_ok own other P s'"
proof (cases "Classify (length data) known_sizes")
  case PcSession
  then show ?thesis
    using assms HandleReceivedSessionLocked_peer by (auto simp: on_receive_def split: if_splits)
qed (use assms in \<open>auto simp: on_receive_def split: if_splits
      intro: HandleReceivedInputLocked_peer HandleReceivedInputBundleLocked_peer hook_peer\<close>)

text \<open>The received packets of an event list are authentic.\<close>

fun event_authentic :: "history \<Rightarrow> pump_event \<Rightarrow> bool" where
  "event_authentic h (PacketReceive peer data) = authentic h data"
| "event_authentic h _ = True"

lemma pump_event_step_peer:
  "peer_ok own other P s \<Longrightarrow> event_authentic other e \<Longrightarrow> pump_event_step env l e s = Inr s' \<Longrightarrow>
   peer_ok own other P s'"
  by (cases e) (auto intro: on_connect_peer on_disconnect_peer on_receive_peer)

lemma pump_loop_peer:
  "peer_ok own other P s \<Longrightarrow> \<forall>e \<in> set es. event_authentic other e \<Longrightarrow>
   pump_loop env l n es s = Inr s' \<Longrightarrow> peer_ok own other P s'"
proof (induction env l n es s rule: pump_loop.induct)
  case (3 env l n e es s)
  let ?s0 = "service env 1 (case e of PeerDisconnect _ \<Rightarrow> True | _ \<Rightarrow> False) s"
  obtain s1 where s1: "pump_event_step env l e ?s0 = Inr s1" "pump_loop env l n es s1 = Inr s'"
    using "3.prems"(3) by (auto split: sum.splits)
  have "event_authentic other e" and rest: "\<forall>e \<in> set es. event_authentic other e"
    using "3.prems"(2) by simp_all
  then have "peer_ok own other P s1"
    using pump_event_step_peer [OF service_peer [OF "3.prems"(1)] _ s1(1)] by blast
  then show ?case
    using "3.IH" [OF s1(1)] rest s1(2) by blast
qed (auto simp: service_peer)

lemma PumpLocked_peer:
  assumes "peer_ok own other P s" and "\<forall>e \<in> set es. event_authentic other e"
    and "PumpLocked env es l s = Inr s'"
  shows "peer_ok own other P s'"
proof (cases "HasHost (NS_Transport s)")
  case False
  then show ?thesis
    using assms by (simp add: PumpLocked_def)
next
  case True
  let ?s0 = "FlushDelayedInputsLocked env l (retry_connection env s)"
  have "peer_ok own other P ?s0"
    by (intro FlushDelayedInputsLocked_peer retry_connection_peer assms(1))
  moreover obtain s1 where "pump_loop env l kPumpEventLimit es ?s0 = Inr s1"
      "s' = SendResumeLocked env False s1"
    using assms(3) True by (auto simp: PumpLocked_def split: if_splits sum.splits)
  ultimately show ?thesis
    using pump_loop_peer assms(2) SendResumeLocked_peer by blast
qed

section \<open>The senders keep both invariants\<close>

lemma SendMatchSeedLocked_peer:
  assumes "peer_ok own other P s"
  shows "peer_ok own other P (SendMatchSeedLocked env s)"
proof -
  let ?s1 = "snd (transport_send env (Encode (Message_default\<lparr>SM_Kind := MatchSeed,
      SM_Value := MC_MatchSeed (NS_Mvl s)\<rparr>)) Reliable True s)"
  have s1: "peer_ok own other P ?s1"
    by (intro transport_send_peer assms authentic_session)
  have "peer_ok own other P (?s1\<lparr>NS_Handshake := MarkMatchSeedSent (NS_Handshake ?s1)\<rparr>)"
    by (rule peer_ok_view [OF s1]) (simp add: view_defs MarkMatchSeedSent_def)
  with s1 assms show ?thesis
    by (simp add: SendMatchSeedLocked_def Let_def case_prod_beta)
qed

lemma SendStartReadyLocked_peer:
  assumes "peer_ok own other P s"
  shows "peer_ok own other P (SendStartReadyLocked env frame force s)"
proof (cases "HR_LocalReady (NS_Handshake s)")
  case None
  then show ?thesis
    using assms by (simp add: SendStartReadyLocked_def)
next
  case (Some ready)
  let ?m = "ready\<lparr>SM_Generation := HR_Generation (NS_Handshake s), SM_RawReadyFrame := frame,
      SM_SharedLogicalEpoch := HR_SharedLogicalEpoch (NS_Handshake s)\<rparr>"
  let ?s1 = "snd (transport_send env (Encode ?m) Reliable True s)"
  have s1: "peer_ok own other P ?s1"
    by (intro transport_send_peer assms authentic_session)
  have "peer_ok own other P (?s1\<lparr>NS_Handshake := MarkStartReadySent (NE_Now env) (NS_Handshake ?s1)\<rparr>)"
    by (rule peer_ok_view [OF s1]) (simp add: view_defs MarkStartReadySent_def)
  with s1 assms Some show ?thesis
    by (simp add: SendStartReadyLocked_def Let_def case_prod_beta)
qed

lemma MaybeResendStartReadyLocked_peer:
  "peer_ok own other P s \<Longrightarrow> peer_ok own other P (MaybeResendStartReadyLocked env allow s)"
  by (simp add: MaybeResendStartReadyLocked_def SendStartReadyLocked_peer)

lemma unacked_first_ge:
  "fm_first loc = Some b \<Longrightarrow> b \<le> frame \<Longrightarrow> b \<le> unacked_first frame loc ack"
  by (auto simp: unacked_first_def Let_def le_max_iff_disj)

lemma SelectUnackedInputs_frames:
  assumes "e \<in> set (SelectUnackedInputs g frame cur (int kMaxInputBundleEntries) loc ack)"
  shows "FI_Generation e = g \<and> unacked_first frame loc ack \<le> FI_Frame e \<and> FI_Frame e \<le> frame
    \<and> e = bundle_entry_for g cur loc (FI_Frame e)"
proof -
  let ?first = "unacked_first frame loc ack"
  obtain k where k: "k < min kMaxInputBundleEntries (Suc (unat frame - unat ?first))"
      "e = bundle_entry_for g cur loc (?first + word_of_nat k)"
    using assms unfolding SelectUnackedInputs_eq Let_def by auto
  have le: "?first \<le> frame"
    by (rule unacked_first_le)
  have "unat (?first + word_of_nat k) = unat ?first + k"
    using k(1) by (intro unat_add_offset [OF le]) simp
  then show ?thesis
    using k le by (auto simp: word_le_nat_alt)
qed

lemma BuildPayload_authentic:
  assumes ok: "sender_ok h s" and fr: "fmlookup (local_inputs s) frame = Some input"
  shows "authentic h (BuildPayload (generation s) frame input history (local_inputs s) ack r)"
proof -
  have stored: "in_history h (bundle_entry_for (generation s) input (local_inputs s) f)"
    if "f \<in> fmdom' (local_inputs s)" for f
    using that ok by (auto simp: in_history_def sender_ok_def bundle_entry_for_def fmlookup_dom'_iff)
  have "in_history h e"
    if e: "e \<in> set (SelectUnackedInputs (generation s) frame input (int kMaxInputBundleEntries)
      (local_inputs s) (DR_RemoteAckFrame r))" for e
  proof -
    obtain b where b: "fm_first (local_inputs s) = Some b"
      using fr by (cases "fm_first (local_inputs s)") auto
    then have bin: "b \<in> fmdom' (local_inputs s)" "b \<le> frame"
      using fr by (auto simp: fm_first_Some fmdom'I)
    note fs = SelectUnackedInputs_frames [OF e]
    have "b \<le> FI_Frame e"
      using unacked_first_ge [OF b bin(2), of "DR_RemoteAckFrame r"] fs by (meson order_trans)
    then have "FI_Frame e \<in> fmdom' (local_inputs s)"
      using ok bin(1) fr fs unfolding sender_ok_def gap_free_def by (meson fmdom'I)
    then show ?thesis
      using stored fs by metis
  qed
  moreover have "in_history h \<lparr>FI_Generation = generation s, FI_Frame = frame, FI_Input = input\<rparr>"
    using ok fr by (simp add: in_history_def sender_ok_def)
  ultimately show ?thesis
    unfolding BuildPayload_def
    by (auto intro!: authentic_input authentic_bundle valid_bundle_SelectUnackedInputs)
qed

lemma Prepare_authentic:
  assumes ok: "sender_ok h s" and fr: "fmlookup (local_inputs s) frame = Some input"
    and p: "Prepare (generation s) frame input c (local_inputs s) now ack (NS_Delivery s) = (prepared, d)"
  shows "authentic h (PS_ImmediatePayload prepared)"
    and "\<forall>q \<in> set (DR_Pending d). authentic h (PP_Payload q)"
proof -
  have "in_history h \<lparr>FI_Generation = generation s, FI_Frame = frame, FI_Input = input\<rparr>"
    using ok fr by (simp add: in_history_def sender_ok_def)
  then have a: "authentic h (EncodeInput \<lparr>FI_Generation = generation s, FI_Frame = frame, FI_Input = input\<rparr>)"
    by (rule authentic_input)
  have pend: "\<forall>q \<in> set (DR_Pending (NS_Delivery s)). authentic h (PP_Payload q)"
    using ok by (simp add: sender_ok_def)
  note simps = Prepare_def Let_def
  show "authentic h (PS_ImmediatePayload prepared)"
    using p a BuildPayload_authentic [OF ok fr] by (auto simp: simps split: if_splits)
  show "\<forall>q \<in> set (DR_Pending d). authentic h (PP_Payload q)"
    using p a pend BuildPayload_authentic [OF ok fr] by (auto simp: simps split: if_splits)
qed

lemma set_delivery_authentic:
  assumes "peer_ok own other P s" and "\<forall>q \<in> set (DR_Pending d). authentic own (PP_Payload q)"
  shows "peer_ok own other P (s\<lparr>NS_Delivery := d\<rparr>)"
  using assms by (simp add: peer_ok_def sender_ok_def receiver_ok_def local_inputs_def
      remote_inputs_def generation_def)

lemma send_prefix_inputs:
  "NS_Inputs (SendMatchSeedLocked env s) = NS_Inputs s"
  "generation (SendMatchSeedLocked env s) = generation s"
  "NS_Inputs (SendStartReadyLocked env f b s) = NS_Inputs s"
  "generation (SendStartReadyLocked env f b s) = generation s"
  "NS_Inputs (MaybeResendStartReadyLocked env b s) = NS_Inputs s"
  "generation (MaybeResendStartReadyLocked env b s) = generation s"
proof -
  show "NS_Inputs (SendMatchSeedLocked env s) = NS_Inputs s"
    "generation (SendMatchSeedLocked env s) = generation s"
    by (simp_all add: SendMatchSeedLocked_def Let_def case_prod_beta generation_def MarkMatchSeedSent_def)
  show r: "NS_Inputs (SendStartReadyLocked env f b s) = NS_Inputs s"
    "generation (SendStartReadyLocked env f b s) = generation s" for f b
    by (simp_all add: SendStartReadyLocked_def Let_def case_prod_beta generation_def MarkStartReadySent_def
        split: option.splits)
  show "NS_Inputs (MaybeResendStartReadyLocked env b s) = NS_Inputs s"
    "generation (MaybeResendStartReadyLocked env b s) = generation s"
    by (simp_all add: MaybeResendStartReadyLocked_def r)
qed

lemma SendInputLocked_peer:
  assumes ok: "peer_ok own other P s" and fr: "fmlookup (local_inputs s) frame = Some input"
  shows "peer_ok own other P (SendInputLocked env frame input s)"
proof -
  let ?s1 = "MaybeResendStartReadyLocked env False (SendMatchSeedLocked env s)"
  let ?s2 = "?s1\<lparr>NS_Inputs := mark_send_gap ?s1 (TR_LastSentInputFrame (NS_Inputs ?s1)) frame
                       ((NS_Inputs ?s1)\<lparr>TR_LastSentInputFrame := frame\<rparr>),
                    NS_PhaseRecovery := RecordLocalInput (HR_Generation (NS_Handshake ?s1)) frame
                       (NE_Now env) (NS_PhaseRecovery ?s1)\<rparr>"
  have s1: "peer_ok own other P ?s1"
    by (intro MaybeResendStartReadyLocked_peer SendMatchSeedLocked_peer ok)
  have s2: "peer_ok own other P ?s2"
    by (rule peer_ok_view [OF s1]) (simp add: view_defs mark_send_gap_def)
  have fr2: "fmlookup (local_inputs ?s2) frame = Some input"
    using fr by (simp add: local_inputs_def mark_send_gap_def send_prefix_inputs)
  obtain prepared d where pr: "Prepare (generation ?s2) frame input (send_config (NS_Input ?s2))
      (local_inputs ?s2) (NE_Now env) (TR_HighestContiguousRemoteFrame (NS_Inputs ?s2)) (NS_Delivery ?s2)
      = (prepared, d)"
    by fastforce
  let ?s3 = "?s2\<lparr>NS_Delivery := d\<rparr>"
  have snd2: "sender_ok own ?s2"
    using s2 by (simp add: peer_ok_def)
  have s3: "peer_ok own other P ?s3"
    by (rule set_delivery_authentic [OF s2 Prepare_authentic(2) [OF snd2 fr2 pr]])
  have s4: "peer_ok own other P (SendInputPayloadNowLocked env (InputPacketFlags ?s3)
      (PS_ImmediatePayload prepared) ?s3)"
    by (rule SendInputPayloadNowLocked_peer [OF s3 Prepare_authentic(1) [OF snd2 fr2 pr]])
  have m: "peer_ok own other P (mark_traced_send frame t)" if "peer_ok own other P t" for t
    using that by (rule peer_ok_view) (simp add: mark_traced_send_def view_defs)
  have "SendInputLocked env frame input s \<in> {s, ?s3, mark_traced_send frame ?s3,
      mark_traced_send frame (SendInputPayloadNowLocked env (InputPacketFlags ?s3)
        (PS_ImmediatePayload prepared) ?s3)}"
    using pr unfolding SendInputLocked_def Let_def generation_def local_inputs_def by simp
  then show ?thesis
    by (elim insertE emptyE) (simp_all only: ok s3 m [OF s3] m [OF s4])
qed

lemma MaybeResendLatest_peer:
  assumes ok: "peer_ok own other P s"
  shows "peer_ok own other P (MaybeResendLatestInputForFrameLeadLocked env s)"
proof (cases "fmlookup (TR_LocalInputs (NS_Inputs s)) (TR_LastSentInputFrame (NS_Inputs s))")
  case None
  then show ?thesis
    using ok by (simp add: MaybeResendLatestInputForFrameLeadLocked_def)
next
  case (Some input)
  let ?data = "BuildPayload (generation s) (TR_LastSentInputFrame (NS_Inputs s)) input
      (IC_BundleHistory (NS_Input s)) (local_inputs s) (TR_HighestContiguousRemoteFrame (NS_Inputs s))
      (NS_Delivery s)"
  let ?s1 = "SendInputPayloadNowLocked env (InputPacketFlags s) ?data s"
  let ?s2 = "?s1\<lparr>NS_Inputs := (NS_Inputs ?s1)\<lparr>TR_LastInputFrameLeadResendAt := NE_Now env,
                    TR_InputFrameLeadResendCount := TR_InputFrameLeadResendCount (NS_Inputs ?s1) + 1\<rparr>\<rparr>"
  have "authentic own ?data"
    using ok Some by (intro BuildPayload_authentic) (simp_all add: peer_ok_def local_inputs_def)
  then have s1: "peer_ok own other P ?s1"
    by (rule SendInputPayloadNowLocked_peer [OF ok])
  have s2: "peer_ok own other P ?s2"
    by (rule peer_ok_view [OF s1]) (simp add: view_defs)
  have "MaybeResendLatestInputForFrameLeadLocked env s \<in> {s, ?s2}"
    using Some by (simp add: MaybeResendLatestInputForFrameLeadLocked_def Let_def generation_def local_inputs_def)
  then show ?thesis
    by (elim insertE emptyE) (simp_all only: ok s2)
qed

section \<open>The network\<close>

record Peer =
  PN_Session :: Session
  PN_History :: history
  PN_Primed :: "u32 set"

text \<open>
  The calls of the frame loop (\<^verbatim>\<open>WritePacketBridgeJitScratchIfNeeded\<close>): the local input of a frame
  is stored and sent.
\<close>

definition store_local :: "u32 \<Rightarrow> InputState \<Rightarrow> Session \<Rightarrow> Session" where
  "store_local frame input s =
     s\<lparr>NS_Inputs := (NS_Inputs s)\<lparr>TR_LocalInputs := fmupd frame input (TR_LocalInputs (NS_Inputs s))\<rparr>\<rparr>"

definition record_local :: "NetEnv \<Rightarrow> u32 \<Rightarrow> InputState \<Rightarrow> Peer \<Rightarrow> Peer" where
  "record_local env frame input p =
     p\<lparr>PN_Session := SendInputLocked env frame input (store_local frame input (PN_Session p)),
       PN_History := fmupd (generation (PN_Session p), frame) input (PN_History p)\<rparr>"

text \<open>
  The session part of \<^verbatim>\<open>ResetSyncStateForRestart\<close>: queues and timeline are cleared and the next
  generation begins.
\<close>

definition reset_session :: "u32 \<Rightarrow> Session \<Rightarrow> Session" where
  "reset_session next_generation s =
     (let epoch = (if NS_Host s then CC_StartFrame (NS_Connection s) else 0)
      in s\<lparr>NS_Delivery := DeliveryClear (NS_Delivery s),
           NS_Inputs := TimelineResetForRestart 0 (NS_Inputs s),
           NS_Connection := (NS_Connection s)\<lparr>CC_SharedLogicalEpoch := epoch\<rparr>,
           NS_Handshake := BeginGeneration next_generation epoch (NS_Host s) (NS_Handshake s)\<rparr>)"

definition restart_peer :: "u32 \<Rightarrow> Peer \<Rightarrow> Peer" where
  "restart_peer next_generation p =
     p\<lparr>PN_Session := reset_session next_generation (PN_Session p), PN_Primed := {}\<rparr>"

text \<open>The frames an epoch priming fills, and the history after it.\<close>

definition prime_window :: "Session \<Rightarrow> u32 set" where
  "prime_window s =
     (let epoch = CC_SharedLogicalEpoch (NS_Connection s);
          delay = u32_of_int (max 0 (CC_Delay (NS_Connection s)))
      in {f. epoch \<le> f \<and> f < epoch + delay})"

definition prune_session :: "u32 \<Rightarrow> Session \<Rightarrow> Session" where
  "prune_session keepFrom s = s\<lparr>NS_Inputs := PruneHistory keepFrom (NS_Inputs s)\<rparr>"

text \<open>What the network may hand to a pump: packets the other side has sent, any number of times.\<close>

fun deliverable :: "wire_event list \<Rightarrow> pump_event \<Rightarrow> bool" where
  "deliverable wire (PacketReceive peer data) \<longleftrightarrow> Sent Reliable data \<in> set wire \<or> Sent Unsequenced data \<in> set wire"
| "deliverable wire _ = True"

text \<open>
  The steps of one side. \<open>step_local\<close> carries the two assumptions on the frame loop of the caller
  (\<^verbatim>\<open>NsmbMvlNetplayRuntime.cpp\<close>), which assigns \<^verbatim>\<open>LocalInputs[sendFrame]\<close> without a test: a generation
  records a frame once, or again with the same input, since the logical frame of a generation only
  advances; and the recorded frames have no gaps.
\<close>

inductive peer_step :: "wire_event list \<Rightarrow> Peer \<Rightarrow> Peer \<Rightarrow> bool" for wire where
  step_local:
    "peer_step wire p (record_local env frame input p)"
    if "fmlookup (PN_History p) (generation (PN_Session p), frame) \<in> {None, Some input}"
      and "gap_free (insert frame (fmdom' (local_inputs (PN_Session p))))"
| step_pump:
    "peer_step wire p (p\<lparr>PN_Session := s\<rparr>)"
    if "\<forall>e \<in> set events. deliverable wire e" and "PumpLocked env events localFrame (PN_Session p) = Inr s"
| step_resend: "peer_step wire p (p\<lparr>PN_Session := MaybeResendLatestInputForFrameLeadLocked env (PN_Session p)\<rparr>)"
| step_flush: "peer_step wire p (p\<lparr>PN_Session := FlushPendingInputsLocked env (PN_Session p)\<rparr>)"
| step_match_seed: "peer_step wire p (p\<lparr>PN_Session := SendMatchSeedLocked env (PN_Session p)\<rparr>)"
| step_start_ready: "peer_step wire p (p\<lparr>PN_Session := SendStartReadyLocked env frame force (PN_Session p)\<rparr>)"
| step_begin_ready:
    "peer_step wire p (p\<lparr>PN_Session := (PN_Session p)\<lparr>NS_Handshake :=
       begin_start_ready message syncFrame (NS_Handshake (PN_Session p))\<rparr>\<rparr>)"
| step_prime:
    "peer_step wire p (p\<lparr>PN_Session := PrimeInputEpochLocked (PN_Session p),
        PN_History := h, PN_Primed := PN_Primed p \<union> prime_window (PN_Session p)\<rparr>)"
    if "history_le (PN_History p) h"
      and "\<forall>f i. fmlookup (local_inputs (PrimeInputEpochLocked (PN_Session p))) f = Some i \<longrightarrow>
             fmlookup h (generation (PN_Session p), f) = Some i"
      and "gap_free (fmdom' (local_inputs (PrimeInputEpochLocked (PN_Session p))))"
| step_prune: "peer_step wire p (p\<lparr>PN_Session := prune_session keepFrom (PN_Session p)\<rparr>)"
| step_restart: "peer_step wire p (restart_peer next_generation p)"

inductive net_step :: "Peer \<times> Peer \<Rightarrow> Peer \<times> Peer \<Rightarrow> bool" where
  step_left: "net_step (p, q) (p', q)" if "peer_step (NS_Wire (PN_Session q)) p p'"
| step_right: "net_step (p, q) (p, q')" if "peer_step (NS_Wire (PN_Session p)) q q'"

lemma sender_ok_mono: "history_le h h' \<Longrightarrow> sender_ok h s \<Longrightarrow> sender_ok h' s"
  unfolding sender_ok_def using authentic_mono by (auto simp: history_le_def)

lemma receiver_ok_mono: "history_le h h' \<Longrightarrow> P \<subseteq> P' \<Longrightarrow> receiver_ok h P s \<Longrightarrow> receiver_ok h' P' s"
  unfolding receiver_ok_def history_le_def by blast

lemma peer_ok_mono:
  "history_le own own' \<Longrightarrow> history_le other other' \<Longrightarrow> peer_ok own other P s \<Longrightarrow> peer_ok own' other' P s"
  unfolding peer_ok_def using sender_ok_mono receiver_ok_mono by blast

lemma history_le_refl [simp]: "history_le h h"
  by (simp add: history_le_def)

lemma history_le_fmupd: "fmlookup h k \<in> {None, Some v} \<Longrightarrow> history_le h (fmupd k v h)"
  by (auto simp: history_le_def)

lemma store_local_peer:
  assumes ok: "peer_ok own other P s" and new: "fmlookup own (generation s, frame) \<in> {None, Some input}"
    and gap: "gap_free (insert frame (fmdom' (local_inputs s)))"
  shows "peer_ok (fmupd (generation s, frame) input own) other P (store_local frame input s)"
proof -
  let ?h = "fmupd (generation s, frame) input own"
  have v: "local_inputs (store_local frame input s) = fmupd frame input (local_inputs s)"
    "generation (store_local frame input s) = generation s"
    "remote_inputs (store_local frame input s) = remote_inputs s"
    "NS_Delivery (store_local frame input s) = NS_Delivery s"
    "NS_Wire (store_local frame input s) = NS_Wire s"
    by (simp_all add: store_local_def local_inputs_def remote_inputs_def generation_def)
  have "sender_ok ?h s" "receiver_ok other P s"
    using ok sender_ok_mono [OF history_le_fmupd [OF new]] by (auto simp: peer_ok_def)
  moreover have "fmlookup ?h (generation s, f) = Some i"
    if "fmlookup (fmupd frame input (local_inputs s)) f = Some i" for f i
    using that ok by (auto simp: peer_ok_def sender_ok_def split: if_splits)
  ultimately show ?thesis
    using gap unfolding peer_ok_def sender_ok_def receiver_ok_def v by simp
qed

lemma record_local_peer:
  assumes "peer_ok (PN_History p) other P (PN_Session p)"
    and "fmlookup (PN_History p) (generation (PN_Session p), frame) \<in> {None, Some input}"
    and "gap_free (insert frame (fmdom' (local_inputs (PN_Session p))))"
  shows "peer_ok (PN_History (record_local env frame input p)) other P
     (PN_Session (record_local env frame input p))"
proof -
  have "fmlookup (local_inputs (store_local frame input (PN_Session p))) frame = Some input"
    by (simp add: store_local_def local_inputs_def)
  from SendInputLocked_peer [OF store_local_peer [OF assms] this] show ?thesis
    by (simp add: record_local_def)
qed

lemma reset_session_peer:
  assumes "peer_ok own other P s"
  shows "peer_ok own other {} (reset_session g s)"
proof -
  have v: "local_inputs (reset_session g s) = fmempty" "remote_inputs (reset_session g s) = fmempty"
    "DR_Pending (NS_Delivery (reset_session g s)) = []" "NS_Wire (reset_session g s) = NS_Wire s"
    by (simp_all add: reset_session_def Let_def local_inputs_def remote_inputs_def
        TimelineResetForRestart_def DeliveryClear_def)
  show ?thesis
    using assms unfolding peer_ok_def sender_ok_def receiver_ok_def v by (simp add: gap_free_def)
qed

lemma gap_free_from: "gap_free A \<Longrightarrow> gap_free {k \<in> A. l \<le> k}"
  unfolding gap_free_def by (blast intro: order_trans)

lemma prune_session_peer:
  assumes "peer_ok own other P s"
  shows "peer_ok own other P (prune_session k s)"
proof -
  have v: "local_inputs (prune_session k s) = fmfilter (\<lambda>f. k \<le> f) (local_inputs s)"
    "remote_inputs (prune_session k s) = fmfilter (\<lambda>f. k \<le> f) (remote_inputs s)"
    "generation (prune_session k s) = generation s"
    "NS_Delivery (prune_session k s) = NS_Delivery s" "NS_Wire (prune_session k s) = NS_Wire s"
    by (simp_all add: prune_session_def PruneHistory_def local_inputs_def remote_inputs_def generation_def)
  have "fmdom' (fmfilter (\<lambda>f. k \<le> f) (local_inputs s)) = {f \<in> fmdom' (local_inputs s). k \<le> f}"
    by auto
  then have "gap_free (fmdom' (fmfilter (\<lambda>f. k \<le> f) (local_inputs s)))"
    using assms gap_free_from by (simp add: peer_ok_def sender_ok_def)
  then show ?thesis
    using assms unfolding peer_ok_def sender_ok_def receiver_ok_def v by simp
qed

lemma prime_loop_value:
  "fmlookup (prime_loop a b n m) f = Some i \<Longrightarrow> fmlookup m f = Some i \<or> i = n \<and> a \<le> f \<and> f < b"
  by (auto simp: prime_loop_lookup split: if_splits)

lemma PrimeInputEpochLocked_receiver:
  assumes "receiver_ok other P s"
  shows "receiver_ok other (P \<union> prime_window s) (PrimeInputEpochLocked s)"
proof -
  have g: "generation (PrimeInputEpochLocked s) = generation s"
    by (simp add: PrimeInputEpochLocked_def Let_def generation_def MarkInputEpochPrimed_def)
  have "fmlookup (remote_inputs s) f = Some i \<or> i = InputState_default \<and> f \<in> prime_window s"
    if "fmlookup (remote_inputs (PrimeInputEpochLocked s)) f = Some i" for f i
    using that prime_loop_value [of _ _ _ _ f i]
    by (fastforce simp: PrimeInputEpochLocked_def Let_def remote_inputs_def PrimeEpoch_fields
        prime_window_def split: if_splits)
  then show ?thesis
    using assms unfolding receiver_ok_def g by blast
qed

lemma PrimeInputEpochLocked_fields:
  "generation (PrimeInputEpochLocked s) = generation s"
  "NS_Delivery (PrimeInputEpochLocked s) = NS_Delivery s"
  "NS_Wire (PrimeInputEpochLocked s) = NS_Wire s"
  by (simp_all add: PrimeInputEpochLocked_def Let_def generation_def MarkInputEpochPrimed_def)

lemma begin_start_ready_generation [simp]:
  "HR_Generation (begin_start_ready m f h) = HR_Generation h"
  by (simp add: begin_start_ready_def Let_def BeginLocalReady_def MarkStartReadyValidation_def
      split: option.splits)

lemma deliverable_authentic:
  "deliverable wire e \<Longrightarrow> \<forall>flags data. Sent flags data \<in> set wire \<longrightarrow> authentic h data \<Longrightarrow> event_authentic h e"
  by (cases e) auto

lemma peer_step_ok:
  assumes "peer_step wire p p'" and "peer_ok (PN_History p) other (PN_Primed p) (PN_Session p)"
    and "\<forall>flags data. Sent flags data \<in> set wire \<longrightarrow> authentic other data"
  shows "peer_ok (PN_History p') other (PN_Primed p') (PN_Session p') \<and> history_le (PN_History p) (PN_History p')"
  using assms
proof (induction rule: peer_step.induct)
  case (step_local p frame input env)
  then show ?case
    using record_local_peer history_le_fmupd by (simp add: record_local_def)
next
  case (step_pump events env localFrame p s)
  then have "\<forall>e \<in> set events. event_authentic other e"
    using deliverable_authentic by blast
  with step_pump show ?case
    using PumpLocked_peer by simp
next
  case (step_begin_ready p message syncFrame)
  from step_begin_ready(1) show ?case
    by simp (erule peer_ok_view, simp add: view_defs)
next
  case (step_prime p h)
  then have "\<forall>q \<in> set (DR_Pending (NS_Delivery (PN_Session p))). authentic h (PP_Payload q)"
    "\<forall>flags data. Sent flags data \<in> set (NS_Wire (PN_Session p)) \<longrightarrow> authentic h data"
    using authentic_mono by (auto simp: peer_ok_def sender_ok_def)
  with step_prime have "sender_ok h (PrimeInputEpochLocked (PN_Session p))"
    by (simp add: sender_ok_def PrimeInputEpochLocked_fields)
  with step_prime show ?case
    using PrimeInputEpochLocked_receiver by (simp add: peer_ok_def)
next
  case (step_restart p g)
  then show ?case
    using reset_session_peer by (simp add: restart_peer_def)
qed (simp_all add: MaybeResendLatest_peer FlushPendingInputsLocked_peer SendMatchSeedLocked_peer
    SendStartReadyLocked_peer prune_session_peer)

definition net_inv :: "Peer \<times> Peer \<Rightarrow> bool" where
  "net_inv n = (case n of (p, q) \<Rightarrow>
     peer_ok (PN_History p) (PN_History q) (PN_Primed p) (PN_Session p)
     \<and> peer_ok (PN_History q) (PN_History p) (PN_Primed q) (PN_Session q))"

lemma net_step_inv: "net_step n n' \<Longrightarrow> net_inv n \<Longrightarrow> net_inv n'"
proof (induction rule: net_step.induct)
  case (step_left q p p')
  then have "\<forall>flags data. Sent flags data \<in> set (NS_Wire (PN_Session q)) \<longrightarrow> authentic (PN_History q) data"
    by (simp add: net_inv_def peer_ok_def sender_ok_def)
  then have "peer_ok (PN_History p') (PN_History q) (PN_Primed p') (PN_Session p')"
    "history_le (PN_History p) (PN_History p')"
    using peer_step_ok [OF step_left(1), where other = "PN_History q"] step_left(2) by (simp_all add: net_inv_def)
  with step_left(2) peer_ok_mono [OF history_le_refl] show ?case
    by (auto simp: net_inv_def)
next
  case (step_right p q q')
  then have "\<forall>flags data. Sent flags data \<in> set (NS_Wire (PN_Session p)) \<longrightarrow> authentic (PN_History p) data"
    by (simp add: net_inv_def peer_ok_def sender_ok_def)
  then have "peer_ok (PN_History q') (PN_History p) (PN_Primed q') (PN_Session q')"
    "history_le (PN_History q) (PN_History q')"
    using peer_step_ok [OF step_right(1), where other = "PN_History p"] step_right(2) by (simp_all add: net_inv_def)
  with step_right(2) peer_ok_mono [OF history_le_refl] show ?case
    by (auto simp: net_inv_def)
qed

lemma net_run_inv: "net_step\<^sup>*\<^sup>* n n' \<Longrightarrow> net_inv n \<Longrightarrow> net_inv n'"
  by (induction rule: rtranclp_induct) (auto intro: net_step_inv)

text \<open>A session that has neither recorded, received nor sent anything.\<close>

definition fresh_peer :: "Peer \<Rightarrow> bool" where
  "fresh_peer p \<longleftrightarrow> local_inputs (PN_Session p) = fmempty \<and> remote_inputs (PN_Session p) = fmempty
     \<and> DR_Pending (NS_Delivery (PN_Session p)) = [] \<and> NS_Wire (PN_Session p) = []"

lemma fresh_net_inv: "fresh_peer p \<Longrightarrow> fresh_peer q \<Longrightarrow> net_inv (p, q)"
  by (simp add: net_inv_def peer_ok_def sender_ok_def receiver_ok_def fresh_peer_def gap_free_def)

text \<open>C1: Both players simulate with the same inputs. Two sessions start fresh and run any
  interleaving of their operations over a network that loses, repeats, delays and reorders
  packets, across restarts. Whenever both are in the same generation, a remote input stored on
  one side for a frame is the local input the other side recorded for that frame, or the
  neutral input of a frame that was primed at the start of the epoch.\<close>

theorem peers_agree_on_inputs:
  assumes "fresh_peer p0" and "fresh_peer q0" and "net_step\<^sup>*\<^sup>* (p0, q0) (p, q)"
    and "generation (PN_Session p) = generation (PN_Session q)"
    and "fmlookup (remote_inputs (PN_Session p)) f = Some received"
    and "fmlookup (local_inputs (PN_Session q)) f = Some recorded"
  shows "received = recorded \<or> received = InputState_default \<and> f \<in> PN_Primed p"
proof -
  have "net_inv (p, q)"
    by (rule net_run_inv [OF assms(3) fresh_net_inv [OF assms(1,2)]])
  then have "fmlookup (PN_History q) (generation (PN_Session p), f) = Some received
      \<or> received = InputState_default \<and> f \<in> PN_Primed p"
    "fmlookup (PN_History q) (generation (PN_Session q), f) = Some recorded"
    using assms(5,6) by (auto simp: net_inv_def peer_ok_def receiver_ok_def sender_ok_def)
  then show ?thesis
    using assms(4) by auto
qed


text \<open>A run in which one side records and sends the input of frame 5 and the other receives it.\<close>

definition sample_env :: NetEnv where
  "sample_env = \<lparr>NE_Now = 0, NE_PacketCreate = (\<lambda>_. Some 7), NE_PeerSend = (\<lambda>_. 0), NE_AddressSet = True,
     NE_Connect = None, NE_Random = (1, 2), NE_Clock = 0, NE_PeerState = (\<lambda>_. 5), NE_LastReceive = (\<lambda>_. 0)\<rparr>"

definition sample_peer :: Peer where
  "sample_peer = \<lparr>PN_Session = Session_init\<lparr>NS_Transport := TransportState_init\<lparr>TP_Host := Some 0,
     TP_Peer := Some 1\<rparr>\<rparr>, PN_History = fmempty, PN_Primed = {}\<rparr>"

definition sample_input :: InputState where
  "sample_input = InputState_default\<lparr>KeyMask := 0xFFE\<rparr>"

definition sample_sender :: Peer where
  "sample_sender = record_local sample_env 5 sample_input sample_peer"

definition sample_data :: payload where
  "sample_data = EncodeInput \<lparr>FI_Generation = 0, FI_Frame = 5, FI_Input = sample_input\<rparr>"

definition sample_received :: Session where
  "sample_received = (case PumpLocked sample_env [PacketReceive 1 sample_data] 3 (PN_Session sample_peer) of
     Inr s \<Rightarrow> s | Inl _ \<Rightarrow> Session_init)"

lemma sample_sends: "Sent Reliable sample_data \<in> set (NS_Wire (PN_Session sample_sender))"
  by code_simp

lemma sample_pump: "\<not> isl (PumpLocked sample_env [PacketReceive 1 sample_data] 3 (PN_Session sample_peer))"
  by code_simp

lemma sample_stored: "fmlookup (remote_inputs sample_received) 5 = Some sample_input"
  "generation sample_received = 0" "fmlookup (local_inputs (PN_Session sample_sender)) 5 = Some sample_input"
  "generation (PN_Session sample_sender) = 0"
  by code_simp+

lemma sample_run: "net_step\<^sup>*\<^sup>* (sample_peer, sample_peer)
   (sample_peer\<lparr>PN_Session := sample_received\<rparr>, sample_sender)"
proof -
  have "fmdom' (local_inputs (PN_Session sample_peer)) = {}"
    by (simp add: sample_peer_def local_inputs_def Session_init_def TimelineRuntime_init_def)
  then have "net_step (sample_peer, sample_peer) (sample_peer, sample_sender)"
    unfolding sample_sender_def
    by (intro step_right step_local) (auto simp: gap_free_def sample_peer_def)
  moreover have "PumpLocked sample_env [PacketReceive 1 sample_data] 3 (PN_Session sample_peer) = Inr sample_received"
    using sample_pump by (cases "PumpLocked sample_env [PacketReceive 1 sample_data] 3 (PN_Session sample_peer)")
      (simp_all add: sample_received_def)
  then have "net_step (sample_peer, sample_sender) (sample_peer\<lparr>PN_Session := sample_received\<rparr>, sample_sender)"
    by (intro step_left step_pump [where events = "[PacketReceive 1 sample_data]"]) (simp_all add: sample_sends)
  ultimately show ?thesis
    by (meson converse_rtranclp_into_rtranclp r_into_rtranclp)
qed

theorem peers_agree_on_inputs_witness:
  "fmlookup (remote_inputs sample_received) 5 = fmlookup (local_inputs (PN_Session sample_sender)) 5"
proof -
  have "fresh_peer sample_peer"
    by (simp add: fresh_peer_def sample_peer_def local_inputs_def remote_inputs_def Session_init_def
        TimelineRuntime_init_def DeliveryRuntime_init_def)
  moreover obtain i j where ij: "fmlookup (remote_inputs sample_received) 5 = Some i"
      "fmlookup (local_inputs (PN_Session sample_sender)) 5 = Some j"
    by (simp add: sample_stored)
  ultimately have "i = j \<or> i = InputState_default \<and> 5 \<in> PN_Primed (sample_peer\<lparr>PN_Session := sample_received\<rparr>)"
    using sample_stored(2,4) by (intro peers_agree_on_inputs [OF _ _ sample_run]) simp_all
  then have "i = j"
    by (simp add: sample_peer_def)
  with ij show ?thesis
    by simp
qed

end
