(* ===== verification/Session_Delivery.thy ===== *)
theory Session_Delivery
  imports Peer_Network
begin

text \<open>
  Progress of the session: one bundle that arrives closes the gap between the frame the peer has
  acknowledged and the frame just sent, and the replay after a reconnection sends exactly the
  inputs the peer is missing. The delivery property composes the sender
  (\<^verbatim>\<open>SendInputLocked\<close>, \<^verbatim>\<open>Prepare\<close>, \<^verbatim>\<open>EncodeInputBundle\<close>) with the receiver (the classifier, \<^verbatim>\<open>DecodeInputBundle\<close>,
  \<^verbatim>\<open>StoreRemote\<close>).
\<close>

section \<open>Storing a bundle moves the frontier\<close>

definition timeline_view :: "TimelineRuntime \<Rightarrow> InputState frame_map \<times> u32 option \<times> u32 option" where
  "timeline_view t = (TR_RemoteInputs t, TR_RemoteInputEpochStartFrame t, TR_HighestContiguousRemoteFrame t)"

lemma covered_view: "timeline_view t' = timeline_view t \<Longrightarrow> covered t' f = covered t f"
  by (simp add: timeline_view_def covered_def)

lemma contiguous_inv_view: "timeline_view t' = timeline_view t \<Longrightarrow> contiguous_inv r t' = contiguous_inv r t"
  by (simp add: timeline_view_def contiguous_inv_def split: option.splits)

lemma mark_view [simp]:
  "timeline_view (mark_traced_receive s f t) = timeline_view t"
  "timeline_view (mark_receive_gap s p f t) = timeline_view t"
  by (simp_all add: timeline_view_def mark_traced_receive_def mark_receive_gap_def)

text \<open>A frame of the epoch is stored.\<close>

definition in_epoch :: "u32 \<Rightarrow> Session \<Rightarrow> bool" where
  "in_epoch f s \<longleftrightarrow> \<not> IC_NetplayOnly (NS_Input s) \<or> CC_SharedLogicalEpoch (NS_Connection s) \<le> f"

lemma StoreRemoteInputLocked_timeline:
  assumes "in_epoch f s"
  shows "timeline_view (NS_Inputs (StoreRemoteInputLocked f i l s))
    = timeline_view (snd (StoreRemote f i (if l = 0 then None else Some l) (RB_Enabled (NS_Rollback s)) 0
        (NS_Inputs s)))"
proof -
  have n: "\<not> (IC_NetplayOnly (NS_Input s) \<and> CC_SharedLogicalEpoch (NS_Connection s) \<noteq> 0
      \<and> f < CC_SharedLogicalEpoch (NS_Connection s))"
    using assms by (auto simp: in_epoch_def)
  show ?thesis
    unfolding StoreRemoteInputLocked_def if_not_P [OF n] by (simp add: case_prod_beta)
qed

lemma StoreRemoteInputLocked_config [simp]:
  "NS_Input (StoreRemoteInputLocked f i l s) = NS_Input s"
  "NS_Connection (StoreRemoteInputLocked f i l s) = NS_Connection s"
  by (simp_all add: StoreRemoteInputLocked_def case_prod_beta)

lemma in_epoch_store [simp]: "in_epoch f (StoreRemoteInputLocked g i l s) = in_epoch f s"
  by (simp add: in_epoch_def)

text \<open>What storing one input of the epoch does to the frontier.\<close>

lemma StoreRemoteInputLocked_progress:
  assumes e: "in_epoch f s" and inv: "contiguous_inv r (NS_Inputs s)"
  shows "contiguous_inv (insert f r) (NS_Inputs (StoreRemoteInputLocked f i l s))"
    and "TR_RemoteInputs (NS_Inputs (StoreRemoteInputLocked f i l s)) = fmupd f i (TR_RemoteInputs (NS_Inputs s))"
    and "TR_RemoteInputEpochStartFrame (NS_Inputs (StoreRemoteInputLocked f i l s))
      = TR_RemoteInputEpochStartFrame (NS_Inputs s)"
    and "covered (NS_Inputs s) k \<Longrightarrow> covered (NS_Inputs (StoreRemoteInputLocked f i l s)) k"
proof -
  note v = StoreRemoteInputLocked_timeline [OF e, of i l]
  show "contiguous_inv (insert f r) (NS_Inputs (StoreRemoteInputLocked f i l s))"
    using StoreRemote_inv [OF inv] contiguous_inv_view [OF v] by blast
  show "TR_RemoteInputs (NS_Inputs (StoreRemoteInputLocked f i l s)) = fmupd f i (TR_RemoteInputs (NS_Inputs s))"
    "TR_RemoteInputEpochStartFrame (NS_Inputs (StoreRemoteInputLocked f i l s))
      = TR_RemoteInputEpochStartFrame (NS_Inputs s)"
    using v by (simp_all add: timeline_view_def)
  show "covered (NS_Inputs s) k \<Longrightarrow> covered (NS_Inputs (StoreRemoteInputLocked f i l s)) k"
    using StoreRemote_covered covered_view [OF v] by blast
qed

lemma store_entries_progress:
  assumes "\<forall>e \<in> set es. in_epoch (FI_Frame e) s" and "contiguous_inv r (NS_Inputs s)"
  shows "contiguous_inv (r \<union> FI_Frame ` set es) (NS_Inputs (store_entries es l s))
    \<and> fmdom' (TR_RemoteInputs (NS_Inputs (store_entries es l s)))
        = fmdom' (TR_RemoteInputs (NS_Inputs s)) \<union> FI_Frame ` set es
    \<and> TR_RemoteInputEpochStartFrame (NS_Inputs (store_entries es l s)) = TR_RemoteInputEpochStartFrame (NS_Inputs s)
    \<and> (\<forall>k. covered (NS_Inputs s) k \<longrightarrow> covered (NS_Inputs (store_entries es l s)) k)"
  using assms
proof (induction es arbitrary: s r)
  case Nil
  then show ?case
    by (simp add: store_entries_def)
next
  case (Cons e es)
  let ?s1 = "StoreRemoteInputLocked (FI_Frame e) (FI_Input e) l s"
  have e: "in_epoch (FI_Frame e) s"
    using Cons.prems(1) by simp
  note p = StoreRemoteInputLocked_progress [OF e Cons.prems(2), where i = "FI_Input e" and l = l]
  have "\<forall>e \<in> set es. in_epoch (FI_Frame e) ?s1"
    using Cons.prems(1) by simp
  note IH = Cons.IH [OF this p(1)]
  have s: "store_entries (e # es) l s = store_entries es l ?s1"
    by (simp add: store_entries_def)
  have sets: "insert (FI_Frame e) r \<union> FI_Frame ` set es = r \<union> FI_Frame ` set (e # es)"
    by simp
  have "fmdom' (TR_RemoteInputs (NS_Inputs ?s1)) \<union> FI_Frame ` set es
      = fmdom' (TR_RemoteInputs (NS_Inputs s)) \<union> FI_Frame ` set (e # es)"
    unfolding p(2) by simp
  then show ?case
    using IH p(3,4) unfolding s sets by simp
qed

lemma covered_extend:
  assumes inv: "contiguous_inv r t" and ep: "TR_RemoteInputEpochStartFrame t = Some start"
    and a: "covered t a" and dom: "\<forall>k. a < k \<and> k \<le> f \<longrightarrow> k \<in> fmdom' (TR_RemoteInputs t)" and "a \<le> f"
  shows "covered t f"
  using dom \<open>a \<le> f\<close>
proof (induction "unat f" arbitrary: f)
  case 0
  then have "f = a"
    by (simp add: word_le_nat_alt unat_eq_0)
  with a show ?case by simp
next
  case (Suc m)
  show ?case
  proof (cases "f = a")
    case True
    with a show ?thesis by simp
  next
    case False
    with Suc.prems have lt: "a < f" and f0: "f \<noteq> 0"
      by auto
    have m: "m = unat (f - 1)"
      using Suc.hyps(2) f0 by (simp add: unat_minus_one)
    have le: "k \<le> f" if "k \<le> f - 1" for k
      using that f0 by (simp add: u32_le_pred)
    have "covered t (f - 1)"
      using Suc.prems(1) lt f0 le by (intro Suc.hyps(1) [OF m]) (auto simp: u32_le_pred)
    moreover have "start < f"
      using a ep lt by (auto simp: covered_def split: option.splits)
    ultimately show ?thesis
      using Suc.prems(1) lt by (intro covered_next [OF inv ep]) auto
  qed
qed

section \<open>A sent bundle closes the gap\<close>

definition enet_accepts :: "NetEnv \<Rightarrow> bool" where
  "enet_accepts env \<longleftrightarrow> (\<forall>data. NE_PacketCreate env data \<noteq> None \<and> NE_PeerSend env data = 0)"

lemma transport_send_accepted:
  assumes "enet_accepts env" and "connected s"
  shows "transport_send env data flags b s = (0, s\<lparr>NS_Wire := NS_Wire s @ [Sent flags data]\<rparr>)"
proof -
  obtain h p where "NE_PacketCreate env data = Some h" "NE_PeerSend env data = 0"
      "TP_Peer (NS_Transport s) = Some p"
    using assms unfolding enet_accepts_def connected_def IsConnected_def by blast
  then show ?thesis
    by (simp add: transport_send_def Send_def)
qed

lemma send_prefix_fields:
  "NS_Delivery (SendMatchSeedLocked env s) = NS_Delivery s"
  "NS_Delivery (SendStartReadyLocked env f b s) = NS_Delivery s"
  "NS_Delivery (MaybeResendStartReadyLocked env b s) = NS_Delivery s"
  "NS_Input (SendMatchSeedLocked env s) = NS_Input s"
  "NS_Input (SendStartReadyLocked env f b s) = NS_Input s"
  "NS_Input (MaybeResendStartReadyLocked env b s) = NS_Input s"
  "NS_Transport (SendMatchSeedLocked env s) = NS_Transport s"
  "NS_Transport (SendStartReadyLocked env f b s) = NS_Transport s"
  "NS_Transport (MaybeResendStartReadyLocked env b s) = NS_Transport s"
  by (simp_all add: SendMatchSeedLocked_def SendStartReadyLocked_def MaybeResendStartReadyLocked_def Let_def
      case_prod_beta split: option.splits)

lemma mark_traced_send_wire [simp]: "NS_Wire (mark_traced_send f s) = NS_Wire s"
  by (simp add: mark_traced_send_def)

lemma EncodeInputBundle_SelectUnacked_ne:
  "EncodeInputBundle (SelectUnackedInputs g frame cur (int kMaxInputBundleEntries) loc ack) a \<noteq> []"
  using EncodeInputBundle_refuses valid_bundle_SelectUnackedInputs by blast

definition plain_bundle :: "Session \<Rightarrow> u32 \<Rightarrow> bool" where
  "plain_bundle s frame \<longleftrightarrow>
     (let d = DecideSend frame (send_config (NS_Input s))
      in \<not> SD_Drop d \<and> SD_Bundle d \<and> SD_DelayFrames d \<le> 0)"

lemma SendInputLocked_bundle:
  assumes "connected s" and "NS_ResumeValidated s" and "enet_accepts env" and "plain_bundle s frame"
  shows "Sent (InputPacketFlags s) (EncodeInputBundle (SelectUnackedInputs (generation s) frame input
      (int kMaxInputBundleEntries) (local_inputs s) (DR_RemoteAckFrame (NS_Delivery s)))
      (TR_HighestContiguousRemoteFrame (NS_Inputs s))) \<in> set (NS_Wire (SendInputLocked env frame input s))"
proof -
  let ?s1 = "MaybeResendStartReadyLocked env False (SendMatchSeedLocked env s)"
  let ?s2 = "?s1\<lparr>NS_Inputs := mark_send_gap ?s1 (TR_LastSentInputFrame (NS_Inputs ?s1)) frame
                       ((NS_Inputs ?s1)\<lparr>TR_LastSentInputFrame := frame\<rparr>),
                    NS_PhaseRecovery := RecordLocalInput (HR_Generation (NS_Handshake ?s1)) frame
                       (NE_Now env) (NS_PhaseRecovery ?s1)\<rparr>"
  let ?data = "EncodeInputBundle (SelectUnackedInputs (generation s) frame input
      (int kMaxInputBundleEntries) (local_inputs s) (DR_RemoteAckFrame (NS_Delivery s)))
      (TR_HighestContiguousRemoteFrame (NS_Inputs s))"
  let ?d = "DecideSend frame (send_config (NS_Input s))"
  have g: "HR_Generation (NS_Handshake ?s1) = generation s"
    using send_prefix_inputs(2,6) by (simp add: generation_def)
  have i: "NS_Inputs ?s1 = NS_Inputs s" "NS_Delivery ?s1 = NS_Delivery s" "NS_Input ?s1 = NS_Input s"
    "NS_Transport ?s1 = NS_Transport s"
    by (simp_all add: send_prefix_inputs send_prefix_fields)
  have "0 < SD_BundleHistory ?d"
    using assms(4) by (auto simp: plain_bundle_def DecideSend_def Let_def)
  then have pr: "Prepare (HR_Generation (NS_Handshake ?s2)) frame input (send_config (NS_Input ?s2))
      (TR_LocalInputs (NS_Inputs ?s2)) (NE_Now env) (TR_HighestContiguousRemoteFrame (NS_Inputs ?s2))
      (NS_Delivery ?s2) = (\<lparr>PS_Decision = ?d, PS_ImmediatePayload = ?data\<rparr>, NS_Delivery s)"
    using assms(4) by (simp add: Prepare_def Let_def plain_bundle_def i g mark_send_gap_def BuildPayload_def
        local_inputs_def)
  let ?s3 = "?s2\<lparr>NS_Delivery := NS_Delivery s\<rparr>"
  have c: "connected ?s3" and f: "InputPacketFlags ?s3 = InputPacketFlags s"
    using assms(1) i by (simp_all add: connected_def InputPacketFlags_def)
  have "SendInputLocked env frame input s = mark_traced_send frame
      (SendInputPayloadNowLocked env (InputPacketFlags ?s3) ?data ?s3)"
    using assms(1,2,4) pr EncodeInputBundle_SelectUnacked_ne unfolding SendInputLocked_def Let_def
    by (simp add: plain_bundle_def Let_def)
  then show ?thesis
    using c f transport_send_accepted [OF assms(3) c] by (simp add: SendInputPayloadNowLocked_def)
qed

lemma on_receive_bundle:
  assumes "NS_ResumeValidated r" and "IsPeer (Some peer) (NS_Transport r)" and "valid_bundle es"
    and "FI_Generation (hd es) = generation r"
  shows "\<exists>r' ack'. on_receive env peer (EncodeInputBundle es ack) l r = Inr r'
     \<and> NS_Inputs r' = NS_Inputs (store_entries es l (record_ack env ack' r))"
proof -
  let ?ack = "if ack = Some kNoAckFrame then None else ack"
  have d: "DecodeInputBundle (Some (EncodeInputBundle es ack)) = Some (es, ?ack)"
    by (rule DecodeInputBundle_EncodeInputBundle [OF assms(3)])
  have ne: "es \<noteq> []"
    using assms(3) by (auto simp: valid_bundle_def)
  have "on_receive env peer (EncodeInputBundle es ack) l r
      = Inr (observe_remote env (newest_entry es) (store_entries es l (record_ack env ?ack r)))"
    using assms d ne by (simp add: on_receive_def DecodeInputBundle_class [OF d]
        HandleReceivedInputBundleLocked_def IsCurrentGeneration_def generation_def Let_def)
  then show ?thesis
    by (auto simp: observe_remote_def)
qed

lemma record_ack_inputs [simp]:
  "NS_Inputs (record_ack env ack s) = NS_Inputs s" "in_epoch f (record_ack env ack s) = in_epoch f s"
  by (auto simp: record_ack_def in_epoch_def Let_def split: option.splits prod.splits)

lemma bundle_covers_gap:
  assumes a: "a < frame" "unat frame - unat a \<le> kMaxInputBundleEntries"
    and loc: "\<forall>f. a < f \<and> f \<le> frame \<longrightarrow> f \<in> fmdom' loc"
  shows "FI_Frame ` set (SelectUnackedInputs g frame cur (int kMaxInputBundleEntries) loc (Some a))
    = {f. a < f \<and> f \<le> frame}"
proof
  let ?es = "SelectUnackedInputs g frame cur (int kMaxInputBundleEntries) loc (Some a)"
  have nm: "a \<noteq> u32_max" "a + 1 \<le> frame"
    using a(1) by (auto simp: u32_less_imp_not_max u32_Suc_le)
  then have first: "unacked_first frame loc (Some a) = a + 1"
    using loc a(1) by (intro unacked_first_eq) (auto simp: u32_less_Suc)
  show "FI_Frame ` set ?es \<subseteq> {f. a < f \<and> f \<le> frame}"
    using SelectUnackedInputs_frames [of _ g frame cur loc "Some a"] nm(1) unfolding first
    by (auto simp: u32_Suc_le)
  show "{f. a < f \<and> f \<le> frame} \<subseteq> FI_Frame ` set ?es"
  proof
    fix f assume "f \<in> {f. a < f \<and> f \<le> frame}"
    then have f: "a < f" "f \<le> frame" by simp_all
    have "unat f - unat (a + 1) < kMaxInputBundleEntries"
      using f a(2) nm(1) by (simp add: unat_Suc_u32 word_less_nat_alt word_le_nat_alt)
    then have "bundle_entry_for g cur loc f \<in> set ?es"
      using f nm(1) by (intro frame_in_SelectUnackedInputs) (simp_all add: first u32_Suc_le)
    then show "f \<in> FI_Frame ` set ?es"
      by (intro image_eqI [of _ _ "bundle_entry_for g cur loc f"]) (simp_all add: bundle_entry_for_def)
  qed
qed

text \<open>C2: One bundle that arrives is enough. Let the peer have acknowledged frame \<open>a\<close>, all later
  local inputs up to \<open>frame\<close> be stored, and at most 32 of them be outstanding. The packet
  \<^verbatim>\<open>SendInputLocked\<close> hands to ENet for \<open>frame\<close>, received by a peer of the same generation whose
  contiguous frontier includes \<open>a\<close>, moves that frontier to \<open>frame\<close>, whatever packets were lost
  in between.\<close>

theorem one_bundle_closes_the_gap:
  assumes "connected s" and "NS_ResumeValidated s" and "enet_accepts env" and "plain_bundle s frame"
    and "DR_RemoteAckFrame (NS_Delivery s) = Some a" and "a < frame"
    and "unat frame - unat a \<le> kMaxInputBundleEntries"
    and "\<forall>f. a < f \<and> f \<le> frame \<longrightarrow> f \<in> fmdom' (local_inputs s)"
    and "generation r = generation s" and "NS_ResumeValidated r"
    and "IsPeer (Some peer) (NS_Transport r)" and "contiguous_inv known (NS_Inputs r)"
    and "TR_RemoteInputEpochStartFrame (NS_Inputs r) = Some start"
    and "covered (NS_Inputs r) a" and "in_epoch a r"
  shows "\<exists>data r'. Sent (InputPacketFlags s) data \<in> set (NS_Wire (SendInputLocked env frame input s))
    \<and> on_receive env' peer data l r = Inr r' \<and> covered (NS_Inputs r') frame"
proof -
  let ?es = "SelectUnackedInputs (generation s) frame input (int kMaxInputBundleEntries) (local_inputs s) (Some a)"
  let ?data = "EncodeInputBundle ?es (TR_HighestContiguousRemoteFrame (NS_Inputs s))"
  have sent: "Sent (InputPacketFlags s) ?data \<in> set (NS_Wire (SendInputLocked env frame input s))"
    using SendInputLocked_bundle [OF assms(1-4)] assms(5) by simp
  have v: "valid_bundle ?es"
    by (rule valid_bundle_SelectUnackedInputs)
  then have "hd ?es \<in> set ?es"
    by (auto simp: valid_bundle_def)
  then have "FI_Generation (hd ?es) = generation r"
    using SelectUnackedInputs_frames assms(9) by metis
  from on_receive_bundle [OF assms(10,11) v this]
  obtain r' ack' where r': "on_receive env' peer ?data l r = Inr r'"
      "NS_Inputs r' = NS_Inputs (store_entries ?es l (record_ack env' ack' r))"
    by blast
  have frames: "FI_Frame ` set ?es = {f. a < f \<and> f \<le> frame}"
    by (rule bundle_covers_gap [OF assms(6-8)])
  let ?r1 = "record_ack env' ack' r"
  have "in_epoch f r" if "a < f" for f
    using that assms(15) by (auto simp: in_epoch_def)
  then have "in_epoch f ?r1" if "a < f" for f
    using that by simp
  then have "\<forall>e \<in> set ?es. in_epoch (FI_Frame e) ?r1"
    using frames by blast
  then have p: "contiguous_inv (known \<union> FI_Frame ` set ?es) (NS_Inputs r')"
    "{f. a < f \<and> f \<le> frame} \<subseteq> fmdom' (TR_RemoteInputs (NS_Inputs r'))"
    "TR_RemoteInputEpochStartFrame (NS_Inputs r') = Some start" "covered (NS_Inputs r') a"
    using store_entries_progress [of ?es ?r1 known l] assms(12-14) frames r'(2) by auto
  have "covered (NS_Inputs r') frame"
    using p(2) assms(6) by (intro covered_extend [OF p(1,3,4)]) auto
  with sent r'(1) show ?thesis
    by blast
qed


definition bundle_sender :: Session where
  "bundle_sender = (PN_Session sample_peer)\<lparr>
     NS_Input := InputConfig_default\<lparr>IC_UseHistoryBundle := True, IC_BundleHistory := 12\<rparr>,
     NS_Delivery := \<lparr>DR_Pending = [], DR_RemoteAckFrame = Some 10\<rparr>,
     NS_Inputs := TimelineRuntime_init\<lparr>TR_LocalInputs := fmupd 11 sample_input fmempty\<rparr>\<rparr>"

definition bundle_receiver :: Session where
  "bundle_receiver = (PN_Session sample_peer)\<lparr>
     NS_Inputs := PrimeEpoch 10 1 InputState_default 0 TimelineRuntime_init\<rparr>"

theorem one_bundle_closes_the_gap_witness:
  "\<exists>data r'. Sent Unsequenced data \<in> set (NS_Wire (SendInputLocked sample_env 11 sample_input bundle_sender))
    \<and> on_receive sample_env 1 data 11 bundle_receiver = Inr r' \<and> covered (NS_Inputs r') 11"
proof -
  have "connected bundle_sender" "NS_ResumeValidated bundle_sender" "plain_bundle bundle_sender 11"
    "generation bundle_receiver = generation bundle_sender" "NS_ResumeValidated bundle_receiver"
    "IsPeer (Some 1) (NS_Transport bundle_receiver)" "covered (NS_Inputs bundle_receiver) 10"
    "in_epoch 10 bundle_receiver" "InputPacketFlags bundle_sender = Unsequenced"
    by code_simp+
  moreover have "enet_accepts sample_env"
    by (simp add: enet_accepts_def sample_env_def)
  moreover have "DR_RemoteAckFrame (NS_Delivery bundle_sender) = Some 10"
    by (simp add: bundle_sender_def)
  moreover have "f \<in> fmdom' (local_inputs bundle_sender)" if "(10 :: u32) < f \<and> f \<le> 11" for f
  proof -
    have "unat f = 11"
      using that by (simp add: word_less_nat_alt word_le_nat_alt)
    then have "f = 11"
      by (simp add: word_unat_eq_iff)
    then show ?thesis
      by (simp add: bundle_sender_def local_inputs_def)
  qed
  moreover have "contiguous_inv ({} \<union> {k. 10 \<le> k \<and> k < 10 + 1}) (NS_Inputs bundle_receiver)"
    unfolding bundle_receiver_def
    using PrimeEpoch_inv [of "{}" TimelineRuntime_init 10 1 InputState_default 0]
    by (simp add: contiguous_inv_def TimelineRuntime_init_def)
  moreover have "TR_RemoteInputEpochStartFrame (NS_Inputs bundle_receiver) = Some 10"
    by (simp add: bundle_receiver_def PrimeEpoch_fields)
  ultimately show ?thesis
    using one_bundle_closes_the_gap [of bundle_sender sample_env 11 10 bundle_receiver 1
        "{} \<union> {k. 10 \<le> k \<and> k < 10 + 1}" 10 sample_input sample_env 11]
    by (simp add: kMaxInputBundleEntries_def)
qed

section \<open>Replay after a reconnection\<close>

text \<open>The packet that replays one stored input.\<close>

definition replay_packet :: "Session \<Rightarrow> u32 \<Rightarrow> wire_event" where
  "replay_packet s f = Sent Reliable (EncodeInput \<lparr>FI_Generation = generation s, FI_Frame = f,
     FI_Input = the (fmlookup (local_inputs s) f)\<rparr>)"

lemma replay_input_wire:
  assumes "enet_accepts env" and "connected s" and "f \<in> fmdom' (local_inputs s)"
  shows "NS_Wire (replay_input env f s) = NS_Wire s @ [replay_packet s f]"
    and "TR_LastSentInputFrame (NS_Inputs (replay_input env f s)) = f"
    and "local_inputs (replay_input env f s) = local_inputs s"
    and "generation (replay_input env f s) = generation s"
    and "connected (replay_input env f s)"
  using assms transport_send_accepted [OF assms(1,2)]
  by (auto simp: replay_input_def replay_packet_def local_inputs_def generation_def connected_def fmlookup_dom'_iff)

lemma replay_all_wire:
  assumes "enet_accepts env" and "connected s" and "set fs \<subseteq> fmdom' (local_inputs s)"
  shows "NS_Wire (fold (replay_input env) fs s) = NS_Wire s @ map (replay_packet s) fs
    \<and> TR_LastSentInputFrame (NS_Inputs (fold (replay_input env) fs s))
      = (if fs = [] then TR_LastSentInputFrame (NS_Inputs s) else last fs)"
  using assms(2,3)
proof (induction fs arbitrary: s)
  case (Cons f fs)
  let ?s1 = "replay_input env f s"
  have "f \<in> fmdom' (local_inputs s)"
    using Cons.prems by simp
  note w = replay_input_wire [OF assms(1) Cons.prems(1) this]
  have p: "replay_packet ?s1 = replay_packet s"
    by (simp add: fun_eq_iff replay_packet_def w)
  show ?case
    using Cons.IH [OF w(5)] Cons.prems(2) w p by auto
qed simp

text \<open>A \<^verbatim>\<open>Resume\<close> message that the waiting session checks against its own input history.\<close>

definition resume_accepted :: "Message \<Rightarrow> Session \<Rightarrow> bool" where
  "resume_accepted m s \<longleftrightarrow> RecoveryEnabled s \<and> \<not> NS_ResumeValidated s \<and> SM_SemanticHash m \<noteq> 0
     \<and> NS_RemoteSessionNonce s \<in> {0, SM_SemanticHash m} \<and> SM_Generation m = generation s
     \<and> (HR_LogicalEpochEstablished (NS_Handshake s)
        \<longrightarrow> SM_SharedLogicalEpoch m \<in> {0, HR_SharedLogicalEpoch (NS_Handshake s)})"

lemma frames_after_local: "set (frames_after f s) = {k \<in> fmdom' (local_inputs s). f < k}"
  by (auto simp: frames_after_def local_inputs_def)

lemma ReceiveResumeLocked_accepted:
  assumes "resume_accepted m s"
  shows "ReceiveResumeLocked env m s =
    (let s1 = s\<lparr>NS_RemoteSessionNonce := SM_SemanticHash m, NS_ResumeValidated := True\<rparr>
     in if \<exists>l. last_local_frame s = Some l \<and> l < SM_Value m then Inl FutureInputAck
        else if frames_after (SM_Value m) s \<noteq> [] \<and> SM_Value m \<noteq> 0
          \<and> hd (frames_after (SM_Value m) s) \<noteq> SM_Value m + 1 then Inl InputHistoryMissing
        else Inr (fold (replay_input env) (frames_after (SM_Value m) s) s1))"
  using assms
  by (auto simp: resume_accepted_def ReceiveResumeLocked_def Let_def generation_def frames_after_def
      last_local_frame_def RecoveryEnabled_def split: option.splits)

lemma last_sorted_eq_Max: "sorted xs \<Longrightarrow> xs \<noteq> [] \<Longrightarrow> last xs = Max (set xs)"
  by (induction xs) auto

lemma frames_after_sorted: "frames_after f s = sorted_list_of_set {k \<in> fmdom' (local_inputs s). f < k}"
proof (rule sorted_distinct_set_unique)
  show "sorted (frames_after f s)" "distinct (frames_after f s)"
    by (simp_all add: frames_after_def fm_keys_def sorted_list_of_fset.rep_eq sorted_wrt_filter)
qed (simp_all add: frames_after_local)

text \<open>The oldest later frame directly follows the acknowledged one exactly when that frame is stored.\<close>

lemma hd_frames_after:
  assumes "frames_after a s \<noteq> []"
  shows "hd (frames_after a s) = a + 1 \<longleftrightarrow> a + 1 \<in> fmdom' (local_inputs s)"
proof -
  have hd: "hd (frames_after a s) \<in> set (frames_after a s)"
    using assms by simp
  then have lt: "a < hd (frames_after a s)"
    by (simp add: frames_after_local)
  then have "a < a + 1"
    by (simp add: u32_less_imp_not_max u32_less_Suc)
  have "hd (frames_after a s) = a + 1" if "a + 1 \<in> fmdom' (local_inputs s)"
  proof (rule antisym)
    show "a + 1 \<le> hd (frames_after a s)"
      using lt by (simp add: u32_less_imp_not_max u32_Suc_le)
    have "a + 1 \<in> set (frames_after a s)"
      using that \<open>a < a + 1\<close> by (simp add: frames_after_local)
    moreover have "sorted (frames_after a s)"
      by (simp add: frames_after_sorted)
    ultimately show "hd (frames_after a s) \<le> a + 1"
      by (cases "frames_after a s") auto
  qed
  with hd show ?thesis
    by (auto simp: frames_after_local)
qed

text \<open>C3: The replay after a reconnection. A session waiting for validation that gets an acceptable
  \<^verbatim>\<open>Resume\<close> message acknowledging frame \<open>a\<close> fails with \<^verbatim>\<open>FutureInputAck\<close> exactly when \<open>a\<close> is past its
  last stored local frame, fails with \<^verbatim>\<open>InputHistoryMissing\<close> exactly when later frames are stored but
  not \<open>a + 1\<close>, and otherwise becomes validated and sends reliably, in ascending order and each exactly
  once, all stored local inputs later than \<open>a\<close> and nothing else.\<close>

theorem resume_replays_missing_inputs:
  assumes "resume_accepted m s" and "enet_accepts env" and "connected s"
  shows "let a = SM_Value m; later = {k \<in> fmdom' (local_inputs s). a < k}
    in if \<exists>l. last_local_frame s = Some l \<and> l < a then ReceiveResumeLocked env m s = Inl FutureInputAck
       else if later \<noteq> {} \<and> a \<noteq> 0 \<and> a + 1 \<notin> fmdom' (local_inputs s)
       then ReceiveResumeLocked env m s = Inl InputHistoryMissing
       else \<exists>s'. ReceiveResumeLocked env m s = Inr s' \<and> NS_ResumeValidated s'
         \<and> NS_Wire s' = NS_Wire s @ map (replay_packet s) (sorted_list_of_set later)
         \<and> TR_LastSentInputFrame (NS_Inputs s') =
             (if later = {} then TR_LastSentInputFrame (NS_Inputs s) else Max later)"
proof -
  define a where "a = SM_Value m"
  define later where "later = {k \<in> fmdom' (local_inputs s). a < k}"
  let ?s1 = "s\<lparr>NS_RemoteSessionNonce := SM_SemanticHash m, NS_ResumeValidated := True\<rparr>"
  have fa: "frames_after a s = sorted_list_of_set later"
    by (simp add: later_def frames_after_sorted)
  have fin: "finite later"
    by (simp add: later_def)
  then have ne: "frames_after a s \<noteq> [] \<longleftrightarrow> later \<noteq> {}"
    by (simp add: fa)
  have "set (frames_after a s) \<subseteq> fmdom' (local_inputs ?s1)"
    by (auto simp: frames_after_local local_inputs_def)
  moreover have "connected ?s1" "replay_packet ?s1 = replay_packet s" "NS_Wire ?s1 = NS_Wire s" "NS_Inputs ?s1 = NS_Inputs s"
    using assms(3) by (simp_all add: connected_def replay_packet_def fun_eq_iff generation_def local_inputs_def)
  ultimately have w: "NS_Wire (fold (replay_input env) (frames_after a s) ?s1) = NS_Wire s @ map (replay_packet s) (frames_after a s)
      \<and> TR_LastSentInputFrame (NS_Inputs (fold (replay_input env) (frames_after a s) ?s1))
        = (if frames_after a s = [] then TR_LastSentInputFrame (NS_Inputs s) else last (frames_after a s))"
    using replay_all_wire [OF assms(2), of ?s1 "frames_after a s"] by simp
  have v: "NS_ResumeValidated (fold (replay_input env) fs x) = NS_ResumeValidated x" for fs x
    by (induction fs arbitrary: x) (simp_all add: replay_input_def transport_send_def Let_def case_prod_beta split: option.splits)
  have l: "last (sorted_list_of_set later) = Max later" if "later \<noteq> {}"
    using that fin last_sorted_eq_Max [of "sorted_list_of_set later"] by simp
  have h: "hd (frames_after a s) \<noteq> a + 1 \<longleftrightarrow> a + 1 \<notin> fmdom' (local_inputs s)" if "later \<noteq> {}"
    using hd_frames_after that ne by simp
  show ?thesis
    unfolding Let_def ReceiveResumeLocked_accepted [OF assms(1)] a_def [symmetric] later_def [symmetric] fa
    using w v l h ne fin unfolding fa by auto
qed

definition resuming_session :: Session where
  "resuming_session = bundle_sender\<lparr>NS_ResumeValidated := False,
     NS_Input := InputConfig_default\<lparr>IC_NetplayOnly := True\<rparr>\<rparr>"

definition sample_resume :: Message where
  "sample_resume = Message_default\<lparr>SM_Kind := Resume, SM_Value := 10, SM_SemanticHash := 5\<rparr>"

theorem resume_replays_missing_inputs_witness:
  "\<exists>s'. ReceiveResumeLocked sample_env sample_resume resuming_session = Inr s' \<and> NS_ResumeValidated s'
    \<and> NS_Wire s' = [replay_packet resuming_session 11]"
proof -
  have "resume_accepted sample_resume resuming_session" "connected resuming_session"
    "last_local_frame resuming_session = Some 11" "NS_Wire resuming_session = []"
    "fmdom' (local_inputs resuming_session) = {11}"
    by code_simp+
  moreover have "SM_Value sample_resume = 10"
    by (simp add: sample_resume_def)
  moreover have "{k \<in> {11 :: u32}. 10 < k} = {11}"
    by auto
  moreover have "enet_accepts sample_env"
    by (simp add: enet_accepts_def sample_env_def)
  ultimately show ?thesis
    using resume_replays_missing_inputs [of sample_resume resuming_session sample_env] by (auto simp: Let_def)
qed

end
