(* ===== verification/Coordinator.thy ===== *)
theory Coordinator
  imports Nsmb_Prelude
begin

text \<open>
  The thread coordination of \<^verbatim>\<open>NsmbNetplayCoordinator.cpp\<close>. Every method takes the mutex, so a
  method without a wait is one definition on the shared state \<open>CoordinatorState\<close>. A method that
  waits on the condition variable is split where it releases the mutex: \<open>_enter\<close> runs from the
  call to the first wait, \<open>_wake\<close> from the return of one wait (with its timeout flag) to the
  next wait; \<open>Blocked\<close> carries the locals kept across the wait, \<open>Returned\<close> the result.
  Interleavings are step relations over these definitions. The \<^verbatim>\<open>int\<close> barrier generation is taken
  unbounded. Waking and diagnostic output have no state of their own.
\<close>

section \<open>State\<close>

definition kMaxInstances :: int where "kMaxInstances = 16"

definition ClampInstanceCount :: "int \<Rightarrow> int" where
  "ClampInstanceCount instanceCount = clamp instanceCount 1 kMaxInstances"

definition IsValidInstance :: "int \<Rightarrow> bool" where
  "IsValidInstance instanceID \<longleftrightarrow> 0 \<le> instanceID \<and> instanceID < kMaxInstances"

datatype FrameBarrierKind = Before | After | Netplay

datatype NetplayStartWaitResult = AlreadyComplete | LocalLeader | PeerComplete | TimedOut

record FrameBarrier =
  FB_Waiting :: "bool list"
  FB_Frame :: "u32 list"
  FB_Generation :: int

record CoordinatorState =
  CO_NetplayStartArrived :: "bool list"
  CO_NetplayStartComplete :: bool
  CO_NetplayLockstepStarted :: "bool list"
  CO_NetplayAnyLockstepStarted :: bool
  CO_TestFrame :: "u32 list"
  CO_FrameBarriers :: "FrameBarrier list"
  CO_SerialFrame :: u32
  CO_SerialInstance :: int
  CO_StateSaved :: "bool list"
  CO_StateLoaded :: "bool list"
  CO_LocalMPSaved :: bool
  CO_LocalMPLoadStarted :: bool
  CO_LocalMPLoadFinished :: bool
  CO_LocalMPLoaded :: bool

definition FrameBarrier_init :: FrameBarrier where
  "FrameBarrier_init = \<lparr>FB_Waiting = replicate 16 False, FB_Frame = replicate 16 0, FB_Generation = 0\<rparr>"

definition Coordinator_init :: CoordinatorState where
  "Coordinator_init = \<lparr>CO_NetplayStartArrived = replicate 16 False, CO_NetplayStartComplete = False,
     CO_NetplayLockstepStarted = replicate 16 False, CO_NetplayAnyLockstepStarted = False,
     CO_TestFrame = replicate 16 0, CO_FrameBarriers = replicate 3 FrameBarrier_init,
     CO_SerialFrame = 0, CO_SerialInstance = 0, CO_StateSaved = replicate 16 False,
     CO_StateLoaded = replicate 16 False, CO_LocalMPSaved = False, CO_LocalMPLoadStarted = False,
     CO_LocalMPLoadFinished = False, CO_LocalMPLoaded = False\<rparr>"

text \<open>The loops over the instances below the count.\<close>

definition all_instances :: "int \<Rightarrow> (nat \<Rightarrow> bool) \<Rightarrow> bool" where
  "all_instances instanceCount P = list_all P [0..<nat instanceCount]"

fun kind_index :: "FrameBarrierKind \<Rightarrow> nat" where
  "kind_index Before = 0"
| "kind_index After = 1"
| "kind_index Netplay = 2"

definition GetFrameBarrier :: "FrameBarrierKind \<Rightarrow> CoordinatorState \<Rightarrow> FrameBarrier" where
  "GetFrameBarrier kind s = CO_FrameBarriers s ! kind_index kind"

definition set_barrier :: "FrameBarrierKind \<Rightarrow> FrameBarrier \<Rightarrow> CoordinatorState \<Rightarrow> CoordinatorState" where
  "set_barrier kind b s = s\<lparr>CO_FrameBarriers := (CO_FrameBarriers s)[kind_index kind := b]\<rparr>"

definition AllArrived :: "FrameBarrier \<Rightarrow> u32 \<Rightarrow> int \<Rightarrow> bool" where
  "AllArrived barrier frame instanceCount =
     all_instances instanceCount (\<lambda>i. FB_Waiting barrier ! i \<and> FB_Frame barrier ! i = frame)"

definition Release :: "FrameBarrier \<Rightarrow> int \<Rightarrow> FrameBarrier" where
  "Release barrier instanceCount = barrier\<lparr>
     FB_Waiting := replicate (nat instanceCount) False @ drop (nat instanceCount) (FB_Waiting barrier),
     FB_Generation := FB_Generation barrier + 1\<rparr>"

section \<open>The netplay start wait\<close>

datatype 'r wait_outcome = Returned 'r | Blocked int

definition ResetNetplayStartWait :: "CoordinatorState \<Rightarrow> CoordinatorState" where
  "ResetNetplayStartWait s =
     s\<lparr>CO_NetplayStartArrived := replicate 16 False, CO_NetplayStartComplete := False\<rparr>"

definition start_all_arrived :: "int \<Rightarrow> CoordinatorState \<Rightarrow> bool" where
  "start_all_arrived instanceCount s = all_instances instanceCount (\<lambda>i. CO_NetplayStartArrived s ! i)"

definition WaitForNetplayStart_enter ::
  "int \<Rightarrow> int \<Rightarrow> int \<Rightarrow> CoordinatorState \<Rightarrow> CoordinatorState \<times> NetplayStartWaitResult wait_outcome" where
  "WaitForNetplayStart_enter instanceID localInstance instanceCount s =
     (if \<not> IsValidInstance instanceID then (s, Returned TimedOut)
      else if CO_NetplayStartComplete s then (s, Returned AlreadyComplete)
      else
        let s1 = s\<lparr>CO_NetplayStartArrived := (CO_NetplayStartArrived s)[nat instanceID := True]\<rparr>
        in if instanceID = localInstance
           then (if start_all_arrived (ClampInstanceCount instanceCount) s1
                 then (s1, Returned LocalLeader) else (s1, Blocked 0))
           else (if CO_NetplayStartComplete s1 then (s1, Returned PeerComplete) else (s1, Blocked 0)))"

definition WaitForNetplayStart_wake ::
  "int \<Rightarrow> int \<Rightarrow> int \<Rightarrow> int \<Rightarrow> bool \<Rightarrow> CoordinatorState \<Rightarrow> CoordinatorState \<times> NetplayStartWaitResult wait_outcome" where
  "WaitForNetplayStart_wake instanceID localInstance instanceCount timeoutMs timedOut s =
     (if instanceID = localInstance
      then (if 0 < timeoutMs \<and> timedOut then (s, Returned LocalLeader)
            else if start_all_arrived (ClampInstanceCount instanceCount) s then (s, Returned LocalLeader)
            else (s, Blocked 0))
      else (if 0 < timeoutMs \<and> timedOut then (s, Returned TimedOut)
            else if CO_NetplayStartComplete s then (s, Returned PeerComplete)
            else (s, Blocked 0)))"

definition CompleteNetplayStartWait :: "CoordinatorState \<Rightarrow> CoordinatorState" where
  "CompleteNetplayStartWait s = s\<lparr>CO_NetplayStartComplete := True\<rparr>"

section \<open>Lockstep marks and test frames\<close>

definition IsNetplayLockstepStarted :: "int \<Rightarrow> CoordinatorState \<Rightarrow> bool" where
  "IsNetplayLockstepStarted instanceID s =
     (if \<not> IsValidInstance instanceID then False else CO_NetplayLockstepStarted s ! nat instanceID)"

definition NeedsInitialRemoteInput :: "bool \<Rightarrow> CoordinatorState \<Rightarrow> bool" where
  "NeedsInitialRemoteInput remoteInputAvailable s \<longleftrightarrow>
     \<not> CO_NetplayAnyLockstepStarted s \<and> \<not> remoteInputAvailable"

definition MarkNetplayLockstepStarted :: "int \<Rightarrow> CoordinatorState \<Rightarrow> CoordinatorState" where
  "MarkNetplayLockstepStarted instanceID s =
     (if \<not> IsValidInstance instanceID then s
      else s\<lparr>CO_NetplayLockstepStarted := (CO_NetplayLockstepStarted s)[nat instanceID := True],
             CO_NetplayAnyLockstepStarted := True\<rparr>)"

definition ResetNetplayLockstep :: "int \<Rightarrow> CoordinatorState \<Rightarrow> CoordinatorState" where
  "ResetNetplayLockstep instanceID s =
     (if \<not> IsValidInstance instanceID then s
      else s\<lparr>CO_NetplayLockstepStarted := (CO_NetplayLockstepStarted s)[nat instanceID := False],
             CO_NetplayAnyLockstepStarted := False\<rparr>)"

definition TestFrame :: "int \<Rightarrow> CoordinatorState \<Rightarrow> u32" where
  "TestFrame instanceID s =
     (if \<not> IsValidInstance instanceID then 0 else CO_TestFrame s ! nat instanceID)"

definition AdvanceTestFrame :: "int \<Rightarrow> CoordinatorState \<Rightarrow> u32 \<times> CoordinatorState" where
  "AdvanceTestFrame instanceID s =
     (if \<not> IsValidInstance instanceID then (0, s)
      else let f = CO_TestFrame s ! nat instanceID + 1
           in (f, s\<lparr>CO_TestFrame := (CO_TestFrame s)[nat instanceID := f]\<rparr>))"

definition AllTestFramesReached :: "int \<Rightarrow> u32 \<Rightarrow> CoordinatorState \<Rightarrow> bool" where
  "AllTestFramesReached instanceCount target s =
     all_instances (ClampInstanceCount instanceCount) (\<lambda>i. \<not> CO_TestFrame s ! i < target)"

section \<open>The frame barrier\<close>

definition WaitAtFrameBarrier_enter ::
  "FrameBarrierKind \<Rightarrow> int \<Rightarrow> u32 \<Rightarrow> int \<Rightarrow> CoordinatorState \<Rightarrow> CoordinatorState \<times> bool wait_outcome" where
  "WaitAtFrameBarrier_enter kind instanceID frame instanceCount s =
     (let count = ClampInstanceCount instanceCount in
      if \<not> IsValidInstance instanceID \<or> count \<le> instanceID then (s, Returned True)
      else
        let barrier = GetFrameBarrier kind s;
            generation = FB_Generation barrier;
            barrier1 = barrier\<lparr>FB_Waiting := (FB_Waiting barrier)[nat instanceID := True],
                                FB_Frame := (FB_Frame barrier)[nat instanceID := frame]\<rparr>
        in if AllArrived barrier1 frame count
           then (set_barrier kind (Release barrier1 count) s, Returned True)
           else (set_barrier kind barrier1 s, Blocked generation))"

definition WaitAtFrameBarrier_wake ::
  "FrameBarrierKind \<Rightarrow> int \<Rightarrow> u32 \<Rightarrow> int \<Rightarrow> int \<Rightarrow> int \<Rightarrow> bool \<Rightarrow> CoordinatorState
     \<Rightarrow> CoordinatorState \<times> bool wait_outcome" where
  "WaitAtFrameBarrier_wake kind instanceID frame instanceCount timeoutMs generation timedOut s =
     (let count = ClampInstanceCount instanceCount; barrier = GetFrameBarrier kind s in
      if 0 < timeoutMs \<and> timedOut
      then (set_barrier kind (barrier\<lparr>FB_Waiting := (FB_Waiting barrier)[nat instanceID := False]\<rparr>) s,
            Returned False)
      else if AllArrived barrier frame count
      then (set_barrier kind (Release barrier count) s, Returned True)
      else if FB_Generation barrier = generation then (s, Blocked generation)
      else (s, Returned True))"

section \<open>Serial turns\<close>

definition serial_turn :: "int \<Rightarrow> u32 \<Rightarrow> CoordinatorState \<Rightarrow> bool" where
  "serial_turn instanceID frame s \<longleftrightarrow> CO_SerialFrame s = frame \<and> CO_SerialInstance s = instanceID"

definition WaitForSerialTurn_enter :: "int \<Rightarrow> u32 \<Rightarrow> int \<Rightarrow> CoordinatorState \<Rightarrow> bool wait_outcome" where
  "WaitForSerialTurn_enter instanceID frame instanceCount s =
     (if \<not> IsValidInstance instanceID \<or> ClampInstanceCount instanceCount \<le> instanceID
      then Returned True
      else if serial_turn instanceID frame s then Returned True else Blocked 0)"

definition WaitForSerialTurn_wake :: "int \<Rightarrow> u32 \<Rightarrow> int \<Rightarrow> bool \<Rightarrow> CoordinatorState \<Rightarrow> bool wait_outcome" where
  "WaitForSerialTurn_wake instanceID frame timeoutMs timedOut s =
     (if 0 < timeoutMs \<and> timedOut then Returned False
      else if serial_turn instanceID frame s then Returned True else Blocked 0)"

definition AdvanceSerialTurn :: "int \<Rightarrow> u32 \<Rightarrow> int \<Rightarrow> CoordinatorState \<Rightarrow> CoordinatorState" where
  "AdvanceSerialTurn instanceID frame instanceCount s =
     (let count = ClampInstanceCount instanceCount in
      if \<not> IsValidInstance instanceID \<or> count \<le> instanceID then s
      else if CO_SerialFrame s \<noteq> frame \<or> CO_SerialInstance s \<noteq> instanceID then s
      else
        let s1 = s\<lparr>CO_SerialInstance := CO_SerialInstance s + 1\<rparr>
        in if count \<le> CO_SerialInstance s1
           then s1\<lparr>CO_SerialInstance := 0, CO_SerialFrame := CO_SerialFrame s1 + 1\<rparr>
           else s1)"

section \<open>Saved and loaded states\<close>

definition IsStateSaved :: "int \<Rightarrow> CoordinatorState \<Rightarrow> bool" where
  "IsStateSaved instanceID s =
     (if \<not> IsValidInstance instanceID then False else CO_StateSaved s ! nat instanceID)"

definition MarkStateSaved :: "int \<Rightarrow> CoordinatorState \<Rightarrow> CoordinatorState" where
  "MarkStateSaved instanceID s =
     (if \<not> IsValidInstance instanceID then s
      else s\<lparr>CO_StateSaved := (CO_StateSaved s)[nat instanceID := True]\<rparr>)"

definition AllStatesSaved :: "int \<Rightarrow> CoordinatorState \<Rightarrow> bool" where
  "AllStatesSaved instanceCount s =
     all_instances (ClampInstanceCount instanceCount) (\<lambda>i. CO_StateSaved s ! i)"

definition TryBeginLocalMPSave :: "int \<Rightarrow> CoordinatorState \<Rightarrow> bool \<times> CoordinatorState" where
  "TryBeginLocalMPSave instanceCount s =
     (if CO_LocalMPSaved s then (False, s)
      else if \<not> all_instances (ClampInstanceCount instanceCount) (\<lambda>i. CO_StateSaved s ! i)
      then (False, s)
      else (True, s\<lparr>CO_LocalMPSaved := True\<rparr>))"

definition IsStateLoaded :: "int \<Rightarrow> CoordinatorState \<Rightarrow> bool" where
  "IsStateLoaded instanceID s =
     (if \<not> IsValidInstance instanceID then False else CO_StateLoaded s ! nat instanceID)"

definition MarkStateLoaded :: "int \<Rightarrow> CoordinatorState \<Rightarrow> CoordinatorState" where
  "MarkStateLoaded instanceID s =
     (if \<not> IsValidInstance instanceID then s
      else s\<lparr>CO_StateLoaded := (CO_StateLoaded s)[nat instanceID := True]\<rparr>)"

definition AllStatesLoaded :: "int \<Rightarrow> CoordinatorState \<Rightarrow> bool" where
  "AllStatesLoaded instanceCount s =
     all_instances (ClampInstanceCount instanceCount) (\<lambda>i. CO_StateLoaded s ! i)"

definition TryBeginLocalMPLoad :: "CoordinatorState \<Rightarrow> bool \<times> CoordinatorState" where
  "TryBeginLocalMPLoad s =
     (if CO_LocalMPLoadStarted s then (False, s) else (True, s\<lparr>CO_LocalMPLoadStarted := True\<rparr>))"

definition FinishLocalMPLoad :: "bool \<Rightarrow> CoordinatorState \<Rightarrow> CoordinatorState" where
  "FinishLocalMPLoad loaded s = s\<lparr>CO_LocalMPLoaded := loaded, CO_LocalMPLoadFinished := True\<rparr>"

definition LocalMPLoadStatus :: "CoordinatorState \<Rightarrow> bool \<times> bool" where
  "LocalMPLoadStatus s = (CO_LocalMPLoadFinished s, CO_LocalMPLoaded s)"

section \<open>The frame barrier keeps the instances in lockstep\<close>

lemma all_instances_int [simp]: "all_instances (int n) P \<longleftrightarrow> (\<forall>i < n. P i)"
  by (auto simp: all_instances_def list_all_iff)

lemma ClampInstanceCount_int [simp]: "1 \<le> n \<Longrightarrow> n \<le> 16 \<Longrightarrow> ClampInstanceCount (int n) = int n"
  by (simp add: ClampInstanceCount_def clamp_def kMaxInstances_def)

lemma IsValidInstance_int [simp]: "IsValidInstance (int i) \<longleftrightarrow> i < 16"
  by (simp add: IsValidInstance_def kMaxInstances_def)

lemma kind_index_less [simp]: "kind_index kind < 3"
  by (cases kind) simp_all

lemma GetFrameBarrier_set [simp]:
  "length (CO_FrameBarriers s) = 3 \<Longrightarrow> GetFrameBarrier kind (set_barrier kind b s) = b"
  by (simp add: GetFrameBarrier_def set_barrier_def)

lemma length_set_barrier [simp]:
  "length (CO_FrameBarriers (set_barrier kind b s)) = length (CO_FrameBarriers s)"
  by (simp add: set_barrier_def)

lemma Release_simps [simp]:
  "FB_Generation (Release b c) = FB_Generation b + 1" "FB_Frame (Release b c) = FB_Frame b"
  by (simp_all add: Release_def)

lemma Release_Waiting:
  "n \<le> length (FB_Waiting b) \<Longrightarrow> length (FB_Waiting (Release b (int n))) = length (FB_Waiting b)
     \<and> (\<forall>i < n. \<not> FB_Waiting (Release b (int n)) ! i)"
  by (auto simp: Release_def nth_append)

text \<open>
  The threads of \<open>n\<close> instances that pass the barrier once per frame, without timeouts. The
  state is the coordinator, where each thread is (outside, or blocked with the generation it
  saved), and how many frames each has passed; a thread calls the barrier for the next frame.
\<close>

type_synonym barrier_threads = "CoordinatorState \<times> (nat \<Rightarrow> int option) \<times> (nat \<Rightarrow> nat)"

inductive barrier_run :: "FrameBarrierKind \<Rightarrow> nat \<Rightarrow> barrier_threads \<Rightarrow> bool" for kind n where
  start: "barrier_run kind n (Coordinator_init, \<lambda>_. None, \<lambda>_. 0)"
| enter_pass: "barrier_run kind n (s, pc, passed) \<Longrightarrow> i < n \<Longrightarrow> pc i = None \<Longrightarrow>
    WaitAtFrameBarrier_enter kind (int i) (of_nat (passed i)) (int n) s = (s', Returned r) \<Longrightarrow>
    barrier_run kind n (s', pc, passed(i := Suc (passed i)))"
| enter_block: "barrier_run kind n (s, pc, passed) \<Longrightarrow> i < n \<Longrightarrow> pc i = None \<Longrightarrow>
    WaitAtFrameBarrier_enter kind (int i) (of_nat (passed i)) (int n) s = (s', Blocked g) \<Longrightarrow>
    barrier_run kind n (s', pc(i := Some g), passed)"
| wake_pass: "barrier_run kind n (s, pc, passed) \<Longrightarrow> i < n \<Longrightarrow> pc i = Some g \<Longrightarrow>
    WaitAtFrameBarrier_wake kind (int i) (of_nat (passed i)) (int n) timeoutMs g False s = (s', Returned r) \<Longrightarrow>
    barrier_run kind n (s', pc(i := None), passed(i := Suc (passed i)))"
| wake_block: "barrier_run kind n (s, pc, passed) \<Longrightarrow> i < n \<Longrightarrow> pc i = Some g \<Longrightarrow>
    WaitAtFrameBarrier_wake kind (int i) (of_nat (passed i)) (int n) timeoutMs g False s = (s', Blocked g') \<Longrightarrow>
    barrier_run kind n (s', pc(i := Some g'), passed)"

definition thread_ok :: "FrameBarrier \<Rightarrow> int option \<Rightarrow> nat \<Rightarrow> nat \<Rightarrow> bool" where
  "thread_ok b p k i = (case p of
     None \<Rightarrow> \<not> FB_Waiting b ! i \<and> int k = FB_Generation b
   | Some g \<Rightarrow>
       (g = FB_Generation b \<and> FB_Waiting b ! i \<and> int k = FB_Generation b
          \<and> FB_Frame b ! i = of_nat k)
       \<or> (g = FB_Generation b - 1 \<and> \<not> FB_Waiting b ! i \<and> int k = FB_Generation b - 1))"

definition barrier_ok :: "FrameBarrierKind \<Rightarrow> nat \<Rightarrow> barrier_threads \<Rightarrow> bool" where
  "barrier_ok kind n t = (case t of (s, pc, passed) \<Rightarrow>
     let b = GetFrameBarrier kind s in
     length (CO_FrameBarriers s) = 3 \<and> length (FB_Waiting b) = 16 \<and> length (FB_Frame b) = 16
     \<and> (\<forall>i < n. thread_ok b (pc i) (passed i) i) \<and> (\<exists>i < n. \<not> FB_Waiting b ! i))"

lemma barrier_okD:
  assumes "barrier_ok kind n (s, pc, passed)"
  shows "length (CO_FrameBarriers s) = 3" "length (FB_Waiting (GetFrameBarrier kind s)) = 16"
    "length (FB_Frame (GetFrameBarrier kind s)) = 16"
    "i < n \<Longrightarrow> thread_ok (GetFrameBarrier kind s) (pc i) (passed i) i"
    "\<exists>i < n. \<not> FB_Waiting (GetFrameBarrier kind s) ! i"
  using assms by (auto simp: barrier_ok_def Let_def)

lemma wake_cases:
  assumes ok: "barrier_ok kind n (s, pc, passed)" and n: "1 \<le> n" "n \<le> 16" and i: "i < n" "pc i = Some g"
  shows "WaitAtFrameBarrier_wake kind (int i) f (int n) timeoutMs g False s =
     (s, if FB_Generation (GetFrameBarrier kind s) = g then Blocked g else Returned True)"
  using n barrier_okD(5) [OF ok] by (auto simp: WaitAtFrameBarrier_wake_def Let_def AllArrived_def)

text \<open>Entering: either some other thread is missing, or the barrier is released.\<close>

definition arrive :: "nat \<Rightarrow> u32 \<Rightarrow> FrameBarrier \<Rightarrow> FrameBarrier" where
  "arrive i f b = b\<lparr>FB_Waiting := (FB_Waiting b)[i := True], FB_Frame := (FB_Frame b)[i := f]\<rparr>"

lemma enter_cases:
  assumes "1 \<le> n" "n \<le> 16" "i < n"
  shows "WaitAtFrameBarrier_enter kind (int i) f (int n) s =
     (let b = arrive i f (GetFrameBarrier kind s) in
      if AllArrived b f (int n) then (set_barrier kind (Release b (int n)) s, Returned True)
      else (set_barrier kind b s, Blocked (FB_Generation (GetFrameBarrier kind s))))"
  using assms by (simp add: WaitAtFrameBarrier_enter_def Let_def arrive_def)

lemma thread_ok_arrive:
  assumes "i \<noteq> j" "thread_ok b p k i"
  shows "thread_ok (arrive j f b) p k i"
  using assms by (auto simp: thread_ok_def arrive_def split: option.splits)

lemma thread_ok_release:
  assumes "thread_ok b p k i" "FB_Waiting b ! i" "i < n" "n \<le> length (FB_Waiting b)"
  shows "thread_ok (Release b (int n)) p k i"
  using assms Release_Waiting [of n b] by (auto simp: thread_ok_def split: option.splits)

lemma enter_ok:
  assumes ok: "barrier_ok kind n (s, pc, passed)" and n: "1 \<le> n" "n \<le> 16" and i: "i < n" "pc i = None"
    and e: "WaitAtFrameBarrier_enter kind (int i) (of_nat (passed i)) (int n) s = (s', out)"
  shows "(case out of Returned r \<Rightarrow> barrier_ok kind n (s', pc, passed(i := Suc (passed i)))
     | Blocked g \<Rightarrow> barrier_ok kind n (s', pc(i := Some g), passed))"
proof -
  let ?b = "GetFrameBarrier kind s" and ?f = "of_nat (passed i) :: u32"
  let ?a = "arrive i ?f ?b"
  note D = barrier_okD [OF ok]
  have len: "length (FB_Waiting ?a) = 16" "length (FB_Frame ?a) = 16" "FB_Generation ?a = FB_Generation ?b"
    using D by (simp_all add: arrive_def)
  have ti: "int (passed i) = FB_Generation ?b"
    using D(4) [OF i(1)] i(2) by (simp add: thread_ok_def)
  have self: "FB_Waiting ?a ! i" "FB_Frame ?a ! i = ?f"
    using D(2,3) i n by (simp_all add: arrive_def)
  have others: "thread_ok ?a (pc j) (passed j) j" if "j < n" "j \<noteq> i" for j
    using D(4) [OF that(1)] that(2) by (intro thread_ok_arrive)
  have self_ok: "thread_ok ?a (Some (FB_Generation ?b)) (passed i) i"
    using self ti len by (simp add: thread_ok_def)
  have frames: "FB_Frame ?a ! j = ?f" if "j < n" "FB_Waiting ?a ! j" for j
  proof (cases "j = i")
    case False
    with others [of j] that have "FB_Frame ?a ! j = of_nat (passed j)" "passed j = passed i"
      using ti len by (auto simp: thread_ok_def split: option.splits)
    then show ?thesis by simp
  qed (use self in simp)
  show ?thesis
  proof (cases "\<forall>j < n. FB_Waiting ?a ! j")
    case True
    then have all: "AllArrived ?a ?f (int n)"
      using frames by (simp add: AllArrived_def)
    then have out: "s' = set_barrier kind (Release ?a (int n)) s" "out = Returned True"
      using e enter_cases [OF n i(1), of kind ?f s] by (simp_all add: Let_def)
    have rel: "length (FB_Waiting (Release ?a (int n))) = 16" "\<forall>j < n. \<not> FB_Waiting (Release ?a (int n)) ! j"
      using Release_Waiting [of n ?a] n(2) len(1) by auto
    have "thread_ok (Release ?a (int n)) (pc j) ((passed(i := Suc (passed i))) j) j" if "j < n" for j
    proof (cases "j = i")
      case True
      with rel i ti len show ?thesis by (simp add: thread_ok_def)
    next
      case False
      with others [OF that] True that n(2) len(1) show ?thesis
        by (simp add: thread_ok_release \<open>\<forall>j < n. FB_Waiting ?a ! j\<close>)
    qed
    moreover have "\<exists>j < n. \<not> FB_Waiting (Release ?a (int n)) ! j"
      using rel(2) i(1) by blast
    ultimately show ?thesis
      using out rel len D(1) by (simp add: barrier_ok_def Let_def)
  next
    case False
    then have "\<not> AllArrived ?a ?f (int n)"
      by (auto simp: AllArrived_def)
    then have out: "s' = set_barrier kind ?a s" "out = Blocked (FB_Generation ?b)"
      using e enter_cases [OF n i(1), of kind ?f s] by (simp_all add: Let_def)
    have "thread_ok ?a ((pc(i := Some (FB_Generation ?b))) j) (passed j) j" if "j < n" for j
      using others [OF that] self_ok by (cases "j = i") simp_all
    with False out len D(1) show ?thesis
      by (auto simp: barrier_ok_def Let_def)
  qed
qed

lemma wake_pass_ok:
  assumes ok: "barrier_ok kind n (s, pc, passed)" and i: "i < n" "pc i = Some g"
    and g: "FB_Generation (GetFrameBarrier kind s) \<noteq> g"
  shows "barrier_ok kind n (s, pc(i := None), passed(i := Suc (passed i)))"
proof -
  note D = barrier_okD [OF ok]
  have "thread_ok (GetFrameBarrier kind s) None (Suc (passed i)) i"
    using D(4) [OF i(1)] i(2) g by (auto simp: thread_ok_def)
  with ok show ?thesis
    by (auto simp: barrier_ok_def Let_def)
qed

lemma barrier_run_ok:
  assumes n: "1 \<le> n" "n \<le> 16"
  shows "barrier_run kind n t \<Longrightarrow> barrier_ok kind n t"
proof (induction rule: barrier_run.induct)
  case start
  have "GetFrameBarrier kind Coordinator_init = FrameBarrier_init"
    by (cases kind) (simp_all add: GetFrameBarrier_def Coordinator_init_def numeral_3_eq_3)
  moreover have "\<exists>i < n. \<not> replicate 16 False ! i"
    using n by (intro exI [of _ 0]) simp
  ultimately show ?case
    using n by (simp add: barrier_ok_def Let_def FrameBarrier_init_def thread_ok_def)
      (simp add: Coordinator_init_def)
next
  case (enter_pass s pc passed i s' r)
  with enter_ok [OF enter_pass.IH n enter_pass(2-4)] show ?case by simp
next
  case (enter_block s pc passed i s' g)
  with enter_ok [OF enter_block.IH n enter_block(2-4)] show ?case by simp
next
  case (wake_pass s pc passed i g timeoutMs s' r)
  then have "s' = s" "FB_Generation (GetFrameBarrier kind s) \<noteq> g"
    using wake_cases [OF wake_pass.IH n wake_pass(2,3)] by (auto split: if_splits)
  with wake_pass_ok [OF wake_pass.IH wake_pass(2,3)] show ?case by simp
next
  case (wake_block s pc passed i g timeoutMs s' g')
  then have "s' = s" "g' = g"
    using wake_cases [OF wake_block.IH n wake_block(2,3)] by (auto split: if_splits)
  with wake_block have "pc(i := Some g') = pc"
    by auto
  with wake_block \<open>s' = s\<close> show ?case by simp
qed

text \<open>C34: The frame barrier keeps the instances in lockstep. Whatever the interleaving of up to 16
  threads that pass the barrier frame after frame without timing out, no thread is ever more
  than one frame ahead of another: a thread that has passed frame \<open>f\<close> knows that every other
  thread has passed or reached the barrier of frame \<open>f\<close>.\<close>

theorem frame_barrier_lockstep:
  assumes "1 \<le> n" "n \<le> 16" "barrier_run kind n (s, pc, passed)" "i < n" "j < n"
  shows "passed i \<le> passed j + 1 \<and> (passed j < passed i \<longrightarrow> pc j \<noteq> None)"
proof -
  note D = barrier_okD [OF barrier_run_ok [OF assms(1-3)]]
  from D(4) [OF assms(4)] D(4) [OF assms(5)] show ?thesis
    by (auto simp: thread_ok_def split: option.splits)
qed

text \<open>All threads have arrived at the barrier of a frame: each has passed it or is blocked at it.\<close>

definition all_arrived :: "nat \<Rightarrow> (nat \<Rightarrow> int option) \<Rightarrow> (nat \<Rightarrow> nat) \<Rightarrow> nat \<Rightarrow> bool" where
  "all_arrived n pc passed f \<longleftrightarrow> (\<forall>j < n. f < passed j \<or> passed j = f \<and> pc j \<noteq> None)"

lemma released_iff_arrived:
  assumes ok: "barrier_ok kind n (s, pc, passed)" and i: "i < n" "pc i = Some g"
  shows "FB_Generation (GetFrameBarrier kind s) \<noteq> g \<longleftrightarrow> all_arrived n pc passed (passed i)"
proof
  note D = barrier_okD [OF ok]
  assume "FB_Generation (GetFrameBarrier kind s) \<noteq> g"
  then have "int (passed i) = FB_Generation (GetFrameBarrier kind s) - 1"
    using D(4) [OF i(1)] i(2) by (auto simp: thread_ok_def)
  then show "all_arrived n pc passed (passed i)"
    using D(4) by (fastforce simp: all_arrived_def thread_ok_def split: option.splits)
next
  note D = barrier_okD [OF ok]
  assume arr: "all_arrived n pc passed (passed i)"
  obtain j where j: "j < n" "\<not> FB_Waiting (GetFrameBarrier kind s) ! j"
    using D(5) by blast
  from arr j(1) have "passed i < passed j \<or> passed j = passed i \<and> pc j \<noteq> None"
    by (auto simp: all_arrived_def)
  then show "FB_Generation (GetFrameBarrier kind s) \<noteq> g"
    using D(4) [OF i(1)] D(4) [OF j(1)] i(2) j(2) by (auto simp: thread_ok_def split: option.splits)
qed

lemma some_thread_free:
  assumes "1 \<le> n"
  shows "\<exists>i < n. pc i = None \<or> all_arrived n pc passed (passed i)"
proof -
  have "finite {..<n}" "{..<n} \<noteq> {}"
    using assms by (auto simp: lessThan_empty_iff)
  then obtain i where i: "i < n" "\<And>j. j < n \<Longrightarrow> passed i \<le> passed j"
    using arg_min_if_finite [of "{..<n}" passed] by (metis lessThan_iff not_le)
  show ?thesis
  proof (cases "\<forall>j < n. pc j \<noteq> None")
    case True
    with i have "all_arrived n pc passed (passed i)"
      unfolding all_arrived_def by (metis le_neq_implies_less)
    with i(1) show ?thesis
      by blast
  qed auto
qed

text \<open>C35: The frame barrier makes progress. In every reachable state of such a run, each blocked thread
  whose frame all the threads have reached (each of them has passed the barrier of the frame or is
  blocked at it) returns at its next wake-up, and a blocked thread for which one has not come yet goes
  on waiting. There is no deadlock: some thread is outside the barrier, or is one whose frame all have
  reached.\<close>

theorem frame_barrier_progress:
  assumes "1 \<le> n" "n \<le> 16" "barrier_run kind n (s, pc, passed)"
  shows "(\<forall>i g timeoutMs. i < n \<and> pc i = Some g \<longrightarrow>
      WaitAtFrameBarrier_wake kind (int i) (of_nat (passed i)) (int n) timeoutMs g False s =
        (s, if all_arrived n pc passed (passed i) then Returned True else Blocked g))
    \<and> (\<exists>i < n. pc i = None \<or> all_arrived n pc passed (passed i))"
proof (intro conjI allI impI)
  note ok = barrier_run_ok [OF assms]
  show "WaitAtFrameBarrier_wake kind (int i) (of_nat (passed i)) (int n) timeoutMs g False s =
      (s, if all_arrived n pc passed (passed i) then Returned True else Blocked g)"
    if "i < n \<and> pc i = Some g" for i g timeoutMs
  proof -
    have i: "i < n" "pc i = Some g"
      using that by simp_all
    show ?thesis
      unfolding wake_cases [OF ok assms(1,2) i] released_iff_arrived [OF ok i, symmetric] by simp
  qed
qed (rule some_thread_free [OF assms(1)])

text \<open>Two threads at the first barrier: one arrives and blocks, the other arrives and passes.\<close>

lemma barrier_run_two:
  "\<exists>s1 s2. barrier_run Before 2 (s1, (\<lambda>_. None)(0 := Some 0), \<lambda>_. 0)
     \<and> barrier_run Before 2 (s2, (\<lambda>_. None)(0 := Some 0), (\<lambda>_. 0)(1 := 1))"
proof -
  define s1 where "s1 = fst (WaitAtFrameBarrier_enter Before 0 0 2 Coordinator_init)"
  define s2 where "s2 = fst (WaitAtFrameBarrier_enter Before 1 0 2 s1)"
  have "snd (WaitAtFrameBarrier_enter Before 0 0 2 Coordinator_init) = Blocked 0"
    by code_simp
  then have e1: "WaitAtFrameBarrier_enter Before 0 0 2 Coordinator_init = (s1, Blocked 0)"
    unfolding s1_def by (metis prod.collapse)
  have r1: "barrier_run Before 2 (s1, (\<lambda>_. None)(0 := Some 0), \<lambda>_. 0)"
    by (rule barrier_run.enter_block [OF barrier_run.start]) (simp_all add: e1)
  have "snd (WaitAtFrameBarrier_enter Before 1 0 2 (fst (WaitAtFrameBarrier_enter Before 0 0 2 Coordinator_init)))
      = Returned True"
    by code_simp
  then have e2: "WaitAtFrameBarrier_enter Before 1 0 2 s1 = (s2, Returned True)"
    unfolding s2_def s1_def by (metis prod.collapse)
  have "barrier_run Before 2 (s2, (\<lambda>_. None)(0 := Some 0), (\<lambda>_. 0)(1 := Suc 0))"
    using barrier_run.enter_pass [OF r1, of 1 s2 True] e2 by simp
  with r1 show ?thesis by auto
qed

theorem frame_barrier_lockstep_witness:
  "\<exists>s. barrier_run Before 2 (s, (\<lambda>_. None)(0 := Some 0), (\<lambda>_. 0)(1 := 1))
     \<and> ((\<lambda>_. 0)(1 := 1)) (1 :: nat) \<le> ((\<lambda>_. 0)(1 := 1)) (0 :: nat) + (1 :: nat)
     \<and> ((\<lambda>_. None)(0 := Some 0)) (0 :: nat) \<noteq> (None :: int option)"
proof -
  obtain s where s: "barrier_run Before 2 (s, (\<lambda>_. None)(0 := Some 0), (\<lambda>_. 0)(1 := 1))"
    using barrier_run_two by blast
  from frame_barrier_lockstep [OF _ _ s, of 1 0] s show ?thesis
    by (intro exI [of _ s]) simp
qed

theorem frame_barrier_progress_witness:
  "\<exists>s1 s2. barrier_run Before 2 (s1, (\<lambda>_. None)(0 := Some 0), \<lambda>_. 0)
     \<and> barrier_run Before 2 (s2, (\<lambda>_. None)(0 := Some 0), (\<lambda>_. 0)(1 := 1))
     \<and> WaitAtFrameBarrier_wake Before 0 0 2 5 0 False s1 = (s1, Blocked 0)
     \<and> WaitAtFrameBarrier_wake Before 0 0 2 5 0 False s2 = (s2, Returned True)"
proof -
  obtain s1 s2 where s: "barrier_run Before 2 (s1, (\<lambda>_. None)(0 := Some 0), \<lambda>_. 0)"
      "barrier_run Before 2 (s2, (\<lambda>_. None)(0 := Some 0), (\<lambda>_. 0)(1 := 1))"
    using barrier_run_two by blast
  have arrived: "\<not> all_arrived 2 ((\<lambda>_. None)(0 := Some 0)) (\<lambda>_. 0) 0"
    "all_arrived 2 ((\<lambda>_. None)(0 := Some 0)) ((\<lambda>_. 0)(1 := 1)) 0"
    by (auto simp: all_arrived_def less_2_cases_iff)
  have "WaitAtFrameBarrier_wake Before 0 0 2 5 0 False s1 = (s1, Blocked 0)"
    using frame_barrier_progress [OF _ _ s(1), THEN conjunct1, rule_format, of 0 0 5] arrived(1) by simp
  moreover have "WaitAtFrameBarrier_wake Before 0 0 2 5 0 False s2 = (s2, Returned True)"
    using frame_barrier_progress [OF _ _ s(2), THEN conjunct1, rule_format, of 0 0 5] arrived(2) by simp
  ultimately show ?thesis
    using s by blast
qed

section \<open>Serial turns\<close>

text \<open>
  Threads that run serially: each waits for its turn, runs its frame and advances the turn. The
  state is the coordinator and which threads are running, with the frame they run.
\<close>

inductive serial_run :: "nat \<Rightarrow> CoordinatorState \<times> (nat \<Rightarrow> u32 option) \<Rightarrow> bool" for n where
  start: "serial_run n (Coordinator_init, \<lambda>_. None)"
| turn: "serial_run n (s, running) \<Longrightarrow> i < n \<Longrightarrow> running i = None \<Longrightarrow>
    WaitForSerialTurn_enter (int i) f (int n) s = Returned True \<Longrightarrow>
    serial_run n (s, running(i := Some f))"
| turn_after_wait: "serial_run n (s, running) \<Longrightarrow> i < n \<Longrightarrow> running i = None \<Longrightarrow>
    WaitForSerialTurn_wake (int i) f timeoutMs timedOut s = Returned True \<Longrightarrow>
    serial_run n (s, running(i := Some f))"
| advance: "serial_run n (s, running) \<Longrightarrow> i < n \<Longrightarrow> running i = Some f \<Longrightarrow>
    serial_run n (AdvanceSerialTurn (int i) f (int n) s, running(i := None))"

lemma serial_run_holds:
  assumes n: "1 \<le> n" "n \<le> 16"
  shows "serial_run n (s, running) \<Longrightarrow> i < n \<Longrightarrow> running i = Some f \<Longrightarrow> serial_turn (int i) f s"
proof (induction "(s, running)" arbitrary: s running i f rule: serial_run.induct)
  case start
  then show ?case by simp
next
  case (turn s running j g)
  then show ?case
    using n by (auto simp: WaitForSerialTurn_enter_def split: if_splits)
next
  case (turn_after_wait s running j g timeoutMs timedOut)
  then show ?case
    by (auto simp: WaitForSerialTurn_wake_def split: if_splits)
next
  case (advance s running j g)
  from advance(5,6) have i: "i \<noteq> j" "running i = Some f"
    by (auto split: if_splits)
  with advance have "serial_turn (int i) f s" "serial_turn (int j) g s"
    by blast+
  with i(1) show ?case
    by (simp add: serial_turn_def)
qed

text \<open>Serial turns exclude each other. Whatever the interleaving, at most one of the threads
  that wait for their serial turn is running at a time, the running thread is the instance and
  frame the coordinator names, and its advance hands the turn to the next instance of the same
  frame, or from the last instance to instance 0 of the next frame.\<close>

theorem serial_turn_exclusive:
  assumes "1 \<le> n" "n \<le> 16" "serial_run n (s, running)" "i < n" "running i = Some f"
  shows "(\<forall>j < n. running j \<noteq> None \<longrightarrow> j = i)
    \<and> CO_SerialInstance s = int i \<and> CO_SerialFrame s = f
    \<and> serial_turn (if i + 1 < n then int (i + 1) else 0) (if i + 1 < n then f else f + 1)
        (AdvanceSerialTurn (int i) f (int n) s)"
proof -
  have t: "serial_turn (int i) f s"
    by (rule serial_run_holds [OF assms])
  have "j = i" if "j < n" "running j \<noteq> None" for j
    using serial_run_holds [OF assms(1-3) that(1)] that(2) t by (auto simp: serial_turn_def)
  moreover have "serial_turn (if i + 1 < n then int (i + 1) else 0) (if i + 1 < n then f else f + 1)
      (AdvanceSerialTurn (int i) f (int n) s)"
  proof (cases "i + 1 < n")
    case True
    then have "\<not> int n \<le> int i" "\<not> int n \<le> int i + 1" "i < 16"
      using assms by linarith+
    with True t assms(1,2) show ?thesis
      by (simp add: serial_turn_def AdvanceSerialTurn_def)
  next
    case False
    then have "\<not> int n \<le> int i" "int n \<le> int i + 1" "i < 16"
      using assms by linarith+
    with False t assms(1,2) show ?thesis
      by (simp add: serial_turn_def AdvanceSerialTurn_def)
  qed
  ultimately show ?thesis
    using t by (simp add: serial_turn_def)
qed

theorem serial_turn_exclusive_witness:
  "serial_run 2 (Coordinator_init, (\<lambda>_. None)(0 := Some 0))
   \<and> serial_turn 1 0 (AdvanceSerialTurn 0 0 2 Coordinator_init)"
proof
  show r: "serial_run 2 (Coordinator_init, (\<lambda>_. None)(0 := Some 0))"
    by (rule serial_run.turn [OF serial_run.start])
      (simp_all add: WaitForSerialTurn_enter_def IsValidInstance_def kMaxInstances_def
        ClampInstanceCount_def clamp_def serial_turn_def Coordinator_init_def)
  show "serial_turn 1 0 (AdvanceSerialTurn 0 0 2 Coordinator_init)"
    using serial_turn_exclusive [OF _ _ r, of 0 0] by simp
qed

section \<open>Saving and loading the shared state once\<close>

datatype coordinator_call =
    CallResetStart
  | CallStartEnter int int int
  | CallCompleteStart
  | CallMarkLockstep int
  | CallResetLockstep int
  | CallAdvanceTest int
  | CallBarrierEnter FrameBarrierKind int u32 int
  | CallBarrierWake FrameBarrierKind int u32 int int int bool
  | CallAdvanceTurn int u32 int
  | CallMarkSaved int
  | CallTrySave int
  | CallMarkLoaded int
  | CallTryLoad
  | CallFinishLoad bool

fun coordinator_step :: "CoordinatorState \<Rightarrow> coordinator_call \<Rightarrow> CoordinatorState" where
  "coordinator_step s CallResetStart = ResetNetplayStartWait s"
| "coordinator_step s (CallStartEnter i l n) = fst (WaitForNetplayStart_enter i l n s)"
| "coordinator_step s CallCompleteStart = CompleteNetplayStartWait s"
| "coordinator_step s (CallMarkLockstep i) = MarkNetplayLockstepStarted i s"
| "coordinator_step s (CallResetLockstep i) = ResetNetplayLockstep i s"
| "coordinator_step s (CallAdvanceTest i) = snd (AdvanceTestFrame i s)"
| "coordinator_step s (CallBarrierEnter k i f n) = fst (WaitAtFrameBarrier_enter k i f n s)"
| "coordinator_step s (CallBarrierWake k i f n t g late) = fst (WaitAtFrameBarrier_wake k i f n t g late s)"
| "coordinator_step s (CallAdvanceTurn i f n) = AdvanceSerialTurn i f n s"
| "coordinator_step s (CallMarkSaved i) = MarkStateSaved i s"
| "coordinator_step s (CallTrySave n) = snd (TryBeginLocalMPSave n s)"
| "coordinator_step s (CallMarkLoaded i) = MarkStateLoaded i s"
| "coordinator_step s CallTryLoad = snd (TryBeginLocalMPLoad s)"
| "coordinator_step s (CallFinishLoad b) = FinishLocalMPLoad b s"

lemmas coordinator_defs = ResetNetplayStartWait_def WaitForNetplayStart_enter_def CompleteNetplayStartWait_def
  MarkNetplayLockstepStarted_def ResetNetplayLockstep_def AdvanceTestFrame_def WaitAtFrameBarrier_enter_def
  WaitAtFrameBarrier_wake_def AdvanceSerialTurn_def MarkStateSaved_def TryBeginLocalMPSave_def
  MarkStateLoaded_def TryBeginLocalMPLoad_def FinishLocalMPLoad_def set_barrier_def

interpretation save_claim: state_machine coordinator_step CO_LocalMPSaved
  by unfold_locales (case_tac e; simp add: coordinator_defs Let_def)

interpretation load_claim: state_machine coordinator_step CO_LocalMPLoadStarted
  by unfold_locales (case_tac e; simp add: coordinator_defs Let_def)

text \<open>The shared multiplayer state is saved and loaded by one thread only. When
  \<open>TryBeginLocalMPSave\<close> grants the save, every instance has saved its own state, and after any
  further calls by any threads it grants it to nobody else; the same holds for the load.\<close>

theorem local_mp_claimed_once:
  "(TryBeginLocalMPSave n s = (True, s') \<longrightarrow>
      AllStatesSaved n s \<and> \<not> fst (TryBeginLocalMPSave m (foldl coordinator_step s' calls)))
   \<and> (TryBeginLocalMPLoad s = (True, s') \<longrightarrow>
        \<not> fst (TryBeginLocalMPLoad (foldl coordinator_step s' calls)))"
proof (intro conjI impI)
  assume t: "TryBeginLocalMPSave n s = (True, s')"
  then show "AllStatesSaved n s"
    by (simp add: TryBeginLocalMPSave_def AllStatesSaved_def split: if_splits)
  have "CO_LocalMPSaved (foldl coordinator_step s' calls)"
    using t by (intro save_claim.run_inv) (auto simp: TryBeginLocalMPSave_def split: if_splits)
  then show "\<not> fst (TryBeginLocalMPSave m (foldl coordinator_step s' calls))"
    by (simp add: TryBeginLocalMPSave_def)
next
  assume t: "TryBeginLocalMPLoad s = (True, s')"
  have "CO_LocalMPLoadStarted (foldl coordinator_step s' calls)"
    using t by (intro load_claim.run_inv) (auto simp: TryBeginLocalMPLoad_def split: if_splits)
  then show "\<not> fst (TryBeginLocalMPLoad (foldl coordinator_step s' calls))"
    by (simp add: TryBeginLocalMPLoad_def)
qed

theorem local_mp_claimed_once_witness:
  "fst (TryBeginLocalMPSave 1 (MarkStateSaved 0 Coordinator_init))
   \<and> \<not> fst (TryBeginLocalMPSave 1 (foldl coordinator_step
        (snd (TryBeginLocalMPSave 1 (MarkStateSaved 0 Coordinator_init))) [CallMarkSaved 1, CallTrySave 2]))"
proof -
  let ?s = "MarkStateSaved 0 Coordinator_init"
  have *: "fst (TryBeginLocalMPSave 1 ?s)"
    by code_simp
  then have "TryBeginLocalMPSave 1 ?s = (True, snd (TryBeginLocalMPSave 1 ?s))"
    by (metis prod.collapse)
  with * local_mp_claimed_once [of 1 ?s "snd (TryBeginLocalMPSave 1 ?s)" 1 "[CallMarkSaved 1, CallTrySave 2]"]
  show ?thesis by blast
qed

end
