(* ===== verification/Session_Waits.thy ===== *)
theory Session_Waits
  imports Session_Delivery Coordinator
begin

text \<open>
  The blocking waits of \<^verbatim>\<open>NsmbNetplaySession.cpp\<close>: polling loops that pump the network until a
  condition holds, a deadline passes or the process ends. A loop is one function per iteration and
  \<open>poll_until\<close>, which runs it over a list of rounds; a round holds what the clock, ENet and the
  network give to one iteration. A list that is used up gives \<^term>\<open>None\<close>: the wait has not
  returned yet. The termination theorems bound the number of rounds for a clock that advances by
  the millisecond each iteration sleeps. \<^verbatim>\<open>std::_Exit\<close> and a failed recovery are the error side of a
  sum. Trace output and the hang diagnostics are left out.
\<close>

section \<open>Polling\<close>

datatype WaitExit = RecoveryExit RecoveryFailure | ExitCode int

record wait_round =
  WR_Env :: NetEnv
  WR_Events :: "pump_event list"

abbreviation round_now :: "wait_round \<Rightarrow> time_point" where
  "round_now r \<equiv> NE_Now (WR_Env r)"

datatype ('r, 's) poll = Leave "WaitExit + 'r \<times> Session" | Again 's

fun poll_until :: "(wait_round \<Rightarrow> 's \<Rightarrow> ('r, 's) poll) \<Rightarrow> wait_round list \<Rightarrow> 's
    \<Rightarrow> (WaitExit + 'r \<times> Session) option" where
  "poll_until body [] s = None"
| "poll_until body (r # rs) s =
     (case body r s of Leave x \<Rightarrow> Some x | Again s1 \<Rightarrow> poll_until body rs s1)"

text \<open>One pump at the head of an iteration.\<close>

definition after_pump ::
  "wait_round \<Rightarrow> u32 \<Rightarrow> Session \<Rightarrow> (Session \<Rightarrow> ('r, 's) poll) \<Rightarrow> ('r, 's) poll" where
  "after_pump r localFrame s continue =
     (case PumpLocked (WR_Env r) (WR_Events r) localFrame s of
        Inl failure \<Rightarrow> Leave (Inl (RecoveryExit failure))
      | Inr s1 \<Rightarrow> continue s1)"

text \<open>\<^verbatim>\<open>duration_cast\<close> of a duration in nanoseconds, and the conversion to \<^verbatim>\<open>unsigned long long\<close>.\<close>

definition elapsed_us :: "time_point \<Rightarrow> time_point \<Rightarrow> int" where
  "elapsed_us now start = (now - start) sdiv 1000"

definition elapsed_ms :: "time_point \<Rightarrow> time_point \<Rightarrow> int" where
  "elapsed_ms now start = (now - start) sdiv 1000000"

definition waited_count :: "int \<Rightarrow> u64" where
  "waited_count elapsed = word_of_int (max 0 elapsed)"

definition begin_recovery_after_second :: "time_point \<Rightarrow> NetEnv \<Rightarrow> Session \<Rightarrow> Session" where
  "begin_recovery_after_second start env s =
     (if RecoveryEnabled s \<and> milliseconds 1000 \<le> NE_Now env - start then BeginRecovery env s else s)"

definition before_epoch :: "u32 \<Rightarrow> Session \<Rightarrow> bool" where
  "before_epoch targetFrame s \<longleftrightarrow> (BC_Only (NS_PacketBridge s) \<or> IC_NetplayOnly (NS_Input s))
     \<and> CC_SharedLogicalEpoch (NS_Connection s) \<noteq> 0
     \<and> targetFrame < CC_SharedLogicalEpoch (NS_Connection s)"

section \<open>Waiting for a remote input\<close>

definition record_wait :: "u64 \<Rightarrow> nat \<Rightarrow> Session \<Rightarrow> Session" where
  "record_wait waitedUs loops s =
     s\<lparr>NS_Inputs := RecordRemoteInputWait waitedUs (of_nat loops) (NS_Inputs s)\<rparr>"

definition mark_remote_wait :: "u32 \<Rightarrow> u64 \<Rightarrow> Session \<Rightarrow> Session" where
  "mark_remote_wait targetFrame waitedUs s =
     (if IC_HealthTrace (NS_Input s)
         \<and> word_of_int (IC_HealthTraceWaitThresholdMs (NS_Input s)) * 1000 \<le> waitedUs
         \<and> TR_LastInputHealthRemoteWaitFrame (NS_Inputs s) \<noteq> targetFrame
      then s\<lparr>NS_Inputs := (NS_Inputs s)\<lparr>TR_LastInputHealthRemoteWaitFrame := targetFrame\<rparr>\<rparr> else s)"

definition test_wait_expired :: "time_point \<Rightarrow> time_point \<Rightarrow> Session \<Rightarrow> bool" where
  "test_wait_expired start now s \<longleftrightarrow> NS_TestEnabled s \<and> 0 < BO_WaitTimeoutMs (NS_Bootstrap s)
     \<and> \<not> RecoveryEnabled s \<and> BO_WaitTimeoutMs (NS_Bootstrap s) \<le> elapsed_ms now start"

definition remote_input_round ::
  "time_point \<Rightarrow> u32 \<Rightarrow> wait_round \<Rightarrow> nat \<times> Session \<Rightarrow> (InputState, nat \<times> Session) poll" where
  "remote_input_round start targetFrame r = (\<lambda>(loops0, s).
     let env = WR_Env r; loops = loops0 + 1;
         waitedUs = waited_count (elapsed_us (NE_Now env) start)
     in after_pump r 0 s (\<lambda>s1.
          case TryGetRemoteInputLocked targetFrame
                 (MaybeResendLatestInputForFrameLeadLocked env (MaybeResendStartReadyLocked env False s1)) of
            (Some input, s2) \<Rightarrow>
              Leave (Inr (input, mark_remote_wait targetFrame waitedUs (record_wait waitedUs loops s2)))
          | (None, s2) \<Rightarrow>
              let s3 = begin_recovery_after_second start env s2
              in if test_wait_expired start (NE_Now env) s3
                 then if CC_RemoteInputTimeoutFatal (NS_Connection s3) then Leave (Inl (ExitCode 70))
                      else Leave (Inr (InputState_default, record_wait waitedUs loops s3))
                 else Again (loops, s3)))"

definition WaitForRemoteInput ::
  "time_point \<Rightarrow> u32 \<Rightarrow> wait_round list \<Rightarrow> Session \<Rightarrow> (WaitExit + InputState \<times> Session) option" where
  "WaitForRemoteInput start targetFrame rounds s =
     (if before_epoch targetFrame s then Some (Inr (InputState_default, s))
      else poll_until (remote_input_round start targetFrame) rounds (0, s))"

definition rollback_input_round :: "time_point \<Rightarrow> u32 \<Rightarrow> u32 \<Rightarrow> wait_round \<Rightarrow> nat \<times> Session
    \<Rightarrow> (InputState option, nat \<times> Session) poll" where
  "rollback_input_round start localFrame targetFrame r = (\<lambda>(loops0, s).
     let loops = loops0 + 1; elapsed = elapsed_us (round_now r) start
     in after_pump r localFrame s (\<lambda>s1.
          case fmlookup (TR_RemoteInputs (NS_Inputs s1)) targetFrame of
            Some input \<Rightarrow> Leave (Inr (Some input, record_wait (waited_count elapsed) loops s1))
          | None \<Rightarrow>
              if RB_InputWaitUs (NS_Rollback s1) - elapsed \<le> 0
              then Leave (Inr (None, record_wait (waited_count elapsed) loops s1))
              else Again (loops, s1)))"

definition TryWaitForRollbackRemoteInputLocked :: "time_point \<Rightarrow> bool \<Rightarrow> u32 \<Rightarrow> u32 \<Rightarrow> wait_round list
    \<Rightarrow> Session \<Rightarrow> (WaitExit + InputState option \<times> Session) option" where
  "TryWaitForRollbackRemoteInputLocked start ownsLock localFrame targetFrame rounds s =
     (if RB_InputWaitUs (NS_Rollback s) \<le> 0 \<or> \<not> ownsLock then Some (Inr (None, s))
      else if before_epoch targetFrame s then Some (Inr (None, s))
      else poll_until (rollback_input_round start localFrame targetFrame) rounds (0, s))"

section \<open>Waiting for the peer and the seed\<close>

definition seed_wait_expired :: "time_point \<Rightarrow> time_point \<Rightarrow> Session \<Rightarrow> bool" where
  "seed_wait_expired start now s \<longleftrightarrow> 0 < HA_SeedWaitTimeoutMs (NS_Harness s)
     \<and> HA_SeedWaitTimeoutMs (NS_Harness s) \<le> elapsed_ms now start"

definition match_seed_round :: "time_point \<Rightarrow> wait_round \<Rightarrow> Session \<Rightarrow> (unit, Session) poll" where
  "match_seed_round start r s =
     after_pump r 0 s (\<lambda>s1.
       if MC_MatchSeedConfigured (NS_Mvl s1) \<or> seed_wait_expired start (round_now r) s1
       then Leave (Inr ((), s1)) else Again s1)"

definition WaitForMatchSeed ::
  "time_point \<Rightarrow> wait_round list \<Rightarrow> Session \<Rightarrow> (WaitExit + unit \<times> Session) option" where
  "WaitForMatchSeed start rounds s =
     (if \<not> NS_Enabled s \<or> NS_Host s \<or> MC_MatchSeedConfigured (NS_Mvl s) then Some (Inr ((), s))
      else poll_until (match_seed_round start) rounds s)"

definition peer_round :: "time_point \<Rightarrow> wait_round \<Rightarrow> Session \<Rightarrow> (unit, Session) poll" where
  "peer_round start r s =
     after_pump r 0 s (\<lambda>s1.
       if connected s1 \<or> seed_wait_expired start (round_now r) s1
       then Leave (Inr ((), s1)) else Again s1)"

definition WaitForPeer ::
  "time_point \<Rightarrow> bool \<Rightarrow> wait_round list \<Rightarrow> Session \<Rightarrow> (WaitExit + unit \<times> Session) option" where
  "WaitForPeer start force rounds s =
     (if \<not> NS_Enabled s \<or> (\<not> force \<and> \<not> HA_WaitForPeerBeforeStart (NS_Harness s)) \<or> \<not> NS_Host s
         \<or> connected s
      then Some (Inr ((), s))
      else poll_until (peer_round start) rounds s)"

definition session_should_pump :: "u32 \<Rightarrow> u32 \<Rightarrow> Session \<Rightarrow> bool" where
  "session_should_pump syncFrame sendStartFrame s =
     ShouldPumpNetworkAtFrame (HA_DeferNetworkUntilStart (NS_Harness s))
       (CC_LocalStartupRawFrame (NS_Connection s)) syncFrame sendStartFrame"

text \<open>The result of \<^verbatim>\<open>Coordinator.WaitForNetplayStart\<close> is an argument; the coordinator is returned.\<close>

definition WaitForPeerAtStartBarrier :: "time_point \<Rightarrow> int \<Rightarrow> u32 \<Rightarrow> NetplayStartWaitResult \<Rightarrow> wait_round list
    \<Rightarrow> CoordinatorState \<Rightarrow> Session \<Rightarrow> (WaitExit + CoordinatorState \<times> Session) option" where
  "WaitForPeerAtStartBarrier start instanceID syncFrame result rounds co s =
     (if \<not> NS_Enabled s \<or> \<not> HA_WaitForPeerAtNetplayStart (NS_Harness s) \<or> \<not> NS_Host s
         \<or> IC_NetplayOnly (NS_Input s) \<or> CC_LocalStartupRawFrame (NS_Connection s) = 0
         \<or> syncFrame \<noteq> CC_LocalStartupRawFrame (NS_Connection s) \<or> instanceID < 0 \<or> 16 \<le> instanceID
         \<or> HR_WaitedForPeerAtStart (NS_Handshake s)
      then Some (Inr (co, s))
      else if result \<noteq> LocalLeader then Some (Inr (co, s))
      else
        case WaitForPeer start True rounds s of
          None \<Rightarrow> None
        | Some (Inl e) \<Rightarrow> Some (Inl e)
        | Some (Inr (_, s1)) \<Rightarrow>
            Some (Inr (CompleteNetplayStartWait co,
              s1\<lparr>NS_Handshake := MarkWaitedForPeerAtStart (NS_Handshake s1)\<rparr>)))"

section \<open>The start barrier\<close>

definition session_post_start_input :: "Session \<Rightarrow> bool" where
  "session_post_start_input s =
     HasPostStartRemoteInput (TR_LastReceivedInputFrame (NS_Inputs s) \<noteq> 0)
       (TR_LastReceivedInputFrame (NS_Inputs s)) (CC_SharedLogicalEpoch (NS_Connection s))
       (CC_Delay (NS_Connection s))"

definition start_ready_round :: "time_point \<Rightarrow> u32 \<Rightarrow> wait_round \<Rightarrow> Session \<Rightarrow> (unit, Session) poll" where
  "start_ready_round start syncFrame r s =
     (let env = WR_Env r
      in after_pump r syncFrame s (\<lambda>s1.
           let s2 = MaybeResendStartReadyLocked env True
                      (SendStartReadyLocked env syncFrame False (SendMatchSeedLocked env s1));
               h = NS_Handshake s2
           in if HR_RemoteReadyFrame h \<noteq> None \<and> HR_Validation h \<noteq> Match then Leave (Inl (ExitCode 72))
              else if ShouldAcceptStartReady (HR_RemoteReadyFrame h \<noteq> None) (HR_RemoteReadyAfterLocal h)
                        (session_post_start_input s2) \<and> StartReadyValidated h
              then Leave (Inr ((), PrimeInputEpochLocked (s2\<lparr>NS_Handshake := MarkWaitedForPeerAtStart h\<rparr>)))
              else if seed_wait_expired start (NE_Now env) s2
              then Leave (Inr ((), s2\<lparr>NS_Handshake := ResetReadyWaitAfterTimeout h\<rparr>))
              else Again s2))"

text \<open>\<open>gameplayReady\<close> and \<open>built\<close> are the results of the hooks \<^verbatim>\<open>IsGameplayStartReady\<close> and
  \<^verbatim>\<open>BuildStartReady\<close>.\<close>

definition WaitForRemoteStartReady :: "time_point \<Rightarrow> bool \<Rightarrow> Message \<Rightarrow> u32 \<Rightarrow> wait_round list \<Rightarrow> Session
    \<Rightarrow> (WaitExit + unit \<times> Session) option" where
  "WaitForRemoteStartReady start gameplayReady built syncFrame rounds s =
     (if \<not> NS_Enabled s \<or> \<not> IC_NetplayOnly (NS_Input s) \<or> \<not> HA_WaitForPeerAtNetplayStart (NS_Harness s)
         \<or> CC_LocalStartupRawFrame (NS_Connection s) = 0
         \<or> syncFrame < CC_LocalStartupRawFrame (NS_Connection s)
         \<or> HR_WaitedForPeerAtStart (NS_Handshake s) \<or> \<not> gameplayReady
      then Some (Inr ((), s))
      else poll_until (start_ready_round start syncFrame) rounds
             (s\<lparr>NS_Handshake := begin_start_ready built syncFrame (NS_Handshake s)\<rparr>))"

section \<open>Holding back a side that runs ahead\<close>

definition record_throttle :: "u64 \<Rightarrow> nat \<Rightarrow> Session \<Rightarrow> Session" where
  "record_throttle waitedUs loops s =
     s\<lparr>NS_Inputs := RecordFrameLeadThrottle waitedUs (of_nat loops) (NS_Inputs s)\<rparr>"

definition mark_throttle_resolved :: "u32 \<Rightarrow> Session \<Rightarrow> Session" where
  "mark_throttle_resolved frame s =
     (if IC_HealthTrace (NS_Input s) \<and> TR_LastInputHealthThrottleResolvedFrame (NS_Inputs s) \<noteq> frame
      then s\<lparr>NS_Inputs := (NS_Inputs s)\<lparr>TR_LastInputHealthThrottleResolvedFrame := frame\<rparr>\<rparr> else s)"

definition mark_throttle :: "u32 \<Rightarrow> Session \<Rightarrow> Session" where
  "mark_throttle frame s =
     (let t = NS_Inputs s;
          t1 = (if IC_NetplayTrace (NS_Input s) \<and> TR_LastInputFrameThrottleTraceFrame t \<noteq> frame
                then t\<lparr>TR_LastInputFrameThrottleTraceFrame := frame\<rparr> else t);
          t2 = (if IC_HealthTrace (NS_Input s) \<and> TR_LastInputHealthThrottleFrame t1 \<noteq> frame
                then t1\<lparr>TR_LastInputHealthThrottleFrame := frame\<rparr> else t1)
      in s\<lparr>NS_Inputs := t2\<rparr>)"

definition throttle_round :: "time_point \<Rightarrow> u32 \<Rightarrow> u32 \<Rightarrow> wait_round \<Rightarrow> nat \<times> bool \<times> Session
    \<Rightarrow> (unit, nat \<times> bool \<times> Session) poll" where
  "throttle_round start frame sendFrame r = (\<lambda>(loops0, blocked, s).
     let env = WR_Env r; loops = loops0 + 1;
         waitedUs = waited_count (elapsed_us (NE_Now env) start)
     in after_pump r frame s (\<lambda>s1.
          let s2 = MaybeResendStartReadyLocked env False s1;
              remoteFrame = TR_LastReceivedInputFrame (NS_Inputs s2)
          in if remoteFrame = 0 then Leave (Inr ((), s2))
             else if int_of_u32 sendFrame - int_of_u32 remoteFrame \<le> IC_MaxFrameLead (NS_Input s2)
             then Leave (Inr ((), if blocked then mark_throttle_resolved frame (record_throttle waitedUs loops s2)
                                  else s2))
             else
               let s3 = mark_throttle frame
                          (begin_recovery_after_second start env (MaybeResendLatestInputForFrameLeadLocked env s2))
               in if test_wait_expired start (NE_Now env) s3
                  then if CC_RemoteInputTimeoutFatal (NS_Connection s3) then Leave (Inl (ExitCode 71))
                       else Leave (Inr ((), record_throttle waitedUs loops s3))
                  else Again (loops, True, s3)))"

definition ThrottleFrameLead ::
  "time_point \<Rightarrow> u32 \<Rightarrow> u32 \<Rightarrow> wait_round list \<Rightarrow> Session \<Rightarrow> (WaitExit + unit \<times> Session) option" where
  "ThrottleFrameLead start frame sendFrame rounds s =
     (if \<not> IC_NetplayOnly (NS_Input s) \<or> IC_MaxFrameLead (NS_Input s) < 0 \<or> \<not> NS_Enabled s \<or> \<not> NS_Ready s
         \<or> (CC_SharedLogicalEpoch (NS_Connection s) \<noteq> 0
            \<and> frame < CC_SharedLogicalEpoch (NS_Connection s))
         \<or> IsPastTestInputRange sendFrame s
      then Some (Inr ((), s))
      else poll_until (throttle_round start frame sendFrame) rounds (0, False, s))"

text \<open>Whether the session may simulate \<open>logicalFrame\<close>: it is live and at most the horizon is unconfirmed.\<close>

definition within_horizon :: "u32 \<Rightarrow> Session \<Rightarrow> bool" where
  "within_horizon logicalFrame s \<longleftrightarrow>
     (case UnconfirmedRemoteFrameCountThrough logicalFrame (NS_Inputs s) of
        None \<Rightarrow> True
      | Some n \<Rightarrow> n \<le> u32_of_int (RB_PredictionHorizonFrames (NS_Rollback s)))"

definition mark_horizon :: "u32 \<Rightarrow> Session \<Rightarrow> Session" where
  "mark_horizon logicalFrame s =
     (if IC_NetplayTrace (NS_Input s) \<and> TR_LastRollbackHorizonTraceFrame (NS_Inputs s) \<noteq> logicalFrame
      then s\<lparr>NS_Inputs := (NS_Inputs s)\<lparr>TR_LastRollbackHorizonTraceFrame := logicalFrame\<rparr>\<rparr> else s)"

definition horizon_round :: "time_point \<Rightarrow> u32 \<Rightarrow> u32 \<Rightarrow> wait_round \<Rightarrow> Session \<Rightarrow> (unit, Session) poll" where
  "horizon_round start rawFrame logicalFrame r s =
     (let env = WR_Env r
      in after_pump r rawFrame s (\<lambda>s1.
           let s2 = MaybeResendStartReadyLocked env False s1;
               confirmed = within_horizon logicalFrame s2;
               sessionReady = (connected s2 \<and> NS_ResumeValidated s2);
               s3 = (if confirmed then s2 else MaybeResendLatestInputForFrameLeadLocked env s2)
           in if sessionReady \<and> confirmed then Leave (Inr ((), CompleteRecovery s3))
              else
                let s4 = mark_horizon logicalFrame (begin_recovery_after_second start env s3)
                in if RB_PredictionHorizonTimeoutMs (NS_Rollback s4) \<le> elapsed_ms (NE_Now env) start
                   then Leave (Inl (if RecoveryEnabled s4 then RecoveryExit PredictionHorizonTimeout
                                    else ExitCode 73))
                   else Again s4))"

definition WaitForRollbackPredictionHorizon :: "time_point \<Rightarrow> u32 \<Rightarrow> u32 \<Rightarrow> u32 \<Rightarrow> wait_round list \<Rightarrow> Session
    \<Rightarrow> (WaitExit + unit \<times> Session) option" where
  "WaitForRollbackPredictionHorizon start rawFrame logicalFrame sendFrame rounds s =
     (if \<not> RB_Enabled (NS_Rollback s) \<or> \<not> IC_NetplayOnly (NS_Input s)
         \<or> RB_PredictionHorizonFrames (NS_Rollback s) \<le> 0 \<or> \<not> NS_Enabled s \<or> \<not> NS_Ready s
         \<or> IsPastTestInputRange sendFrame s
      then Some (Inr ((), s))
      else poll_until (horizon_round start rawFrame logicalFrame) rounds s)"

section \<open>The pump thread\<close>

definition pump_thread_round :: "wait_round \<Rightarrow> Session \<Rightarrow> (unit, Session) poll" where
  "pump_thread_round r s =
     (if NS_NetworkPumpStop s then Leave (Inr ((), s)) else after_pump r 0 s Again)"

definition NetworkPumpThreadMain :: "wait_round list \<Rightarrow> Session \<Rightarrow> (WaitExit + unit \<times> Session) option" where
  "NetworkPumpThreadMain = poll_until pump_thread_round"

definition StartNetworkPumpThreadIfNeeded :: "Session \<Rightarrow> Session" where
  "StartNetworkPumpThreadIfNeeded s =
     (if \<not> HA_NetworkPumpThreadEnabled (NS_Harness s) \<or> NS_NetworkPumpThreadStarted s then s
      else s\<lparr>NS_NetworkPumpStop := False, NS_NetworkPumpThreadStarted := True\<rparr>)"

definition StopNetworkPumpThread :: "Session \<Rightarrow> Session" where
  "StopNetworkPumpThread s =
     (if \<not> NS_NetworkPumpThreadStarted s then s
      else s\<lparr>NS_NetworkPumpStop := True, NS_NetworkPumpThreadStarted := False\<rparr>)"

end
