(* ===== verification/Wait_Bounds.thy ===== *)
theory Wait_Bounds
  imports Session_Waits
begin

text \<open>
  The waits of the session end. A locale states what a polling loop promises: an invariant, a fact
  about every way to leave, and a rank that decreases while the clock advances; it is interpreted
  on the prediction horizon, the wait for a remote input, the frame lead throttle, the start
  barrier and the waits for the seed and the peer. The ranks count milliseconds, so the bounds are
  numbers of iterations that hold however late an iteration runs.
\<close>

section \<open>What a wait leaves unchanged\<close>

text \<open>The configuration of a session, the ENet host and the mark that the match has started: nothing an
  iteration of a wait pumps, receives or sends changes them.\<close>

definition session_config :: "Session \<Rightarrow> BootstrapConfig \<times> PacketBridgeConfig \<times> InputConfig \<times> RollbackConfig
    \<times> HarnessConfig \<times> bool \<times> bool \<times> bool" where
  "session_config s = (NS_Bootstrap s, NS_PacketBridge s, NS_Input s, NS_Rollback s, NS_Harness s,
     NS_TestEnabled s, HasHost (NS_Transport s), HR_WaitedForPeerAtStart (NS_Handshake s))"

text \<open>No message, connection event or send marks the match started: only the barriers do.\<close>

lemma started_mark_kept [simp]:
  "HR_WaitedForPeerAtStart (OnPeerConnected h) = HR_WaitedForPeerAtStart h"
  "HR_WaitedForPeerAtStart (receive_start_ready host m h) = HR_WaitedForPeerAtStart h"
  "HR_WaitedForPeerAtStart (MarkStartReadySent now h) = HR_WaitedForPeerAtStart h"
  "HR_WaitedForPeerAtStart (MarkMatchSeedSent h) = HR_WaitedForPeerAtStart h"
  "HR_WaitedForPeerAtStart (begin_start_ready built f h) = HR_WaitedForPeerAtStart h"
  "HR_WaitedForPeerAtStart (ResetReadyWaitAfterTimeout h) = HR_WaitedForPeerAtStart h"
  by (simp_all add: OnPeerConnected_def receive_start_ready_def AdoptHostLogicalEpoch_def ReceiveRemoteReady_def
      MarkStartReadyValidation_def MarkStartReadySent_def MarkMatchSeedSent_def begin_start_ready_def
      BeginLocalReady_def ResetReadyWaitAfterTimeout_def Let_def split: option.splits)

text \<open>A running recovery keeps its start time, and one that begins does so now.\<close>

definition keeps :: "time_point \<Rightarrow> Session \<Rightarrow> Session \<Rightarrow> bool" where
  "keeps now s s' \<longleftrightarrow> session_config s' = session_config s
     \<and> (NS_RecoveryStarted s' = NS_RecoveryStarted s
        \<or> NS_RecoveryStarted s = None \<and> NS_RecoveryStarted s' = Some now)"

lemma keeps_refl [simp, intro]: "keeps now s s"
  by (simp add: keeps_def)

lemma keeps_trans [trans]: "keeps now a b \<Longrightarrow> keeps now b c \<Longrightarrow> keeps now a c"
  by (auto simp: keeps_def)

lemma keeps_fold: "(\<And>x s. keeps now s (f x s)) \<Longrightarrow> keeps now s (fold f xs s)"
  by (induction xs arbitrary: s) (auto intro: keeps_trans)

lemma keeps_view:
  assumes "session_config s' = session_config s" and "NS_RecoveryStarted s' = NS_RecoveryStarted s"
  shows "keeps now s s'"
  using assms by (simp add: keeps_def)

named_theorems keeps_intros \<open>operations that keep the configuration\<close>

lemma keeps_inputs [keeps_intros]:
  "keeps now s (s\<lparr>NS_Inputs := t\<rparr>)" "keeps now s (s\<lparr>NS_PhaseRecovery := p\<rparr>)" "keeps now s (s\<lparr>NS_Delivery := d\<rparr>)"
  "keeps now s (s\<lparr>NS_Connection := c\<rparr>)" "keeps now s (s\<lparr>NS_Mvl := m\<rparr>)" "keeps now s (s\<lparr>NS_Wire := w\<rparr>)"
  by (rule keeps_view; simp add: session_config_def)+

lemma keeps_handshake:
  "HR_WaitedForPeerAtStart h = HR_WaitedForPeerAtStart (NS_Handshake s) \<Longrightarrow> keeps now s (s\<lparr>NS_Handshake := h\<rparr>)"
  by (rule keeps_view) (simp_all add: session_config_def)

lemma keeps_transport_send [keeps_intros]: "keeps now s (snd (transport_send env data flags b s))"
  by (rule keeps_view) (simp_all add: transport_send_def Let_def session_config_def)

lemma keeps_BeginRecovery [keeps_intros]: "keeps (NE_Now env) s (BeginRecovery env s)"
  by (simp add: keeps_def BeginRecovery_def session_config_def)

lemma keeps_SendResumeLocked [keeps_intros]: "keeps now s (SendResumeLocked env force s)"
  by (rule keeps_view) (simp_all add: SendResumeLocked_def transport_send_def Let_def session_config_def)

lemma keeps_replay_input [keeps_intros]: "keeps now s (replay_input env f s)"
  by (rule keeps_view) (simp_all add: replay_input_def transport_send_def Let_def session_config_def split: option.splits)

lemma keeps_ReceiveResumeLocked:
  assumes "ReceiveResumeLocked env m s = Inr s'"
  shows "keeps now s s'"
proof -
  have n: "keeps now s (s\<lparr>NS_RemoteSessionNonce := n\<rparr>)" "keeps now s (s\<lparr>NS_RemoteSessionNonce := n, NS_ResumeValidated := v\<rparr>)" for n v
    by (rule keeps_view; simp add: session_config_def)+
  have f: "keeps now s (fold (replay_input env) fs (s\<lparr>NS_RemoteSessionNonce := n, NS_ResumeValidated := v\<rparr>))" for fs n v
    using n(2) by (rule keeps_trans) (rule keeps_fold, rule keeps_replay_input)
  show ?thesis
    using assms n f unfolding ReceiveResumeLocked_def Let_def by (auto split: if_splits)
qed

lemma keeps_SendInputPayloadNowLocked [keeps_intros]: "keeps now s (SendInputPayloadNowLocked env flags data s)"
  by (simp add: SendInputPayloadNowLocked_def keeps_intros)

lemma keeps_FlushDelayedInputsLocked [keeps_intros]: "keeps now s (FlushDelayedInputsLocked env f s)"
  unfolding FlushDelayedInputsLocked_def Let_def case_prod_beta
  by (simp add: keeps_trans [OF keeps_inputs(3) keeps_fold [OF keeps_SendInputPayloadNowLocked]])

lemma keeps_StoreRemoteInputLocked [keeps_intros]: "keeps now s (StoreRemoteInputLocked f i l s)"
  by (simp add: StoreRemoteInputLocked_def Let_def case_prod_beta keeps_intros)

lemma keeps_observe_remote [keeps_intros]: "keeps now s (observe_remote env p s)"
  by (simp add: observe_remote_def keeps_intros)

lemma keeps_HandleReceivedInputLocked [keeps_intros]: "keeps now s (HandleReceivedInputLocked env data l s)"
  by (auto simp: HandleReceivedInputLocked_def split: option.splits
      intro: keeps_trans [OF keeps_StoreRemoteInputLocked keeps_observe_remote])

lemma keeps_store_entries [keeps_intros]: "keeps now s (store_entries es l s)"
  unfolding store_entries_def
  by (induction es arbitrary: s) (auto intro: keeps_trans keeps_StoreRemoteInputLocked)

lemma keeps_record_ack [keeps_intros]: "keeps now s (record_ack env a s)"
  by (rule keeps_view) (simp_all add: record_ack_def Let_def case_prod_beta session_config_def split: option.splits)

lemma keeps_HandleReceivedInputBundleLocked [keeps_intros]:
  "keeps now s (HandleReceivedInputBundleLocked env data l s)"
  unfolding HandleReceivedInputBundleLocked_def Let_def
  by (auto split: option.splits
      intro: keeps_trans [OF keeps_trans [OF keeps_record_ack keeps_store_entries] keeps_observe_remote]
        keeps_trans [OF keeps_record_ack keeps_store_entries])

lemma keeps_HandleReceivedSessionLocked:
  assumes "HandleReceivedSessionLocked env data s = Inr s'"
  shows "keeps now s s'"
proof -
  have "keeps now s (receive_match_seed v s)" for v
    by (simp add: receive_match_seed_def Let_def keeps_intros)
  moreover have "keeps now s (s\<lparr>NS_Connection := c, NS_Handshake := receive_start_ready b m (NS_Handshake s)\<rparr>)" for b c m
    by (rule keeps_view) (simp_all add: session_config_def)
  ultimately show ?thesis
    using assms unfolding HandleReceivedSessionLocked_def Let_def
    by (auto split: option.splits if_splits intro: keeps_ReceiveResumeLocked keeps_inputs keeps_handshake)
qed

lemma keeps_transport:
  "HasHost t = HasHost (NS_Transport s) \<Longrightarrow> keeps now s (s\<lparr>NS_Transport := t\<rparr>)"
  by (rule keeps_view) (simp_all add: session_config_def)

lemma host_kept [simp]:
  "HasHost (fst (HandleConnected p b t)) = HasHost t" "HasHost (HandleDisconnected p t) = HasHost t"
  "HasHost (fst (RetryConnection b c t)) = HasHost t" "HasHost (fst (snd (Service now st lr res d t))) = HasHost t"
  by (auto simp: HasHost_def HandleConnected_def HandleDisconnected_def RetryConnection_def Service_def Let_def
      split: option.splits)

lemma keeps_service [keeps_intros]: "keeps now s (service env res d s)"
  by (simp add: service_def keeps_transport)

lemma keeps_retry_connection [keeps_intros]: "keeps now s (retry_connection env s)"
  by (rule keeps_view) (simp_all add: retry_connection_def session_config_def)

lemma keeps_on_connect [keeps_intros]: "keeps (NE_Now env) s (on_connect env p s)"
proof -
  let ?s1 = "s\<lparr>NS_Transport := fst (HandleConnected p (RecoveryEnabled s) (NS_Transport s))\<rparr>"
  let ?s2 = "if NS_ConnectedOnce ?s1 \<and> RecoveryEnabled ?s1 then (BeginRecovery env ?s1)\<lparr>NS_ResumeValidated := False\<rparr>
    else ?s1\<lparr>NS_Handshake := OnPeerConnected (NS_Handshake ?s1)\<rparr>"
  have v: "keeps (NE_Now env) x (x\<lparr>NS_ResumeValidated := a\<rparr>)" "keeps (NE_Now env) x (x\<lparr>NS_ConnectedOnce := b\<rparr>)" for x a b
    by (rule keeps_view; simp add: session_config_def)+
  have "keeps (NE_Now env) s ?s1"
    by (simp add: keeps_transport)
  also have "keeps (NE_Now env) ?s1 ?s2"
    by (simp add: keeps_trans [OF keeps_BeginRecovery v(1)] keeps_handshake)
  also have "keeps (NE_Now env) ?s2 (?s2\<lparr>NS_ConnectedOnce := True\<rparr>)"
    by (rule v)
  also have "keeps (NE_Now env) (?s2\<lparr>NS_ConnectedOnce := True\<rparr>) (on_connect env p s)"
    unfolding on_connect_def Let_def by (rule keeps_SendResumeLocked)
  finally show ?thesis .
qed

lemma keeps_on_disconnect [keeps_intros]: "keeps (NE_Now env) s (on_disconnect env p s)"
proof -
  let ?s1 = "s\<lparr>NS_Transport := HandleDisconnected p (NS_Transport s)\<rparr>"
  have s1: "keeps (NE_Now env) s ?s1"
    by (simp add: keeps_transport)
  also have "keeps (NE_Now env) ?s1 (?s1\<lparr>NS_ResumeValidated := False\<rparr>)"
    by (rule keeps_view) (simp_all add: session_config_def)
  also have "keeps (NE_Now env) (?s1\<lparr>NS_ResumeValidated := False\<rparr>) (BeginRecovery env (?s1\<lparr>NS_ResumeValidated := False\<rparr>))"
    by (rule keeps_BeginRecovery)
  finally show ?thesis
    using s1 by (simp add: on_disconnect_def Let_def)
qed

lemma keeps_on_receive:
  assumes "on_receive env p data l s = Inr s'"
  shows "keeps now s s'"
  using assms unfolding on_receive_def Let_def
  by (auto split: if_splits PacketClass.splits intro: keeps_intros keeps_HandleReceivedSessionLocked)

lemma keeps_pump_event_step: "pump_event_step env l e s = Inr s' \<Longrightarrow> keeps (NE_Now env) s s'"
  by (cases e) (auto intro: keeps_intros keeps_on_receive)

lemma keeps_pump_loop: "pump_loop env l n es s = Inr s' \<Longrightarrow> keeps (NE_Now env) s s'"
  by (induction env l n es s rule: pump_loop.induct)
    (auto split: sum.splits intro: keeps_service keeps_trans [OF keeps_service keeps_trans [OF keeps_pump_event_step]])

lemma keeps_PumpLocked:
  assumes "PumpLocked env es l s = Inr s'"
  shows "keeps (NE_Now env) s s'"
proof -
  let ?s0 = "FlushDelayedInputsLocked env l (retry_connection env s)"
  have s0: "keeps (NE_Now env) s ?s0"
    using keeps_retry_connection keeps_FlushDelayedInputsLocked by (rule keeps_trans)
  have "keeps (NE_Now env) ?s0 (SendResumeLocked env False s1)" if "pump_loop env l kPumpEventLimit es ?s0 = Inr s1" for s1
    using keeps_pump_loop [OF that] keeps_SendResumeLocked by (rule keeps_trans)
  with s0 show ?thesis
    using assms unfolding PumpLocked_def by (auto split: if_splits sum.splits option.splits intro: keeps_trans)
qed

lemma keeps_senders [keeps_intros]:
  "keeps now s (SendMatchSeedLocked env s)" "keeps now s (SendStartReadyLocked env f b s)"
  "keeps now s (MaybeResendStartReadyLocked env b s)" "keeps now s (MaybeResendLatestInputForFrameLeadLocked env s)"
  by (rule keeps_view; simp add: SendMatchSeedLocked_def SendStartReadyLocked_def MaybeResendStartReadyLocked_def
      MaybeResendLatestInputForFrameLeadLocked_def SendInputPayloadNowLocked_def transport_send_def Let_def
      case_prod_beta session_config_def split: option.splits)+

section \<open>Bounded waits\<close>

text \<open>A clock that advances by at least the millisecond an iteration sleeps.\<close>

fun paced :: "wait_round list \<Rightarrow> bool" where
  "paced (r # r' # rs) \<longleftrightarrow> round_now r + milliseconds 1 \<le> round_now r' \<and> paced (r' # rs)"
| "paced _ \<longleftrightarrow> True"

text \<open>The whole milliseconds until a deadline, rounded up.\<close>

definition ms_left :: "time_point \<Rightarrow> time_point \<Rightarrow> nat" where
  "ms_left deadline now = nat ((deadline - now + 999999) div 1000000)"

lemma ms_left_less: "now < deadline \<Longrightarrow> now + milliseconds 1 \<le> now' \<Longrightarrow> ms_left deadline now' < ms_left deadline now"
  unfolding ms_left_def milliseconds_def by linarith

lemma ms_left_le: "deadline - now \<le> milliseconds (int n) \<Longrightarrow> ms_left deadline now \<le> n"
  unfolding ms_left_def milliseconds_def by linarith

text \<open>
  What a polling loop has to promise: an invariant, a fact about every way to leave, and a rank
  that decreases from one iteration to the next.
\<close>

locale polled =
  fixes body :: "wait_round \<Rightarrow> 's \<Rightarrow> ('r, 's) poll" and inv :: "'s \<Rightarrow> bool"
    and post :: "WaitExit + 'r \<times> Session \<Rightarrow> bool"
  assumes again_inv: "inv s \<Longrightarrow> body r s = Again s' \<Longrightarrow> inv s'"
    and leave_post: "inv s \<Longrightarrow> body r s = Leave x \<Longrightarrow> post x"
begin

lemma result_post: "inv s \<Longrightarrow> poll_until body rs s = Some x \<Longrightarrow> post x"
  by (induction rs arbitrary: s) (auto split: poll.splits intro: again_inv leave_post)

end

locale ranked_wait = polled +
  fixes rank :: "time_point \<Rightarrow> 's \<Rightarrow> nat"
  assumes again_rank: "inv s \<Longrightarrow> body r s = Again s' \<Longrightarrow> round_now r + milliseconds 1 \<le> t
    \<Longrightarrow> rank t s' < rank (round_now r) s"
begin

lemma returns:
  assumes "inv s" and "paced (r # rs)" and "rank (round_now r) s \<le> length rs"
  shows "\<exists>x. poll_until body (r # rs) s = Some x"
  using assms
proof (induction rs arbitrary: r s)
  case Nil
  then show ?case
    using again_rank [of s r _ "round_now r + milliseconds 1"] by (auto split: poll.splits)
next
  case (Cons r' rs)
  show ?case
  proof (cases "body r s")
    case (Again s')
    then have "inv s'" "rank (round_now r') s' < rank (round_now r) s"
      using Cons.prems again_inv again_rank by simp_all
    then show ?thesis
      using Cons.IH [of s' r'] Cons.prems Again by simp
  qed simp
qed

lemma returns_post:
  assumes "inv s" and "paced (r # rs)" and "rank (round_now r) s \<le> length rs"
  shows "\<exists>x. poll_until body (r # rs) s = Some x \<and> post x"
  using returns [OF assms] result_post [OF assms(1)] by blast

end

lemma elapsed_ms_less:
  assumes "elapsed_ms now start < m"
  shows "now < start + milliseconds m"
proof (cases "start \<le> now")
  case True
  then have "(now - start) div 1000000 < m"
    using assms by (auto simp: elapsed_ms_def signed_divide_int_def sgn_if split: if_splits)
  then show ?thesis
    unfolding milliseconds_def by linarith
next
  case False
  then have "- ((start - now) div 1000000) < m"
    using assms by (auto simp: elapsed_ms_def signed_divide_int_def sgn_if split: if_splits)
  then show ?thesis
    using False unfolding milliseconds_def by linarith
qed

lemma config_simps:
  assumes "session_config s' = session_config s"
  shows "NS_Bootstrap s' = NS_Bootstrap s" "NS_PacketBridge s' = NS_PacketBridge s" "NS_Input s' = NS_Input s"
    "NS_Rollback s' = NS_Rollback s" "NS_Harness s' = NS_Harness s" "NS_TestEnabled s' = NS_TestEnabled s"
    "HasHost (NS_Transport s') = HasHost (NS_Transport s)" "RecoveryEnabled s' = RecoveryEnabled s"
  using assms by (simp_all add: session_config_def RecoveryEnabled_def)

lemma keeps_config: "keeps now s s' \<Longrightarrow> session_config s' = session_config s"
  by (simp add: keeps_def)

lemma keeps_waits [keeps_intros]:
  "keeps (NE_Now env) s (begin_recovery_after_second start env s)" "keeps now s (mark_horizon f s)" "keeps now s (mark_throttle f s)"
  "keeps now s (record_wait w n s)" "keeps now s (mark_remote_wait f w s)"
  by (simp_all add: begin_recovery_after_second_def mark_horizon_def mark_throttle_def record_wait_def
      mark_remote_wait_def Let_def keeps_intros)

lemma after_pump_Again:
  assumes "after_pump r l s k = Again x"
  obtains s1 where "PumpLocked (WR_Env r) (WR_Events r) l s = Inr s1" "keeps (round_now r) s s1" "k s1 = Again x"
  using assms keeps_PumpLocked unfolding after_pump_def by (auto split: sum.splits)

lemma after_pump_Leave:
  assumes "after_pump r l s k = Leave x"
  obtains (failed) failure where "PumpLocked (WR_Env r) (WR_Events r) l s = Inl failure" "x = Inl (RecoveryExit failure)"
  | (pumped) s1 where "PumpLocked (WR_Env r) (WR_Events r) l s = Inr s1" "keeps (round_now r) s s1" "k s1 = Leave x"
  using assms keeps_PumpLocked unfolding after_pump_def by (auto split: sum.splits)

section \<open>The prediction horizon\<close>

definition horizon_live :: "u32 \<Rightarrow> RollbackConfig \<Rightarrow> Session \<Rightarrow> bool" where
  "horizon_live logicalFrame rollback s \<longleftrightarrow> connected s \<and> NS_ResumeValidated s \<and> NS_RecoveryStarted s = None
     \<and> NS_Rollback s = rollback
     \<and> (case UnconfirmedRemoteFrameCountThrough logicalFrame (NS_Inputs s) of
           None \<Rightarrow> True
         | Some unconfirmed \<Rightarrow> unconfirmed \<le> u32_of_int (RB_PredictionHorizonFrames rollback))"

fun horizon_post :: "u32 \<Rightarrow> RollbackConfig \<Rightarrow> WaitExit + unit \<times> Session \<Rightarrow> bool" where
  "horizon_post f rollback (Inl e) \<longleftrightarrow> e = ExitCode 73 \<or> (\<exists>failure. e = RecoveryExit failure)"
| "horizon_post f rollback (Inr (_, s)) \<longleftrightarrow> horizon_live f rollback s"

lemmas operation_config [simp] = keeps_intros [THEN keeps_config]

lemma within_horizon_recovery [simp]: "within_horizon f (s\<lparr>NS_RecoveryStarted := t\<rparr>) = within_horizon f s"
  by (simp add: within_horizon_def split: option.splits)

interpretation horizon: ranked_wait "horizon_round start raw f" "\<lambda>s. NS_Rollback s = rollback" "horizon_post f rollback"
  "\<lambda>t s. ms_left (start + milliseconds (RB_PredictionHorizonTimeoutMs rollback)) t"
  for start raw f rollback
proof
  fix s s' :: Session and r
  assume inv: "NS_Rollback s = rollback" and body: "horizon_round start raw f r s = Again s'"
  let ?t = "start + milliseconds (RB_PredictionHorizonTimeoutMs rollback)"
  from body obtain s1 where "keeps (round_now r) s s1"
    and k: "(let s2 = MaybeResendStartReadyLocked (WR_Env r) False s1; c = within_horizon f s2;
        s4 = mark_horizon f (begin_recovery_after_second start (WR_Env r)
          (if c then s2 else MaybeResendLatestInputForFrameLeadLocked (WR_Env r) s2))
      in s' = s4 \<and> \<not> RB_PredictionHorizonTimeoutMs (NS_Rollback s4) \<le> elapsed_ms (round_now r) start)"
    unfolding horizon_round_def Let_def by (auto elim!: after_pump_Again split: if_splits)
  then have "session_config s' = session_config s"
    using keeps_config by (auto simp: Let_def)
  from config_simps(4) [OF this] show "NS_Rollback s' = rollback"
    using inv by simp
  with k have "round_now r < ?t"
    by (intro elapsed_ms_less) (auto simp: Let_def)
  then show "ms_left ?t t < ms_left ?t (round_now r)" if "round_now r + milliseconds 1 \<le> t" for t
    using that by (rule ms_left_less)
next
  fix s :: Session and r x
  assume inv: "NS_Rollback s = rollback" and body: "horizon_round start raw f r s = Leave x"
  from body show "horizon_post f rollback x"
    unfolding horizon_round_def Let_def
  proof (cases rule: after_pump_Leave)
    case (pumped s1)
    then have "session_config (MaybeResendStartReadyLocked (WR_Env r) False s1) = session_config s"
      using keeps_config by simp
    from config_simps(4) [OF this] have "NS_Rollback (MaybeResendStartReadyLocked (WR_Env r) False s1) = rollback"
      using inv by simp
    then show ?thesis
      using pumped(3)
      by (auto simp: horizon_live_def within_horizon_def CompleteRecovery_def connected_def split: if_splits option.splits)
  qed simp
qed

text \<open>C12: The prediction horizon is enforced and the wait for it ends. When the wait of
  \<^verbatim>\<open>WaitForRollbackPredictionHorizon\<close> applies, it ends within as many iterations as the timeout has
  milliseconds, plus one: either the process stops with a recovery failure or exit code 73, or the
  call returns with a connected, validated session with no recovery pending in which at most the
  configured number of frames up to \<open>logicalFrame\<close> is unconfirmed.\<close>

theorem prediction_horizon_enforced:
  assumes "RB_Enabled (NS_Rollback s)" and "IC_NetplayOnly (NS_Input s)"
    and "0 < RB_PredictionHorizonFrames (NS_Rollback s)" and "NS_Enabled s" and "NS_Ready s"
    and "\<not> IsPastTestInputRange sendFrame s"
    and "start \<le> round_now r" and "paced (r # rs)"
    and "nat (RB_PredictionHorizonTimeoutMs (NS_Rollback s)) \<le> length rs"
  shows "\<exists>x. WaitForRollbackPredictionHorizon start rawFrame logicalFrame sendFrame (r # rs) s = Some x
    \<and> (case x of Inl e \<Rightarrow> e = ExitCode 73 \<or> (\<exists>failure. e = RecoveryExit failure)
       | Inr (_, s') \<Rightarrow> horizon_live logicalFrame (NS_Rollback s) s')"
proof -
  have "ms_left (start + milliseconds (RB_PredictionHorizonTimeoutMs (NS_Rollback s))) (round_now r) \<le> length rs"
    using assms(7,9) by (intro ms_left_le) (simp add: milliseconds_def nat_le_iff)
  with horizon.returns_post [of s, OF refl assms(8)]
  obtain x where "poll_until (horizon_round start rawFrame logicalFrame) (r # rs) s = Some x"
      "horizon_post logicalFrame (NS_Rollback s) x"
    by blast
  then show ?thesis
    using assms(1-6) unfolding WaitForRollbackPredictionHorizon_def
    by (cases x) (auto split: prod.splits)
qed

section \<open>The wait for a remote input with recovery\<close>

fun recovered_post :: "u32 \<Rightarrow> WaitExit + InputState \<times> Session \<Rightarrow> bool" where
  "recovered_post f (Inl e) \<longleftrightarrow> (\<exists>failure. e = RecoveryExit failure)"
| "recovered_post f (Inr (input, s)) \<longleftrightarrow> fmlookup (TR_RemoteInputs (NS_Inputs s)) f = Some input
     \<and> connected s \<and> NS_ResumeValidated s \<and> NS_RecoveryStarted s = None"

definition recoverable :: "Session \<Rightarrow> bool" where
  "recoverable s \<longleftrightarrow> RecoveryEnabled s \<and> HasHost (NS_Transport s)"

lemma recoverable_keeps: "keeps now s s' \<Longrightarrow> recoverable s' = recoverable s"
  using config_simps(7,8) keeps_config by (metis recoverable_def)

text \<open>A second until the recovery begins, then a minute until it fails.\<close>

definition recovery_rank :: "time_point \<Rightarrow> time_point \<Rightarrow> Session \<Rightarrow> nat" where
  "recovery_rank start t s =
     (case NS_RecoveryStarted s of
        None \<Rightarrow> ms_left (start + milliseconds 1000) t + 60000
      | Some began \<Rightarrow> ms_left (began + milliseconds 60000) t)"

lemma PumpLocked_deadline:
  assumes "PumpLocked env es l s = Inr s'" and "HasHost (NS_Transport s)" and "NS_RecoveryStarted s = Some t"
  shows "NE_Now env < t + milliseconds 60000"
  using assms by (auto simp: PumpLocked_def milliseconds_def split: if_splits)

lemma TryGet_cases:
  assumes "TryGetRemoteInputLocked f s = (x, s')"
  shows "x = None \<Longrightarrow> s' = s"
    and "x = Some i \<Longrightarrow> fmlookup (TR_RemoteInputs (NS_Inputs s')) f = Some i \<and> s' = CompleteRecovery s
      \<and> NS_ResumeValidated s \<and> (RecoveryEnabled s \<longrightarrow> connected s)"
  using assms by (auto simp: TryGetRemoteInputLocked_def CompleteRecovery_def split: if_splits option.splits)

lemma begin_recovery_started:
  assumes "RecoveryEnabled s" and "NS_RecoveryStarted (begin_recovery_after_second start env s) = None"
  shows "NS_RecoveryStarted s = None \<and> NE_Now env < start + milliseconds 1000"
  using assms by (auto simp: begin_recovery_after_second_def BeginRecovery_def split: if_splits)

text \<open>One iteration of a wait that pumps, sends and then begins the recovery if a second has passed.\<close>

lemma recovery_rank_decreases:
  assumes inv: "recoverable s" and p: "PumpLocked (WR_Env r) es l s = Inr s1" and k: "keeps (round_now r) s s2"
    and s3: "NS_RecoveryStarted s3 = NS_RecoveryStarted (begin_recovery_after_second start (WR_Env r) s2)"
    and t: "round_now r + milliseconds 1 \<le> t"
  shows "recovery_rank start t s3 < recovery_rank start (round_now r) s"
proof -
  let ?s3 = "begin_recovery_after_second start (WR_Env r) s2"
  have k3: "keeps (round_now r) s ?s3"
    using k keeps_waits(1) by (rule keeps_trans)
  show ?thesis
  proof (cases "NS_RecoveryStarted s")
    case (Some began)
    then have "round_now r < began + milliseconds 60000"
      using PumpLocked_deadline [OF p] inv by (simp add: recoverable_def)
    moreover have "NS_RecoveryStarted ?s3 = Some began"
      using k3 Some by (simp add: keeps_def)
    ultimately show ?thesis
      using Some t s3 by (simp add: recovery_rank_def ms_left_less)
  next
    case None
    show ?thesis
    proof (cases "NS_RecoveryStarted ?s3")
      case None': None
      then have "round_now r < start + milliseconds 1000"
        using begin_recovery_started [OF _ None'] inv recoverable_keeps [OF k] by (simp add: recoverable_def)
      then show ?thesis
        using None None' t s3 by (simp add: recovery_rank_def ms_left_less)
    next
      case (Some began)
      then have "began = round_now r"
        using k3 None by (simp add: keeps_def)
      then have "ms_left (began + milliseconds 60000) t \<le> 59999"
        using t by (intro ms_left_le) (simp add: milliseconds_def)
      then show ?thesis
        using None Some s3 by (simp add: recovery_rank_def)
    qed
  qed
qed

lemma recovery_rank_bound:
  assumes "\<forall>began. NS_RecoveryStarted s = Some began \<longrightarrow> began \<le> start" and "start \<le> now"
  shows "recovery_rank start now s \<le> 61000"
proof -
  have "ms_left (start + milliseconds 1000) now \<le> 1000"
    using assms(2) by (intro ms_left_le) (simp add: milliseconds_def)
  moreover have "ms_left (began + milliseconds 60000) now \<le> 60000" if "NS_RecoveryStarted s = Some began" for began
    using that assms by (intro ms_left_le) (force simp: milliseconds_def)
  ultimately show ?thesis
    by (force simp: recovery_rank_def split: option.splits)
qed

lemma remote_input_again:
  assumes "remote_input_round start f r (n, s) = Again x"
  obtains s1 s2 where "PumpLocked (WR_Env r) (WR_Events r) 0 s = Inr s1" "keeps (round_now r) s s2"
    "x = (n + 1, begin_recovery_after_second start (WR_Env r) s2)"
proof -
  let ?m = "\<lambda>s1. MaybeResendLatestInputForFrameLeadLocked (WR_Env r) (MaybeResendStartReadyLocked (WR_Env r) False s1)"
  from assms obtain s1 where s1: "PumpLocked (WR_Env r) (WR_Events r) 0 s = Inr s1" "keeps (round_now r) s s1"
      "x = (n + 1, begin_recovery_after_second start (WR_Env r) (snd (TryGetRemoteInputLocked f (?m s1))))"
      "fst (TryGetRemoteInputLocked f (?m s1)) = None"
    unfolding remote_input_round_def Let_def
    by (auto elim!: after_pump_Again split: if_splits prod.splits option.splits)
  have "snd (TryGetRemoteInputLocked f (?m s1)) = ?m s1"
    using s1(4) TryGet_cases(1) by (metis prod.collapse)
  moreover have "keeps (round_now r) s (?m s1)"
    using s1(2) keeps_trans [OF keeps_senders(3) keeps_senders(4)] by (rule keeps_trans)
  ultimately show ?thesis
    using s1 that by simp
qed

interpretation recovery: ranked_wait "remote_input_round start f" "\<lambda>(_, s). recoverable s" "recovered_post f"
  "\<lambda>t (_, s). recovery_rank start t s"
  for start f
proof
  fix x y r
  assume inv: "case x of (_, s) \<Rightarrow> recoverable s" and body: "remote_input_round start f r x = Again y"
  obtain n s where x: "x = (n, s)"
    by (cases x)
  from body obtain s1 s2 where p: "PumpLocked (WR_Env r) (WR_Events r) 0 s = Inr s1" and s2: "keeps (round_now r) s s2"
      "y = (n + 1, begin_recovery_after_second start (WR_Env r) s2)"
    unfolding x by (rule remote_input_again)
  show "case y of (_, s) \<Rightarrow> recoverable s"
    using inv recoverable_keeps [OF keeps_trans [OF s2(1) keeps_waits(1)]] by (simp add: x s2(2))
  show "(case y of (_, s) \<Rightarrow> recovery_rank start t s) < (case x of (_, s) \<Rightarrow> recovery_rank start (round_now r) s)"
    if "round_now r + milliseconds 1 \<le> t" for t
    using recovery_rank_decreases [OF _ p s2(1) refl that] inv by (simp add: x s2(2))
next
  fix x r y
  assume inv: "case x of (_, s) \<Rightarrow> recoverable s" and body: "remote_input_round start f r x = Leave y"
  obtain n s where x: "x = (n, s)"
    by (cases x)
  from body show "recovered_post f y"
    unfolding x remote_input_round_def Let_def case_prod_conv
  proof (cases rule: after_pump_Leave)
    case (pumped s1)
    let ?s2 = "MaybeResendLatestInputForFrameLeadLocked (WR_Env r) (MaybeResendStartReadyLocked (WR_Env r) False s1)"
    have "keeps (round_now r) s ?s2"
      using pumped(2) keeps_trans [OF keeps_senders(3) keeps_senders(4)] by (rule keeps_trans)
    from recoverable_keeps [OF this] have re: "RecoveryEnabled ?s2"
      using inv by (simp add: recoverable_def x)
    obtain i s3 where t: "TryGetRemoteInputLocked f ?s2 = (i, s3)"
      by (cases "TryGetRemoteInputLocked f ?s2")
    have "\<not> test_wait_expired start (round_now r) (begin_recovery_after_second start (WR_Env r) ?s2)"
      using re by (simp add: test_wait_expired_def config_simps(8) [OF keeps_config [OF keeps_waits(1)]])
    then obtain j where "i = Some j"
      using pumped(3) t TryGet_cases(1) [OF t] by (cases i) auto
    then show ?thesis
      using pumped(3) t TryGet_cases(2) [OF t, of j] re
      by (auto simp: mark_remote_wait_def record_wait_def CompleteRecovery_def connected_def RecordRemoteInputWait_def)
  qed simp
qed


text \<open>C11: A wait for a remote input never hangs. With recovery enabled and a host, the wait of
  \<^verbatim>\<open>WaitForRemoteInput\<close> for a frame of the epoch ends within 61001 iterations of at least a
  millisecond: after a second it starts the recovery, which fails after a minute. It either stops the
  process with a recovery failure or returns the input the session stores for the frame, in a
  connected and validated session whose recovery is complete; it never returns a made-up input.\<close>

theorem remote_input_wait_bounded:
  assumes "RecoveryEnabled s" and "HasHost (NS_Transport s)" and "\<not> before_epoch targetFrame s"
    and "\<forall>began. NS_RecoveryStarted s = Some began \<longrightarrow> began \<le> start" and "start \<le> round_now r"
    and "paced (r # rs)" and "61000 \<le> length rs"
  shows "\<exists>x. WaitForRemoteInput start targetFrame (r # rs) s = Some x
    \<and> (case x of Inl e \<Rightarrow> \<exists>failure. e = RecoveryExit failure
       | Inr (input, s') \<Rightarrow> fmlookup (TR_RemoteInputs (NS_Inputs s')) targetFrame = Some input
           \<and> connected s' \<and> NS_ResumeValidated s' \<and> NS_RecoveryStarted s' = None)"
proof -
  have "recovery_rank start (round_now r) s \<le> length rs"
    using recovery_rank_bound [OF assms(4,5)] assms(7) by simp
  moreover have "recoverable s"
    using assms(1,2) by (simp add: recoverable_def)
  ultimately obtain x where "poll_until (remote_input_round start targetFrame) (r # rs) (0, s) = Some x"
      "recovered_post targetFrame x"
    using recovery.returns_post [of "(0, s)", OF _ assms(6)] by auto
  then show ?thesis
    using assms(3) unfolding WaitForRemoteInput_def by (cases x) (auto split: prod.splits)
qed

definition clock_round :: "int \<Rightarrow> wait_round" where
  "clock_round ms = \<lparr>WR_Env = sample_env\<lparr>NE_Now := milliseconds ms\<rparr>, WR_Events = []\<rparr>"

lemma paced_clock: "paced (map clock_round [a..b])"
proof (induction a b rule: upto.induct)
  case (1 a b)
  then show ?case
    by (cases "a < b") (simp_all add: upto.simps [of a] upto.simps [of "a + 1"] clock_round_def milliseconds_def)
qed

definition waiting_session :: Session where
  "waiting_session = (PN_Session sample_peer)\<lparr>NS_Enabled := True, NS_Ready := True,
     NS_Input := InputConfig_default\<lparr>IC_NetplayOnly := True\<rparr>,
     NS_Rollback := RollbackConfig_default\<lparr>RB_Enabled := True, RB_Backend := RomLoop,
        RB_PredictionHorizonFrames := 7, RB_PredictionHorizonTimeoutMs := 3\<rparr>,
     NS_Inputs := PrimeEpoch 10 1 InputState_default 0 TimelineRuntime_init\<rparr>"

theorem prediction_horizon_enforced_witness:
  "\<exists>x. WaitForRollbackPredictionHorizon 0 12 12 12 (map clock_round [0..3]) waiting_session = Some x
    \<and> (case x of Inl e \<Rightarrow> e = ExitCode 73 \<or> (\<exists>failure. e = RecoveryExit failure)
       | Inr (_, s') \<Rightarrow> horizon_live 12 (NS_Rollback waiting_session) s')"
proof -
  have l: "map clock_round [0..3] = clock_round 0 # map clock_round [1..3]"
    by (simp add: upto.simps [of 0])
  have s: "RB_Enabled (NS_Rollback waiting_session)" "IC_NetplayOnly (NS_Input waiting_session)"
    "0 < RB_PredictionHorizonFrames (NS_Rollback waiting_session)" "NS_Enabled waiting_session"
    "NS_Ready waiting_session" "\<not> IsPastTestInputRange 12 waiting_session"
    "RB_PredictionHorizonTimeoutMs (NS_Rollback waiting_session) = 3"
    by code_simp+
  have p: "paced (clock_round 0 # map clock_round [1..3])"
    using paced_clock [of 0 3] by (simp only: l)
  show ?thesis
    unfolding l
    by (rule prediction_horizon_enforced [OF s(1-6) _ p]) (simp_all add: s(7) clock_round_def milliseconds_def)
qed

theorem remote_input_wait_bounded_witness:
  "\<exists>x. WaitForRemoteInput 0 10 (map clock_round [0..61000]) waiting_session = Some x
    \<and> (case x of Inl e \<Rightarrow> \<exists>failure. e = RecoveryExit failure
       | Inr (input, s') \<Rightarrow> fmlookup (TR_RemoteInputs (NS_Inputs s')) 10 = Some input
           \<and> connected s' \<and> NS_ResumeValidated s' \<and> NS_RecoveryStarted s' = None)"
proof -
  have l: "map clock_round [0..61000] = clock_round 0 # map clock_round [1..61000]"
    by (simp add: upto.simps [of 0])
  have s: "RecoveryEnabled waiting_session" "HasHost (NS_Transport waiting_session)"
    "\<not> before_epoch 10 waiting_session" "NS_RecoveryStarted waiting_session = None"
    by code_simp+
  have p: "paced (clock_round 0 # map clock_round [1..61000])"
    using paced_clock [of 0 61000] by (simp only: l)
  show ?thesis
    unfolding l
    by (rule remote_input_wait_bounded [OF s(1-3) _ _ p]) (simp_all add: s(4) clock_round_def milliseconds_def)
qed

section \<open>The start barrier\<close>

text \<open>The two ways a session leaves the start barrier: started, with both ready messages in agreement
  and the input epoch primed (a shared epoch of 0 has nothing to prime), or timed out, with the match
  not marked started and the local ready mark taken back.\<close>

definition match_started :: "Session \<Rightarrow> bool" where
  "match_started s \<longleftrightarrow> HR_WaitedForPeerAtStart (NS_Handshake s) \<and> HR_Validation (NS_Handshake s) = Match
     \<and> HR_RemoteReadyFrame (NS_Handshake s) \<noteq> None
     \<and> (CC_SharedLogicalEpoch (NS_Connection s) = 0
        \<or> InputEpochPrimedFor (CC_SharedLogicalEpoch (NS_Connection s)) (NS_Handshake s))"

definition start_timed_out :: "Session \<Rightarrow> bool" where
  "start_timed_out s \<longleftrightarrow> \<not> HR_WaitedForPeerAtStart (NS_Handshake s) \<and> HR_LocalReadyFrame (NS_Handshake s) = None
     \<and> \<not> HR_StartReadySent (NS_Handshake s) \<and> \<not> HR_RemoteReadyAfterLocal (NS_Handshake s)"

fun start_post :: "WaitExit + unit \<times> Session \<Rightarrow> bool" where
  "start_post (Inl e) \<longleftrightarrow> e = ExitCode 72 \<or> (\<exists>failure. e = RecoveryExit failure)"
| "start_post (Inr (_, s)) \<longleftrightarrow> match_started s \<or> start_timed_out s"

lemma PrimeInputEpochLocked_started:
  assumes "IC_NetplayOnly (NS_Input s)" and "HR_WaitedForPeerAtStart (NS_Handshake s)"
    and "HR_Validation (NS_Handshake s) = Match" and "HR_RemoteReadyFrame (NS_Handshake s) \<noteq> None"
  shows "match_started (PrimeInputEpochLocked s)"
  using assms by (auto simp: PrimeInputEpochLocked_def match_started_def Let_def MarkInputEpochPrimed_def InputEpochPrimedFor_def)

definition barrier_config :: "InputConfig \<Rightarrow> HarnessConfig \<Rightarrow> Session \<Rightarrow> bool" where
  "barrier_config i h s \<longleftrightarrow> NS_Input s = i \<and> NS_Harness s = h \<and> IC_NetplayOnly i \<and> 0 < HA_SeedWaitTimeoutMs h
     \<and> \<not> HR_WaitedForPeerAtStart (NS_Handshake s)"

lemma barrier_config_cong:
  "session_config s' = session_config s \<Longrightarrow> barrier_config i h s' = barrier_config i h s"
  by (simp add: barrier_config_def session_config_def)

lemma seed_wait_not_expired:
  "\<not> seed_wait_expired start now s \<Longrightarrow> 0 < HA_SeedWaitTimeoutMs (NS_Harness s)
    \<Longrightarrow> now < start + milliseconds (HA_SeedWaitTimeoutMs (NS_Harness s))"
  by (intro elapsed_ms_less) (simp add: seed_wait_expired_def)

definition barrier_sends :: "NetEnv \<Rightarrow> u32 \<Rightarrow> Session \<Rightarrow> Session" where
  "barrier_sends env f s = MaybeResendStartReadyLocked env True (SendStartReadyLocked env f False (SendMatchSeedLocked env s))"

lemma barrier_sends_config [simp]: "session_config (barrier_sends env f s) = session_config s"
  by (simp add: barrier_sends_def)

lemma after_pump_config:
  assumes "keeps now s s1"
  shows "session_config (barrier_sends env f s1) = session_config s"
  using keeps_config [OF assms] by simp

interpretation start_ready: ranked_wait "start_ready_round start f" "barrier_config i h" start_post
  "\<lambda>t s. ms_left (start + milliseconds (HA_SeedWaitTimeoutMs h)) t" for start f i h
proof
  fix s s' r
  assume inv: "barrier_config i h s" and body: "start_ready_round start f r s = Again s'"
  let ?t = "start + milliseconds (HA_SeedWaitTimeoutMs h)"
  from body obtain s1 where "keeps (round_now r) s s1" and s': "s' = barrier_sends (WR_Env r) f s1"
      and e: "\<not> seed_wait_expired start (round_now r) s'"
    unfolding start_ready_round_def Let_def barrier_sends_def [symmetric]
    by (auto elim!: after_pump_Again split: if_splits)
  from after_pump_config [OF this(1)] s' have "session_config s' = session_config s"
    by simp
  from barrier_config_cong [OF this] inv show i': "barrier_config i h s'"
    by simp
  with e have "round_now r < ?t"
    using seed_wait_not_expired by (auto simp: barrier_config_def)
  then show "ms_left ?t t < ms_left ?t (round_now r)" if "round_now r + milliseconds 1 \<le> t" for t
    using that by (rule ms_left_less)
next
  fix s r x
  assume inv: "barrier_config i h s" and body: "start_ready_round start f r s = Leave x"
  from body show "start_post x"
    unfolding start_ready_round_def Let_def barrier_sends_def [symmetric]
  proof (cases rule: after_pump_Leave)
    case (pumped s1)
    let ?s2 = "barrier_sends (WR_Env r) f s1"
    let ?s3 = "?s2\<lparr>NS_Handshake := MarkWaitedForPeerAtStart (NS_Handshake ?s2)\<rparr>"
    from barrier_config_cong [OF after_pump_config [OF pumped(2)]] inv have "barrier_config i h ?s2"
      by simp
    then have "IC_NetplayOnly (NS_Input ?s2)" and waiting: "\<not> HR_WaitedForPeerAtStart (NS_Handshake ?s2)"
      by (auto simp: barrier_config_def)
    then have "match_started (PrimeInputEpochLocked ?s3)"
      if "HR_RemoteReadyFrame (NS_Handshake ?s2) \<noteq> None" "HR_Validation (NS_Handshake ?s2) = Match"
      using that by (intro PrimeInputEpochLocked_started) (simp_all add: MarkWaitedForPeerAtStart_def)
    moreover have "start_timed_out (?s2\<lparr>NS_Handshake := ResetReadyWaitAfterTimeout (NS_Handshake ?s2)\<rparr>)"
      using waiting by (simp add: start_timed_out_def ResetReadyWaitAfterTimeout_def)
    ultimately show ?thesis
      using pumped(3) by (auto simp: StartReadyValidated_def ShouldAcceptStartReady_def split: if_splits)
  qed simp
qed

text \<open>C13: The start barrier ends, and only an agreed match starts. When \<^verbatim>\<open>WaitForRemoteStartReady\<close>
  applies and has a timeout, it ends within as many iterations as the timeout has milliseconds, plus
  one. The process stops with exit code 72 or a recovery failure, or the call returns in one of two
  states: marked started, with a received ready message that validated and the input epoch primed (or
  no epoch to prime, when the shared epoch is 0); or timed out, where the match is not marked started
  and the local ready mark is taken back, so that the barrier is entered anew.\<close>

theorem start_barrier_ends:
  assumes "NS_Enabled s" and "IC_NetplayOnly (NS_Input s)" and "HA_WaitForPeerAtNetplayStart (NS_Harness s)"
    and "CC_LocalStartupRawFrame (NS_Connection s) \<noteq> 0"
    and "CC_LocalStartupRawFrame (NS_Connection s) \<le> syncFrame"
    and "\<not> HR_WaitedForPeerAtStart (NS_Handshake s)" and "gameplayReady"
    and "0 < HA_SeedWaitTimeoutMs (NS_Harness s)" and "start \<le> round_now r" and "paced (r # rs)"
    and "nat (HA_SeedWaitTimeoutMs (NS_Harness s)) \<le> length rs"
  shows "\<exists>x. WaitForRemoteStartReady start gameplayReady built syncFrame (r # rs) s = Some x
    \<and> (case x of Inl e \<Rightarrow> e = ExitCode 72 \<or> (\<exists>failure. e = RecoveryExit failure)
       | Inr (_, s') \<Rightarrow> match_started s' \<or> start_timed_out s')"
proof -
  let ?s0 = "s\<lparr>NS_Handshake := begin_start_ready built syncFrame (NS_Handshake s)\<rparr>"
  have "ms_left (start + milliseconds (HA_SeedWaitTimeoutMs (NS_Harness s))) (round_now r) \<le> length rs"
    using assms(9,11) by (intro ms_left_le) (simp add: milliseconds_def nat_le_iff)
  moreover have "barrier_config (NS_Input s) (NS_Harness s) ?s0"
    using assms(2,6,8) by (simp add: barrier_config_def)
  ultimately obtain x where "poll_until (start_ready_round start syncFrame) (r # rs) ?s0 = Some x" "start_post x"
    using start_ready.returns_post [OF _ assms(10)] by blast
  then show ?thesis
    using assms(1-7) unfolding WaitForRemoteStartReady_def
    by (cases x) (auto simp: not_less split: prod.splits)
qed

definition barrier_session :: Session where
  "barrier_session = waiting_session\<lparr>
     NS_Harness := HarnessConfig_default\<lparr>HA_WaitForPeerAtNetplayStart := True, HA_SeedWaitTimeoutMs := 3\<rparr>,
     NS_Connection := ConnectionConfig_default\<lparr>CC_LocalStartupRawFrame := 5\<rparr>\<rparr>"

theorem start_barrier_ends_witness:
  "\<exists>x. WaitForRemoteStartReady 0 True Message_default 6 (map clock_round [0..3]) barrier_session = Some x
    \<and> (case x of Inl e \<Rightarrow> e = ExitCode 72 \<or> (\<exists>failure. e = RecoveryExit failure)
       | Inr (_, s') \<Rightarrow> match_started s' \<or> start_timed_out s')"
proof -
  have l: "map clock_round [0..3] = clock_round 0 # map clock_round [1..3]"
    by (simp add: upto.simps [of 0])
  have s: "NS_Enabled barrier_session" "IC_NetplayOnly (NS_Input barrier_session)"
    "HA_WaitForPeerAtNetplayStart (NS_Harness barrier_session)"
    "CC_LocalStartupRawFrame (NS_Connection barrier_session) \<noteq> 0"
    "CC_LocalStartupRawFrame (NS_Connection barrier_session) \<le> 6"
    "\<not> HR_WaitedForPeerAtStart (NS_Handshake barrier_session)" "HA_SeedWaitTimeoutMs (NS_Harness barrier_session) = 3"
    by code_simp+
  have p: "paced (clock_round 0 # map clock_round [1..3])"
    using paced_clock [of 0 3] by (simp only: l)
  show ?thesis
    unfolding l
    by (rule start_barrier_ends [OF s(1-6) _ _ _ p]) (simp_all add: s(7) clock_round_def milliseconds_def)
qed

section \<open>The frame lead\<close>

definition lead_within :: "u32 \<Rightarrow> InputConfig \<Rightarrow> Session \<Rightarrow> bool" where
  "lead_within sendFrame input s \<longleftrightarrow> TR_LastReceivedInputFrame (NS_Inputs s) = 0
     \<or> int_of_u32 sendFrame - int_of_u32 (TR_LastReceivedInputFrame (NS_Inputs s)) \<le> IC_MaxFrameLead input"

fun throttle_post :: "u32 \<Rightarrow> InputConfig \<Rightarrow> WaitExit + unit \<times> Session \<Rightarrow> bool" where
  "throttle_post f input (Inl e) \<longleftrightarrow> (\<exists>failure. e = RecoveryExit failure)"
| "throttle_post f input (Inr (_, s)) \<longleftrightarrow> lead_within f input s"

definition throttled :: "NetEnv \<Rightarrow> time_point \<Rightarrow> u32 \<Rightarrow> Session \<Rightarrow> Session" where
  "throttled env start frame s = mark_throttle frame
     (begin_recovery_after_second start env (MaybeResendLatestInputForFrameLeadLocked env s))"

lemma throttle_again:
  assumes "throttle_round start frame sendFrame r (n, b, s) = Again x"
  obtains s1 where "PumpLocked (WR_Env r) (WR_Events r) frame s = Inr s1" "keeps (round_now r) s s1"
    "x = (n + 1, True, throttled (WR_Env r) start frame (MaybeResendStartReadyLocked (WR_Env r) False s1))"
  using assms unfolding throttle_round_def Let_def throttled_def [symmetric] case_prod_conv
  by (elim after_pump_Again) (simp split: if_splits)

lemma keeps_throttled: "keeps (NE_Now env) s (throttled env start frame s)"
  unfolding throttled_def
  by (rule keeps_trans [OF keeps_senders(4) keeps_trans [OF keeps_waits(1) keeps_waits(3)]])

lemma throttled_started:
  "NS_RecoveryStarted (throttled env start frame s)
    = NS_RecoveryStarted (begin_recovery_after_second start env (MaybeResendLatestInputForFrameLeadLocked env s))"
  by (simp add: throttled_def mark_throttle_def Let_def)

lemma throttle_marks [simp]:
  "TR_LastReceivedInputFrame (NS_Inputs (record_throttle w n s)) = TR_LastReceivedInputFrame (NS_Inputs s)"
  "TR_LastReceivedInputFrame (NS_Inputs (mark_throttle_resolved f s)) = TR_LastReceivedInputFrame (NS_Inputs s)"
  by (simp_all add: record_throttle_def mark_throttle_resolved_def RecordFrameLeadThrottle_def)

interpretation throttle: ranked_wait "throttle_round start frame f"
  "\<lambda>(_, _, s). recoverable s \<and> NS_Input s = input" "throttle_post f input"
  "\<lambda>t (_, _, s). recovery_rank start t s" for start frame f input
proof
  fix x y r
  assume inv: "case x of (_, _, s) \<Rightarrow> recoverable s \<and> NS_Input s = input"
    and body: "throttle_round start frame f r x = Again y"
  obtain n b s where x: "x = (n, b, s)"
    by (cases x)
  from body obtain s1 where p: "PumpLocked (WR_Env r) (WR_Events r) frame s = Inr s1" and s1: "keeps (round_now r) s s1"
      "y = (n + 1, True, throttled (WR_Env r) start frame (MaybeResendStartReadyLocked (WR_Env r) False s1))"
    unfolding x by (rule throttle_again)
  have k: "keeps (round_now r) s (MaybeResendLatestInputForFrameLeadLocked (WR_Env r) (MaybeResendStartReadyLocked (WR_Env r) False s1))"
    using s1(1) keeps_trans [OF keeps_senders(3) keeps_senders(4)] by (rule keeps_trans)
  have k': "keeps (round_now r) s (throttled (WR_Env r) start frame (MaybeResendStartReadyLocked (WR_Env r) False s1))"
    using s1(1) keeps_trans [OF keeps_senders(3) keeps_throttled] by (rule keeps_trans)
  show "case y of (_, _, s) \<Rightarrow> recoverable s \<and> NS_Input s = input"
    using inv recoverable_keeps [OF k'] config_simps(3) [OF keeps_config [OF k']] by (simp add: x s1(2))
  show "(case y of (_, _, s) \<Rightarrow> recovery_rank start t s) < (case x of (_, _, s) \<Rightarrow> recovery_rank start (round_now r) s)"
    if "round_now r + milliseconds 1 \<le> t" for t
    using recovery_rank_decreases [OF _ p k throttled_started that] inv by (simp add: x s1(2))
next
  fix x r y
  assume inv: "case x of (_, _, s) \<Rightarrow> recoverable s \<and> NS_Input s = input"
    and body: "throttle_round start frame f r x = Leave y"
  obtain n b s where x: "x = (n, b, s)"
    by (cases x)
  from body show "throttle_post f input y"
    unfolding x throttle_round_def Let_def throttled_def [symmetric] case_prod_conv
  proof (cases rule: after_pump_Leave)
    case (pumped s1)
    let ?s2 = "MaybeResendStartReadyLocked (WR_Env r) False s1"
    have k: "keeps (round_now r) s ?s2"
      using pumped(2) keeps_senders(3) by (rule keeps_trans)
    have "NS_Input ?s2 = input"
      using inv config_simps(3) [OF keeps_config [OF k]] by (simp add: x)
    moreover have "RecoveryEnabled (throttled (WR_Env r) start frame ?s2)"
      using inv recoverable_keeps [OF keeps_trans [OF k keeps_throttled]] by (simp add: x recoverable_def)
    then have "\<not> test_wait_expired start (round_now r) (throttled (WR_Env r) start frame ?s2)"
      by (simp add: test_wait_expired_def)
    ultimately show ?thesis
      using pumped(3) by (auto simp: lead_within_def split: if_splits)
  qed simp
qed

text \<open>C14: The frame lead is bounded and its wait ends. With recovery enabled and a host, the wait of
  \<^verbatim>\<open>ThrottleFrameLead\<close>, when it applies, ends within 61001 iterations of at least a millisecond: the
  process stops with a recovery failure, or the call returns and the frame about to be sent is at most
  \<^verbatim>\<open>MaxFrameLead\<close> ahead of the last input received, or no input has been received yet. Without
  recovery the code gives up at the test timeout and may return with a larger lead; that case is not
  covered.\<close>

theorem frame_lead_bounded:
  assumes "RecoveryEnabled s" and "HasHost (NS_Transport s)"
    and "0 \<le> IC_MaxFrameLead (NS_Input s)" and "NS_Enabled s" and "NS_Ready s"
    and "CC_SharedLogicalEpoch (NS_Connection s) \<le> frame" and "\<not> IsPastTestInputRange sendFrame s"
    and "\<forall>began. NS_RecoveryStarted s = Some began \<longrightarrow> began \<le> start" and "start \<le> round_now r"
    and "paced (r # rs)" and "61000 \<le> length rs"
  shows "\<exists>x. ThrottleFrameLead start frame sendFrame (r # rs) s = Some x
    \<and> (case x of Inl e \<Rightarrow> \<exists>failure. e = RecoveryExit failure
       | Inr (_, s') \<Rightarrow> lead_within sendFrame (NS_Input s) s')"
proof -
  have "recovery_rank start (round_now r) s \<le> length rs"
    using recovery_rank_bound [OF assms(8,9)] assms(11) by simp
  moreover have "recoverable s"
    using assms(1,2) by (simp add: recoverable_def)
  ultimately obtain x where "poll_until (throttle_round start frame sendFrame) (r # rs) (0, False, s) = Some x"
      "throttle_post sendFrame (NS_Input s) x"
    using throttle.returns_post [where s = "(0, False, s)" and input = "NS_Input s" and start = start
        and frame = frame and f = sendFrame, OF _ assms(10)] by auto
  moreover have "IC_NetplayOnly (NS_Input s)"
    using assms(1) by (simp add: RecoveryEnabled_def)
  ultimately show ?thesis
    using assms(3-7) unfolding ThrottleFrameLead_def by (cases x) (auto simp: not_less split: prod.splits)
qed

definition leading_session :: Session where
  "leading_session = waiting_session\<lparr>NS_Input := (NS_Input waiting_session)\<lparr>IC_MaxFrameLead := 2\<rparr>\<rparr>"

theorem frame_lead_bounded_witness:
  "\<exists>x. ThrottleFrameLead 0 12 13 (map clock_round [0..61000]) leading_session = Some x
    \<and> (case x of Inl e \<Rightarrow> \<exists>failure. e = RecoveryExit failure
       | Inr (_, s') \<Rightarrow> lead_within 13 (NS_Input leading_session) s')"
proof -
  let ?s = leading_session
  have l: "map clock_round [0..61000] = clock_round 0 # map clock_round [1..61000]"
    by (simp add: upto.simps [of 0])
  have s: "RecoveryEnabled ?s" "HasHost (NS_Transport ?s)" "0 \<le> IC_MaxFrameLead (NS_Input ?s)" "NS_Enabled ?s"
    "NS_Ready ?s" "CC_SharedLogicalEpoch (NS_Connection ?s) \<le> 12" "\<not> IsPastTestInputRange 13 ?s"
    "NS_RecoveryStarted ?s = None"
    by code_simp+
  have p: "paced (clock_round 0 # map clock_round [1..61000])"
    using paced_clock [of 0 61000] by (simp only: l)
  show ?thesis
    unfolding l
    by (rule frame_lead_bounded [OF s(1-7) _ _ p]) (simp_all add: s(8) clock_round_def milliseconds_def)
qed

section \<open>Waiting for the seed and the peer\<close>

text \<open>With a timeout, the waits for the match seed and for the peer end.\<close>

lemma setup_round_again:
  assumes "after_pump r 0 s (\<lambda>s1. if P s1 \<or> seed_wait_expired start (round_now r) s1 then Leave (Inr ((), s1)) else Again s1) = Again s'"
    and "NS_Harness s = h" and "0 < HA_SeedWaitTimeoutMs h"
  shows "NS_Harness s' = h" "round_now r < start + milliseconds (HA_SeedWaitTimeoutMs h)"
proof -
  from assms(1) have k: "keeps (round_now r) s s'" and e: "\<not> seed_wait_expired start (round_now r) s'"
    by (auto elim!: after_pump_Again split: if_splits)
  from config_simps(5) [OF keeps_config [OF k]] show "NS_Harness s' = h"
    using assms(2) by simp
  with e assms(3) show "round_now r < start + milliseconds (HA_SeedWaitTimeoutMs h)"
    using seed_wait_not_expired by auto
qed

interpretation match_seed: ranked_wait "match_seed_round start" "\<lambda>s. NS_Harness s = h \<and> 0 < HA_SeedWaitTimeoutMs h"
  "\<lambda>_. True" "\<lambda>t s. ms_left (start + milliseconds (HA_SeedWaitTimeoutMs h)) t" for start h
  by unfold_locales (auto simp: match_seed_round_def dest: setup_round_again intro: ms_left_less)

interpretation peer_wait: ranked_wait "peer_round start" "\<lambda>s. NS_Harness s = h \<and> 0 < HA_SeedWaitTimeoutMs h"
  "\<lambda>_. True" "\<lambda>t s. ms_left (start + milliseconds (HA_SeedWaitTimeoutMs h)) t" for start h
  by unfold_locales (auto simp: peer_round_def dest: setup_round_again intro: ms_left_less)

lemma setup_waits_end:
  assumes "0 < HA_SeedWaitTimeoutMs (NS_Harness s)" and "start \<le> round_now r" and "paced (r # rs)"
    and "nat (HA_SeedWaitTimeoutMs (NS_Harness s)) \<le> length rs"
  shows "WaitForMatchSeed start (r # rs) s \<noteq> None" and "WaitForPeer start force (r # rs) s \<noteq> None"
proof -
  have m: "ms_left (start + milliseconds (HA_SeedWaitTimeoutMs (NS_Harness s))) (round_now r) \<le> length rs"
    using assms(2,4) by (intro ms_left_le) (simp add: milliseconds_def nat_le_iff)
  show "WaitForMatchSeed start (r # rs) s \<noteq> None"
    using match_seed.returns [where s = s and h = "NS_Harness s", OF _ assms(3) m] assms(1)
    by (auto simp: WaitForMatchSeed_def)
  show "WaitForPeer start force (r # rs) s \<noteq> None"
    using peer_wait.returns [where s = s and h = "NS_Harness s", OF _ assms(3) m] assms(1)
    by (auto simp: WaitForPeer_def)
qed

end
