(* ===== verification/Game_RAM.thy ===== *)
theory Game_RAM
  imports Wire_Bytes
begin

text \<open>
  The game memory rollback of the emulator core (\<^verbatim>\<open>NSMLGameRAMRollback.h\<close> and the \<^verbatim>\<open>NSMLGameRAM\<close>
  members of \<^verbatim>\<open>NDS\<close>): a ring of sixteen copies of the main memory taken at the input gate of the
  game, and the transaction that puts one of them back and replays the inputs recorded since. The
  record \<open>NDS\<close> has the fields these functions use and is extensible, so that the rest of the
  machine can be added to it. Main memory is a list of bytes; a null pointer is \<^term>\<open>None\<close>.
\<close>

unbundle bit_operations_syntax

section \<open>Memory\<close>

record NSMLGameRAMCheckpoint =
  CP_Valid :: bool
  CP_DisplayFrame :: u32
  CP_GameFrame :: u32
  CP_MainRAM :: "u8 list"

definition NSMLGameRAMCheckpoint_default :: NSMLGameRAMCheckpoint where
  "NSMLGameRAMCheckpoint_default =
     \<lparr>CP_Valid = False, CP_DisplayFrame = 0, CP_GameFrame = 0, CP_MainRAM = []\<rparr>"

record CheckpointFrameTimeline =
  TL_Active :: bool
  TL_LogicalFrame :: u32

record NDS =
  ND_MainRAM :: "u8 list option"
  ND_MainRAMMask :: u32
  ND_NumFrames :: u32
  ND_RestorePending :: bool
  ND_RestoreData :: "u8 list option"
  ND_RestoreLength :: u32
  ND_RestoreOwnedBuffer :: "u8 list"
  ND_RestoreUs :: u64
  ND_RestoreBytes :: u32
  ND_HistoryReachedExitGate :: bool
  ND_ReplayDisplayStartFrame :: u32
  ND_Checkpoints :: "NSMLGameRAMCheckpoint list"
  ND_NextCheckpoint :: u32
  ND_CheckpointTimeline :: CheckpointFrameTimeline

abbreviation main_ram :: "'m NDS_scheme \<Rightarrow> u8 list" where
  "main_ram n \<equiv> (case ND_MainRAM n of None \<Rightarrow> [] | Some ram \<Rightarrow> ram)"

text \<open>\<^verbatim>\<open>std::memcpy\<close> into memory at an offset, and from it.\<close>

definition copy_in :: "nat \<Rightarrow> u8 list \<Rightarrow> u8 list \<Rightarrow> u8 list" where
  "copy_in offset bytes ram = take offset ram @ bytes @ drop (offset + length bytes) ram"

definition copy_out :: "nat \<Rightarrow> nat \<Rightarrow> u8 list \<Rightarrow> u8 list" where
  "copy_out offset n ram = take n (drop offset ram)"

text \<open>The main memory case of the bus: addresses 0x02000000 to 0x02FFFFFF, mirrored by the mask.\<close>

definition ARM9Read32 :: "u32 \<Rightarrow> 'm NDS_scheme \<Rightarrow> u32" where
  "ARM9Read32 addr n = rd32 (main_ram n) (unat ((addr AND NOT 3) AND ND_MainRAMMask n))"

definition ARM9Read16 :: "u32 \<Rightarrow> 'm NDS_scheme \<Rightarrow> u16" where
  "ARM9Read16 addr n = rd16 (main_ram n) (unat ((addr AND NOT 1) AND ND_MainRAMMask n))"

definition ARM9Write32 :: "u32 \<Rightarrow> u32 \<Rightarrow> 'm NDS_scheme \<Rightarrow> 'm NDS_scheme" where
  "ARM9Write32 addr val n = n\<lparr>ND_MainRAM :=
     map_option (copy_in (unat ((addr AND NOT 3) AND ND_MainRAMMask n)) (u32_le val)) (ND_MainRAM n)\<rparr>"

definition ARM9Write16 :: "u32 \<Rightarrow> u16 \<Rightarrow> 'm NDS_scheme \<Rightarrow> 'm NDS_scheme" where
  "ARM9Write16 addr val n = n\<lparr>ND_MainRAM :=
     map_option (copy_in (unat ((addr AND NOT 1) AND ND_MainRAMMask n)) (u16_le val)) (ND_MainRAM n)\<rparr>"

definition historyEnabledAddr :: u32 where "historyEnabledAddr = 0x02001ACC"
definition historyIndexAddr :: u32 where "historyIndexAddr = 0x02001AD0"
definition historyCountAddr :: u32 where "historyCountAddr = 0x02001AD4"
definition historyTargetAddr :: u32 where "historyTargetAddr = 0x02001AD8"
definition historyStartFrameAddr :: u32 where "historyStartFrameAddr = 0x02001ADC"
definition gameFrameAddr :: u32 where "gameFrameAddr = 0x0208B668"

definition kNoReplayFrame :: u32 where "kNoReplayFrame = 0xFFFFFFFF"

section \<open>Frame arithmetic\<close>

definition RequiredHistoryCount :: "u32 \<Rightarrow> u32 \<Rightarrow> u32" where
  "RequiredHistoryCount restoreFrame currentFrame =
     (if currentFrame < restoreFrame \<or> currentFrame = 0xFFFFFFFF then 0
      else
        let rollbackDepth = currentFrame - restoreFrame
        in if 0xFFFFFFFD < rollbackDepth then 0 else rollbackDepth + 1)"

definition MaxRollbackDepthForHistory :: "u32 \<Rightarrow> u32" where
  "MaxRollbackDepthForHistory historyCapacity = (if historyCapacity \<noteq> 0 then historyCapacity - 1 else 0)"

definition TimelineReset :: CheckpointFrameTimeline where
  "TimelineReset = \<lparr>TL_Active = False, TL_LogicalFrame = 0\<rparr>"

definition SetLogicalFrame :: "u32 \<Rightarrow> CheckpointFrameTimeline \<Rightarrow> bool \<times> CheckpointFrameTimeline" where
  "SetLogicalFrame frame t =
     (let invalidatesCheckpoints = (\<not> TL_Active t \<or> frame < TL_LogicalFrame t)
      in (invalidatesCheckpoints, \<lparr>TL_Active = True, TL_LogicalFrame = frame\<rparr>))"

definition CaptureFrame :: "u32 \<Rightarrow> CheckpointFrameTimeline \<Rightarrow> u32" where
  "CaptureFrame rawFrame t = (if TL_Active t then TL_LogicalFrame t else rawFrame)"

definition CanFinalizeTransaction :: "bool \<Rightarrow> bool \<Rightarrow> bool \<Rightarrow> u32 \<Rightarrow> u32 \<Rightarrow> u32 \<Rightarrow> u32 \<Rightarrow> bool" where
  "CanFinalizeTransaction restorePending historyReachedExitGate historyEnabled historyIndex historyCount
     gameFrame historyStartFrame =
     (if restorePending \<or> historyCount = 0 then False
      else if \<not> historyReachedExitGate \<and> \<not> historyEnabled then False
      else if historyIndex < historyCount \<or> gameFrame < historyStartFrame then False
      else historyCount \<le> gameFrame - historyStartFrame)"

section \<open>The ring of checkpoints\<close>

definition kRingCapacity :: nat where "kRingCapacity = 16"

definition kGameRAMLength :: u32 where "kGameRAMLength = 0x400000"

definition game_ram_length :: "'m NDS_scheme \<Rightarrow> u32" where
  "game_ram_length n = min (ND_MainRAMMask n + 1) kGameRAMLength"

definition SetNSMLGameRAMCheckpointFrame :: "u32 \<Rightarrow> 'm NDS_scheme \<Rightarrow> 'm NDS_scheme" where
  "SetNSMLGameRAMCheckpointFrame logicalFrame n =
     (let (invalidates, timeline) = SetLogicalFrame logicalFrame (ND_CheckpointTimeline n);
          n1 = n\<lparr>ND_CheckpointTimeline := timeline\<rparr>
      in if \<not> invalidates then n1
         else n1\<lparr>ND_Checkpoints := map (\<lambda>c. c\<lparr>CP_Valid := False\<rparr>) (ND_Checkpoints n1),
                ND_NextCheckpoint := 0\<rparr>)"

definition fresh_ring :: "nat \<Rightarrow> NSMLGameRAMCheckpoint list \<Rightarrow> NSMLGameRAMCheckpoint list" where
  "fresh_ring len cs =
     map (\<lambda>c. c\<lparr>CP_Valid := False,
                CP_MainRAM := take len (CP_MainRAM c) @ replicate (len - length (CP_MainRAM c)) 0\<rparr>)
       (take kRingCapacity cs @ replicate (kRingCapacity - length cs) NSMLGameRAMCheckpoint_default)"

text \<open>\<open>enabled\<close> says whether the environment selects the ROM loop backend. The callback
  \<^verbatim>\<open>NSMLGameRAMCheckpointCallback\<close> that follows the copy is left out: the only one the program installs
  (\<^verbatim>\<open>PrepareRollbackTickTrace\<close>) reads a sample for a trace file and changes neither the machine nor the
  ring.\<close>

definition CaptureNSMLGameRAMCheckpointAtGate :: "bool \<Rightarrow> u32 \<Rightarrow> 'm NDS_scheme \<Rightarrow> 'm NDS_scheme" where
  "CaptureNSMLGameRAMCheckpointAtGate enabled displayFrame n =
     (if \<not> enabled \<or> ND_MainRAM n = None then n
      else if game_ram_length n \<noteq> kGameRAMLength then n
      else
        let len = unat (game_ram_length n);
            n1 = (if length (ND_Checkpoints n) \<noteq> kRingCapacity
                  then n\<lparr>ND_Checkpoints := fresh_ring len (ND_Checkpoints n), ND_NextCheckpoint := 0\<rparr>
                  else n);
            next_slot = unat (ND_NextCheckpoint n1);
            old = ND_Checkpoints n1 ! next_slot;
            new = old\<lparr>CP_Valid := True, CP_DisplayFrame := displayFrame,
                      CP_GameFrame := ARM9Read32 gameFrameAddr n1,
                      CP_MainRAM := copy_in 0 (take len (main_ram n1)) (CP_MainRAM old)\<rparr>
        in n1\<lparr>ND_Checkpoints := (ND_Checkpoints n1)[next_slot := new],
              ND_NextCheckpoint := (ND_NextCheckpoint n1 + 1) mod of_nat kRingCapacity\<rparr>)"

definition usable_checkpoint :: "u32 \<Rightarrow> NSMLGameRAMCheckpoint \<Rightarrow> bool" where
  "usable_checkpoint frame c \<longleftrightarrow> CP_Valid c \<and> CP_MainRAM c \<noteq> [] \<and> CP_DisplayFrame c \<le> frame"

fun best_checkpoint :: "u32 \<Rightarrow> NSMLGameRAMCheckpoint list \<Rightarrow> NSMLGameRAMCheckpoint option
    \<Rightarrow> NSMLGameRAMCheckpoint option" where
  "best_checkpoint frame [] best = best"
| "best_checkpoint frame (c # cs) best =
     best_checkpoint frame cs
       (if \<not> usable_checkpoint frame c then best
        else case best of
            None \<Rightarrow> Some c
          | Some b \<Rightarrow> if CP_DisplayFrame b < CP_DisplayFrame c then Some c else Some b)"

definition CopyNSMLGameRAMCheckpointAtOrBefore :: "u32 \<Rightarrow> 'm NDS_scheme \<Rightarrow> (u32 \<times> u32 \<times> u8 list) option" where
  "CopyNSMLGameRAMCheckpointAtOrBefore frame n =
     map_option (\<lambda>c. (CP_DisplayFrame c, CP_GameFrame c, CP_MainRAM c))
       (best_checkpoint frame (ND_Checkpoints n) None)"

text \<open>The loop of \<^verbatim>\<open>DiscardNSMLGameRAMCheckpointsAfter\<close> from an index on: the number of discarded
  entries, the slot and the frame of the earliest of them, and the entries.\<close>

fun discard_loop :: "u32 \<Rightarrow> nat \<Rightarrow> NSMLGameRAMCheckpoint list \<Rightarrow> u32 \<times> u32 \<times> u32
    \<Rightarrow> (u32 \<times> u32 \<times> u32) \<times> NSMLGameRAMCheckpoint list" where
  "discard_loop frame index [] acc = (acc, [])"
| "discard_loop frame index (c # cs) (discarded, firstDiscarded, firstDiscardedFrame) =
     (if \<not> CP_Valid c \<or> CP_DisplayFrame c \<le> frame
      then
        let (acc, cs') = discard_loop frame (index + 1) cs (discarded, firstDiscarded, firstDiscardedFrame)
        in (acc, c # cs')
      else
        let (first, firstFrame) = (if CP_DisplayFrame c < firstDiscardedFrame
                                   then (of_nat index, CP_DisplayFrame c)
                                   else (firstDiscarded, firstDiscardedFrame));
            (acc, cs') = discard_loop frame (index + 1) cs (discarded + 1, first, firstFrame)
        in (acc, c\<lparr>CP_Valid := False\<rparr> # cs'))"

definition DiscardNSMLGameRAMCheckpointsAfter :: "u32 \<Rightarrow> 'm NDS_scheme \<Rightarrow> u32 \<times> 'm NDS_scheme" where
  "DiscardNSMLGameRAMCheckpointsAfter frame n =
     (let ((discarded, firstDiscarded, _), cs) =
            discard_loop frame 0 (ND_Checkpoints n) (0, ND_NextCheckpoint n, 0xFFFFFFFF);
          n1 = n\<lparr>ND_Checkpoints := cs\<rparr>
      in (discarded, if discarded \<noteq> 0 then n1\<lparr>ND_NextCheckpoint := firstDiscarded\<rparr> else n1))"

section \<open>The transaction\<close>

definition IsNSMLGameRAMRollbackTransactionInFlight :: "'m NDS_scheme \<Rightarrow> bool" where
  "IsNSMLGameRAMRollbackTransactionInFlight n \<longleftrightarrow>
     ND_RestorePending n \<or> ND_HistoryReachedExitGate n \<or> ARM9Read32 historyEnabledAddr n \<noteq> 0"

definition ScheduleNSMLGameRAMRestore :: "u8 list \<Rightarrow> u32 \<Rightarrow> 'm NDS_scheme \<Rightarrow> bool \<times> 'm NDS_scheme" where
  "ScheduleNSMLGameRAMRestore img displayStartFrame n =
     (if ND_MainRAM n = None \<or> length img \<noteq> unat (game_ram_length n)
         \<or> IsNSMLGameRAMRollbackTransactionInFlight n
      then (False, n)
      else (True, n\<lparr>ND_RestoreOwnedBuffer := img, ND_RestoreData := Some img,
                    ND_RestoreLength := of_nat (length img), ND_HistoryReachedExitGate := False,
                    ND_ReplayDisplayStartFrame := displayStartFrame, ND_RestorePending := True\<rparr>))"

definition FinalizeNSMLGameRAMRollbackTransaction :: "'m NDS_scheme \<Rightarrow> bool \<times> 'm NDS_scheme" where
  "FinalizeNSMLGameRAMRollbackTransaction n =
     (let historyEnabled = (ARM9Read32 historyEnabledAddr n \<noteq> 0);
          historyCount = ARM9Read32 historyCountAddr n
      in if \<not> CanFinalizeTransaction (ND_RestorePending n) (ND_HistoryReachedExitGate n) historyEnabled
               (ARM9Read32 historyIndexAddr n) historyCount (ARM9Read32 gameFrameAddr n)
               (ARM9Read32 historyStartFrameAddr n)
         then (False, n)
         else
           let n1 = ARM9Write32 historyStartFrameAddr 0 (ARM9Write32 historyTargetAddr 0
                     (ARM9Write32 historyCountAddr 0 (ARM9Write32 historyIndexAddr 0
                       (ARM9Write32 historyEnabledAddr 0 n))))
           in (True, n1\<lparr>ND_HistoryReachedExitGate := False, ND_ReplayDisplayStartFrame := kNoReplayFrame\<rparr>))"

definition controlOffset :: nat where "controlOffset = 0x1AC0"
definition controlLength :: nat where "controlLength = 0x20"
definition historyOffset :: nat where "historyOffset = 0x3C1300"
definition historyLength :: nat where "historyLength = 12 * 16"
definition sdkRuntimeOffset :: nat where "sdkRuntimeOffset = 0x942A0"
definition sdkRuntimeEnd :: nat where "sdkRuntimeEnd = 0x98000"

definition restore_image :: "nat \<Rightarrow> u8 list \<Rightarrow> u8 list \<Rightarrow> u8 list" where
  "restore_image len img ram =
     (let control = copy_out controlOffset controlLength ram;
          history = copy_out historyOffset historyLength ram;
          beforeSDK = min len sdkRuntimeOffset;
          ram1 = copy_in 0 (take beforeSDK img) ram;
          ram2 = (if sdkRuntimeEnd < len
                  then copy_in sdkRuntimeEnd (copy_out sdkRuntimeEnd (len - sdkRuntimeEnd) img) ram1
                  else ram1)
      in copy_in historyOffset history (copy_in controlOffset control ram2))"

definition ApplyNSMLPendingGameRAMRestore :: "bool \<Rightarrow> u64 \<Rightarrow> 'm NDS_scheme \<Rightarrow> 'm NDS_scheme" where
  "ApplyNSMLPendingGameRAMRestore enabled elapsedUs n =
     (if \<not> ND_RestorePending n
      then
        if ARM9Read32 historyEnabledAddr n \<noteq> 0
        then
          let historyIndex = ARM9Read32 historyIndexAddr n
          in if ARM9Read32 historyCountAddr n \<le> historyIndex
             then ARM9Write32 historyEnabledAddr 0 (n\<lparr>ND_HistoryReachedExitGate := True\<rparr>)
             else if historyIndex \<noteq> 0 \<and> ND_ReplayDisplayStartFrame n \<noteq> kNoReplayFrame
             then CaptureNSMLGameRAMCheckpointAtGate enabled (ND_ReplayDisplayStartFrame n + historyIndex) n
             else n
        else if \<not> ND_HistoryReachedExitGate n
        then CaptureNSMLGameRAMCheckpointAtGate enabled
               (CaptureFrame (ND_NumFrames n) (ND_CheckpointTimeline n)) n
        else n
      else
        case ND_MainRAM n of
          None \<Rightarrow> n
        | Some ram \<Rightarrow>
            let len = game_ram_length n
            in case (if ND_RestoreLength n \<noteq> len then None else ND_RestoreData n) of
                 None \<Rightarrow> n\<lparr>ND_RestorePending := False, ND_RestoreData := None, ND_RestoreLength := 0,
                            ND_RestoreOwnedBuffer := []\<rparr>
               | Some img \<Rightarrow>
                   n\<lparr>ND_MainRAM := Some (restore_image (unat len) img ram), ND_RestoreUs := elapsedUs,
                     ND_RestoreBytes := len, ND_RestorePending := False, ND_RestoreData := None,
                     ND_RestoreLength := 0, ND_RestoreOwnedBuffer := []\<rparr>)"

section \<open>The ring is a bounded log\<close>

definition ring :: "'m NDS_scheme \<Rightarrow> NSMLGameRAMCheckpoint list" where
  "ring n = rotate (unat (ND_NextCheckpoint n)) (ND_Checkpoints n)"

type_synonym log_entry = "u32 \<times> u32 \<times> u8 list"

definition log_entry :: "NSMLGameRAMCheckpoint \<Rightarrow> log_entry" where
  "log_entry c = (CP_DisplayFrame c, CP_GameFrame c, CP_MainRAM c)"

definition ring_log :: "'m NDS_scheme \<Rightarrow> log_entry list" where
  "ring_log n = map log_entry (filter CP_Valid (ring n))"

text \<open>The ring is empty or full size; from the next slot on it holds first the unused and then the
  valid entries, in the order of their frames.\<close>

definition ring_inv :: "'m NDS_scheme \<Rightarrow> bool" where
  "ring_inv n \<longleftrightarrow> (ND_Checkpoints n = [] \<and> ND_NextCheckpoint n = 0
      \<or> length (ND_Checkpoints n) = kRingCapacity \<and> unat (ND_NextCheckpoint n) < kRingCapacity)
     \<and> (\<exists>u v. ring n = u @ v \<and> (\<forall>c \<in> set u. \<not> CP_Valid c)
          \<and> (\<forall>c \<in> set v. CP_Valid c \<and> CP_DisplayFrame c \<noteq> u32_max)
          \<and> sorted_wrt (<) (map CP_DisplayFrame v))
     \<and> (\<forall>c \<in> set (ND_Checkpoints n). length (CP_MainRAM c) = unat kGameRAMLength)"

lemma ring_invI:
  assumes "length (ND_Checkpoints n) = kRingCapacity" and "unat (ND_NextCheckpoint n) < kRingCapacity"
    and "ring n = u @ v" and "\<And>c. c \<in> set u \<Longrightarrow> \<not> CP_Valid c"
    and "\<And>c. c \<in> set v \<Longrightarrow> CP_Valid c \<and> CP_DisplayFrame c \<noteq> u32_max"
    and "sorted_wrt (<) (map CP_DisplayFrame v)"
    and "\<And>c. c \<in> set (ND_Checkpoints n) \<Longrightarrow> length (CP_MainRAM c) = unat kGameRAMLength"
  shows "ring_inv n"
  unfolding ring_inv_def using assms by blast

lemma rotate_update_next: "k < length xs \<Longrightarrow> rotate (Suc k) (xs[k := v]) = tl (rotate k xs) @ [v]"
proof -
  assume k: "k < length xs"
  then have "rotate (Suc k) (xs[k := v]) = drop (Suc k mod length xs) (xs[k := v]) @ take (Suc k mod length xs) (xs[k := v])"
    by (simp add: rotate_drop_take)
  also have "\<dots> = tl (drop k xs @ take k xs) @ [v]"
  proof (cases "Suc k = length xs")
    case True
    then show ?thesis
      using k by (simp add: list_eq_iff_nth_eq nth_append nth_tl nth_list_update)
  next
    case False
    then show ?thesis
      using k by (simp add: take_Suc_conv_app_nth drop_update_cancel flip: Cons_nth_drop_Suc [OF k])
  qed
  finally show ?thesis
    using k by (simp add: rotate_drop_take)
qed


lemma unat_next_slot:
  assumes "unat w < kRingCapacity"
  shows "unat ((w + 1) mod of_nat kRingCapacity :: u32) = Suc (unat w) mod kRingCapacity"
proof -
  have "unat (w + 1) = Suc (unat w)"
    using assms by (intro unat_Suc_u32) (auto simp: kRingCapacity_def unat_u32_max)
  then show ?thesis
    by (simp add: unat_mod kRingCapacity_def)
qed

lemma copy_in_all: "length xs = length ys \<Longrightarrow> copy_in 0 xs ys = xs"
  by (simp add: copy_in_def)

lemma length_fresh_ring [simp]: "length (fresh_ring len cs) = kRingCapacity"
  by (simp add: fresh_ring_def)

lemma fresh_ring_entries: "c \<in> set (fresh_ring len cs) \<Longrightarrow> \<not> CP_Valid c \<and> length (CP_MainRAM c) = len"
  by (auto simp: fresh_ring_def)

lemma ring_log_split:
  assumes "ring n = u @ v" and "\<forall>c \<in> set u. \<not> CP_Valid c" and "\<forall>c \<in> set v. CP_Valid c"
  shows "ring_log n = map log_entry v"
  using assms by (simp add: ring_log_def filter_empty_conv)

text \<open>The entry a capture stores.\<close>

definition captured :: "u32 \<Rightarrow> 'm NDS_scheme \<Rightarrow> log_entry" where
  "captured frame n = (frame, ARM9Read32 gameFrameAddr n, take (unat kGameRAMLength) (main_ram n))"

definition push_bounded :: "'a \<Rightarrow> 'a list \<Rightarrow> 'a list" where
  "push_bounded x xs = (if length xs < kRingCapacity then xs @ [x] else tl xs @ [x])"

definition can_capture :: "'m NDS_scheme \<Rightarrow> bool" where
  "can_capture n \<longleftrightarrow> ND_MainRAM n \<noteq> None \<and> game_ram_length n = kGameRAMLength
     \<and> unat kGameRAMLength \<le> length (main_ram n)"

text \<open>A ring of the right size before a capture.\<close>

definition sized_ring :: "'m NDS_scheme \<Rightarrow> 'm NDS_scheme" where
  "sized_ring n = (if length (ND_Checkpoints n) \<noteq> kRingCapacity
     then n\<lparr>ND_Checkpoints := fresh_ring (unat kGameRAMLength) (ND_Checkpoints n), ND_NextCheckpoint := 0\<rparr> else n)"

lemma sized_ring_inv:
  assumes "ring_inv n"
  shows "ring_inv (sized_ring n)" "length (ND_Checkpoints (sized_ring n)) = kRingCapacity"
    "unat (ND_NextCheckpoint (sized_ring n)) < kRingCapacity" "ring_log (sized_ring n) = ring_log n"
    "captured f (sized_ring n) = captured f n"
proof -
  show l: "length (ND_Checkpoints (sized_ring n)) = kRingCapacity"
    by (simp add: sized_ring_def)
  show "unat (ND_NextCheckpoint (sized_ring n)) < kRingCapacity"
    using assms by (auto simp: sized_ring_def ring_inv_def kRingCapacity_def)
  show "captured f (sized_ring n) = captured f n"
    by (simp add: captured_def sized_ring_def ARM9Read32_def)
  show "ring_inv (sized_ring n)" "ring_log (sized_ring n) = ring_log n"
  proof -
    have "ring_inv (sized_ring n) \<and> ring_log (sized_ring n) = ring_log n"
    proof (cases "length (ND_Checkpoints n) = kRingCapacity")
      case False
      then have e: "ND_Checkpoints n = []"
        using assms by (auto simp: ring_inv_def)
      then have s: "sized_ring n = n\<lparr>ND_Checkpoints := fresh_ring (unat kGameRAMLength) [], ND_NextCheckpoint := 0\<rparr>"
        by (simp add: sized_ring_def kRingCapacity_def)
      have r: "ring (sized_ring n) = fresh_ring (unat kGameRAMLength) [] @ []"
        by (simp add: ring_def s)
      have "ring_inv (sized_ring n)"
        by (rule ring_invI [OF l _ r]) (auto simp: s kRingCapacity_def dest: fresh_ring_entries)
      moreover have "ring_log (sized_ring n) = []"
        unfolding ring_log_def r by (auto simp: filter_empty_conv dest: fresh_ring_entries)
      moreover have "ring_log n = []"
        by (simp add: ring_log_def ring_def e)
      ultimately show ?thesis
        by simp
    qed (simp add: assms sized_ring_def)
    then show "ring_inv (sized_ring n)" "ring_log (sized_ring n) = ring_log n"
      by simp_all
  qed
qed


lemma capture_ring:
  assumes inv: "ring_inv n" and can: "can_capture n"
  shows "\<exists>new. log_entry new = captured f n \<and> CP_Valid new
    \<and> ring (CaptureNSMLGameRAMCheckpointAtGate True f n) = tl (ring (sized_ring n)) @ [new]
    \<and> length (ND_Checkpoints (CaptureNSMLGameRAMCheckpointAtGate True f n)) = kRingCapacity
    \<and> unat (ND_NextCheckpoint (CaptureNSMLGameRAMCheckpointAtGate True f n)) < kRingCapacity
    \<and> (\<forall>c \<in> set (ND_Checkpoints (CaptureNSMLGameRAMCheckpointAtGate True f n)).
         length (CP_MainRAM c) = unat kGameRAMLength)"
proof -
  let ?n1 = "sized_ring n"
  let ?k = "unat (ND_NextCheckpoint ?n1)"
  let ?old = "ND_Checkpoints ?n1 ! ?k"
  define new where "new = ?old\<lparr>CP_Valid := True, CP_DisplayFrame := f, CP_GameFrame := ARM9Read32 gameFrameAddr ?n1,
    CP_MainRAM := copy_in 0 (take (unat kGameRAMLength) (main_ram ?n1)) (CP_MainRAM ?old)\<rparr>"
  note i1 = sized_ring_inv [OF inv]
  have all: "\<forall>c \<in> set (ND_Checkpoints ?n1). length (CP_MainRAM c) = unat kGameRAMLength"
    using i1(1) by (simp add: ring_inv_def)
  have old: "length (CP_MainRAM ?old) = unat kGameRAMLength"
    using all i1(2,3) by simp
  have ram: "main_ram ?n1 = main_ram n"
    by (simp add: sized_ring_def)
  have len: "length (take (unat kGameRAMLength) (main_ram n)) = unat kGameRAMLength"
    using can by (simp add: can_capture_def)
  have cap: "CaptureNSMLGameRAMCheckpointAtGate True f n = ?n1\<lparr>ND_Checkpoints := (ND_Checkpoints ?n1)[?k := new],
      ND_NextCheckpoint := (ND_NextCheckpoint ?n1 + 1) mod of_nat kRingCapacity\<rparr>"
    using can unfolding can_capture_def
    by (elim conjE not_None_eq [THEN iffD1, THEN exE])
      (simp add: CaptureNSMLGameRAMCheckpointAtGate_def Let_def new_def sized_ring_def)
  have bytes: "CP_MainRAM new = take (unat kGameRAMLength) (main_ram n)"
    using old len ram by (simp add: new_def copy_in_all)
  have "log_entry new = captured f n"
    using i1(5) [of f] bytes by (simp add: log_entry_def captured_def new_def)
  moreover have "ring (CaptureNSMLGameRAMCheckpointAtGate True f n) = tl (ring ?n1) @ [new]"
    using i1(2,3) rotate_update_next [of ?k "ND_Checkpoints ?n1" new]
      rotate_conv_mod [of "Suc ?k" "(ND_Checkpoints ?n1)[?k := new]"]
    by (simp add: cap ring_def unat_next_slot)
  moreover have "\<forall>c \<in> set ((ND_Checkpoints ?n1)[?k := new]). length (CP_MainRAM c) = unat kGameRAMLength"
    using all bytes len set_update_subset_insert [of "ND_Checkpoints ?n1" ?k new] by auto
  ultimately show ?thesis
    using i1(2,3) by (intro exI [of _ new]) (simp add: cap new_def unat_next_slot)
qed


lemma set_tl_subset: "set (tl xs) \<subseteq> set xs"
  by (cases xs) auto

theorem capture_log:
  assumes inv: "ring_inv n" and can: "can_capture n" and f: "f \<noteq> u32_max" "\<forall>e \<in> set (ring_log n). fst e < f"
  shows "ring_inv (CaptureNSMLGameRAMCheckpointAtGate True f n)"
    and "ring_log (CaptureNSMLGameRAMCheckpointAtGate True f n) = push_bounded (captured f n) (ring_log n)"
proof -
  let ?n1 = "sized_ring n" and ?n2 = "CaptureNSMLGameRAMCheckpointAtGate True f n"
  note i1 = sized_ring_inv [OF inv]
  obtain u v where uv: "ring ?n1 = u @ v" "\<forall>c \<in> set u. \<not> CP_Valid c"
      "\<forall>c \<in> set v. CP_Valid c \<and> CP_DisplayFrame c \<noteq> u32_max" "sorted_wrt (<) (map CP_DisplayFrame v)"
    using i1(1) by (auto simp: ring_inv_def)
  obtain new where new: "log_entry new = captured f n" "CP_Valid new" "ring ?n2 = tl (ring ?n1) @ [new]"
      "length (ND_Checkpoints ?n2) = kRingCapacity" "unat (ND_NextCheckpoint ?n2) < kRingCapacity"
      "\<forall>c \<in> set (ND_Checkpoints ?n2). length (CP_MainRAM c) = unat kGameRAMLength"
    using capture_ring [OF inv can] by blast
  have log: "ring_log n = map log_entry v"
    using ring_log_split [OF uv(1,2)] uv(3) i1(4) by simp
  have frame: "CP_DisplayFrame new = f"
    using new(1) by (simp add: log_entry_def captured_def)
  have below: "\<forall>c \<in> set v. CP_DisplayFrame c < f"
    using f(2) by (auto simp: log log_entry_def)
  have len: "length u + length v = kRingCapacity"
    using i1(2) uv(1) by (metis length_append length_rotate ring_def)
  define v' where "v' = (if u = [] then tl v else v) @ [new]"
  have r2: "ring ?n2 = tl u @ v'"
    using new(3) uv(1) len by (cases u) (auto simp: v'_def kRingCapacity_def)
  have sv: "set (if u = [] then tl v else v) \<subseteq> set v"
    using set_tl_subset [of v] by auto
  have v': "\<And>c. c \<in> set v' \<Longrightarrow> CP_Valid c \<and> CP_DisplayFrame c \<noteq> u32_max" "sorted_wrt (<) (map CP_DisplayFrame v')"
  proof -
    show "CP_Valid c \<and> CP_DisplayFrame c \<noteq> u32_max" if "c \<in> set v'" for c
      using that uv(3) sv new(2) frame f(1) by (auto simp: v'_def split: if_splits)
    have "sorted_wrt (<) (map CP_DisplayFrame (if u = [] then tl v else v))"
      using uv(4) by (cases v) auto
    then show "sorted_wrt (<) (map CP_DisplayFrame v')"
      using below sv frame unfolding v'_def map_append sorted_wrt_append by auto
  qed
  have tu: "\<And>c. c \<in> set (tl u) \<Longrightarrow> \<not> CP_Valid c"
    using uv(2) set_tl_subset [of u] by blast
  show "ring_inv ?n2"
    using new(6) by (intro ring_invI [OF new(4,5) r2 tu v']) auto
  have "ring_log ?n2 = map log_entry v'"
    using tu v'(1) by (intro ring_log_split [OF r2]) blast+
  also have "\<dots> = push_bounded (captured f n) (ring_log n)"
    using new(1) len by (cases u) (auto simp: v'_def push_bounded_def log map_tl)
  finally show "ring_log ?n2 = push_bounded (captured f n) (ring_log n)" .
qed

abbreviation discarded_after :: "u32 \<Rightarrow> NSMLGameRAMCheckpoint \<Rightarrow> bool" where
  "discarded_after f c \<equiv> CP_Valid c \<and> f < CP_DisplayFrame c"

lemma discard_loop_entries:
  "snd (discard_loop f i cs acc) = map (\<lambda>c. if discarded_after f c then c\<lparr>CP_Valid := False\<rparr> else c) cs"
  by (induction f i cs acc rule: discard_loop.induct) (auto simp: Let_def case_prod_beta not_le)

lemma discard_loop_count:
  "fst (fst (discard_loop f i cs acc)) = fst acc + of_nat (length (filter (discarded_after f) cs))"
  by (induction f i cs acc rule: discard_loop.induct) (auto simp: Let_def case_prod_beta not_le)

text \<open>The slot the loop finds is that of the earliest discarded entry.\<close>

lemma discard_loop_first:
  "case fst (discard_loop f i cs (d, s, m)) of (d', s', m') \<Rightarrow>
     (\<forall>c \<in> set (filter (discarded_after f) cs). m' \<le> CP_DisplayFrame c) \<and> m' \<le> m
     \<and> ((s', m') = (s, m)
        \<or> (\<exists>j < length cs. discarded_after f (cs ! j) \<and> s' = of_nat (i + j) \<and> m' = CP_DisplayFrame (cs ! j)))"
proof (induction cs arbitrary: i d s m)
  case Nil
  then show ?case by simp
next
  case (Cons c cs)
  have shift: "\<exists>j < length (c # cs). discarded_after f ((c # cs) ! j) \<and> s' = of_nat (i + j) \<and> m' = CP_DisplayFrame ((c # cs) ! j)"
    if "\<exists>j < length cs. discarded_after f (cs ! j) \<and> s' = of_nat (i + 1 + j) \<and> m' = CP_DisplayFrame (cs ! j)"
    for s' :: u32 and m'
    using that by (elim exE conjE, intro exI [of _ "Suc _"]) simp
  define acc where "acc = (if discarded_after f c
    then (d + 1, if CP_DisplayFrame c < m then (of_nat i, CP_DisplayFrame c) else (s, m)) else (d, s, m))"
  obtain d1 s1 m1 where acc: "acc = (d1, s1, m1)"
    by (cases acc)
  have loop: "fst (discard_loop f i (c # cs) (d, s, m)) = fst (discard_loop f (i + 1) cs acc)"
    by (auto simp: acc_def Let_def case_prod_beta not_le)
  obtain d' s' m' where r: "fst (discard_loop f (i + 1) cs acc) = (d', s', m')"
    by (cases "fst (discard_loop f (i + 1) cs acc)")
  have ih: "\<forall>c \<in> set (filter (discarded_after f) cs). m' \<le> CP_DisplayFrame c" "m' \<le> m1"
      "(s', m') = (s1, m1) \<or> (\<exists>j < length cs. discarded_after f (cs ! j) \<and> s' = of_nat (i + 1 + j) \<and> m' = CP_DisplayFrame (cs ! j))"
    using Cons.IH [where i = "i + 1" and d = d1 and s = s1 and m = m1] r unfolding acc by auto
  have first: "m1 \<le> m" "discarded_after f c \<Longrightarrow> m1 \<le> CP_DisplayFrame c"
      "(s1, m1) = (s, m) \<or> discarded_after f c \<and> s1 = of_nat i \<and> m1 = CP_DisplayFrame c"
    using acc unfolding acc_def by (auto split: if_splits)
  have "m' \<le> m"
    using ih(2) first(1) by (rule order_trans)
  moreover have "m' \<le> CP_DisplayFrame x" if "x \<in> set (filter (discarded_after f) (c # cs))" for x
    using that ih(1) order_trans [OF ih(2) first(2)] by (auto split: if_splits)
  moreover have "(s', m') = (s, m) \<or> (\<exists>j < length (c # cs). discarded_after f ((c # cs) ! j)
      \<and> s' = of_nat (i + j) \<and> m' = CP_DisplayFrame ((c # cs) ! j))"
    using ih(3)
  proof
    assume "(s', m') = (s1, m1)"
    then show ?thesis
      using first(3) by (auto intro: exI [of _ 0])
  next
    assume "\<exists>j < length cs. discarded_after f (cs ! j) \<and> s' = of_nat (i + 1 + j) \<and> m' = CP_DisplayFrame (cs ! j)"
    from shift [OF this] show ?thesis ..
  qed
  ultimately show ?case
    unfolding loop r prod.case by simp
qed


lemma filter_less_sorted:
  assumes "sorted_wrt (<) (map g xs)"
  shows "\<exists>a b. xs = a @ b \<and> (\<forall>x \<in> set a. g x \<le> f) \<and> (\<forall>x \<in> set b. f < (g x :: 'a :: linorder))"
proof (intro exI conjI)
  show "xs = takeWhile (\<lambda>x. g x \<le> f) xs @ dropWhile (\<lambda>x. g x \<le> f) xs"
    by simp
  show "\<forall>x \<in> set (takeWhile (\<lambda>x. g x \<le> f) xs). g x \<le> f"
    by (auto dest: set_takeWhileD)
  show "\<forall>x \<in> set (dropWhile (\<lambda>x. g x \<le> f) xs). f < g x"
    using assms by (induction xs) (auto simp: not_le intro: less_trans)
qed

lemma length_filter_rotate: "length (filter P (rotate k xs)) = length (filter P xs)"
proof -
  have "length (filter P xs) = length (filter P (take (k mod length xs) xs @ drop (k mod length xs) xs))"
    by (simp only: append_take_drop_id)
  then show ?thesis
    unfolding rotate_drop_take filter_append length_append by simp
qed

lemma first_discarded:
  assumes inv: "ring_inv n" and uv: "ring n = u @ v" "\<forall>c \<in> set u. \<not> CP_Valid c"
      "\<forall>c \<in> set v. CP_Valid c \<and> CP_DisplayFrame c \<noteq> u32_max" "sorted_wrt (<) (map CP_DisplayFrame v)"
    and ab: "v = a @ b" "\<forall>c \<in> set a. CP_DisplayFrame c \<le> f" "\<forall>c \<in> set b. f < CP_DisplayFrame c"
    and b: "b \<noteq> []"
    and l: "fst (discard_loop f 0 (ND_Checkpoints n) (0, ND_NextCheckpoint n, 0xFFFFFFFF)) = (d, s, m)"
  shows "s = of_nat ((unat (ND_NextCheckpoint n) + length (u @ a)) mod kRingCapacity)"
proof -
  let ?cs = "ND_Checkpoints n" and ?k = "unat (ND_NextCheckpoint n)" and ?p = "length (u @ a)"
  have "ring n \<noteq> []"
    using b by (simp add: uv(1) ab(1))
  then have len: "length ?cs = kRingCapacity" "?k < kRingCapacity"
    using inv by (auto simp: ring_inv_def ring_def)
  have rl: "length (ring n) = kRingCapacity"
    by (simp add: ring_def len)
  have p: "?p < kRingCapacity" "ring n ! ?p = hd b"
    using b rl by (cases b; simp add: uv(1) ab(1) nth_append)+
  have hb: "hd b \<in> set ?cs" "discarded_after f (hd b)" "CP_DisplayFrame (hd b) < 0xFFFFFFFF"
  proof -
    show "hd b \<in> set ?cs"
      using p rl nth_mem [of ?p "ring n"] by (simp add: ring_def)
    show "discarded_after f (hd b)"
      using b uv(3) ab by auto
    have "CP_DisplayFrame (hd b) \<noteq> u32_max"
      using b uv(3) ab(1) by auto
    then have "CP_DisplayFrame (hd b) < u32_max"
      by (simp add: order.strict_iff_order)
    then show "CP_DisplayFrame (hd b) < 0xFFFFFFFF"
      by (simp add: u32_max_def)
  qed
  have post: "\<forall>c \<in> set (filter (discarded_after f) ?cs). m \<le> CP_DisplayFrame c"
    "(s, m) = (ND_NextCheckpoint n, 0xFFFFFFFF) \<or> (\<exists>j < length ?cs. discarded_after f (?cs ! j)
       \<and> s = of_nat (0 + j) \<and> m = CP_DisplayFrame (?cs ! j))"
    using discard_loop_first [where f = f and i = 0 and cs = ?cs and d = 0 and s = "ND_NextCheckpoint n"
        and m = "0xFFFFFFFF"] l by auto
  have mh: "m \<le> CP_DisplayFrame (hd b)"
    using post(1) hb by simp
  then obtain j where j: "j < kRingCapacity" "discarded_after f (?cs ! j)" "s = of_nat j" "m = CP_DisplayFrame (?cs ! j)"
    using post(2) hb(3) len by auto
  define q where "q = (j + (kRingCapacity - ?k)) mod kRingCapacity"
  have q: "q < kRingCapacity" "(?k + q) mod kRingCapacity = j"
    using len(2) j(1) by (auto simp: q_def kRingCapacity_def mod_simps)
  have rq: "ring n ! q = ?cs ! j"
    using q len by (simp add: ring_def nth_rotate)
  have "\<not> q < ?p"
  proof
    assume "q < ?p"
    then have "ring n ! q \<in> set (u @ a)"
      by (simp add: uv(1) ab(1) nth_append flip: append_assoc)
    then show False
      using uv(2) ab(2) j(2) unfolding rq by (auto dest: leD)
  qed
  moreover have "\<not> ?p < q"
  proof
    assume lt: "?p < q"
    then have "ring n ! q = b ! (q - ?p)"
      by (simp add: uv(1) ab(1) nth_append flip: append_assoc)
    moreover have "q - ?p < length b" "0 < q - ?p"
      using q(1) rl lt by (auto simp: uv(1) ab(1))
    moreover have "sorted_wrt (<) (map CP_DisplayFrame b)"
      using uv(4) by (simp add: ab(1) sorted_wrt_append)
    ultimately have "CP_DisplayFrame (hd b) < CP_DisplayFrame (?cs ! j)"
      using sorted_wrt_nth_less [of "(<)" "map CP_DisplayFrame b" 0 "q - ?p"] rq b by (simp add: hd_conv_nth)
    then show False
      using mh j(4) by simp
  qed
  ultimately have "q = ?p"
    by simp
  then show ?thesis
    using q(2) j(3) by simp
qed

theorem discard_log:
  assumes inv: "ring_inv n"
  shows "ring_inv (snd (DiscardNSMLGameRAMCheckpointsAfter f n))"
    and "ring_log (snd (DiscardNSMLGameRAMCheckpointsAfter f n)) = filter (\<lambda>e. fst e \<le> f) (ring_log n)"
    and "unat (fst (DiscardNSMLGameRAMCheckpointsAfter f n)) = length (filter (\<lambda>e. f < fst e) (ring_log n))"
proof -
  let ?cs = "ND_Checkpoints n" and ?k = "unat (ND_NextCheckpoint n)"
  let ?inval = "\<lambda>c. if discarded_after f c then c\<lparr>CP_Valid := False\<rparr> else c"
  obtain u v where uv: "ring n = u @ v" "\<forall>c \<in> set u. \<not> CP_Valid c"
      "\<forall>c \<in> set v. CP_Valid c \<and> CP_DisplayFrame c \<noteq> u32_max" "sorted_wrt (<) (map CP_DisplayFrame v)"
    using inv by (auto simp: ring_inv_def)
  obtain a b where ab: "v = a @ b" "\<forall>c \<in> set a. CP_DisplayFrame c \<le> f" "\<forall>c \<in> set b. f < CP_DisplayFrame c"
    using filter_less_sorted [OF uv(4)] by blast
  obtain d s m where l: "fst (discard_loop f 0 ?cs (0, ND_NextCheckpoint n, 0xFFFFFFFF)) = (d, s, m)"
    by (cases "fst (discard_loop f 0 ?cs (0, ND_NextCheckpoint n, 0xFFFFFFFF))")
  have dn: "DiscardNSMLGameRAMCheckpointsAfter f n = (d, if d \<noteq> 0
      then n\<lparr>ND_Checkpoints := map ?inval ?cs, ND_NextCheckpoint := s\<rparr> else n\<lparr>ND_Checkpoints := map ?inval ?cs\<rparr>)"
    using l discard_loop_entries [of f 0 ?cs "(0, ND_NextCheckpoint n, 0xFFFFFFFF)"]
    by (simp add: DiscardNSMLGameRAMCheckpointsAfter_def Let_def case_prod_beta)
  have "length (filter (discarded_after f) ?cs) = length (filter (discarded_after f) (ring n))"
    by (simp add: ring_def length_filter_rotate)
  also have "\<dots> = length b"
    using uv ab by (auto simp: filter_id_conv filter_empty_conv)
  finally have count: "length (filter (discarded_after f) ?cs) = length b" .
  have cap: "length ?cs \<le> kRingCapacity"
    using inv by (auto simp: ring_inv_def)
  have lenb: "length b \<le> kRingCapacity"
    using count cap length_filter_le [of "discarded_after f" ?cs] by simp
  have d: "d = of_nat (length b)"
    using discard_loop_count [of f 0 ?cs "(0, ND_NextCheckpoint n, 0xFFFFFFFF)"] l count by simp
  have ud: "unat d = length b"
    using lenb by (simp add: d kRingCapacity_def unat_of_nat)
  have d0: "d = 0 \<longleftrightarrow> b = []"
    using ud by (metis length_0_conv unat_eq_zero)
  have log: "ring_log n = map log_entry (a @ b)"
    using ring_log_split [OF uv(1,2)] uv(3) ab(1) by simp
  have filters: "filter (\<lambda>e. fst e \<le> f) (ring_log n) = map log_entry a"
      "filter (\<lambda>e. f < fst e) (ring_log n) = map log_entry b"
    using ab(2,3) by (auto simp: log filter_map o_def log_entry_def filter_id_conv filter_empty_conv not_le not_less)
  show "unat (fst (DiscardNSMLGameRAMCheckpointsAfter f n)) = length (filter (\<lambda>e. f < fst e) (ring_log n))"
    by (simp add: dn ud filters)
  let ?n' = "snd (DiscardNSMLGameRAMCheckpointsAfter f n)"
  have keep: "map ?inval (u @ a) = u @ a"
    using uv(2) ab(2) by (intro map_idI) (auto dest: leD)
  have r': "ring ?n' = (map ?inval b @ u) @ a"
  proof (cases "b = []")
    case True
    then have "map ?inval ?cs = ?cs"
      using count by (auto simp: filter_empty_conv intro!: map_idI)
    then show ?thesis
      using True uv(1) ab(1) d0 by (simp add: dn ring_def)
  next
    case False
    then have "d \<noteq> 0"
      using d0 by simp
    have len: "length ?cs = kRingCapacity" "?k < kRingCapacity"
      using inv False count by (auto simp: ring_inv_def)
    have rl: "length (ring n) = kRingCapacity"
      by (simp add: ring_def len)
    have first: "s = of_nat ((?k + length (u @ a)) mod kRingCapacity)"
      by (rule first_discarded [OF inv uv ab False l])
    then have "unat s = (?k + length (u @ a)) mod kRingCapacity"
      by (simp add: unat_of_nat kRingCapacity_def)
    then have "ring ?n' = rotate (length (u @ a)) (map ?inval (ring n))"
      using \<open>d \<noteq> 0\<close> len rotate_conv_mod [of "?k + length (u @ a)" ?cs]
      by (simp add: dn ring_def rotate_rotate rotate_map ac_simps)
    also have "\<dots> = rotate (length (u @ a)) (map ?inval (u @ a) @ map ?inval b)"
      by (simp add: uv(1) ab(1))
    also have "\<dots> = (map ?inval b @ u) @ a"
      unfolding keep rotate_append by simp
    finally show ?thesis .
  qed
  have inv': "\<not> CP_Valid c" if "c \<in> set (map ?inval b @ u)" for c
    using that uv(2,3) ab(1,3) by auto
  have va: "\<And>c. c \<in> set a \<Longrightarrow> CP_Valid c \<and> CP_DisplayFrame c \<noteq> u32_max" "sorted_wrt (<) (map CP_DisplayFrame a)"
    using uv(3,4) by (auto simp: ab(1) sorted_wrt_append)
  show "ring_log ?n' = filter (\<lambda>e. fst e \<le> f) (ring_log n)"
  proof -
    have "ring_log ?n' = map log_entry a"
      by (rule ring_log_split [OF r']) (use inv' va(1) in blast)+
    then show ?thesis
      by (simp add: filters)
  qed
  have "length (CP_MainRAM c) = unat kGameRAMLength" if "c \<in> set (ND_Checkpoints ?n')" for c
    using that inv by (auto simp: dn ring_inv_def split: if_splits)
  moreover have "ND_Checkpoints ?n' = [] \<and> ND_NextCheckpoint ?n' = 0
      \<or> length (ND_Checkpoints ?n') = kRingCapacity \<and> unat (ND_NextCheckpoint ?n') < kRingCapacity"
  proof (cases "b = []")
    case True
    then show ?thesis
      using inv d0 by (auto simp: dn ring_inv_def)
  next
    case False
    then have "length ?cs = kRingCapacity" "unat s < kRingCapacity"
      using inv count first_discarded [OF inv uv ab False l] by (auto simp: ring_inv_def unat_of_nat kRingCapacity_def)
    then show ?thesis
      using False d0 by (auto simp: dn)
  qed
  ultimately show "ring_inv ?n'"
    using r' inv' va unfolding ring_inv_def by blast
qed

lemma best_checkpoint_spec:
  assumes "\<forall>b. best = Some b \<longrightarrow> usable_checkpoint f b"
  shows "case best_checkpoint f cs best of
      None \<Rightarrow> best = None \<and> (\<forall>c \<in> set cs. \<not> usable_checkpoint f c)
    | Some b \<Rightarrow> b \<in> set cs \<union> set_option best \<and> usable_checkpoint f b
        \<and> (\<forall>c \<in> set cs \<union> set_option best. usable_checkpoint f c \<longrightarrow> CP_DisplayFrame c \<le> CP_DisplayFrame b)"
  using assms
proof (induction cs arbitrary: best)
  case Nil
  then show ?case by (simp split: option.splits)
next
  case (Cons c cs)
  define best' where "best' = (if \<not> usable_checkpoint f c then best
    else case best of None \<Rightarrow> Some c | Some b \<Rightarrow> if CP_DisplayFrame b < CP_DisplayFrame c then Some c else Some b)"
  have "\<forall>b. best' = Some b \<longrightarrow> usable_checkpoint f b"
    using Cons.prems by (auto simp: best'_def split: option.splits if_splits)
  note ih = Cons.IH [OF this]
  have eq: "best_checkpoint f (c # cs) best = best_checkpoint f cs best'"
    by (simp add: best'_def)
  have sub: "set_option best' \<subseteq> insert c (set_option best)"
    by (auto simp: best'_def split: option.splits if_splits)
  have dom: "\<exists>b'. best' = Some b' \<and> CP_DisplayFrame x \<le> CP_DisplayFrame b'"
    if "x \<in> insert c (set_option best)" "usable_checkpoint f x" for x
    using that by (auto simp: best'_def not_less split: option.splits if_splits)
  show ?case
  proof (cases "best_checkpoint f cs best'")
    case None
    then show ?thesis
      using ih dom Cons.prems unfolding eq by (cases best) auto
  next
    case (Some b)
    then have b: "b \<in> set cs \<union> set_option best'" "usable_checkpoint f b"
        "\<forall>x \<in> set cs \<union> set_option best'. usable_checkpoint f x \<longrightarrow> CP_DisplayFrame x \<le> CP_DisplayFrame b"
      using ih by simp_all
    have "CP_DisplayFrame x \<le> CP_DisplayFrame b" if x: "x \<in> set (c # cs) \<union> set_option best" "usable_checkpoint f x" for x
    proof (cases "x \<in> set cs")
      case False
      then obtain b' where "best' = Some b'" "CP_DisplayFrame x \<le> CP_DisplayFrame b'" "usable_checkpoint f b'"
        using x dom [of x] \<open>\<forall>b. best' = Some b \<longrightarrow> usable_checkpoint f b\<close> by auto
      then show ?thesis
        using b(3) order_trans by fastforce
    qed (use b(3) x in simp)
    then show ?thesis
      using Some b(1,2) sub unfolding eq by auto
  qed
qed

text \<open>Looking up a checkpoint is looking up the log.\<close>

theorem copy_log:
  assumes inv: "ring_inv n"
  shows "CopyNSMLGameRAMCheckpointAtOrBefore f n =
    (case filter (\<lambda>e. fst e \<le> f) (ring_log n) of [] \<Rightarrow> None | es \<Rightarrow> Some (last es))"
proof -
  let ?cs = "ND_Checkpoints n"
  obtain u v where uv: "ring n = u @ v" "\<forall>c \<in> set u. \<not> CP_Valid c"
      "\<forall>c \<in> set v. CP_Valid c \<and> CP_DisplayFrame c \<noteq> u32_max" "sorted_wrt (<) (map CP_DisplayFrame v)"
    using inv by (auto simp: ring_inv_def)
  obtain a b where ab: "v = a @ b" "\<forall>c \<in> set a. CP_DisplayFrame c \<le> f" "\<forall>c \<in> set b. f < CP_DisplayFrame c"
    using filter_less_sorted [OF uv(4)] by blast
  have log: "filter (\<lambda>e. fst e \<le> f) (ring_log n) = map log_entry a"
    using ab ring_log_split [OF uv(1,2)] uv(3)
    by (auto simp: filter_map o_def log_entry_def filter_id_conv filter_empty_conv not_le)
  have set: "set ?cs = set u \<union> set a \<union> set b"
    using arg_cong [OF uv(1), of set] by (simp add: ring_def ab(1) Un_assoc)
  have ram: "CP_MainRAM c \<noteq> []" if "c \<in> set ?cs" for c
    using inv that by (auto simp: ring_inv_def kGameRAMLength_def)
  have use: "c \<in> set a" if "c \<in> set ?cs" "usable_checkpoint f c" for c
    using that uv(2) ab(3) set by (auto simp: usable_checkpoint_def dest: leD)
  have use': "usable_checkpoint f c" if "c \<in> set a" for c
    using that uv(3) ab(1,2) set ram by (auto simp: usable_checkpoint_def)
  have spec: "case best_checkpoint f ?cs None of None \<Rightarrow> \<forall>c \<in> set ?cs. \<not> usable_checkpoint f c
      | Some b \<Rightarrow> b \<in> set ?cs \<and> usable_checkpoint f b
          \<and> (\<forall>c \<in> set ?cs. usable_checkpoint f c \<longrightarrow> CP_DisplayFrame c \<le> CP_DisplayFrame b)"
    using best_checkpoint_spec [of None f ?cs] by (auto split: option.splits)
  show ?thesis
  proof (cases a rule: rev_cases)
    case Nil
    then have "best_checkpoint f ?cs None = None"
      using spec use by (auto split: option.splits)
    then show ?thesis
      by (simp add: CopyNSMLGameRAMCheckpointAtOrBefore_def log Nil)
  next
    case (snoc a0 x)
    then obtain y where y: "best_checkpoint f ?cs None = Some y" "y \<in> set a" "CP_DisplayFrame x \<le> CP_DisplayFrame y"
      using spec use use' set by (fastforce split: option.splits)
    have "sorted_wrt (<) (map CP_DisplayFrame (a0 @ [x]))"
      using uv(4) by (simp add: ab(1) snoc sorted_wrt_append)
    then have "y = x"
      using y(2,3) snoc by (auto simp: sorted_wrt_append dest: leD)
    then show ?thesis
      using y(1) by (cases a0) (simp_all add: CopyNSMLGameRAMCheckpointAtOrBefore_def log snoc log_entry_def)
  qed
qed

lemma reset_log:
  assumes "ring_inv n"
  shows "ring_inv (SetNSMLGameRAMCheckpointFrame f n)"
    and "ring_log (SetNSMLGameRAMCheckpointFrame f n) =
      (if fst (SetLogicalFrame f (ND_CheckpointTimeline n)) then [] else ring_log n)"
proof -
  let ?n' = "SetNSMLGameRAMCheckpointFrame f n"
  have "ring_inv ?n' \<and> ring_log ?n' = (if fst (SetLogicalFrame f (ND_CheckpointTimeline n)) then [] else ring_log n)"
  proof (cases "fst (SetLogicalFrame f (ND_CheckpointTimeline n))")
    case True
    have r: "ring ?n' = map (\<lambda>c. c\<lparr>CP_Valid := False\<rparr>) (ND_Checkpoints n) @ []"
      using True by (simp add: ring_def SetNSMLGameRAMCheckpointFrame_def Let_def case_prod_beta)
    have f: "ND_Checkpoints ?n' = map (\<lambda>c. c\<lparr>CP_Valid := False\<rparr>) (ND_Checkpoints n)" "ND_NextCheckpoint ?n' = 0"
      using True by (simp_all add: SetNSMLGameRAMCheckpointFrame_def Let_def case_prod_beta)
    have "ring_log ?n' = []"
      unfolding ring_log_def r by (auto simp: filter_empty_conv)
    moreover have "ring_inv ?n'"
      unfolding ring_inv_def r f using assms
      by (intro conjI exI [of _ "map (\<lambda>c. c\<lparr>CP_Valid := False\<rparr>) (ND_Checkpoints n)"] exI [of _ "[]"])
        (auto simp: ring_inv_def kRingCapacity_def)
    ultimately show ?thesis
      using True by simp
  next
    case False
    then have "ring ?n' = ring n" "ND_Checkpoints ?n' = ND_Checkpoints n" "ND_NextCheckpoint ?n' = ND_NextCheckpoint n"
      by (simp_all add: ring_def SetNSMLGameRAMCheckpointFrame_def Let_def case_prod_beta)
    then show ?thesis
      using assms False by (simp add: ring_inv_def ring_log_def)
  qed
  then show "ring_inv ?n'" "ring_log ?n' = (if fst (SetLogicalFrame f (ND_CheckpointTimeline n)) then [] else ring_log n)"
    by simp_all
qed

text \<open>Runs of the machine, with the log its ring stands for. A capture is for a later frame than the
  logged ones; whatever else the machine does leaves the ring alone.\<close>

inductive ring_reach :: "'m NDS_scheme \<Rightarrow> log_entry list \<Rightarrow> bool" where
  start: "ring_reach n []" if "ND_Checkpoints n = []" and "ND_NextCheckpoint n = 0"
| capture: "ring_reach (CaptureNSMLGameRAMCheckpointAtGate True f n) (push_bounded (captured f n) L)"
    if "ring_reach n L" and "can_capture n" and "f \<noteq> u32_max" and "\<forall>e \<in> set L. fst e < f"
| discard: "ring_reach (snd (DiscardNSMLGameRAMCheckpointsAfter f n)) (filter (\<lambda>e. fst e \<le> f) L)"
    if "ring_reach n L"
| frame: "ring_reach (SetNSMLGameRAMCheckpointFrame f n)
      (if fst (SetLogicalFrame f (ND_CheckpointTimeline n)) then [] else L)"
    if "ring_reach n L"
| other: "ring_reach m L" if "ring_reach n L" and "ND_Checkpoints m = ND_Checkpoints n"
    and "ND_NextCheckpoint m = ND_NextCheckpoint n"

lemma ring_reach_log: "ring_reach n L \<Longrightarrow> ring_inv n \<and> ring_log n = L"
proof (induction rule: ring_reach.induct)
  case (start n)
  then show ?case
    by (auto simp: ring_inv_def ring_log_def ring_def)
next
  case (capture n L f)
  then show ?case
    using capture_log [of n f] by simp
next
  case (discard n L f)
  then show ?case
    using discard_log(1,2) [of n f] by simp
next
  case (frame n L f)
  then show ?case
    using reset_log [of n f] by simp
next
  case (other n L m)
  then show ?case
    by (simp add: ring_inv_def ring_log_def ring_def)
qed

lemma ring_log_bounds:
  assumes "ring_inv n"
  shows "length (ring_log n) \<le> kRingCapacity" "sorted_wrt (<) (map fst (ring_log n))"
proof -
  obtain u v where uv: "ring n = u @ v" "\<forall>c \<in> set u. \<not> CP_Valid c" "\<forall>c \<in> set v. CP_Valid c \<and> CP_DisplayFrame c \<noteq> u32_max"
      "sorted_wrt (<) (map CP_DisplayFrame v)"
    using assms by (auto simp: ring_inv_def)
  have "length (ring n) \<le> kRingCapacity"
    using assms by (auto simp: ring_inv_def ring_def)
  then show "length (ring_log n) \<le> kRingCapacity"
    using ring_log_split [OF uv(1,2)] uv(1,3) by simp
  have "map fst (ring_log n) = map CP_DisplayFrame v"
    using ring_log_split [OF uv(1,2)] uv(3) by (simp add: log_entry_def)
  then show "sorted_wrt (<) (map fst (ring_log n))"
    using uv(4) by simp
qed

text \<open>C8: The ring of memory checkpoints implements a bounded log. In every run in which a capture is
  for a later frame than the checkpoints held, the ring holds the log of the captures that are
  neither discarded nor older than the last sixteen, in the order of their frames, and looking up a
  frame returns the newest logged checkpoint at or before it: never one that a correction has
  discarded, and never a stale copy of a reused slot.\<close>

theorem checkpoint_ring_refines_log:
  assumes "ring_reach n L"
  shows "CopyNSMLGameRAMCheckpointAtOrBefore f n =
      (case filter (\<lambda>e. fst e \<le> f) L of [] \<Rightarrow> None | es \<Rightarrow> Some (last es))
    \<and> length L \<le> kRingCapacity \<and> sorted_wrt (<) (map fst L)"
  using ring_reach_log [OF assms] copy_log [of n f] ring_log_bounds [of n] by auto

definition sample_nds :: NDS where
  "sample_nds = \<lparr>ND_MainRAM = Some (replicate 0x400000 7), ND_MainRAMMask = 0x3FFFFF, ND_NumFrames = 0,
     ND_RestorePending = False, ND_RestoreData = None, ND_RestoreLength = 0, ND_RestoreOwnedBuffer = [],
     ND_RestoreUs = 0, ND_RestoreBytes = 0, ND_HistoryReachedExitGate = False,
     ND_ReplayDisplayStartFrame = kNoReplayFrame, ND_Checkpoints = [], ND_NextCheckpoint = 0,
     ND_CheckpointTimeline = TimelineReset\<rparr>"

lemma can_capture_sample: "can_capture sample_nds"
  by (simp add: can_capture_def sample_nds_def game_ram_length_def kGameRAMLength_def)

theorem checkpoint_ring_refines_log_witness:
  "CopyNSMLGameRAMCheckpointAtOrBefore 7 (CaptureNSMLGameRAMCheckpointAtGate True 5 sample_nds)
    = Some (captured 5 sample_nds)"
proof -
  have "ring_reach sample_nds []"
    by (rule ring_reach.start) (simp_all add: sample_nds_def)
  from ring_reach.capture [OF this can_capture_sample, of 5]
  have "ring_reach (CaptureNSMLGameRAMCheckpointAtGate True 5 sample_nds) [captured 5 sample_nds]"
    by (simp add: push_bounded_def kRingCapacity_def u32_max_def)
  from checkpoint_ring_refines_log [OF this, of 7] show ?thesis
    by (simp add: captured_def)
qed

section \<open>Putting a checkpoint back\<close>

lemma length_copy_in [simp]: "off + length bs \<le> length ram \<Longrightarrow> length (copy_in off bs ram) = length ram"
  by (simp add: copy_in_def)

lemma nth_copy_in:
  "off + length bs \<le> length ram \<Longrightarrow> i < length ram \<Longrightarrow>
    copy_in off bs ram ! i = (if off \<le> i \<and> i < off + length bs then bs ! (i - off) else ram ! i)"
  by (auto simp: copy_in_def nth_append min_def)

lemma length_copy_out: "off + n \<le> length ram \<Longrightarrow> length (copy_out off n ram) = n"
  by (simp add: copy_out_def)

lemma nth_copy_out: "off + n \<le> length ram \<Longrightarrow> i < n \<Longrightarrow> copy_out off n ram ! i = ram ! (off + i)"
  by (simp add: copy_out_def)

text \<open>What belongs to the current frame and not to the restored one: the control words, the replay
  history and the interval of the SDK.\<close>

definition preserved_offset :: "nat \<Rightarrow> bool" where
  "preserved_offset i \<longleftrightarrow> controlOffset \<le> i \<and> i < controlOffset + controlLength
     \<or> historyOffset \<le> i \<and> i < historyOffset + historyLength
     \<or> sdkRuntimeOffset \<le> i \<and> i < sdkRuntimeEnd"

lemmas ram_layout = controlOffset_def controlLength_def historyOffset_def historyLength_def
  sdkRuntimeOffset_def sdkRuntimeEnd_def

lemma restore_image_nth:
  assumes "length ram = 0x400000" and "length img = 0x400000"
  shows "length (restore_image 0x400000 img ram) = 0x400000"
    and "i < 0x400000 \<Longrightarrow> restore_image 0x400000 img ram ! i = (if preserved_offset i then ram ! i else img ! i)"
proof -
  define r1 where "r1 = copy_in 0 (take sdkRuntimeOffset img) ram"
  define r2 where "r2 = copy_in sdkRuntimeEnd (copy_out sdkRuntimeEnd (0x400000 - sdkRuntimeEnd) img) r1"
  define r3 where "r3 = copy_in controlOffset (copy_out controlOffset controlLength ram) r2"
  have eq: "restore_image 0x400000 img ram = copy_in historyOffset (copy_out historyOffset historyLength ram) r3"
    by (simp add: restore_image_def Let_def r1_def r2_def r3_def ram_layout)
  have lens: "length (copy_out controlOffset controlLength ram) = controlLength"
      "length (copy_out historyOffset historyLength ram) = historyLength"
      "length (copy_out sdkRuntimeEnd (0x400000 - sdkRuntimeEnd) img) = 0x400000 - sdkRuntimeEnd"
    using assms by (simp_all add: length_copy_out ram_layout)
  have l1: "length r1 = 0x400000"
    using assms by (simp add: r1_def ram_layout)
  have l2: "length r2 = 0x400000"
    using l1 lens by (simp add: r2_def ram_layout)
  have l3: "length r3 = 0x400000"
    using l2 lens by (simp add: r3_def ram_layout)
  show "length (restore_image 0x400000 img ram) = 0x400000"
    using l3 lens by (simp add: eq ram_layout)
  assume i: "i < 0x400000"
  have n1: "r1 ! i = (if i < sdkRuntimeOffset then img ! i else ram ! i)"
    using assms i by (simp add: r1_def nth_copy_in ram_layout)
  have n2: "r2 ! i = (if i < sdkRuntimeOffset \<or> sdkRuntimeEnd \<le> i then img ! i else ram ! i)"
    using assms i l1 lens n1 by (auto simp: r2_def nth_copy_in nth_copy_out ram_layout)
  have n3: "r3 ! i = (if controlOffset \<le> i \<and> i < controlOffset + controlLength then ram ! i else r2 ! i)"
    using assms i l2 lens by (auto simp: r3_def nth_copy_in nth_copy_out ram_layout)
  show "restore_image 0x400000 img ram ! i = (if preserved_offset i then ram ! i else img ! i)"
    using assms i l3 lens n2 n3 by (auto simp: eq nth_copy_in nth_copy_out preserved_offset_def ram_layout)
qed

definition full_ram :: "'m NDS_scheme \<Rightarrow> bool" where
  "full_ram n \<longleftrightarrow> ND_MainRAMMask n = 0x3FFFFF \<and> (\<exists>ram. ND_MainRAM n = Some ram \<and> length ram = 0x400000)"

lemma full_ram_length: "full_ram n \<Longrightarrow> game_ram_length n = 0x400000"
  by (auto simp: full_ram_def game_ram_length_def kGameRAMLength_def)

text \<open>C9: A scheduled restore puts the checkpoint back and keeps what belongs to the present. When
  \<^verbatim>\<open>ScheduleNSMLGameRAMRestore\<close> accepts an image, a second schedule is refused, and at the next gate,
  whatever the memory holds by then, \<^verbatim>\<open>ApplyNSMLPendingGameRAMRestore\<close> sets every byte of the four
  megabytes to the image, except the control words, the replay history and the interval of the SDK,
  which stay as they are; the replay armed in the control words therefore remains armed, and
  nothing is pending any more.\<close>

theorem game_ram_restore_exact:
  assumes "ScheduleNSMLGameRAMRestore img startFrame n = (True, n1)" and "full_ram n" and "full_ram m"
    and "ND_RestorePending m = ND_RestorePending n1" and "ND_RestoreData m = ND_RestoreData n1"
    and "ND_RestoreLength m = ND_RestoreLength n1"
  shows "fst (ScheduleNSMLGameRAMRestore img2 startFrame2 n1) = False
    \<and> (let m' = ApplyNSMLPendingGameRAMRestore enabled us m
       in \<not> ND_RestorePending m' \<and> ND_RestoreData m' = None \<and> full_ram m'
         \<and> (\<forall>i < 0x400000. main_ram m' ! i = (if preserved_offset i then main_ram m ! i else img ! i))
         \<and> ARM9Read32 historyEnabledAddr m' = ARM9Read32 historyEnabledAddr m
         \<and> ARM9Read32 historyCountAddr m' = ARM9Read32 historyCountAddr m)"
proof -
  obtain ram where ram: "ND_MainRAM m = Some ram" "length ram = 0x400000" "ND_MainRAMMask m = 0x3FFFFF"
    using assms(3) by (auto simp: full_ram_def)
  have n1: "n1 = n\<lparr>ND_RestoreOwnedBuffer := img, ND_RestoreData := Some img, ND_RestoreLength := of_nat (length img),
      ND_HistoryReachedExitGate := False, ND_ReplayDisplayStartFrame := startFrame, ND_RestorePending := True\<rparr>"
    and len: "length img = 0x400000"
    using assms(1) full_ram_length [OF assms(2)] by (auto simp: ScheduleNSMLGameRAMRestore_def split: if_splits)
  note nth = restore_image_nth [OF ram(2) len]
  let ?m' = "ApplyNSMLPendingGameRAMRestore enabled us m" and ?r = "restore_image 0x400000 img ram"
  have m': "ND_MainRAM ?m' = Some ?r" "ND_MainRAMMask ?m' = 0x3FFFFF" "\<not> ND_RestorePending ?m'" "ND_RestoreData ?m' = None"
    using assms(4-6) ram full_ram_length [OF assms(3)] len
    by (simp_all add: ApplyNSMLPendingGameRAMRestore_def n1)
  have word: "rd32 ?r k = rd32 ram k" if "k \<in> {0x1ACC, 0x1AD4}" for k
    using that by (auto simp: rd32_def nth preserved_offset_def ram_layout)
  have "ARM9Read32 a ?m' = ARM9Read32 a m" if "unat ((a AND NOT 3) AND 0x3FFFFF) \<in> {0x1ACC, 0x1AD4}" for a :: u32
    using word [OF that] by (simp add: ARM9Read32_def m' ram)
  then have "ARM9Read32 historyEnabledAddr ?m' = ARM9Read32 historyEnabledAddr m"
      "ARM9Read32 historyCountAddr ?m' = ARM9Read32 historyCountAddr m"
    by (simp_all add: historyEnabledAddr_def historyCountAddr_def)
  moreover have "fst (ScheduleNSMLGameRAMRestore img2 startFrame2 n1) = False"
    by (simp add: ScheduleNSMLGameRAMRestore_def IsNSMLGameRAMRollbackTransactionInFlight_def n1)
  ultimately show ?thesis
    using m' nth by (simp add: Let_def full_ram_def ram)
qed

lemma sample_not_in_flight: "\<not> IsNSMLGameRAMRollbackTransactionInFlight (sample_nds\<lparr>ND_MainRAM := Some (replicate 0x400000 0)\<rparr>)"
  by (simp add: IsNSMLGameRAMRollbackTransactionInFlight_def sample_nds_def ARM9Read32_def rd32_def u32_of_bytes_def
      historyEnabledAddr_def)

theorem game_ram_restore_exact_witness:
  "let n = sample_nds\<lparr>ND_MainRAM := Some (replicate 0x400000 0)\<rparr>;
       n1 = snd (ScheduleNSMLGameRAMRestore (replicate 0x400000 7) 3 n)
   in main_ram (ApplyNSMLPendingGameRAMRestore True 0 n1) ! 0x200000 = 7"
proof -
  let ?n = "sample_nds\<lparr>ND_MainRAM := Some (replicate 0x400000 0)\<rparr>"
  have f: "full_ram ?n"
    by (simp add: full_ram_def sample_nds_def)
  let ?n1 = "snd (ScheduleNSMLGameRAMRestore (replicate 0x400000 7) 3 ?n)"
  have s: "ScheduleNSMLGameRAMRestore (replicate 0x400000 7) 3 ?n = (True, ?n1)"
    using sample_not_in_flight full_ram_length [OF f] by (simp add: ScheduleNSMLGameRAMRestore_def)
  have f1: "full_ram ?n1"
    using f s by (auto simp: ScheduleNSMLGameRAMRestore_def full_ram_def split: if_splits)
  have "main_ram (ApplyNSMLPendingGameRAMRestore True 0 ?n1) ! 0x200000 = replicate 0x400000 7 ! 0x200000"
    using game_ram_restore_exact [OF s f f1 refl refl refl, of "[]" 0 True 0]
    by (simp add: Let_def preserved_offset_def ram_layout)
  then show ?thesis
    by (simp add: Let_def)
qed

text \<open>A transaction that is finalised is over, and a refused one changes nothing.\<close>

lemma finalize_ends_transaction:
  assumes "full_ram n"
  shows "case FinalizeNSMLGameRAMRollbackTransaction n of
      (False, n') \<Rightarrow> n' = n
    | (True, n') \<Rightarrow> \<not> IsNSMLGameRAMRollbackTransactionInFlight n' \<and> ND_ReplayDisplayStartFrame n' = kNoReplayFrame"
proof (cases "fst (FinalizeNSMLGameRAMRollbackTransaction n)")
  case False
  then show ?thesis
    by (auto simp: FinalizeNSMLGameRAMRollbackTransaction_def Let_def split: if_splits)
next
  case True
  obtain ram where ram: "ND_MainRAM n = Some ram" "length ram = 0x400000" "ND_MainRAMMask n = 0x3FFFFF"
    using assms by (auto simp: full_ram_def)
  let ?w = "\<lambda>k. copy_in k (u32_le 0)"
  let ?r = "?w 0x1ADC (?w 0x1AD8 (?w 0x1AD4 (?w 0x1AD0 (?w 0x1ACC ram))))"
  have "rd32 ?r 0x1ACC = 0"
    using ram(2) by (simp add: rd32_def nth_copy_in u32_le_def u32_of_bytes_def)
  then show ?thesis
    using True ram
    by (auto simp: FinalizeNSMLGameRAMRollbackTransaction_def Let_def CanFinalizeTransaction_def ARM9Write32_def
        IsNSMLGameRAMRollbackTransactionInFlight_def ARM9Read32_def historyEnabledAddr_def historyIndexAddr_def
        historyCountAddr_def historyTargetAddr_def historyStartFrameAddr_def split: if_splits)
qed

end
