(* ===== verification/Rollback_Store.thy ===== *)
theory Rollback_Store
  imports Nsmb_Prelude
begin

text \<open>
  The checkpoint store of \<^verbatim>\<open>NsmbRollbackStore.cpp\<close>: the stored checkpoints by frame, delta chains
  and preimage chains, pruning, the save preparation and the statistics. \<^verbatim>\<open>size_t\<close> byte and
  element counts of vectors are natural numbers, the statistics counters are 32 and 64 bit
  words. The depth bounds of the C++ loops are the fuel of the model's loops, written as in the
  source; the theorems show that they never cut a chain short.
\<close>

section \<open>Data\<close>

definition kNoFrame :: u32 where "kNoFrame = 0"

record StoredState =
  SS_Buffer :: "u8 list"
  SS_MainRAMCopy :: "u8 list"
  SS_MainRAMShadowCopy :: "u8 list"
  SS_MainRAMPreimagePages :: "u32 list"
  SS_MainRAMPreimage :: "u8 list"
  SS_GameFrame :: u32
  SS_BaseFrame :: u32
  SS_MainRAMDelta :: bool
  SS_MainRAMFramePreimage :: bool

definition StoredState_default :: StoredState where
  "StoredState_default = \<lparr>SS_Buffer = [], SS_MainRAMCopy = [], SS_MainRAMShadowCopy = [],
     SS_MainRAMPreimagePages = [], SS_MainRAMPreimage = [], SS_GameFrame = kNoFrame,
     SS_BaseFrame = kNoFrame, SS_MainRAMDelta = False, SS_MainRAMFramePreimage = False\<rparr>"

datatype DeltaMode = DeltaNone | KeyframeDelta | FrameDelta | Preimage

definition CheckpointBytes :: "StoredState \<Rightarrow> nat" where
  "CheckpointBytes checkpoint = length (SS_Buffer checkpoint)
     + length (SS_MainRAMPreimagePages checkpoint) * 4 + length (SS_MainRAMPreimage checkpoint)"

section \<open>Decisions\<close>

definition ShouldSaveCheckpoint :: "u32 \<Rightarrow> int \<Rightarrow> u32 \<Rightarrow> bool" where
  "ShouldSaveCheckpoint frame interval netplayStartFrame =
     (if interval \<le> 1 then True
      else if netplayStartFrame \<noteq> kNoFrame \<and> frame = netplayStartFrame then True
      else frame mod u32_of_int interval = 0)"

definition ClampResimulationMismatch :: "u32 \<Rightarrow> u32 \<Rightarrow> int \<Rightarrow> u32" where
  "ClampResimulationMismatch mismatchFrame currentFrame maxResimFrames =
     (if maxResimFrames \<le> 0 \<or> currentFrame \<le> mismatchFrame then mismatchFrame
      else let maximum = u32_of_int maxResimFrames in
        if maximum < currentFrame - mismatchFrame then currentFrame - maximum else mismatchFrame)"

definition IsResimulationDelayElapsed :: "u32 \<Rightarrow> u32 option \<Rightarrow> int \<Rightarrow> bool" where
  "IsResimulationDelayElapsed currentFrame observedFrame delayFrames =
     (delayFrames \<le> 0 \<or> (case observedFrame of None \<Rightarrow> True
        | Some f \<Rightarrow> f + u32_of_int delayFrames \<le> currentFrame))"

definition ShouldSaveResimulationCheckpoint :: "u32 \<Rightarrow> u32 \<Rightarrow> bool \<Rightarrow> bool" where
  "ShouldSaveResimulationCheckpoint completedFrame currentFrame skipIntermediate \<longleftrightarrow>
     completedFrame < currentFrame \<and> \<not> skipIntermediate"

section \<open>Statistics\<close>

record StatisticsSnapshot =
  SN_RestoreCount :: u32
  SN_ResimulateCount :: u32
  SN_CheckpointSaveCount :: u32
  SN_CheckpointLastBytes :: u64
  SN_CheckpointMinBytes :: u64
  SN_CheckpointMaxBytes :: u64
  SN_CheckpointTotalBytes :: u64
  SN_CheckpointSaveTotalUs :: u64
  SN_CheckpointSaveMaxUs :: u64
  SN_CheckpointRestoreTotalUs :: u64
  SN_CheckpointRestoreMaxUs :: u64
  SN_CheckpointRestoreOpCount :: u32
  SN_MeasuredResimOpCount :: u32
  SN_MeasuredResimFrameCount :: u64
  SN_ResimRunFrameTotalUs :: u64
  SN_ResimRunFrameMaxUs :: u64
  SN_ResimCheckpointSaveTotalUs :: u64
  SN_ResimCheckpointSaveMaxUs :: u64
  SN_ResimCorrectionTotalUs :: u64
  SN_ResimCorrectionMaxUs :: u64

definition StatisticsSnapshot_default :: StatisticsSnapshot where
  "StatisticsSnapshot_default = \<lparr>SN_RestoreCount = 0, SN_ResimulateCount = 0,
     SN_CheckpointSaveCount = 0, SN_CheckpointLastBytes = 0, SN_CheckpointMinBytes = 0,
     SN_CheckpointMaxBytes = 0, SN_CheckpointTotalBytes = 0, SN_CheckpointSaveTotalUs = 0,
     SN_CheckpointSaveMaxUs = 0, SN_CheckpointRestoreTotalUs = 0, SN_CheckpointRestoreMaxUs = 0,
     SN_CheckpointRestoreOpCount = 0, SN_MeasuredResimOpCount = 0, SN_MeasuredResimFrameCount = 0,
     SN_ResimRunFrameTotalUs = 0, SN_ResimRunFrameMaxUs = 0, SN_ResimCheckpointSaveTotalUs = 0,
     SN_ResimCheckpointSaveMaxUs = 0, SN_ResimCorrectionTotalUs = 0, SN_ResimCorrectionMaxUs = 0\<rparr>"

definition AverageCheckpointBytes :: "StatisticsSnapshot \<Rightarrow> u64" where
  "AverageCheckpointBytes s = (if SN_CheckpointSaveCount s = 0 then 0
     else SN_CheckpointTotalBytes s div ucast (SN_CheckpointSaveCount s))"

definition AverageCheckpointSaveUs :: "StatisticsSnapshot \<Rightarrow> u64" where
  "AverageCheckpointSaveUs s = (if SN_CheckpointSaveCount s = 0 then 0
     else SN_CheckpointSaveTotalUs s div ucast (SN_CheckpointSaveCount s))"

definition AverageCheckpointRestoreUs :: "StatisticsSnapshot \<Rightarrow> u64" where
  "AverageCheckpointRestoreUs s = (if SN_CheckpointRestoreOpCount s = 0 then 0
     else SN_CheckpointRestoreTotalUs s div ucast (SN_CheckpointRestoreOpCount s))"

definition AverageResimRunFrameUs :: "StatisticsSnapshot \<Rightarrow> u64" where
  "AverageResimRunFrameUs s = (if SN_MeasuredResimFrameCount s = 0 then 0
     else SN_ResimRunFrameTotalUs s div SN_MeasuredResimFrameCount s)"

definition AverageResimCheckpointSaveUs :: "StatisticsSnapshot \<Rightarrow> u64" where
  "AverageResimCheckpointSaveUs s = (if SN_MeasuredResimFrameCount s = 0 then 0
     else SN_ResimCheckpointSaveTotalUs s div SN_MeasuredResimFrameCount s)"

definition AverageResimCorrectionUs :: "StatisticsSnapshot \<Rightarrow> u64" where
  "AverageResimCorrectionUs s = (if SN_MeasuredResimOpCount s = 0 then 0
     else SN_ResimCorrectionTotalUs s div ucast (SN_MeasuredResimOpCount s))"

record Statistics =
  SA_Snapshot :: StatisticsSnapshot
  SA_LastTraceFrame :: u32

definition Statistics_init :: Statistics where
  "Statistics_init = \<lparr>SA_Snapshot = StatisticsSnapshot_default, SA_LastTraceFrame = u32_max\<rparr>"

definition RecordCheckpointSave :: "u64 \<Rightarrow> u64 \<Rightarrow> StatisticsSnapshot \<Rightarrow> StatisticsSnapshot" where
  "RecordCheckpointSave bytes elapsedUs s = s\<lparr>
     SN_CheckpointSaveCount := SN_CheckpointSaveCount s + 1,
     SN_CheckpointLastBytes := bytes,
     SN_CheckpointMinBytes :=
       (if SN_CheckpointMinBytes s = 0 \<or> bytes < SN_CheckpointMinBytes s then bytes
        else SN_CheckpointMinBytes s),
     SN_CheckpointMaxBytes := max (SN_CheckpointMaxBytes s) bytes,
     SN_CheckpointTotalBytes := SN_CheckpointTotalBytes s + bytes,
     SN_CheckpointSaveTotalUs := SN_CheckpointSaveTotalUs s + elapsedUs,
     SN_CheckpointSaveMaxUs := max (SN_CheckpointSaveMaxUs s) elapsedUs\<rparr>"

definition RecordCheckpointRestore :: "u64 \<Rightarrow> StatisticsSnapshot \<Rightarrow> StatisticsSnapshot" where
  "RecordCheckpointRestore elapsedUs s = s\<lparr>
     SN_CheckpointRestoreOpCount := SN_CheckpointRestoreOpCount s + 1,
     SN_CheckpointRestoreTotalUs := SN_CheckpointRestoreTotalUs s + elapsedUs,
     SN_CheckpointRestoreMaxUs := max (SN_CheckpointRestoreMaxUs s) elapsedUs\<rparr>"

definition RecordProbeRestore :: "StatisticsSnapshot \<Rightarrow> StatisticsSnapshot" where
  "RecordProbeRestore s = s\<lparr>SN_RestoreCount := SN_RestoreCount s + 1\<rparr>"

definition RecordResimulation ::
  "u32 \<Rightarrow> u64 \<Rightarrow> u64 \<Rightarrow> u64 \<Rightarrow> u64 \<Rightarrow> u64 \<Rightarrow> StatisticsSnapshot \<Rightarrow> StatisticsSnapshot" where
  "RecordResimulation frames runFrameTotalUs runFrameMaxUs checkpointSaveTotalUs
     checkpointSaveMaxUs correctionTotalUs s = s\<lparr>
     SN_ResimulateCount := SN_ResimulateCount s + 1,
     SN_MeasuredResimOpCount := SN_MeasuredResimOpCount s + 1,
     SN_MeasuredResimFrameCount := SN_MeasuredResimFrameCount s + ucast frames,
     SN_ResimRunFrameTotalUs := SN_ResimRunFrameTotalUs s + runFrameTotalUs,
     SN_ResimRunFrameMaxUs := max (SN_ResimRunFrameMaxUs s) runFrameMaxUs,
     SN_ResimCheckpointSaveTotalUs := SN_ResimCheckpointSaveTotalUs s + checkpointSaveTotalUs,
     SN_ResimCheckpointSaveMaxUs := max (SN_ResimCheckpointSaveMaxUs s) checkpointSaveMaxUs,
     SN_ResimCorrectionTotalUs := SN_ResimCorrectionTotalUs s + correctionTotalUs,
     SN_ResimCorrectionMaxUs := max (SN_ResimCorrectionMaxUs s) correctionTotalUs\<rparr>"

definition ShouldTrace :: "u32 \<Rightarrow> u32 \<Rightarrow> Statistics \<Rightarrow> bool \<times> Statistics" where
  "ShouldTrace frame interval s =
     (if interval = 0 \<or> frame mod interval \<noteq> 0 then (False, s)
      else if frame = SA_LastTraceFrame s then (False, s)
      else (True, s\<lparr>SA_LastTraceFrame := frame\<rparr>))"

section \<open>The store\<close>

record Store =
  ST_States :: "StoredState frame_map"
  ST_FrameShadowMainRAM :: "u8 list"
  ST_FrameShadowFrame :: u32

definition Store_init :: Store where
  "Store_init = \<lparr>ST_States = fmempty, ST_FrameShadowMainRAM = [], ST_FrameShadowFrame = kNoFrame\<rparr>"

definition Put :: "u32 \<Rightarrow> StoredState \<Rightarrow> Store \<Rightarrow> nat \<times> Store" where
  "Put frame checkpoint s =
     (CheckpointBytes checkpoint, s\<lparr>ST_States := fmupd frame checkpoint (ST_States s)\<rparr>)"

definition Copy :: "u32 \<Rightarrow> Store \<Rightarrow> StoredState option" where
  "Copy frame s = fmlookup (ST_States s) frame"

definition LatestAtOrBefore :: "u32 \<Rightarrow> Store \<Rightarrow> (u32 \<times> StoredState) option" where
  "LatestAtOrBefore frame s =
     (case fm_last_upto frame (ST_States s) of
        None \<Rightarrow> None
      | Some storedFrame \<Rightarrow>
          (case fmlookup (ST_States s) storedFrame of
             None \<Rightarrow> None
           | Some checkpoint \<Rightarrow> Some (storedFrame, checkpoint)))"

definition EraseAfter :: "u32 \<Rightarrow> Store \<Rightarrow> Store" where
  "EraseAfter frame s = s\<lparr>ST_States := fmfilter (\<lambda>f. f \<le> frame) (ST_States s)\<rparr>"

text \<open>The lambda \<^verbatim>\<open>markRequiredChain\<close> of \<open>Prune\<close> and its loop.\<close>

fun mark_loop :: "StoredState frame_map \<Rightarrow> nat \<Rightarrow> StoredState \<Rightarrow> u32 fset \<Rightarrow> u32 fset" where
  "mark_loop states 0 cursor requiredFrames = requiredFrames"
| "mark_loop states (Suc n) cursor requiredFrames =
     (if \<not> SS_MainRAMDelta cursor \<or> SS_BaseFrame cursor = kNoFrame then requiredFrames
      else if SS_BaseFrame cursor |\<in>| requiredFrames then requiredFrames
      else case fmlookup states (SS_BaseFrame cursor) of
             None \<Rightarrow> finsert (SS_BaseFrame cursor) requiredFrames
           | Some base \<Rightarrow> mark_loop states n base (finsert (SS_BaseFrame cursor) requiredFrames))"

definition markRequiredChain :: "StoredState frame_map \<Rightarrow> u32 \<Rightarrow> u32 fset \<Rightarrow> u32 fset" where
  "markRequiredChain states startFrame requiredFrames =
     (case fmlookup states startFrame of
        None \<Rightarrow> requiredFrames
      | Some start \<Rightarrow> mark_loop states (fm_size states) start (finsert startFrame requiredFrames))"

definition keep_from :: "u32 \<Rightarrow> u32 \<Rightarrow> u32" where
  "keep_from currentFrame window = (if window < currentFrame then currentFrame - window else 0)"

definition required_frames :: "u32 \<Rightarrow> u32 \<Rightarrow> Store \<Rightarrow> u32 fset" where
  "required_frames currentFrame window s =
     (let keepFrom = keep_from currentFrame window;
          r = fold (markRequiredChain (ST_States s))
                (filter (\<lambda>f. keepFrom \<le> f) (fm_keys (ST_States s))) {||}
      in if ST_FrameShadowFrame s \<noteq> kNoFrame
         then markRequiredChain (ST_States s) (ST_FrameShadowFrame s) r else r)"

definition Prune :: "u32 \<Rightarrow> u32 \<Rightarrow> Store \<Rightarrow> Store" where
  "Prune currentFrame window s =
     (let requiredFrames = required_frames currentFrame window s
      in s\<lparr>ST_States := fmfilter
            (\<lambda>f. \<not> (f < keep_from currentFrame window \<and> f |\<notin>| requiredFrames)) (ST_States s)\<rparr>)"

definition HasUsableFrameShadow :: "Store \<Rightarrow> bool" where
  "HasUsableFrameShadow s \<longleftrightarrow>
     ST_FrameShadowFrame s \<noteq> kNoFrame \<and> ST_FrameShadowMainRAM s \<noteq> []
     \<and> fmlookup (ST_States s) (ST_FrameShadowFrame s) \<noteq> None"

text \<open>The downward search of \<open>PrepareSave\<close> for a keyframe, over the frames from the last one.\<close>

fun find_keyframe :: "StoredState frame_map \<Rightarrow> u32 list \<Rightarrow> (u32 \<times> StoredState) option" where
  "find_keyframe states [] = None"
| "find_keyframe states (f # fs) =
     (case fmlookup states f of
        None \<Rightarrow> find_keyframe states fs
      | Some st \<Rightarrow>
          if \<not> SS_MainRAMDelta st \<and> SS_MainRAMCopy st \<noteq> [] then Some (f, st)
          else find_keyframe states fs)"

definition PrepareSave :: "u32 \<Rightarrow> DeltaMode \<Rightarrow> u32 \<Rightarrow> u32 \<Rightarrow> Store \<Rightarrow> StoredState \<times> u8 list" where
  "PrepareSave frame mode keyframeInterval netplayStartFrame s =
     (let checkpoint = StoredState_default;
          shadow = checkpoint\<lparr>SS_BaseFrame := ST_FrameShadowFrame s\<rparr>;
          forceKeyframe = keyframeInterval \<le> 1 \<or> ST_States s = fmempty
            \<or> frame mod keyframeInterval = 0
            \<or> (netplayStartFrame \<noteq> 0 \<and> frame = netplayStartFrame)
      in case mode of
           DeltaNone \<Rightarrow> (checkpoint, [])
         | Preimage \<Rightarrow>
             if HasUsableFrameShadow s
             then (shadow\<lparr>SS_MainRAMFramePreimage := True\<rparr>, ST_FrameShadowMainRAM s)
             else (checkpoint, [])
         | FrameDelta \<Rightarrow>
             if \<not> forceKeyframe \<and> HasUsableFrameShadow s
             then (shadow\<lparr>SS_MainRAMDelta := True\<rparr>, ST_FrameShadowMainRAM s)
             else (checkpoint, [])
         | KeyframeDelta \<Rightarrow>
             if forceKeyframe then (checkpoint, [])
             else (case find_keyframe (ST_States s)
                       (rev (filter (\<lambda>f. f \<le> frame) (fm_keys (ST_States s)))) of
                     None \<Rightarrow> (checkpoint, [])
                   | Some (f, st) \<Rightarrow>
                       (checkpoint\<lparr>SS_MainRAMDelta := True, SS_BaseFrame := f\<rparr>, SS_MainRAMCopy st)))"

text \<open>The loop of \<open>BuildRestoreChain\<close>; the result is the return value and the chain.\<close>

fun chain_loop :: "StoredState frame_map \<Rightarrow> nat \<Rightarrow> StoredState \<Rightarrow> StoredState list \<Rightarrow> bool \<times> StoredState list" where
  "chain_loop states 0 st chain = (False, chain)"
| "chain_loop states (Suc n) st chain =
     (if \<not> SS_MainRAMDelta st then (True, rev (chain @ [st]))
      else case fmlookup states (SS_BaseFrame st) of
             None \<Rightarrow> (False, chain @ [st])
           | Some base \<Rightarrow> chain_loop states n base (chain @ [st]))"

definition BuildRestoreChain :: "u32 \<Rightarrow> Store \<Rightarrow> bool \<times> StoredState list" where
  "BuildRestoreChain frame s =
     (case fmlookup (ST_States s) frame of
        None \<Rightarrow> (False, [])
      | Some st \<Rightarrow> chain_loop (ST_States s) (Suc (fm_size (ST_States s))) st [])"

fun preimage_loop ::
  "StoredState frame_map \<Rightarrow> nat \<Rightarrow> u32 \<Rightarrow> u32 \<Rightarrow> StoredState list \<Rightarrow> bool \<times> StoredState list" where
  "preimage_loop states n frame cursorFrame reverseStates =
     (case n of
        0 \<Rightarrow> (cursorFrame = frame, reverseStates)
      | Suc m \<Rightarrow>
          if \<not> frame < cursorFrame then (cursorFrame = frame, reverseStates)
          else case fmlookup states cursorFrame of
                 None \<Rightarrow> (False, reverseStates)
               | Some st \<Rightarrow>
                   if \<not> SS_MainRAMFramePreimage st \<or> SS_BaseFrame st = kNoFrame
                      \<or> cursorFrame \<le> SS_BaseFrame st
                   then (False, reverseStates)
                   else preimage_loop states m frame (SS_BaseFrame st) (reverseStates @ [st]))"

declare preimage_loop.simps [simp del]

text \<open>The result is the return value, the states in reverse order and the latest memory.\<close>

definition BuildPreimageRestore :: "u32 \<Rightarrow> Store \<Rightarrow> bool \<times> StoredState list \<times> u8 list" where
  "BuildPreimageRestore frame s =
     (let latestMainRAM = ST_FrameShadowMainRAM s; cursorFrame = ST_FrameShadowFrame s in
      if cursorFrame = kNoFrame \<or> cursorFrame < frame \<or> latestMainRAM = []
      then (False, [], latestMainRAM)
      else let (ok, reverseStates) =
             preimage_loop (ST_States s) (Suc (fm_size (ST_States s))) frame cursorFrame []
           in (ok, reverseStates, latestMainRAM))"

definition UpdateFrameShadow :: "u32 \<Rightarrow> u8 list option \<Rightarrow> Store \<Rightarrow> Store" where
  "UpdateFrameShadow frame mainRAM s =
     (case mainRAM of
        None \<Rightarrow> s\<lparr>ST_FrameShadowMainRAM := [], ST_FrameShadowFrame := kNoFrame\<rparr>
      | Some ram \<Rightarrow>
          if ram = [] then s\<lparr>ST_FrameShadowMainRAM := [], ST_FrameShadowFrame := kNoFrame\<rparr>
          else s\<lparr>ST_FrameShadowMainRAM := ram, ST_FrameShadowFrame := frame\<rparr>)"

section \<open>Delta chains\<close>

text \<open>The abstract notion: a list of checkpoints from a frame through its bases to a keyframe.\<close>

inductive restore_chain :: "StoredState frame_map \<Rightarrow> u32 \<Rightarrow> StoredState list \<Rightarrow> bool" for M where
  keyframe: "fmlookup M f = Some st \<Longrightarrow> \<not> SS_MainRAMDelta st \<Longrightarrow> restore_chain M f [st]"
| delta: "fmlookup M f = Some st \<Longrightarrow> SS_MainRAMDelta st \<Longrightarrow> restore_chain M (SS_BaseFrame st) c
    \<Longrightarrow> restore_chain M f (st # c)"

inductive_cases restore_chainE: "restore_chain M f c"

lemma restore_chain_det: "restore_chain M f c \<Longrightarrow> restore_chain M f c' \<Longrightarrow> c = c'"
proof (induction arbitrary: c' rule: restore_chain.induct)
  case (keyframe f st)
  then show ?case by (auto elim: restore_chainE)
next
  case (delta f st c)
  from delta.prems show ?case
  proof (rule restore_chainE)
    fix st' assume "fmlookup M f = Some st'" "\<not> SS_MainRAMDelta st'"
    with delta.hyps show ?thesis by simp
  next
    fix st' c2 assume "c' = st' # c2" "fmlookup M f = Some st'" "restore_chain M (SS_BaseFrame st') c2"
    with delta.hyps(1) delta.IH [of c2] show ?thesis by simp
  qed
qed

lemma restore_chain_frames:
  "restore_chain M f c \<Longrightarrow> \<exists>fs. length fs = length c \<and> distinct fs \<and> set fs \<subseteq> fmdom' M
     \<and> (\<forall>g \<in> set fs. \<exists>d. restore_chain M g d \<and> length d \<le> length c)"
proof (induction rule: restore_chain.induct)
  case (keyframe f st)
  then show ?case
    by (intro exI [of _ "[f]"]) (auto simp: fmdom'I intro!: exI [of _ "[st]"] restore_chain.keyframe)
next
  case (delta f st c)
  then obtain fs where fs: "length fs = length c" "distinct fs" "set fs \<subseteq> fmdom' M"
    "\<forall>g \<in> set fs. \<exists>d. restore_chain M g d \<and> length d \<le> length c"
    by blast
  have full: "restore_chain M f (st # c)"
    using delta by (intro restore_chain.delta)
  have "f \<notin> set fs"
  proof
    assume "f \<in> set fs"
    then obtain d where "restore_chain M f d" "length d \<le> length c"
      using fs(4) by blast
    with restore_chain_det [OF full] show False
      by fastforce
  qed
  moreover have "\<exists>d. restore_chain M g d \<and> length d \<le> length (st # c)" if "g \<in> set (f # fs)" for g
    using that fs(4) full by (metis le_SucI length_Cons order_refl set_ConsD)
  ultimately show ?case
    using fs(1-3) delta(1) by (intro exI [of _ "f # fs"]) (simp add: fmdom'I)
qed

lemma restore_chain_length: "restore_chain M f c \<Longrightarrow> length c \<le> fm_size M"
proof -
  assume "restore_chain M f c"
  then obtain fs where fs: "length fs = length c" "distinct fs" "set fs \<subseteq> fmdom' M"
    using restore_chain_frames by blast
  have "card (set fs) \<le> card (fmdom' M)"
    by (rule card_mono) (simp_all add: fs(3))
  with fs show ?thesis
    by (simp add: fm_size_conv_card distinct_card)
qed

lemma chain_loop_complete:
  "restore_chain M f c \<Longrightarrow> fmlookup M f = Some st \<Longrightarrow> length c \<le> n \<Longrightarrow>
   chain_loop M n st acc = (True, rev (acc @ c))"
proof (induction arbitrary: n acc st rule: restore_chain.induct)
  case (keyframe f st)
  then show ?case by (cases n) auto
next
  case (delta f st' c)
  obtain m where n: "n = Suc m" "length c \<le> m"
    using delta.prems(2) by (cases n) auto
  obtain b where b: "fmlookup M (SS_BaseFrame st) = Some b"
    using delta by (auto elim: restore_chain.cases)
  with delta n show ?case by auto
qed

lemma chain_loop_sound:
  "chain_loop M n st acc = (True, r) \<Longrightarrow> fmlookup M f = Some st \<Longrightarrow>
   \<exists>c. r = rev (acc @ c) \<and> restore_chain M f c"
proof (induction M n st acc arbitrary: f rule: chain_loop.induct)
  case (1 states st chain)
  then show ?case by simp
next
  case (2 states n st chain)
  show ?case
  proof (cases "SS_MainRAMDelta st")
    case False
    with 2 show ?thesis
      by (intro exI [of _ "[st]"]) (auto intro: restore_chain.keyframe)
  next
    case True
    with 2 obtain b where b: "fmlookup states (SS_BaseFrame st) = Some b"
      "chain_loop states n b (chain @ [st]) = (True, r)"
      by (auto split: option.splits)
    with 2 True obtain c where "r = rev ((chain @ [st]) @ c)" "restore_chain states (SS_BaseFrame st) c"
      by blast
    with 2(3) True show ?thesis
      by (intro exI [of _ "st # c"]) (auto intro: restore_chain.delta)
  qed
qed

lemma BuildRestoreChain_iff:
  "BuildRestoreChain f s = (True, chain) \<longleftrightarrow> restore_chain (ST_States s) f (rev chain)"
proof
  assume "BuildRestoreChain f s = (True, chain)"
  then obtain st where st: "fmlookup (ST_States s) f = Some st"
    and "chain_loop (ST_States s) (Suc (fm_size (ST_States s))) st [] = (True, chain)"
    unfolding BuildRestoreChain_def by (auto split: option.splits simp del: chain_loop.simps)
  then obtain c where "chain = rev ([] @ c)" "restore_chain (ST_States s) f c"
    using chain_loop_sound by blast
  then show "restore_chain (ST_States s) f (rev chain)"
    by simp
next
  assume c: "restore_chain (ST_States s) f (rev chain)"
  then obtain st where st: "fmlookup (ST_States s) f = Some st"
    by (auto elim: restore_chain.cases)
  have "length (rev chain) \<le> Suc (fm_size (ST_States s))"
    using restore_chain_length [OF c] by simp
  from chain_loop_complete [OF c st this, of "[]"] st show "BuildRestoreChain f s = (True, chain)"
    unfolding BuildRestoreChain_def by (simp del: chain_loop.simps)
qed

text \<open>\<open>BuildRestoreChain\<close> is exact: it succeeds with a chain exactly when that chain, read
  backwards, leads from the frame through the recorded base frames to a keyframe. In
  particular its depth bound never refuses a frame that has such a chain, and a cyclic or broken
  chain is refused.\<close>

theorem restore_chain_exact:
  "BuildRestoreChain f s = (True, chain) \<longleftrightarrow> restore_chain (ST_States s) f (rev chain)"
  by (rule BuildRestoreChain_iff)

section \<open>Pruning\<close>

definition base_closed :: "StoredState frame_map \<Rightarrow> u32 fset \<Rightarrow> u32 set \<Rightarrow> bool" where
  "base_closed M R X \<longleftrightarrow> (\<forall>f st. f |\<in>| R \<longrightarrow> f \<notin> X \<longrightarrow> fmlookup M f = Some st \<longrightarrow>
     SS_MainRAMDelta st \<longrightarrow> SS_BaseFrame st \<noteq> kNoFrame \<longrightarrow> SS_BaseFrame st |\<in>| R)"

lemma mark_loop_closed:
  assumes "fmlookup M f = Some c" "f |\<in>| R" "base_closed M R {f}" "card (fmdom' M - fset R) < n"
  shows "base_closed M (mark_loop M n c R) {} \<and> R |\<subseteq>| mark_loop M n c R"
  using assms
proof (induction M n c R arbitrary: f rule: mark_loop.induct)
  case (1 M c R)
  then show ?case by simp
next
  case (2 M n c R)
  let ?b = "SS_BaseFrame c"
  show ?case
  proof (cases "\<not> SS_MainRAMDelta c \<or> ?b = kNoFrame \<or> ?b |\<in>| R")
    case True
    then show ?thesis
      using 2(2,4) by (auto simp: base_closed_def)
  next
    case False
    show ?thesis
    proof (cases "fmlookup M ?b")
      case None
      with False 2(2,4) show ?thesis
        by (auto simp: base_closed_def)
    next
      case (Some st)
      have "base_closed M (finsert ?b R) {?b}"
        using 2(2,4) by (auto simp: base_closed_def)
      moreover have "card (fmdom' M - fset (finsert ?b R)) < n"
      proof -
        have "?b \<in> fmdom' M - fset R"
          using Some False by (auto simp: fmdom'I)
        then have "card (fmdom' M - fset (finsert ?b R)) < card (fmdom' M - fset R)"
          by (intro psubset_card_mono) auto
        with 2(5) show ?thesis by simp
      qed
      ultimately have "base_closed M (mark_loop M n st (finsert ?b R)) {}
          \<and> finsert ?b R |\<subseteq>| mark_loop M n st (finsert ?b R)"
        using False Some by (intro 2(1)) auto
      with False Some show ?thesis by auto
    qed
  qed
qed

lemma markRequiredChain_closed:
  assumes "base_closed M R {}"
  shows "base_closed M (markRequiredChain M f R) {} \<and> R |\<subseteq>| markRequiredChain M f R
    \<and> (f \<in> fmdom' M \<longrightarrow> f |\<in>| markRequiredChain M f R)"
proof (cases "fmlookup M f")
  case None
  with assms show ?thesis
    by (auto simp: markRequiredChain_def fm_lookup_ne_None [symmetric])
next
  case (Some c)
  have "card (fmdom' M - fset (finsert f R)) < card (fmdom' M)"
  proof (rule psubset_card_mono)
    have "f \<in> fmdom' M"
      using Some by (rule fmdom'I)
    then show "fmdom' M - fset (finsert f R) \<subset> fmdom' M"
      by auto
  qed simp
  then have "base_closed M (mark_loop M (fm_size M) c (finsert f R)) {}
      \<and> finsert f R |\<subseteq>| mark_loop M (fm_size M) c (finsert f R)"
    using assms by (intro mark_loop_closed [OF Some]) (simp_all add: fm_size_conv_card base_closed_def)
  moreover have "markRequiredChain M f R = mark_loop M (fm_size M) c (finsert f R)"
    using Some by (simp add: markRequiredChain_def)
  ultimately show ?thesis
    by auto
qed

lemma mark_fold_closed:
  "base_closed M R {} \<Longrightarrow> base_closed M (fold (markRequiredChain M) fs R) {}
     \<and> R |\<subseteq>| fold (markRequiredChain M) fs R
     \<and> (\<forall>f \<in> set fs. f \<in> fmdom' M \<longrightarrow> f |\<in>| fold (markRequiredChain M) fs R)"
proof (induction fs arbitrary: R)
  case Nil
  then show ?case by simp
next
  case (Cons f fs)
  note m = markRequiredChain_closed [OF Cons.prems, of f]
  with Cons.IH [of "markRequiredChain M f R"] show ?case
    by (auto dest: fsubsetD)
qed

lemma required_frames_closed:
  "base_closed (ST_States s) (required_frames cur win s) {}"
  "f \<in> fmdom' (ST_States s) \<Longrightarrow> keep_from cur win \<le> f \<Longrightarrow> f |\<in>| required_frames cur win s"
  "ST_FrameShadowFrame s \<noteq> kNoFrame \<Longrightarrow> ST_FrameShadowFrame s \<in> fmdom' (ST_States s) \<Longrightarrow>
   ST_FrameShadowFrame s |\<in>| required_frames cur win s"
proof -
  let ?M = "ST_States s"
  let ?r = "fold (markRequiredChain ?M) (filter (\<lambda>f. keep_from cur win \<le> f) (fm_keys ?M)) {||}"
  have r: "base_closed ?M ?r {}" "\<forall>f \<in> fmdom' ?M. keep_from cur win \<le> f \<longrightarrow> f |\<in>| ?r"
    using mark_fold_closed [of ?M "{||}" "filter (\<lambda>f. keep_from cur win \<le> f) (fm_keys ?M)"]
    by (auto simp: base_closed_def)
  note m = markRequiredChain_closed [OF r(1), of "ST_FrameShadowFrame s"]
  show "base_closed ?M (required_frames cur win s) {}"
    using r m by (simp add: required_frames_def Let_def)
  show "f \<in> fmdom' ?M \<Longrightarrow> keep_from cur win \<le> f \<Longrightarrow> f |\<in>| required_frames cur win s"
    using r m by (auto simp: required_frames_def Let_def dest: fsubsetD)
  show "ST_FrameShadowFrame s \<noteq> kNoFrame \<Longrightarrow> ST_FrameShadowFrame s \<in> fmdom' ?M \<Longrightarrow>
      ST_FrameShadowFrame s |\<in>| required_frames cur win s"
    using m by (simp add: required_frames_def Let_def)
qed

text \<open>A store whose deltas all name a nonzero base frame.\<close>

definition bases_named :: "Store \<Rightarrow> bool" where
  "bases_named s \<longleftrightarrow> (\<forall>f st. fmlookup (ST_States s) f = Some st \<longrightarrow> SS_MainRAMDelta st \<longrightarrow> SS_BaseFrame st \<noteq> kNoFrame)"

lemma fmlookup_Prune:
  "fmlookup (ST_States (Prune cur win s)) f =
     (if f < keep_from cur win \<and> f |\<notin>| required_frames cur win s then None
      else fmlookup (ST_States s) f)"
  by (simp add: Prune_def Let_def)

lemma Prune_chain_sub:
  "restore_chain (ST_States (Prune cur win s)) f c \<Longrightarrow> restore_chain (ST_States s) f c"
  by (induction rule: restore_chain.induct)
    (auto simp: fmlookup_Prune intro: restore_chain.intros split: if_splits)

lemma Prune_chain_kept:
  assumes "bases_named s"
  shows "restore_chain (ST_States s) f c \<Longrightarrow> f |\<in>| required_frames cur win s \<Longrightarrow>
    restore_chain (ST_States (Prune cur win s)) f c"
proof (induction rule: restore_chain.induct)
  case (keyframe f st)
  then show ?case
    by (intro restore_chain.keyframe) (simp_all add: fmlookup_Prune)
next
  case (delta f st c)
  have "SS_BaseFrame st |\<in>| required_frames cur win s"
    using required_frames_closed(1) [of s cur win] delta assms
    by (auto simp: base_closed_def bases_named_def)
  with delta show ?case
    by (intro restore_chain.delta) (simp_all add: fmlookup_Prune)
qed

text \<open>The frames pruning promises to keep: the window, and the frame of the memory shadow.\<close>

definition kept_frame :: "u32 \<Rightarrow> u32 \<Rightarrow> Store \<Rightarrow> u32 \<Rightarrow> bool" where
  "kept_frame currentFrame window s f \<longleftrightarrow>
     keep_from currentFrame window \<le> f \<or> (f = ST_FrameShadowFrame s \<and> f \<noteq> kNoFrame)"

lemma Prune_chain_iff:
  assumes "bases_named s" "kept_frame cur win s f"
  shows "restore_chain (ST_States (Prune cur win s)) f c \<longleftrightarrow> restore_chain (ST_States s) f c"
proof
  assume c: "restore_chain (ST_States s) f c"
  then have "f \<in> fmdom' (ST_States s)"
    by (auto elim: restore_chain.cases simp: fmdom'I)
  then have "f |\<in>| required_frames cur win s"
    using assms(2) required_frames_closed(2,3) by (auto simp: kept_frame_def)
  with assms(1) c show "restore_chain (ST_States (Prune cur win s)) f c"
    by (rule Prune_chain_kept)
qed (rule Prune_chain_sub)

text \<open>C32: Pruning never breaks a restore. In a store whose deltas name a nonzero base frame,
  every checkpoint of the window, and the checkpoint of the memory shadow, restores after
  \<open>Prune\<close> through exactly the chain it had before, although older frames are dropped; and a
  frame stored before and no older than the window is still stored, unchanged.\<close>

theorem prune_preserves_restores:
  assumes "bases_named s" "kept_frame cur win s f"
  shows "(BuildRestoreChain f (Prune cur win s) = (True, chain)) = (BuildRestoreChain f s = (True, chain))
    \<and> Copy f (Prune cur win s) = Copy f s"
proof
  show "(BuildRestoreChain f (Prune cur win s) = (True, chain)) = (BuildRestoreChain f s = (True, chain))"
    using Prune_chain_iff [OF assms] by (simp add: BuildRestoreChain_iff)
  have "f |\<in>| required_frames cur win s" if "f \<in> fmdom' (ST_States s)" "f < keep_from cur win"
    using that assms(2) required_frames_closed(3) by (auto simp: kept_frame_def)
  then show "Copy f (Prune cur win s) = Copy f s"
    using fm_lookup_ne_None [of "ST_States s" f] by (cases "fmlookup (ST_States s) f") (auto simp: Copy_def fmlookup_Prune)
qed

definition demo_state :: "u32 \<Rightarrow> bool \<Rightarrow> StoredState" where
  "demo_state base d = StoredState_default\<lparr>SS_Buffer := [ucast base], SS_MainRAMCopy := [1],
     SS_BaseFrame := base, SS_MainRAMDelta := d\<rparr>"

definition demo_store :: Store where
  "demo_store = Store_init\<lparr>ST_States := fmupd 10 (demo_state 0 False) (fmupd 20 (demo_state 10 True)
     (fmupd 25 (demo_state 0 False) (fmupd 30 (demo_state 20 True) fmempty)))\<rparr>"

theorem prune_preserves_restores_witness:
  "fst (BuildRestoreChain 30 demo_store) \<and> fst (BuildRestoreChain 30 (Prune 35 6 demo_store))
   \<and> Copy 25 (Prune 35 6 demo_store) = None"
proof -
  have "bases_named demo_store"
    by (auto simp: bases_named_def demo_store_def demo_state_def kNoFrame_def StoredState_default_def Store_init_def
        split: if_splits)
  moreover have "kept_frame 35 6 demo_store 30"
    by code_simp
  moreover have *: "BuildRestoreChain 30 demo_store = (True, [demo_state 0 False, demo_state 10 True, demo_state 20 True])"
    by code_simp
  ultimately have "BuildRestoreChain 30 (Prune 35 6 demo_store) = (True, [demo_state 0 False, demo_state 10 True, demo_state 20 True])"
    using prune_preserves_restores [of demo_store 35 6 30 "[demo_state 0 False, demo_state 10 True, demo_state 20 True]"]
    by simp
  moreover have "Copy 25 (Prune 35 6 demo_store) = None"
    by code_simp
  ultimately show ?thesis
    using * by simp
qed

section \<open>Saving\<close>

text \<open>
  When the bases are in order, every stored checkpoint restores: a store is well based when frame 0
  (the \<^verbatim>\<open>kNoFrame\<close> mark) is not stored and every delta has an earlier stored frame as its base. A prune
  keeps this; a save keeps it for a frame other than 0 that is not stored yet and is later than the
  frame of the memory shadow. The rollback runtime does not always save that way: it saves from frame
  0 on, it saves frames again, and after a correction the shadow stands at the current frame. What
  happens then is shown at the end of this theory and, for the memory shadow, in the theory of the
  corrections.
\<close>

definition well_based :: "Store \<Rightarrow> bool" where
  "well_based s \<longleftrightarrow> kNoFrame \<notin> fmdom' (ST_States s) \<and>
     (\<forall>f st. fmlookup (ST_States s) f = Some st \<longrightarrow> SS_MainRAMDelta st \<longrightarrow>
        SS_BaseFrame st < f \<and> SS_BaseFrame st \<in> fmdom' (ST_States s))"

lemma find_keyframe_Some:
  "find_keyframe M fs = Some (f, st) \<Longrightarrow> f \<in> set fs \<and> fmlookup M f = Some st \<and> \<not> SS_MainRAMDelta st"
  by (induction M fs rule: find_keyframe.induct) (auto split: option.splits if_splits)

lemma PrepareSave_base:
  assumes "PrepareSave frame mode ki ns s = (prepared, ram)" "SS_MainRAMDelta prepared"
  shows "SS_BaseFrame prepared \<in> fmdom' (ST_States s)
    \<and> (SS_BaseFrame prepared \<le> frame \<or> SS_BaseFrame prepared = ST_FrameShadowFrame s)"
proof (cases mode)
  case KeyframeDelta
  with assms show ?thesis
    by (auto simp: PrepareSave_def Let_def StoredState_default_def fmdom'I dest!: find_keyframe_Some
        split: if_splits option.splits)
qed (use assms in \<open>auto simp: PrepareSave_def Let_def StoredState_default_def HasUsableFrameShadow_def fmdom'I
  split: if_splits\<close>)

lemma well_based_bases_named: "well_based s \<Longrightarrow> bases_named s"
  unfolding well_based_def bases_named_def by metis

lemma well_based_Prune: "well_based s \<Longrightarrow> well_based (Prune cur win s)"
proof -
  assume wb: "well_based s"
  have "SS_BaseFrame st < f \<and> SS_BaseFrame st \<in> fmdom' (ST_States (Prune cur win s))"
    if l: "fmlookup (ST_States (Prune cur win s)) f = Some st" and d: "SS_MainRAMDelta st" for f st
  proof -
    have f: "fmlookup (ST_States s) f = Some st" "\<not> (f < keep_from cur win \<and> f |\<notin>| required_frames cur win s)"
      using l by (auto simp: fmlookup_Prune split: if_splits)
    then have "f |\<in>| required_frames cur win s"
      using required_frames_closed(2) [of f s cur win] by (meson fmdom'I not_le)
    moreover have b: "SS_BaseFrame st < f" "SS_BaseFrame st \<in> fmdom' (ST_States s)" "SS_BaseFrame st \<noteq> kNoFrame"
      using wb f(1) d unfolding well_based_def by metis+
    ultimately have "SS_BaseFrame st |\<in>| required_frames cur win s"
      using required_frames_closed(1) [of s cur win] f(1) d by (auto simp: base_closed_def)
    with b show ?thesis
      by (simp add: fm_lookup_ne_None [symmetric] fmlookup_Prune)
  qed
  moreover have "kNoFrame \<notin> fmdom' (ST_States (Prune cur win s))"
    using wb by (simp add: well_based_def fm_lookup_ne_None [symmetric] fmlookup_Prune)
  ultimately show ?thesis
    unfolding well_based_def by blast
qed

lemma well_based_save:
  assumes "well_based s" "frame \<noteq> kNoFrame" "Copy frame s = None" "ST_FrameShadowFrame s < frame"
    "PrepareSave frame mode ki ns s = (prepared, ram)" "SS_MainRAMDelta cp = SS_MainRAMDelta prepared"
    "SS_BaseFrame cp = SS_BaseFrame prepared"
  shows "well_based (snd (Put frame cp s))"
proof -
  have "SS_BaseFrame cp < frame \<and> SS_BaseFrame cp \<in> fmdom' (ST_States s)" if "SS_MainRAMDelta cp"
  proof -
    have "SS_BaseFrame cp \<in> fmdom' (ST_States s)"
      "SS_BaseFrame cp \<le> frame \<or> SS_BaseFrame cp = ST_FrameShadowFrame s"
      using PrepareSave_base [OF assms(5)] assms(6,7) that by auto
    moreover from this(1) have "SS_BaseFrame cp \<noteq> frame"
      using assms(3) by (auto simp: Copy_def fm_lookup_ne_None [symmetric])
    ultimately show ?thesis
      using assms(4) by auto
  qed
  with assms(1,2) show ?thesis
    by (auto simp: well_based_def Put_def split: if_splits)
qed

lemma well_based_erase: "well_based s \<Longrightarrow> well_based (EraseAfter frame s)"
  unfolding well_based_def EraseAfter_def
  by (auto simp: fm_lookup_ne_None [symmetric] split: if_splits) (meson less_imp_le order.strict_trans2)

lemma well_based_shadow: "well_based s \<Longrightarrow> well_based (UpdateFrameShadow frame mainRAM s)"
  by (simp add: well_based_def UpdateFrameShadow_def split: option.splits)

lemma well_based_restorable:
  assumes "well_based s"
  shows "f \<in> fmdom' (ST_States s) \<Longrightarrow> \<exists>c. restore_chain (ST_States s) f c"
proof (induction "unat f" arbitrary: f rule: less_induct)
  case less
  then obtain st where st: "fmlookup (ST_States s) f = Some st"
    by (metis fm_lookup_ne_None not_None_eq)
  show ?case
  proof (cases "SS_MainRAMDelta st")
    case True
    then have b: "SS_BaseFrame st < f" "SS_BaseFrame st \<in> fmdom' (ST_States s)"
      using assms st unfolding well_based_def by metis+
    then obtain c where "restore_chain (ST_States s) (SS_BaseFrame st) c"
      using less.hyps [of "SS_BaseFrame st"] by (auto simp: word_less_nat_alt)
    with st True show ?thesis
      by (blast intro: restore_chain.delta)
  qed (use st in \<open>blast intro: restore_chain.keyframe\<close>)
qed

lemma restore_chain_ends:
  "restore_chain M f c \<Longrightarrow> c \<noteq> [] \<and> fmlookup M f = Some (hd c) \<and> \<not> SS_MainRAMDelta (last c)"
  by (induction rule: restore_chain.induct) auto

section \<open>Preimage chains\<close>

inductive preimage_chain :: "StoredState frame_map \<Rightarrow> u32 \<Rightarrow> u32 \<Rightarrow> StoredState list \<Rightarrow> bool" for M frame where
  stop: "preimage_chain M frame frame []"
| older: "frame < cursor \<Longrightarrow> fmlookup M cursor = Some st \<Longrightarrow> SS_MainRAMFramePreimage st \<Longrightarrow>
    SS_BaseFrame st \<noteq> kNoFrame \<Longrightarrow> SS_BaseFrame st < cursor \<Longrightarrow>
    preimage_chain M frame (SS_BaseFrame st) sts \<Longrightarrow> preimage_chain M frame cursor (st # sts)"

lemma preimage_chain_le: "preimage_chain M frame cursor sts \<Longrightarrow> frame \<le> cursor"
  by (induction rule: preimage_chain.induct) auto

lemma preimage_chain_length:
  "preimage_chain M frame cursor sts \<Longrightarrow> length sts \<le> card {f \<in> fmdom' M. f \<le> cursor}"
proof (induction rule: preimage_chain.induct)
  case stop
  then show ?case by simp
next
  case (older cursor st sts)
  have "cursor \<in> {f \<in> fmdom' M. f \<le> cursor} - {f \<in> fmdom' M. f \<le> SS_BaseFrame st}"
    using older(2,5) by (auto simp: fmdom'I not_le)
  moreover have "{f \<in> fmdom' M. f \<le> SS_BaseFrame st} \<subseteq> {f \<in> fmdom' M. f \<le> cursor}"
    using older(5) by auto
  ultimately have "{f \<in> fmdom' M. f \<le> SS_BaseFrame st} \<subset> {f \<in> fmdom' M. f \<le> cursor}"
    by blast
  then have "card {f \<in> fmdom' M. f \<le> SS_BaseFrame st} < card {f \<in> fmdom' M. f \<le> cursor}"
    by (intro psubset_card_mono) auto
  with older.IH show ?case by simp
qed

lemma preimage_loop_complete:
  "preimage_chain M frame cursor sts \<Longrightarrow> length sts \<le> n \<Longrightarrow>
   preimage_loop M n frame cursor acc = (True, acc @ sts)"
proof (induction arbitrary: n acc rule: preimage_chain.induct)
  case stop
  then show ?case
    by (subst preimage_loop.simps) (simp split: nat.split)
next
  case (older cursor st sts)
  then obtain m where "n = Suc m" "length sts \<le> m"
    by (cases n) auto
  with older show ?case
    by (subst preimage_loop.simps) (simp add: not_le)
qed

lemma preimage_loop_sound:
  "preimage_loop M n frame cursor acc = (True, r) \<Longrightarrow>
   \<exists>sts. r = acc @ sts \<and> preimage_chain M frame cursor sts"
proof (induction n arbitrary: cursor acc)
  case 0
  then have "cursor = frame \<and> r = acc"
    by (subst (asm) preimage_loop.simps) simp
  then show ?case
    by (intro exI [of _ "[]"]) (simp add: preimage_chain.stop)
next
  case (Suc n)
  show ?case
  proof (cases "frame < cursor")
    case False
    with Suc.prems have "cursor = frame \<and> r = acc"
      by (subst (asm) preimage_loop.simps) simp
    then show ?thesis
      by (intro exI [of _ "[]"]) (simp add: preimage_chain.stop)
  next
    case True
    with Suc.prems obtain st where st: "fmlookup M cursor = Some st" "SS_MainRAMFramePreimage st"
      "SS_BaseFrame st \<noteq> kNoFrame" "SS_BaseFrame st < cursor"
      "preimage_loop M n frame (SS_BaseFrame st) (acc @ [st]) = (True, r)"
      by (subst (asm) preimage_loop.simps) (auto split: option.splits if_splits)
    with Suc.IH obtain sts where "r = (acc @ [st]) @ sts" "preimage_chain M frame (SS_BaseFrame st) sts"
      by blast
    with st True show ?thesis
      by (intro exI [of _ "st # sts"]) (auto intro: preimage_chain.older)
  qed
qed

lemma BuildPreimageRestore_iff:
  "BuildPreimageRestore frame s = (True, sts, ram) \<longleftrightarrow>
     ST_FrameShadowFrame s \<noteq> kNoFrame \<and> ram = ST_FrameShadowMainRAM s \<and> ram \<noteq> []
     \<and> preimage_chain (ST_States s) frame (ST_FrameShadowFrame s) sts" (is "?l \<longleftrightarrow> ?r")
proof
  assume ?l
  then show ?r
    using preimage_loop_sound [of "ST_States s" "Suc (fm_size (ST_States s))" frame "ST_FrameShadowFrame s" "[]" sts]
    by (auto simp: BuildPreimageRestore_def Let_def split: if_splits prod.splits)
next
  assume r: ?r
  have "length sts \<le> card {f \<in> fmdom' (ST_States s). f \<le> ST_FrameShadowFrame s}"
    using r preimage_chain_length by blast
  also have "\<dots> \<le> fm_size (ST_States s)"
    unfolding fm_size_conv_card by (rule card_mono) auto
  finally have "preimage_loop (ST_States s) (Suc (fm_size (ST_States s))) frame (ST_FrameShadowFrame s) [] = (True, sts)"
    using r preimage_loop_complete [of "ST_States s" frame "ST_FrameShadowFrame s" sts "Suc (fm_size (ST_States s))" "[]"]
    by simp
  with r preimage_chain_le show ?l
    by (auto simp: BuildPreimageRestore_def Let_def not_less)
qed

lemma Prune_preimage_chain:
  assumes "keep_from cur win \<le> frame"
  shows "preimage_chain (ST_States (Prune cur win s)) frame cursor sts
    \<longleftrightarrow> preimage_chain (ST_States s) frame cursor sts"
proof
  have same: "fmlookup (ST_States (Prune cur win s)) f = fmlookup (ST_States s) f" if "frame < f" for f
    using that assms by (auto simp: fmlookup_Prune)
  show "preimage_chain (ST_States (Prune cur win s)) frame cursor sts \<Longrightarrow> preimage_chain (ST_States s) frame cursor sts"
    by (induction rule: preimage_chain.induct) (auto simp: same intro: preimage_chain.intros)
  show "preimage_chain (ST_States s) frame cursor sts \<Longrightarrow> preimage_chain (ST_States (Prune cur win s)) frame cursor sts"
    by (induction rule: preimage_chain.induct) (auto simp: same intro!: preimage_chain.intros)
qed

text \<open>\<open>BuildPreimageRestore\<close> is exact, and pruning keeps it so. It succeeds exactly when the
  memory shadow is usable and the stored preimages lead, frame by frame, from the shadow's frame
  down to the requested one, and then returns those preimages in the order they have to be
  applied; for a frame inside the window the answer after \<open>Prune\<close> is the same.\<close>

theorem preimage_restore_exact:
  "(BuildPreimageRestore frame s = (True, sts, ram) \<longleftrightarrow>
     ST_FrameShadowFrame s \<noteq> kNoFrame \<and> ram = ST_FrameShadowMainRAM s \<and> ram \<noteq> []
     \<and> preimage_chain (ST_States s) frame (ST_FrameShadowFrame s) sts)
   \<and> (keep_from cur win \<le> frame \<longrightarrow>
        (BuildPreimageRestore frame (Prune cur win s) = (True, sts, ram))
        = (BuildPreimageRestore frame s = (True, sts, ram)))"
  using BuildPreimageRestore_iff Prune_preimage_chain [of cur win frame s "ST_FrameShadowFrame s" sts]
  by (auto simp: Prune_def Let_def)


theorem preimage_restore_exact_witness:
  "\<exists>s. BuildPreimageRestore 10 s = (True, [demo_state 10 False\<lparr>SS_MainRAMFramePreimage := True\<rparr>], [7])
     \<and> BuildPreimageRestore 10 (Prune 12 5 s) = BuildPreimageRestore 10 s"
proof -
  define st where "st = demo_state 10 False\<lparr>SS_MainRAMFramePreimage := True\<rparr>"
  define s where "s = UpdateFrameShadow 12 (Some [7]) (Store_init\<lparr>ST_States := fmupd 12 st fmempty\<rparr>)"
  have *: "BuildPreimageRestore 10 s = (True, [st], [7])"
    unfolding s_def st_def by code_simp
  moreover have "keep_from 12 5 \<le> 10"
    by code_simp
  ultimately have "BuildPreimageRestore 10 (Prune 12 5 s) = (True, [st], [7])"
    using preimage_restore_exact [of 10 s "[st]" "[7]" 12 5] by blast
  with * show ?thesis
    unfolding st_def by (intro exI [of _ s]) simp
qed

section \<open>Choosing and bounding a rollback\<close>

lemma LatestAtOrBefore_Some:
  "LatestAtOrBefore m s = Some (f, st) \<longleftrightarrow>
     f \<le> m \<and> Copy f s = Some st \<and> (\<forall>g. g \<le> m \<longrightarrow> Copy g s \<noteq> None \<longrightarrow> g \<le> f)"
proof -
  have "fm_last_upto m (ST_States s) = Some f \<longleftrightarrow>
      f \<le> m \<and> Copy f s \<noteq> None \<and> (\<forall>g. g \<le> m \<longrightarrow> Copy g s \<noteq> None \<longrightarrow> g \<le> f)"
    unfolding fm_last_upto_Some Copy_def fm_lookup_ne_None by auto
  then show ?thesis
    by (auto simp: LatestAtOrBefore_def Copy_def split: option.splits)
qed

text \<open>A rollback starts from the newest checkpoint at or before the mismatch, and forgets
  the checkpoints after it. \<open>LatestAtOrBefore\<close> returns a frame and checkpoint exactly when they
  are stored, not after the mismatch and no other stored frame lies between; after
  \<open>EraseAfter\<close> of that frame nothing later is stored and everything else is unchanged.\<close>

theorem rollback_start_latest:
  "(LatestAtOrBefore m s = Some (f, st) \<longleftrightarrow>
      f \<le> m \<and> Copy f s = Some st \<and> (\<forall>g. g \<le> m \<and> f < g \<longrightarrow> Copy g s = None))
   \<and> Copy g (EraseAfter f s) = (if g \<le> f then Copy g s else None)"
proof
  show "LatestAtOrBefore m s = Some (f, st) \<longleftrightarrow>
      f \<le> m \<and> Copy f s = Some st \<and> (\<forall>g. g \<le> m \<and> f < g \<longrightarrow> Copy g s = None)"
    unfolding LatestAtOrBefore_Some by (metis not_le)
  show "Copy g (EraseAfter f s) = (if g \<le> f then Copy g s else None)"
    by (simp add: Copy_def EraseAfter_def)
qed

theorem rollback_start_latest_witness:
  "LatestAtOrBefore 24 demo_store = Some (20, demo_state 10 True) \<and> Copy 25 (EraseAfter 20 demo_store) = None"
proof -
  have "Copy 20 demo_store = Some (demo_state 10 True)"
    by code_simp
  moreover have "\<forall>g. g \<le> 24 \<and> 20 < g \<longrightarrow> Copy g demo_store = None"
    by (auto simp: Copy_def demo_store_def)
  ultimately show ?thesis
    using rollback_start_latest [of 24 demo_store 20 "demo_state 10 True" 25] by simp
qed

text \<open>The resimulation depth is bounded. With a positive limit, clamping a mismatch before the
  current frame never moves it earlier or past the current frame and leaves at most the limit of
  frames to simulate, and a mismatch within the limit is unchanged.\<close>

theorem resimulation_depth_bounded:
  assumes "0 < maxFrames" "maxFrames < 2 ^ 31" "mismatch < current"
  shows "mismatch \<le> ClampResimulationMismatch mismatch current maxFrames
    \<and> ClampResimulationMismatch mismatch current maxFrames < current
    \<and> int (unat (current - ClampResimulationMismatch mismatch current maxFrames)) \<le> maxFrames
    \<and> (int (unat (current - mismatch)) \<le> maxFrames \<longrightarrow>
         ClampResimulationMismatch mismatch current maxFrames = mismatch)"
proof -
  let ?m = "u32_of_int maxFrames"
  have um: "unat ?m = nat maxFrames"
    using assms by (simp add: u32_of_int_nonneg)
  then have m: "int (unat ?m) = maxFrames" and pos: "0 < unat ?m"
    using assms(1) by simp_all
  show ?thesis
  proof (cases "?m < current - mismatch")
    case True
    have d: "unat (current - mismatch) = unat current - unat mismatch"
      using assms(3) by (simp add: unat_sub_u32)
    have "unat ?m < unat current - unat mismatch"
      using True d by (simp add: word_less_nat_alt)
    then have le: "?m \<le> current"
      by (simp add: word_le_nat_alt)
    then have "unat (current - ?m) = unat current - unat ?m"
      by (rule unat_sub_u32)
    with \<open>unat ?m < unat current - unat mismatch\<close> pos have "mismatch \<le> current - ?m" "current - ?m < current"
      by (simp_all add: word_le_nat_alt word_less_nat_alt)
    moreover have "current - (current - ?m) = ?m"
      by simp
    moreover have "\<not> int (unat (current - mismatch)) \<le> maxFrames"
      using True m unfolding word_less_nat_alt by linarith
    ultimately show ?thesis
      using True assms m by (simp add: ClampResimulationMismatch_def not_le)
  next
    case False
    then have "int (unat (current - mismatch)) \<le> maxFrames"
      using m unfolding not_less word_le_nat_alt by linarith
    with False assms show ?thesis
      by (simp add: ClampResimulationMismatch_def not_le)
  qed
qed

theorem resimulation_depth_bounded_witness:
  "int (unat (500 - ClampResimulationMismatch 100 500 12)) \<le> 12 \<and> ClampResimulationMismatch 100 500 12 = 488"
  using resimulation_depth_bounded [of 12 100 500] by (simp add: ClampResimulationMismatch_def u32_of_int_def)

section \<open>Limits of the frame mark\<close>

text \<open>
  The conditions of \<open>well_based_save\<close> are needed, and the code does not check them. Frame 0 doubles as \<^verbatim>\<open>kNoFrame\<close>: a delta saved on a
  keyframe of frame 0 loses its base when the store is pruned. And the keyframe search of
  \<open>PrepareSave\<close> includes the frame being saved: saving a stored keyframe again, between keyframe
  intervals, makes it a delta on itself.
\<close>

definition zero_key_store :: Store where
  "zero_key_store = snd (Put 0 (demo_state 0 False) Store_init)"

definition seven_key_store :: Store where
  "seven_key_store = snd (Put 7 (demo_state 0 False) Store_init)"

text \<open>Two limits of the frame mark, on concrete stores. A delta on the keyframe of frame 0
  restores before a prune and not after it; and saving the stored keyframe 7 again at a keyframe
  interval of 10 records frame 7 as its own base, after which it cannot be restored.\<close>

theorem frame_mark_limits:
  "(let cp = fst (PrepareSave 5 KeyframeDelta 10 0 zero_key_store);
        s = snd (Put 5 cp zero_key_store)
    in SS_MainRAMDelta cp \<and> SS_BaseFrame cp = 0
       \<and> fst (BuildRestoreChain 5 s) \<and> \<not> fst (BuildRestoreChain 5 (Prune 8 4 s)))
   \<and> (let cp = fst (PrepareSave 7 KeyframeDelta 10 0 seven_key_store)
      in SS_BaseFrame cp = 7 \<and> fst (BuildRestoreChain 7 seven_key_store)
         \<and> \<not> fst (BuildRestoreChain 7 (snd (Put 7 cp seven_key_store))))"
  by code_simp

end
