(* ===== verification/Rollback_Runtime.thy ===== *)
theory Rollback_Runtime
  imports Game_RAM Rollback_Store Input_Timeline Netplay_Config
begin

text \<open>
  The rollback runtime of \<^verbatim>\<open>NsmbRollbackRuntime.cpp\<close>: saving checkpoints, restoring them, and the
  correction that restores a checkpoint and resimulates up to the current frame, or arms the replay
  inside the game. The emulator core is a parameter: the record \<open>Emulator\<close> holds its savestates, its
  frame step and its input functions, \<open>ResimulationHooks\<close> the callbacks of the caller, and
  \<open>RollbackClock\<close> the measured times. The machine is the extensible record \<open>NDS\<close>. A null \<^verbatim>\<open>nds\<close>
  pointer and \<^verbatim>\<open>std::_Exit\<close> are explicit results. Trace output is left out.
\<close>

section \<open>The emulator and the context\<close>

datatype SaveKind =
    TinyCoreState u32
  | CoreState u32 "u8 list option" u32 u32
  | FullState

record 'a Emulator =
  EM_Save :: "SaveKind \<Rightarrow> 'a \<Rightarrow> u8 list option"
  EM_Load :: "SaveKind \<Rightarrow> u8 list \<Rightarrow> 'a \<Rightarrow> bool \<times> 'a"
  EM_RunFrame :: "'a \<Rightarrow> 'a"
  EM_SetKeyMask :: "u32 \<Rightarrow> 'a \<Rightarrow> 'a"
  EM_TouchScreen :: "u16 \<Rightarrow> u16 \<Rightarrow> 'a \<Rightarrow> 'a"
  EM_ReleaseScreen :: "'a \<Rightarrow> 'a"
  EM_SetRollbackSkipRender :: "bool \<Rightarrow> 'a \<Rightarrow> 'a"
  EM_SetRollbackSkipOutput :: "bool \<Rightarrow> 'a \<Rightarrow> 'a"
  EM_CheckAndInvalidate :: "u32 \<Rightarrow> 'a \<Rightarrow> 'a"

record 'a ResimulationHooks =
  HK_CurrentLocalPlayer :: int
  HK_ApplyFramePatches :: "int \<Rightarrow> u32 \<Rightarrow> 'a \<Rightarrow> 'a"
  HK_WritePacketBridgeInputs :: "int \<Rightarrow> u32 \<Rightarrow> int \<Rightarrow> InputState \<Rightarrow> InputState \<Rightarrow> bool \<Rightarrow> bool \<Rightarrow> 'a \<Rightarrow> 'a"
  HK_PrepareRuntimeInput :: "InputState \<Rightarrow> InputState"
  HK_ApplyPostFramePatches :: "u32 \<Rightarrow> 'a \<Rightarrow> 'a"

record RollbackContext =
  RX_Config :: RollbackConfig
  RX_Input :: InputConfig
  RX_Inputs :: TimelineRuntime
  RX_Store :: Store
  RX_Statistics :: StatisticsSnapshot
  RX_NetplayStartFrame :: u32

record RollbackClock =
  KC_SaveUs :: "u32 \<Rightarrow> u64"
  KC_RestoreUs :: u64
  KC_RunFrameUs :: "u32 \<Rightarrow> u64"
  KC_CheckpointSaveUs :: "u32 \<Rightarrow> u64"
  KC_TotalUs :: u64

definition kMainRAMModeFull :: u32 where "kMainRAMModeFull = 0"
definition kMainRAMModeSparse :: u32 where "kMainRAMModeSparse = 1"
definition kMainRAMModeDelta :: u32 where "kMainRAMModeDelta = 2"
definition kMainRAMModeSkip :: u32 where "kMainRAMModeSkip = 3"
definition kMainRAMBase :: u32 where "kMainRAMBase = 0x02000000"
definition kRomLoopMagicAddress :: u32 where "kRomLoopMagicAddress = 0x02001AC8"
definition kRomLoopMagic :: u32 where "kRomLoopMagic = 0x32505447"
definition kRomLoopHistoryCapacity :: u32 where "kRomLoopHistoryCapacity = 12"
definition kRomLoopHistoryAddress :: u32 where "kRomLoopHistoryAddress = 0x023C1300"
definition kRomLoopHistoryEntrySize :: u32 where "kRomLoopHistoryEntrySize = 16"
definition kPacketBridgeScratchTickAddress :: u32 where "kPacketBridgeScratchTickAddress = 0x023C1200"
definition kPacketBridgeScratchKeysAddress :: u32 where "kPacketBridgeScratchKeysAddress = 0x023C1208"
definition kPacketBridgeScratchPacketsAddress :: u32 where "kPacketBridgeScratchPacketsAddress = 0x023C1240"

definition ram_size :: "'m NDS_scheme \<Rightarrow> nat" where
  "ram_size n = unat (ND_MainRAMMask n + 1)"

section \<open>Predictions\<close>

definition PredictionProbeOf :: "RollbackConfig \<Rightarrow> PredictionProbe" where
  "PredictionProbeOf config = \<lparr>PB_Modulo = RB_PredictionProbeModulo config,
     PB_Offset = RB_PredictionProbeOffset config, PB_Limit = RB_PredictionProbeLimit config,
     PB_StartFrame = RB_PredictionProbeStartFrame config,
     PB_EndFrame = (if RB_PredictionProbeEndFrame config \<noteq> kNoFrame
                    then Some (RB_PredictionProbeEndFrame config) else None),
     PB_KeyMask = RB_PredictionProbeKeyMask config,
     PB_RetainConfirmation = (0 < RB_PredictionProbeConfirmDelayFrames config)\<rparr>"

definition ResolveRemoteInputLocked :: "u32 \<Rightarrow> RollbackContext \<Rightarrow> (InputState \<times> bool) \<times> RollbackContext" where
  "ResolveRemoteInputLocked frame x =
     (let (resolved, p) = Resolve frame (TR_RemoteInputs (RX_Inputs x)) InputState_default
            (PredictionProbeOf (RX_Config x)) (TR_RollbackInputs (RX_Inputs x))
      in (resolved, x\<lparr>RX_Inputs := (RX_Inputs x)\<lparr>TR_RollbackInputs := p\<rparr>\<rparr>))"

text \<open>The loop takes one pending probe confirmation per iteration; there are finitely many.\<close>

function confirm_probes :: "u32 \<Rightarrow> u32 \<Rightarrow> TimelineRuntime \<Rightarrow> TimelineRuntime" where
  "confirm_probes dueFrame frame t =
     (case TakePredictionProbeConfirmationAtOrBefore dueFrame (TR_RollbackInputs t) of
        (None, p) \<Rightarrow> t\<lparr>TR_RollbackInputs := p\<rparr>
      | (Some (confirmationFrame, input), p) \<Rightarrow>
          confirm_probes dueFrame frame
            (snd (StoreRemote confirmationFrame input (Some frame) True kNoFrame (t\<lparr>TR_RollbackInputs := p\<rparr>))))"
  by pat_completeness auto

lemma Confirm_probe_confirmations:
  "fmdom (PR_ProbeConfirmations (snd (Confirm f i l p))) |\<subseteq>| fmdom (PR_ProbeConfirmations p)"
  by (auto simp: Confirm_def Let_def split: option.splits)

lemma Take_probe_confirmation:
  assumes "TakePredictionProbeConfirmationAtOrBefore f p = (Some (k, i), p')"
  shows "fmdom (PR_ProbeConfirmations p') |\<subset>| fmdom (PR_ProbeConfirmations p)"
proof -
  have "k |\<in>| fmdom (PR_ProbeConfirmations p)" "fmdom (PR_ProbeConfirmations p') = fmdom (PR_ProbeConfirmations p) |-| {|k|}"
    using assms by (auto simp: TakePredictionProbeConfirmationAtOrBefore_def fmdomI split: option.splits if_splits)
  then show ?thesis
    by auto
qed

lemma confirm_probe_decreases:
  assumes "(Some (k, i), p) = TakePredictionProbeConfirmationAtOrBefore due (TR_RollbackInputs t)"
  shows "fcard (fmdom (PR_ProbeConfirmations (snd (Confirm k i l p))))
    < fcard (fmdom (PR_ProbeConfirmations (TR_RollbackInputs t)))"
  using Confirm_probe_confirmations [of k i l p] Take_probe_confirmation [OF assms [symmetric]]
  by (intro pfsubset_fcard_mono) auto

termination confirm_probes
  by (relation "measure (\<lambda>(_, _, t). fcard (fmdom (PR_ProbeConfirmations (TR_RollbackInputs t))))")
    (auto intro: confirm_probe_decreases)

declare confirm_probes.simps [simp del]

definition ConfirmPredictionProbeLocked :: "u32 \<Rightarrow> RollbackContext \<Rightarrow> RollbackContext" where
  "ConfirmPredictionProbeLocked frame x =
     (let confirmationDelay = u32_of_int (RB_PredictionProbeConfirmDelayFrames (RX_Config x))
      in if confirmationDelay = 0 \<or> frame < confirmationDelay then x
         else x\<lparr>RX_Inputs := confirm_probes (frame - confirmationDelay) frame (RX_Inputs x)\<rparr>)"

definition PruneHistoryLocked :: "u32 \<Rightarrow> RollbackContext \<Rightarrow> RollbackContext" where
  "PruneHistoryLocked frame x =
     (let window = (if 0 < RB_Window (RX_Config x) then u32_of_int (RB_Window (RX_Config x)) else 0);
          t = RX_Inputs x
      in x\<lparr>RX_Store := Prune frame window (RX_Store x),
           RX_Inputs := t\<lparr>TR_RollbackInputs :=
             PredictionPrune frame window (TR_RemoteInputs t) (TR_RollbackInputs t)\<rparr>\<rparr>)"

section \<open>Saving a checkpoint\<close>

definition IsPreimageBackend :: "RollbackConfig \<Rightarrow> bool" where
  "IsPreimageBackend config \<longleftrightarrow> RB_Backend config = CorePreimage \<or> RB_Backend config = TinyCorePreimage"

definition core_backend :: "RollbackConfig \<Rightarrow> bool" where
  "core_backend config \<longleftrightarrow>
     RB_Backend config \<in> {CoreLite, CoreSparse, CoreDelta, CoreFrameDelta, CorePreimage}"

definition save_kind :: "RollbackConfig \<Rightarrow> u32 \<Rightarrow> u8 list option \<Rightarrow> SaveKind" where
  "save_kind config mainRAMMode deltaBaseMainRAM =
     (if RB_Backend config = TinyCorePreimage then TinyCoreState (u32_of_int (RB_TinyCoreFlags config))
      else if core_backend config
      then CoreState mainRAMMode deltaBaseMainRAM (u32_of_int (RB_MainRAMPageSize config))
             (u32_of_int (RB_CoreSkipMask config))
      else FullState)"

definition SaveCheckpointBuffer ::
  "'a Emulator \<Rightarrow> RollbackConfig \<Rightarrow> u32 \<Rightarrow> u8 list option \<Rightarrow> 'a \<Rightarrow> u8 list option" where
  "SaveCheckpointBuffer em config mainRAMMode deltaBaseMainRAM n =
     EM_Save em (save_kind config mainRAMMode deltaBaseMainRAM) n"

definition RestoreCheckpointBuffer ::
  "'a Emulator \<Rightarrow> RollbackConfig \<Rightarrow> u8 list \<Rightarrow> u8 list option \<Rightarrow> 'a \<Rightarrow> bool \<times> 'a" where
  "RestoreCheckpointBuffer em config buffer deltaBaseMainRAM n =
     EM_Load em (save_kind config kMainRAMModeFull deltaBaseMainRAM) buffer n"

definition delta_mode :: "RollbackConfig \<Rightarrow> DeltaMode" where
  "delta_mode config =
     (if IsPreimageBackend config then Preimage
      else if RB_Backend config = CoreFrameDelta then FrameDelta
      else if RB_Backend config = CoreDelta then KeyframeDelta
      else DeltaNone)"

definition PrepareDeltaSaveLocked :: "u32 \<Rightarrow> RollbackContext \<Rightarrow> StoredState \<times> u8 list" where
  "PrepareDeltaSaveLocked frame x =
     PrepareSave frame (delta_mode (RX_Config x))
       (if 0 < RB_DeltaKeyframeInterval (RX_Config x)
        then u32_of_int (RB_DeltaKeyframeInterval (RX_Config x)) else 0)
       (RX_NetplayStartFrame x) (RX_Store x)"

text \<open>The page loop. The configuration keeps the page size between 256 and 4096, so the offsets
  are those of whole pages and the loop ends.\<close>

definition page_offsets :: "nat \<Rightarrow> nat \<Rightarrow> nat list" where
  "page_offsets page len = map (\<lambda>k. k * page) [0..<(len + page - 1) div page]"

definition page_size :: "RollbackConfig \<Rightarrow> nat" where
  "page_size config = unat (u32_of_int (RB_MainRAMPageSize config))"

definition capture_page :: "nat \<Rightarrow> nat \<Rightarrow> u8 list \<Rightarrow> u8 list \<Rightarrow> StoredState \<Rightarrow> nat \<Rightarrow> StoredState" where
  "capture_page page len ram base checkpoint offset =
     (let pageBytes = min page (len - offset)
      in if copy_out offset pageBytes ram = copy_out offset pageBytes base then checkpoint
         else checkpoint\<lparr>
                SS_MainRAMPreimagePages := SS_MainRAMPreimagePages checkpoint @ [of_nat (offset div page)],
                SS_MainRAMPreimage := SS_MainRAMPreimage checkpoint @ copy_out offset pageBytes base\<rparr>)"

definition CaptureFramePreimage ::
  "RollbackConfig \<Rightarrow> StoredState \<Rightarrow> 'm NDS_scheme \<Rightarrow> u8 list \<Rightarrow> StoredState option" where
  "CaptureFramePreimage config checkpoint n baseMainRAM =
     (if \<not> SS_MainRAMFramePreimage checkpoint then Some checkpoint
      else if ND_MainRAM n = None \<or> length baseMainRAM \<noteq> ram_size n then None
      else Some (foldl (capture_page (page_size config) (ram_size n) (main_ram n) baseMainRAM) checkpoint
             (page_offsets (page_size config) (ram_size n))))"

definition main_ram_mode :: "RollbackConfig \<Rightarrow> StoredState \<Rightarrow> u32" where
  "main_ram_mode config checkpoint =
     (if IsPreimageBackend config then kMainRAMModeSkip
      else if SS_MainRAMDelta checkpoint then kMainRAMModeDelta
      else if RB_Backend config = CoreSparse then kMainRAMModeSparse
      else kMainRAMModeFull)"

definition RefreshFrameShadowLocked :: "u32 \<Rightarrow> 'm NDS_scheme \<Rightarrow> RollbackContext \<Rightarrow> RollbackContext" where
  "RefreshFrameShadowLocked frame n x =
     (if RB_Backend (RX_Config x) \<noteq> CoreFrameDelta \<and> \<not> IsPreimageBackend (RX_Config x)
         \<or> ND_MainRAM n = None
      then x
      else x\<lparr>RX_Store := UpdateFrameShadow frame (Some (take (ram_size n) (main_ram n))) (RX_Store x)\<rparr>)"

definition record_save :: "nat \<Rightarrow> u64 \<Rightarrow> RollbackContext \<Rightarrow> RollbackContext" where
  "record_save checkpointBytes us x =
     x\<lparr>RX_Statistics := RecordCheckpointSave (of_nat checkpointBytes) us (RX_Statistics x)\<rparr>"

text \<open>The part \<^verbatim>\<open>SaveCheckpointNowLocked\<close> and \<^verbatim>\<open>SaveCheckpointIfNeeded\<close> have in common.\<close>

definition store_checkpoint :: "'m NDS_scheme Emulator \<Rightarrow> RollbackClock \<Rightarrow> u32 \<Rightarrow> 'm NDS_scheme
    \<Rightarrow> RollbackContext \<Rightarrow> RollbackContext" where
  "store_checkpoint em clk frame n x =
     (let (checkpoint, base) = PrepareDeltaSaveLocked frame x; config = RX_Config x
      in if SS_MainRAMDelta checkpoint \<and> (ND_MainRAM n = None \<or> length base \<noteq> ram_size n) then x
         else
           case CaptureFramePreimage config checkpoint n base of
             None \<Rightarrow> x
           | Some checkpoint1 \<Rightarrow>
               (case SaveCheckpointBuffer em config (main_ram_mode config checkpoint1)
                       (if SS_MainRAMDelta checkpoint1 then Some base else None) n of
                  None \<Rightarrow> x
                | Some buffer \<Rightarrow>
                    let checkpoint2 = checkpoint1\<lparr>SS_Buffer := buffer\<rparr>;
                        checkpoint3 = (if RB_Backend config = CoreDelta \<and> \<not> SS_MainRAMDelta checkpoint2
                                         \<and> ND_MainRAM n \<noteq> None
                                       then checkpoint2\<lparr>SS_MainRAMCopy := take (ram_size n) (main_ram n)\<rparr>
                                       else checkpoint2);
                        (checkpointBytes, store) = Put frame checkpoint3 (RX_Store x)
                    in PruneHistoryLocked frame
                         (record_save checkpointBytes (KC_SaveUs clk frame)
                           (RefreshFrameShadowLocked frame n (x\<lparr>RX_Store := store\<rparr>)))))"

definition SaveCheckpointNowLocked :: "'m NDS_scheme Emulator \<Rightarrow> RollbackClock \<Rightarrow> u32 \<Rightarrow> bool \<Rightarrow> 'm NDS_scheme
    \<Rightarrow> RollbackContext \<Rightarrow> RollbackContext" where
  "SaveCheckpointNowLocked em clk frame force n x =
     (if RB_Window (RX_Config x) \<le> 0 then x
      else if \<not> force \<and> \<not> ShouldSaveCheckpoint frame (RB_CheckpointInterval (RX_Config x)) (RX_NetplayStartFrame x)
      then x
      else if RB_Backend (RX_Config x) = RomLoop then x
      else store_checkpoint em clk frame n x)"

definition SaveCheckpointIfNeeded :: "'m NDS_scheme Emulator \<Rightarrow> RollbackClock \<Rightarrow> int \<Rightarrow> u32
    \<Rightarrow> 'm NDS_scheme option \<Rightarrow> RollbackContext \<Rightarrow> 'm NDS_scheme option \<times> RollbackContext" where
  "SaveCheckpointIfNeeded em clk instanceID frame nds x =
     (case nds of
        None \<Rightarrow> (None, x)
      | Some n \<Rightarrow>
          if \<not> RB_Enabled (RX_Config x) \<or> \<not> IC_NetplayOnly (RX_Input x) \<or> instanceID < 0 \<or> 16 \<le> instanceID
             \<or> (RX_NetplayStartFrame x \<noteq> 0 \<and> frame < RX_NetplayStartFrame x) \<or> RB_Window (RX_Config x) \<le> 0
          then (Some n, x)
          else if RB_Backend (RX_Config x) = RomLoop
          then
            let n1 = SetNSMLGameRAMCheckpointFrame frame n; t = RX_Inputs x
            in if \<not> ShouldSaveCheckpoint frame (RB_CheckpointInterval (RX_Config x)) (RX_NetplayStartFrame x)
               then (Some n1, x)
               else (Some n1, x\<lparr>RX_Inputs := t\<lparr>TR_RollbackInputs :=
                       PredictionPrune frame (u32_of_int (RB_Window (RX_Config x))) (TR_RemoteInputs t)
                         (TR_RollbackInputs t)\<rparr>\<rparr>)
          else if \<not> ShouldSaveCheckpoint frame (RB_CheckpointInterval (RX_Config x)) (RX_NetplayStartFrame x)
          then (Some n, x)
          else (Some n, store_checkpoint em clk frame n x))"

section \<open>Restoring\<close>

definition InvalidateMainRAMJIT :: "'a Emulator \<Rightarrow> RollbackConfig \<Rightarrow> nat \<Rightarrow> 'a \<Rightarrow> 'a" where
  "InvalidateMainRAMJIT em config len n =
     (if RB_SkipJitReset config \<or> len = 0 then n
      else fold (\<lambda>offset. EM_CheckAndInvalidate em (kMainRAMBase + of_nat offset)) (page_offsets 0x1000 len) n)"

definition IsValidMainRAMRange :: "u32 \<Rightarrow> u32 \<Rightarrow> 'm NDS_scheme option \<Rightarrow> bool" where
  "IsValidMainRAMRange address len nds =
     (case nds of
        None \<Rightarrow> False
      | Some n \<Rightarrow>
          if ND_MainRAM n = None \<or> len = 0 \<or> address < kMainRAMBase then False
          else
            let offset = address - kMainRAMBase; ramLength = ND_MainRAMMask n + 1
            in offset < ramLength \<and> len \<le> ramLength - offset)"

definition ReadMainRAMAddressU32 :: "u32 \<Rightarrow> 'm NDS_scheme option \<Rightarrow> u32 option" where
  "ReadMainRAMAddressU32 address nds =
     (if \<not> IsValidMainRAMRange address 4 nds then None
      else map_option (\<lambda>n. rd32 (main_ram n) (unat (address - kMainRAMBase))) nds)"

fun restore_deltas :: "'m NDS_scheme Emulator \<Rightarrow> RollbackConfig \<Rightarrow> StoredState list \<Rightarrow> 'm NDS_scheme
    \<Rightarrow> bool \<times> 'm NDS_scheme" where
  "restore_deltas em config [] n = (True, n)"
| "restore_deltas em config (st # chain) n =
     (if \<not> SS_MainRAMDelta st then (False, n)
      else
        let (ok, n1) = RestoreCheckpointBuffer em config (SS_Buffer st) (ND_MainRAM n) n
        in if ok then restore_deltas em config chain n1 else (False, n1))"

fun RestoreStoredStates :: "'m NDS_scheme Emulator \<Rightarrow> RollbackConfig \<Rightarrow> StoredState list \<Rightarrow> 'm NDS_scheme
    \<Rightarrow> bool \<times> 'm NDS_scheme" where
  "RestoreStoredStates em config [] n = (False, n)"
| "RestoreStoredStates em config (st # chain) n =
     (if SS_MainRAMDelta st then (False, n)
      else
        let (ok, n1) = RestoreCheckpointBuffer em config (SS_Buffer st) None n
        in if ok then restore_deltas em config chain n1 else (False, n1))"

text \<open>Copying the pages of one preimage back; the bytes not yet used are \<open>rest\<close>. A failure leaves the
  pages copied so far.\<close>

fun apply_pages :: "nat \<Rightarrow> nat \<Rightarrow> u32 list \<Rightarrow> u8 list \<Rightarrow> u8 list \<Rightarrow> bool \<times> u8 list" where
  "apply_pages page len [] rest ram = (rest = [], ram)"
| "apply_pages page len (p # ps) rest ram =
     (let offset = unat (p * of_nat page)
      in if len \<le> offset then (False, ram)
         else
           let pageBytes = min page (len - offset)
           in if length rest < pageBytes then (False, ram)
              else apply_pages page len ps (drop pageBytes rest) (copy_in offset (take pageBytes rest) ram))"

fun apply_preimages :: "nat \<Rightarrow> nat \<Rightarrow> StoredState list \<Rightarrow> u8 list \<Rightarrow> bool \<times> u8 list" where
  "apply_preimages page len [] ram = (True, ram)"
| "apply_preimages page len (st # sts) ram =
     (let (ok, ram1) = apply_pages page len (SS_MainRAMPreimagePages st) (SS_MainRAMPreimage st) ram
      in if ok then apply_preimages page len sts ram1 else (False, ram1))"

definition RestorePreimageState :: "'m NDS_scheme Emulator \<Rightarrow> RollbackConfig \<Rightarrow> StoredState \<Rightarrow> StoredState list
    \<Rightarrow> u8 list \<Rightarrow> 'm NDS_scheme \<Rightarrow> bool \<times> 'm NDS_scheme" where
  "RestorePreimageState em config checkpoint reverseStates latestMainRAM n =
     (if ND_MainRAM n = None \<or> length latestMainRAM \<noteq> ram_size n then (False, n)
      else
        let len = ram_size n;
            (ok, ram) = apply_preimages (page_size config) len reverseStates
                          (copy_in 0 latestMainRAM (main_ram n));
            n1 = n\<lparr>ND_MainRAM := Some ram\<rparr>
        in if \<not> ok then (False, n1)
           else
             let (restored, n2) = RestoreCheckpointBuffer em config (SS_Buffer checkpoint) None n1
             in if \<not> restored then (False, n2) else (True, InvalidateMainRAMJIT em config len n2))"

text \<open>What a rollback needs: the chain, or the states to undo and the latest memory.\<close>

datatype restore_source = DeltaChain "StoredState list" | PreimageStates "StoredState list" "u8 list"

definition restore_source_for :: "u32 \<Rightarrow> RollbackContext \<Rightarrow> restore_source option" where
  "restore_source_for restoreFrame x =
     (if IsPreimageBackend (RX_Config x)
      then (case BuildPreimageRestore restoreFrame (RX_Store x) of
              (ok, reverseStates, latestMainRAM) \<Rightarrow>
                if ok then Some (PreimageStates reverseStates latestMainRAM) else None)
      else (case BuildRestoreChain restoreFrame (RX_Store x) of
              (ok, chain) \<Rightarrow> if ok then Some (DeltaChain chain) else None))"

definition restore_machine :: "'m NDS_scheme Emulator \<Rightarrow> RollbackConfig \<Rightarrow> StoredState \<Rightarrow> restore_source
    \<Rightarrow> 'm NDS_scheme \<Rightarrow> bool \<times> 'm NDS_scheme" where
  "restore_machine em config checkpoint source n =
     (case source of
        PreimageStates reverseStates latestMainRAM \<Rightarrow>
          RestorePreimageState em config checkpoint reverseStates latestMainRAM n
      | DeltaChain chain \<Rightarrow> RestoreStoredStates em config chain n)"

definition clear_pending :: "(PredictionRuntime \<Rightarrow> PredictionRuntime) \<Rightarrow> RollbackContext \<Rightarrow> RollbackContext" where
  "clear_pending f x = x\<lparr>RX_Inputs := (RX_Inputs x)\<lparr>TR_RollbackInputs := f (TR_RollbackInputs (RX_Inputs x))\<rparr>\<rparr>"

abbreviation pending_rollback :: "RollbackContext \<Rightarrow> u32 option" where
  "pending_rollback x \<equiv> PR_PendingRollbackFrame (TR_RollbackInputs (RX_Inputs x))"

definition RestoreCheckpointForProbeIfNeeded :: "'m NDS_scheme Emulator \<Rightarrow> RollbackClock \<Rightarrow> int \<Rightarrow> u32
    \<Rightarrow> 'm NDS_scheme option \<Rightarrow> RollbackContext \<Rightarrow> bool \<times> 'm NDS_scheme option \<times> RollbackContext" where
  "RestoreCheckpointForProbeIfNeeded em clk instanceID frame nds x =
     (case nds of
        None \<Rightarrow> (False, None, x)
      | Some n \<Rightarrow>
          if \<not> RB_Enabled (RX_Config x) \<or> \<not> RB_RestoreProbe (RX_Config x) \<or> \<not> IC_NetplayOnly (RX_Input x)
             \<or> instanceID < 0 \<or> 16 \<le> instanceID \<or> RB_Backend (RX_Config x) = RomLoop
          then (False, Some n, x)
          else
            case pending_rollback x of
              None \<Rightarrow> (False, Some n, x)
            | Some restoreFrame \<Rightarrow>
                let x1 = clear_pending ClearPendingRollbackFrame x
                in case Copy restoreFrame (RX_Store x) of
                     None \<Rightarrow> (False, Some n, x1)
                   | Some checkpoint \<Rightarrow>
                       (case restore_source_for restoreFrame x of
                          None \<Rightarrow> (False, Some n, x1)
                        | Some source \<Rightarrow>
                            let (restored, n1) = restore_machine em (RX_Config x) checkpoint source n;
                                x2 = RefreshFrameShadowLocked restoreFrame n1 x1
                            in if \<not> restored then (False, Some n1, x1)
                               else (True, Some n1, x2\<lparr>RX_Statistics := RecordProbeRestore
                                      (RecordCheckpointRestore (KC_RestoreUs clk) (RX_Statistics x2))\<rparr>)))"

section \<open>Planning a correction\<close>

text \<open>The first locked part of \<^verbatim>\<open>ResimulateIfNeeded\<close>: which frame to restore and from what. The
  ROM-loop backend takes its checkpoint from the ring of the machine and has no restore source.\<close>

datatype resim_plan =
    PlanExit int
  | PlanStop
  | PlanRestore u32 StoredState restore_source

definition rom_loop :: "RollbackConfig \<Rightarrow> bool" where
  "rom_loop config \<longleftrightarrow> RB_Backend config = RomLoop"

definition max_resim_frames :: "RollbackConfig \<Rightarrow> int" where
  "max_resim_frames config =
     (if rom_loop config then uint (MaxRollbackDepthForHistory kRomLoopHistoryCapacity)
      else RB_MaxResimFrames config)"

text \<open>The mismatch frame after the cap; \<open>None\<close> is \<^verbatim>\<open>std::_Exit(74)\<close>.\<close>

definition planned_mismatch :: "RollbackConfig \<Rightarrow> u32 \<Rightarrow> u32 \<Rightarrow> u32 option" where
  "planned_mismatch config mismatchFrame frame =
     (if rom_loop config \<and> 0 < RB_PredictionHorizonFrames config
      then if u32_of_int (RB_PredictionHorizonFrames config) < frame - mismatchFrame then None
           else Some mismatchFrame
      else Some (ClampResimulationMismatch mismatchFrame frame (max_resim_frames config)))"

definition resim_checkpoint :: "u32 \<Rightarrow> 'm NDS_scheme \<Rightarrow> RollbackContext \<Rightarrow> (u32 \<times> StoredState) option" where
  "resim_checkpoint mismatchFrame n x =
     (if rom_loop (RX_Config x)
      then map_option (\<lambda>(restoreFrame, gameFrame, ram).
             (restoreFrame, StoredState_default\<lparr>SS_GameFrame := gameFrame, SS_MainRAMCopy := ram\<rparr>))
             (CopyNSMLGameRAMCheckpointAtOrBefore mismatchFrame n)
      else LatestAtOrBefore mismatchFrame (RX_Store x))"

definition resim_source :: "u32 \<Rightarrow> StoredState \<Rightarrow> RollbackContext \<Rightarrow> restore_source option" where
  "resim_source restoreFrame checkpoint x =
     (if rom_loop (RX_Config x)
      then if length (SS_MainRAMCopy checkpoint) = 0x400000 then Some (DeltaChain []) else None
      else restore_source_for restoreFrame x)"

definition plan_correction :: "u32 \<Rightarrow> 'm NDS_scheme \<Rightarrow> RollbackContext \<Rightarrow> resim_plan \<times> RollbackContext" where
  "plan_correction frame n x0 =
     (let x = ConfirmPredictionProbeLocked frame x0; cleared = clear_pending ClearPendingRollback x
      in case pending_rollback x of
           None \<Rightarrow> (PlanStop, x)
         | Some pendingFrame \<Rightarrow>
             if pendingFrame = frame then (PlanStop, cleared)
             else if frame \<le> pendingFrame then (PlanStop, x)
             else
               case planned_mismatch (RX_Config x) pendingFrame frame of
                 None \<Rightarrow> (PlanExit 74, x)
               | Some mismatchFrame \<Rightarrow>
                   if \<not> IsResimulationDelayElapsed frame
                         (PR_PendingRollbackObservedFrame (TR_RollbackInputs (RX_Inputs x)))
                         (RB_ResimulateDelayFrames (RX_Config x))
                   then (PlanStop, x)
                   else
                     case resim_checkpoint mismatchFrame n x of
                       None \<Rightarrow> (PlanStop, cleared)
                     | Some (restoreFrame, checkpoint) \<Rightarrow>
                         (case resim_source restoreFrame checkpoint x of
                            None \<Rightarrow> (PlanStop, cleared)
                          | Some source \<Rightarrow>
                              (PlanRestore restoreFrame checkpoint source,
                               if rom_loop (RX_Config x) then cleared
                               else cleared\<lparr>RX_Store := EraseAfter restoreFrame (RX_Store cleared)\<rparr>)))"

section \<open>Arming the replay inside the game\<close>

record ReplayInput =
  RY_Tick :: u16
  RY_Keys0 :: u16
  RY_Keys1 :: u16
  RY_Player0Metadata :: u32
  RY_Player1Metadata :: u32

definition replay_probe :: "RollbackConfig \<Rightarrow> PredictionProbe" where
  "replay_probe config = (PredictionProbeOf config)\<lparr>PB_RetainConfirmation := False\<rparr>"

fun resolve_frames :: "PredictionProbe \<Rightarrow> int \<Rightarrow> u32 list \<Rightarrow> TimelineRuntime
    \<Rightarrow> (u32 \<times> ReplayFrameInputs) list option \<times> TimelineRuntime" where
  "resolve_frames probe localPlayer [] t = (Some [], t)"
| "resolve_frames probe localPlayer (replayFrame # fs) t =
     (case ResolveReplayFrameInputs replayFrame localPlayer InputState_default probe t of
        (None, t1) \<Rightarrow> (None, t1)
      | (Some resolved, t1) \<Rightarrow>
          (case resolve_frames probe localPlayer fs t1 of
             (None, t2) \<Rightarrow> (None, t2)
           | (Some rest, t2) \<Rightarrow> (Some ((replayFrame, resolved) # rest), t2)))"

definition read_replay_input :: "'m NDS_scheme \<Rightarrow> ReplayInput" where
  "read_replay_input n =
     \<lparr>RY_Tick = ARM9Read16 kPacketBridgeScratchTickAddress n,
      RY_Keys0 = ARM9Read16 kPacketBridgeScratchKeysAddress n,
      RY_Keys1 = ARM9Read16 (kPacketBridgeScratchKeysAddress + 2) n,
      RY_Player0Metadata = ARM9Read32 (kPacketBridgeScratchPacketsAddress + 4) n,
      RY_Player1Metadata = ARM9Read32 (kPacketBridgeScratchPacketsAddress + 0x40 + 4) n\<rparr>"

fun collect_replay :: "'m NDS_scheme ResimulationHooks \<Rightarrow> int \<Rightarrow> int \<Rightarrow> (u32 \<times> ReplayFrameInputs) list
    \<Rightarrow> 'm NDS_scheme \<Rightarrow> ReplayInput list \<times> 'm NDS_scheme" where
  "collect_replay hooks instanceID localPlayer [] n = ([], n)"
| "collect_replay hooks instanceID localPlayer ((replayFrame, inputs) # rest) n =
     (let n1 = HK_WritePacketBridgeInputs hooks instanceID replayFrame localPlayer (RF_Local inputs)
                 (RF_Remote inputs) True (RF_RemotePredicted inputs) n;
          (rs, n2) = collect_replay hooks instanceID localPlayer rest n1
      in (read_replay_input n1 # rs, n2))"

definition write_history_entry :: "u32 \<Rightarrow> ReplayInput \<Rightarrow> 'm NDS_scheme \<Rightarrow> 'm NDS_scheme" where
  "write_history_entry index r n =
     (let entryAddress = kRomLoopHistoryAddress + index * kRomLoopHistoryEntrySize
      in ARM9Write32 (entryAddress + 12) (RY_Player1Metadata r)
          (ARM9Write32 (entryAddress + 8) (RY_Player0Metadata r)
           (ARM9Write16 (entryAddress + 6) 0
            (ARM9Write16 (entryAddress + 4) (RY_Keys1 r)
             (ARM9Write16 (entryAddress + 2) (RY_Keys0 r)
              (ARM9Write16 entryAddress (RY_Tick r) n))))))"

fun write_history :: "u32 \<Rightarrow> ReplayInput list \<Rightarrow> 'm NDS_scheme \<Rightarrow> 'm NDS_scheme" where
  "write_history index [] n = n"
| "write_history index (r # rs) n = write_history (index + 1) rs (write_history_entry index r n)"

definition replay_frames :: "u32 \<Rightarrow> u32 \<Rightarrow> u32 list" where
  "replay_frames restoreFrame transactionFrames = map (\<lambda>index. restoreFrame + of_nat index) [0..<unat transactionFrames]"

definition write_transaction :: "u32 \<Rightarrow> u32 \<Rightarrow> ReplayInput list \<Rightarrow> 'm NDS_scheme \<Rightarrow> 'm NDS_scheme" where
  "write_transaction transactionFrames gameFrame rs n =
     ARM9Write32 0x02001AC0 0 (ARM9Write32 0x02001AC4 0 (ARM9Write32 historyEnabledAddr 1
       (write_history 0 rs
         (ARM9Write32 historyStartFrameAddr gameFrame (ARM9Write32 historyTargetAddr 1
           (ARM9Write32 historyCountAddr transactionFrames (ARM9Write32 historyIndexAddr 0 n)))))))"

definition arm_correction :: "'m NDS_scheme ResimulationHooks \<Rightarrow> int \<Rightarrow> u32 \<Rightarrow> u32 \<Rightarrow> StoredState
    \<Rightarrow> 'm NDS_scheme \<Rightarrow> RollbackContext \<Rightarrow> bool \<times> 'm NDS_scheme \<times> RollbackContext" where
  "arm_correction hooks instanceID frame restoreFrame checkpoint n x =
     (let transactionFrames = RequiredHistoryCount restoreFrame frame;
          localPlayer = HK_CurrentLocalPlayer hooks
      in if transactionFrames = 0 \<or> kRomLoopHistoryCapacity < transactionFrames
            \<or> SS_GameFrame checkpoint = kNoFrame \<or> ARM9Read32 kRomLoopMagicAddress n \<noteq> kRomLoopMagic
         then (False, n, x)
         else
           case resolve_frames (replay_probe (RX_Config x)) localPlayer
                  (replay_frames restoreFrame transactionFrames) (RX_Inputs x) of
             (None, t) \<Rightarrow> (False, n, x\<lparr>RX_Inputs := t\<rparr>)
           | (Some resolvedInputs, t) \<Rightarrow>
               let x1 = x\<lparr>RX_Inputs := t\<rparr>;
                   (replayInputs, n1) = collect_replay hooks instanceID localPlayer resolvedInputs n;
                   (scheduled, n2) = ScheduleNSMLGameRAMRestore (SS_MainRAMCopy checkpoint) restoreFrame n1
               in if \<not> scheduled then (False, n2, x1)
                  else (True, write_transaction transactionFrames (SS_GameFrame checkpoint) replayInputs
                                (snd (DiscardNSMLGameRAMCheckpointsAfter restoreFrame n2)), x1))"

section \<open>Resimulation\<close>

record resim_totals =
  RM_Frames :: u32
  RM_RunTotalUs :: u64
  RM_RunMaxUs :: u64
  RM_SaveTotalUs :: u64
  RM_SaveMaxUs :: u64

definition resim_totals_init :: resim_totals where
  "resim_totals_init = \<lparr>RM_Frames = 0, RM_RunTotalUs = 0, RM_RunMaxUs = 0, RM_SaveTotalUs = 0, RM_SaveMaxUs = 0\<rparr>"

text \<open>One frame of the machine: patches, bridge inputs, controller, the frame itself without output.\<close>

definition apply_input :: "'a Emulator \<Rightarrow> InputState \<Rightarrow> 'a \<Rightarrow> 'a" where
  "apply_input em input n =
     (let n1 = EM_SetKeyMask em (KeyMask input) n
      in if Touching input then EM_TouchScreen em (TouchX input) (TouchY input) n1 else EM_ReleaseScreen em n1)"

definition run_replay_frame :: "'a Emulator \<Rightarrow> bool \<Rightarrow> 'a \<Rightarrow> 'a" where
  "run_replay_frame em skipRender n =
     (let n1 = (if skipRender then EM_SetRollbackSkipRender em True n else n);
          n2 = EM_SetRollbackSkipOutput em False (EM_RunFrame em (EM_SetRollbackSkipOutput em True n1))
      in if skipRender then EM_SetRollbackSkipRender em False n2 else n2)"

definition replay_frame :: "'a Emulator \<Rightarrow> 'a ResimulationHooks \<Rightarrow> RollbackConfig \<Rightarrow> int \<Rightarrow> int \<Rightarrow> u32
    \<Rightarrow> ReplayFrameInputs \<Rightarrow> 'a \<Rightarrow> 'a" where
  "replay_frame em hooks config instanceID localPlayer resimFrame inputs n =
     HK_ApplyPostFramePatches hooks (resimFrame + 1)
       (run_replay_frame em (RB_SkipRenderDuringResim config)
         (apply_input em (HK_PrepareRuntimeInput hooks (RF_Local inputs))
           (HK_WritePacketBridgeInputs hooks instanceID resimFrame localPlayer (RF_Local inputs)
             (RF_Remote inputs) True (RF_RemotePredicted inputs)
             (HK_ApplyFramePatches hooks instanceID resimFrame n))))"

definition count_frame :: "u64 \<Rightarrow> resim_totals \<Rightarrow> resim_totals" where
  "count_frame us r = r\<lparr>RM_Frames := RM_Frames r + 1, RM_RunTotalUs := RM_RunTotalUs r + us,
     RM_RunMaxUs := max (RM_RunMaxUs r) us\<rparr>"

definition count_save :: "u64 \<Rightarrow> resim_totals \<Rightarrow> resim_totals" where
  "count_save us r = r\<lparr>RM_SaveTotalUs := RM_SaveTotalUs r + us, RM_SaveMaxUs := max (RM_SaveMaxUs r) us\<rparr>"

function resim_loop :: "'m NDS_scheme Emulator \<Rightarrow> 'm NDS_scheme ResimulationHooks \<Rightarrow> RollbackClock \<Rightarrow> int \<Rightarrow> int
    \<Rightarrow> u32 \<Rightarrow> u32 \<Rightarrow> 'm NDS_scheme \<Rightarrow> RollbackContext \<Rightarrow> resim_totals
    \<Rightarrow> bool \<times> 'm NDS_scheme \<times> RollbackContext \<times> resim_totals" where
  "resim_loop em hooks clk instanceID localPlayer frame resimFrame n x r =
     (if \<not> resimFrame < frame then (True, n, x, r)
      else
        case ResolveReplayFrameInputs resimFrame localPlayer InputState_default
               (replay_probe (RX_Config x)) (RX_Inputs x) of
          (None, t) \<Rightarrow> (False, n, x\<lparr>RX_Inputs := t\<rparr>, r)
        | (Some inputs, t) \<Rightarrow>
            let x1 = x\<lparr>RX_Inputs := t\<rparr>;
                n1 = replay_frame em hooks (RX_Config x) instanceID localPlayer resimFrame inputs n;
                r1 = count_frame (KC_RunFrameUs clk resimFrame) r
            in if ShouldSaveResimulationCheckpoint (resimFrame + 1) frame
                    (RB_SkipIntermediateResimCheckpoints (RX_Config x))
               then resim_loop em hooks clk instanceID localPlayer frame (resimFrame + 1) n1
                      (SaveCheckpointNowLocked em clk (resimFrame + 1) False n1 x1)
                      (count_save (KC_CheckpointSaveUs clk (resimFrame + 1)) r1)
               else resim_loop em hooks clk instanceID localPlayer frame (resimFrame + 1) n1 x1 r1)"
  by pat_completeness auto

lemma u32_loop_decreases: "(f :: u32) < frame \<Longrightarrow> unat frame - unat (f + 1) < unat frame - unat f"
  by (subst unat_Suc_u32) (auto simp: word_less_nat_alt u32_less_imp_not_max)

termination resim_loop
  by (relation "measure (\<lambda>(em, hooks, clk, i, l, frame, f, n, x, r). unat frame - unat f)")
    (auto intro: u32_loop_decreases)

declare resim_loop.simps [simp del]

datatype resim_outcome = Returned bool | Exited int

definition resimulate :: "'m NDS_scheme Emulator \<Rightarrow> 'm NDS_scheme ResimulationHooks \<Rightarrow> RollbackClock \<Rightarrow> int \<Rightarrow> u32
    \<Rightarrow> u32 \<Rightarrow> StoredState \<Rightarrow> restore_source \<Rightarrow> 'm NDS_scheme \<Rightarrow> RollbackContext
    \<Rightarrow> bool \<times> 'm NDS_scheme \<times> RollbackContext" where
  "resimulate em hooks clk instanceID frame restoreFrame checkpoint source n x =
     (let (restored, n1) = restore_machine em (RX_Config x) checkpoint source n
      in if \<not> restored then (False, n1, x)
         else
           let (completed, n2, x1, r) = resim_loop em hooks clk instanceID (HK_CurrentLocalPlayer hooks) frame
                  restoreFrame n1 (RefreshFrameShadowLocked restoreFrame n1 x) resim_totals_init
           in if \<not> completed then (False, n2, x1)
              else
                let x2 = RefreshFrameShadowLocked frame n2 x1
                in (True, n2, x2\<lparr>RX_Statistics :=
                      RecordResimulation (RM_Frames r) (RM_RunTotalUs r) (RM_RunMaxUs r) (RM_SaveTotalUs r)
                        (RM_SaveMaxUs r) (KC_TotalUs clk)
                        (RecordCheckpointRestore (KC_RestoreUs clk) (RX_Statistics x2))\<rparr>))"

definition ResimulateIfNeeded :: "'m NDS_scheme Emulator \<Rightarrow> 'm NDS_scheme ResimulationHooks \<Rightarrow> RollbackClock
    \<Rightarrow> int \<Rightarrow> u32 \<Rightarrow> 'm NDS_scheme option \<Rightarrow> RollbackContext
    \<Rightarrow> resim_outcome \<times> 'm NDS_scheme option \<times> RollbackContext" where
  "ResimulateIfNeeded em hooks clk instanceID frame nds x =
     (case nds of
        None \<Rightarrow> (Returned False, None, x)
      | Some n \<Rightarrow>
          if \<not> RB_Enabled (RX_Config x) \<or> \<not> RB_Resimulate (RX_Config x) \<or> \<not> IC_NetplayOnly (RX_Input x)
             \<or> instanceID < 0 \<or> 16 \<le> instanceID
          then (Returned False, Some n, x)
          else if rom_loop (RX_Config x) \<and> IsNSMLGameRAMRollbackTransactionInFlight n
          then (Returned False, Some n, ConfirmPredictionProbeLocked frame x)
          else
            case plan_correction frame n x of
              (PlanExit code, x1) \<Rightarrow> (Exited code, Some n, x1)
            | (PlanStop, x1) \<Rightarrow> (Returned False, Some n, x1)
            | (PlanRestore restoreFrame checkpoint source, x1) \<Rightarrow>
                let (corrected, n1, x2) =
                      (if rom_loop (RX_Config x)
                       then arm_correction hooks instanceID frame restoreFrame checkpoint n x1
                       else resimulate em hooks clk instanceID frame restoreFrame checkpoint source n x1)
                in (Returned corrected, Some n1, x2))"

end
