(* ===== verification/Live_Packets.thy ===== *)
theory Live_Packets
  imports Rollback_Runtime
begin

text \<open>
  The packet store between the frontend and the patched game, in \<^verbatim>\<open>ARM.cpp\<close>: the packets of both
  players by game tick, the capture of the local packet, the lookup with its two fallbacks and the
  packet built from the game's own send buffer. The environment variables the code reads once are
  the record \<open>LiveEnv\<close>. The maps by machine hold one machine here.
\<close>

section \<open>Bytes on the bus\<close>

definition ARM9Read8 :: "u32 \<Rightarrow> 'm NDS_scheme \<Rightarrow> u8" where
  "ARM9Read8 addr n = rd8 (main_ram n) (unat (addr AND ND_MainRAMMask n))"

definition ARM9Write8 :: "u32 \<Rightarrow> u8 \<Rightarrow> 'm NDS_scheme \<Rightarrow> 'm NDS_scheme" where
  "ARM9Write8 addr val n = n\<lparr>ND_MainRAM :=
     map_option (copy_in (unat (addr AND ND_MainRAMMask n)) [val]) (ND_MainRAM n)\<rparr>"

fun write_bytes :: "u32 \<Rightarrow> u8 list \<Rightarrow> 'm NDS_scheme \<Rightarrow> 'm NDS_scheme" where
  "write_bytes addr [] n = n"
| "write_bytes addr (b # bs) n = write_bytes (addr + 1) bs (ARM9Write8 addr b n)"

section \<open>Data\<close>

record LiveEnv =
  LE_BridgeEnabled :: bool
  LE_DeferUntilStart :: bool
  LE_StartFrame :: u32
  LE_AllowPreGame :: bool
  LE_LatestBefore :: bool
  LE_FallbackWindow :: u32
  LE_NormalizeTick :: bool
  LE_LocalPlayer :: u32

record NSMLPacketReplayEntry =
  PE_Valid :: "bool list"
  PE_Packet :: "u8 list list"

definition NSMLPacketReplayEntry_default :: NSMLPacketReplayEntry where
  "NSMLPacketReplayEntry_default = \<lparr>PE_Valid = [False, False], PE_Packet = [replicate 52 0, replicate 52 0]\<rparr>"

record NSMLLocalPacketCapture =
  LP_Available :: bool
  LP_Tick :: u32
  LP_Keys :: u32
  LP_Frame :: u32
  LP_Packet :: "u8 list"

type_synonym live_packets = "NSMLPacketReplayEntry frame_map"

section \<open>The game context\<close>

definition IsNSMLMarioVsLuigiGGID :: "u32 \<Rightarrow> bool" where
  "IsNSMLMarioVsLuigiGGID v \<longleftrightarrow> v = 0x42 \<or> v = 0x00400150"

definition IsNSMLMarioVsLuigiGameplay :: "'m NDS_scheme \<Rightarrow> bool" where
  "IsNSMLMarioVsLuigiGameplay n \<longleftrightarrow> ARM9Read32 0x02085A18 n = 9 \<and> ARM9Read32 0x02085A84 n = 1"

definition NSMLPacketBridgeActiveForFrame :: "LiveEnv \<Rightarrow> 'm NDS_scheme \<Rightarrow> bool" where
  "NSMLPacketBridgeActiveForFrame e n \<longleftrightarrow>
     LE_BridgeEnabled e \<and> (\<not> LE_DeferUntilStart e \<or> LE_StartFrame e \<le> ND_NumFrames n)"

definition IsNSMLMarioVsLuigiPacketContext :: "LiveEnv \<Rightarrow> 'm NDS_scheme \<Rightarrow> bool" where
  "IsNSMLMarioVsLuigiPacketContext e n =
     (if LE_BridgeEnabled e \<and> \<not> NSMLPacketBridgeActiveForFrame e n then False
      else if IsNSMLMarioVsLuigiGameplay n then True
      else LE_AllowPreGame e \<and> IsNSMLMarioVsLuigiGGID (ARM9Read32 0x02088858 n))"

section \<open>The store\<close>

definition NSML_PushMarioVsLuigiRemotePacket :: "u32 \<Rightarrow> u8 list \<Rightarrow> live_packets \<Rightarrow> live_packets" where
  "NSML_PushMarioVsLuigiRemotePacket player packet packets =
     (if 1 < player then packets
      else
        let tick = ucast (packet ! 0) OR push_bit 8 (ucast (packet ! 1)) :: u32;
            entry = (case fmlookup packets tick of None \<Rightarrow> NSMLPacketReplayEntry_default | Some e \<Rightarrow> e);
            entry1 = entry\<lparr>PE_Packet := (PE_Packet entry)[unat player := take 52 packet],
                           PE_Valid := (PE_Valid entry)[unat player := True]\<rparr>;
            packets1 = fmupd tick entry1 packets;
            keepFrom = (if 256 < tick then tick - 256 else 0)
        in if 512 < fm_size packets1 then fmfilter (\<lambda>k. \<not> k < keepFrom) packets1 else packets1)"

definition NSML_HasMarioVsLuigiRemotePacket :: "u32 \<Rightarrow> u32 \<Rightarrow> live_packets \<Rightarrow> bool" where
  "NSML_HasMarioVsLuigiRemotePacket player tick packets =
     (if 1 < player then False
      else case fmlookup packets (tick AND 0xFFFF) of
             None \<Rightarrow> False
           | Some e \<Rightarrow> PE_Valid e ! unat player)"

definition packet_at :: "u32 \<Rightarrow> u32 \<Rightarrow> live_packets \<Rightarrow> u8 list option" where
  "packet_at player tick packets =
     (case fmlookup packets tick of
        None \<Rightarrow> None
      | Some e \<Rightarrow> if PE_Valid e ! unat player then Some (PE_Packet e ! unat player) else None)"

text \<open>The scan for the latest earlier packet, over the ticks in the order of the map: the best age
  and packet so far. \<open>window\<close> is the limit on the age, when there is one.\<close>

fun latest_before :: "u32 \<Rightarrow> u32 \<Rightarrow> u32 option \<Rightarrow> live_packets \<Rightarrow> u32 list \<Rightarrow> u32 \<times> u8 list option \<Rightarrow> u32 \<times> u8 list option" where
  "latest_before player tick window packets [] best = best"
| "latest_before player tick window packets (packetTick # ts) (bestAge, best) =
     (case packet_at player packetTick packets of
        None \<Rightarrow> latest_before player tick window packets ts (bestAge, best)
      | Some packet \<Rightarrow>
          let age = (tick - packetTick) AND 0xFFFF
          in if age = 0 \<or> 0x7FFF < age \<or> bestAge \<le> age
                \<or> (case window of None \<Rightarrow> False | Some w \<Rightarrow> w < age)
             then latest_before player tick window packets ts (bestAge, best)
             else latest_before player tick window packets ts (age, Some packet))"

definition find_latest_before :: "u32 \<Rightarrow> u32 \<Rightarrow> u32 option \<Rightarrow> live_packets \<Rightarrow> u8 list option" where
  "find_latest_before player tick window packets =
     snd (latest_before player tick window packets (fm_keys packets) (0x8000, None))"

text \<open>The loop over the ages \<open>1\<close> to \<open>window\<close>.\<close>

fun find_by_age :: "u32 \<Rightarrow> u32 \<Rightarrow> live_packets \<Rightarrow> nat list \<Rightarrow> u8 list option" where
  "find_by_age player tick packets [] = None"
| "find_by_age player tick packets (age # ages) =
     (case packet_at player ((tick - of_nat age) AND 0xFFFF) packets of
        Some packet \<Rightarrow> Some packet
      | None \<Rightarrow> find_by_age player tick packets ages)"

definition NSMLFindLiveReplayPacketLocked :: "LiveEnv \<Rightarrow> u32 \<Rightarrow> u32 \<Rightarrow> u32 \<Rightarrow> live_packets \<Rightarrow> u8 list option" where
  "NSMLFindLiveReplayPacketLocked e player tick fallbackWindow packets =
     (if 1 < player then None
      else case packet_at player tick packets of
             Some packet \<Rightarrow> Some packet
           | None \<Rightarrow>
               if fallbackWindow = 0
               then if LE_LatestBefore e then find_latest_before player tick None packets else None
               else
                 case (if LE_LatestBefore e then find_latest_before player tick (Some fallbackWindow) packets else None) of
                   Some packet \<Rightarrow> Some packet
                 | None \<Rightarrow> find_by_age player tick packets [1..<Suc (unat (min fallbackWindow 4096))])"

section \<open>Packets of the game\<close>

definition NSMLPacketBridgeCanonicalTick :: "'m NDS_scheme \<Rightarrow> u32" where
  "NSMLPacketBridgeCanonicalTick n = ucast (ARM9Read16 0x020888E0 n)"

definition BuildNSMLMarioVsLuigiPacket :: "'m NDS_scheme \<Rightarrow> u8 list \<times> u32 \<times> u32" where
  "BuildNSMLMarioVsLuigiPacket n =
     (let tick = NSMLPacketBridgeCanonicalTick n;
          keys = ucast (ARM9Read16 0x020888E2 n) :: u32;
          packet = [ucast tick, ucast (drop_bit 8 tick), ucast keys, ucast (drop_bit 8 keys)]
            @ map (\<lambda>i. ARM9Read8 (0x020888E4 + of_nat i) n) [0..<4]
            @ map (\<lambda>i. ARM9Read8 (0x020888E8 + of_nat i) n) [0..<44]
      in (packet[0x29 := ARM9Read8 0x02088A4C n], tick, keys))"

definition NSML_TakeMarioVsLuigiLocalPacket ::
  "NSMLLocalPacketCapture option \<Rightarrow> (u8 list \<times> u32 \<times> u32) option \<times> NSMLLocalPacketCapture option" where
  "NSML_TakeMarioVsLuigiLocalPacket capture =
     (case capture of
        None \<Rightarrow> (None, None)
      | Some c \<Rightarrow>
          if LP_Available c
          then (Some (LP_Packet c, LP_Tick c, LP_Keys c), Some (c\<lparr>LP_Available := False\<rparr>))
          else (None, Some c))"

definition NSML_BuildMarioVsLuigiLocalPacket :: "LiveEnv \<Rightarrow> 'm NDS_scheme \<Rightarrow> (u8 list \<times> u32 \<times> u32) option" where
  "NSML_BuildMarioVsLuigiLocalPacket e n =
     (if IsNSMLMarioVsLuigiPacketContext e n then Some (BuildNSMLMarioVsLuigiPacket n) else None)"

definition set_tick :: "u32 \<Rightarrow> u8 list \<Rightarrow> u8 list" where
  "set_tick tick packet = packet[0 := ucast tick, 1 := ucast (drop_bit 8 tick)]"

definition NSMLSelectBridgePacketForPlayer :: "LiveEnv \<Rightarrow> u32 \<Rightarrow> u32 \<Rightarrow> live_packets \<Rightarrow> 'm NDS_scheme \<Rightarrow> u8 list option" where
  "NSMLSelectBridgePacketForPlayer e player tick packets n =
     (if 1 < player \<or> \<not> LE_BridgeEnabled e \<or> \<not> IsNSMLMarioVsLuigiPacketContext e n then None
      else case NSMLFindLiveReplayPacketLocked e player tick (LE_FallbackWindow e) packets of
             Some packet \<Rightarrow> Some (if LE_NormalizeTick e then set_tick tick packet else packet)
           | None \<Rightarrow>
               if player = LE_LocalPlayer e then Some (fst (BuildNSMLMarioVsLuigiPacket n)) else None)"

definition NSMLWriteBridgePacketScratch :: "u32 \<Rightarrow> u8 list \<Rightarrow> 'm NDS_scheme \<Rightarrow> u32 \<times> 'm NDS_scheme" where
  "NSMLWriteBridgePacketScratch player packet n =
     (let addr = 0x023C1000 + (player AND 1) * 0x40 in (addr, write_bytes addr packet n))"

definition write_slot :: "u32 \<Rightarrow> u8 list \<Rightarrow> 'm NDS_scheme \<Rightarrow> 'm NDS_scheme" where
  "write_slot player packet n =
     write_bytes (0x0208B040 + player * 0x3E) packet (ARM9Write32 (0x0208AE50 + player * 4) 1 n)"

definition NSMLWriteLiveReplayPacketsToLocalMPSlots ::
  "LiveEnv \<Rightarrow> u32 \<Rightarrow> u32 \<Rightarrow> bool \<Rightarrow> live_packets \<Rightarrow> 'm NDS_scheme \<Rightarrow> 'm NDS_scheme" where
  "NSMLWriteLiveReplayPacketsToLocalMPSlots e tick fallbackWindow normalizePacketTick packets n =
     foldl (\<lambda>n player.
       case NSMLFindLiveReplayPacketLocked e player tick fallbackWindow packets of
         None \<Rightarrow> n
       | Some packet \<Rightarrow> write_slot player (if normalizePacketTick then set_tick tick packet else packet) n)
       n [0, 1]"

section \<open>Sixteen bit ticks\<close>

lemma low16: "(x :: u32) AND 0xFFFF = take_bit 16 x"
proof -
  have "(0xFFFF :: u32) = mask 16"
    by (simp add: mask_eq_exp_minus_1)
  then show ?thesis
    by (simp add: take_bit_eq_mask)
qed

lemma low16_diff: "take_bit 16 (a - take_bit 16 b) = take_bit 16 (a - b)" for a b :: u32
  by transfer (simp add: take_bit_take_bit, metis take_bit_diff take_bit_take_bit min.idem)

lemma age_inverse: "((tick :: u32) - ((tick - t) AND 0xFFFF)) AND 0xFFFF = t AND 0xFFFF"
  unfolding low16 low16_diff by simp

section \<open>The two fallbacks find the same packet\<close>

definition usable_age :: "u32 \<Rightarrow> u32 \<Rightarrow> u32 \<Rightarrow> live_packets \<Rightarrow> u32 \<Rightarrow> bool" where
  "usable_age player tick window packets t \<longleftrightarrow>
     packet_at player t packets \<noteq> None \<and> (tick - t) AND 0xFFFF \<noteq> 0
     \<and> (tick - t) AND 0xFFFF \<le> 0x7FFF \<and> (tick - t) AND 0xFFFF \<le> window"

lemma latest_before_scan:
  assumes "latest_before player tick (Some window) packets ts (b, r) = (b', r')"
  shows "(\<forall>t \<in> set ts. usable_age player tick window packets t \<longrightarrow> b' \<le> (tick - t) AND 0xFFFF) \<and> b' \<le> b
    \<and> (b' = b \<and> r' = r
       \<or> (\<exists>t \<in> set ts. usable_age player tick window packets t \<and> b' = (tick - t) AND 0xFFFF
            \<and> b' < b \<and> r' = packet_at player t packets))"
  using assms
proof (induction ts arbitrary: b r)
  case (Cons t ts)
  let ?age = "(tick - t) AND 0xFFFF"
  show ?case
  proof (cases "usable_age player tick window packets t \<and> ?age < b")
    case True
    then obtain p where p: "packet_at player t packets = Some p"
      by (auto simp: usable_age_def)
    then have "latest_before player tick (Some window) packets ts (?age, Some p) = (b', r')"
      using Cons.prems True by (auto simp: usable_age_def Let_def dest: leD split: if_splits)
    from Cons.IH [OF this] True p show ?thesis
      by auto
  next
    case False
    then have "latest_before player tick (Some window) packets ts (b, r) = (b', r')"
      using Cons.prems by (auto simp: usable_age_def Let_def not_le not_less split: option.splits)
    from Cons.IH [OF this] False show ?thesis
      by (auto simp: not_less)
  qed
qed simp

lemma find_by_age_None: "find_by_age player tick packets ages = None \<longleftrightarrow>
    (\<forall>a \<in> set ages. packet_at player ((tick - of_nat a) AND 0xFFFF) packets = None)"
  by (induction ages) (auto split: option.splits)

lemma find_by_age_first:
  "a \<in> set ages \<Longrightarrow> packet_at player ((tick - of_nat a) AND 0xFFFF) packets = Some p \<Longrightarrow> sorted ages \<Longrightarrow>
   (\<And>a'. a' \<in> set ages \<Longrightarrow> a' < a \<Longrightarrow> packet_at player ((tick - of_nat a') AND 0xFFFF) packets = None) \<Longrightarrow>
   find_by_age player tick packets ages = Some p"
  by (induction ages) (fastforce split: option.splits)+

definition ticks_16 :: "live_packets \<Rightarrow> bool" where
  "ticks_16 packets \<longleftrightarrow> (\<forall>t. fmlookup packets t \<noteq> None \<longrightarrow> t AND 0xFFFF = t)"

lemma packet_at_dom: "packet_at player t packets \<noteq> None \<Longrightarrow> t \<in> set (fm_keys packets)"
  by (auto simp: packet_at_def fmdom'I split: option.splits)

lemma usable_in_keys: "usable_age player tick window packets t \<Longrightarrow> t \<in> set (fm_keys packets)"
  using packet_at_dom [of player t packets] by (simp add: usable_age_def)

text \<open>The two fallbacks of the packet lookup are the same search. For a window of 1 to 4096 ticks
  the scan of the whole map for the smallest age and the loop over the ages from 1 on return the same
  packet, the nearest earlier one of that player inside the window, across the wrap of the 16 bit tick.
  So the option that enables the scan never changes the result of the lookup.\<close>

theorem live_fallbacks_agree:
  assumes keys: "ticks_16 packets" and window: "1 \<le> unat window" "unat window \<le> 4096"
  shows "find_latest_before player tick (Some window) packets
      = find_by_age player tick packets [1..<Suc (unat window)]
    \<and> NSMLFindLiveReplayPacketLocked (e\<lparr>LE_LatestBefore := b\<rparr>) player tick window packets
      = NSMLFindLiveReplayPacketLocked e player tick window packets"
proof -
  let ?at = "\<lambda>a. packet_at player ((tick - of_nat a) AND 0xFFFF) packets" and ?ages = "[1..<Suc (unat window)]"
  have usable: "usable_age player tick window packets ((tick - of_nat a) AND 0xFFFF)
      \<and> (tick - ((tick - of_nat a) AND 0xFFFF)) AND 0xFFFF = of_nat a"
    if a: "a \<in> set ?ages" "?at a \<noteq> None" for a
  proof -
    have bounds: "1 \<le> a" "a \<le> unat window" "a \<le> 4096"
      using a(1) window by auto
    then have u: "unat (of_nat a :: u32) = a"
      by (simp add: unat_of_nat)
    have age: "(tick - ((tick - of_nat a) AND 0xFFFF)) AND 0xFFFF = of_nat a"
      unfolding age_inverse using bounds by (simp add: low16 take_bit_of_nat take_bit_nat_eq_self)
    with bounds u a(2) show ?thesis
      unfolding usable_age_def age by (simp add: word_le_nat_alt word_unat_eq_iff)
  qed
  obtain b' r' where scan: "latest_before player tick (Some window) packets (fm_keys packets) (0x8000, None) = (b', r')"
    by fastforce
  note spec = latest_before_scan [OF scan]
  have "r' = find_by_age player tick packets ?ages"
  proof (cases r')
    case None
    have "?at a = None" if "a \<in> set ?ages" for a
    proof (rule ccontr)
      assume "?at a \<noteq> None"
      note u = usable [OF that this]
      have "(tick - of_nat a) AND 0xFFFF \<in> set (fm_keys packets)"
        using u usable_in_keys by blast
      with spec u have "b' \<le> of_nat a"
        by metis
      moreover have "b' = 0x8000"
        using spec None by (auto simp: usable_age_def)
      moreover have "of_nat a \<le> (0x7FFF :: u32)"
        using u unfolding usable_age_def by metis
      ultimately show False
        by (simp add: word_le_nat_alt)
    qed
    then show ?thesis
      using None find_by_age_None [of player tick packets ?ages] by simp
  next
    case (Some p)
    with spec obtain t where t: "usable_age player tick window packets t" "b' = (tick - t) AND 0xFFFF"
      "packet_at player t packets = Some p"
      by auto
    have "fmlookup packets t \<noteq> None"
      using t(3) by (auto simp: packet_at_def split: option.splits)
    then have "(tick - b') AND 0xFFFF = t"
      using keys t(2) age_inverse [of tick t] by (simp add: ticks_16_def)
    then have at: "?at (unat b') = Some p"
      using t(3) by simp
    have mem: "unat b' \<in> set ?ages"
      using t(1,2) by (auto simp: usable_age_def word_le_nat_alt word_unat_eq_iff)
    have "?at a = None" if a: "a \<in> set ?ages" "a < unat b'" for a
    proof (rule ccontr)
      assume "?at a \<noteq> None"
      note u = usable [OF a(1) this]
      have "(tick - of_nat a) AND 0xFFFF \<in> set (fm_keys packets)"
        using u usable_in_keys by blast
      with spec u have "b' \<le> of_nat a"
        by metis
      moreover have "a \<le> 4096"
        using a(1) window(2) by auto
      then have "unat (of_nat a :: u32) = a"
        by (simp add: unat_of_nat)
      ultimately show False
        using a(2) by (simp add: word_le_nat_alt)
    qed
    then have "find_by_age player tick packets ?ages = Some p"
      by (intro find_by_age_first [OF mem at]) (auto simp del: upt_Suc)
    with Some show ?thesis
      by simp
  qed
  then have same: "find_latest_before player tick (Some window) packets = find_by_age player tick packets ?ages"
    by (simp add: find_latest_before_def scan)
  have "min window 4096 = window"
    using window(2) by (simp add: min_def word_le_nat_alt)
  moreover have "window \<noteq> 0"
    using window(1) by auto
  ultimately show ?thesis
    using same by (auto simp: NSMLFindLiveReplayPacketLocked_def split: option.split)
qed

section \<open>Pushing a packet\<close>

definition entries_sized :: "live_packets \<Rightarrow> bool" where
  "entries_sized packets \<longleftrightarrow> (\<forall>t e. fmlookup packets t = Some e \<longrightarrow> length (PE_Valid e) = 2 \<and> length (PE_Packet e) = 2)"

definition packet_tick :: "u8 list \<Rightarrow> u32" where
  "packet_tick packet = ucast (packet ! 0) OR push_bit 8 (ucast (packet ! 1))"

lemma packet_tick_16: "packet_tick packet AND 0xFFFF = packet_tick packet"
  unfolding packet_tick_def low16 by (rule bit_word_eqI) (auto simp: bit_simps dest: bit_imp_le_length)

lemma push_lookup:
  assumes "player \<le> 1" "entries_sized packets" "player' \<le> 1"
  shows "packet_at player' t (NSML_PushMarioVsLuigiRemotePacket player packet packets) =
    (if t = packet_tick packet \<and> player' = player then Some (take 52 packet)
     else if t < (if 256 < packet_tick packet then packet_tick packet - 256 else 0)
          \<and> 512 < fm_size (fmupd (packet_tick packet) NSMLPacketReplayEntry_default packets)
     then None else packet_at player' t packets)"
proof -
  let ?tick = "packet_tick packet"
  let ?entry = "case fmlookup packets ?tick of None \<Rightarrow> NSMLPacketReplayEntry_default | Some e \<Rightarrow> e"
  let ?new = "?entry\<lparr>PE_Packet := (PE_Packet ?entry)[unat player := take 52 packet],
      PE_Valid := (PE_Valid ?entry)[unat player := True]\<rparr>"
  have size: "fm_size (fmupd ?tick e packets) = fm_size (fmupd ?tick e' packets)" for e e'
    by (simp add: fm_size_conv_card)
  have len: "length (PE_Valid ?entry) = 2" "length (PE_Packet ?entry) = 2"
    using assms(2) by (auto simp: entries_sized_def NSMLPacketReplayEntry_default_def split: option.split)
  have u: "unat player < 2" "unat player' < 2" "unat player' = unat player \<longleftrightarrow> player' = player"
    using assms(1,3) by (simp_all add: word_le_nat_alt word_unat_eq_iff)
  define m where "m = fmupd ?tick ?new packets"
  define keepFrom where "keepFrom = (if 256 < ?tick then ?tick - 256 else 0)"
  have added: "packet_at player' t m =
      (if t = ?tick \<and> player' = player then Some (take 52 packet) else packet_at player' t packets)"
    using len u by (auto simp: m_def packet_at_def nth_list_update NSMLPacketReplayEntry_default_def numeral_2_eq_2 less_Suc_eq
        split: option.splits)
  have keep: "\<not> ?tick < keepFrom"
    by (auto simp: keepFrom_def word_less_nat_alt unat_sub_u32 word_le_nat_alt)
  have push: "NSML_PushMarioVsLuigiRemotePacket player packet packets =
      (if 512 < fm_size (fmupd ?tick NSMLPacketReplayEntry_default packets)
       then fmfilter (\<lambda>k. \<not> k < keepFrom) m else m)"
    using assms(1) size [of ?new NSMLPacketReplayEntry_default]
    by (simp add: NSML_PushMarioVsLuigiRemotePacket_def m_def keepFrom_def packet_tick_def Let_def not_le [symmetric])
  have filtered: "packet_at player' t (fmfilter P m') = (if P t then packet_at player' t m' else None)" for P m'
    by (simp add: packet_at_def)
  show ?thesis
    unfolding push keepFrom_def [symmetric] if_distrib [of "packet_at player' t"] filtered added using keep by auto
qed

fun push_all :: "(u32 \<times> u8 list) list \<Rightarrow> live_packets \<Rightarrow> live_packets" where
  "push_all [] packets = packets"
| "push_all ((player, packet) # ps) packets = push_all ps (NSML_PushMarioVsLuigiRemotePacket player packet packets)"

lemma push_sized:
  assumes "entries_sized packets" "ticks_16 packets"
  shows "entries_sized (NSML_PushMarioVsLuigiRemotePacket player packet packets)
    \<and> ticks_16 (NSML_PushMarioVsLuigiRemotePacket player packet packets)"
  using assms packet_tick_16 [of packet]
  by (auto simp: NSML_PushMarioVsLuigiRemotePacket_def entries_sized_def ticks_16_def NSMLPacketReplayEntry_default_def
      packet_tick_def Let_def split: option.splits if_splits)

lemma push_entries_sized:
  "entries_sized packets \<Longrightarrow> entries_sized (NSML_PushMarioVsLuigiRemotePacket player packet packets)"
  by (auto simp: NSML_PushMarioVsLuigiRemotePacket_def entries_sized_def NSMLPacketReplayEntry_default_def
      Let_def split: option.splits if_splits)

lemma push_all_append: "push_all (xs @ ys) packets = push_all ys (push_all xs packets)"
  by (induction xs packets rule: push_all.induct) simp_all

lemma push_all_sized:
  "entries_sized packets \<Longrightarrow> ticks_16 packets \<Longrightarrow> entries_sized (push_all ps packets) \<and> ticks_16 (push_all ps packets)"
  by (induction ps packets rule: push_all.induct) (simp_all add: push_sized)

lemma push_all_keeps:
  assumes "entries_sized packets" "player \<le> 1" "packet_at player t packets = Some packet"
    "\<forall>(q, later) \<in> set ps. q \<le> 1 \<and> (q, packet_tick later) \<noteq> (player, t) \<and> unat (packet_tick later) \<le> unat t + 256"
  shows "packet_at player t (push_all ps packets) = Some packet"
  using assms
proof (induction ps packets rule: push_all.induct)
  case (2 q later ps packets)
  have q: "q \<le> 1" "(q, packet_tick later) \<noteq> (player, t)" "unat (packet_tick later) \<le> unat t + 256"
    using "2.prems"(4) by auto
  have "\<not> t < (if 256 < packet_tick later then packet_tick later - 256 else 0)"
    using q(3) by (auto simp: word_less_nat_alt unat_sub_u32 word_le_nat_alt)
  then have "packet_at player t (NSML_PushMarioVsLuigiRemotePacket q later packets) = Some packet"
    using push_lookup [OF q(1) "2.prems"(1,2), of t later] q(2) "2.prems"(3) by auto
  then show ?case
    using "2.IH" "2.prems" push_entries_sized by auto
qed simp

text \<open>C38: a packet stays available to the game for 256 ticks. Over any sequence of pushes of both
  players, a pushed packet is what \<open>NSMLFindLiveReplayPacketLocked\<close> and
  \<open>NSML_HasMarioVsLuigiRemotePacket\<close> answer for its player and tick, until that player's packet
  of that tick is pushed again, as long as no pushed tick is more than 256 ticks ahead.\<close>

theorem recent_packets_available:
  assumes "player \<le> 1" "\<forall>(q, later) \<in> set after. q \<le> 1 \<and> (q, packet_tick later) \<noteq> (player, packet_tick packet)
      \<and> unat (packet_tick later) \<le> unat (packet_tick packet) + 256"
  shows "NSMLFindLiveReplayPacketLocked e player (packet_tick packet) window
      (push_all (before @ (player, packet) # after) fmempty) = Some (take 52 packet)
    \<and> NSML_HasMarioVsLuigiRemotePacket player (packet_tick packet) (push_all (before @ (player, packet) # after) fmempty)"
proof -
  let ?t = "packet_tick packet"
  have init: "entries_sized (push_all before fmempty) \<and> ticks_16 (push_all before fmempty)"
    by (rule push_all_sized) (simp_all add: entries_sized_def ticks_16_def)
  let ?s = "NSML_PushMarioVsLuigiRemotePacket player packet (push_all before fmempty)"
  have "packet_at player ?t ?s = Some (take 52 packet)"
    using push_lookup [OF assms(1) conjunct1 [OF init] assms(1), of ?t packet] by simp
  then have "packet_at player ?t (push_all after ?s) = Some (take 52 packet)"
    using assms push_entries_sized init by (intro push_all_keeps) auto
  moreover have "push_all (before @ (player, packet) # after) fmempty = push_all after ?s"
    by (simp add: push_all_append)
  ultimately show ?thesis
    using assms(1) packet_tick_16 [of packet]
    by (auto simp: NSMLFindLiveReplayPacketLocked_def NSML_HasMarioVsLuigiRemotePacket_def packet_at_def not_less
        split: option.splits if_splits)
qed

text \<open>The order of ticks is not the order of time at the wrap: a late packet from before the wrap of the
  16 bit tick makes a full store drop the packets that follow the wrap.\<close>

theorem wrap_drops_new_packets:
  assumes "entries_sized packets" "512 < fm_size packets" "player \<le> 1" "q \<le> 1"
    and "0xFF00 \<le> packet_tick late" "t < 0x100" "packet_at player t packets = Some packet"
  shows "packet_at player t (NSML_PushMarioVsLuigiRemotePacket q late packets) = None"
proof -
  have "fm_size packets \<le> fm_size (fmupd (packet_tick late) v packets)" for v
    by (simp add: fm_size_conv_card card_insert_le)
  then have "512 < fm_size (fmupd (packet_tick late) NSMLPacketReplayEntry_default packets)"
    using assms(2) less_le_trans by blast
  moreover have "t < packet_tick late - 256" "256 < packet_tick late" "t \<noteq> packet_tick late"
    using assms(5,6) by (auto simp: word_less_nat_alt word_le_nat_alt unat_sub_u32)
  ultimately show ?thesis
    using push_lookup [OF assms(4,1,3), of t late] by simp
qed

section \<open>Witnesses\<close>

definition sample_packet :: "u8 \<Rightarrow> u8 \<Rightarrow> u8 \<Rightarrow> u8 list" where
  "sample_packet low high keys = [low, high, keys] @ replicate 49 0"

definition sample_packets :: live_packets where
  "sample_packets = push_all [(0, sample_packet 0xFE 0xFF 1), (1, sample_packet 0xFE 0xFF 2), (1, sample_packet 0xFF 0xFF 3)] fmempty"

definition sample_live_env :: LiveEnv where
  "sample_live_env = \<lparr>LE_BridgeEnabled = True, LE_DeferUntilStart = False, LE_StartFrame = 0, LE_AllowPreGame = False,
     LE_LatestBefore = True, LE_FallbackWindow = 4, LE_NormalizeTick = True, LE_LocalPlayer = 0\<rparr>"

theorem live_fallbacks_agree_witness:
  "find_latest_before 1 2 (Some 4) sample_packets = find_by_age 1 2 sample_packets [1..<Suc (unat (4 :: u32))]
   \<and> NSMLFindLiveReplayPacketLocked (sample_live_env\<lparr>LE_LatestBefore := False\<rparr>) 1 2 4 sample_packets
     = NSMLFindLiveReplayPacketLocked sample_live_env 1 2 4 sample_packets
   \<and> NSMLFindLiveReplayPacketLocked sample_live_env 1 2 4 sample_packets = Some (sample_packet 0xFF 0xFF 3)"
proof -
  have "ticks_16 sample_packets"
    unfolding sample_packets_def
    by (rule conjunct2 [OF push_all_sized]) (simp_all add: entries_sized_def ticks_16_def)
  moreover have "NSMLFindLiveReplayPacketLocked sample_live_env 1 2 4 sample_packets = Some (sample_packet 0xFF 0xFF 3)"
    by code_simp
  ultimately show ?thesis
    using live_fallbacks_agree [where packets = sample_packets and window = 4 and player = 1 and tick = 2 and e = sample_live_env and b = False]
    by simp
qed

theorem recent_packets_available_witness:
  "NSMLFindLiveReplayPacketLocked sample_live_env 0 0xFFFE 4 sample_packets = Some (sample_packet 0xFE 0xFF 1)
   \<and> NSML_HasMarioVsLuigiRemotePacket 0 0xFFFE sample_packets"
proof -
  have tick: "packet_tick (sample_packet 0xFE 0xFF 1) = 0xFFFE" "packet_tick (sample_packet 0xFE 0xFF 2) = 0xFFFE"
    "packet_tick (sample_packet 0xFF 0xFF 3) = 0xFFFF"
    by code_simp+
  have later: "\<forall>(q, later) \<in> set [(1, sample_packet 0xFE 0xFF 2), (1, sample_packet 0xFF 0xFF 3)]. q \<le> (1 :: u32)
      \<and> (q, packet_tick later) \<noteq> (0, packet_tick (sample_packet 0xFE 0xFF 1))
      \<and> unat (packet_tick later) \<le> unat (packet_tick (sample_packet 0xFE 0xFF 1)) + 256"
    by (simp add: tick)
  have len: "take 52 (sample_packet 0xFE 0xFF 1) = sample_packet 0xFE 0xFF 1"
    by code_simp
  show ?thesis
    using recent_packets_available [of 0, OF _ later, of sample_live_env 4 "[]"] unfolding tick(1) len
    by (simp add: sample_packets_def)
qed

end
