(* ===== verification/Machine_Memory.thy ===== *)
theory Machine_Memory
  imports Live_Packets
begin

text \<open>
  The algebra of the bus on a machine with four megabytes of main memory. Every write of a byte, a
  half word, a word or a run of bytes is one \<open>poke\<close> at an offset, so that a sequence of
  writes is read back by comparing offsets.
\<close>

named_theorems bus "bus accesses as pokes and reads at an offset"

definition poke :: "nat \<Rightarrow> u8 list \<Rightarrow> 'm NDS_scheme \<Rightarrow> 'm NDS_scheme" where
  "poke off bs n = n\<lparr>ND_MainRAM := Some (copy_in off bs (main_ram n))\<rparr>"

abbreviation ram_addr :: "nat \<Rightarrow> u32" where
  "ram_addr off \<equiv> 0x02000000 + of_nat off"

section \<open>Addresses\<close>

lemma ram_mask: "(x :: u32) AND 0x3FFFFF = take_bit 22 x"
proof -
  have "(0x3FFFFF :: u32) = mask 22"
    by (simp add: mask_eq_exp_minus_1)
  then show ?thesis
    by (simp add: take_bit_eq_mask)
qed

lemma unat_take_bit_mod: "unat (take_bit k (w :: u32)) = unat w mod 2 ^ k"
proof -
  have "unat (take_bit k w) = take_bit k (unat w)"
    by (rule unsigned_take_bit_eq)
  then show ?thesis
    by (simp add: take_bit_nat_def)
qed

lemma ram_addr_offset: "off < 0x400000 \<Longrightarrow> unat (ram_addr off AND 0x3FFFFF) = off"
proof -
  assume "off < 0x400000"
  then have "unat (ram_addr off) = 0x02000000 + off"
    by (simp add: unat_word_ariths unat_of_nat)
  moreover have "(0x02000000 + off) mod 0x400000 = off"
    using \<open>off < 0x400000\<close> mod_mult_self3 [of 8 "0x400000 :: nat" off] by simp
  ultimately show ?thesis
    by (simp add: ram_mask unat_take_bit_mod)
qed

lemma clear_low:
  assumes "take_bit k (w :: u32) = 0"
  shows "w AND NOT (mask k) = w"
proof (rule bit_word_eqI)
  fix i assume "i < LENGTH(32)"
  have "bit (take_bit k w) i = (i < k \<and> bit w i)"
    by (simp add: bit_simps)
  then show "bit (w AND NOT (mask k)) i = bit w i"
    using assms \<open>i < LENGTH(32)\<close> by (auto simp: bit_simps)
qed

lemma ram_addr_low:
  assumes "off < 0x400000" and "off mod 2 ^ k = 0" and "k \<le> 2"
  shows "ram_addr off AND NOT (mask k) = ram_addr off"
proof (rule clear_low)
  have "unat (ram_addr off) = 0x02000000 + off"
    using assms(1) by (simp add: unat_word_ariths unat_of_nat)
  moreover have "2 ^ k dvd (0x02000000 :: nat)"
    using assms(3) le_imp_power_dvd [of k 25 "2 :: nat"] by simp
  then have "(0x02000000 + off) mod 2 ^ k = 0"
    using assms(2) by (simp add: mod_0_imp_dvd)
  ultimately have "unat (take_bit k (ram_addr off)) = 0"
    by (simp add: unat_take_bit_mod)
  then show "take_bit k (ram_addr off) = 0"
    by (simp only: unat_eq_zero)
qed

lemma ram_addr_half: "off < 0x400000 \<Longrightarrow> off mod 2 = 0 \<Longrightarrow> ram_addr off AND NOT 1 = ram_addr off"
  using ram_addr_low [of off 1] by (simp add: mask_eq_exp_minus_1)

lemma ram_addr_word: "off < 0x400000 \<Longrightarrow> off mod 4 = 0 \<Longrightarrow> ram_addr off AND NOT 3 = ram_addr off"
  using ram_addr_low [of off 2] by (simp add: mask_eq_exp_minus_1)

section \<open>Pokes\<close>

lemma full_ramE:
  assumes "full_ram n"
  obtains ram where "ND_MainRAM n = Some ram" "length ram = 0x400000" "ND_MainRAMMask n = 0x3FFFFF"
  using assms by (auto simp: full_ram_def)

lemma poke_full [bus]: "full_ram n \<Longrightarrow> off + length bs \<le> 0x400000 \<Longrightarrow> full_ram (poke off bs n)"
  by (auto simp: full_ram_def poke_def)

lemma poke_nth:
  "full_ram n \<Longrightarrow> off + length bs \<le> 0x400000 \<Longrightarrow> i < 0x400000 \<Longrightarrow>
    main_ram (poke off bs n) ! i = (if off \<le> i \<and> i < off + length bs then bs ! (i - off) else main_ram n ! i)"
  by (auto simp: full_ram_def poke_def nth_copy_in)

lemma poke_append:
  assumes "full_ram n" "off + length bs + length cs \<le> 0x400000"
  shows "poke (off + length bs) cs (poke off bs n) = poke off (bs @ cs) n"
proof -
  obtain ram where ram: "ND_MainRAM n = Some ram" "length ram = 0x400000"
    using assms(1) by (rule full_ramE)
  have "copy_in (off + length bs) cs (copy_in off bs ram) = copy_in off (bs @ cs) ram"
    using ram(2) assms(2) by (auto simp: copy_in_def ac_simps)
  then show ?thesis
    by (simp add: poke_def ram)
qed

lemma poke_bytes:
  assumes "full_ram n" "off < 0x400000"
  shows ARM9Write8_poke [bus]: "ARM9Write8 (ram_addr off) v n = poke off [v] n"
    and ARM9Read8_ram [bus]: "ARM9Read8 (ram_addr off) n = main_ram n ! off"
  using assms ram_addr_offset [of off]
  by (auto simp: full_ram_def ARM9Write8_def ARM9Read8_def poke_def rd8_def)

lemma poke_halves:
  assumes "full_ram n" "off < 0x400000" "off mod 2 = 0"
  shows ARM9Write16_poke [bus]: "ARM9Write16 (ram_addr off) h n = poke off (u16_le h) n"
    and ARM9Read16_ram [bus]: "ARM9Read16 (ram_addr off) n = rd16 (main_ram n) off"
  using assms ram_addr_offset [of off] ram_addr_half [of off]
  by (auto simp: full_ram_def ARM9Write16_def ARM9Read16_def poke_def)

lemma poke_words:
  assumes "full_ram n" "off < 0x400000" "off mod 4 = 0"
  shows ARM9Write32_poke [bus]: "ARM9Write32 (ram_addr off) w n = poke off (u32_le w) n"
    and ARM9Read32_ram [bus]: "ARM9Read32 (ram_addr off) n = rd32 (main_ram n) off"
  using assms ram_addr_offset [of off] ram_addr_word [of off]
  by (auto simp: full_ram_def ARM9Write32_def ARM9Read32_def poke_def)

lemma write_bytes_poke:
  "full_ram n \<Longrightarrow> off + length bs \<le> 0x400000 \<Longrightarrow> bs \<noteq> [] \<Longrightarrow> write_bytes (ram_addr off) bs n = poke off bs n"
proof (induction bs arbitrary: off n)
  case (Cons b bs)
  have head: "ARM9Write8 (ram_addr off) b n = poke off [b] n"
    using Cons.prems by (intro ARM9Write8_poke) auto
  show ?case
  proof (cases "bs = []")
    case False
    have addr: "ram_addr off + 1 = ram_addr (Suc off)"
      by (simp add: ac_simps)
    have "write_bytes (ram_addr (Suc off)) bs (poke off [b] n) = poke (Suc off) bs (poke off [b] n)"
      using Cons.prems False by (intro Cons.IH poke_full) auto
    also have "\<dots> = poke off (b # bs) n"
      using poke_append [of n off "[b]" bs] Cons.prems by simp
    finally show ?thesis
      by (simp add: head addr)
  qed (simp add: head)
qed simp

section \<open>Reading back\<close>

lemma rd16_poke_same: "full_ram n \<Longrightarrow> off + 2 \<le> 0x400000 \<Longrightarrow> rd16 (main_ram (poke off (u16_le h) n)) off = h"
  by (simp add: rd16_def poke_nth u16_le_def)

lemma rd32_poke_same: "full_ram n \<Longrightarrow> off + 4 \<le> 0x400000 \<Longrightarrow> rd32 (main_ram (poke off (u32_le w) n)) off = w"
  by (simp add: rd32_def poke_nth u32_le_def)

definition outside :: "nat \<Rightarrow> nat \<Rightarrow> nat \<Rightarrow> nat \<Rightarrow> bool" where
  "outside i k off len \<longleftrightarrow> i + k \<le> off \<or> off + len \<le> i"

lemma rd16_poke_other:
  "full_ram n \<Longrightarrow> off + length bs \<le> 0x400000 \<Longrightarrow> i + 2 \<le> 0x400000 \<Longrightarrow> outside i 2 off (length bs) \<Longrightarrow>
    rd16 (main_ram (poke off bs n)) i = rd16 (main_ram n) i"
  by (auto simp: rd16_def poke_nth outside_def)

lemma rd32_poke_other:
  "full_ram n \<Longrightarrow> off + length bs \<le> 0x400000 \<Longrightarrow> i + 4 \<le> 0x400000 \<Longrightarrow> outside i 4 off (length bs) \<Longrightarrow>
    rd32 (main_ram (poke off bs n)) i = rd32 (main_ram n) i"
  by (auto simp: rd32_def poke_nth outside_def)

lemma copy_out_poke_same:
  "full_ram n \<Longrightarrow> off + length bs \<le> 0x400000 \<Longrightarrow> copy_out off (length bs) (main_ram (poke off bs n)) = bs"
  by (auto simp: full_ram_def poke_def copy_out_def copy_in_def)

lemma copy_out_poke_other:
  assumes "full_ram n" "off + length bs \<le> 0x400000" "i + k \<le> 0x400000" "outside i k off (length bs)"
  shows "copy_out i k (main_ram (poke off bs n)) = copy_out i k (main_ram n)"
proof (rule nth_equalityI)
  have len: "length (main_ram n) = 0x400000" "length (main_ram (poke off bs n)) = 0x400000"
    using assms(1) poke_full [OF assms(1,2)] by (auto simp: full_ram_def)
  then show "length (copy_out i k (main_ram (poke off bs n))) = length (copy_out i k (main_ram n))"
    using assms(3) by (simp add: length_copy_out)
  fix j assume "j < length (copy_out i k (main_ram (poke off bs n)))"
  then have "j < k"
    using assms(3) len by (simp add: length_copy_out)
  then show "copy_out i k (main_ram (poke off bs n)) ! j = copy_out i k (main_ram n) ! j"
    using assms len by (auto simp: nth_copy_out poke_nth outside_def)
qed

end
