(* ===== verification/Match_Hooks.thy ===== *)
theory Match_Hooks
  imports Machine_Memory Mvl_Runtime Netplay_Config
begin

text \<open>
  The match hooks of \<^verbatim>\<open>NsmbMvlGameHooks.cpp\<close> with the patches of \<^verbatim>\<open>NsmbGameStateWriter.cpp\<close> they apply:
  the runtime configuration block, the random seed, the camera hold and the forced player counters.
  A null machine, on which every hook returns at once, is left out, and so is the trace output. The
  two hooks that look up an actor in the game's object list are not modelled.
\<close>

unbundle bit_operations_syntax

section \<open>Context and addresses\<close>

record HooksContext =
  HX_Mvl :: MvlConfig
  HX_Patches :: RuntimePatchConfig
  HX_Runtime :: MvlRuntime
  HX_CurrentStage :: int
  HX_CurrentStageSceneSettings :: u32
  HX_IsHost :: bool

definition kHookStageGroupAddr :: u32 where "kHookStageGroupAddr = 0x02085A18"
definition kHookVsModeAddr :: u32 where "kHookVsModeAddr = 0x02085A84"
definition kNetGGIDAddr :: u32 where "kNetGGIDAddr = 0x02088858"
definition kNetRandomCallCountAddr :: u32 where "kNetRandomCallCountAddr = 0x02088A48"
definition kNetRandomValueAddr :: u32 where "kNetRandomValueAddr = 0x02088A68"
definition kGameRandomCallCountAddr :: u32 where "kGameRandomCallCountAddr = 0x02085A54"
definition kGameRandomValueAddr :: u32 where "kGameRandomValueAddr = 0x02085A70"
definition kMvlRuntimeConfigAddr :: u32 where "kMvlRuntimeConfigAddr = 0x020C5360"
definition kMvlRuntimeConfigMagic :: u32 where "kMvlRuntimeConfigMagic = 0x434C564D"
definition kMvlRuntimeConfigStageOffset :: u32 where "kMvlRuntimeConfigStageOffset = 0x04"
definition kMvlRuntimeConfigSceneSettingsOffset :: u32 where "kMvlRuntimeConfigSceneSettingsOffset = 0x08"
definition kMvlRuntimeConfigInitialLivesOffset :: u32 where "kMvlRuntimeConfigInitialLivesOffset = 0x0C"
definition kMvlRuntimeConfigLifeModeSelectorOffset :: u32 where "kMvlRuntimeConfigLifeModeSelectorOffset = 0x10"
definition kMvlRuntimeConfigBigStarSelectorOffset :: u32 where "kMvlRuntimeConfigBigStarSelectorOffset = 0x14"
definition kMvlCameraModeFlagsAddr :: u32 where "kMvlCameraModeFlagsAddr = 0x020CA880"
definition kGamePlayerInventoryPowerupAddr :: u32 where "kGamePlayerInventoryPowerupAddr = 0x0208B32C"
definition kGamePlayerLivesAddr :: u32 where "kGamePlayerLivesAddr = 0x0208B364"
definition kGamePlayerBattleStarsAddr :: u32 where "kGamePlayerBattleStarsAddr = 0x0208B36C"
definition kGamePlayerCoinsAddr :: u32 where "kGamePlayerCoinsAddr = 0x0208B37C"
definition kGamePlayerDisplayedStarsAddr :: u32 where "kGamePlayerDisplayedStarsAddr = 0x0208B38C"
definition kGamePlayerDeathsAddr :: u32 where "kGamePlayerDeathsAddr = 0x0208B394"
definition kGamePlayerCollectedStarsAddr :: u32 where "kGamePlayerCollectedStarsAddr = 0x0208B39C"

lemmas hook_addresses = kHookStageGroupAddr_def kHookVsModeAddr_def kNetGGIDAddr_def kNetRandomCallCountAddr_def
  kNetRandomValueAddr_def kGameRandomCallCountAddr_def kGameRandomValueAddr_def kMvlRuntimeConfigAddr_def
  kMvlRuntimeConfigMagic_def kMvlRuntimeConfigStageOffset_def kMvlRuntimeConfigSceneSettingsOffset_def
  kMvlRuntimeConfigInitialLivesOffset_def kMvlRuntimeConfigLifeModeSelectorOffset_def
  kMvlRuntimeConfigBigStarSelectorOffset_def kMvlCameraModeFlagsAddr_def kGamePlayerInventoryPowerupAddr_def
  kGamePlayerLivesAddr_def kGamePlayerBattleStarsAddr_def kGamePlayerCoinsAddr_def kGamePlayerDisplayedStarsAddr_def
  kGamePlayerDeathsAddr_def kGamePlayerCollectedStarsAddr_def

section \<open>Conditions\<close>

definition HookIsMarioVsLuigiGameplay :: "'m NDS_scheme \<Rightarrow> bool" where
  "HookIsMarioVsLuigiGameplay n \<longleftrightarrow> ARM9Read32 kHookStageGroupAddr n = 9 \<and> ARM9Read32 kHookVsModeAddr n = 1"

definition IsMarioVsLuigiGGID :: "u32 \<Rightarrow> bool" where
  "IsMarioVsLuigiGGID v \<longleftrightarrow> v = 0x42 \<or> v = 0x00400150"

definition HookIsValidInstance :: "int \<Rightarrow> bool" where
  "HookIsValidInstance instanceID \<longleftrightarrow> 0 \<le> instanceID \<and> instanceID < int kInstanceCount"

section \<open>The configuration block and the seed\<close>

definition ApplyRuntimeConfig :: "HooksContext \<Rightarrow> 'm NDS_scheme \<Rightarrow> 'm NDS_scheme" where
  "ApplyRuntimeConfig x n =
     (if \<not> MC_RuntimeConfigEnabled (HX_Mvl x) then n
      else
        let n1 = ARM9Write32 kMvlRuntimeConfigAddr kMvlRuntimeConfigMagic n;
            n2 = ARM9Write32 (kMvlRuntimeConfigAddr + kMvlRuntimeConfigStageOffset) (u32_of_int (HX_CurrentStage x)) n1;
            n3 = ARM9Write32 (kMvlRuntimeConfigAddr + kMvlRuntimeConfigSceneSettingsOffset) (HX_CurrentStageSceneSettings x) n2;
            n4 = ARM9Write32 (kMvlRuntimeConfigAddr + kMvlRuntimeConfigInitialLivesOffset) (MC_InitialLives (HX_Mvl x)) n3;
            n5 = ARM9Write32 (kMvlRuntimeConfigAddr + kMvlRuntimeConfigLifeModeSelectorOffset) (MC_LifeModeSelector (HX_Mvl x)) n4
        in ARM9Write32 (kMvlRuntimeConfigAddr + kMvlRuntimeConfigBigStarSelectorOffset) (MC_BigStarSelector (HX_Mvl x)) n5)"

definition WriteRandomSeed :: "u32 \<Rightarrow> 'm NDS_scheme \<Rightarrow> bool \<times> 'm NDS_scheme" where
  "WriteRandomSeed seed n =
     (case ND_MainRAM n of
        None \<Rightarrow> (False, n)
      | Some ram \<Rightarrow>
          let netValue = kNetRandomValueAddr - 0x02000000; netCount = kNetRandomCallCountAddr - 0x02000000;
              gameValue = kGameRandomValueAddr - 0x02000000; gameCount = kGameRandomCallCountAddr - 0x02000000
          in if ND_MainRAMMask n + 1 < netValue + 4 \<or> ND_MainRAMMask n + 1 < gameValue + 4 then (False, n)
             else
               let ram1 = copy_in (unat netValue) (u32_le seed) ram;
                   ram2 = copy_in (unat netCount) [0] ram1;
                   ram3 = copy_in (unat gameValue) (u32_le seed) ram2
               in (True, n\<lparr>ND_MainRAM := Some (copy_in (unat gameCount) [0] ram3)\<rparr>))"

definition mark_instance :: "int \<Rightarrow> (InstanceState \<Rightarrow> InstanceState) \<Rightarrow> MvlRuntime \<Rightarrow> MvlRuntime" where
  "mark_instance instanceID g r =
     r\<lparr>MV_Instances := (MV_Instances r)[nat instanceID := g (MV_Instances r ! nat instanceID)]\<rparr>"

definition net_random_due :: "u32 \<Rightarrow> MvlConfig \<Rightarrow> 'm NDS_scheme \<Rightarrow> bool" where
  "net_random_due frame config n =
     (if NR_Auto (MC_NetRandom config)
      then HookIsMarioVsLuigiGameplay n \<or> IsMarioVsLuigiGGID (ARM9Read32 kNetGGIDAddr n)
      else frame = NR_Frame (MC_NetRandom config))"

definition net_random_value :: "int \<Rightarrow> HooksContext \<Rightarrow> u32" where
  "net_random_value instanceID x =
     (if MC_MatchSeedSequence (HX_Mvl x) \<noteq> [] \<or> MC_AutoRestartAfterResult (HX_Mvl x)
      then MatchSeedForGame instanceID (HX_Mvl x) (HX_Runtime x) else NR_Value (MC_NetRandom (HX_Mvl x)))"

definition ApplyNetRandomPatch :: "int \<Rightarrow> u32 \<Rightarrow> HooksContext \<Rightarrow> 'm NDS_scheme \<Rightarrow> 'm NDS_scheme \<times> HooksContext" where
  "ApplyNetRandomPatch instanceID frame x n =
     (if ND_MainRAM n = None \<or> \<not> NR_Enabled (MC_NetRandom (HX_Mvl x)) \<or> \<not> HookIsValidInstance instanceID
         \<or> IN_NetRandomPatchApplied (MV_Instances (HX_Runtime x) ! nat instanceID)
      then (n, x)
      else if \<not> net_random_due frame (HX_Mvl x) n then (n, x)
      else
        let (ok, n1) = WriteRandomSeed (net_random_value instanceID x) n
        in if \<not> ok then (n1, x)
           else (n1, x\<lparr>HX_Runtime := mark_instance instanceID (\<lambda>s. s\<lparr>IN_NetRandomPatchApplied := True\<rparr>) (HX_Runtime x)\<rparr>))"

definition ClearCameraInitHold :: "int \<Rightarrow> u32 \<Rightarrow> HooksContext \<Rightarrow> 'm NDS_scheme \<Rightarrow> 'm NDS_scheme \<times> HooksContext" where
  "ClearCameraInitHold instanceID frame x n =
     (let camera = MC_CameraInitHold (HX_Mvl x) in
      if \<not> CH_Enabled camera \<or> ND_MainRAM n = None \<or> \<not> HookIsValidInstance instanceID
         \<or> IN_ClearCameraInitHoldApplied (MV_Instances (HX_Runtime x) ! nat instanceID)
         \<or> \<not> IsFrameInRange frame (CH_StartFrame camera) (CH_EndFrame camera)
         \<or> \<not> IsRoleAllowed (HX_IsHost x) (CH_HostOnly camera) (CH_ClientOnly camera)
         \<or> \<not> HookIsMarioVsLuigiGameplay n
      then (n, x)
      else
        let oldValue = ARM9Read8 kMvlCameraModeFlagsAddr n
        in if oldValue AND 0x08 = 0 then (n, x)
           else (ARM9Write8 kMvlCameraModeFlagsAddr (oldValue AND NOT 0x08) n,
                 x\<lparr>HX_Runtime := mark_instance instanceID (\<lambda>s. s\<lparr>IN_ClearCameraInitHoldApplied := True\<rparr>) (HX_Runtime x)\<rparr>))"

section \<open>Forced counters\<close>

text \<open>The patches of \<^verbatim>\<open>NsmbGameStateWriter.cpp\<close>. The old values they also return, and whether they wrote at
  all, are only printed.\<close>

definition write_pair :: "u32 \<Rightarrow> u32 \<times> u32 \<Rightarrow> 'm NDS_scheme \<Rightarrow> 'm NDS_scheme" where
  "write_pair addr values n = ARM9Write32 (addr + 4) (snd values) (ARM9Write32 addr (fst values) n)"

definition WritePlayerDeathCounterPatch :: "u32 \<times> u32 \<Rightarrow> bool \<Rightarrow> u32 \<times> u32 \<Rightarrow> 'm NDS_scheme \<Rightarrow> 'm NDS_scheme" where
  "WritePlayerDeathCounterPatch deaths writeLives lives n =
     (if ND_MainRAM n = None then n
      else
        let n1 = write_pair kGamePlayerDeathsAddr deaths n
        in if writeLives then write_pair kGamePlayerLivesAddr lives n1 else n1)"

definition WritePlayerInventoryPowerupPatch :: "u8 \<times> u8 \<Rightarrow> 'm NDS_scheme \<Rightarrow> 'm NDS_scheme" where
  "WritePlayerInventoryPowerupPatch values n =
     (if ND_MainRAM n = None then n
      else ARM9Write8 (kGamePlayerInventoryPowerupAddr + 1) (snd values)
             (ARM9Write8 kGamePlayerInventoryPowerupAddr (fst values) n))"

definition WritePlayerCoinPatch :: "u32 \<times> u32 \<Rightarrow> 'm NDS_scheme \<Rightarrow> 'm NDS_scheme" where
  "WritePlayerCoinPatch values n =
     (if ND_MainRAM n = None then n else write_pair kGamePlayerCoinsAddr values n)"

definition WritePlayerStarCounterPatch ::
  "u32 \<times> u32 \<Rightarrow> u32 \<times> u32 \<Rightarrow> u32 \<times> u32 \<Rightarrow> 'm NDS_scheme \<Rightarrow> 'm NDS_scheme" where
  "WritePlayerStarCounterPatch battleStars displayedStars collectedStars n =
     (if ND_MainRAM n = None then n
      else write_pair kGamePlayerCollectedStarsAddr collectedStars
             (write_pair kGamePlayerDisplayedStarsAddr displayedStars (write_pair kGamePlayerBattleStarsAddr battleStars n)))"

definition ForcePlayerDeathCounters :: "int \<Rightarrow> u32 \<Rightarrow> HooksContext \<Rightarrow> 'm NDS_scheme \<Rightarrow> 'm NDS_scheme" where
  "ForcePlayerDeathCounters instanceID frame x n =
     (let p = HX_Patches x in
      if \<not> PC_ForcePlayerDeathCountersEnabled p \<or> ND_MainRAM n = None then n
      else if \<not> IsRoleAllowed (HX_IsHost x) (PC_ForcePlayerDeathCountersHostOnly p) (PC_ForcePlayerDeathCountersClientOnly p) then n
      else if \<not> HookIsValidInstance instanceID
         \<or> \<not> IsFrameInRange frame (PC_ForcePlayerDeathCountersStartFrame p) (PC_ForcePlayerDeathCountersEndFrame p)
         \<or> \<not> HookIsMarioVsLuigiGameplay n then n
      else WritePlayerDeathCounterPatch (PC_ForcePlayerDeathCounter0 p, PC_ForcePlayerDeathCounter1 p)
             (PC_ForcePlayerLivesEnabled p) (PC_ForcePlayerLife0 p, PC_ForcePlayerLife1 p) n)"

definition force_due :: "bool \<Rightarrow> int \<Rightarrow> u32 \<Rightarrow> u32 \<Rightarrow> u32 \<Rightarrow> 'm NDS_scheme \<Rightarrow> bool" where
  "force_due enabled instanceID frame startFrame endFrame n \<longleftrightarrow>
     enabled \<and> ND_MainRAM n \<noteq> None \<and> HookIsValidInstance instanceID \<and> IsFrameInRange frame startFrame endFrame
     \<and> HookIsMarioVsLuigiGameplay n"

definition ForcePlayerInventoryPowerups :: "int \<Rightarrow> u32 \<Rightarrow> HooksContext \<Rightarrow> 'm NDS_scheme \<Rightarrow> 'm NDS_scheme" where
  "ForcePlayerInventoryPowerups instanceID frame x n =
     (let p = HX_Patches x in
      if \<not> force_due (PC_ForcePlayerInventoryPowerupsEnabled p) instanceID frame
           (PC_ForcePlayerInventoryPowerupsStartFrame p) (PC_ForcePlayerInventoryPowerupsEndFrame p) n then n
      else WritePlayerInventoryPowerupPatch
             (ucast (PC_ForcePlayerInventoryPowerup0 p AND 0xFF), ucast (PC_ForcePlayerInventoryPowerup1 p AND 0xFF)) n)"

definition ForcePlayerCoins :: "int \<Rightarrow> u32 \<Rightarrow> HooksContext \<Rightarrow> 'm NDS_scheme \<Rightarrow> 'm NDS_scheme" where
  "ForcePlayerCoins instanceID frame x n =
     (let p = HX_Patches x in
      if \<not> force_due (PC_ForcePlayerCoinsEnabled p) instanceID frame (PC_ForcePlayerCoinsStartFrame p)
           (PC_ForcePlayerCoinsEndFrame p) n then n
      else WritePlayerCoinPatch (PC_ForcePlayerCoins0 p, PC_ForcePlayerCoins1 p) n)"

definition ForcePlayerStarCounters :: "int \<Rightarrow> u32 \<Rightarrow> HooksContext \<Rightarrow> 'm NDS_scheme \<Rightarrow> 'm NDS_scheme" where
  "ForcePlayerStarCounters instanceID frame x n =
     (let p = HX_Patches x in
      if \<not> force_due (PC_ForcePlayerStarCountersEnabled p) instanceID frame (PC_ForcePlayerStarCountersStartFrame p)
           (PC_ForcePlayerStarCountersEndFrame p) n then n
      else WritePlayerStarCounterPatch (PC_ForcePlayerBattleStars0 p, PC_ForcePlayerBattleStars1 p)
             (PC_ForcePlayerDisplayedStars0 p, PC_ForcePlayerDisplayedStars1 p)
             (PC_ForcePlayerCollectedStars0 p, PC_ForcePlayerCollectedStars1 p) n)"

section \<open>The seed in memory\<close>

definition seeded :: "u32 \<Rightarrow> 'm NDS_scheme \<Rightarrow> bool" where
  "seeded seed n \<longleftrightarrow> full_ram n \<and> rd32 (main_ram n) 0x88A68 = seed \<and> main_ram n ! 0x88A48 = 0
     \<and> rd32 (main_ram n) 0x85A70 = seed \<and> main_ram n ! 0x85A54 = 0"

lemma seeded_poke:
  assumes "seeded seed n" "off + length bs \<le> 0x400000"
    and "outside 0x88A68 4 off (length bs)" "outside 0x88A48 1 off (length bs)"
    and "outside 0x85A70 4 off (length bs)" "outside 0x85A54 1 off (length bs)"
  shows "seeded seed (poke off bs n)"
  using assms by (auto simp: seeded_def poke_full rd32_poke_other poke_nth outside_def)

lemma WriteRandomSeed_pokes:
  assumes "full_ram n"
  shows "WriteRandomSeed seed n = (True, poke 0x85A54 [0] (poke 0x85A70 (u32_le seed)
    (poke 0x88A48 [0] (poke 0x88A68 (u32_le seed) n))))"
  using assms by (auto simp: WriteRandomSeed_def full_ram_def hook_addresses poke_def Let_def)

lemma WriteRandomSeed_seeded: "full_ram n \<Longrightarrow> fst (WriteRandomSeed seed n) \<and> seeded seed (snd (WriteRandomSeed seed n))"
  by (simp add: WriteRandomSeed_pokes seeded_def poke_full rd32_poke_same rd32_poke_other poke_nth outside_def)

text \<open>The configuration block lies apart from the random state.\<close>

lemma config_word:
  assumes "full_ram n" "k \<in> {0, 4, 8, 12, 16, 20}"
  shows "ARM9Write32 (kMvlRuntimeConfigAddr + of_nat k) w n = poke (0xC5360 + k) (u32_le w) n"
proof -
  have "kMvlRuntimeConfigAddr + of_nat k = ram_addr (0xC5360 + k)"
    by (simp add: hook_addresses)
  then show ?thesis
    using assms ARM9Write32_poke [of n "0xC5360 + k" w] by auto
qed

lemma config_words:
  assumes "full_ram n"
  shows "ARM9Write32 kMvlRuntimeConfigAddr w n = poke 0xC5360 (u32_le w) n"
    and "ARM9Write32 (kMvlRuntimeConfigAddr + 4) w n = poke 0xC5364 (u32_le w) n"
    and "ARM9Write32 (kMvlRuntimeConfigAddr + 8) w n = poke 0xC5368 (u32_le w) n"
    and "ARM9Write32 (kMvlRuntimeConfigAddr + 12) w n = poke 0xC536C (u32_le w) n"
    and "ARM9Write32 (kMvlRuntimeConfigAddr + 16) w n = poke 0xC5370 (u32_le w) n"
    and "ARM9Write32 (kMvlRuntimeConfigAddr + 20) w n = poke 0xC5374 (u32_le w) n"
  using config_word [OF assms, of 0 w] config_word [OF assms, of 4 w] config_word [OF assms, of 8 w]
    config_word [OF assms, of 12 w] config_word [OF assms, of 16 w] config_word [OF assms, of 20 w]
  by simp_all

lemma ApplyRuntimeConfig_pokes:
  assumes "full_ram n" "MC_RuntimeConfigEnabled (HX_Mvl x)"
  shows "ApplyRuntimeConfig x n = poke 0xC5374 (u32_le (MC_BigStarSelector (HX_Mvl x)))
    (poke 0xC5370 (u32_le (MC_LifeModeSelector (HX_Mvl x))) (poke 0xC536C (u32_le (MC_InitialLives (HX_Mvl x)))
    (poke 0xC5368 (u32_le (HX_CurrentStageSceneSettings x)) (poke 0xC5364 (u32_le (u32_of_int (HX_CurrentStage x)))
    (poke 0xC5360 (u32_le kMvlRuntimeConfigMagic) n)))))"
  using assms
  by (simp add: ApplyRuntimeConfig_def Let_def poke_full config_words kMvlRuntimeConfigStageOffset_def
      kMvlRuntimeConfigSceneSettingsOffset_def kMvlRuntimeConfigInitialLivesOffset_def
      kMvlRuntimeConfigLifeModeSelectorOffset_def kMvlRuntimeConfigBigStarSelectorOffset_def)

lemma ApplyRuntimeConfig_full: "full_ram n \<Longrightarrow> full_ram (ApplyRuntimeConfig x n)"
  by (cases "MC_RuntimeConfigEnabled (HX_Mvl x)") (simp_all add: ApplyRuntimeConfig_pokes poke_full, simp add: ApplyRuntimeConfig_def)

lemma ApplyRuntimeConfig_seeded: "seeded seed n \<Longrightarrow> seeded seed (ApplyRuntimeConfig x n)"
proof (cases "MC_RuntimeConfigEnabled (HX_Mvl x)")
  case True
  assume s: "seeded seed n"
  then have "full_ram n"
    by (simp add: seeded_def)
  with True s show ?thesis
    by (simp add: ApplyRuntimeConfig_pokes seeded_poke outside_def)
qed (simp add: ApplyRuntimeConfig_def)

text \<open>The block as the patched game reads it: the magic number, the stage, its scene settings and the
  rules of the match. It is written only when the runtime configuration is enabled.\<close>

definition configured :: "HooksContext \<Rightarrow> 'm NDS_scheme \<Rightarrow> bool" where
  "configured x n \<longleftrightarrow> (MC_RuntimeConfigEnabled (HX_Mvl x) \<longrightarrow>
     map (rd32 (main_ram n)) [0xC5360, 0xC5364, 0xC5368, 0xC536C, 0xC5370, 0xC5374] =
       [kMvlRuntimeConfigMagic, u32_of_int (HX_CurrentStage x), HX_CurrentStageSceneSettings x,
        MC_InitialLives (HX_Mvl x), MC_LifeModeSelector (HX_Mvl x), MC_BigStarSelector (HX_Mvl x)])"

lemma ApplyRuntimeConfig_configured: "full_ram n \<Longrightarrow> configured x (ApplyRuntimeConfig x n)"
  by (simp add: configured_def ApplyRuntimeConfig_pokes poke_full rd32_poke_same rd32_poke_other outside_def)

lemma WriteRandomSeed_configured: "full_ram n \<Longrightarrow> configured x (snd (WriteRandomSeed seed n)) = configured x n"
  by (simp add: configured_def WriteRandomSeed_pokes poke_full rd32_poke_other outside_def)

end
