(* ===== verification/Input_Script.thy ===== *)
theory Input_Script
  imports Nsmb_Prelude
begin

text \<open>
  The input scripts of \<^verbatim>\<open>NsmbInputTimeline.cpp\<close>: the parser (\<open>ParseInputSpec\<close>,
  \<open>ParseInputScript\<close>), the lookup \<open>Apply\<close> and the \<open>Recorder\<close> that writes a script while a
  match runs. Text is a list of characters; \<^verbatim>\<open>std::getline\<close>, \<^verbatim>\<open>operator>>\<close>, \<^verbatim>\<open>strtoul\<close> with base
  0 and \<^verbatim>\<open>std::to_string\<close> are written out. \<open>ulmax\<close> is \<^verbatim>\<open>ULONG_MAX\<close> of the platform
  (\<open>2^64 - 1\<close>, or \<open>2^32 - 1\<close> on Windows). Writing to an open file is taken to succeed.
\<close>

section \<open>Characters and text\<close>

definition isspace :: "char \<Rightarrow> bool" where
  "isspace c \<longleftrightarrow> c \<in> set [CHR '' '', CHR 0x09, CHR 0x0A, CHR 0x0B, CHR 0x0C, CHR 0x0D]"

definition trimmed_char :: "char \<Rightarrow> bool" where
  "trimmed_char c \<longleftrightarrow> c \<in> set [CHR '' '', CHR 0x09, CHR 0x0D, CHR 0x0A]"

definition Trim :: "string \<Rightarrow> string" where
  "Trim value = rev (dropWhile trimmed_char (rev (dropWhile trimmed_char value)))"

definition toupper :: "char \<Rightarrow> char" where
  "toupper c = (let n = of_char c :: nat in if 97 \<le> n \<and> n \<le> 122 then char_of (n - 32) else c)"

definition Upper :: "string \<Rightarrow> string" where
  "Upper value = map toupper value"

definition starts_with :: "string \<Rightarrow> string \<Rightarrow> bool" where
  "starts_with p s \<longleftrightarrow> take (length p) s = p"

text \<open>Repeated \<^verbatim>\<open>std::getline(stream, field, delim)\<close> until it fails.\<close>

function getline_fields :: "char \<Rightarrow> string \<Rightarrow> string list" where
  "getline_fields d s =
     (if s = [] then []
      else takeWhile (\<lambda>c. c \<noteq> d) s #
        (case dropWhile (\<lambda>c. c \<noteq> d) s of [] \<Rightarrow> [] | _ # rest \<Rightarrow> getline_fields d rest))"
  by pat_completeness auto
termination
proof (relation "measure (\<lambda>(_, s). length s)")
  fix d s x rest assume "dropWhile (\<lambda>c. c \<noteq> d) s = x # rest"
  then have "length (x # rest) \<le> length s"
    by (metis length_dropWhile_le)
  then show "((d, rest), d, s) \<in> measure (\<lambda>(_, s). length s)"
    by simp
qed simp

declare getline_fields.simps [simp del]

text \<open>Repeated \<^verbatim>\<open>stream >> word\<close>: the maximal runs of characters that are not white space.\<close>

function words :: "string \<Rightarrow> string list" where
  "words s = (let t = dropWhile isspace s in
     if t = [] then [] else takeWhile (\<lambda>c. \<not> isspace c) t # words (dropWhile (\<lambda>c. \<not> isspace c) t))"
  by pat_completeness auto
termination
proof (relation "measure length")
  fix s t assume t: "t = dropWhile isspace s" "t \<noteq> []"
  then have "\<not> isspace (hd t)"
    by (simp add: hd_dropWhile)
  then have "length (dropWhile (\<lambda>c. \<not> isspace c) t) < length t"
    using t(2) length_dropWhile_le [of "\<lambda>c. \<not> isspace c" "tl t"] by (cases t) auto
  moreover have "length t \<le> length s"
    using t(1) by (simp add: length_dropWhile_le)
  ultimately show "(dropWhile (\<lambda>c. \<not> isspace c) t, s) \<in> measure length"
    by simp
qed simp

declare words.simps [simp del]

section \<open>Numbers\<close>

definition digit_value :: "char \<Rightarrow> int option" where
  "digit_value c = (let n = of_char c :: int in
     if 48 \<le> n \<and> n \<le> 57 then Some (n - 48)
     else if 65 \<le> n \<and> n \<le> 90 then Some (n - 55)
     else if 97 \<le> n \<and> n \<le> 122 then Some (n - 87)
     else None)"

definition is_digit :: "int \<Rightarrow> char \<Rightarrow> bool" where
  "is_digit base c = (case digit_value c of None \<Rightarrow> False | Some d \<Rightarrow> d < base)"

fun digits_value :: "int \<Rightarrow> string \<Rightarrow> int \<Rightarrow> int" where
  "digits_value base [] acc = acc"
| "digits_value base (c # cs) acc =
     digits_value base cs (acc * base + (case digit_value c of None \<Rightarrow> 0 | Some d \<Rightarrow> d))"

text \<open>\<^verbatim>\<open>strtoul(s, &end, 0)\<close>: the value and the text \<^verbatim>\<open>end\<close> points at.\<close>

definition strtoul :: "int \<Rightarrow> string \<Rightarrow> int \<times> string" where
  "strtoul ulmax s =
     (let s1 = dropWhile isspace s;
          neg = starts_with ''-'' s1;
          s2 = (if neg \<or> starts_with ''+'' s1 then tl s1 else s1);
          hex = (starts_with ''0x'' s2 \<or> starts_with ''0X'' s2)
            \<and> 2 < length s2 \<and> is_digit 16 (s2 ! 2);
          base = (if hex then 16 else if starts_with ''0'' s2 then 8 else 10);
          s3 = (if hex then drop 2 s2 else s2);
          ds = takeWhile (is_digit base) s3;
          v = digits_value base ds 0
      in if ds = [] then (0, s)
         else (if ulmax < v then ulmax else if neg \<and> 0 < v then ulmax + 1 - v else v,
               dropWhile (is_digit base) s3))"

definition ParseU32 :: "int \<Rightarrow> string \<Rightarrow> u32 option" where
  "ParseU32 ulmax text =
     (let (v, end) = strtoul ulmax (takeWhile (\<lambda>c. c \<noteq> CHR 0x00) text)
      in if end \<noteq> [] then None else Some (word_of_int v))"

definition digit_char :: "int \<Rightarrow> char" where
  "digit_char d = char_of (48 + d)"

text \<open>\<^verbatim>\<open>std::to_string\<close> of an unsigned number, and \<^verbatim>\<open>operator<<\<close> on one.\<close>

function to_string :: "int \<Rightarrow> string" where
  "to_string n = (if n < 10 then [digit_char n] else to_string (n div 10) @ [digit_char (n mod 10)])"
  by pat_completeness auto
termination
  by (relation "measure nat") (auto simp: nat_less_iff)

declare to_string.simps [simp del]

section \<open>The parser\<close>

definition ButtonBit :: "string \<Rightarrow> int" where
  "ButtonBit name =
     (let key = Upper name in
      if key = ''A'' then 0 else if key = ''B'' then 1 else if key = ''SELECT'' then 2
      else if key = ''START'' then 3 else if key = ''RIGHT'' then 4 else if key = ''LEFT'' then 5
      else if key = ''UP'' then 6 else if key = ''DOWN'' then 7 else if key = ''R'' then 8
      else if key = ''L'' then 9 else if key = ''X'' then 10 else if key = ''Y'' then 11 else -1)"

fun press_buttons :: "string list \<Rightarrow> InputState \<Rightarrow> bool \<times> InputState" where
  "press_buttons [] input = (True, input)"
| "press_buttons (button # buttons) input =
     (let b = ButtonBit (Trim button) in
      if b < 0 then (False, input)
      else press_buttons buttons (input\<lparr>KeyMask := KeyMask input AND NOT (push_bit (nat b) 1)\<rparr>))"

text \<open>The returned input is what the out parameter holds, also when the parse fails.\<close>

definition ParseInputSpec :: "int \<Rightarrow> string \<Rightarrow> bool \<times> InputState" where
  "ParseInputSpec ulmax spec =
     (if spec = [] \<or> Upper spec = ''NONE'' \<or> Upper spec = ''NEUTRAL'' then (True, InputState_default)
      else if starts_with ''mask='' spec \<or> starts_with ''MASK='' spec then
        (case ParseU32 ulmax (drop 5 spec) of
           None \<Rightarrow> (False, InputState_default)
         | Some keys \<Rightarrow> (True, InputState_default\<lparr>KeyMask := keys AND 0xFFF\<rparr>))
      else press_buttons (getline_fields (CHR ''+'') spec) InputState_default)"

record InputSpan =
  SP_Instance :: int
  SP_Start :: u32
  SP_End :: u32
  SP_Input :: InputState

datatype ParseErrorKind = ErrNone | ErrOpen | ErrTarget | ErrRange | ErrInput | ErrTouch

record ParseError =
  PE_Kind :: ParseErrorKind
  PE_Line :: int

definition ParseError_default :: ParseError where
  "ParseError_default = \<lparr>PE_Kind = ErrNone, PE_Line = 0\<rparr>"

definition word_at :: "string list \<Rightarrow> nat \<Rightarrow> string" where
  "word_at ws i = (if i < length ws then ws ! i else [])"

text \<open>The target of a line: every instance, or the instance an \<^verbatim>\<open>INST\<close> prefix names.\<close>

definition parse_target :: "int \<Rightarrow> string \<Rightarrow> int option" where
  "parse_target ulmax target =
     (let upperTarget = Upper target in
      if upperTarget = ''ALL'' then Some (-1)
      else if \<not> starts_with ''INST'' upperTarget then None
      else (case ParseU32 ulmax (drop 4 upperTarget) of
              None \<Rightarrow> None
            | Some i \<Rightarrow> if 16 \<le> i then None else Some (uint i)))"

definition parse_touch :: "int \<Rightarrow> string \<Rightarrow> InputState \<Rightarrow> InputState option" where
  "parse_touch ulmax touch input =
     (if CHR '','' \<notin> set touch then None
      else
        case (ParseU32 ulmax (takeWhile (\<lambda>c. c \<noteq> CHR '','') touch),
              ParseU32 ulmax (tl (dropWhile (\<lambda>c. c \<noteq> CHR '','') touch))) of
          (Some x, Some y) \<Rightarrow> Some (input\<lparr>Touching := True, TouchX := ucast (min x 255),
              TouchY := ucast (min y 191)\<rparr>)
        | _ \<Rightarrow> None)"

text \<open>One line after its comment is cut off and it is trimmed; it is not empty.\<close>

definition parse_line :: "int \<Rightarrow> string \<Rightarrow> ParseErrorKind + InputSpan" where
  "parse_line ulmax line =
     (let ws = words line;
          shifted = CHR ''-'' \<in> set (word_at ws 0);
          range = (if shifted then word_at ws 0 else word_at ws 1);
          buttons = (if shifted then word_at ws 1 else word_at ws 2);
          touch = (if shifted then word_at ws 2 else word_at ws 3)
      in case (if shifted then Some (-1) else parse_target ulmax (word_at ws 0)) of
           None \<Rightarrow> Inl ErrTarget
         | Some inst \<Rightarrow>
             if CHR ''-'' \<notin> set range then Inl ErrRange
             else
               case (ParseU32 ulmax (takeWhile (\<lambda>c. c \<noteq> CHR ''-'') range),
                     ParseU32 ulmax (tl (dropWhile (\<lambda>c. c \<noteq> CHR ''-'') range)),
                     ParseInputSpec ulmax buttons) of
                 (Some start, Some end, True, input) \<Rightarrow>
                   if end < start then Inl ErrInput
                   else if touch = [] then
                     Inr \<lparr>SP_Instance = inst, SP_Start = start, SP_End = end, SP_Input = input\<rparr>
                   else
                     (case parse_touch ulmax touch input of
                        None \<Rightarrow> Inl ErrTouch
                      | Some i \<Rightarrow> Inr \<lparr>SP_Instance = inst, SP_Start = start, SP_End = end, SP_Input = i\<rparr>)
               | _ \<Rightarrow> Inl ErrInput)"

fun parse_lines :: "int \<Rightarrow> int \<Rightarrow> string list \<Rightarrow> InputSpan list \<Rightarrow> bool \<times> InputSpan list \<times> ParseError" where
  "parse_lines ulmax lineNo [] spans = (True, spans, ParseError_default)"
| "parse_lines ulmax lineNo (raw # lines) spans =
     (let line = Trim (takeWhile (\<lambda>c. c \<noteq> CHR ''#'') raw) in
      if line = [] then parse_lines ulmax (lineNo + 1) lines spans
      else case parse_line ulmax line of
             Inl kind \<Rightarrow> (False, spans, \<lparr>PE_Kind = kind, PE_Line = lineNo + 1\<rparr>)
           | Inr span \<Rightarrow> parse_lines ulmax (lineNo + 1) lines (spans @ [span]))"

definition ParseInputScript :: "int \<Rightarrow> string \<Rightarrow> bool \<times> InputSpan list \<times> ParseError" where
  "ParseInputScript ulmax text = parse_lines ulmax 0 (getline_fields (CHR 0x0A) text) []"

definition LoadInputScriptFile :: "int \<Rightarrow> string option \<Rightarrow> bool \<times> InputSpan list \<times> ParseError" where
  "LoadInputScriptFile ulmax file =
     (case file of
        None \<Rightarrow> (False, [], \<lparr>PE_Kind = ErrOpen, PE_Line = 0\<rparr>)
      | Some text \<Rightarrow> ParseInputScript ulmax text)"

fun Apply :: "InputSpan list \<Rightarrow> int \<Rightarrow> u32 \<Rightarrow> InputState \<Rightarrow> InputState" where
  "Apply [] instanceID frame fallback = fallback"
| "Apply (span # spans) instanceID frame fallback =
     (if (SP_Instance span < 0 \<or> SP_Instance span = instanceID)
         \<and> SP_Start span \<le> frame \<and> frame \<le> SP_End span
      then SP_Input span else Apply spans instanceID frame fallback)"

section \<open>The recorder\<close>

definition kButtonNames :: "string list" where
  "kButtonNames = [''A'', ''B'', ''SELECT'', ''START'', ''RIGHT'', ''LEFT'', ''UP'', ''DOWN'',
     ''R'', ''L'', ''X'', ''Y'']"

fun spec_buttons :: "u32 \<Rightarrow> nat list \<Rightarrow> string \<Rightarrow> string" where
  "spec_buttons keyMask [] spec = spec"
| "spec_buttons keyMask (b # bits) spec =
     (if keyMask AND push_bit b 1 \<noteq> 0 then spec_buttons keyMask bits spec
      else spec_buttons keyMask bits ((if spec \<noteq> [] then spec @ ''+'' else spec) @ kButtonNames ! b))"

definition InputSpecForScript :: "InputState \<Rightarrow> string" where
  "InputSpecForScript input =
     (let spec = spec_buttons (KeyMask input) [0..<12] [];
          spec' = (if spec = [] then ''NONE'' else spec)
      in if Touching input
         then spec' @ '' '' @ to_string (uint (TouchX input)) @ '','' @ to_string (uint (TouchY input))
         else spec')"

record Recorder =
  RC_Enabled :: bool
  RC_Output :: "string option"
  RC_StartFrame :: u32
  RC_EndFrame :: u32
  RC_InstanceID :: int
  RC_HasSpan :: bool
  RC_SpanStart :: u32
  RC_SpanEnd :: u32
  RC_SpanInput :: InputState
  RC_PendingSpans :: int

definition Recorder_init :: Recorder where
  "Recorder_init = \<lparr>RC_Enabled = False, RC_Output = Some [], RC_StartFrame = 0, RC_EndFrame = 0,
     RC_InstanceID = -1, RC_HasSpan = False, RC_SpanStart = 0, RC_SpanEnd = 0,
     RC_SpanInput = InputState_default, RC_PendingSpans = 0\<rparr>"

text \<open>\<open>RC_Output\<close> is the text written so far, or \<^const>\<open>None\<close> once the stream has failed.\<close>

definition span_line :: "u32 \<Rightarrow> u32 \<Rightarrow> InputState \<Rightarrow> string" where
  "span_line start end input =
     to_string (uint start) @ ''-'' @ to_string (uint end) @ '' '' @ InputSpecForScript input @ [CHR 0x0A]"

definition FlushSpanLocked :: "Recorder \<Rightarrow> Recorder" where
  "FlushSpanLocked r =
     (case RC_Output r of
        None \<Rightarrow> r
      | Some out \<Rightarrow>
          if \<not> RC_HasSpan r then r
          else r\<lparr>RC_Output := Some (out @ span_line (RC_SpanStart r) (RC_SpanEnd r) (RC_SpanInput r)),
                 RC_HasSpan := False,
                 RC_PendingSpans := (if 64 \<le> RC_PendingSpans r + 1 then 0 else RC_PendingSpans r + 1)\<rparr>)"

definition RecorderClose :: "Recorder \<Rightarrow> Recorder" where
  "RecorderClose r = FlushSpanLocked (r\<lparr>RC_Enabled := False\<rparr>)"

definition script_header :: "u32 \<Rightarrow> u32 \<Rightarrow> int \<Rightarrow> string" where
  "script_header startFrame endFrame instanceID =
     ''# NSMB input recording generated by melonDS NSML PoC'' @ [CHR 0x0A]
     @ ''# startFrame='' @ to_string (uint startFrame) @ '' endFrame='' @ to_string (uint endFrame)
     @ '' instance='' @ (if instanceID < 0 then ''-'' @ to_string (- instanceID)
                         else to_string instanceID) @ [CHR 0x0A]"

definition RecorderOpen :: "bool \<Rightarrow> u32 \<Rightarrow> u32 \<Rightarrow> int \<Rightarrow> Recorder \<Rightarrow> bool \<times> Recorder" where
  "RecorderOpen opened startFrame endFrame instanceID r =
     (let r1 = RecorderClose r in
      if \<not> opened then (False, r1\<lparr>RC_Output := None\<rparr>)
      else (True, r1\<lparr>RC_StartFrame := startFrame, RC_EndFrame := endFrame, RC_InstanceID := instanceID,
              RC_HasSpan := False, RC_PendingSpans := 0,
              RC_Output := Some (script_header startFrame endFrame instanceID), RC_Enabled := True\<rparr>))"

definition start_span :: "u32 \<Rightarrow> InputState \<Rightarrow> Recorder \<Rightarrow> Recorder" where
  "start_span frame input r =
     r\<lparr>RC_SpanStart := frame, RC_SpanEnd := frame, RC_SpanInput := input, RC_HasSpan := True\<rparr>"

definition Record :: "int \<Rightarrow> u32 \<Rightarrow> InputState \<Rightarrow> Recorder \<Rightarrow> Recorder" where
  "Record instanceID frame input r =
     (if \<not> RC_Enabled r then r
      else if RC_Output r = None then r
      else if 0 \<le> RC_InstanceID r \<and> RC_InstanceID r \<noteq> instanceID then r
      else if frame < RC_StartFrame r \<or> (RC_EndFrame r \<noteq> 0 \<and> RC_EndFrame r < frame) then r
      else
        let recordInput = input\<lparr>KeyMask := KeyMask input AND 0xFFF\<rparr> in
        if \<not> RC_HasSpan r then start_span frame recordInput r
        else if RC_SpanEnd r + 1 = frame \<and> InputsEqual (RC_SpanInput r) recordInput
        then r\<lparr>RC_SpanEnd := frame\<rparr>
        else if frame \<le> RC_SpanEnd r then
          (if \<not> InputsEqual (RC_SpanInput r) recordInput \<and> RC_SpanStart r = frame \<and> RC_SpanEnd r = frame
           then r\<lparr>RC_SpanInput := recordInput\<rparr> else r)
        else start_span frame recordInput (FlushSpanLocked r))"

section \<open>Numbers round trip\<close>

definition digit_chars :: "char set" where
  "digit_chars = set ''0123456789''"

lemma digit_table:
  "list_all (\<lambda>d. digit_value (digit_char d) = Some d \<and> digit_char d \<in> set ''0123456789''
     \<and> (digit_char d = CHR ''0'') = (d = 0)) [0..9]"
  by code_simp

lemma digit_char_facts:
  assumes "0 \<le> d" "d < 10"
  shows "digit_value (digit_char d) = Some d" "digit_char d \<in> digit_chars"
    "(digit_char d = CHR ''0'') = (d = 0)"
proof -
  have "d \<in> set [0..9]"
    using assms by simp
  with digit_table have "digit_value (digit_char d) = Some d \<and> digit_char d \<in> set ''0123456789''
     \<and> (digit_char d = CHR ''0'') = (d = 0)"
    unfolding list_all_iff by blast
  then show "digit_value (digit_char d) = Some d" "digit_char d \<in> digit_chars"
    "(digit_char d = CHR ''0'') = (d = 0)"
    unfolding digit_chars_def by blast+
qed

lemma is_digit_10_table: "list_all (\<lambda>c. is_digit 10 c \<and> \<not> isspace c \<and> \<not> trimmed_char c) ''0123456789''"
  by code_simp

lemma digit_chars_facts:
  "c \<in> digit_chars \<Longrightarrow> is_digit 10 c" "c \<in> digit_chars \<Longrightarrow> \<not> isspace c"
  "c \<in> digit_chars \<Longrightarrow> \<not> trimmed_char c"
  using is_digit_10_table unfolding digit_chars_def list_all_iff by blast+

lemma digits_value_append:
  "digits_value b (xs @ ys) acc = digits_value b ys (digits_value b xs acc)"
  by (induction b xs acc rule: digits_value.induct) simp_all

lemma to_string_digits: "0 \<le> n \<Longrightarrow> set (to_string n) \<subseteq> digit_chars"
proof (induction n rule: to_string.induct)
  case (1 n)
  then show ?case
    by (subst to_string.simps) (auto simp: digit_char_facts)
qed

lemma to_string_ne [simp]: "to_string n \<noteq> []"
  by (subst to_string.simps) simp

lemma to_string_value: "0 \<le> n \<Longrightarrow> digits_value 10 (to_string n) 0 = n"
proof (induction n rule: to_string.induct)
  case (1 n)
  then show ?case
    by (subst to_string.simps) (auto simp: digit_char_facts digits_value_append)
qed

lemma to_string_hd: "0 \<le> n \<Longrightarrow> (hd (to_string n) = CHR ''0'') = (n = 0)"
proof (induction n rule: to_string.induct)
  case (1 n)
  show ?case
  proof (cases "n < 10")
    case True
    with 1 show ?thesis
      by (subst to_string.simps) (simp add: digit_char_facts)
  next
    case False
    with 1 show ?thesis
      by (subst to_string.simps) auto
  qed
qed

lemma to_string_0 [simp]: "to_string 0 = ''0''"
  by code_simp

lemma starts_with_Cons: "starts_with [c] s \<longleftrightarrow> s \<noteq> [] \<and> hd s = c"
  by (cases s) (auto simp: starts_with_def)

lemma starts_with_hd: "starts_with (c # p) s \<Longrightarrow> s \<noteq> [] \<and> hd s = c"
  by (cases s) (auto simp: starts_with_def)

lemma strtoul_to_string:
  assumes "0 \<le> n" "n \<le> ulmax"
  shows "strtoul ulmax (to_string n) = (n, [])"
proof (cases "n = 0")
  case True
  with assms show ?thesis
    by (simp add: strtoul_def starts_with_def isspace_def is_digit_def digit_value_def)
next
  case False
  let ?s = "to_string n"
  note d = to_string_digits [OF assms(1)]
  have h: "hd ?s \<in> digit_chars" "hd ?s \<noteq> CHR ''0''"
    using d to_string_hd [OF assms(1)] False by auto
  have "\<not> isspace (hd ?s)"
    by (rule digit_chars_facts(2) [OF h(1)])
  then have "dropWhile isspace ?s = ?s"
    by (cases ?s) simp_all
  moreover have "\<not> starts_with ''-'' ?s" "\<not> starts_with ''+'' ?s"
    using h(1) by (auto simp: starts_with_Cons digit_chars_def)
  moreover have "\<not> starts_with ''0'' ?s" "\<not> starts_with ''0x'' ?s" "\<not> starts_with ''0X'' ?s"
    using h(2) by (auto dest!: starts_with_hd)
  moreover have "\<forall>c \<in> set ?s. is_digit 10 c"
    using d digit_chars_facts(1) by blast
  moreover from this have "takeWhile (is_digit 10) ?s = ?s" "dropWhile (is_digit 10) ?s = []"
    by simp_all
  ultimately show ?thesis
    using assms by (simp add: strtoul_def Let_def to_string_value del: takeWhile_eq_all_conv dropWhile_eq_Nil_conv)
qed

lemma ParseU32_to_string:
  assumes "0 \<le> n" "n \<le> ulmax"
  shows "ParseU32 ulmax (to_string n) = Some (word_of_int n)"
proof -
  have "CHR 0x00 \<notin> digit_chars"
    by (simp add: digit_chars_def)
  then have "takeWhile (\<lambda>c. c \<noteq> CHR 0x00) (to_string n) = to_string n"
    using to_string_digits [OF assms(1)] by (intro takeWhile_eq_all_conv [THEN iffD2]) auto
  then show ?thesis
    using strtoul_to_string [OF assms] by (simp add: ParseU32_def del: takeWhile_eq_all_conv)
qed

section \<open>Button specifications round trip\<close>

fun plus_join :: "string list \<Rightarrow> string" where
  "plus_join [] = []"
| "plus_join [x] = x"
| "plus_join (x # y # r) = x @ ''+'' @ plus_join (y # r)"

lemma plus_join_snoc: "plus_join (fs @ [x]) = (if fs = [] then x else plus_join fs @ ''+'' @ x)"
  by (induction fs rule: plus_join.induct) simp_all

lemma plus_join_ne: "fs \<noteq> [] \<Longrightarrow> \<forall>f \<in> set fs. f \<noteq> [] \<Longrightarrow> plus_join fs \<noteq> []"
  by (induction fs rule: plus_join.induct) simp_all

lemma hd_plus_join: "fs \<noteq> [] \<Longrightarrow> hd fs \<noteq> [] \<Longrightarrow> hd (plus_join fs) = hd (hd fs)"
  by (induction fs rule: plus_join.induct) simp_all

lemma set_plus_join: "set (plus_join fs) \<subseteq> insert (CHR ''+'') (\<Union> (set ` set fs))"
  by (induction fs rule: plus_join.induct) auto

lemma getline_fields_Nil [simp]: "getline_fields d [] = []"
  by (subst getline_fields.simps) simp

lemma takeWhile_delim [simp]: "d \<notin> set x \<Longrightarrow> takeWhile (\<lambda>c. c \<noteq> d) (x @ d # r) = x"
  by (induction x) auto

lemma dropWhile_delim [simp]: "d \<notin> set x \<Longrightarrow> dropWhile (\<lambda>c. c \<noteq> d) (x @ d # r) = d # r"
  by (induction x) auto

lemma takeWhile_no_delim [simp]: "d \<notin> set x \<Longrightarrow> takeWhile (\<lambda>c. c \<noteq> d) x = x"
  by (induction x) auto

lemma dropWhile_no_delim [simp]: "d \<notin> set x \<Longrightarrow> dropWhile (\<lambda>c. c \<noteq> d) x = []"
  by (induction x) auto

lemma getline_fields_last: "d \<notin> set x \<Longrightarrow> x \<noteq> [] \<Longrightarrow> getline_fields d x = [x]"
  by (subst getline_fields.simps) simp

lemma getline_fields_delim: "d \<notin> set x \<Longrightarrow> getline_fields d (x @ d # r) = x # getline_fields d r"
  by (subst getline_fields.simps) simp

lemma getline_fields_plus_join:
  "\<forall>f \<in> set fs. f \<noteq> [] \<and> CHR ''+'' \<notin> set f \<Longrightarrow> getline_fields (CHR ''+'') (plus_join fs) = fs"
  by (induction fs rule: plus_join.induct) (simp_all add: getline_fields_last getline_fields_delim)

lemma button_table:
  "list_all (\<lambda>b. ButtonBit (Trim (kButtonNames ! b)) = int b \<and> kButtonNames ! b \<noteq> []
     \<and> list_all (\<lambda>c. c \<in> set ''ABCDEFGHILNOPRSTUWXY'') (kButtonNames ! b)
     \<and> hd (kButtonNames ! b) \<in> set ''ABSRLUDXY'') [0..<12]"
  by code_simp

lemma button_facts:
  assumes "b < 12"
  shows "ButtonBit (Trim (kButtonNames ! b)) = int b" "kButtonNames ! b \<noteq> []"
    "set (kButtonNames ! b) \<subseteq> set ''ABCDEFGHILNOPRSTUWXY''" "hd (kButtonNames ! b) \<in> set ''ABSRLUDXY''"
proof -
  have "b \<in> set [0..<12]"
    using assms by simp
  with button_table show "ButtonBit (Trim (kButtonNames ! b)) = int b" "kButtonNames ! b \<noteq> []"
    "set (kButtonNames ! b) \<subseteq> set ''ABCDEFGHILNOPRSTUWXY''" "hd (kButtonNames ! b) \<in> set ''ABSRLUDXY''"
    unfolding list_all_iff by blast+
qed

definition pressed :: "u32 \<Rightarrow> nat list" where
  "pressed keyMask = filter (\<lambda>b. \<not> bit keyMask b) [0..<12]"

lemma spec_buttons_join:
  assumes "\<forall>b \<in> set bits. b < 12" "\<forall>f \<in> set fs. f \<noteq> []"
  shows "spec_buttons m bits (plus_join fs)
     = plus_join (fs @ map (\<lambda>b. kButtonNames ! b) (filter (\<lambda>b. \<not> bit m b) bits))"
  using assms
proof (induction bits arbitrary: fs)
  case Nil
  then show ?case by simp
next
  case (Cons b bits)
  have step: "(if plus_join fs \<noteq> [] then plus_join fs @ ''+'' else plus_join fs) @ kButtonNames ! b
      = plus_join (fs @ [kButtonNames ! b])"
    using Cons.prems(2) plus_join_ne [of fs] by (cases "fs = []") (auto simp: plus_join_snoc)
  have "spec_buttons m bits (plus_join (fs @ [kButtonNames ! b]))
      = plus_join ((fs @ [kButtonNames ! b]) @ map (\<lambda>b. kButtonNames ! b) (filter (\<lambda>b. \<not> bit m b) bits))"
    using Cons.prems button_facts(2) by (intro Cons.IH) auto
  then show ?case
    using Cons.prems Cons.IH [of fs] step by (simp add: and_exp_eq_0_iff_not_bit del: plus_join.simps)
qed

lemma press_buttons_names:
  "\<forall>b \<in> set bits. b < 12 \<Longrightarrow>
   press_buttons (map (\<lambda>b. kButtonNames ! b) bits) input =
     (True, input\<lparr>KeyMask := foldl (\<lambda>k b. k AND NOT (push_bit b 1)) (KeyMask input) bits\<rparr>)"
  by (induction bits arbitrary: input) (simp_all add: button_facts)

lemma bit_clear_fold:
  "bit (foldl (\<lambda>k b. k AND NOT (push_bit b 1)) (k :: u32) bits) n \<longleftrightarrow> bit k n \<and> n \<notin> set bits"
  by (induction bits arbitrary: k) (auto simp: bit_simps dest: bit_imp_le_length)

lemma foldl_pressed: "foldl (\<lambda>k b. k AND NOT (push_bit b 1)) (0xFFF :: u32) (pressed m) = m AND 0xFFF"
proof (rule bit_word_eqI)
  fix n assume "n < LENGTH(32)"
  have "(0xFFF :: u32) = mask 12"
    by (simp add: mask_eq_exp_minus_1)
  then have "bit (0xFFF :: u32) n \<longleftrightarrow> n < 12"
    using \<open>n < LENGTH(32)\<close> by (simp only: bit_mask_iff possible_bit_word) simp
  then show "bit (foldl (\<lambda>k b. k AND NOT (push_bit b 1)) (0xFFF :: u32) (pressed m)) n = bit (m AND 0xFFF) n"
    unfolding bit_clear_fold by (auto simp: bit_and_iff pressed_def)
qed

lemma pressed_less: "\<forall>b \<in> set (pressed m). b < 12"
  by (simp add: pressed_def)

definition button_spec :: "u32 \<Rightarrow> string" where
  "button_spec m = (if pressed m = [] then ''NONE'' else plus_join (map (\<lambda>b. kButtonNames ! b) (pressed m)))"

lemma InputSpecForScript_text:
  "InputSpecForScript input = button_spec (KeyMask input) @
     (if Touching input then '' '' @ to_string (uint (TouchX input)) @ '','' @ to_string (uint (TouchY input)) else [])"
proof -
  have "spec_buttons (KeyMask input) [0..<12] [] = plus_join (map (\<lambda>b. kButtonNames ! b) (pressed (KeyMask input)))"
    using spec_buttons_join [of "[0..<12]" "[]"] by (simp add: pressed_def)
  moreover have "plus_join (map (\<lambda>b. kButtonNames ! b) (pressed m)) = [] \<longleftrightarrow> pressed m = []" for m
    using plus_join_ne [of "map (\<lambda>b. kButtonNames ! b) (pressed m)"] pressed_less button_facts(2) by fastforce
  ultimately show ?thesis
    by (simp add: InputSpecForScript_def button_spec_def Let_def)
qed

lemma button_spec_chars: "set (button_spec m) \<subseteq> set ''+ABCDEFGHILNOPRSTUWXY''"
proof -
  have "set (kButtonNames ! b) \<subseteq> set ''ABCDEFGHILNOPRSTUWXY''" if "b \<in> set (pressed m)" for b
    using button_facts(3) pressed_less that by blast
  then have "set (plus_join (map (\<lambda>b. kButtonNames ! b) (pressed m))) \<subseteq> insert (CHR ''+'') (set ''ABCDEFGHILNOPRSTUWXY'')"
    using set_plus_join [of "map (\<lambda>b. kButtonNames ! b) (pressed m)"] by fastforce
  then show ?thesis
    by (auto simp: button_spec_def)
qed

lemma button_spec_ne [simp]: "button_spec m \<noteq> []"
  using plus_join_ne [of "map (\<lambda>b. kButtonNames ! b) (pressed m)"] pressed_less button_facts(2)
  by (auto simp: button_spec_def)

lemma Upper_hd: "Upper s = c # cs \<Longrightarrow> s \<noteq> [] \<and> toupper (hd s) = c"
  by (cases s) (auto simp: Upper_def)

lemma ParseInputSpec_button_spec:
  "ParseInputSpec ulmax (button_spec m) = (True, InputState_default\<lparr>KeyMask := m AND 0xFFF\<rparr>)"
proof (cases "pressed m = []")
  case True
  then have "m AND 0xFFF = 0xFFF"
    using foldl_pressed [of m] by simp
  moreover have "Upper ''NONE'' = ''NONE''"
    by code_simp
  ultimately show ?thesis
    using True by (simp add: button_spec_def ParseInputSpec_def InputState_default_def)
next
  case False
  let ?names = "map (\<lambda>b. kButtonNames ! b) (pressed m)"
  have names: "\<forall>f \<in> set ?names. f \<noteq> [] \<and> CHR ''+'' \<notin> set f"
  proof -
    have "f \<noteq> [] \<and> CHR ''+'' \<notin> set f" if "b < 12" "f = kButtonNames ! b" for f b
      using button_facts(2,3) [OF that(1)] that(2) by auto
    then show ?thesis
      using pressed_less [of m] by (metis (no_types, lifting) imageE list.set_map)
  qed
  have "hd (plus_join ?names) = hd (hd ?names)"
    using False names by (intro hd_plus_join) (auto simp: hd_map)
  moreover have "hd (pressed m) < 12"
    using False pressed_less [of m] by simp
  ultimately have hd: "hd (plus_join ?names) \<in> set ''ABSRLUDXY''"
    using button_facts(4) by (simp only: hd_map [OF False])
  have "list_all (\<lambda>c. toupper c \<noteq> CHR ''N'') ''ABSRLUDXY''"
    by code_simp
  with hd have "toupper (hd (plus_join ?names)) \<noteq> CHR ''N''"
    unfolding list_all_iff by blast
  then have "Upper (plus_join ?names) \<noteq> ''NONE''" "Upper (plus_join ?names) \<noteq> ''NEUTRAL''"
    by (auto dest!: Upper_hd)
  moreover have "\<not> starts_with ''mask='' (plus_join ?names)" "\<not> starts_with ''MASK='' (plus_join ?names)"
    using hd by (auto dest!: starts_with_hd)
  ultimately show ?thesis
    using False button_spec_ne [of m] names pressed_less
    by (simp add: button_spec_def ParseInputSpec_def getline_fields_plus_join press_buttons_names
        InputState_default_def foldl_pressed del: push_bit_of_1)
qed


section \<open>Lines round trip\<close>

text \<open>What a script keeps of an input: twelve key bits, and the touch point while touching.\<close>

definition script_input :: "InputState \<Rightarrow> InputState" where
  "script_input i = \<lparr>KeyMask = KeyMask i AND 0xFFF, Touching = Touching i,
     TouchX = (if Touching i then min (TouchX i) 255 else 0),
     TouchY = (if Touching i then min (TouchY i) 191 else 0)\<rparr>"

lemma words_Nil [simp]: "words [] = []"
  by (subst words.simps) simp

lemma words_one: "x \<noteq> [] \<Longrightarrow> \<forall>c \<in> set x. \<not> isspace c \<Longrightarrow> words x = [x]"
proof -
  assume x: "x \<noteq> []" "\<forall>c \<in> set x. \<not> isspace c"
  then have "dropWhile isspace x = x"
    by (cases x) simp_all
  with x show ?thesis
    by (subst words.simps) (simp add: takeWhile_eq_all_conv [THEN iffD2] dropWhile_eq_Nil_conv [THEN iffD2])
qed

lemma words_space: "x \<noteq> [] \<Longrightarrow> \<forall>c \<in> set x. \<not> isspace c \<Longrightarrow> words (x @ CHR '' '' # r) = x # words r"
proof -
  assume x: "x \<noteq> []" "\<forall>c \<in> set x. \<not> isspace c"
  have sp: "isspace (CHR '' '')"
    by (simp add: isspace_def)
  have d: "dropWhile isspace (x @ CHR '' '' # r) = x @ CHR '' '' # r"
    using x by (cases x) simp_all
  have t: "takeWhile (\<lambda>c. \<not> isspace c) (x @ CHR '' '' # r) = x"
    "dropWhile (\<lambda>c. \<not> isspace c) (x @ CHR '' '' # r) = CHR '' '' # r"
    using x(2) sp by (simp_all add: takeWhile_append2 dropWhile_append2)
  have "words (CHR '' '' # r) = words r"
    using sp by (simp add: words.simps [of "CHR '' '' # r"] words.simps [of r])
  with d t x(1) show ?thesis
    by (simp add: words.simps [of "x @ CHR '' '' # r"])
qed

text \<open>A line is cut into its words, none of which holds a comment sign or a line end.\<close>

definition plain_chars :: "char set" where
  "plain_chars = set ''0123456789+-,ABCDEFGHILNOPRSTUWXY''"

lemma plain_table: "list_all (\<lambda>c. \<not> isspace c \<and> \<not> trimmed_char c \<and> c \<noteq> CHR ''#'' \<and> c \<noteq> CHR 0x0A)
    ''0123456789+-,ABCDEFGHILNOPRSTUWXY''"
  by code_simp

lemma plain_facts:
  "c \<in> plain_chars \<Longrightarrow> \<not> isspace c \<and> \<not> trimmed_char c \<and> c \<noteq> CHR ''#'' \<and> c \<noteq> CHR 0x0A"
  using plain_table unfolding plain_chars_def list_all_iff by blast

lemma digit_chars_plain: "digit_chars \<subseteq> plain_chars"
  unfolding digit_chars_def plain_chars_def by auto

lemma button_spec_plain: "set (button_spec m) \<subseteq> plain_chars"
proof -
  have "set ''+ABCDEFGHILNOPRSTUWXY'' \<subseteq> plain_chars"
    unfolding plain_chars_def by auto
  with button_spec_chars show ?thesis
    by (rule subset_trans)
qed

definition range_text :: "u32 \<Rightarrow> u32 \<Rightarrow> string" where
  "range_text s e = to_string (uint s) @ ''-'' @ to_string (uint e)"

definition touch_text :: "InputState \<Rightarrow> string" where
  "touch_text i = to_string (uint (TouchX i)) @ '','' @ to_string (uint (TouchY i))"

lemma to_string_uint_plain: "set (to_string (uint w)) \<subseteq> plain_chars"
  using to_string_digits [of "uint w"] digit_chars_plain by auto

lemma range_text_plain: "set (range_text s e) \<subseteq> plain_chars"
  using to_string_uint_plain [of s] to_string_uint_plain [of e] by (simp add: range_text_def) (simp add: plain_chars_def)

lemma touch_text_plain: "set (touch_text i) \<subseteq> plain_chars"
  using to_string_uint_plain [of "TouchX i"] to_string_uint_plain [of "TouchY i"]
  by (simp add: touch_text_def) (simp add: plain_chars_def)

lemma range_text_ne [simp]: "range_text s e \<noteq> []"
  by (simp add: range_text_def)

lemma touch_text_ne [simp]: "touch_text i \<noteq> []"
  by (simp add: touch_text_def)

definition line_text :: "u32 \<Rightarrow> u32 \<Rightarrow> InputState \<Rightarrow> string" where
  "line_text s e i = range_text s e @ '' '' @ button_spec (KeyMask i) @
     (if Touching i then '' '' @ touch_text i else [])"

lemma span_line_text: "span_line s e i = line_text s e i @ [CHR 0x0A]"
  by (simp add: span_line_def line_text_def range_text_def touch_text_def InputSpecForScript_text)

lemma words_line_text:
  "words (line_text s e i) = [range_text s e, button_spec (KeyMask i)] @ (if Touching i then [touch_text i] else [])"
proof -
  have "\<forall>c \<in> set (range_text s e). \<not> isspace c" "\<forall>c \<in> set (button_spec (KeyMask i)). \<not> isspace c"
    "\<forall>c \<in> set (touch_text i). \<not> isspace c"
    using plain_facts range_text_plain button_spec_plain touch_text_plain by blast+
  then show ?thesis
    by (simp add: line_text_def words_space words_one)
qed

lemma Trim_plain:
  assumes "s \<noteq> []" "\<not> trimmed_char (hd s)" "\<not> trimmed_char (last s)"
  shows "Trim s = s"
proof -
  have "dropWhile trimmed_char s = s"
    using assms by (cases s) simp_all
  moreover have "dropWhile trimmed_char (rev s) = rev s"
    using assms by (cases s rule: rev_cases) simp_all
  ultimately show ?thesis
    by (simp add: Trim_def)
qed

lemma set_line_text: "set (line_text s e i) \<subseteq> insert (CHR '' '') plain_chars"
  using range_text_plain [of s e] button_spec_plain [of "KeyMask i"] touch_text_plain [of i]
  by (auto simp: line_text_def)

lemma line_delims: "CHR ''#'' \<notin> insert (CHR '' '') plain_chars" "CHR 0x0A \<notin> insert (CHR '' '') plain_chars"
  using plain_facts by auto

lemma line_text_ends:
  "line_text s e i \<noteq> []" "hd (line_text s e i) \<in> plain_chars" "last (line_text s e i) \<in> plain_chars"
proof -
  have "hd (range_text s e) \<in> plain_chars" "last (button_spec (KeyMask i)) \<in> plain_chars"
    "last (touch_text i) \<in> plain_chars"
    using range_text_plain button_spec_plain touch_text_plain by (meson hd_in_set last_in_set subsetD range_text_ne button_spec_ne touch_text_ne)+
  then show "line_text s e i \<noteq> []" "hd (line_text s e i) \<in> plain_chars" "last (line_text s e i) \<in> plain_chars"
    by (simp_all add: line_text_def)
qed

lemma Trim_line_text: "Trim (takeWhile (\<lambda>c. c \<noteq> CHR ''#'') (line_text s e i)) = line_text s e i"
proof -
  have "CHR ''#'' \<notin> set (line_text s e i)"
    using set_line_text [of s e i] line_delims by blast
  moreover have "Trim (line_text s e i) = line_text s e i"
    using line_text_ends [of s e i] plain_facts by (intro Trim_plain) auto
  ultimately show ?thesis
    by simp
qed

lemma min_u16_u32:
  fixes x y :: u16
  shows "ucast (min (word_of_int (uint x) :: u32) (ucast y)) = min x y"
proof -
  have "word_of_int (uint x) = (ucast x :: u32)"
    by (rule ucast_eq [symmetric])
  moreover have "ucast x \<le> (ucast y :: u32) \<longleftrightarrow> x \<le> y"
    by (simp add: word_le_nat_alt unsigned_ucast_eq take_bit_nat_eq_self unsigned_less [THEN less_le_trans])
  moreover have "ucast (ucast z :: u32) = z" for z :: u16
    by (rule bit_word_eqI) (simp add: bit_simps)
  ultimately show ?thesis
    by (simp add: min_def)
qed

lemma parse_touch_text:
  assumes "2 ^ 32 - 1 \<le> ulmax"
  shows "parse_touch ulmax (touch_text i) input =
     Some (input\<lparr>Touching := True, TouchX := min (TouchX i) 255, TouchY := min (TouchY i) 191\<rparr>)"
proof -
  have c: "CHR '','' \<notin> digit_chars"
    by (simp add: digit_chars_def)
  then have "CHR '','' \<notin> set (to_string (uint (TouchX i)))"
    using to_string_digits [of "uint (TouchX i)"] by auto
  moreover have "uint (TouchX i) \<le> ulmax" "uint (TouchY i) \<le> ulmax"
    using assms uint_lt2p [of "TouchX i"] uint_lt2p [of "TouchY i"] by simp_all
  ultimately show ?thesis
    using min_u16_u32 [of "TouchX i" 255] min_u16_u32 [of "TouchY i" 191]
    by (simp add: parse_touch_def touch_text_def ParseU32_to_string)
qed

lemma parse_line_text:
  assumes "2 ^ 32 - 1 \<le> ulmax" "s \<le> e"
  shows "parse_line ulmax (line_text s e i) =
     Inr \<lparr>SP_Instance = -1, SP_Start = s, SP_End = e, SP_Input = script_input i\<rparr>"
proof -
  have "CHR ''-'' \<notin> digit_chars"
    by (simp add: digit_chars_def)
  then have "CHR ''-'' \<notin> set (to_string (uint s))"
    using to_string_digits [of "uint s"] by auto
  then have r: "CHR ''-'' \<in> set (range_text s e)"
    "takeWhile (\<lambda>c. c \<noteq> CHR ''-'') (range_text s e) = to_string (uint s)"
    "dropWhile (\<lambda>c. c \<noteq> CHR ''-'') (range_text s e) = CHR ''-'' # to_string (uint e)"
    by (simp_all add: range_text_def)
  have u: "uint s \<le> ulmax" "uint e \<le> ulmax"
    using assms(1) uint_lt2p [of s] uint_lt2p [of e] by simp_all
  show ?thesis
    using assms u
    by (auto simp: parse_line_def Let_def words_line_text word_at_def r ParseU32_to_string
        ParseInputSpec_button_spec parse_touch_text script_input_def InputState_default_def not_less [symmetric])
qed

section \<open>Scripts round trip\<close>

definition span_text :: "InputSpan \<Rightarrow> string" where
  "span_text sp = span_line (SP_Start sp) (SP_End sp) (SP_Input sp)"

definition replay_span :: "InputSpan \<Rightarrow> InputSpan" where
  "replay_span sp = \<lparr>SP_Instance = -1, SP_Start = SP_Start sp, SP_End = SP_End sp,
     SP_Input = script_input (SP_Input sp)\<rparr>"

lemma getline_line_text: "getline_fields (CHR 0x0A) (line_text s e i @ CHR 0x0A # r)
    = line_text s e i # getline_fields (CHR 0x0A) r"
proof -
  have "CHR 0x0A \<notin> set (line_text s e i)"
    using set_line_text [of s e i] line_delims by blast
  then show ?thesis
    by (rule getline_fields_delim)
qed

lemma parse_lines_spans:
  assumes "2 ^ 32 - 1 \<le> ulmax" "\<forall>sp \<in> set sps. SP_Start sp \<le> SP_End sp"
  shows "parse_lines ulmax n (getline_fields (CHR 0x0A) (concat (map span_text sps))) acc
    = (True, acc @ map replay_span sps, ParseError_default)"
  using assms(2)
proof (induction sps arbitrary: n acc)
  case Nil
  then show ?case by simp
next
  case (Cons sp sps)
  then show ?case
    by (simp add: span_text_def span_line_text getline_line_text Trim_line_text line_text_ends
        parse_line_text [OF assms(1)] replay_span_def)
qed

lemma parse_lines_comment:
  "CHR 0x0A \<notin> set c \<Longrightarrow>
   parse_lines ulmax n (getline_fields (CHR 0x0A) (CHR ''#'' # c @ CHR 0x0A # r)) acc
   = parse_lines ulmax (n + 1) (getline_fields (CHR 0x0A) r) acc"
  using getline_fields_delim [of "CHR 0x0A" "CHR ''#'' # c" r] by (simp add: Trim_def)

lemma ParseInputScript_recorded:
  assumes "2 ^ 32 - 1 \<le> ulmax" "\<forall>sp \<in> set sps. SP_Start sp \<le> SP_End sp"
  shows "ParseInputScript ulmax (script_header s e k @ concat (map span_text sps))
    = (True, map replay_span sps, ParseError_default)"
proof -
  have nl: "CHR 0x0A \<notin> set (to_string n)" if "0 \<le> n" for n
    using to_string_digits [OF that] by (auto simp: digit_chars_def)
  define c1 c2 where "c1 = '' NSMB input recording generated by melonDS NSML PoC''"
    and "c2 = '' startFrame='' @ to_string (uint s) @ '' endFrame='' @ to_string (uint e)
     @ '' instance='' @ (if k < 0 then ''-'' @ to_string (- k) else to_string k)"
  have c: "CHR 0x0A \<notin> set c1" "CHR 0x0A \<notin> set c2"
    using nl [of "uint s"] nl [of "uint e"] nl [of k] nl [of "- k"] by (auto simp: c1_def c2_def)
  have "script_header s e k @ concat (map span_text sps)
      = CHR ''#'' # c1 @ CHR 0x0A # CHR ''#'' # c2 @ CHR 0x0A # concat (map span_text sps)"
    by (simp add: script_header_def c1_def c2_def)
  then show ?thesis
    using parse_lines_spans [OF assms, of 2 "[]"]
    by (simp add: ParseInputScript_def parse_lines_comment c)
qed

section \<open>Recording and replaying\<close>

definition span_lookup :: "InputSpan list \<Rightarrow> u32 \<Rightarrow> InputState option" where
  "span_lookup sps f = map_option SP_Input (List.find (\<lambda>sp. SP_Start sp \<le> f \<and> f \<le> SP_End sp) sps)"

lemma Apply_replay:
  "Apply (map replay_span sps) k f fb
   = (case span_lookup sps f of None \<Rightarrow> fb | Some i \<Rightarrow> script_input i)"
  by (induction sps) (auto simp: replay_span_def span_lookup_def)

lemma span_lookup_append:
  "span_lookup (xs @ ys) f = (case span_lookup xs f of None \<Rightarrow> span_lookup ys f | Some i \<Rightarrow> Some i)"
  by (induction xs) (auto simp: span_lookup_def)

lemma span_lookup_beyond: "\<forall>sp \<in> set sps. SP_End sp < f \<Longrightarrow> span_lookup sps f = None"
  by (induction sps) (auto simp: span_lookup_def)

lemma span_lookup_one: "span_lookup [sp] f = (if SP_Start sp \<le> f \<and> f \<le> SP_End sp then Some (SP_Input sp) else None)"
  by (simp add: span_lookup_def)

text \<open>The spans the recorder has not written yet, and what a sequence of calls has recorded.\<close>

definition pending_spans :: "Recorder \<Rightarrow> InputSpan list" where
  "pending_spans r = (if RC_HasSpan r
     then [\<lparr>SP_Instance = -1, SP_Start = RC_SpanStart r, SP_End = RC_SpanEnd r, SP_Input = RC_SpanInput r\<rparr>]
     else [])"

definition recorded :: "u32 \<Rightarrow> u32 \<Rightarrow> (u32 \<times> InputState) list \<Rightarrow> u32 \<Rightarrow> InputState option" where
  "recorded startFrame endFrame calls f =
     (if f < startFrame \<or> (endFrame \<noteq> 0 \<and> endFrame < f) then None
      else map_option (\<lambda>i. i\<lparr>KeyMask := KeyMask i AND 0xFFF\<rparr>) (map_of calls f))"

definition recorder_inv :: "u32 \<Rightarrow> u32 \<Rightarrow> int \<Rightarrow> (u32 \<times> InputState) list \<Rightarrow> InputSpan list \<Rightarrow> Recorder \<Rightarrow> bool" where
  "recorder_inv s e k calls sps r \<longleftrightarrow>
     RC_Enabled r \<and> RC_StartFrame r = s \<and> RC_EndFrame r = e \<and> RC_InstanceID r = k
     \<and> RC_Output r = Some (script_header s e k @ concat (map span_text sps))
     \<and> (\<forall>sp \<in> set (sps @ pending_spans r). SP_Start sp \<le> SP_End sp)
     \<and> (\<forall>f. span_lookup (sps @ pending_spans r) f = recorded s e calls f)
     \<and> (\<forall>sp \<in> set sps. SP_End sp < RC_SpanStart r)
     \<and> (if RC_HasSpan r then RC_SpanEnd r \<in> fst ` set calls else sps = [])"

lemma recorded_snoc:
  assumes "\<forall>g \<in> fst ` set calls. g < f"
  shows "recorded s e (calls @ [(f, i)]) x =
     (if x = f \<and> \<not> (f < s \<or> (e \<noteq> 0 \<and> e < f)) then Some (i\<lparr>KeyMask := KeyMask i AND 0xFFF\<rparr>)
      else recorded s e calls x)"
proof -
  have "map_of calls f = None"
    using assms by (auto simp: map_of_eq_None_iff)
  then have "map_of (calls @ [(f, i)]) x = (if x = f then Some i else map_of calls x)"
    by (auto simp: map_add_def split: option.split)
  then show ?thesis
    unfolding recorded_def by auto
qed

lemma Record_inv:
  assumes inv: "recorder_inv s e k calls sps r" and new: "\<forall>g \<in> fst ` set calls. g < f"
    and inst: "k < 0 \<or> k = inst"
  shows "\<exists>sps'. recorder_inv s e k (calls @ [(f, i)]) sps' (Record inst f i r)"
proof (cases "f < s \<or> (e \<noteq> 0 \<and> e < f)")
  case True
  have "Record inst f i r = r"
    using inv True by (auto simp: Record_def recorder_inv_def)
  moreover have "recorder_inv s e k (calls @ [(f, i)]) sps r"
    using inv True by (auto simp: recorder_inv_def recorded_snoc [OF new])
  ultimately show ?thesis by auto
next
  case in_range: False
  let ?i = "i\<lparr>KeyMask := KeyMask i AND 0xFFF\<rparr>"
  have rec: "recorded s e (calls @ [(f, i)]) x = (if x = f then Some ?i else recorded s e calls x)" for x
    using recorded_snoc [OF new] in_range by simp
  show ?thesis
  proof (cases "RC_HasSpan r")
    case False
    with inv have emp: "sps = []" "\<And>x. recorded s e calls x = None"
      by (auto simp: recorder_inv_def pending_spans_def span_lookup_def)
    have "Record inst f i r = start_span f ?i r"
      using inv in_range inst False by (auto simp: Record_def recorder_inv_def)
    then have "recorder_inv s e k (calls @ [(f, i)]) [] (Record inst f i r)"
      using inv emp by (auto simp: recorder_inv_def start_span_def pending_spans_def span_lookup_one rec)
    then show ?thesis ..
  next
    case True
    let ?p = "\<lparr>SP_Instance = -1, SP_Start = RC_SpanStart r, SP_End = RC_SpanEnd r, SP_Input = RC_SpanInput r\<rparr>"
    have pend: "pending_spans r = [?p]"
      using True by (simp add: pending_spans_def)
    have ord: "RC_SpanStart r \<le> RC_SpanEnd r" "RC_SpanEnd r < f" "\<forall>sp \<in> set sps. SP_End sp < RC_SpanStart r"
      using inv True new by (auto simp: recorder_inv_def pend)
    have look: "span_lookup (sps @ [?p]) x = recorded s e calls x" for x
      using inv by (simp add: recorder_inv_def pend)
    show ?thesis
    proof (cases "RC_SpanEnd r + 1 = f \<and> RC_SpanInput r = ?i")
      case ext: True
      have *: "Record inst f i r = r\<lparr>RC_SpanEnd := f\<rparr>"
        using inv in_range inst True ext by (auto simp: Record_def recorder_inv_def)
      have le: "x \<le> f \<longleftrightarrow> x = f \<or> x \<le> RC_SpanEnd r" for x
        using ext u32_less_Suc [of "RC_SpanEnd r" x] u32_less_imp_not_max [OF ord(2)] by auto
      have beyond: "span_lookup sps f = None"
        using ord by (intro span_lookup_beyond) auto
      have "span_lookup (sps @ [?p\<lparr>SP_End := f\<rparr>]) x = recorded s e (calls @ [(f, i)]) x" for x
        using look [of x] ord ext le [of x] beyond
        by (auto simp: span_lookup_append span_lookup_one rec split: option.splits)
      then have "recorder_inv s e k (calls @ [(f, i)]) sps (Record inst f i r)"
        using inv True ord unfolding * by (auto simp: recorder_inv_def pending_spans_def)
      then show ?thesis ..
    next
      case new_span: False
      have *: "Record inst f i r = start_span f ?i (FlushSpanLocked r)"
        using inv in_range inst True new_span ord by (auto simp: Record_def recorder_inv_def Let_def not_le)
      let ?n = "\<lparr>SP_Instance = -1, SP_Start = f, SP_End = f, SP_Input = ?i\<rparr>"
      have ends: "\<forall>sp \<in> set (sps @ [?p]). SP_End sp < f"
        using ord by auto
      have "span_lookup ((sps @ [?p]) @ [?n]) x = recorded s e (calls @ [(f, i)]) x" for x
        using look [of x] span_lookup_beyond [OF ends]
        unfolding span_lookup_append [of "sps @ [?p]"] span_lookup_one rec by (auto split: option.splits)
      then have "recorder_inv s e k (calls @ [(f, i)]) (sps @ [?p]) (Record inst f i r)"
        using inv True ends unfolding *
        by (auto simp: recorder_inv_def pending_spans_def start_span_def FlushSpanLocked_def span_text_def)
      then show ?thesis ..
    qed
  qed
qed

lemma Record_run_inv:
  assumes "\<exists>sps. recorder_inv s e k calls sps r" "sorted_wrt (<) (map fst (calls @ new))" "k < 0 \<or> k = inst"
  shows "\<exists>sps. recorder_inv s e k (calls @ new) sps (foldl (\<lambda>r (f, i). Record inst f i r) r new)"
  using assms(1,2)
proof (induction new arbitrary: calls r)
  case Nil
  then show ?case by simp
next
  case (Cons c new)
  obtain f i where c: "c = (f, i)" by fastforce
  have "\<forall>g \<in> fst ` set calls. g < f"
    using Cons.prems(2) by (auto simp: c sorted_wrt_append)
  moreover obtain sps where "recorder_inv s e k calls sps r"
    using Cons.prems(1) by blast
  ultimately have "\<exists>sps. recorder_inv s e k (calls @ [c]) sps (Record inst f i r)"
    unfolding c by (intro Record_inv assms(3))
  then show ?case
    using Cons.IH [of "calls @ [c]"] Cons.prems(2) by (simp add: c)
qed

lemma RecorderClose_output:
  assumes "recorder_inv s e k calls sps r"
  shows "RC_Output (RecorderClose r) = Some (script_header s e k @ concat (map span_text (sps @ pending_spans r)))"
  using assms by (auto simp: recorder_inv_def RecorderClose_def FlushSpanLocked_def pending_spans_def span_text_def)

definition record_session :: "u32 \<Rightarrow> u32 \<Rightarrow> int \<Rightarrow> int \<Rightarrow> (u32 \<times> InputState) list \<Rightarrow> Recorder \<Rightarrow> Recorder" where
  "record_session startFrame endFrame k instanceID calls r =
     RecorderClose (foldl (\<lambda>r (f, i). Record instanceID f i r) (snd (RecorderOpen True startFrame endFrame k r)) calls)"

text \<open>C27: Recording then replaying. Open a recorder on a file, record inputs for strictly
  increasing frames and close it: the file parses without error, and applying the parsed spans
  gives, for every instance and frame, the recorded input (its twelve key bits and its touch
  point, clamped to the screen) if the frame was recorded inside the recording window, and the
  fallback otherwise.\<close>

theorem recorded_script_replays:
  assumes "2 ^ 32 - 1 \<le> ulmax" "k < 0 \<or> k = inst" "sorted_wrt (<) (map fst calls)"
  shows "\<exists>out spans. RC_Output (record_session s e k inst calls r) = Some out
    \<and> LoadInputScriptFile ulmax (Some out) = (True, spans, ParseError_default)
    \<and> (\<forall>j f fallback. Apply spans j f fallback =
         (case recorded s e calls f of None \<Rightarrow> fallback | Some i \<Rightarrow> script_input i))"
proof -
  let ?r0 = "snd (RecorderOpen True s e k r)"
  have "recorder_inv s e k [] [] ?r0"
    by (simp add: recorder_inv_def RecorderOpen_def Let_def pending_spans_def span_lookup_def recorded_def)
  then obtain sps where inv: "recorder_inv s e k calls sps (foldl (\<lambda>r (f, i). Record inst f i r) ?r0 calls)"
    using Record_run_inv [of s e k "[]" _ calls inst] assms(2,3) by (metis append_Nil)
  let ?all = "sps @ pending_spans (foldl (\<lambda>r (f, i). Record inst f i r) ?r0 calls)"
  have "ParseInputScript ulmax (script_header s e k @ concat (map span_text ?all))
      = (True, map replay_span ?all, ParseError_default)"
    using inv by (intro ParseInputScript_recorded assms(1)) (simp add: recorder_inv_def)
  moreover have "\<forall>f. span_lookup ?all f = recorded s e calls f"
    using inv by (simp add: recorder_inv_def)
  ultimately show ?thesis
    using RecorderClose_output [OF inv] Apply_replay [of ?all]
    by (simp add: record_session_def LoadInputScriptFile_def)
qed

theorem recorded_script_replays_witness:
  "\<exists>out spans. RC_Output (record_session 0 0 (-1) 2
      [(5, InputState_default\<lparr>KeyMask := 0xFFE\<rparr>), (6, InputState_default\<lparr>KeyMask := 0xFFE\<rparr>),
       (9, \<lparr>KeyMask = 0xFFF, Touching = True, TouchX = 300, TouchY = 12\<rparr>)] Recorder_init) = Some out
    \<and> LoadInputScriptFile (2 ^ 64 - 1) (Some out) = (True, spans, ParseError_default)
    \<and> KeyMask (Apply spans 0 6 InputState_default) = 0xFFE
    \<and> Apply spans 1 9 InputState_default = \<lparr>KeyMask = 0xFFF, Touching = True, TouchX = 255, TouchY = 12\<rparr>"
proof -
  let ?calls = "[(5, InputState_default\<lparr>KeyMask := 0xFFE\<rparr>), (6, InputState_default\<lparr>KeyMask := 0xFFE\<rparr>),
       (9, \<lparr>KeyMask = 0xFFF, Touching = True, TouchX = 300, TouchY = 12\<rparr>)] :: (u32 \<times> InputState) list"
  obtain out spans where "RC_Output (record_session 0 0 (-1) 2 ?calls Recorder_init) = Some out"
    "LoadInputScriptFile (2 ^ 64 - 1) (Some out) = (True, spans, ParseError_default)"
    "\<forall>j f fallback. Apply spans j f fallback =
         (case recorded 0 0 ?calls f of None \<Rightarrow> fallback | Some i \<Rightarrow> script_input i)"
    using recorded_script_replays [of "2 ^ 64 - 1" "-1" 2 ?calls 0 0 Recorder_init] by auto
  then show ?thesis
    by (intro exI [of _ out] exI [of _ spans]) (simp add: recorded_def script_input_def)
qed

end
