(* ===== verification/Config_Loading.thy ===== *)
theory Config_Loading
  imports Input_Script Mvl_Runtime Packet_Bridge
begin

text \<open>
  \<^verbatim>\<open>NsmbNetplayConfig.cpp\<close>: how the settings are read from the environment. The environment is a
  record of the variables and of the largest \<^verbatim>\<open>long\<close> of the platform; \<^verbatim>\<open>strtol\<close>, \<^verbatim>\<open>strtoul\<close> and \<^verbatim>\<open>atoi\<close>
  are written out, with their saturation and the truncation to 32 bits that follows.
\<close>

section \<open>Values\<close>

record Environment =
  EV_Get :: "string \<Rightarrow> string option"
  EV_LongMax :: int

definition strtol :: "int \<Rightarrow> int \<Rightarrow> string \<Rightarrow> int \<times> string" where
  "strtol lmax radix s =
     (let s1 = dropWhile isspace s;
          neg = starts_with ''-'' s1;
          s2 = (if neg \<or> starts_with ''+'' s1 then tl s1 else s1);
          hex = radix = 0 \<and> (starts_with ''0x'' s2 \<or> starts_with ''0X'' s2) \<and> 2 < length s2 \<and> is_digit 16 (s2 ! 2);
          base = (if radix \<noteq> 0 then radix else if hex then 16 else if starts_with ''0'' s2 then 8 else 10);
          s3 = (if hex then drop 2 s2 else s2);
          ds = takeWhile (is_digit base) s3;
          v = digits_value base ds 0
      in if ds = [] then (0, s)
         else (clamp (if neg then - v else v) (- lmax - 1) lmax, dropWhile (is_digit base) s3))"

definition int_cast :: "int \<Rightarrow> int" where
  "int_cast v = int_of_u32 (word_of_int v)"

definition atoi :: "int \<Rightarrow> string \<Rightarrow> int" where
  "atoi lmax s = int_cast (fst (strtol lmax 10 s))"

definition HasValue :: "string option \<Rightarrow> bool" where
  "HasValue v \<longleftrightarrow> (case v of None \<Rightarrow> False | Some s \<Rightarrow> s \<noteq> [])"

definition ParseFlag :: "string option \<Rightarrow> bool" where
  "ParseFlag v \<longleftrightarrow> (case v of None \<Rightarrow> False | Some s \<Rightarrow> s \<noteq> [] \<and> s \<noteq> ''0'')"

definition ValueOr :: "string option \<Rightarrow> string \<Rightarrow> string" where
  "ValueOr v fallback = (case v of None \<Rightarrow> fallback | Some s \<Rightarrow> if s = [] then fallback else s)"

definition ParseInt :: "int \<Rightarrow> string option \<Rightarrow> int \<Rightarrow> int" where
  "ParseInt lmax v fallback =
     (case v of
        None \<Rightarrow> fallback
      | Some s \<Rightarrow>
          if s = [] then fallback
          else let (parsed, end) = strtol lmax 0 s in if end = s then fallback else int_cast parsed)"

definition ConfigParseU32 :: "int \<Rightarrow> string option \<Rightarrow> u32 \<Rightarrow> u32" where
  "ConfigParseU32 lmax v fallback =
     (case v of
        None \<Rightarrow> fallback
      | Some s \<Rightarrow> if s = [] then fallback else word_of_int (fst (strtoul (2 * lmax + 1) s)))"

definition ParseU32List :: "int \<Rightarrow> string option \<Rightarrow> u32 list" where
  "ParseU32List lmax v =
     (case v of
        None \<Rightarrow> []
      | Some s \<Rightarrow>
          map (\<lambda>token. word_of_int (fst (strtoul (2 * lmax + 1) token)))
            (filter (\<lambda>token. token \<noteq> []) (map (filter (\<lambda>c. \<not> isspace c)) (getline_fields (CHR '','') s))))"

text \<open>One element of a list of frame ranges, trimmed and not empty.\<close>

definition parse_range :: "int \<Rightarrow> string \<Rightarrow> (u32 \<times> u32) option" where
  "parse_range lmax token =
     (let parse = (\<lambda>text. case strtoul (2 * lmax + 1) text of (v, end) \<Rightarrow> if end \<noteq> [] then None else Some (word_of_int v))
      in if CHR ''-'' \<notin> set token then map_option (\<lambda>start. (start, start)) (parse token)
         else
           case (parse (takeWhile (\<lambda>c. c \<noteq> CHR ''-'') token), parse (tl (dropWhile (\<lambda>c. c \<noteq> CHR ''-'') token))) of
             (Some start, Some end) \<Rightarrow> if end < start then None else Some (start, end)
           | _ \<Rightarrow> None)"

fun parse_ranges :: "int \<Rightarrow> string list \<Rightarrow> (u32 \<times> u32) list \<Rightarrow> bool \<times> (u32 \<times> u32) list" where
  "parse_ranges lmax [] ranges = (True, ranges)"
| "parse_ranges lmax (token # tokens) ranges =
     (if Trim token = [] then parse_ranges lmax tokens ranges
      else case parse_range lmax (Trim token) of
             None \<Rightarrow> (False, ranges)
           | Some frameRange \<Rightarrow> parse_ranges lmax tokens (ranges @ [frameRange]))"

definition ParseFrameRanges :: "int \<Rightarrow> string option \<Rightarrow> (u32 \<times> u32) list \<Rightarrow> bool \<times> (u32 \<times> u32) list" where
  "ParseFrameRanges lmax v ranges =
     (case v of None \<Rightarrow> (True, ranges) | Some s \<Rightarrow> parse_ranges lmax (getline_fields (CHR '','') s) ranges)"

definition ReadFlag :: "Environment \<Rightarrow> string \<Rightarrow> bool" where
  "ReadFlag e name = ParseFlag (EV_Get e name)"

definition ReadCString :: "Environment \<Rightarrow> string \<Rightarrow> string \<Rightarrow> string" where
  "ReadCString e name fallback = ValueOr (EV_Get e name) fallback"

definition ReadInt :: "Environment \<Rightarrow> string \<Rightarrow> int \<Rightarrow> int" where
  "ReadInt e name fallback = ParseInt (EV_LongMax e) (EV_Get e name) fallback"

definition ReadU32 :: "Environment \<Rightarrow> string \<Rightarrow> u32 \<Rightarrow> u32" where
  "ReadU32 e name fallback = ConfigParseU32 (EV_LongMax e) (EV_Get e name) fallback"

definition ReadHasValue :: "Environment \<Rightarrow> string \<Rightarrow> bool" where
  "ReadHasValue e name = HasValue (EV_Get e name)"

definition ReadU32List :: "Environment \<Rightarrow> string \<Rightarrow> u32 list" where
  "ReadU32List e name = ParseU32List (EV_LongMax e) (EV_Get e name)"

section \<open>The session\<close>

definition LoadBootstrapConfig :: "Environment \<Rightarrow> BootstrapConfig" where
  "LoadBootstrapConfig e = \<lparr>
     BO_Enabled = (if HasValue (EV_Get e ''MELONDS_NSML_NETPLAY'') then ParseFlag (EV_Get e ''MELONDS_NSML_NETPLAY'') else ReadFlag e ''MELONDS_NSML_POC''),
     BO_TestEnabled = ReadFlag e ''MELONDS_NSML_TEST'',
     BO_TestFrames = u32_of_int (max 0 (ReadInt e ''MELONDS_NSML_TEST_FRAMES'' 0)),
     BO_TestInstanceCount = clamp (ReadInt e ''MELONDS_NSML_TEST_INSTANCES'' 1) 1 16,
     BO_HashEnabled = (\<not> ReadFlag e ''MELONDS_NSML_DISABLE_HASH''),
     BO_HashInterval = max 1 (ReadInt e ''MELONDS_NSML_HASH_INTERVAL'' 60),
     BO_WaitTimeoutMs = max 0 (ReadInt e ''MELONDS_NSML_WAIT_TIMEOUT_MS'' 60000),
     BO_QuitGraceMs = max 0 (ReadInt e ''MELONDS_NSML_QUIT_GRACE_MS'' 0),
     BO_InputTraceEnabled = ReadFlag e ''MELONDS_NSML_INPUT_TRACE'',
     BO_InputTraceInterval = max 1 (ReadInt e ''MELONDS_NSML_INPUT_TRACE_INTERVAL'' 60)\<rparr>"

definition LoadConnectionConfig :: "Environment \<Rightarrow> bool \<Rightarrow> ConnectionConfig" where
  "LoadConnectionConfig e testEnabled =
     (let role = (if HasValue (EV_Get e ''MELONDS_NSML_ROLE'') then EV_Get e ''MELONDS_NSML_ROLE'' else EV_Get e ''MELONDS_NSML_LAN_ROLE'');
          client = (role = Some ''client'');
          delay = max 0 (ReadInt e ''MELONDS_NSML_DELAY'' 6);
          startFrame = u32_of_int (max 0 (ReadInt e ''MELONDS_NSML_NETPLAY_START_FRAME'' 0))
      in \<lparr>CC_Client = client, CC_Delay = delay,
          CC_WarmupFrames = max 0 (ReadInt e ''MELONDS_NSML_NETPLAY_WARMUP_FRAMES'' (if testEnabled then int_cast (delay * 2) else 0)),
          CC_Port = ReadInt e ''MELONDS_NSML_PORT'' 8065,
          CC_LocalInstance = ReadInt e ''MELONDS_NSML_LOCAL_INSTANCE'' (if client then 1 else 0),
          CC_StartFrame = startFrame, CC_LocalStartupRawFrame = startFrame, CC_SharedLogicalEpoch = startFrame,
          CC_LocalWaitsForRemote = (\<not> ReadFlag e ''MELONDS_NSML_NO_LOCAL_WAIT''),
          CC_RemoteInputTimeoutFatal = ReadFlag e ''MELONDS_NSML_REMOTE_INPUT_TIMEOUT_FATAL'',
          CC_PeerHost = ReadCString e ''MELONDS_NSML_PEER'' ''127.0.0.1''\<rparr>)"

definition LoadInputConfig :: "Environment \<Rightarrow> bool \<Rightarrow> InputConfig" where
  "LoadInputConfig e netplayOnlyForMaxFrameLeadDefault =
     (let delayStart = u32_of_int (clamp (ReadInt e ''MELONDS_NSML_INPUT_SEND_DELAY_START_FRAME'' 0) 0 1000000);
          delayEnd = u32_of_int (clamp (ReadInt e ''MELONDS_NSML_INPUT_SEND_DELAY_END_FRAME'' 0) 0 1000000);
          dropModulo = max 0 (ReadInt e ''MELONDS_NSML_INPUT_DROP_MODULO'' 0);
          dropOffset = max 0 (ReadInt e ''MELONDS_NSML_INPUT_DROP_OFFSET'' 0);
          dropStart = u32_of_int (clamp (ReadInt e ''MELONDS_NSML_INPUT_DROP_START_FRAME'' 0) 0 1000000);
          dropEnd = u32_of_int (clamp (ReadInt e ''MELONDS_NSML_INPUT_DROP_END_FRAME'' 0) 0 1000000)
      in \<lparr>IC_SendDelayFrames = max 0 (ReadInt e ''MELONDS_NSML_INPUT_SEND_DELAY_FRAMES'' 0),
          IC_SendJitterFrames = max 0 (ReadInt e ''MELONDS_NSML_INPUT_SEND_JITTER_FRAMES'' 0),
          IC_SendDelayStartFrame = delayStart,
          IC_SendDelayEndFrame = (if delayEnd \<noteq> 0 \<and> delayEnd < delayStart then delayStart else delayEnd),
          IC_UseHistoryBundle = ReadFlag e ''MELONDS_NSML_INPUT_UNRELIABLE'',
          IC_BundleHistory = clamp (ReadInt e ''MELONDS_NSML_INPUT_BUNDLE_HISTORY'' 0) 0 31,
          IC_DropModulo = dropModulo,
          IC_DropOffset = (if 0 < dropModulo then dropOffset mod dropModulo else dropOffset),
          IC_DropStartFrame = dropStart,
          IC_DropEndFrame = (if 0 < dropEnd \<and> dropEnd < dropStart then dropStart else dropEnd),
          IC_MaxFrameLead = ReadInt e ''MELONDS_NSML_INPUT_MAX_FRAME_LEAD'' (if netplayOnlyForMaxFrameLeadDefault then 2 else -1),
          IC_NetplayOnly = ReadFlag e ''MELONDS_NSML_INPUT_NETPLAY_ONLY'',
          IC_NetplayTrace = ReadFlag e ''MELONDS_NSML_INPUT_NETPLAY_TRACE'',
          IC_HealthTrace = ReadFlag e ''MELONDS_NSML_INPUT_HEALTH_TRACE'',
          IC_HealthTraceInterval = clamp (ReadInt e ''MELONDS_NSML_INPUT_HEALTH_TRACE_INTERVAL'' 120) 1 3600,
          IC_HealthTraceWaitThresholdMs = clamp (ReadInt e ''MELONDS_NSML_INPUT_HEALTH_TRACE_WAIT_THRESHOLD_MS'' 16) 1 5000,
          IC_WaitPollUs = clamp (ReadInt e ''MELONDS_NSML_INPUT_WAIT_POLL_US'' 100) 50 5000\<rparr>)"

section \<open>Patches and the test harness\<close>

definition LoadRuntimePatchConfig :: "Environment \<Rightarrow> RuntimePatchConfig" where
  "LoadRuntimePatchConfig e =
     (let frame = (\<lambda>name fallback. u32_of_int (max 0 (ReadInt e name fallback)));
          start = frame ''MELONDS_NSML_PLAYER_STICK_TO_STAR_START_FRAME'' 0;
          end0 = frame ''MELONDS_NSML_PLAYER_STICK_TO_STAR_END_FRAME'' 0;
          end1 = (if end0 = 0 then start else end0)
      in \<lparr>PC_PlayerStickToStarStartFrame = (if end1 < start then end1 else start),
          PC_PlayerStickToStarEndFrame = (if end1 < start then start else end1),
          PC_PlayerStickToStarSlot = clamp (ReadInt e ''MELONDS_NSML_PLAYER_STICK_TO_STAR_SLOT'' 0) 0 1,
          PC_ForcePlayerDeathCountersEnabled = ReadFlag e ''MELONDS_NSML_FORCE_PLAYER_DEATH_COUNTERS'',
          PC_ForcePlayerDeathCountersHostOnly = ReadFlag e ''MELONDS_NSML_FORCE_PLAYER_DEATH_COUNTERS_HOST_ONLY'',
          PC_ForcePlayerDeathCountersClientOnly = ReadFlag e ''MELONDS_NSML_FORCE_PLAYER_DEATH_COUNTERS_CLIENT_ONLY'',
          PC_ForcePlayerDeathCountersStartFrame = frame ''MELONDS_NSML_FORCE_PLAYER_DEATH_COUNTERS_START_FRAME'' 0,
          PC_ForcePlayerDeathCountersEndFrame = frame ''MELONDS_NSML_FORCE_PLAYER_DEATH_COUNTERS_END_FRAME'' 0,
          PC_ForcePlayerDeathCounter0 = frame ''MELONDS_NSML_FORCE_PLAYER_DEATH_COUNTER0'' 0,
          PC_ForcePlayerDeathCounter1 = frame ''MELONDS_NSML_FORCE_PLAYER_DEATH_COUNTER1'' 0,
          PC_ForcePlayerLivesEnabled = ReadFlag e ''MELONDS_NSML_FORCE_PLAYER_LIVES'',
          PC_ForcePlayerLife0 = frame ''MELONDS_NSML_FORCE_PLAYER_LIFE0'' 5,
          PC_ForcePlayerLife1 = frame ''MELONDS_NSML_FORCE_PLAYER_LIFE1'' 5,
          PC_ForcePlayerPowerupsEnabled = ReadFlag e ''MELONDS_NSML_FORCE_PLAYER_POWERUPS'',
          PC_ForcePlayerPowerupsStartFrame = frame ''MELONDS_NSML_FORCE_PLAYER_POWERUPS_START_FRAME'' 0,
          PC_ForcePlayerPowerupsEndFrame = frame ''MELONDS_NSML_FORCE_PLAYER_POWERUPS_END_FRAME'' 0,
          PC_ForcePlayerPowerup0 = frame ''MELONDS_NSML_FORCE_PLAYER_POWERUP0'' 0,
          PC_ForcePlayerPowerup1 = frame ''MELONDS_NSML_FORCE_PLAYER_POWERUP1'' 0,
          PC_ForcePlayerInventoryPowerupsEnabled = ReadFlag e ''MELONDS_NSML_FORCE_PLAYER_INVENTORY_POWERUPS'',
          PC_ForcePlayerInventoryPowerupsStartFrame = frame ''MELONDS_NSML_FORCE_PLAYER_INVENTORY_POWERUPS_START_FRAME'' 0,
          PC_ForcePlayerInventoryPowerupsEndFrame = frame ''MELONDS_NSML_FORCE_PLAYER_INVENTORY_POWERUPS_END_FRAME'' 0,
          PC_ForcePlayerInventoryPowerup0 = frame ''MELONDS_NSML_FORCE_PLAYER_INVENTORY_POWERUP0'' 0,
          PC_ForcePlayerInventoryPowerup1 = frame ''MELONDS_NSML_FORCE_PLAYER_INVENTORY_POWERUP1'' 0,
          PC_ForcePlayerCoinsEnabled = ReadFlag e ''MELONDS_NSML_FORCE_PLAYER_COINS'',
          PC_ForcePlayerCoinsStartFrame = frame ''MELONDS_NSML_FORCE_PLAYER_COINS_START_FRAME'' 0,
          PC_ForcePlayerCoinsEndFrame = frame ''MELONDS_NSML_FORCE_PLAYER_COINS_END_FRAME'' 0,
          PC_ForcePlayerCoins0 = u32_of_int (clamp (ReadInt e ''MELONDS_NSML_FORCE_PLAYER_COINS0'' 0) 0 7),
          PC_ForcePlayerCoins1 = u32_of_int (clamp (ReadInt e ''MELONDS_NSML_FORCE_PLAYER_COINS1'' 0) 0 7),
          PC_ForcePlayerStarCountersEnabled = ReadFlag e ''MELONDS_NSML_FORCE_PLAYER_STAR_COUNTERS'',
          PC_ForcePlayerStarCountersStartFrame = frame ''MELONDS_NSML_FORCE_PLAYER_STAR_COUNTERS_START_FRAME'' 0,
          PC_ForcePlayerStarCountersEndFrame = frame ''MELONDS_NSML_FORCE_PLAYER_STAR_COUNTERS_END_FRAME'' 0,
          PC_ForcePlayerBattleStars0 = frame ''MELONDS_NSML_FORCE_PLAYER_BATTLE_STARS0'' 0,
          PC_ForcePlayerBattleStars1 = frame ''MELONDS_NSML_FORCE_PLAYER_BATTLE_STARS1'' 0,
          PC_ForcePlayerDisplayedStars0 = frame ''MELONDS_NSML_FORCE_PLAYER_DISPLAYED_STARS0'' 0,
          PC_ForcePlayerDisplayedStars1 = frame ''MELONDS_NSML_FORCE_PLAYER_DISPLAYED_STARS1'' 0,
          PC_ForcePlayerCollectedStars0 = frame ''MELONDS_NSML_FORCE_PLAYER_COLLECTED_STARS0'' 0,
          PC_ForcePlayerCollectedStars1 = frame ''MELONDS_NSML_FORCE_PLAYER_COLLECTED_STARS1'' 0,
          PC_TracePlayerLifeChanges = ReadFlag e ''MELONDS_NSML_TRACE_PLAYER_LIFE_CHANGES'',
          PC_PacketBridgeJitHelperPatchEnabled = ReadFlag e ''MELONDS_NSML_PACKET_BRIDGE_JIT_HELPER_PATCH'',
          PC_PacketBridgeJitHelperPatchFrame = frame ''MELONDS_NSML_PACKET_BRIDGE_JIT_HELPER_PATCH_FRAME'' 0\<rparr>)"

definition LoadHarnessConfig :: "Environment \<Rightarrow> HarnessConfig" where
  "LoadHarnessConfig e = \<lparr>
     HA_InputScriptPath = ReadCString e ''MELONDS_NSML_INPUT_SCRIPT'' [],
     HA_FrameBarrierEnabled = ReadFlag e ''MELONDS_NSML_FRAME_BARRIER'',
     HA_SerialRunEnabled = ReadFlag e ''MELONDS_NSML_SERIAL_RUN'',
     HA_SeedWaitTimeoutMs = max 0 (ReadInt e ''MELONDS_NSML_SEED_WAIT_TIMEOUT_MS'' 10000),
     HA_WaitForPeerBeforeStart = ReadFlag e ''MELONDS_NSML_WAIT_FOR_PEER'',
     HA_WaitForPeerAtNetplayStart = ReadFlag e ''MELONDS_NSML_WAIT_FOR_PEER_AT_NETPLAY_START'',
     HA_DeferNetworkUntilStart = ReadFlag e ''MELONDS_NSML_DEFER_NETWORK_UNTIL_START'',
     HA_NetplayFrameBarrierEnabled = ReadFlag e ''MELONDS_NSML_NETPLAY_FRAME_BARRIER'',
     HA_NeutralizePolledInput = ReadFlag e ''MELONDS_NSML_NEUTRALIZE_POLLED_INPUT'',
     HA_NeutralizePolledInputPreserveTouch = ReadFlag e ''MELONDS_NSML_NEUTRALIZE_POLLED_INPUT_PRESERVE_TOUCH'',
     HA_NetworkPumpThreadEnabled = ReadFlag e ''MELONDS_NSML_NET_PUMP_THREAD'',
     HA_NetworkPumpSleepUs = clamp (ReadInt e ''MELONDS_NSML_NET_PUMP_SLEEP_US'' 250) 50 5000,
     HA_StateSaveDir = ReadCString e ''MELONDS_NSML_STATE_SAVE_DIR'' [],
     HA_StateSaveFrame = u32_of_int (max 0 (ReadInt e ''MELONDS_NSML_STATE_SAVE_FRAME'' 0)),
     HA_StateLoadDir = ReadCString e ''MELONDS_NSML_STATE_LOAD_DIR'' [],
     HA_StateLoadFrame = (case EV_Get e ''MELONDS_NSML_STATE_LOAD_FRAME'' of
        None \<Rightarrow> 0 | Some s \<Rightarrow> if s = [] then 0 else u32_of_int (max 0 (atoi (EV_LongMax e) s))),
     HA_StateLoadFrameSet = ReadHasValue e ''MELONDS_NSML_STATE_LOAD_FRAME'',
     HA_TestEmulationPauseFrame = u32_of_int (max 0 (ReadInt e ''MELONDS_NSML_TEST_EMULATION_PAUSE_FRAME'' 0)),
     HA_TestEmulationPauseDurationMs = clamp (ReadInt e ''MELONDS_NSML_TEST_EMULATION_PAUSE_MS'' 0) 0 10000,
     HA_TestEmulationPauseRole = ReadCString e ''MELONDS_NSML_TEST_EMULATION_PAUSE_ROLE'' []\<rparr>"

section \<open>The packet bridge and the rollback\<close>

definition LoadPacketBridgeConfig :: "Environment \<Rightarrow> PacketBridgeConfig" where
  "LoadPacketBridgeConfig e = \<lparr>
     BC_Enabled = ReadFlag e ''MELONDS_NSML_PACKET_BRIDGE'',
     BC_Only = ReadFlag e ''MELONDS_NSML_PACKET_BRIDGE_ONLY'',
     BC_AllowPreGame = ReadFlag e ''MELONDS_NSML_PACKET_BRIDGE_ALLOW_PRE_GAME'',
     BC_TraceEnabled = ReadFlag e ''MELONDS_NSML_PACKET_BRIDGE_TRACE'',
     BC_LocalPlayerOverride = (case EV_Get e ''MELONDS_NSML_PACKET_BRIDGE_LOCAL_PLAYER'' of
        None \<Rightarrow> -1 | Some s \<Rightarrow> clamp (atoi (EV_LongMax e) s) 0 1),
     BC_DirectCaptureEnabled = ReadFlag e ''MELONDS_NSML_PACKET_BRIDGE_DIRECT_CAPTURE'',
     BC_ForceTickEnabled = ReadFlag e ''MELONDS_NSML_PACKET_BRIDGE_FORCE_TICK'',
     BC_ForceTickStartFrame = u32_of_int (max 0 (ReadInt e ''MELONDS_NSML_PACKET_BRIDGE_FORCE_TICK_START_FRAME'' 0)),
     BC_ForceTickBase = ReadInt e ''MELONDS_NSML_PACKET_BRIDGE_FORCE_TICK_BASE'' (-1),
     BC_ForceGameLocalPlayerID = ReadInt e ''MELONDS_NSML_PACKET_BRIDGE_FORCE_GAME_LOCAL_PLAYER_ID'' (-1),
     BC_ForceGameLocalPlayerIDStartFrame = u32_of_int (max 0 (ReadInt e ''MELONDS_NSML_PACKET_BRIDGE_FORCE_GAME_LOCAL_PLAYER_ID_START_FRAME'' 0)),
     BC_ForceGameLocalPlayerIDEarly = ReadFlag e ''MELONDS_NSML_PACKET_BRIDGE_FORCE_GAME_LOCAL_PLAYER_ID_EARLY'',
     BC_MaxFrameLead = ReadInt e ''MELONDS_NSML_PACKET_BRIDGE_MAX_FRAME_LEAD'' (-1),
     BC_ThrottleTimeoutMs = max 0 (ReadInt e ''MELONDS_NSML_PACKET_BRIDGE_THROTTLE_TIMEOUT_MS'' 5000),
     BC_ThrottleStartFrame = u32_of_int (max 0 (ReadInt e ''MELONDS_NSML_PACKET_BRIDGE_THROTTLE_START_FRAME'' 0)),
     BC_LocalInputDelay = max 0 (ReadInt e ''MELONDS_NSML_PACKET_BRIDGE_LOCAL_INPUT_DELAY'' 0),
     BC_NeutralizeLocalInput = ReadFlag e ''MELONDS_NSML_PACKET_BRIDGE_NEUTRALIZE_LOCAL_INPUT'',
     BC_PreserveLocalTouch = ReadFlag e ''MELONDS_NSML_PACKET_BRIDGE_PRESERVE_LOCAL_TOUCH'',
     BC_SendDelayFrames = max 0 (ReadInt e ''MELONDS_NSML_PACKET_BRIDGE_SEND_DELAY_FRAMES'' 0),
     BC_SendJitterFrames = max 0 (ReadInt e ''MELONDS_NSML_PACKET_BRIDGE_SEND_JITTER_FRAMES'' 0)\<rparr>"

definition backend_named :: "string \<Rightarrow> RollbackBackend" where
  "backend_named backend =
     (if backend = ''corelite'' \<or> backend = ''core-lite'' then CoreLite
      else if backend = ''coresparse'' \<or> backend = ''core-sparse'' then CoreSparse
      else if backend = ''coredelta'' \<or> backend = ''core-delta'' then CoreDelta
      else if backend = ''coreframedelta'' \<or> backend = ''core-frame-delta'' then CoreFrameDelta
      else if backend = ''corepreimage'' \<or> backend = ''core-preimage'' then CorePreimage
      else if backend = ''tinycorepreimage'' \<or> backend = ''tiny-core-preimage'' then TinyCorePreimage
      else if backend = ''romloop'' \<or> backend = ''rom-loop'' \<or> backend = ''slippi'' then RomLoop
      else Savestate)"

definition page_size_setting :: "int \<Rightarrow> int" where
  "page_size_setting v = (let size = clamp v 256 4096 in if size AND (size - 1) \<noteq> 0 then 4096 else size)"

definition LoadRollbackConfig :: "Environment \<Rightarrow> RollbackConfig" where
  "LoadRollbackConfig e =
     (let modulo = clamp (ReadInt e ''MELONDS_NSML_ROLLBACK_PREDICTION_PROBE_MODULO'' 0) 0 600;
          probeStart = u32_of_int (clamp (ReadInt e ''MELONDS_NSML_ROLLBACK_PREDICTION_PROBE_START_FRAME'' 0) 0 1000000);
          probeEnd = u32_of_int (clamp (ReadInt e ''MELONDS_NSML_ROLLBACK_PREDICTION_PROBE_END_FRAME'' 0) 0 1000000);
          confirmDelay = clamp (ReadInt e ''MELONDS_NSML_ROLLBACK_PREDICTION_PROBE_CONFIRM_DELAY_FRAMES'' 0) 0 180
      in \<lparr>RB_Enabled = ReadFlag e ''MELONDS_NSML_ROLLBACK'',
          RB_Resimulate = ReadFlag e ''MELONDS_NSML_ROLLBACK_RESIMULATE'',
          RB_SkipRenderDuringResim = ReadFlag e ''MELONDS_NSML_ROLLBACK_RESIM_SKIP_RENDER'',
          RB_SkipIntermediateResimCheckpoints = ReadFlag e ''MELONDS_NSML_ROLLBACK_RESIM_SKIP_INTERMEDIATE_CHECKPOINTS'',
          RB_SkipJitReset = (EV_Get e ''MELONDS_NSML_ROLLBACK_SKIP_JIT_RESET'' \<noteq> None),
          RB_InputWaitUs = clamp (ReadInt e ''MELONDS_NSML_ROLLBACK_INPUT_WAIT_US'' 0) 0 20000,
          RB_RestoreProbe = ReadFlag e ''MELONDS_NSML_ROLLBACK_RESTORE_PROBE'',
          RB_PredictionProbeModulo = modulo,
          RB_PredictionProbeOffset = clamp (ReadInt e ''MELONDS_NSML_ROLLBACK_PREDICTION_PROBE_OFFSET'' 0) 0 (max 0 (modulo - 1)),
          RB_PredictionProbeLimit = clamp (ReadInt e ''MELONDS_NSML_ROLLBACK_PREDICTION_PROBE_LIMIT'' (-1)) (-1) 10000,
          RB_PredictionProbeStartFrame = probeStart,
          RB_PredictionProbeEndFrame = (if probeEnd \<noteq> 0 \<and> probeEnd < probeStart then probeStart else probeEnd),
          RB_PredictionProbeKeyMask = u32_of_int (clamp (ReadInt e ''MELONDS_NSML_ROLLBACK_PREDICTION_PROBE_KEY_MASK'' 1) 1 0xFFF),
          RB_PredictionProbeConfirmDelayFrames =
            (if confirmDelay = 0 \<and> ReadFlag e ''MELONDS_NSML_ROLLBACK_PREDICTION_PROBE_CONFIRM_AFTER_ONE_FRAME'' then 1 else confirmDelay),
          RB_Backend = backend_named (ReadCString e ''MELONDS_NSML_ROLLBACK_BACKEND'' ''savestate''),
          RB_Window = clamp (ReadInt e ''MELONDS_NSML_ROLLBACK_WINDOW'' 20) 1 180,
          RB_CheckpointInterval = clamp (ReadInt e ''MELONDS_NSML_ROLLBACK_CHECKPOINT_INTERVAL'' 1) 1 30,
          RB_DeltaKeyframeInterval = clamp (ReadInt e ''MELONDS_NSML_ROLLBACK_DELTA_KEYFRAME_INTERVAL'' 10) 1 60,
          RB_MainRAMPageSize = page_size_setting (ReadInt e ''MELONDS_NSML_ROLLBACK_MAIN_RAM_PAGE_SIZE'' 4096),
          RB_CoreSkipMask = clamp (ReadInt e ''MELONDS_NSML_ROLLBACK_CORE_SKIP_MASK'' 0) 0 31,
          RB_TinyCoreFlags = clamp (ReadInt e ''MELONDS_NSML_ROLLBACK_TINY_CORE_FLAGS'' 0) 0 2047,
          RB_ResimulateDelayFrames = clamp (ReadInt e ''MELONDS_NSML_ROLLBACK_RESIMULATE_DELAY_FRAMES'' 0) 0 30,
          RB_MaxResimFrames = clamp (ReadInt e ''MELONDS_NSML_ROLLBACK_MAX_RESIM_FRAMES'' 0) 0 30,
          RB_PredictionHorizonFrames = clamp (ReadInt e ''MELONDS_NSML_ROLLBACK_PREDICTION_HORIZON_FRAMES'' 0) 0 10,
          RB_PredictionHorizonTimeoutMs = clamp (ReadInt e ''MELONDS_NSML_ROLLBACK_HORIZON_TIMEOUT_MS'' 7000) 100 60000,
          RB_PhaseRecoveryEnabled = ReadFlag e ''MELONDS_NSML_ROLLBACK_PHASE_RECOVERY''\<rparr>)"

section \<open>The match\<close>

definition ComposeMvlSceneSettingsForStage :: "int \<Rightarrow> u32" where
  "ComposeMvlSceneSettingsForStage stage = push_bit 16 (0xB4 + u32_of_int (clamp stage 0 4)) OR 0xFF00"

definition scene_settings :: "Environment \<Rightarrow> u32" where
  "scene_settings e =
     (if ReadHasValue e ''MELONDS_NSML_MVL_SCENE_SETTINGS'' then ReadU32 e ''MELONDS_NSML_MVL_SCENE_SETTINGS'' 0x00B4FF00
      else ComposeMvlSceneSettingsForStage (int_of_u32 (ReadU32 e ''MELONDS_NSML_MVL_STAGE'' 0)))"

definition LoadMvlConfig :: "Environment \<Rightarrow> MvlConfig" where
  "LoadMvlConfig e =
     (let sequence = map (\<lambda>stage. clamp (int_of_u32 stage) 0 4) (ReadU32List e ''MELONDS_NSML_MVL_STAGE_SEQUENCE'');
          courseMode = ReadCString e ''MELONDS_NSML_MVL_COURSE_MODE'' ''fixed'';
          courseValid = (courseMode = ''fixed'' \<or> courseMode = ''random'' \<or> courseMode = ''select'');
          bigStars = clamp (ReadInt e ''MELONDS_NSML_MVL_BIG_STARS'' 5) 3 10;
          lives = ReadCString e ''MELONDS_NSML_MVL_LIVES'' ''endless'';
          randomSet = ReadHasValue e ''MELONDS_NSML_NET_RANDOM_VALUE'';
          randomValue = (if randomSet then ReadU32 e ''MELONDS_NSML_NET_RANDOM_VALUE'' 0 else 0);
          seedSet = ReadHasValue e ''MELONDS_NSML_MATCH_SEED'';
          seed = (if seedSet then ReadU32 e ''MELONDS_NSML_MATCH_SEED'' 0 else randomValue);
          seeds = ReadU32List e ''MELONDS_NSML_MATCH_SEED_SEQUENCE''
      in \<lparr>MC_Stage = (case sequence of [] \<Rightarrow> clamp (ReadInt e ''MELONDS_NSML_MVL_STAGE'' 0) 0 4 | s # _ \<Rightarrow> s),
          MC_StageSequence = sequence,
          MC_StageSceneSettings = scene_settings e,
          MC_CourseMode = (if courseValid then courseMode else ''fixed''),
          MC_InvalidCourseMode = (if courseValid then [] else courseMode),
          MC_TargetWins = clamp (ReadInt e ''MELONDS_NSML_MVL_WINS'' 2) 1 3,
          MC_BigStarTarget = bigStars,
          MC_RuntimeConfigEnabled = (ReadHasValue e ''MELONDS_NSML_MVL_STAGE'' \<or> ReadHasValue e ''MELONDS_NSML_MVL_SCENE_SETTINGS''
            \<or> ReadHasValue e ''MELONDS_NSML_MVL_BIG_STARS'' \<or> ReadHasValue e ''MELONDS_NSML_MVL_LIVES''),
          MC_InitialLives = (if lives = ''5'' then 5 else 3),
          MC_LifeModeSelector = (if lives = ''endless'' \<or> lives = ''Endless'' then 2 else 0),
          MC_BigStarSelector = (if bigStars = 3 then 0 else if bigStars = 10 then 2 else 1),
          MC_AutoRestartAfterResult = ReadFlag e ''MELONDS_NSML_MVL_AUTO_RESTART_AFTER_RESULT'',
          MC_AutoRestartDelayFrames = u32_of_int (max 1 (ReadInt e ''MELONDS_NSML_MVL_AUTO_RESTART_DELAY_FRAMES'' 120)),
          MC_AutoRestartBootstrapFrame = u32_of_int (clamp (ReadInt e ''MELONDS_NSML_MVL_AUTO_RESTART_BOOTSTRAP_FRAME'' 120) 0 1000000),
          MC_CameraInitHold = \<lparr>
            CH_Enabled = ReadFlag e ''MELONDS_NSML_CLEAR_MVL_CAMERA_INIT_HOLD'',
            CH_HostOnly = ReadFlag e ''MELONDS_NSML_CLEAR_MVL_CAMERA_INIT_HOLD_HOST_ONLY'',
            CH_ClientOnly = ReadFlag e ''MELONDS_NSML_CLEAR_MVL_CAMERA_INIT_HOLD_CLIENT_ONLY'',
            CH_StartFrame = u32_of_int (max 0 (ReadInt e ''MELONDS_NSML_CLEAR_MVL_CAMERA_INIT_HOLD_START_FRAME'' 840)),
            CH_EndFrame = u32_of_int (max 0 (ReadInt e ''MELONDS_NSML_CLEAR_MVL_CAMERA_INIT_HOLD_END_FRAME'' 0))\<rparr>,
          MC_NetRandom = \<lparr>
            NR_Enabled = randomSet,
            NR_Auto = (randomSet \<and> ReadFlag e ''MELONDS_NSML_NET_RANDOM_AUTO''),
            NR_Frame = (if randomSet then u32_of_int (max 0 (ReadInt e ''MELONDS_NSML_NET_RANDOM_FRAME'' 0)) else 0),
            NR_Value = (case seeds of [] \<Rightarrow> randomValue | s # _ \<Rightarrow> s)\<rparr>,
          MC_MatchSeedConfigured = (randomSet \<or> seedSet \<or> seeds \<noteq> []),
          MC_MatchSeed = (case seeds of [] \<Rightarrow> seed | s # _ \<Rightarrow> s),
          MC_MatchSeedSequence = seeds\<rparr>)"

section \<open>State synchronisation\<close>

record StateSyncConfig =
  SY_GameEnabled :: bool
  SY_GameExtended :: bool
  SY_GameApplyEnabled :: bool
  SY_GameApplyCriticalGlobals :: bool
  SY_GameApplyStarObjects :: bool
  SY_GameApplyStageObjects :: bool
  SY_GameApplyPlayerActors :: bool
  SY_GameApplyRemotePlayerOnly :: bool
  SY_GameInterval :: int
  SY_WorldTraceMovingHazards :: bool
  SY_WorldTraceObjectLifecycles :: bool
  SY_WorldTraceActorInternals :: bool
  SY_WorldTraceEffects :: bool
  SY_WorldTraceObjectLifecyclesInterval :: int
  SY_WorldTraceObjectLifecyclesStartFrame :: u32
  SY_WorldTraceObjectLifecyclesEndFrame :: u32

definition LoadStateSyncConfig :: "Environment \<Rightarrow> StateSyncConfig" where
  "LoadStateSyncConfig e =
     (let applyMode = ReadCString e ''MELONDS_NSML_STATE_APPLY_MODE'' []
      in \<lparr>SY_GameEnabled = ReadFlag e ''MELONDS_NSML_STATE_SYNC'',
          SY_GameExtended = ReadFlag e ''MELONDS_NSML_STATE_SYNC_EXTENDED'',
          SY_GameApplyEnabled = ReadFlag e ''MELONDS_NSML_STATE_APPLY'',
          SY_GameApplyCriticalGlobals = (applyMode \<noteq> ''objects'' \<and> applyMode \<noteq> ''remote-player''),
          SY_GameApplyStarObjects = (applyMode \<noteq> ''globals'' \<and> applyMode \<noteq> ''remote-player''),
          SY_GameApplyStageObjects = (applyMode \<noteq> ''critical'' \<and> applyMode \<noteq> ''globals'' \<and> applyMode \<noteq> ''remote-player''),
          SY_GameApplyPlayerActors = (applyMode \<noteq> ''critical'' \<and> applyMode \<noteq> ''globals''),
          SY_GameApplyRemotePlayerOnly = (applyMode = ''remote-player''),
          SY_GameInterval = max 1 (ReadInt e ''MELONDS_NSML_STATE_SYNC_INTERVAL'' 60),
          SY_WorldTraceMovingHazards = ReadFlag e ''MELONDS_NSML_WORLD_STATE_TRACE_MOVING_HAZARDS'',
          SY_WorldTraceObjectLifecycles = ReadFlag e ''MELONDS_NSML_WORLD_STATE_TRACE_OBJECT_LIFECYCLES'',
          SY_WorldTraceActorInternals = ReadFlag e ''MELONDS_NSML_WORLD_STATE_TRACE_ACTOR_INTERNALS'',
          SY_WorldTraceEffects = ReadFlag e ''MELONDS_NSML_WORLD_STATE_TRACE_EFFECTS'',
          SY_WorldTraceObjectLifecyclesInterval = max 1 (ReadInt e ''MELONDS_NSML_WORLD_STATE_TRACE_OBJECT_LIFECYCLES_INTERVAL'' 60),
          SY_WorldTraceObjectLifecyclesStartFrame = u32_of_int (max 0 (ReadInt e ''MELONDS_NSML_WORLD_STATE_TRACE_OBJECT_LIFECYCLES_START_FRAME'' 0)),
          SY_WorldTraceObjectLifecyclesEndFrame = u32_of_int (max 0 (ReadInt e ''MELONDS_NSML_WORLD_STATE_TRACE_OBJECT_LIFECYCLES_END_FRAME'' 0))\<rparr>)"

section \<open>Every loaded configuration is well formed\<close>

definition between :: "int \<Rightarrow> int \<Rightarrow> int \<Rightarrow> bool" where
  "between lo hi v \<longleftrightarrow> lo \<le> v \<and> v \<le> hi"

lemma between_clamp: "lo \<le> lo' \<Longrightarrow> lo' \<le> hi' \<Longrightarrow> hi' \<le> hi \<Longrightarrow> between lo hi (clamp v lo' hi')"
  by (auto simp: between_def clamp_def)

lemma u32_of_clamp: "0 \<le> lo \<Longrightarrow> lo \<le> hi \<Longrightarrow> hi < 2 ^ 32 \<Longrightarrow> lo \<le> uint (u32_of_int (clamp v lo hi)) \<and> uint (u32_of_int (clamp v lo hi)) \<le> hi"
  by (auto simp: clamp_def u32_of_int_def uint_word_of_int)

definition well_formed_input :: "InputConfig \<Rightarrow> bool" where
  "well_formed_input c \<longleftrightarrow> 0 \<le> IC_SendDelayFrames c \<and> 0 \<le> IC_SendJitterFrames c
     \<and> (IC_SendDelayEndFrame c = 0 \<or> IC_SendDelayStartFrame c \<le> IC_SendDelayEndFrame c)
     \<and> between 0 31 (IC_BundleHistory c) \<and> 0 \<le> IC_DropModulo c \<and> 0 \<le> IC_DropOffset c
     \<and> (0 < IC_DropModulo c \<longrightarrow> IC_DropOffset c < IC_DropModulo c)
     \<and> (IC_DropEndFrame c = 0 \<or> IC_DropStartFrame c \<le> IC_DropEndFrame c)
     \<and> between 1 3600 (IC_HealthTraceInterval c) \<and> between 1 5000 (IC_HealthTraceWaitThresholdMs c)
     \<and> between 50 5000 (IC_WaitPollUs c)"

definition well_formed_rollback :: "RollbackConfig \<Rightarrow> bool" where
  "well_formed_rollback c \<longleftrightarrow> between 0 20000 (RB_InputWaitUs c)
     \<and> between 0 600 (RB_PredictionProbeModulo c) \<and> 0 \<le> RB_PredictionProbeOffset c
     \<and> (RB_PredictionProbeModulo c = 0 \<or> RB_PredictionProbeOffset c < RB_PredictionProbeModulo c)
     \<and> between (-1) 10000 (RB_PredictionProbeLimit c)
     \<and> (RB_PredictionProbeEndFrame c = 0 \<or> RB_PredictionProbeStartFrame c \<le> RB_PredictionProbeEndFrame c)
     \<and> between 1 0xFFF (uint (RB_PredictionProbeKeyMask c)) \<and> between 0 180 (RB_PredictionProbeConfirmDelayFrames c)
     \<and> between 1 180 (RB_Window c) \<and> between 1 30 (RB_CheckpointInterval c) \<and> between 1 60 (RB_DeltaKeyframeInterval c)
     \<and> (\<exists>k. 8 \<le> k \<and> k \<le> 12 \<and> RB_MainRAMPageSize c = 2 ^ k)
     \<and> between 0 31 (RB_CoreSkipMask c) \<and> between 0 2047 (RB_TinyCoreFlags c)
     \<and> between 0 30 (RB_ResimulateDelayFrames c) \<and> between 0 30 (RB_MaxResimFrames c)
     \<and> between 0 10 (RB_PredictionHorizonFrames c) \<and> between 100 60000 (RB_PredictionHorizonTimeoutMs c)"

lemma page_size_power: "\<exists>k. 8 \<le> k \<and> k \<le> 12 \<and> page_size_setting v = 2 ^ k"
proof -
  define n where "n = clamp v 256 4096"
  have range: "256 \<le> n" "n \<le> 4096"
    by (auto simp: n_def clamp_def)
  show ?thesis
  proof (cases "n AND (n - 1) = 0")
    case True
    have "\<exists>k. 8 \<le> k \<and> k \<le> 12 \<and> (2 :: int) ^ k \<le> n \<and> n < 2 ^ Suc k"
    proof -
      consider "n < 512" | "512 \<le> n" "n < 1024" | "1024 \<le> n" "n < 2048" | "2048 \<le> n" "n < 4096" | "n = 4096"
        using range by linarith
      then show ?thesis
        using range by cases (auto intro: exI [of _ 8] exI [of _ 9] exI [of _ 10] exI [of _ 11] exI [of _ 12])
    qed
    then obtain k where k: "8 \<le> k" "k \<le> 12" "2 ^ k \<le> n" "n < 2 ^ Suc k"
      by blast
    have high: "bit m k" if "2 ^ k \<le> m" "m < 2 ^ Suc k" for m :: int
    proof -
      have "m div 2 ^ k = 1"
        using that by (intro int_div_pos_eq [of m "2 ^ k" 1 "m - 2 ^ k"]) auto
      then show ?thesis
        by (simp add: bit_iff_odd)
    qed
    have "n = 2 ^ k"
    proof (rule ccontr)
      assume "n \<noteq> 2 ^ k"
      then have "bit n k" "bit (n - 1) k"
        using k by (auto intro!: high)
      then have "bit (n AND (n - 1)) k"
        by (simp add: bit_and_iff)
      with True show False
        by simp
    qed
    with k True show ?thesis
      by (auto simp: page_size_setting_def n_def [symmetric] Let_def)
  next
    case False
    then have "page_size_setting v = 2 ^ 12"
      by (simp add: page_size_setting_def n_def [symmetric] Let_def)
    then show ?thesis
      by (intro exI [of _ 12]) simp
  qed
qed

definition well_formed_match :: "MvlConfig \<Rightarrow> bool" where
  "well_formed_match c \<longleftrightarrow> between 0 4 (MC_Stage c) \<and> (\<forall>s \<in> set (MC_StageSequence c). between 0 4 s)
     \<and> (\<forall>s rest. MC_StageSequence c = s # rest \<longrightarrow> MC_Stage c = s)
     \<and> MC_CourseMode c \<in> {''fixed'', ''random'', ''select''} \<and> between 1 3 (MC_TargetWins c) \<and> between 3 10 (MC_BigStarTarget c)
     \<and> MC_InitialLives c \<in> {3, 5} \<and> MC_LifeModeSelector c \<in> {0, 2} \<and> MC_BigStarSelector c \<le> 2
     \<and> 0 < MC_AutoRestartDelayFrames c \<and> MC_AutoRestartBootstrapFrame c \<le> 1000000
     \<and> (\<not> MC_MatchSeedConfigured c \<longrightarrow> MC_MatchSeed c = 0 \<and> MC_MatchSeedSequence c = [])
     \<and> (\<forall>s rest. MC_MatchSeedSequence c = s # rest \<longrightarrow> MC_MatchSeed c = s \<and> NR_Value (MC_NetRandom c) = s)"

lemma input_well_formed: "well_formed_input (LoadInputConfig e b)"
  unfolding well_formed_input_def LoadInputConfig_def Let_def
  by (auto simp: between_clamp word_gt_0)

lemma probe_offset: "0 \<le> m \<Longrightarrow> 0 \<le> clamp v 0 (max 0 (m - 1)) \<and> (m = 0 \<or> clamp v 0 (max 0 (m - 1)) < m)"
  for m :: int by (auto simp: clamp_def)

lemma ordered_range: "(if x \<noteq> 0 \<and> x < y then y else x) = 0 \<or> y \<le> (if x \<noteq> 0 \<and> x < y then y else x)" for x y :: u32
  by auto

lemma rollback_well_formed: "well_formed_rollback (LoadRollbackConfig e)"
proof -
  have nonneg: "0 \<le> clamp v 0 600" for v :: int
    by (simp add: clamp_def)
  have mask: "between 1 0xFFF (uint (u32_of_int (clamp v 1 0xFFF)))" for v
    using u32_of_clamp [of 1 "0xFFF" v] by (simp add: between_def)
  have delay: "between 0 180 (if clamp v 0 180 = 0 \<and> f then 1 else clamp v 0 180)" for v f
    by (simp add: between_clamp between_def [of 0 180 1])
  show ?thesis
    unfolding well_formed_rollback_def LoadRollbackConfig_def Let_def RollbackConfig.simps
    by (intro conjI conjunct1 [OF probe_offset] conjunct2 [OF probe_offset] ordered_range mask delay nonneg page_size_power between_clamp)
      simp_all
qed

lemma u32_of_max_pos: "0 < u32_of_int (max 1 (ReadInt e name fallback))" if "fallback < 2 ^ 31"
proof -
  have "ReadInt e name fallback < 2 ^ 31"
    using that sint_lt [of "word_of_int x :: u32" for x]
    by (auto simp: ReadInt_def ParseInt_def int_cast_def int_of_u32_def split: option.splits prod.splits)
  then have "uint (u32_of_int (max 1 (ReadInt e name fallback))) = max 1 (ReadInt e name fallback)"
    by (simp add: u32_of_int_def uint_word_of_int)
  then show ?thesis
    by (simp add: word_less_alt)
qed

lemma match_well_formed: "well_formed_match (LoadMvlConfig e)"
proof -
  have "u32_of_int (clamp v 0 1000000) \<le> 1000000" for v
    using u32_of_clamp [of 0 1000000 v] by (simp add: word_le_def)
  then show ?thesis
    using u32_of_max_pos [of 120 e]
    unfolding well_formed_match_def LoadMvlConfig_def Let_def
    by (auto simp: between_clamp split: list.split)
qed

definition well_formed_bridge :: "PacketBridgeConfig \<Rightarrow> bool" where
  "well_formed_bridge c \<longleftrightarrow> between (-1) 1 (BC_LocalPlayerOverride c) \<and> 0 \<le> BC_ThrottleTimeoutMs c
     \<and> 0 \<le> BC_LocalInputDelay c \<and> 0 \<le> BC_SendDelayFrames c \<and> 0 \<le> BC_SendJitterFrames c"

lemma bridge_well_formed: "well_formed_bridge (LoadPacketBridgeConfig e)"
  unfolding well_formed_bridge_def LoadPacketBridgeConfig_def
  by (auto simp: between_clamp between_def [of "-1" 1 "-1"] split: option.split)

definition well_formed_bootstrap :: "BootstrapConfig \<Rightarrow> bool" where
  "well_formed_bootstrap c \<longleftrightarrow> between 1 16 (BO_TestInstanceCount c) \<and> 1 \<le> BO_HashInterval c \<and> 0 \<le> BO_WaitTimeoutMs c
     \<and> 0 \<le> BO_QuitGraceMs c \<and> 1 \<le> BO_InputTraceInterval c"

lemma bootstrap_well_formed: "well_formed_bootstrap (LoadBootstrapConfig e)"
  unfolding well_formed_bootstrap_def LoadBootstrapConfig_def by (simp add: between_clamp)

definition well_formed_connection :: "ConnectionConfig \<Rightarrow> bool" where
  "well_formed_connection c \<longleftrightarrow> 0 \<le> CC_Delay c \<and> 0 \<le> CC_WarmupFrames c
     \<and> CC_LocalStartupRawFrame c = CC_StartFrame c \<and> CC_SharedLogicalEpoch c = CC_StartFrame c \<and> CC_StartFrame c < 2 ^ 31"

lemma u32_of_max_zero: "u32_of_int (max 0 (ReadInt e name 0)) < 2 ^ 31"
proof -
  have "ReadInt e name 0 < 2 ^ 31"
    using sint_lt [of "word_of_int x :: u32" for x]
    by (auto simp: ReadInt_def ParseInt_def int_cast_def int_of_u32_def split: option.splits prod.splits)
  then have "uint (u32_of_int (max 0 (ReadInt e name 0))) = max 0 (ReadInt e name 0)"
    by (simp add: u32_of_int_def uint_word_of_int)
  with \<open>ReadInt e name 0 < 2 ^ 31\<close> show ?thesis
    by (simp add: word_less_alt)
qed

lemma connection_well_formed: "well_formed_connection (LoadConnectionConfig e testEnabled)"
  unfolding well_formed_connection_def LoadConnectionConfig_def Let_def using u32_of_max_zero by simp

definition well_formed_patches :: "RuntimePatchConfig \<Rightarrow> bool" where
  "well_formed_patches c \<longleftrightarrow> PC_PlayerStickToStarStartFrame c \<le> PC_PlayerStickToStarEndFrame c
     \<and> between 0 1 (PC_PlayerStickToStarSlot c) \<and> PC_ForcePlayerCoins0 c \<le> 7 \<and> PC_ForcePlayerCoins1 c \<le> 7"

lemma patches_well_formed: "well_formed_patches (LoadRuntimePatchConfig e)"
proof -
  have "u32_of_int (clamp v 0 7) \<le> 7" for v
    using u32_of_clamp [of 0 7 v] by (simp add: word_le_def)
  then show ?thesis
    unfolding well_formed_patches_def LoadRuntimePatchConfig_def Let_def by (auto simp: between_clamp)
qed

definition well_formed_harness :: "HarnessConfig \<Rightarrow> bool" where
  "well_formed_harness c \<longleftrightarrow> 0 \<le> HA_SeedWaitTimeoutMs c \<and> between 50 5000 (HA_NetworkPumpSleepUs c)
     \<and> between 0 10000 (HA_TestEmulationPauseDurationMs c) \<and> (HA_StateLoadFrame c \<noteq> 0 \<longrightarrow> HA_StateLoadFrameSet c)"

lemma harness_well_formed: "well_formed_harness (LoadHarnessConfig e)"
  unfolding well_formed_harness_def LoadHarnessConfig_def
  by (auto simp: between_clamp ReadHasValue_def HasValue_def split: option.splits)

text \<open>The five apply flags come from one mode, and the remote player mode excludes every other object.\<close>

definition well_formed_sync :: "StateSyncConfig \<Rightarrow> bool" where
  "well_formed_sync c \<longleftrightarrow> 1 \<le> SY_GameInterval c \<and> 1 \<le> SY_WorldTraceObjectLifecyclesInterval c
     \<and> (SY_GameApplyRemotePlayerOnly c \<longrightarrow> SY_GameApplyPlayerActors c \<and> \<not> SY_GameApplyCriticalGlobals c
          \<and> \<not> SY_GameApplyStarObjects c \<and> \<not> SY_GameApplyStageObjects c)
     \<and> (SY_GameApplyStageObjects c \<longrightarrow> SY_GameApplyStarObjects c \<and> SY_GameApplyPlayerActors c)
     \<and> (SY_GameApplyCriticalGlobals c \<or> SY_GameApplyPlayerActors c)"

lemma sync_well_formed: "well_formed_sync (LoadStateSyncConfig e)"
  unfolding well_formed_sync_def LoadStateSyncConfig_def Let_def by auto

text \<open>C31: Every configuration that is loaded is well formed, whatever the environment holds: no text, no
  number out of range and no combination of variables gives a setting outside its range, for each of
  the nine groups of settings. In particular a bundle has at most 32 entries, the page size is a
  power of two from 256 to 4096, the prediction horizon is at most 10 frames and its timeout between
  0.1 and 60 seconds, the frame ranges of the send delay, the input drop, the prediction probe and the
  star patch are ordered, the probe offset is below its modulus, the first entry of a stage or seed
  sequence decides the stage or the seed of the match, the logical epoch begins at the start frame, and
  the remote player mode of the state synchronisation excludes the other objects. (The camera hold and
  the forced counters have a start and an end frame that are read as they are.)\<close>

theorem loaded_configuration_well_formed:
  "well_formed_bootstrap (LoadBootstrapConfig e) \<and> well_formed_connection (LoadConnectionConfig e testEnabled)
   \<and> well_formed_input (LoadInputConfig e netplayOnly) \<and> well_formed_patches (LoadRuntimePatchConfig e)
   \<and> well_formed_harness (LoadHarnessConfig e) \<and> well_formed_rollback (LoadRollbackConfig e)
   \<and> well_formed_bridge (LoadPacketBridgeConfig e) \<and> well_formed_match (LoadMvlConfig e)
   \<and> well_formed_sync (LoadStateSyncConfig e)"
  by (intro conjI bootstrap_well_formed connection_well_formed input_well_formed patches_well_formed harness_well_formed
      rollback_well_formed bridge_well_formed match_well_formed sync_well_formed)

section \<open>Numbers are read back\<close>

definition decimal :: "int \<Rightarrow> string" where
  "decimal n = (if n < 0 then CHR ''-'' # to_string (- n) else to_string n)"

lemma strtol_decimal:
  assumes "- lmax \<le> n" "n \<le> lmax"
  shows "strtol lmax 0 (decimal n) = (n, [])"
proof (cases "n = 0")
  case True
  with assms show ?thesis
    by (simp add: strtol_def decimal_def starts_with_def isspace_def is_digit_def digit_value_def clamp_def)
next
  case False
  define t where "t = to_string \<bar>n\<bar>"
  have d: "set t \<subseteq> digit_chars" and ne: "t \<noteq> []" and val: "digits_value 10 t 0 = \<bar>n\<bar>"
    using to_string_digits [of "\<bar>n\<bar>"] to_string_value [of "\<bar>n\<bar>"] by (simp_all add: t_def)
  have h: "hd t \<in> digit_chars" "hd t \<noteq> CHR ''0''"
    using d ne to_string_hd [of "\<bar>n\<bar>"] False by (auto simp: t_def)
  have sp: "dropWhile isspace t = t"
    using digit_chars_facts(2) [OF h(1)] ne by (cases t) simp_all
  have sign: "\<not> starts_with ''-'' t" "\<not> starts_with ''+'' t" "\<not> starts_with ''0'' t" "\<not> starts_with ''0x'' t" "\<not> starts_with ''0X'' t"
    using h by (auto simp: starts_with_Cons digit_chars_def dest: starts_with_hd)
  have "\<forall>c \<in> set t. is_digit 10 c"
    using d digit_chars_facts(1) by blast
  then have all: "takeWhile (is_digit 10) t = t" "dropWhile (is_digit 10) t = []"
    by simp_all
  have dec: "decimal n = (if n < 0 then CHR ''-'' # t else t)"
    by (simp add: decimal_def t_def)
  have minus: "dropWhile isspace (CHR ''-'' # t) = CHR ''-'' # t" "starts_with ''-'' (CHR ''-'' # t)"
    by (simp_all add: isspace_def starts_with_def)
  have neg: "starts_with ''-'' (dropWhile isspace (decimal n)) = (n < 0)"
    and rest: "(if (n < 0) \<or> starts_with ''+'' (dropWhile isspace (decimal n)) then tl (dropWhile isspace (decimal n))
      else dropWhile isspace (decimal n)) = t"
    using sp sign minus by (auto simp: dec)
  have v: "clamp n (- lmax - 1) lmax = n"
    using assms by (simp add: clamp_def)
  show ?thesis
    unfolding strtol_def Let_def neg rest using v val ne
    by (simp add: sign all del: takeWhile_eq_all_conv dropWhile_eq_Nil_conv)
qed

text \<open>A number written in decimal is read back. A setting whose variable holds the decimal form of a
  number that fits a \<^verbatim>\<open>long\<close> is that number reduced to the range of an \<^verbatim>\<open>int\<close>: the number itself when it
  fits 32 bits, and never the fallback; as an unsigned setting it is the number modulo 2 to the 32.\<close>

theorem decimal_settings_read_back:
  assumes "EV_Get e name = Some (decimal n)" and "- EV_LongMax e \<le> n" and "n \<le> EV_LongMax e"
  shows "ReadInt e name fallback = int_of_u32 (word_of_int n)
    \<and> (- (2 ^ 31) \<le> n \<longrightarrow> n < 2 ^ 31 \<longrightarrow> ReadInt e name fallback = n)
    \<and> (0 \<le> n \<longrightarrow> ReadU32 e name fallback32 = word_of_int n)"
proof -
  have ne: "decimal n \<noteq> []"
    by (simp add: decimal_def)
  have read: "ReadInt e name fallback = int_of_u32 (word_of_int n)"
    using assms ne by (simp add: ReadInt_def ParseInt_def strtol_decimal int_cast_def)
  moreover have "int_of_u32 (word_of_int n) = n" if "- (2 ^ 31) \<le> n" "n < 2 ^ 31"
    using that unfolding int_of_u32_def by transfer (simp add: signed_take_bit_int_eq_self)
  moreover have "ReadU32 e name fallback32 = word_of_int n" if "0 \<le> n"
  proof -
    have "strtoul (2 * EV_LongMax e + 1) (to_string n) = (n, [])"
      using assms(3) that by (intro strtoul_to_string) auto
    then show ?thesis
      using assms(1) that by (simp add: ReadU32_def ConfigParseU32_def decimal_def)
  qed
  ultimately show ?thesis
    by simp
qed

definition one_variable :: "string \<Rightarrow> string \<Rightarrow> Environment" where
  "one_variable name text = \<lparr>EV_Get = (\<lambda>n. if n = name then Some text else None), EV_LongMax = 2 ^ 63 - 1\<rparr>"

theorem decimal_settings_read_back_witness:
  "ReadInt (one_variable ''MELONDS_NSML_DELAY'' ''-12'') ''MELONDS_NSML_DELAY'' 6 = -12
   \<and> ReadInt (one_variable ''MELONDS_NSML_DELAY'' ''4294967297'') ''MELONDS_NSML_DELAY'' 6 = 1"
proof -
  have texts: "decimal (-12) = ''-12''" "decimal 4294967297 = ''4294967297''"
    by code_simp+
  have "ReadInt (one_variable ''MELONDS_NSML_DELAY'' ''-12'') ''MELONDS_NSML_DELAY'' 6 = -12"
    using decimal_settings_read_back [of "one_variable ''MELONDS_NSML_DELAY'' ''-12''" "''MELONDS_NSML_DELAY''" "-12" 6]
    by (simp add: texts one_variable_def)
  moreover have "ReadInt (one_variable ''MELONDS_NSML_DELAY'' ''4294967297'') ''MELONDS_NSML_DELAY'' 6 = 1"
    using decimal_settings_read_back [of "one_variable ''MELONDS_NSML_DELAY'' ''4294967297''" "''MELONDS_NSML_DELAY''" 4294967297 6]
    by (simp add: texts one_variable_def int_of_u32_def)
  ultimately show ?thesis
    by simp
qed

text \<open>A number just above the range of an \<^verbatim>\<open>int\<close> wraps before it is clamped: a wait timeout of 4294967296
  milliseconds is read as no timeout at all, and a delay of 2147483648 frames as none.\<close>

lemma out_of_range_settings_wrap:
  "BO_WaitTimeoutMs (LoadBootstrapConfig (one_variable ''MELONDS_NSML_WAIT_TIMEOUT_MS'' ''4294967296'')) = 0
   \<and> CC_Delay (LoadConnectionConfig (one_variable ''MELONDS_NSML_DELAY'' ''2147483648'') False) = 0"
  by code_simp

text \<open>A list of frame ranges holds only ordered ranges, also when the parse stops at an error.\<close>

lemma parsed_ranges_ordered:
  assumes "\<forall>(a, b) \<in> set ranges. a \<le> b"
  shows "\<forall>(a, b) \<in> set (snd (ParseFrameRanges lmax v ranges)). a \<le> b"
proof -
  have step: "a \<le> b" if "parse_range lmax token = Some (a, b)" for token a b
    using that by (auto simp: parse_range_def Let_def not_less split: if_splits option.splits prod.splits)
  have "\<forall>(a, b) \<in> set ranges. a \<le> b \<Longrightarrow> \<forall>(a, b) \<in> set (snd (parse_ranges lmax tokens ranges)). a \<le> b" for tokens ranges
  proof (induction tokens arbitrary: ranges)
    case (Cons token tokens)
    show ?case
    proof (cases "Trim token = [] \<or> parse_range lmax (Trim token) = None")
      case True
      then show ?thesis
        using Cons by auto
    next
      case False
      then obtain a b where r: "parse_range lmax (Trim token) = Some (a, b)"
        by auto
      then have "\<forall>(a, b) \<in> set (ranges @ [(a, b)]). a \<le> b"
        using Cons.prems step [OF r] by simp
      from Cons.IH [OF this] show ?thesis
        using False r by simp
    qed
  qed simp
  then show ?thesis
    using assms by (auto simp: ParseFrameRanges_def split: option.split)
qed

text \<open>The settings of the repository's own test of the match configuration.\<close>

lemma match_settings_sample:
  "ParseU32List (2 ^ 63 - 1) (Some '' 4, 9, invalid, , 2 '') = [4, 9, 0, 2]
   \<and> ParseFrameRanges (2 ^ 63 - 1) (Some ''10-20, 0x30'') [] = (True, [(10, 20), (0x30, 0x30)])"
  by code_simp

end
