(* ===== verification/Game_State.thy ===== *)
theory Game_State
  imports Config_Loading Packet_Classifier Session_Handshake Game_RAM
begin

text \<open>
  The game state model of \<^verbatim>\<open>NsmbGameState.cpp\<close>: the sample of the game that a peer takes, its hashes
  and the packet it travels in, with the start-ready message built from a sample. The members of \<^verbatim>\<open>GameStateSample\<close> that the
  wire and the hashes use are 32 bit words; the sample is a record of these words by member name
  and of the hash, and the lists below name the members in the order the code visits them.
\<close>

unbundle bit_operations_syntax

section \<open>The sample\<close>

record GameStateSample =
  GS_Word :: "string \<Rightarrow> u32"
  GS_Hash :: u64

definition GameStateSample_default :: GameStateSample where
  "GameStateSample_default = \<lparr>GS_Word = (\<lambda>_. 0), GS_Hash = 0\<rparr>"

record GameStateSyncHashes =
  SH_Basic :: u64
  SH_PlayerGlobal :: u64
  SH_WifiCandidate :: u64
  SH_RenderCandidate :: u64

definition GameStateSyncHashes_default :: GameStateSyncHashes where
  "GameStateSyncHashes_default = \<lparr>SH_Basic = 0, SH_PlayerGlobal = 0, SH_WifiCandidate = 0, SH_RenderCandidate = 0\<rparr>"

record DecodedGameState =
  DG_Generation :: u32
  DG_Frame :: u32
  DG_Instance :: u32
  DG_Sample :: GameStateSample
  DG_Hashes :: GameStateSyncHashes

definition GameStateWireFields :: "string list" where
  "GameStateWireFields = [
     ''StageID'', ''StageGroup'', ''VsMode'', ''LocalPlayerID'', ''GGID'', ''NetRandomValue'',
     ''NetRandomCallCount'', ''NetRandomBranchAddress'', ''VsStarFound'', ''VsStarGUID'',
     ''VsStarBase'', ''VsStarSettings'', ''VsStarStateType'', ''VsStarFlags'', ''VsStarPosX'',
     ''VsStarPosY'', ''VsStarPosZ'', ''VsStarActorFound'', ''VsStarActorGUID'',
     ''VsStarActorBase'', ''VsStarActorSettings'', ''VsStarActorStateType'',
     ''VsStarActorFlags'', ''VsStarActorPosX'', ''VsStarActorPosY'', ''VsStarActorPosZ'',
     ''PlayerActor0Found'', ''PlayerActor0GUID'', ''PlayerActor0Settings'',
     ''PlayerActor0PosX'', ''PlayerActor0PosY'', ''PlayerActor0PosZ'', ''PlayerActor0PrevX'',
     ''PlayerActor0PrevY'', ''PlayerActor0PrevZ'', ''PlayerActor0VelX'', ''PlayerActor0VelY'',
     ''PlayerActor0VelZ'', ''PlayerActor1Found'', ''PlayerActor1GUID'',
     ''PlayerActor1Settings'', ''PlayerActor1PosX'', ''PlayerActor1PosY'', ''PlayerActor1PosZ'',
     ''PlayerActor1PrevX'', ''PlayerActor1PrevY'', ''PlayerActor1PrevZ'', ''PlayerActor1VelX'',
     ''PlayerActor1VelY'', ''PlayerActor1VelZ'', ''PlayerCount'', ''Player0BattleStars'',
     ''Player1BattleStars'', ''Player0Coins'', ''Player1Coins'', ''Player0Score'',
     ''Player1Score'', ''Player0DisplayedStars'', ''Player1DisplayedStars'', ''Player0Deaths'',
     ''Player1Deaths'', ''Player0CollectedStars'', ''Player1CollectedStars'', ''VsCoinCount'',
     ''StageCameraFound'', ''StageCameraWord190'', ''StageCameraWord194'',
     ''StageCameraWord19C'', ''StageCameraWord1A0'', ''StageSceneFound'', ''StageSceneWord154'',
     ''StageSceneWord160'', ''MovingHazardFound'', ''MovingHazardGUID'',
     ''MovingHazardSettings'', ''MovingHazardStateType'', ''MovingHazardFlags'',
     ''MovingHazardPosX'', ''MovingHazardPosY'', ''MovingHazardPosZ'', ''MovingHazardVelX'',
     ''MovingHazardVelY'']"

definition basic_hash_fields :: "string list" where
  "basic_hash_fields = [
     ''StageID'', ''StageGroup'', ''VsMode'', ''LocalPlayerID'', ''GGID'', ''NetState14'',
     ''NetState1C'', ''NetState20'', ''NetState24'', ''NetState5C'', ''NetPacketTick'',
     ''NetPacketKeys'', ''NetPacketAction'', ''NetPacketByte5'', ''NetPacketByte6'',
     ''NetPacketByte7'', ''NetRandomValue'', ''NetRandomCallCount'', ''NetRandomBranchAddress'',
     ''InputConsole0Held'', ''InputConsole0Pressed'', ''InputConsole1Held'',
     ''InputConsole1Pressed'', ''InputPlayer0Held'', ''InputPlayer1Held'',
     ''InputPlayer0Pressed'', ''InputPlayer1Pressed'', ''StageActorFreezeFlag'',
     ''VsStarFound'', ''VsStarGUID'', ''VsStarSettings'', ''VsStarStateType'', ''VsStarFlags'',
     ''VsStarPosX'', ''VsStarPosY'', ''VsStarPosZ'', ''VsStarActorFound'', ''VsStarActorGUID'',
     ''VsStarActorSettings'', ''VsStarActorStateType'', ''VsStarActorFlags'',
     ''VsStarActorPosX'', ''VsStarActorPosY'', ''VsStarActorPosZ'', ''PlayerActor0Found'',
     ''PlayerActor0GUID'', ''PlayerActor0Settings'', ''PlayerActor0PosX'', ''PlayerActor0PosY'',
     ''PlayerActor0PosZ'', ''PlayerActor0PrevX'', ''PlayerActor0PrevY'', ''PlayerActor0PrevZ'',
     ''PlayerActor0VelX'', ''PlayerActor0VelY'', ''PlayerActor0VelZ'', ''PlayerActor1Found'',
     ''PlayerActor1GUID'', ''PlayerActor1Settings'', ''PlayerActor1PosX'', ''PlayerActor1PosY'',
     ''PlayerActor1PosZ'', ''PlayerActor1PrevX'', ''PlayerActor1PrevY'', ''PlayerActor1PrevZ'',
     ''PlayerActor1VelX'', ''PlayerActor1VelY'', ''PlayerActor1VelZ'', ''PlayerCount'',
     ''Player0Powerup'', ''Player1Powerup'', ''Player0InventoryPowerup'',
     ''Player1InventoryPowerup'', ''Player0Dead'', ''Player1Dead'', ''Player0Character'',
     ''Player1Character'', ''Player0Lives'', ''Player1Lives'', ''Player0BattleStars'',
     ''Player1BattleStars'', ''Player0Coins'', ''Player1Coins'', ''Player0Score'',
     ''Player1Score'', ''Player0DisplayedStars'', ''Player1DisplayedStars'', ''Player0Deaths'',
     ''Player1Deaths'', ''Player0CollectedStars'', ''Player1CollectedStars'', ''VsCoinCount'',
     ''StageCameraFound'', ''StageCameraWord190'', ''StageCameraWord194'',
     ''StageCameraWord19C'', ''StageCameraWord1A0'', ''StageSceneFound'', ''StageSceneWord154'',
     ''StageSceneWord160'', ''VsConnectFound'', ''VsConnectWord078'', ''VsConnectWord07C'',
     ''VsConnectWord114'', ''VsConnectWord118'', ''VsConnectWord120'', ''VsConnectWord128'',
     ''VsConnectWord144'', ''VsConnectWord148'', ''VsConnectWord154'', ''CourseSelectFound'',
     ''CourseSelectSettings'', ''CourseSelectWord060'', ''CourseSelectWord064'',
     ''CourseSelectWord068'', ''CourseSelectWord06C'', ''CourseSelectWord070'',
     ''CourseSelectWord074'', ''CourseSelectWord078'', ''CourseSelectWord07C'',
     ''CourseSelectWord080'', ''CourseSelectWord084'', ''CourseSelectWord088'',
     ''CourseSelectWord08C'', ''CourseSelectWord090'', ''StageActorManagerFound'',
     ''StageActorManagerStateType'', ''StageControllerFound'', ''StageControllerStateType'',
     ''MvlObject267Found'', ''MvlObject267StateType'', ''MovingHazardFound'',
     ''MovingHazardGUID'', ''MovingHazardSettings'', ''MovingHazardStateType'',
     ''MovingHazardFlags'', ''MovingHazardPosX'', ''MovingHazardPosY'', ''MovingHazardPosZ'',
     ''MovingHazardVelX'', ''MovingHazardVelY'']"

definition semantic_identity_fields :: "string list" where
  "semantic_identity_fields = [
     ''StageID'', ''StageGroup'', ''VsMode'']"

definition semantic_counter_fields :: "string list" where
  "semantic_counter_fields = [
     ''PlayerCount'', ''Player0Powerup'', ''Player1Powerup'', ''Player0InventoryPowerup'',
     ''Player1InventoryPowerup'', ''Player0Dead'', ''Player1Dead'', ''Player0Character'',
     ''Player1Character'', ''Player0Lives'', ''Player1Lives'', ''Player0BattleStars'',
     ''Player1BattleStars'', ''Player0Coins'', ''Player1Coins'', ''Player0Score'',
     ''Player1Score'', ''Player0DisplayedStars'', ''Player1DisplayedStars'', ''Player0Deaths'',
     ''Player1Deaths'', ''Player0CollectedStars'', ''Player1CollectedStars'', ''VsCoinCount'']"
section \<open>Hashes\<close>

text \<open>The two overloads of \<^verbatim>\<open>MixGameStateValue\<close>: one FNV-1a step per byte.\<close>

definition kFnvOffset :: u64 where "kFnvOffset = 1469598103934665603"
definition kFnvPrime :: u64 where "kFnvPrime = 1099511628211"

definition mix_byte :: "u64 \<Rightarrow> u64 \<Rightarrow> u64" where
  "mix_byte hash b = (hash XOR b) * kFnvPrime"

definition MixGameStateValue :: "u64 \<Rightarrow> u32 \<Rightarrow> u64" where
  "MixGameStateValue hash value =
     foldl (\<lambda>h index. mix_byte h (ucast (drop_bit (index * 8) value AND 0xFF))) hash [0, 1, 2, 3]"

definition MixGameStateValue64 :: "u64 \<Rightarrow> u64 \<Rightarrow> u64" where
  "MixGameStateValue64 hash value =
     MixGameStateValue (MixGameStateValue hash (ucast (value AND 0xFFFFFFFF))) (ucast (drop_bit 32 value))"

definition ComputeBasicGameStateHash :: "GameStateSample \<Rightarrow> u64" where
  "ComputeBasicGameStateHash sample =
     foldl MixGameStateValue kFnvOffset (map (GS_Word sample) basic_hash_fields)"

definition semantic_values :: "GameStateSample \<Rightarrow> u32 \<Rightarrow> u32 list" where
  "semantic_values sample stageSceneSettings =
     map (GS_Word sample) semantic_identity_fields @ [stageSceneSettings] @ map (GS_Word sample) semantic_counter_fields"

definition ComputeStartReadySemanticHash :: "GameStateSample \<Rightarrow> u32 \<Rightarrow> u64" where
  "ComputeStartReadySemanticHash sample stageSceneSettings =
     foldl MixGameStateValue kFnvOffset (semantic_values sample stageSceneSettings)"

text \<open>The start-ready message the session asks its caller for.\<close>

definition BuildStartReady :: "u32 \<Rightarrow> u32 \<Rightarrow> GameStateSample \<Rightarrow> Message" where
  "BuildStartReady matchSeed stageSceneSettings sample =
     Message_default\<lparr>SM_Kind := StartReady, SM_StageID := GS_Word sample ''StageID'',
       SM_StageGroup := GS_Word sample ''StageGroup'', SM_MatchSeed := matchSeed,
       SM_PacketTick := GS_Word sample ''NetPacketTick'', SM_RngValue := GS_Word sample ''NetRandomValue'',
       SM_RngCallCount := GS_Word sample ''NetRandomCallCount'',
       SM_RngBranchAddress := GS_Word sample ''NetRandomBranchAddress'',
       SM_SemanticHash := ComputeStartReadySemanticHash sample stageSceneSettings\<rparr>"

definition CombinedGameStateHash :: "GameStateSyncHashes \<Rightarrow> u64" where
  "CombinedGameStateHash hashes =
     MixGameStateValue64 (MixGameStateValue64 (MixGameStateValue64 (SH_Basic hashes) (SH_PlayerGlobal hashes))
       (SH_WifiCandidate hashes)) (SH_RenderCandidate hashes)"

text \<open>\<^verbatim>\<open>GameStateReader::HashMainRAMRange\<close>.\<close>

definition HashMainRAMRange :: "u32 \<Rightarrow> u32 \<Rightarrow> 'm NDS_scheme \<Rightarrow> u64" where
  "HashMainRAMRange address len n =
     (case ND_MainRAM n of
        None \<Rightarrow> 0
      | Some ram \<Rightarrow>
          if address < 0x02000000 then 0
          else
            let offset = address - 0x02000000; ramLength = ND_MainRAMMask n + 1
            in if ramLength \<le> offset then 0
               else foldl (\<lambda>h b. mix_byte h (ucast b)) kFnvOffset
                      (copy_out (unat offset) (unat (min len (ramLength - offset))) ram))"

section \<open>The packet\<close>

definition kWireKindState :: u32 where "kWireKindState = 0x54415453"

record WireGameState =
  WG_Magic :: u32
  WG_Version :: u32
  WG_Kind :: u32
  WG_Generation :: u32
  WG_Frame :: u32
  WG_Instance :: u32
  WG_Word :: "string \<Rightarrow> u32"
  WG_BasicHashLo :: u32
  WG_BasicHashHi :: u32
  WG_PlayerGlobalHashLo :: u32
  WG_PlayerGlobalHashHi :: u32
  WG_WifiCandidateHashLo :: u32
  WG_WifiCandidateHashHi :: u32
  WG_RenderCandidateHashLo :: u32
  WG_RenderCandidateHashHi :: u32

text \<open>\<^verbatim>\<open>COPY_TO_WIRE\<close> and \<^verbatim>\<open>COPY_FROM_WIRE\<close>: the named members are copied over a value initialised
  structure.\<close>

definition copy_words :: "string list \<Rightarrow> (string \<Rightarrow> u32) \<Rightarrow> string \<Rightarrow> u32" where
  "copy_words names source = (\<lambda>name. if name \<in> set names then source name else 0)"

definition hash_lo :: "u64 \<Rightarrow> u32" where "hash_lo h = ucast (h AND 0xFFFFFFFF)"
definition hash_hi :: "u64 \<Rightarrow> u32" where "hash_hi h = ucast (drop_bit 32 h)"
definition hash_join :: "u32 \<Rightarrow> u32 \<Rightarrow> u64" where "hash_join hi lo = push_bit 32 (ucast hi) OR ucast lo"

definition EncodeWireGameState :: "u32 \<Rightarrow> u32 \<Rightarrow> u32 \<Rightarrow> GameStateSample \<Rightarrow> GameStateSyncHashes \<Rightarrow> WireGameState" where
  "EncodeWireGameState frame inst generation sample hashes =
     \<lparr>WG_Magic = kMagic, WG_Version = kVersion, WG_Kind = kWireKindState, WG_Generation = generation,
      WG_Frame = frame, WG_Instance = inst, WG_Word = copy_words GameStateWireFields (GS_Word sample),
      WG_BasicHashLo = hash_lo (SH_Basic hashes), WG_BasicHashHi = hash_hi (SH_Basic hashes),
      WG_PlayerGlobalHashLo = hash_lo (SH_PlayerGlobal hashes), WG_PlayerGlobalHashHi = hash_hi (SH_PlayerGlobal hashes),
      WG_WifiCandidateHashLo = hash_lo (SH_WifiCandidate hashes), WG_WifiCandidateHashHi = hash_hi (SH_WifiCandidate hashes),
      WG_RenderCandidateHashLo = hash_lo (SH_RenderCandidate hashes),
      WG_RenderCandidateHashHi = hash_hi (SH_RenderCandidate hashes)\<rparr>"

definition DecodeWireGameState :: "WireGameState \<Rightarrow> DecodedGameState option" where
  "DecodeWireGameState packet =
     (if WG_Magic packet \<noteq> kMagic \<or> WG_Version packet \<noteq> kVersion \<or> WG_Kind packet \<noteq> kWireKindState then None
      else
        let hashes = \<lparr>SH_Basic = hash_join (WG_BasicHashHi packet) (WG_BasicHashLo packet),
              SH_PlayerGlobal = hash_join (WG_PlayerGlobalHashHi packet) (WG_PlayerGlobalHashLo packet),
              SH_WifiCandidate = hash_join (WG_WifiCandidateHashHi packet) (WG_WifiCandidateHashLo packet),
              SH_RenderCandidate = hash_join (WG_RenderCandidateHashHi packet) (WG_RenderCandidateHashLo packet)\<rparr>
        in Some \<lparr>DG_Generation = WG_Generation packet, DG_Frame = WG_Frame packet, DG_Instance = WG_Instance packet,
             DG_Sample = \<lparr>GS_Word = copy_words GameStateWireFields (WG_Word packet), GS_Hash = SH_Basic hashes\<rparr>,
             DG_Hashes = hashes\<rparr>)"

text \<open>The bytes of the structure: \<^verbatim>\<open>&packet, sizeof(packet)\<close> on the sending side and \<^verbatim>\<open>std::memcpy\<close> on
  the receiving side.\<close>

definition game_state_bytes :: "WireGameState \<Rightarrow> payload" where
  "game_state_bytes p = concat (map u32_le
     ([WG_Magic p, WG_Version p, WG_Kind p, WG_Generation p, WG_Frame p, WG_Instance p]
      @ map (WG_Word p) GameStateWireFields
      @ [WG_BasicHashLo p, WG_BasicHashHi p, WG_PlayerGlobalHashLo p, WG_PlayerGlobalHashHi p,
         WG_WifiCandidateHashLo p, WG_WifiCandidateHashHi p, WG_RenderCandidateHashLo p,
         WG_RenderCandidateHashHi p]))"

definition game_state_words :: "payload \<Rightarrow> u32 list" where
  "game_state_words bs = map (\<lambda>i. rd32 bs (4 * i)) [0..<length bs div 4]"

definition game_state_of_bytes :: "payload \<Rightarrow> WireGameState" where
  "game_state_of_bytes bs =
     (let ws = game_state_words bs; h = 6 + length GameStateWireFields in
      \<lparr>WG_Magic = ws ! 0, WG_Version = ws ! 1, WG_Kind = ws ! 2, WG_Generation = ws ! 3, WG_Frame = ws ! 4,
       WG_Instance = ws ! 5,
       WG_Word = (\<lambda>name. case map_of (zip GameStateWireFields (drop 6 ws)) name of None \<Rightarrow> 0 | Some w \<Rightarrow> w),
       WG_BasicHashLo = ws ! h, WG_BasicHashHi = ws ! (h + 1), WG_PlayerGlobalHashLo = ws ! (h + 2),
       WG_PlayerGlobalHashHi = ws ! (h + 3), WG_WifiCandidateHashLo = ws ! (h + 4),
       WG_WifiCandidateHashHi = ws ! (h + 5), WG_RenderCandidateHashLo = ws ! (h + 6),
       WG_RenderCandidateHashHi = ws ! (h + 7)\<rparr>)"

section \<open>The packet is read back\<close>

lemma length_wire_fields: "length GameStateWireFields = 82"
  by (simp add: GameStateWireFields_def)

lemma wire_layout:
  "WireGameState_fields = [''Magic'', ''Version'', ''Kind'', ''Generation'', ''Frame'', ''Instance''] @ GameStateWireFields
     @ [''BasicHashLo'', ''BasicHashHi'', ''PlayerGlobalHashLo'', ''PlayerGlobalHashHi'', ''WifiCandidateHashLo'',
        ''WifiCandidateHashHi'', ''RenderCandidateHashLo'', ''RenderCandidateHashHi'']"
  by (simp add: WireGameState_fields_def GameStateWireFields_def)

lemma distinct_wire_fields: "distinct GameStateWireFields"
  by (simp add: GameStateWireFields_def)

lemma low_mask: "(x :: u64) AND 0xFFFFFFFF = take_bit 32 x"
proof -
  have "(0xFFFFFFFF :: u64) = mask 32"
    by (simp add: mask_eq_exp_minus_1)
  then show ?thesis
    by (simp add: take_bit_eq_mask)
qed

lemma hash_join_split [simp]: "hash_join (hash_hi h) (hash_lo h) = h"
  by (rule bit_word_eqI) (auto simp: hash_join_def hash_hi_def hash_lo_def low_mask bit_simps)

lemma u32_le_words: "game_state_words (concat (map u32_le ws)) = ws"
proof -
  have "rd32 (concat (map u32_le ws)) (4 * i) = ws ! i" if "i < length ws" for i
    using that
  proof (induction ws arbitrary: i)
    case (Cons w ws)
    then show ?case
      by (cases i) (simp_all add: rd32_append_right)
  qed simp
  moreover have "length (concat (map u32_le ws)) = 4 * length ws"
    by (induction ws) simp_all
  ultimately show ?thesis
    by (intro nth_equalityI) (simp_all add: game_state_words_def)
qed

lemma map_of_zip_self: "distinct ns \<Longrightarrow> map_of (zip ns (map f ns @ ws)) = (\<lambda>n. if n \<in> set ns then Some (f n) else None)"
  by (induction ns) (auto simp: fun_eq_iff)

lemma game_state_of_bytes_bytes:
  assumes "WG_Word p = copy_words GameStateWireFields g"
  shows "game_state_of_bytes (game_state_bytes p) = p"
proof -
  let ?h = "[WG_Magic p, WG_Version p, WG_Kind p, WG_Generation p, WG_Frame p, WG_Instance p]"
  let ?m = "map (WG_Word p) GameStateWireFields"
  let ?t = "[WG_BasicHashLo p, WG_BasicHashHi p, WG_PlayerGlobalHashLo p, WG_PlayerGlobalHashHi p,
         WG_WifiCandidateHashLo p, WG_WifiCandidateHashHi p, WG_RenderCandidateHashLo p, WG_RenderCandidateHashHi p]"
  have ws: "game_state_words (game_state_bytes p) = ?h @ ?m @ ?t"
    unfolding game_state_bytes_def by (rule u32_le_words)
  have words: "(\<lambda>name. case map_of (zip GameStateWireFields (?m @ ?t)) name of None \<Rightarrow> 0 | Some w \<Rightarrow> w) = WG_Word p"
    by (simp only: map_of_zip_self [OF distinct_wire_fields]) (simp add: assms copy_words_def fun_eq_iff)
  have tail: "(?h @ ?m @ ?t) ! (6 + length GameStateWireFields + k) = ?t ! k" for k
    by (simp only: append_assoc [symmetric]) (simp add: nth_append)
  show ?thesis
    unfolding game_state_of_bytes_def ws Let_def
    using tail [of 0] tail [of 1] tail [of 2] tail [of 3] tail [of 4] tail [of 5] tail [of 6] tail [of 7] words
    by (cases p) simp
qed

lemma length_game_state_bytes: "length (game_state_bytes p) = kWireGameStateSize"
proof -
  have "length (concat (map u32_le ws)) = 4 * length ws" for ws
    by (induction ws) simp_all
  then show ?thesis
    by (simp only: game_state_bytes_def wire_sizes) (simp add: length_wire_fields)
qed

lemma copy_words_idem [simp]: "copy_words ns (copy_words ns g) = copy_words ns g"
  by (simp add: copy_words_def fun_eq_iff)

lemma decode_encode_game_state:
  "DecodeWireGameState (game_state_of_bytes (game_state_bytes (EncodeWireGameState frame inst gen sample hashes)))
   = Some \<lparr>DG_Generation = gen, DG_Frame = frame, DG_Instance = inst,
       DG_Sample = \<lparr>GS_Word = copy_words GameStateWireFields (GS_Word sample), GS_Hash = SH_Basic hashes\<rparr>,
       DG_Hashes = hashes\<rparr>"
proof -
  have "game_state_of_bytes (game_state_bytes (EncodeWireGameState frame inst gen sample hashes))
      = EncodeWireGameState frame inst gen sample hashes"
    by (rule game_state_of_bytes_bytes [where g = "GS_Word sample"]) (simp add: EncodeWireGameState_def)
  then show ?thesis
    by (simp add: EncodeWireGameState_def DecodeWireGameState_def)
qed

section \<open>The hash separates values that differ in one place\<close>

lemma u64_take_bit_le: "unat (take_bit 8 (w :: u64)) \<le> 255"
proof -
  have "unat (take_bit 8 w) = unat w mod 2 ^ 8"
    by (simp add: unsigned_take_bit_eq take_bit_nat_def)
  then show ?thesis by simp
qed

lemma xor_byte_offset:
  assumes "take_bit 8 b = (b :: u64)"
  shows "\<exists>d. \<bar>d\<bar> \<le> 255 \<and> x XOR b = x + word_of_int d"
proof -
  let ?hi = "x AND NOT (mask 8)"
  have split: "w = (w AND NOT (mask 8)) + take_bit 8 w" for w :: u64
  proof -
    have "w = (w AND NOT (mask 8)) OR take_bit 8 w"
      by (rule bit_word_eqI) (auto simp: bit_simps)
    also have "\<dots> = (w AND NOT (mask 8)) + take_bit 8 w"
      by (rule disjunctive_add_eq_or [symmetric]) (rule bit_word_eqI, auto simp: bit_simps)
    finally show ?thesis .
  qed
  have hi: "(x XOR b) AND NOT (mask 8) = ?hi"
    by (subst assms [symmetric], rule bit_word_eqI) (auto simp: bit_simps)
  let ?d = "int (unat (take_bit 8 (x XOR b))) - int (unat (take_bit 8 x))"
  have "word_of_int ?d = take_bit 8 (x XOR b) - take_bit 8 x"
    by (simp add: of_int_diff)
  then have "x XOR b = x + word_of_int ?d"
    by (simp only: hi [symmetric] split [of "x XOR b", unfolded hi, symmetric] refl) (subst split [of "x XOR b"], subst (3) split [of x], simp add: hi)
  moreover have "\<bar>?d\<bar> \<le> 255"
    using u64_take_bit_le [of "x XOR b"] u64_take_bit_le [of x] by linarith
  ultimately show ?thesis by blast
qed

text \<open>The prime is \<open>2 ^ 40 + 435\<close>, so a combination of its powers with small coefficients that is small modulo
  \<open>2 ^ 64\<close> is a multiple of 435.\<close>

lemma fnv_small:
  fixes a b c e :: int
  assumes "2 ^ 64 dvd (1099511628211 ^ 3 * a + 1099511628211 ^ 2 * b + 1099511628211 * c - e)"
    and "\<bar>a\<bar> \<le> 510" "\<bar>b\<bar> \<le> 510" "\<bar>c\<bar> \<le> 510" "\<bar>e\<bar> \<le> 255"
  shows "e = 0"
proof -
  let ?r = "82312875 * a + 189225 * b + 435 * c - e"
  have "(2::int) ^ 40 dvd 1099511628211 ^ 3 * a + 1099511628211 ^ 2 * b + 1099511628211 * c - e"
    using assms(1) by (rule dvd_trans [OF le_imp_power_dvd, rotated]) simp
  moreover have "1099511628211 ^ 3 * a + 1099511628211 ^ 2 * b + 1099511628211 * c - e
      = 2 ^ 40 * ((2 ^ 80 + 1305 * 2 ^ 40 + 567675) * a + (2 ^ 40 + 870) * b + c) + ?r"
    by algebra
  ultimately have "(2::int) ^ 40 dvd ?r"
    by (metis dvd_add_right_iff dvd_triv_left)
  moreover have "\<bar>?r\<bar> < 2 ^ 40"
    using assms(2-5) by simp
  ultimately have "?r = 0"
    using dvd_imp_le_int [of ?r "2 ^ 40"] by auto
  then have "e = 435 * (189225 * a + 435 * b + c)"
    by simp
  then have "435 dvd e"
    by simp
  then show ?thesis
    using assms(5) dvd_imp_le_int [of e 435] by auto
qed

lemma fnv_prime_unit: "kFnvPrime * 14886173955864302971 = 1"
  unfolding kFnvPrime_def by transfer (simp add: take_bit_eq_mod)

lemma fnv_prime_cancel:
  assumes "a * kFnvPrime = b * kFnvPrime"
  shows "a = b"
proof -
  have "a * (kFnvPrime * 14886173955864302971) = b * (kFnvPrime * 14886173955864302971)"
    by (simp only: mult.assoc [symmetric] assms)
  then show ?thesis
    by (simp only: fnv_prime_unit mult_1_right)
qed

lemma mix_byte_cancel: "mix_byte s b = mix_byte s' b' \<Longrightarrow> s XOR b = s' XOR b'"
  unfolding mix_byte_def by (rule fnv_prime_cancel)

lemma mix_byte_byte: "mix_byte s b = mix_byte s b' \<Longrightarrow> b = b'"
proof -
  assume "mix_byte s b = mix_byte s b'"
  then have "s XOR (s XOR b) = s XOR (s XOR b')"
    by (rule arg_cong [OF mix_byte_cancel])
  then show ?thesis
    by (simp add: xor.assoc [symmetric])
qed

lemma mix_byte_offset:
  assumes "take_bit 8 b = b"
  obtains d where "\<bar>d\<bar> \<le> 255" "mix_byte s b = s * kFnvPrime + word_of_int d * kFnvPrime"
  using xor_byte_offset [OF assms, of s] by (auto simp: mix_byte_def algebra_simps)

text \<open>Two runs that end in the same hash: the last states differ by less than a byte, and so did the states before.\<close>

lemma mix_byte_same:
  assumes "mix_byte s b = mix_byte s' b'" "take_bit 8 b = b" "take_bit 8 b' = b'"
  obtains e where "\<bar>e\<bar> \<le> 255" "s' = s + word_of_int e"
proof -
  have "s XOR b = s' XOR b'"
    using assms(1) by (rule mix_byte_cancel)
  then have "(s XOR b) XOR b' = (s' XOR b') XOR b'"
    by (rule arg_cong)
  then have "s' = s XOR (b XOR b')"
    by (simp add: xor.assoc)
  moreover have "take_bit 8 (b XOR b') = b XOR b'"
    using assms(2,3) by (simp add: take_bit_xor)
  ultimately show ?thesis
    using xor_byte_offset [of "b XOR b'" s] that by metis
qed

lemma mix_byte_separates:
  assumes "mix_byte s b = mix_byte s' b'" "take_bit 8 b = b" "take_bit 8 b' = b'"
    and "s' = s + word_of_int (1099511628211 ^ 3 * p + 1099511628211 ^ 2 * q + 1099511628211 * r)"
    and "\<bar>p\<bar> \<le> 510" "\<bar>q\<bar> \<le> 510" "\<bar>r\<bar> \<le> 510"
  shows "s' = s \<and> b' = b"
proof -
  let ?x = "1099511628211 ^ 3 * p + 1099511628211 ^ 2 * q + 1099511628211 * r"
  obtain e where e: "\<bar>e\<bar> \<le> 255" "s' = s + word_of_int e"
    using assms(1-3) by (rule mix_byte_same)
  with assms(4) have "(word_of_int ?x :: u64) = word_of_int e"
    by simp
  then have "2 ^ 64 dvd ?x - e"
    by (simp only: word_of_int_eq_iff take_bit_eq_mod mod_eq_dvd_iff) simp
  then have "e = 0"
    using assms(5-7) e(1) by (rule fnv_small)
  then have "s' = s"
    using e(2) by simp
  then show ?thesis
    using mix_byte_byte [of s b b'] assms(1) by simp
qed

lemma mix_byte_step:
  assumes "take_bit 8 b = b" "take_bit 8 b' = b'" "s' = s + word_of_int x"
  obtains r where "\<bar>r\<bar> \<le> 510" "mix_byte s' b' = mix_byte s b + word_of_int (1099511628211 * x + 1099511628211 * r)"
proof -
  obtain d where d: "\<bar>d\<bar> \<le> 255" "mix_byte s b = s * kFnvPrime + word_of_int d * kFnvPrime"
    using assms(1) by (rule mix_byte_offset)
  obtain d' where d': "\<bar>d'\<bar> \<le> 255" "mix_byte s' b' = s' * kFnvPrime + word_of_int d' * kFnvPrime"
    using assms(2) by (rule mix_byte_offset)
  have "kFnvPrime = word_of_int 1099511628211"
    by (simp add: kFnvPrime_def)
  then have "mix_byte s' b' = mix_byte s b + word_of_int (1099511628211 * x + 1099511628211 * (d' - d))"
    using d(2) d'(2) assms(3) by (simp add: algebra_simps)
  moreover have "\<bar>d' - d\<bar> \<le> 510"
    using d(1) d'(1) by linarith
  ultimately show ?thesis
    by (rule that [rotated])
qed

lemma MixGameStateValue_bytes:
  "MixGameStateValue h v = mix_byte (mix_byte (mix_byte (mix_byte h (ucast (v AND 0xFF)))
     (ucast (drop_bit 8 v AND 0xFF))) (ucast (drop_bit 16 v AND 0xFF))) (ucast (drop_bit 24 v AND 0xFF))"
  by (simp add: MixGameStateValue_def)

lemma byte_of_word: "(w :: u32) AND 0xFF = take_bit 8 w"
proof -
  have "(0xFF :: u32) = mask 8"
    by (simp add: mask_eq_exp_minus_1)
  then show ?thesis
    by (simp add: take_bit_eq_mask)
qed

lemma take_byte: "take_bit 8 (ucast (w AND 0xFF :: u32) :: u64) = ucast (w AND 0xFF)"
  by (rule bit_word_eqI) (auto simp: byte_of_word bit_simps)

lemma ucast_byte_eq: "(ucast (w AND 0xFF :: u32) :: u64) = ucast (w' AND 0xFF) \<Longrightarrow> take_bit 8 w = take_bit 8 w'"
proof -
  assume "(ucast (w AND 0xFF) :: u64) = ucast (w' AND 0xFF)"
  then have "bit (ucast (take_bit 8 w) :: u64) n = bit (ucast (take_bit 8 w') :: u64) n" for n
    by (simp add: byte_of_word)
  then have bits: "(n < 64 \<and> n < 8 \<and> bit w n) = (n < 64 \<and> n < 8 \<and> bit w' n)" for n
    by (simp add: bit_simps)
  have "n < 8 \<longrightarrow> bit w n = bit w' n" for n
    using bits [of n] by auto
  then show ?thesis
    by (intro bit_word_eqI) (auto simp: bit_simps)
qed

lemma bytes_determine_word:
  assumes "take_bit 8 v = take_bit 8 v'" "take_bit 8 (drop_bit 8 v) = take_bit 8 (drop_bit 8 v')"
    "take_bit 8 (drop_bit 16 v) = take_bit 8 (drop_bit 16 v')" "take_bit 8 (drop_bit 24 v) = take_bit 8 (drop_bit 24 (v' :: u32))"
  shows "v = v'"
proof (rule bit_word_eqI)
  fix n assume "n < LENGTH(32)"
  have b: "bit (take_bit 8 (drop_bit k v)) i = bit (take_bit 8 (drop_bit k v')) i" if "k \<in> {0, 8, 16, 24}" for k i
    using assms that by auto
  have "bit (take_bit 8 (drop_bit (8 * (n div 8)) v)) (n mod 8) = bit (take_bit 8 (drop_bit (8 * (n div 8)) v')) (n mod 8)"
    using \<open>n < LENGTH(32)\<close> by (intro b) auto
  then show "bit v n = bit v' n"
    by (simp add: bit_simps)
qed

lemma MixGameStateValue_inject: "MixGameStateValue h v = MixGameStateValue h v' \<Longrightarrow> v = v'"
proof -
  assume end_: "MixGameStateValue h v = MixGameStateValue h v'"
  define b where "b k w = (ucast (drop_bit k w AND 0xFF :: u32) :: u64)" for k w
  have tb: "take_bit 8 (b k w) = b k w" for k w
    by (simp only: b_def take_byte)
  define s1 s1' where "s1 = mix_byte h (b 0 v)" "s1' = mix_byte h (b 0 v')"
  define s2 s2' where "s2 = mix_byte s1 (b 8 v)" "s2' = mix_byte s1' (b 8 v')"
  define s3 s3' where "s3 = mix_byte s2 (b 16 v)" "s3' = mix_byte s2' (b 16 v')"
  let ?P = "1099511628211 :: int"
  have same: "mix_byte s3 (b 24 v) = mix_byte s3' (b 24 v')"
    using end_ by (simp add: MixGameStateValue_bytes s1_s1'_def s2_s2'_def s3_s3'_def b_def)
  obtain r0 where r0: "\<bar>r0\<bar> \<le> 510" "s1' = s1 + word_of_int (?P * 0 + ?P * r0)"
    unfolding s1_s1'_def by (rule mix_byte_step [OF tb tb, of h h 0]) simp
  obtain r1 where r1: "\<bar>r1\<bar> \<le> 510" "s2' = s2 + word_of_int (?P * (?P * 0 + ?P * r0) + ?P * r1)"
    unfolding s2_s2'_def by (rule mix_byte_step [OF tb tb r0(2)])
  obtain r2 where r2: "\<bar>r2\<bar> \<le> 510"
      "s3' = s3 + word_of_int (?P * (?P * (?P * 0 + ?P * r0) + ?P * r1) + ?P * r2)"
    unfolding s3_s3'_def by (rule mix_byte_step [OF tb tb r1(2)])
  have "?P * (?P * (?P * 0 + ?P * r0) + ?P * r1) + ?P * r2 = ?P ^ 3 * r0 + ?P ^ 2 * r1 + ?P * r2"
    by algebra
  then have 3: "s3' = s3 \<and> b 24 v' = b 24 v"
    using r2(2) by (intro mix_byte_separates [OF same tb tb _ r0(1) r1(1) r2(1)]) simp
  have "?P * (?P * 0 + ?P * r0) + ?P * r1 = ?P ^ 3 * 0 + ?P ^ 2 * r0 + ?P * r1"
    by algebra
  then have 2: "s2' = s2 \<and> b 16 v' = b 16 v"
    using r1(2) 3 by (intro mix_byte_separates [OF _ tb tb _ _ r0(1) r1(1), where p = 0]) (simp_all add: s3_s3'_def)
  have 1: "s1' = s1 \<and> b 8 v' = b 8 v"
    using r0(2) 2 by (intro mix_byte_separates [OF _ tb tb _ _ _ r0(1), where p = 0 and q = 0]) (simp_all add: s2_s2'_def)
  have 0: "b 0 v' = b 0 v"
    using 1 mix_byte_byte [of h "b 0 v'" "b 0 v"] by (simp add: s1_s1'_def)
  have bytes: "take_bit 8 (drop_bit k v) = take_bit 8 (drop_bit k v')" if "b k v' = b k v" for k
    using that unfolding b_def by (rule ucast_byte_eq [OF sym])
  show "v = v'"
    using bytes [of 0] bytes [of 8] bytes [of 16] bytes [of 24] 0 1 2 3 by (simp add: bytes_determine_word)
qed

lemma mix_byte_state: "mix_byte s b = mix_byte s' b \<Longrightarrow> s = s'"
proof -
  assume "mix_byte s b = mix_byte s' b"
  then have "(s XOR b) XOR b = (s' XOR b) XOR b"
    by (rule arg_cong [OF mix_byte_cancel])
  then show ?thesis
    by (simp add: xor.assoc)
qed

lemma MixGameStateValue_cancel: "MixGameStateValue h v = MixGameStateValue h' v \<Longrightarrow> h = h'"
  unfolding MixGameStateValue_bytes by (drule mix_byte_state)+

lemma foldl_mix_cancel: "foldl MixGameStateValue h vs = foldl MixGameStateValue h' vs \<Longrightarrow> h = h'"
  by (induction vs arbitrary: h h') (auto dest: MixGameStateValue_cancel)

lemma foldl_mix_separates:
  assumes "length us = length vs" "i < length us" "us ! i \<noteq> vs ! i" "\<And>j. j < length us \<Longrightarrow> j \<noteq> i \<Longrightarrow> us ! j = vs ! j"
  shows "foldl MixGameStateValue h us \<noteq> foldl MixGameStateValue h vs"
proof
  assume eq: "foldl MixGameStateValue h us = foldl MixGameStateValue h vs"
  have "take i us = take i vs" "drop (Suc i) us = drop (Suc i) vs"
    using assms by (auto intro!: nth_equalityI)
  then have "us = take i us @ us ! i # drop (Suc i) us" "vs = take i us @ vs ! i # drop (Suc i) us"
    using assms(1,2) id_take_nth_drop [of i us] id_take_nth_drop [of i vs] by simp_all
  with eq have "foldl MixGameStateValue h (take i us @ us ! i # drop (Suc i) us)
      = foldl MixGameStateValue h (take i us @ vs ! i # drop (Suc i) us)"
    by simp
  then show False
    using assms(3) by (auto dest!: foldl_mix_cancel MixGameStateValue_inject)
qed


text \<open>C21: The start barrier notices every single difference of the game. When the samples of the two
  peers differ in exactly one of the twenty-eight values of the semantic hash (identities, scene
  settings, power-ups, lives, stars, coins, scores, deaths), by whatever amount, the validation of
  their start-ready messages is not a match.\<close>

theorem start_ready_notices_difference:
  assumes "i < length (semantic_values a sa)" "semantic_values a sa ! i \<noteq> semantic_values b sb ! i"
    and "\<And>j. j < length (semantic_values a sa) \<Longrightarrow> j \<noteq> i \<Longrightarrow> semantic_values a sa ! j = semantic_values b sb ! j"
  shows "ValidateStartReady (local_ready_message (BuildStartReady seed sa a) f h)
     (local_ready_message (BuildStartReady seed' sb b) f' h') gen epoch \<noteq> Match"
proof -
  have "length (semantic_values a sa) = length (semantic_values b sb)"
    by (simp add: semantic_values_def)
  then have "ComputeStartReadySemanticHash a sa \<noteq> ComputeStartReadySemanticHash b sb"
    unfolding ComputeStartReadySemanticHash_def using assms by (rule foldl_mix_separates)
  then show ?thesis
    by (auto simp: ValidateStartReady_def local_ready_message_def BuildStartReady_def split: if_splits)
qed

theorem start_ready_notices_difference_witness:
  "ValidateStartReady (local_ready_message (BuildStartReady 1 5 GameStateSample_default) 10 HandshakeRuntime_init)
     (local_ready_message (BuildStartReady 1 6 GameStateSample_default) 12 HandshakeRuntime_init) 0 7 \<noteq> Match"
  by (rule start_ready_notices_difference [where i = 3])
    (simp_all add: semantic_values_def semantic_identity_fields_def semantic_counter_fields_def nth_Cons' split: if_splits)

text \<open>The hash of the whole sample separates in the same way.\<close>

lemma basic_hash_separates:
  assumes "i < length basic_hash_fields" "GS_Word a (basic_hash_fields ! i) \<noteq> GS_Word b (basic_hash_fields ! i)"
    and "\<And>j. j < length basic_hash_fields \<Longrightarrow> j \<noteq> i \<Longrightarrow> GS_Word a (basic_hash_fields ! j) = GS_Word b (basic_hash_fields ! j)"
  shows "ComputeBasicGameStateHash a \<noteq> ComputeBasicGameStateHash b"
  unfolding ComputeBasicGameStateHash_def
  by (rule foldl_mix_separates [where i = i]) (use assms in simp_all)

end
