(* ===== verification/State_Sync.thy ===== *)
theory State_Sync
  imports Game_State Netplay_Config Transport
begin

text \<open>
  The comparison of the peers' game states: \<^verbatim>\<open>RemoteStateStore\<close> and \<^verbatim>\<open>StateSyncRuntime\<close> of
  \<^verbatim>\<open>NsmbGameState.cpp\<close>, and the two ends of the exchange in \<^verbatim>\<open>NsmbGameStateSync.cpp\<close>, \<open>Sync\<close> for the
  local side and \<open>HandleReceivedPacketLocked\<close> for what the peer sent. Reading a sample out of the
  machine is the argument \<open>readSample\<close>; a reported mismatch and a sent packet are results.
\<close>

section \<open>The stores\<close>

record GameStateHashMismatch =
  HM_InstanceID :: int
  HM_Frame :: u32
  HM_Local :: GameStateSyncHashes
  HM_Remote :: GameStateSyncHashes

definition GameStateKey :: "int \<Rightarrow> u32 \<Rightarrow> u64" where
  "GameStateKey instanceID frame = push_bit 32 (ucast (u32_of_int instanceID)) OR ucast frame"

record RemoteStateStore =
  RM_GameStateHashes :: "(u64, GameStateSyncHashes) fmap"
  RM_GameStates :: "(u64, GameStateSample) fmap"

definition RemoteStateStore_init :: RemoteStateStore where
  "RemoteStateStore_init = \<lparr>RM_GameStateHashes = fmempty, RM_GameStates = fmempty\<rparr>"

definition RemoteResetForRestart :: "RemoteStateStore \<Rightarrow> RemoteStateStore" where
  "RemoteResetForRestart r = r\<lparr>RM_GameStateHashes := fmempty, RM_GameStates := fmempty\<rparr>"

definition StoreGameState :: "DecodedGameState \<Rightarrow> RemoteStateStore \<Rightarrow> RemoteStateStore" where
  "StoreGameState state r =
     (let key = GameStateKey (int_of_u32 (DG_Instance state)) (DG_Frame state)
      in r\<lparr>RM_GameStateHashes := fmupd key (DG_Hashes state) (RM_GameStateHashes r),
           RM_GameStates := fmupd key (DG_Sample state) (RM_GameStates r)\<rparr>)"

definition FindGameStateHashes :: "int \<Rightarrow> u32 \<Rightarrow> RemoteStateStore \<Rightarrow> GameStateSyncHashes option" where
  "FindGameStateHashes instanceID frame r = fmlookup (RM_GameStateHashes r) (GameStateKey instanceID frame)"

definition FindGameState :: "int \<Rightarrow> u32 \<Rightarrow> RemoteStateStore \<Rightarrow> GameStateSample option" where
  "FindGameState instanceID frame r = fmlookup (RM_GameStates r) (GameStateKey instanceID frame)"

text \<open>\<^verbatim>\<open>upper_bound\<close> and one step back; \<^const>\<open>None\<close> is the result false.\<close>

definition FindLatestGameState :: "int \<Rightarrow> u32 \<Rightarrow> RemoteStateStore \<Rightarrow> (GameStateSample \<times> u32) option" where
  "FindLatestGameState instanceID frame r =
     (case fm_last_upto (GameStateKey instanceID frame) (RM_GameStates r) of
        None \<Rightarrow> None
      | Some key \<Rightarrow>
          if key < GameStateKey instanceID 0 then None
          else map_option (\<lambda>state. (state, ucast key)) (fmlookup (RM_GameStates r) key))"

record StateSyncRuntime =
  SS_RemoteState :: RemoteStateStore
  SS_PlayerActorBaseCache :: "(u32 \<times> u32) list"
  SS_PlayerActorGUIDCache :: "(u32 \<times> u32) list"
  SS_LastTracedWorldMovingHazardsFrame :: "u32 list"
  SS_LastTracedWorldEffectsFrame :: "u32 list"
  SS_LastTracedWorldObjectLifecyclesFrame :: "u32 list"
  SS_LocalGameStateHashes :: "(u64, GameStateSyncHashes) fmap"
  SS_LastSentGameStateFrame :: "u64 list"

definition StateSyncRuntime_init :: StateSyncRuntime where
  "StateSyncRuntime_init = \<lparr>SS_RemoteState = RemoteStateStore_init,
     SS_PlayerActorBaseCache = replicate 16 (0, 0), SS_PlayerActorGUIDCache = replicate 16 (0, 0),
     SS_LastTracedWorldMovingHazardsFrame = replicate 16 0, SS_LastTracedWorldEffectsFrame = replicate 16 0,
     SS_LastTracedWorldObjectLifecyclesFrame = replicate 16 0, SS_LocalGameStateHashes = fmempty,
     SS_LastSentGameStateFrame = replicate 16 0\<rparr>"

definition sync_instance :: "int \<Rightarrow> bool" where
  "sync_instance instanceID \<longleftrightarrow> 0 \<le> instanceID \<and> instanceID < 16"

definition BeginGameStateSync :: "int \<Rightarrow> u32 \<Rightarrow> StateSyncRuntime \<Rightarrow> bool \<times> StateSyncRuntime" where
  "BeginGameStateSync instanceID frame s =
     (if \<not> sync_instance instanceID \<or> SS_LastSentGameStateFrame s ! nat instanceID = ucast frame then (False, s)
      else (True, s\<lparr>SS_LastSentGameStateFrame := (SS_LastSentGameStateFrame s)[nat instanceID := ucast frame]\<rparr>))"

definition CompareGameStateHashes :: "int \<Rightarrow> u32 \<Rightarrow> StateSyncRuntime \<Rightarrow> GameStateHashMismatch option" where
  "CompareGameStateHashes instanceID frame s =
     (case (fmlookup (SS_LocalGameStateHashes s) (GameStateKey instanceID frame),
            FindGameStateHashes instanceID frame (SS_RemoteState s)) of
        (Some lhs, Some remote) \<Rightarrow>
          if SH_Basic lhs = SH_Basic remote \<and> SH_PlayerGlobal lhs = SH_PlayerGlobal remote
             \<and> SH_WifiCandidate lhs = SH_WifiCandidate remote \<and> SH_RenderCandidate lhs = SH_RenderCandidate remote
          then None
          else Some \<lparr>HM_InstanceID = instanceID, HM_Frame = frame, HM_Local = lhs, HM_Remote = remote\<rparr>
      | _ \<Rightarrow> None)"

definition RecordLocalGameStateHashes ::
  "int \<Rightarrow> u32 \<Rightarrow> GameStateSyncHashes \<Rightarrow> StateSyncRuntime \<Rightarrow> GameStateHashMismatch option \<times> StateSyncRuntime" where
  "RecordLocalGameStateHashes instanceID frame hashes s =
     (let s1 = s\<lparr>SS_LocalGameStateHashes := fmupd (GameStateKey instanceID frame) hashes (SS_LocalGameStateHashes s)\<rparr>
      in (CompareGameStateHashes instanceID frame s1, s1))"

definition RecordRemoteGameState ::
  "DecodedGameState \<Rightarrow> StateSyncRuntime \<Rightarrow> GameStateHashMismatch option \<times> StateSyncRuntime" where
  "RecordRemoteGameState state s =
     (let s1 = s\<lparr>SS_RemoteState := StoreGameState state (SS_RemoteState s)\<rparr>
      in (CompareGameStateHashes (int_of_u32 (DG_Instance state)) (DG_Frame state) s1, s1))"

definition SyncResetForRestart :: "int \<Rightarrow> StateSyncRuntime \<Rightarrow> StateSyncRuntime" where
  "SyncResetForRestart instanceID s =
     (if \<not> sync_instance instanceID then s
      else s\<lparr>SS_LocalGameStateHashes := fmempty, SS_RemoteState := RemoteResetForRestart (SS_RemoteState s),
             SS_LastSentGameStateFrame := (SS_LastSentGameStateFrame s)[nat instanceID := 0],
             SS_PlayerActorBaseCache := (SS_PlayerActorBaseCache s)[nat instanceID := (0, 0)],
             SS_PlayerActorGUIDCache := (SS_PlayerActorGUIDCache s)[nat instanceID := (0, 0)]\<rparr>)"

section \<open>The exchange\<close>

definition StateSyncConfig_default :: StateSyncConfig where
  "StateSyncConfig_default = \<lparr>SY_GameEnabled = False, SY_GameExtended = False, SY_GameApplyEnabled = False,
     SY_GameApplyCriticalGlobals = True, SY_GameApplyStarObjects = True, SY_GameApplyStageObjects = True,
     SY_GameApplyPlayerActors = True, SY_GameApplyRemotePlayerOnly = False, SY_GameInterval = 60,
     SY_WorldTraceMovingHazards = False, SY_WorldTraceObjectLifecycles = False, SY_WorldTraceActorInternals = False,
     SY_WorldTraceEffects = False, SY_WorldTraceObjectLifecyclesInterval = 60,
     SY_WorldTraceObjectLifecyclesStartFrame = 0, SY_WorldTraceObjectLifecyclesEndFrame = 0\<rparr>"

record SyncContext =
  SX_StateSync :: StateSyncConfig
  SX_Connection :: ConnectionConfig
  SX_Runtime :: StateSyncRuntime
  SX_Transport :: TransportState
  SX_StageSceneSettings :: u32
  SX_Enabled :: bool
  SX_Client :: bool
  SX_SessionReady :: bool
  SX_Generation :: u32

definition kGamePlayerGlobalBlockAddr :: u32 where "kGamePlayerGlobalBlockAddr = 0x0208B324"
definition kGameCandidateWifiBlockAddr :: u32 where "kGameCandidateWifiBlockAddr = 0x0208B7A0"
definition kGameCandidateRenderBlockAddr :: u32 where "kGameCandidateRenderBlockAddr = 0x023F8300"

definition HandleReceivedPacketLocked :: "payload \<Rightarrow> SyncContext \<Rightarrow> GameStateHashMismatch option \<times> SyncContext" where
  "HandleReceivedPacketLocked data x =
     (case DecodeWireGameState (game_state_of_bytes data) of
        None \<Rightarrow> (None, x)
      | Some decoded \<Rightarrow>
          if \<not> SX_SessionReady x \<or> DG_Generation decoded \<noteq> SX_Generation x then (None, x)
          else
            let (mismatch, s) = RecordRemoteGameState decoded (SX_Runtime x)
            in (mismatch, x\<lparr>SX_Runtime := s\<rparr>))"

definition sync_hashes :: "StateSyncConfig \<Rightarrow> GameStateSample \<Rightarrow> 'm NDS_scheme \<Rightarrow> GameStateSyncHashes" where
  "sync_hashes config sample n =
     (let hashes = GameStateSyncHashes_default\<lparr>SH_Basic := GS_Hash sample\<rparr>
      in if SY_GameExtended config
         then hashes\<lparr>SH_PlayerGlobal := HashMainRAMRange kGamePlayerGlobalBlockAddr 0xC0 n,
                SH_WifiCandidate := HashMainRAMRange kGameCandidateWifiBlockAddr 0x2200 n,
                SH_RenderCandidate := HashMainRAMRange kGameCandidateRenderBlockAddr 0x240 n\<rparr>
         else hashes)"

definition sync_due :: "int \<Rightarrow> u32 \<Rightarrow> SyncContext \<Rightarrow> bool" where
  "sync_due instanceID frame x \<longleftrightarrow>
     SX_Enabled x \<and> SY_GameEnabled (SX_StateSync x) \<and> SX_SessionReady x \<and> sync_instance instanceID
     \<and> CC_SharedLogicalEpoch (SX_Connection x) \<le> frame
     \<and> frame mod u32_of_int (SY_GameInterval (SX_StateSync x)) = 0"

text \<open>The result is the reported mismatch, the packet sent and the context.\<close>

definition Sync :: "('m NDS_scheme \<Rightarrow> u32 \<Rightarrow> GameStateSample) \<Rightarrow> int \<Rightarrow> u32 \<Rightarrow> 'm NDS_scheme option \<Rightarrow> SyncContext
    \<Rightarrow> GameStateHashMismatch option \<times> payload option \<times> SyncContext" where
  "Sync readSample instanceID frame nds x =
     (case nds of
        None \<Rightarrow> (None, None, x)
      | Some n \<Rightarrow>
          if \<not> sync_due instanceID frame x then (None, None, x)
          else
            let sample = readSample n (SX_StageSceneSettings x);
                hashes = sync_hashes (SX_StateSync x) sample n;
                (begun, s0) = BeginGameStateSync instanceID frame (SX_Runtime x)
            in if \<not> begun then (None, None, x)
               else
                 let (mismatch, s1) = RecordLocalGameStateHashes instanceID frame hashes s0;
                     x1 = x\<lparr>SX_Runtime := s1\<rparr>
                 in if \<not> IsConnected (SX_Transport x) then (mismatch, None, x1)
                    else (mismatch,
                      Some (game_state_bytes (EncodeWireGameState frame (u32_of_int instanceID) (SX_Generation x) sample hashes)),
                      x1))"

section \<open>Keys\<close>

lemma unat_GameStateKey: "unat (GameStateKey i f) = 2 ^ 32 * unat (u32_of_int i) + unat f"
proof -
  have disj: "push_bit 32 (ucast (u32_of_int i) :: u64) AND ucast f = 0"
    by (rule bit_word_eqI) (auto simp: bit_simps dest: bit_imp_le_length)
  have hi: "unat (push_bit 32 (ucast (u32_of_int i) :: u64)) = 2 ^ 32 * unat (u32_of_int i)"
    using unat_u32_less [of "u32_of_int i"] by (simp add: push_bit_eq_mult unat_word_ariths unsigned_ucast_eq take_bit_nat_eq_self)
  have lo: "unat (ucast f :: u64) = unat f"
    using unat_u32_less [of f] by (simp add: unsigned_ucast_eq take_bit_nat_eq_self)
  have "GameStateKey i f = push_bit 32 (ucast (u32_of_int i)) + ucast f"
    unfolding GameStateKey_def by (rule disjunctive_add_eq_or [OF disj, symmetric])
  then show ?thesis
    using unat_u32_less [of "u32_of_int i"] unat_u32_less [of f] hi lo by (simp add: unat_word_ariths)
qed

lemma high_low:
  fixes m :: nat
  assumes "x < m"
  shows "(m * h + x) div m = h" "(m * h + x) mod m = x"
  using assms by simp_all

lemma GameStateKey_eq: "GameStateKey i f = GameStateKey j g \<longleftrightarrow> u32_of_int i = u32_of_int j \<and> f = g"
proof
  assume "GameStateKey i f = GameStateKey j g"
  then have "2 ^ 32 * unat (u32_of_int i) + unat f = 2 ^ 32 * unat (u32_of_int j) + unat g"
    using unat_GameStateKey [of i f] unat_GameStateKey [of j g] by simp
  then have "unat (u32_of_int i) = unat (u32_of_int j) \<and> unat f = unat g"
    using high_low [OF unat_u32_less [of f]] high_low [OF unat_u32_less [of g]] by metis
  then show "u32_of_int i = u32_of_int j \<and> f = g"
    by (simp add: word_unat_eq_iff)
qed (simp add: GameStateKey_def)

lemma GameStateKey_le: "GameStateKey i f \<le> GameStateKey i g \<longleftrightarrow> f \<le> g"
  by (simp add: word_le_nat_alt unat_GameStateKey)

lemma GameStateKey_between:
  assumes "GameStateKey i 0 \<le> key" "key \<le> GameStateKey i f"
  shows "key = GameStateKey i (ucast key)" "(ucast key :: u32) \<le> f"
proof -
  let ?h = "2 ^ 32 * unat (u32_of_int i)"
  have b: "?h \<le> unat key" "unat key \<le> ?h + unat f"
    using assms by (simp_all add: word_le_nat_alt unat_GameStateKey)
  have "unat (ucast key :: u32) = unat key mod 2 ^ 32"
    by (simp add: unsigned_ucast_eq take_bit_nat_def)
  also have "\<dots> = unat key - ?h"
    using b unat_u32_less [of f] high_low(2) [of "unat key - ?h" "2 ^ 32" "unat (u32_of_int i)"] by simp
  finally have u: "unat (ucast key :: u32) = unat key - ?h" .
  then show "key = GameStateKey i (ucast key)"
    using b by (simp add: word_unat_eq_iff unat_GameStateKey)
  show "(ucast key :: u32) \<le> f"
    using u b by (simp add: word_le_nat_alt)
qed

lemma ucast_GameStateKey: "(ucast (GameStateKey i f) :: u32) = f"
  using GameStateKey_between(1) [of i "GameStateKey i f" f] GameStateKey_le [of i 0 f] by (simp add: GameStateKey_eq)

lemma instance_of_wire: "sync_instance i \<Longrightarrow> int_of_u32 (u32_of_int i) = i"
  by (simp add: sync_instance_def int_of_u32_def u32_of_int_def signed_of_int signed_take_bit_int_eq_self)

section \<open>The latest state\<close>

lemma FindGameState_dom: "FindGameState i h r = None \<longleftrightarrow> GameStateKey i h \<notin> fmdom' (RM_GameStates r)"
  unfolding FindGameState_def using fm_lookup_ne_None [of "RM_GameStates r" "GameStateKey i h"] by blast

lemma FindLatest_None:
  "FindLatestGameState i f r = None \<longleftrightarrow> (\<forall>h. h \<le> f \<longrightarrow> FindGameState i h r = None)"
proof (cases "fm_last_upto (GameStateKey i f) (RM_GameStates r)")
  case None
  then have "h \<le> f \<Longrightarrow> GameStateKey i h \<notin> fmdom' (RM_GameStates r)" for h
    using GameStateKey_le [of i h f] by (auto simp: fm_last_upto_None)
  with None show ?thesis
    by (simp add: FindLatestGameState_def FindGameState_dom)
next
  case (Some k)
  note k = Some [unfolded fm_last_upto_Some]
  then obtain state where state: "fmlookup (RM_GameStates r) k = Some state"
    using fm_lookup_ne_None by fastforce
  show ?thesis
  proof (cases "k < GameStateKey i 0")
    case True
    have "GameStateKey i h \<notin> fmdom' (RM_GameStates r)" if "h \<le> f" for h
    proof
      assume "GameStateKey i h \<in> fmdom' (RM_GameStates r)"
      then have "GameStateKey i h \<le> k"
        using k that by (simp add: GameStateKey_le)
      with True have "GameStateKey i h < GameStateKey i 0"
        by simp
      then show False
        using GameStateKey_le [of i 0 h] by simp
    qed
    with True Some show ?thesis
      by (simp add: FindLatestGameState_def FindGameState_dom)
  next
    case False
    then have "k = GameStateKey i (ucast k)" "(ucast k :: u32) \<le> f"
      using k GameStateKey_between [of i k f] by simp_all
    then have "(ucast k :: u32) \<le> f \<and> FindGameState i (ucast k) r \<noteq> None"
      using k by (metis FindGameState_dom)
    then show ?thesis
      using False Some state by (auto simp: FindLatestGameState_def)
  qed
qed

lemma FindLatest_Some:
  assumes "FindLatestGameState i f r = Some (state, g)"
  shows "FindGameState i g r = Some state" "g \<le> f" "\<forall>h. g < h \<and> h \<le> f \<longrightarrow> FindGameState i h r = None"
proof -
  obtain k where up: "fm_last_upto (GameStateKey i f) (RM_GameStates r) = Some k" and low: "GameStateKey i 0 \<le> k"
    and res: "fmlookup (RM_GameStates r) k = Some state" "g = ucast k"
    using assms by (auto simp: FindLatestGameState_def not_less split: option.splits if_splits)
  note k = up [unfolded fm_last_upto_Some]
  have key: "k = GameStateKey i g" "g \<le> f"
    using GameStateKey_between [of i k f] low k res(2) by simp_all
  show "FindGameState i g r = Some state" "g \<le> f"
    using key res(1) by (simp_all add: FindGameState_def)
  show "\<forall>h. g < h \<and> h \<le> f \<longrightarrow> FindGameState i h r = None"
  proof (intro allI impI)
    fix h assume "g < h \<and> h \<le> f"
    then have "GameStateKey i h \<le> GameStateKey i f" "\<not> GameStateKey i h \<le> k"
      using key by (simp_all add: GameStateKey_le not_le)
    then show "FindGameState i h r = None"
      using k by (auto simp: FindGameState_dom)
  qed
qed

text \<open>C20: The remote state applied at a frame is the newest one received for that instance and not
  later than the frame: the search returns a stored sample with its frame, no stored sample of the
  instance lies between that frame and the asked one, and it finds nothing only when none is stored.\<close>

theorem latest_state_is_newest:
  "(FindLatestGameState i f r = Some (state, g) \<longleftrightarrow>
      FindGameState i g r = Some state \<and> g \<le> f \<and> (\<forall>h. g < h \<and> h \<le> f \<longrightarrow> FindGameState i h r = None))
   \<and> (FindLatestGameState i f r = None \<longleftrightarrow> (\<forall>h. h \<le> f \<longrightarrow> FindGameState i h r = None))"
proof (intro conjI iffI FindLatest_None)
  assume found: "FindGameState i g r = Some state \<and> g \<le> f \<and> (\<forall>h. g < h \<and> h \<le> f \<longrightarrow> FindGameState i h r = None)"
  then have "FindLatestGameState i f r \<noteq> None"
    using FindLatest_None [of i f r] by (metis option.simps(3))
  then obtain state' g' where latest: "FindLatestGameState i f r = Some (state', g')"
    by auto
  note l = FindLatest_Some [OF latest]
  have "g' = g"
    using found l by (metis linorder_neqE option.simps(3))
  then show "FindLatestGameState i f r = Some (state, g)"
    using latest l(1) found by simp
qed (use FindLatest_Some [of i f r state g] FindLatest_None [of i f r] in \<open>auto 0 3\<close>)

theorem latest_state_is_newest_witness:
  "FindLatestGameState 0 90 (StoreGameState \<lparr>DG_Generation = 0, DG_Frame = 60, DG_Instance = 0,
     DG_Sample = GameStateSample_default, DG_Hashes = GameStateSyncHashes_default\<rparr> RemoteStateStore_init)
   = Some (GameStateSample_default, 60)"
proof -
  have "int_of_u32 0 = 0"
    by (simp add: int_of_u32_def)
  then show ?thesis
    by (subst latest_state_is_newest [THEN conjunct1])
      (auto simp: StoreGameState_def FindGameState_def RemoteStateStore_init_def GameStateKey_eq Let_def)
qed

section \<open>Divergence is reported once\<close>

datatype sync_call = LocalHashes int u32 GameStateSyncHashes | RemoteState DecodedGameState

fun call_key :: "sync_call \<Rightarrow> u64" where
  "call_key (LocalHashes i f h) = GameStateKey i f"
| "call_key (RemoteState d) = GameStateKey (int_of_u32 (DG_Instance d)) (DG_Frame d)"

fun run_sync_call :: "StateSyncRuntime \<Rightarrow> sync_call \<Rightarrow> GameStateHashMismatch option \<times> StateSyncRuntime" where
  "run_sync_call s (LocalHashes i f h) = RecordLocalGameStateHashes i f h s"
| "run_sync_call s (RemoteState d) = RecordRemoteGameState d s"

fun sync_reports :: "StateSyncRuntime \<Rightarrow> sync_call list \<Rightarrow> GameStateHashMismatch list" where
  "sync_reports s [] = []"
| "sync_reports s (c # cs) =
     (let (report, s') = run_sync_call s c in (case report of None \<Rightarrow> [] | Some m \<Rightarrow> [m]) @ sync_reports s' cs)"


definition report_key :: "GameStateHashMismatch \<Rightarrow> u64" where
  "report_key m = GameStateKey (HM_InstanceID m) (HM_Frame m)"

text \<open>What the runtime holds for one key, and the verdict on it.\<close>

definition held :: "StateSyncRuntime \<Rightarrow> u64 \<Rightarrow> GameStateSyncHashes option \<times> GameStateSyncHashes option" where
  "held s k = (fmlookup (SS_LocalGameStateHashes s) k, fmlookup (RM_GameStateHashes (SS_RemoteState s)) k)"

lemma Compare_held:
  "CompareGameStateHashes i f s = (case held s (GameStateKey i f) of
     (Some a, Some b) \<Rightarrow> if a = b then None else Some \<lparr>HM_InstanceID = i, HM_Frame = f, HM_Local = a, HM_Remote = b\<rparr>
   | _ \<Rightarrow> None)"
  by (auto simp: CompareGameStateHashes_def FindGameStateHashes_def held_def split: option.splits)

lemma held_call:
  "held (snd (run_sync_call s (LocalHashes i f a))) k = (if k = GameStateKey i f then (Some a, snd (held s k)) else held s k)"
  "held (snd (run_sync_call s (RemoteState d))) k =
     (if k = call_key (RemoteState d) then (fst (held s k), Some (DG_Hashes d)) else held s k)"
  by (simp_all add: held_def RecordLocalGameStateHashes_def RecordRemoteGameState_def StoreGameState_def Let_def)

lemma report_call:
  "fst (run_sync_call s (LocalHashes i f a)) = CompareGameStateHashes i f (snd (run_sync_call s (LocalHashes i f a)))"
  "fst (run_sync_call s (RemoteState d))
     = CompareGameStateHashes (int_of_u32 (DG_Instance d)) (DG_Frame d) (snd (run_sync_call s (RemoteState d)))"
  by (simp_all add: RecordLocalGameStateHashes_def RecordRemoteGameState_def Let_def)

lemma report_of_call: "fst (run_sync_call s c) = Some m \<Longrightarrow> report_key m = call_key c"
  by (cases c) (auto simp: report_call Compare_held report_key_def simp del: run_sync_call.simps split: option.splits if_splits prod.splits)

lemma held_other: "call_key c \<noteq> k \<Longrightarrow> held (snd (run_sync_call s c)) k = held s k"
  by (cases c) (auto simp: held_call simp del: run_sync_call.simps)

lemma held_same:
  "held s (call_key c) = held t (call_key c) \<Longrightarrow>
    fst (run_sync_call s c) = fst (run_sync_call t c) \<and> held (snd (run_sync_call s c)) (call_key c) = held (snd (run_sync_call t c)) (call_key c)"
  by (cases c) (simp_all add: held_call report_call Compare_held del: run_sync_call.simps)

lemma sync_reports_Cons:
  "sync_reports s (c # cs) = (case fst (run_sync_call s c) of None \<Rightarrow> [] | Some m \<Rightarrow> [m]) @ sync_reports (snd (run_sync_call s c)) cs"
  by (simp add: case_prod_beta Let_def)

text \<open>The reports on one key depend only on the calls with that key.\<close>

lemma sync_reports_key:
  "held s k = held t k \<Longrightarrow> filter (\<lambda>m. report_key m = k) (sync_reports s cs)
     = filter (\<lambda>m. report_key m = k) (sync_reports t (filter (\<lambda>c. call_key c = k) cs))"
proof (induction cs arbitrary: s t)
  case (Cons c cs)
  show ?case
  proof (cases "call_key c = k")
    case True
    then show ?thesis
      using Cons held_same [of s c t] by (simp add: sync_reports_Cons del: sync_reports.simps(2) split: option.split)
  next
    case False
    have "filter (\<lambda>m. report_key m = k) (case fst (run_sync_call s c) of None \<Rightarrow> [] | Some m \<Rightarrow> [m]) = []"
      using report_of_call [of s c] False by (auto split: option.split)
    then show ?thesis
      using False Cons.IH [of "snd (run_sync_call s c)" t] Cons.prems held_other [OF False, of s]
      by (simp add: sync_reports_Cons del: sync_reports.simps(2))
  qed
qed simp

lemma held_init: "held StateSyncRuntime_init k = (None, None)"
  by (simp add: held_def StateSyncRuntime_init_def RemoteStateStore_init_def)

text \<open>C19: A divergence of the peers is reported exactly once, in whichever order the two states arrive
  and whatever other frames are recorded in between: when one local and one remote state of the same
  instance and frame are recorded, the reports for that frame are none if the hashes agree and
  otherwise a single one holding both sides.\<close>

theorem divergence_reported_once:
  assumes "filter (\<lambda>c. call_key c = GameStateKey i f) cs = [LocalHashes i f a, RemoteState d]
      \<or> filter (\<lambda>c. call_key c = GameStateKey i f) cs = [RemoteState d, LocalHashes i f a]"
    and "sync_instance i" "DG_Instance d = u32_of_int i" "DG_Frame d = f"
  shows "filter (\<lambda>m. report_key m = GameStateKey i f) (sync_reports StateSyncRuntime_init cs)
    = (if a = DG_Hashes d then [] else [\<lparr>HM_InstanceID = i, HM_Frame = f, HM_Local = a, HM_Remote = DG_Hashes d\<rparr>])"
proof -
  let ?k = "GameStateKey i f"
  have key: "call_key (RemoteState d) = ?k"
    using assms(2-4) by (simp add: instance_of_wire)
  have two: "filter (\<lambda>m. report_key m = ?k) (sync_reports StateSyncRuntime_init ds)
      = (if a = DG_Hashes d then [] else [\<lparr>HM_InstanceID = i, HM_Frame = f, HM_Local = a, HM_Remote = DG_Hashes d\<rparr>])"
    if "ds = [LocalHashes i f a, RemoteState d] \<or> ds = [RemoteState d, LocalHashes i f a]" for ds
    using that assms(2-4) key
    by (auto simp: sync_reports_Cons report_call Compare_held held_call held_init instance_of_wire report_key_def
        simp del: sync_reports.simps(2) run_sync_call.simps)
  show ?thesis
    unfolding sync_reports_key [OF refl, of ?k StateSyncRuntime_init cs] using assms(1) by (rule two)
qed

theorem divergence_reported_once_witness:
  "filter (\<lambda>m. report_key m = GameStateKey 0 60) (sync_reports StateSyncRuntime_init
     [LocalHashes 1 60 GameStateSyncHashes_default,
      RemoteState \<lparr>DG_Generation = 0, DG_Frame = 60, DG_Instance = u32_of_int 0, DG_Sample = GameStateSample_default,
        DG_Hashes = GameStateSyncHashes_default\<lparr>SH_Basic := 7\<rparr>\<rparr>,
      LocalHashes 0 60 GameStateSyncHashes_default])
   = [\<lparr>HM_InstanceID = 0, HM_Frame = 60, HM_Local = GameStateSyncHashes_default,
       HM_Remote = GameStateSyncHashes_default\<lparr>SH_Basic := 7\<rparr>\<rparr>]"
proof -
  have "int_of_u32 0 = 0" "u32_of_int 0 = 0" "u32_of_int 1 = 1"
    by (simp_all add: int_of_u32_def u32_of_int_def)
  then show ?thesis
    by (subst divergence_reported_once [where a = GameStateSyncHashes_default
          and d = "\<lparr>DG_Generation = 0, DG_Frame = 60, DG_Instance = u32_of_int 0, DG_Sample = GameStateSample_default,
            DG_Hashes = GameStateSyncHashes_default\<lparr>SH_Basic := 7\<rparr>\<rparr>"])
      (simp_all add: GameStateKey_eq sync_instance_def GameStateSyncHashes_default_def)
qed

section \<open>The two ends together\<close>

definition can_sync :: "int \<Rightarrow> u32 \<Rightarrow> SyncContext \<Rightarrow> bool" where
  "can_sync i f x \<longleftrightarrow> sync_due i f x \<and> fst (BeginGameStateSync i f (SX_Runtime x)) \<and> IsConnected (SX_Transport x)"

definition taken_hashes :: "('m NDS_scheme \<Rightarrow> u32 \<Rightarrow> GameStateSample) \<Rightarrow> 'm NDS_scheme \<Rightarrow> SyncContext \<Rightarrow> GameStateSyncHashes" where
  "taken_hashes readSample n x = sync_hashes (SX_StateSync x) (readSample n (SX_StageSceneSettings x)) n"

lemma Sync_sends:
  assumes "can_sync i f x"
  shows "fst (snd (Sync readSample i f (Some n) x)) = Some (game_state_bytes (EncodeWireGameState f (u32_of_int i)
      (SX_Generation x) (readSample n (SX_StageSceneSettings x)) (taken_hashes readSample n x)))"
  using assms by (auto simp: Sync_def can_sync_def taken_hashes_def Let_def case_prod_beta)

lemma Sync_records:
  assumes "can_sync i f x"
  shows "fst (held (SX_Runtime (snd (snd (Sync readSample i f (Some n) x)))) (GameStateKey i f)) = Some (taken_hashes readSample n x)"
    and "SX_SessionReady (snd (snd (Sync readSample i f (Some n) x)))"
    and "SX_Generation (snd (snd (Sync readSample i f (Some n) x))) = SX_Generation x"
  using assms
  by (auto simp: Sync_def can_sync_def taken_hashes_def Let_def case_prod_beta RecordLocalGameStateHashes_def held_def sync_due_def)

text \<open>C18: Two peers that stop agreeing find out. When both peers take their game state at the same
  frame of the same generation, the first one sends a packet, and the second one, on receiving it,
  reports a mismatch for that frame exactly when the hashes the two peers took differ; the report
  holds its own hashes and those of the sender.\<close>

theorem peers_detect_divergence:
  assumes "can_sync i f x" "can_sync i f y" "SX_Generation y = SX_Generation x"
  shows "\<exists>data. fst (snd (Sync readSample i f (Some n) x)) = Some data
    \<and> fst (HandleReceivedPacketLocked data (snd (snd (Sync readSample' i f (Some m) y)))) =
      (if taken_hashes readSample' m y = taken_hashes readSample n x then None
       else Some \<lparr>HM_InstanceID = i, HM_Frame = f, HM_Local = taken_hashes readSample' m y,
                   HM_Remote = taken_hashes readSample n x\<rparr>)"
proof -
  let ?y = "snd (snd (Sync readSample' i f (Some m) y))" and ?hx = "taken_hashes readSample n x"
    and ?hy = "taken_hashes readSample' m y"
  let ?d = "\<lparr>DG_Generation = SX_Generation x, DG_Frame = f, DG_Instance = u32_of_int i,
       DG_Sample = \<lparr>GS_Word = copy_words GameStateWireFields (GS_Word (readSample n (SX_StageSceneSettings x))),
         GS_Hash = SH_Basic ?hx\<rparr>, DG_Hashes = ?hx\<rparr>"
  have i: "int_of_u32 (u32_of_int i) = i"
    using assms(1) by (intro instance_of_wire) (simp add: can_sync_def sync_due_def)
  obtain data where data: "fst (snd (Sync readSample i f (Some n) x)) = Some data"
      "DecodeWireGameState (game_state_of_bytes data) = Some ?d"
    using Sync_sends [OF assms(1), of readSample n] decode_encode_game_state by blast
  have "fst (HandleReceivedPacketLocked data ?y) = fst (run_sync_call (SX_Runtime ?y) (RemoteState ?d))"
    using Sync_records(2,3) [OF assms(2), of readSample' m] assms(3) data(2)
    by (simp add: HandleReceivedPacketLocked_def Let_def case_prod_beta)
  also have "\<dots> = (if ?hy = ?hx then None else Some \<lparr>HM_InstanceID = i, HM_Frame = f, HM_Local = ?hy, HM_Remote = ?hx\<rparr>)"
    using Sync_records(1) [OF assms(2), of readSample' m] i
    by (simp add: report_call Compare_held held_call del: run_sync_call.simps split: prod.split)
  finally show ?thesis
    using data(1) by blast
qed

definition sample_sync_context :: SyncContext where
  "sample_sync_context = \<lparr>SX_StateSync = StateSyncConfig_default\<lparr>SY_GameEnabled := True\<rparr>,
     SX_Connection = ConnectionConfig_default, SX_Runtime = StateSyncRuntime_init,
     SX_Transport = TransportState_init\<lparr>TP_Peer := Some 1\<rparr>, SX_StageSceneSettings = 0, SX_Enabled = True,
     SX_Client = False, SX_SessionReady = True, SX_Generation = 0\<rparr>"

definition sample_reader :: "u64 \<Rightarrow> NDS \<Rightarrow> u32 \<Rightarrow> GameStateSample" where
  "sample_reader h n settings = GameStateSample_default\<lparr>GS_Hash := h\<rparr>"

theorem peers_detect_divergence_witness:
  "\<exists>data. fst (snd (Sync (sample_reader 1) 0 120 (Some sample_nds) sample_sync_context)) = Some data
    \<and> fst (HandleReceivedPacketLocked data (snd (snd (Sync (sample_reader 2) 0 120 (Some sample_nds) sample_sync_context))))
      = Some \<lparr>HM_InstanceID = 0, HM_Frame = 120, HM_Local = GameStateSyncHashes_default\<lparr>SH_Basic := 2\<rparr>,
          HM_Remote = GameStateSyncHashes_default\<lparr>SH_Basic := 1\<rparr>\<rparr>"
proof -
  have can: "can_sync 0 120 sample_sync_context"
    by (simp add: can_sync_def sync_due_def sample_sync_context_def StateSyncConfig_default_def u32_of_int_def
        sync_instance_def ConnectionConfig_default_def BeginGameStateSync_def StateSyncRuntime_init_def IsConnected_def)
  have hashes: "taken_hashes (sample_reader h) n sample_sync_context = GameStateSyncHashes_default\<lparr>SH_Basic := h\<rparr>" for h n
    by (simp add: taken_hashes_def sync_hashes_def sample_reader_def sample_sync_context_def StateSyncConfig_default_def)
  show ?thesis
    using peers_detect_divergence [OF can can refl, of "sample_reader 1" sample_nds "sample_reader 2" sample_nds]
    unfolding hashes by (simp add: GameStateSyncHashes_default_def)
qed

end
