(* ===== verification/Rollback_Preimage.thy ===== *)
theory Rollback_Preimage
  imports Rollback_Runtime
begin

text \<open>
  The preimage backends of the rollback runtime. A checkpoint keeps the pages of main memory that
  changed since the previous one, as they were before; going back applies them from the newest to
  the oldest. Shown here: one captured preimage undoes one frame, and over any run of saves every
  frame inside the window gets its memory back.
\<close>

section \<open>Pages\<close>

lemma page_offset_mem:
  assumes "0 < page"
  shows "off \<in> set (page_offsets page len) \<longleftrightarrow> off mod page = 0 \<and> off < len" (is "?l \<longleftrightarrow> ?r")
proof
  assume ?l
  then obtain k where "k \<in> set [0..<(len + page - 1) div page]" and k: "off = k * page"
    unfolding page_offsets_def set_map by (rule imageE) blast
  then have k: "off = k * page" "k < (len + page - 1) div page"
    by simp_all
  then have "Suc k * page \<le> len + page - 1"
    using assms by (metis Suc_leI less_eq_div_iff_mult_less_eq)
  then have "off < len"
    using k(1) assms by simp
  with k(1) show ?r
    by simp
next
  assume r: ?r
  then obtain k where k: "off = k * page"
    by (metis mod_0_imp_dvd dvd_def mult.commute)
  with r assms have "Suc k * page \<le> len + page - 1"
    by simp
  then have "k < (len + page - 1) div page"
    using assms by (metis Suc_le_lessD less_eq_div_iff_mult_less_eq)
  with k show ?l
    by (auto simp: page_offsets_def)
qed

abbreviation page_bytes :: "nat \<Rightarrow> nat \<Rightarrow> nat \<Rightarrow> nat" where
  "page_bytes page len off \<equiv> min page (len - off)"

lemma page_bytes_fit: "off < len \<Longrightarrow> off + page_bytes page len off \<le> len"
  by linarith

abbreviation page_of :: "nat \<Rightarrow> nat \<Rightarrow> u8 list \<Rightarrow> nat \<Rightarrow> u8 list" where
  "page_of page len bs off \<equiv> copy_out off (page_bytes page len off) bs"

definition changed_pages :: "nat \<Rightarrow> nat \<Rightarrow> u8 list \<Rightarrow> u8 list \<Rightarrow> nat list \<Rightarrow> nat list" where
  "changed_pages page len ram base = filter (\<lambda>off. page_of page len ram off \<noteq> page_of page len base off)"

lemma capture_pages:
  "foldl (capture_page page len ram base) checkpoint offs = checkpoint\<lparr>
     SS_MainRAMPreimagePages := SS_MainRAMPreimagePages checkpoint
       @ map (\<lambda>off. of_nat (off div page)) (changed_pages page len ram base offs),
     SS_MainRAMPreimage := SS_MainRAMPreimage checkpoint
       @ concat (map (page_of page len base) (changed_pages page len ram base offs))\<rparr>"
  by (induction offs arbitrary: checkpoint) (auto simp: capture_page_def changed_pages_def Let_def)

lemma apply_pages_fold:
  assumes "0 < page" "len < 2 ^ 32" "length base = len" "\<forall>off \<in> set offs. off mod page = 0 \<and> off < len"
  shows "apply_pages page len (map (\<lambda>off. of_nat (off div page)) offs) (concat (map (page_of page len base) offs)) ram
    = (True, foldl (\<lambda>r off. copy_in off (page_of page len base off) r) ram offs)"
  using assms(4)
proof (induction offs arbitrary: ram)
  case (Cons off offs)
  have "page * (off div page) = off"
    using Cons.prems by auto
  then have "unat ((of_nat (off div page) :: u32) * of_nat page) = off"
    using Cons.prems assms(2) by (simp flip: of_nat_mult add: mult.commute unat_of_nat)
  moreover have "length (page_of page len base off) = page_bytes page len off"
    using assms(3) Cons.prems page_bytes_fit by (intro length_copy_out) auto
  ultimately show ?case
    using Cons by (simp add: Let_def) linarith
qed simp

lemma fold_copy_pages:
  assumes "length base = len" "length ram = len" "\<forall>off \<in> set offs. off < len"
  shows "length (foldl (\<lambda>r off. copy_in off (page_of page len base off) r) ram offs) = len
    \<and> (\<forall>i < len. foldl (\<lambda>r off. copy_in off (page_of page len base off) r) ram offs ! i
        = (if \<exists>off \<in> set offs. off \<le> i \<and> i < off + page then base ! i else ram ! i))"
  using assms(3,2)
proof (induction offs arbitrary: ram)
  case (Cons off offs)
  let ?ram = "copy_in off (page_of page len base off) ram"
  have page: "length (page_of page len base off) = page_bytes page len off"
    using assms(1) Cons.prems page_bytes_fit by (intro length_copy_out) auto
  have len: "length ?ram = len"
    using page Cons.prems by (subst length_copy_in) auto
  have nth: "?ram ! i = (if off \<le> i \<and> i < off + page then base ! i else ram ! i)" if "i < len" for i
  proof -
    have fit: "off + page_bytes page len off \<le> len"
      using Cons.prems page_bytes_fit by simp
    have "?ram ! i = (if off \<le> i \<and> i < off + page_bytes page len off
        then page_of page len base off ! (i - off) else ram ! i)"
      using nth_copy_in [of off "page_of page len base off" ram i] page fit Cons.prems that by simp
    moreover have "page_of page len base off ! (i - off) = base ! i"
      if "off \<le> i" "i < off + page_bytes page len off"
    proof -
      have "i - off < page_bytes page len off"
        using that by linarith
      from nth_copy_out [OF _ this, of off base] show ?thesis
        using fit assms(1) that by simp
    qed
    ultimately show ?thesis
      using that by auto
  qed
  show ?case
    using Cons.IH [OF _ len] Cons.prems nth len by auto
qed simp

lemma unchanged_page:
  assumes "length ram = len" "length base = len" "off < len" "page_of page len ram off = page_of page len base off"
    "off \<le> i" "i < off + page" "i < len"
  shows "ram ! i = base ! i"
proof -
  have i: "off + page_bytes page len off \<le> len" "i - off < page_bytes page len off"
    using assms page_bytes_fit by auto
  have "ram ! (off + (i - off)) = base ! (off + (i - off))"
    using nth_copy_out [of off "page_bytes page len off" ram "i - off"]
      nth_copy_out [of off "page_bytes page len off" base "i - off"] assms(1,2,4) i by metis
  with assms(5) show ?thesis
    by simp
qed

text \<open>Applying a captured preimage to the memory it was captured from gives the base memory back.\<close>

lemma preimage_round_trip:
  assumes page: "0 < page" and len: "len < 2 ^ 32" "length ram = len" "length base = len"
    and empty: "SS_MainRAMPreimagePages checkpoint = []" "SS_MainRAMPreimage checkpoint = []"
    and st: "st = foldl (capture_page page len ram base) checkpoint (page_offsets page len)"
  shows "apply_pages page len (SS_MainRAMPreimagePages st) (SS_MainRAMPreimage st) ram = (True, base)"
proof -
  let ?offs = "changed_pages page len ram base (page_offsets page len)"
  let ?r = "foldl (\<lambda>r off. copy_in off (page_of page len base off) r) ram ?offs"
  have offs: "\<forall>off \<in> set ?offs. off mod page = 0 \<and> off < len"
    using page by (auto simp: changed_pages_def page_offset_mem)
  have "?r ! i = base ! i" if i: "i < len" for i
  proof -
    let ?off = "i div page * page"
    have off: "?off \<in> set (page_offsets page len)" "?off \<le> i" "i < ?off + page" "?off < len"
      using page i dividend_less_div_times [OF page, of i] le_less_trans [OF div_times_less_eq_dividend i]
      by (simp_all add: page_offset_mem add.commute)
    have "ram ! i = base ! i" if "?off \<notin> set ?offs"
      using that off i len unchanged_page [of ram len base ?off page i] by (simp add: changed_pages_def)
    then have "(if \<exists>off \<in> set ?offs. off \<le> i \<and> i < off + page then base ! i else ram ! i) = base ! i"
      using off(2,3) by (meson)
    then show ?thesis
      using fold_copy_pages [OF len(3,2), of ?offs page] offs i by simp
  qed
  then have "?r = base"
    using fold_copy_pages [OF len(3,2), of ?offs page] offs len by (intro nth_equalityI) auto
  then show ?thesis
    using apply_pages_fold [OF page len(1,3) offs, of ram] by (simp add: st capture_pages empty)
qed

section \<open>The memory of every saved frame\<close>

text \<open>A run of saves with a preimage backend: \<open>L\<close> is the memory each stored checkpoint was saved
  from. Frames go up, memory keeps its size, and the inputs and statistics may change freely in
  between.\<close>

inductive saved_run :: "'m NDS_scheme Emulator \<Rightarrow> nat \<Rightarrow> RollbackContext \<Rightarrow> (u32 \<rightharpoonup> u8 list) \<Rightarrow> bool"
  for em :: "'m NDS_scheme Emulator" and len :: nat where
  start: "RX_Store x = Store_init \<Longrightarrow> saved_run em len x Map.empty"
| other: "saved_run em len x L \<Longrightarrow> saved_run em len (x\<lparr>RX_Inputs := t, RX_Statistics := st\<rparr>) L"
| save: "saved_run em len x L \<Longrightarrow> \<forall>f \<in> dom L. f < frame \<Longrightarrow> frame \<noteq> kNoFrame \<Longrightarrow> ND_MainRAM n = Some ram \<Longrightarrow>
    length ram = len \<Longrightarrow> ram_size n = len \<Longrightarrow>
    SaveCheckpointIfNeeded em clk instanceID frame (Some n) x = (nds, x') \<Longrightarrow>
    saved_run em len x' (if Copy frame (RX_Store x') = None then L else L(frame \<mapsto> ram))"

definition preimage_ok :: "nat \<Rightarrow> nat \<Rightarrow> (u32 \<rightharpoonup> u8 list) \<Rightarrow> u32 \<Rightarrow> StoredState \<Rightarrow> bool" where
  "preimage_ok page len L f st \<longleftrightarrow> (\<exists>ram. L f = Some ram
     \<and> (SS_MainRAMFramePreimage st \<longrightarrow> SS_BaseFrame st < f \<and> (\<exists>base. L (SS_BaseFrame st) = Some base
         \<and> apply_pages page len (SS_MainRAMPreimagePages st) (SS_MainRAMPreimage st) ram = (True, base))))"

definition window_of :: "RollbackContext \<Rightarrow> u32" where
  "window_of x = u32_of_int (RB_Window (RX_Config x))"

definition shadow_inv :: "nat \<Rightarrow> RollbackContext \<Rightarrow> (u32 \<rightharpoonup> u8 list) \<Rightarrow> bool" where
  "shadow_inv len x L \<longleftrightarrow>
     (let s = RX_Store x; sf = ST_FrameShadowFrame s in
      sf \<noteq> kNoFrame \<and> L sf = Some (ST_FrameShadowMainRAM s) \<and> ST_FrameShadowMainRAM s \<noteq> []
      \<and> fmlookup (ST_States s) sf \<noteq> None
      \<and> (\<forall>f ram. L f = Some ram \<longrightarrow> f \<le> sf \<and> length ram = len)
      \<and> (\<forall>f st. fmlookup (ST_States s) f = Some st \<longrightarrow> preimage_ok (page_size (RX_Config x)) len L f st)
      \<and> (\<forall>f \<in> dom L. keep_from sf (window_of x) \<le> f \<longrightarrow> (\<exists>sts. preimage_chain (ST_States s) f sf sts)))"

definition log_inv :: "nat \<Rightarrow> RollbackContext \<Rightarrow> (u32 \<rightharpoonup> u8 list) \<Rightarrow> bool" where
  "log_inv len x L \<longleftrightarrow> RX_Store x = Store_init \<and> L = Map.empty \<or> shadow_inv len x L"

lemma log_inv_cong:
  "RX_Config y = RX_Config x \<Longrightarrow> RX_Store y = RX_Store x \<Longrightarrow> log_inv len y L = log_inv len x L"
  by (simp add: log_inv_def shadow_inv_def window_of_def)

lemma keep_from_mono: "a \<le> b \<Longrightarrow> keep_from a w \<le> keep_from b w"
  unfolding keep_from_def by (auto simp: word_le_nat_alt word_less_nat_alt unat_sub)

lemma keep_from_le: "keep_from a w \<le> a"
  unfolding keep_from_def by (auto simp: word_le_nat_alt word_less_nat_alt unat_sub)

text \<open>The context after a save that went through.\<close>

definition after_save :: "u32 \<Rightarrow> StoredState \<Rightarrow> u8 list \<Rightarrow> RollbackContext \<Rightarrow> Store" where
  "after_save frame checkpoint ram x =
     Prune frame (window_of x) (UpdateFrameShadow frame (Some ram) (snd (Put frame checkpoint (RX_Store x))))"

lemma store_checkpoint_preimage:
  assumes "IsPreimageBackend (RX_Config x)" "ND_MainRAM n = Some ram" "length ram = ram_size n"
    "0 < RB_Window (RX_Config x)"
  shows "RX_Config (store_checkpoint em clk frame n x) = RX_Config x
    \<and> RX_Store (store_checkpoint em clk frame n x) =
      (let (prepared, base) = PrepareDeltaSaveLocked frame x in
       if SS_MainRAMDelta prepared \<and> length base \<noteq> ram_size n then RX_Store x
       else case CaptureFramePreimage (RX_Config x) prepared n base of
              None \<Rightarrow> RX_Store x
            | Some checkpoint \<Rightarrow>
                (case SaveCheckpointBuffer em (RX_Config x) kMainRAMModeSkip
                        (if SS_MainRAMDelta checkpoint then Some base else None) n of
                   None \<Rightarrow> RX_Store x
                 | Some buffer \<Rightarrow> after_save frame (checkpoint\<lparr>SS_Buffer := buffer\<rparr>) ram x))"
proof -
  have backend: "RB_Backend (RX_Config x) \<noteq> CoreDelta" "main_ram_mode (RX_Config x) c = kMainRAMModeSkip" for c
    using assms(1) by (auto simp: IsPreimageBackend_def main_ram_mode_def)
  show ?thesis
    by (cases "PrepareDeltaSaveLocked frame x")
      (simp add: store_checkpoint_def backend assms Let_def Put_def after_save_def window_of_def
        PruneHistoryLocked_def record_save_def RefreshFrameShadowLocked_def split: option.split)
qed

lemma PrepareDeltaSave_preimage:
  assumes "IsPreimageBackend (RX_Config x)"
  shows "PrepareDeltaSaveLocked frame x =
    (if HasUsableFrameShadow (RX_Store x)
     then (StoredState_default\<lparr>SS_BaseFrame := ST_FrameShadowFrame (RX_Store x), SS_MainRAMFramePreimage := True\<rparr>,
           ST_FrameShadowMainRAM (RX_Store x))
     else (StoredState_default, []))"
  using assms by (simp add: PrepareDeltaSaveLocked_def delta_mode_def PrepareSave_def Let_def)


lemma preimage_ok_extend:
  "preimage_ok page len L f st \<Longrightarrow> L frame = None \<Longrightarrow> preimage_ok page len (L(frame \<mapsto> ram)) f st"
  by (auto simp: preimage_ok_def)

lemma preimage_chain_extend:
  "preimage_chain M f cursor sts \<Longrightarrow> cursor < frame \<Longrightarrow> preimage_chain (fmupd frame st M) f cursor sts"
  by (induction rule: preimage_chain.induct) (auto intro!: preimage_chain.intros)

lemma captured_preimage_ok:
  assumes "0 < page_size config" "ram_size n = len" "ND_MainRAM n = Some ram" "length ram = len"
    "SS_MainRAMFramePreimage prepared" "SS_BaseFrame prepared < frame"
    "SS_MainRAMPreimagePages prepared = []" "SS_MainRAMPreimage prepared = []"
    "L (SS_BaseFrame prepared) = Some base" "L frame = None"
    "CaptureFramePreimage config prepared n base = Some checkpoint"
  shows "preimage_ok (page_size config) len (L(frame \<mapsto> ram)) frame (checkpoint\<lparr>SS_Buffer := buffer\<rparr>)
    \<and> SS_BaseFrame checkpoint = SS_BaseFrame prepared \<and> SS_MainRAMFramePreimage checkpoint"
proof -
  have len: "len < 2 ^ 32"
    using assms(2) unat_u32_less [of "ND_MainRAMMask n + 1"] by (simp add: ram_size_def)
  have c: "checkpoint = foldl (capture_page (page_size config) len ram base) prepared
      (page_offsets (page_size config) len)" and base: "length base = len"
    using assms by (auto simp: CaptureFramePreimage_def split: if_splits)
  have keep: "SS_BaseFrame checkpoint = SS_BaseFrame prepared" "SS_MainRAMFramePreimage checkpoint"
    using assms(5) by (simp_all add: c capture_pages)
  moreover have "SS_BaseFrame prepared \<noteq> frame"
    using assms(6) by simp
  ultimately show ?thesis
    using preimage_round_trip [OF assms(1) len assms(4) base assms(7,8) c] assms(6,9) by (simp add: preimage_ok_def)
qed

lemma after_save_lookups:
  fixes frame checkpoint ram x
  defines "s \<equiv> after_save frame checkpoint ram x"
  assumes "ram \<noteq> []"
  shows "ST_FrameShadowFrame s = frame" "ST_FrameShadowMainRAM s = ram"
    "fmlookup (ST_States s) frame = Some checkpoint"
    "fmlookup (ST_States s) f = Some st \<Longrightarrow> f = frame \<and> st = checkpoint \<or> f \<noteq> frame \<and> fmlookup (ST_States (RX_Store x)) f = Some st"
    "keep_from frame (window_of x) \<le> f \<Longrightarrow>
       preimage_chain (ST_States s) f c sts = preimage_chain (fmupd frame checkpoint (ST_States (RX_Store x))) f c sts"
proof -
  let ?s = "UpdateFrameShadow frame (Some ram) (snd (Put frame checkpoint (RX_Store x)))"
  have states: "ST_States ?s = fmupd frame checkpoint (ST_States (RX_Store x))"
    using assms(2) by (simp add: UpdateFrameShadow_def Put_def)
  show "ST_FrameShadowFrame s = frame" "ST_FrameShadowMainRAM s = ram"
    using assms(2) by (simp_all add: s_def after_save_def Prune_def Let_def UpdateFrameShadow_def)
  show "fmlookup (ST_States s) frame = Some checkpoint"
    using keep_from_le [of frame "window_of x"] by (simp add: s_def after_save_def fmlookup_Prune states leD)
  show "fmlookup (ST_States s) f = Some st \<Longrightarrow>
      f = frame \<and> st = checkpoint \<or> f \<noteq> frame \<and> fmlookup (ST_States (RX_Store x)) f = Some st"
    by (auto simp: s_def after_save_def fmlookup_Prune states split: if_splits)
  show "keep_from frame (window_of x) \<le> f \<Longrightarrow>
      preimage_chain (ST_States s) f c sts = preimage_chain (fmupd frame checkpoint (ST_States (RX_Store x))) f c sts"
    by (simp add: s_def after_save_def Prune_preimage_chain states)
qed

lemma after_save_inv:
  assumes inv: "log_inv len x L" and new: "\<forall>f \<in> dom L. f < frame" "frame \<noteq> kNoFrame"
    and ram: "length ram = len" "ram \<noteq> []"
    and ok: "preimage_ok (page_size (RX_Config x)) len (L(frame \<mapsto> ram)) frame checkpoint"
    and linked: "L \<noteq> Map.empty \<Longrightarrow> SS_MainRAMFramePreimage checkpoint \<and> SS_BaseFrame checkpoint = ST_FrameShadowFrame (RX_Store x)"
    and x': "RX_Config x' = RX_Config x" "RX_Store x' = after_save frame checkpoint ram x"
  shows "shadow_inv len x' (L(frame \<mapsto> ram))"
proof -
  let ?L = "L(frame \<mapsto> ram)" and ?M = "ST_States (RX_Store x)"
  note look = after_save_lookups [OF ram(2), where frame = frame and checkpoint = checkpoint and x = x]
  have fresh: "L frame = None"
    using new(1) by (metis domIff less_irrefl)
  have states: "preimage_ok (page_size (RX_Config x)) len ?L f st"
    if "fmlookup (ST_States (RX_Store x')) f = Some st" for f st
    using look(4) [OF that [unfolded x'(2)]] ok inv fresh
    by (auto simp: log_inv_def shadow_inv_def Let_def Store_init_def intro: preimage_ok_extend)
  have chain: "\<exists>sts. preimage_chain (ST_States (RX_Store x')) f frame sts"
    if f: "f \<in> dom ?L" "keep_from frame (window_of x) \<le> f" for f
  proof (cases "f = frame")
    case True
    then show ?thesis by (auto intro: preimage_chain.stop)
  next
    case False
    with f(1) have dom: "f \<in> dom L" and ne: "L \<noteq> Map.empty" by auto
    with inv have sh: "shadow_inv len x L" by (auto simp: log_inv_def)
    let ?sf = "ST_FrameShadowFrame (RX_Store x)"
    have sf: "?sf \<noteq> kNoFrame" "?sf < frame"
      using sh new(1) by (auto simp: shadow_inv_def Let_def)
    have "keep_from ?sf (window_of x) \<le> f"
      using keep_from_mono [of ?sf frame] sf(2) f(2) by (meson less_imp_le order_trans)
    with sh dom obtain sts where "preimage_chain ?M f ?sf sts"
      by (auto simp: shadow_inv_def Let_def)
    then have "preimage_chain (fmupd frame checkpoint ?M) f ?sf sts"
      using sf(2) by (rule preimage_chain_extend)
    then have "preimage_chain (fmupd frame checkpoint ?M) f frame (checkpoint # sts)"
      using linked [OF ne] sf dom new(1) by (intro preimage_chain.older) auto
    then show ?thesis
      using look(5) [OF f(2)] x'(2) by auto
  qed
  have bounds: "g \<le> frame \<and> length r = len" if "?L g = Some r" for g r
  proof (cases "g = frame")
    case False
    with that have g: "L g = Some r" by simp
    then have "g < frame" using new(1) by blast
    moreover have "length r = len"
      using inv g by (auto simp: log_inv_def shadow_inv_def Let_def)
    ultimately show ?thesis by simp
  qed (use that ram in simp)
  have shadow: "ST_FrameShadowFrame (RX_Store x') = frame" "ST_FrameShadowMainRAM (RX_Store x') = ram"
    "fmlookup (ST_States (RX_Store x')) frame \<noteq> None" "window_of x' = window_of x" "?L frame = Some ram"
    using look(1-3) x' by (simp_all add: window_of_def)
  show ?thesis
    unfolding shadow_inv_def Let_def shadow x'(1)
    using bounds states chain new(2) ram(2) shadow(3) by (intro conjI allI ballI impI) blast+
qed


lemma SaveCheckpointIfNeeded_preimage:
  assumes "IsPreimageBackend (RX_Config x)"
  shows "snd (SaveCheckpointIfNeeded em clk instanceID frame (Some n) x) = x
    \<or> 0 < RB_Window (RX_Config x)
      \<and> snd (SaveCheckpointIfNeeded em clk instanceID frame (Some n) x) = store_checkpoint em clk frame n x"
proof -
  have "RB_Backend (RX_Config x) \<noteq> RomLoop"
    using assms by (auto simp: IsPreimageBackend_def)
  then show ?thesis
    by (simp add: SaveCheckpointIfNeeded_def not_less [symmetric])
qed

lemma PruneHistoryLocked_config [simp]: "RX_Config (PruneHistoryLocked frame x) = RX_Config x"
  by (simp add: PruneHistoryLocked_def Let_def)

lemma record_save_config [simp]: "RX_Config (record_save b us x) = RX_Config x"
  by (simp add: record_save_def)

lemma RefreshFrameShadowLocked_config [simp]: "RX_Config (RefreshFrameShadowLocked frame n x) = RX_Config x"
  by (simp add: RefreshFrameShadowLocked_def)

lemma store_checkpoint_config [simp]: "RX_Config (store_checkpoint em clk frame n x) = RX_Config x"
  by (simp add: store_checkpoint_def Let_def case_prod_beta split: option.split)

lemma SaveCheckpointIfNeeded_config:
  "RX_Config (snd (SaveCheckpointIfNeeded em clk instanceID frame nds x)) = RX_Config x"
  by (cases nds) (simp_all add: SaveCheckpointIfNeeded_def Let_def)

lemma log_inv_absent:
  "log_inv len x L \<Longrightarrow> \<forall>f \<in> dom L. f < frame \<Longrightarrow> fmlookup (ST_States (RX_Store x)) frame = None"
  by (fastforce simp: log_inv_def shadow_inv_def Let_def Store_init_def preimage_ok_def)

lemma log_inv_save:
  assumes inv: "log_inv len x L" and config: "IsPreimageBackend (RX_Config x)" "0 < page_size (RX_Config x)"
    and new: "\<forall>f \<in> dom L. f < frame" "frame \<noteq> kNoFrame"
    and n: "ND_MainRAM n = Some ram" "length ram = len" "ram_size n = len" "0 < len"
    and win: "0 < RB_Window (RX_Config x)"
    and x': "x' = store_checkpoint em clk frame n x"
  shows "RX_Config x' = RX_Config x
    \<and> log_inv len x' (if Copy frame (RX_Store x') = None then L else L(frame \<mapsto> ram))"
proof -
  let ?prep = "PrepareDeltaSaveLocked frame x"
  have len: "length ram = ram_size n"
    using n by simp
  note stored = store_checkpoint_preimage [OF config(1) n(1) len win, of em clk frame]
  have absent: "fmlookup (ST_States (RX_Store x)) frame = None"
    using inv new(1) by (rule log_inv_absent)
  have prep: "\<not> SS_MainRAMDelta (fst ?prep)"
    by (simp add: PrepareDeltaSave_preimage [OF config(1)] StoredState_default_def)
  show ?thesis
  proof (cases "RX_Store x' = RX_Store x")
    case True
    with stored inv absent show ?thesis
      using log_inv_cong [of x' x] by (simp add: x' Copy_def)
  next
    case False
    with stored prep obtain checkpoint buffer where
      cap: "CaptureFramePreimage (RX_Config x) (fst ?prep) n (snd ?prep) = Some checkpoint"
      and st: "RX_Store x' = after_save frame (checkpoint\<lparr>SS_Buffer := buffer\<rparr>) ram x"
      by (auto simp: x' case_prod_beta Let_def split: option.splits if_splits)
    have ne: "ram \<noteq> []"
      using n(2,4) by auto
    then have saved: "Copy frame (RX_Store x') = Some (checkpoint\<lparr>SS_Buffer := buffer\<rparr>)"
      using after_save_lookups(3) [of ram frame] by (simp add: Copy_def st)
    have fresh: "L frame = None"
      using new(1) by (metis domIff less_irrefl)
    have "preimage_ok (page_size (RX_Config x)) len (L(frame \<mapsto> ram)) frame (checkpoint\<lparr>SS_Buffer := buffer\<rparr>)
      \<and> (L \<noteq> Map.empty \<longrightarrow> SS_MainRAMFramePreimage checkpoint \<and> SS_BaseFrame checkpoint = ST_FrameShadowFrame (RX_Store x))"
    proof (cases "L = Map.empty")
      case True
      with inv have "RX_Store x = Store_init"
        by (auto simp: log_inv_def shadow_inv_def Let_def)
      then have prepared: "fst ?prep = StoredState_default"
        by (simp add: PrepareDeltaSave_preimage [OF config(1)] HasUsableFrameShadow_def Store_init_def)
      have "\<not> SS_MainRAMFramePreimage checkpoint"
        using cap by (auto simp: prepared CaptureFramePreimage_def StoredState_default_def)
      with True show ?thesis
        by (simp add: preimage_ok_def)
    next
      case False
      with inv have sh: "shadow_inv len x L"
        by (auto simp: log_inv_def)
      then have use: "HasUsableFrameShadow (RX_Store x)"
        by (simp add: HasUsableFrameShadow_def shadow_inv_def Let_def)
      show ?thesis
        using captured_preimage_ok [of "RX_Config x" n len ram "fst ?prep" frame L "snd ?prep" checkpoint buffer]
          config(2) n cap fresh sh new(1) use
        by (auto simp: PrepareDeltaSave_preimage [OF config(1)] StoredState_default_def shadow_inv_def Let_def)
    qed
    then have "shadow_inv len x' (L(frame \<mapsto> ram))"
      using n stored by (intro after_save_inv [OF inv new n(2) _ _ _ _ st]) (auto simp: x')
    with saved stored show ?thesis
      by (simp add: log_inv_def x')
  qed
qed


lemma saved_run_inv:
  assumes "saved_run em len x L"
  shows "IsPreimageBackend (RX_Config x) \<Longrightarrow> 0 < page_size (RX_Config x) \<Longrightarrow> 0 < len \<Longrightarrow> log_inv len x L"
  using assms
proof (induction rule: saved_run.induct)
  case (start x)
  then show ?case by (simp add: log_inv_def)
next
  case (other x L t st)
  then show ?case
    by (subst log_inv_cong [where x = x]) simp_all
next
  case (save x L frame n ram clk instanceID nds x')
  have x': "x' = snd (SaveCheckpointIfNeeded em clk instanceID frame (Some n) x)"
    using save.hyps by simp
  show ?case
  proof (cases "x' = x")
    case True
    with save have inv: "log_inv len x L" by simp
    have "Copy frame (RX_Store x) = None"
      using log_inv_absent [OF inv save.hyps(2)] by (simp add: Copy_def)
    with inv True show ?thesis by simp
  next
    case False
    have "RX_Config x' = RX_Config x"
      unfolding x' by (rule SaveCheckpointIfNeeded_config)
    with save.prems have config: "IsPreimageBackend (RX_Config x)" "0 < page_size (RX_Config x)"
      by simp_all
    from False SaveCheckpointIfNeeded_preimage [OF config(1), of em clk instanceID frame n] x'
    have "0 < RB_Window (RX_Config x)" "x' = store_checkpoint em clk frame n x"
      by auto
    from log_inv_save [OF save.IH [OF config save.prems(3)] config save.hyps(2-6) save.prems(3) this]
    show ?thesis by (rule conjunct2)
  qed
qed


lemma apply_preimages_chain:
  assumes states: "\<And>f st. fmlookup M f = Some st \<Longrightarrow> preimage_ok page len L f st"
    and chain: "preimage_chain M frame cursor sts"
  shows "L cursor = Some ram \<Longrightarrow> \<exists>base. L frame = Some base \<and> apply_preimages page len sts ram = (True, base)"
  using chain
proof (induction arbitrary: ram rule: preimage_chain.induct)
  case (older cursor st sts)
  from states [OF older.hyps(2)] older.hyps(3) older.prems obtain base where
    "L (SS_BaseFrame st) = Some base"
    "apply_pages page len (SS_MainRAMPreimagePages st) (SS_MainRAMPreimage st) ram = (True, base)"
    by (auto simp: preimage_ok_def)
  with older.IH show ?case by simp
qed simp

lemma RestorePreimageState_after:
  assumes "ND_MainRAM n = Some cur" "length cur = ram_size n" "length latest = ram_size n"
    "apply_preimages (page_size config) (ram_size n) sts latest = (True, ram)"
  shows "RestorePreimageState em config checkpoint sts latest n =
    (let (ok, n') = RestoreCheckpointBuffer em config (SS_Buffer checkpoint) None (n\<lparr>ND_MainRAM := Some ram\<rparr>)
     in if ok then (True, InvalidateMainRAMJIT em config (ram_size n) n') else (False, n'))"
  using assms by (simp add: RestorePreimageState_def Let_def copy_in_all case_prod_beta)

text \<open>C5: a rollback with a preimage backend gives the memory of the frame it goes back to. Over any
  run of saves, for every saved frame inside the window \<open>BuildPreimageRestore\<close> succeeds, and
  \<open>RestorePreimageState\<close> loads the core state into a machine whose main memory is, byte for byte,
  the one at the time that frame was saved, whatever the memory of the machine has become. Capture of the changed pages, the
  memory shadow, the base links, the pruning of old frames and the backward application of the
  pages together lose nothing.\<close>

theorem preimage_restore_recovers_memory:
  assumes run: "saved_run em len x L"
    and config: "IsPreimageBackend (RX_Config x)" "0 < page_size (RX_Config x)" "0 < len"
    and saved: "L frame = Some ram"
    and inside: "keep_from (ST_FrameShadowFrame (RX_Store x)) (u32_of_int (RB_Window (RX_Config x))) \<le> frame"
    and n: "ND_MainRAM n = Some cur" "length cur = len" "ram_size n = len"
  shows "\<exists>sts latest. BuildPreimageRestore frame (RX_Store x) = (True, sts, latest)
    \<and> (\<forall>checkpoint. RestorePreimageState em (RX_Config x) checkpoint sts latest n =
        (let (ok, n') = RestoreCheckpointBuffer em (RX_Config x) (SS_Buffer checkpoint) None (n\<lparr>ND_MainRAM := Some ram\<rparr>)
         in if ok then (True, InvalidateMainRAMJIT em (RX_Config x) len n') else (False, n')))"
proof -
  let ?s = "RX_Store x"
  from saved_run_inv [OF run config] saved have inv: "shadow_inv len x L"
    by (auto simp: log_inv_def)
  with saved inside obtain sts where chain: "preimage_chain (ST_States ?s) frame (ST_FrameShadowFrame ?s) sts"
    by (auto simp: shadow_inv_def Let_def window_of_def)
  have latest: "L (ST_FrameShadowFrame ?s) = Some (ST_FrameShadowMainRAM ?s)"
    "length (ST_FrameShadowMainRAM ?s) = len"
    using inv by (auto simp: shadow_inv_def Let_def)
  have "\<And>f st. fmlookup (ST_States ?s) f = Some st \<Longrightarrow> preimage_ok (page_size (RX_Config x)) len L f st"
    using inv by (simp add: shadow_inv_def Let_def)
  from apply_preimages_chain [OF this chain latest(1)] saved
  have "apply_preimages (page_size (RX_Config x)) len sts (ST_FrameShadowMainRAM ?s) = (True, ram)"
    by simp
  note restore = RestorePreimageState_after [OF n(1), unfolded n(3), OF n(2) latest(2) this]
  have "BuildPreimageRestore frame ?s = (True, sts, ST_FrameShadowMainRAM ?s)"
    using inv chain by (simp add: BuildPreimageRestore_iff shadow_inv_def Let_def)
  with restore show ?thesis
    by blast
qed


definition idle_emulator :: "'m NDS_scheme Emulator" where
  "idle_emulator = \<lparr>EM_Save = \<lambda>k n. Some [], EM_Load = \<lambda>k b n. (True, n), EM_RunFrame = \<lambda>n. n,
     EM_SetKeyMask = \<lambda>k n. n, EM_TouchScreen = \<lambda>x y n. n, EM_ReleaseScreen = \<lambda>n. n,
     EM_SetRollbackSkipRender = \<lambda>b n. n, EM_SetRollbackSkipOutput = \<lambda>b n. n, EM_CheckAndInvalidate = \<lambda>a n. n\<rparr>"

definition idle_clock :: RollbackClock where
  "idle_clock = \<lparr>KC_SaveUs = \<lambda>f. 0, KC_RestoreUs = 0, KC_RunFrameUs = \<lambda>f. 0, KC_CheckpointSaveUs = \<lambda>f. 0, KC_TotalUs = 0\<rparr>"

definition preimage_context :: RollbackContext where
  "preimage_context = \<lparr>RX_Config = RollbackConfig_default\<lparr>RB_Enabled := True, RB_Resimulate := True, RB_Backend := CorePreimage\<rparr>,
     RX_Input = InputConfig_default\<lparr>IC_NetplayOnly := True\<rparr>, RX_Inputs = TimelineRuntime_init, RX_Store = Store_init,
     RX_Statistics = StatisticsSnapshot_default, RX_NetplayStartFrame = 0\<rparr>"

definition small_nds :: "u8 list \<Rightarrow> NDS" where
  "small_nds ram = \<lparr>ND_MainRAM = Some ram, ND_MainRAMMask = 1, ND_NumFrames = 0,
     ND_RestorePending = False, ND_RestoreData = None, ND_RestoreLength = 0, ND_RestoreOwnedBuffer = [],
     ND_RestoreUs = 0, ND_RestoreBytes = 0, ND_HistoryReachedExitGate = False,
     ND_ReplayDisplayStartFrame = kNoReplayFrame, ND_Checkpoints = [], ND_NextCheckpoint = 0,
     ND_CheckpointTimeline = TimelineReset\<rparr>"

lemma small_nds [simp]: "ND_MainRAM (small_nds ram) = Some ram" "ram_size (small_nds ram) = 2"
  by (simp_all add: small_nds_def ram_size_def)

lemma saved_run_next:
  assumes "saved_run em len x L" "\<forall>f \<in> dom L. f < frame" "frame \<noteq> kNoFrame" "ND_MainRAM n = Some ram"
    "length ram = len" "ram_size n = len"
    "Copy frame (RX_Store (snd (SaveCheckpointIfNeeded em clk instanceID frame (Some n) x))) \<noteq> None"
  shows "saved_run em len (snd (SaveCheckpointIfNeeded em clk instanceID frame (Some n) x)) (L(frame \<mapsto> ram))"
  using saved_run.save [OF assms(1-6) prod.collapse [symmetric], of clk instanceID]
  unfolding if_not_P [OF assms(7)] .

definition one_save :: RollbackContext where
  "one_save = snd (SaveCheckpointIfNeeded idle_emulator idle_clock 0 1 (Some (small_nds [1, 2])) preimage_context)"

definition two_saves :: RollbackContext where
  "two_saves = snd (SaveCheckpointIfNeeded idle_emulator idle_clock 0 2 (Some (small_nds [1, 3])) one_save)"

theorem preimage_restore_recovers_memory_witness:
  "\<exists>L sts. saved_run (idle_emulator :: NDS Emulator) 2 two_saves L \<and> L 1 = Some [1, 2]
    \<and> BuildPreimageRestore 1 (RX_Store two_saves) = (True, sts, [1, 3])
    \<and> RestorePreimageState idle_emulator (RX_Config two_saves) StoredState_default sts [1, 3] (small_nds [9, 9])
        = (True, small_nds [1, 2])"
proof -
  have kept: "Copy 1 (RX_Store one_save) \<noteq> None" "Copy 2 (RX_Store two_saves) \<noteq> None"
    "IsPreimageBackend (RX_Config two_saves)" "0 < page_size (RX_Config two_saves)"
    "keep_from (ST_FrameShadowFrame (RX_Store two_saves)) (u32_of_int (RB_Window (RX_Config two_saves))) \<le> 1"
    "ST_FrameShadowMainRAM (RX_Store two_saves) = [1, 3]"
    by code_simp+
  have "saved_run (idle_emulator :: NDS Emulator) 2 preimage_context Map.empty"
    by (rule saved_run.start) (simp add: preimage_context_def)
  from saved_run_next [OF this, where frame = 1 and n = "small_nds [1, 2]" and ram = "[1, 2]" and clk = idle_clock and instanceID = 0]
  have "saved_run (idle_emulator :: NDS Emulator) 2 one_save [1 \<mapsto> [1, 2]]"
    using kept(1) by (simp add: one_save_def kNoFrame_def)
  from saved_run_next [OF this, where frame = 2 and n = "small_nds [1, 3]" and ram = "[1, 3]" and clk = idle_clock and instanceID = 0]
  have run: "saved_run (idle_emulator :: NDS Emulator) 2 two_saves [1 \<mapsto> [1, 2], 2 \<mapsto> [1, 3]]"
    using kept(2) by (simp add: two_saves_def kNoFrame_def)
  from preimage_restore_recovers_memory [OF run kept(3,4), where frame = 1 and ram = "[1, 2]"
      and n = "small_nds [9, 9]" and cur = "[9, 9]"] kept(5)
  obtain sts l where r: "BuildPreimageRestore 1 (RX_Store two_saves) = (True, sts, l)"
    "RestorePreimageState idle_emulator (RX_Config two_saves) StoredState_default sts l (small_nds [9, 9])
        = (True, InvalidateMainRAMJIT idle_emulator (RX_Config two_saves) 2 (small_nds [9, 9]\<lparr>ND_MainRAM := Some [1, 2]\<rparr>))"
    by (auto simp: RestoreCheckpointBuffer_def idle_emulator_def)
  have "l = [1, 3]"
    using r(1) kept(6) by (simp add: BuildPreimageRestore_iff)
  moreover have "InvalidateMainRAMJIT idle_emulator c 2 n = n" for c and n :: NDS
    by (simp add: InvalidateMainRAMJIT_def page_offsets_def idle_emulator_def)
  ultimately show ?thesis
    using run r by (intro exI [of _ "[1 \<mapsto> [1, 2], 2 \<mapsto> [1, 3]]"] exI [of _ sts]) (simp add: small_nds_def)
qed

end
