(* ===== verification/Mvl_Lifecycle.thy ===== *)
theory Mvl_Lifecycle
  imports Match_Hooks State_Sync Rollback_Runtime Packet_Bridge Coordinator Input_Delivery
    Session_Handshake Input_Timeline Rollback_Preimage
begin

text \<open>
  The life of a match, \<^verbatim>\<open>NsmbMvlLifecycle.cpp\<close>: the checkpoints taken at the start, the scoring of a
  finished game, and the restart into the next game of the series, from the bootstrap checkpoint,
  the gameplay checkpoint or a reset of the console. The console operations of the emulator core are
  the record \<open>Console\<close>, its savestates are those of \<open>Emulator\<close>; of the session the context
  holds the handshake and the input delivery, which are all this file touches. Trace output and the
  diagnostics snapshot are left out.
\<close>

unbundle bit_operations_syntax

section \<open>Context\<close>

record 'a Console =
  CN_HasCart :: "'a \<Rightarrow> bool"
  CN_Reset :: "'a \<Rightarrow> 'a"
  CN_SetupDirectBoot :: "'a \<Rightarrow> 'a"
  CN_Start :: "'a \<Rightarrow> 'a"
  CN_MPBegin :: "'a \<Rightarrow> 'a"

record LifecycleContext =
  LX_Mvl :: MvlConfig
  LX_Connection :: ConnectionConfig
  LX_PacketBridge :: PacketBridgeConfig
  LX_Input :: InputConfig
  LX_RuntimePatch :: RuntimePatchConfig
  LX_Rollback :: RollbackConfig
  LX_Runtime :: MvlRuntime
  LX_PacketBridgeRuntime :: BridgeRuntime
  LX_Handshake :: HandshakeRuntime
  LX_Delivery :: DeliveryRuntime
  LX_Inputs :: TimelineRuntime
  LX_Coordinator :: CoordinatorState
  LX_GameSync :: StateSyncRuntime
  LX_TraceLastWrittenFrame :: "u64 list"
  LX_CurrentStage :: int
  LX_CurrentStageSceneSettings :: u32
  LX_Host :: bool
  LX_Client :: bool

definition kLifecycleNoFrame :: u32 where "kLifecycleNoFrame = 0"
definition kGameStageIDAddr :: u32 where "kGameStageIDAddr = 0x02085A14"
definition kNetLocalAidAddr :: u32 where "kNetLocalAidAddr = 0x020887F0"
definition kGamePlayerDeadAddr :: u32 where "kGamePlayerDeadAddr = 0x0208B328"
definition kSceneIsSceneActiveAddr :: u32 where "kSceneIsSceneActiveAddr = 0x0203BD28"
definition kScenePreviousSceneIDAddr :: u32 where "kScenePreviousSceneIDAddr = 0x0203BD2C"
definition kSceneNextSceneIDAddr :: u32 where "kSceneNextSceneIDAddr = 0x0203BD30"
definition kSceneCurrentSceneIDAddr :: u32 where "kSceneCurrentSceneIDAddr = 0x0203BD34"
definition kSceneNextSceneSettingsAddr :: u32 where "kSceneNextSceneSettingsAddr = 0x02088F38"
definition kResultsScene :: u16 where "kResultsScene = 0x000A"

definition valid_instance :: "int \<Rightarrow> bool" where
  "valid_instance instanceID \<longleftrightarrow> 0 \<le> instanceID \<and> instanceID < 16"

abbreviation match_state :: "int \<Rightarrow> LifecycleContext \<Rightarrow> InstanceState" where
  "match_state i x \<equiv> MV_Instances (LX_Runtime x) ! nat i"

definition update_match :: "int \<Rightarrow> (InstanceState \<Rightarrow> InstanceState) \<Rightarrow> LifecycleContext \<Rightarrow> LifecycleContext" where
  "update_match i g x = x\<lparr>LX_Runtime := mark_instance i g (LX_Runtime x)\<rparr>"

definition GameHooksContext :: "LifecycleContext \<Rightarrow> HooksContext" where
  "GameHooksContext x = \<lparr>HX_Mvl = LX_Mvl x, HX_Patches = LX_RuntimePatch x, HX_Runtime = LX_Runtime x,
     HX_CurrentStage = LX_CurrentStage x, HX_CurrentStageSceneSettings = LX_CurrentStageSceneSettings x,
     HX_IsHost = LX_Host x\<rparr>"

definition LifecycleWriteARM9U32 :: "u32 \<Rightarrow> u32 \<Rightarrow> 'm NDS_scheme \<Rightarrow> bool \<times> 'm NDS_scheme" where
  "LifecycleWriteARM9U32 address v n = (if address AND 3 \<noteq> 0 then (False, n) else (True, ARM9Write32 address v n))"

section \<open>Resets\<close>

definition TraceResetForRestart :: "int \<Rightarrow> u64 list \<Rightarrow> u64 list" where
  "TraceResetForRestart instanceID frames = (if \<not> valid_instance instanceID then frames else frames[nat instanceID := 0])"

definition ResetSyncStateForRestart :: "int \<Rightarrow> u32 \<Rightarrow> LifecycleContext \<Rightarrow> LifecycleContext" where
  "ResetSyncStateForRestart instanceID frame x =
     (if \<not> valid_instance instanceID then x
      else
        let generation = u32_of_int (max 0 (IN_RestartCount (match_state instanceID x)));
            epoch = (if LX_Host x then CC_StartFrame (LX_Connection x) else 0)
        in x\<lparr>LX_GameSync := SyncResetForRestart instanceID (LX_GameSync x),
             LX_PacketBridgeRuntime := ResetQueuesForRestart (LX_PacketBridgeRuntime x),
             LX_Delivery := DeliveryClear (LX_Delivery x),
             LX_Inputs := TimelineResetForRestart kLifecycleNoFrame (LX_Inputs x),
             LX_Connection := (LX_Connection x)\<lparr>CC_SharedLogicalEpoch := epoch\<rparr>,
             LX_Handshake := BeginGeneration generation epoch (LX_Host x) (LX_Handshake x),
             LX_TraceLastWrittenFrame := TraceResetForRestart instanceID (LX_TraceLastWrittenFrame x)\<rparr>)"

text \<open>Both rebasing functions move the same five startup frames.\<close>

definition rebase_frames :: "(u32 \<Rightarrow> u32) \<Rightarrow> LifecycleContext \<Rightarrow> LifecycleContext" where
  "rebase_frames g x =
     x\<lparr>LX_Connection := (LX_Connection x)\<lparr>CC_LocalStartupRawFrame := g (CC_LocalStartupRawFrame (LX_Connection x))\<rparr>,
       LX_PacketBridge := (LX_PacketBridge x)\<lparr>BC_ForceGameLocalPlayerIDStartFrame :=
         g (BC_ForceGameLocalPlayerIDStartFrame (LX_PacketBridge x))\<rparr>,
       LX_RuntimePatch := (LX_RuntimePatch x)\<lparr>PC_PacketBridgeJitHelperPatchFrame :=
         g (PC_PacketBridgeJitHelperPatchFrame (LX_RuntimePatch x))\<rparr>,
       LX_Mvl := (LX_Mvl x)\<lparr>MC_CameraInitHold := (MC_CameraInitHold (LX_Mvl x))
         \<lparr>CH_StartFrame := g (CH_StartFrame (MC_CameraInitHold (LX_Mvl x))),
          CH_EndFrame := g (CH_EndFrame (MC_CameraInitHold (LX_Mvl x)))\<rparr>\<rparr>\<rparr>"

definition RebaseStartupFrames :: "int \<Rightarrow> u32 \<Rightarrow> LifecycleContext \<Rightarrow> LifecycleContext" where
  "RebaseStartupFrames instanceID restartFrame x =
     (if \<not> valid_instance instanceID then x
      else
        let x1 = rebase_frames (\<lambda>v. RebaseStartupFrame restartFrame v (LX_Runtime x)) x
        in x1\<lparr>LX_Runtime := SetStartupFrameBase restartFrame (LX_Runtime x1)\<rparr>)"

definition RebaseStartupFramesFromCheckpoint :: "int \<Rightarrow> u32 \<Rightarrow> u32 \<Rightarrow> LifecycleContext \<Rightarrow> LifecycleContext" where
  "RebaseStartupFramesFromCheckpoint instanceID restoreFrame checkpointFrame x =
     (if \<not> valid_instance instanceID then x
      else
        let x1 = rebase_frames (\<lambda>v. RebaseStartupFrameFromCheckpoint restoreFrame checkpointFrame v (LX_Runtime x)) x
        in x1\<lparr>LX_Runtime := SetStartupFrameBase
              (if checkpointFrame < restoreFrame then restoreFrame - checkpointFrame else restoreFrame) (LX_Runtime x1)\<rparr>)"

definition LifecycleResetStartupHookState :: "int \<Rightarrow> LifecycleContext \<Rightarrow> LifecycleContext" where
  "LifecycleResetStartupHookState instanceID x =
     (if \<not> valid_instance instanceID then x
      else x\<lparr>LX_Runtime := MvlResetStartupHookState instanceID (LX_Runtime x),
             LX_PacketBridgeRuntime := ResetStartupHookState instanceID (LX_PacketBridgeRuntime x),
             LX_Handshake := ResetStartHandshake (LX_Handshake x),
             LX_Inputs := (LX_Inputs x)\<lparr>TR_LastInputFrameLeadResendAt := 0, TR_InputFrameLeadResendCount := 0\<rparr>,
             LX_Coordinator := ResetNetplayLockstep instanceID (ResetNetplayStartWait (LX_Coordinator x))\<rparr>)"

definition ScheduleJitHelperPatchAfterRestore :: "int \<Rightarrow> u32 \<Rightarrow> u32 \<Rightarrow> LifecycleContext \<Rightarrow> LifecycleContext" where
  "ScheduleJitHelperPatchAfterRestore instanceID restoreFrame checkpointFrame x =
     (if \<not> valid_instance instanceID then x
      else x\<lparr>LX_PacketBridgeRuntime := snd (ScheduleJitHookAfterRestore instanceID restoreFrame checkpointFrame
               (LX_RuntimePatch x) (LX_PacketBridgeRuntime x))\<rparr>)"

section \<open>Restoring\<close>

definition request_seed :: "int \<Rightarrow> u32 \<Rightarrow> LifecycleContext \<Rightarrow> LifecycleContext" where
  "request_seed instanceID requestedSeed x =
     update_match instanceID (\<lambda>s. s\<lparr>IN_NetRandomPatchApplied := False\<rparr>)
       (x\<lparr>LX_Mvl := (LX_Mvl x)\<lparr>MC_NetRandom := (MC_NetRandom (LX_Mvl x))
            \<lparr>NR_Value := requestedSeed, NR_Enabled := True, NR_Auto := True\<rparr>\<rparr>\<rparr>)"

definition RestoreBootstrapCheckpoint ::
  "'m NDS_scheme Emulator \<Rightarrow> 'm NDS_scheme Console \<Rightarrow> int \<Rightarrow> u32 \<Rightarrow> u32 \<Rightarrow> 'm NDS_scheme \<Rightarrow> LifecycleContext
     \<Rightarrow> bool \<times> 'm NDS_scheme \<times> LifecycleContext" where
  "RestoreBootstrapCheckpoint em cn instanceID frame requestedSeed n x =
     (let checkpoint = IN_BootstrapCheckpoint (match_state instanceID x) in
      if \<not> valid_instance instanceID then (False, n, x)
      else if CK_Buffer checkpoint = [] then (False, n, x)
      else
        let x1 = RebaseStartupFramesFromCheckpoint instanceID frame (CK_Frame checkpoint)
                   (LifecycleResetStartupHookState instanceID x);
            (ok, n1) = EM_Load em FullState (CK_Buffer checkpoint) n
        in if \<not> ok then (False, n1, x1)
           else
             let n2 = CN_MPBegin cn (InvalidateMainRAMJIT em (LX_Rollback x1) (ram_size n1) n1);
                 x2 = request_seed instanceID requestedSeed x1;
                 n3 = (if LX_Host x2 then snd (LifecycleWriteARM9U32 kNetLocalAidAddr 0 n2)
                       else if LX_Client x2 then snd (LifecycleWriteARM9U32 kNetLocalAidAddr 1 n2) else n2);
                 n4 = snd (WriteRandomSeed requestedSeed n3)
             in (True, ApplyRuntimeConfig (GameHooksContext x2) n4, x2))"

definition ResetConsoleForNextMatch ::
  "'m NDS_scheme Console \<Rightarrow> int \<Rightarrow> u32 \<Rightarrow> u32 \<Rightarrow> 'm NDS_scheme \<Rightarrow> LifecycleContext \<Rightarrow> bool \<times> 'm NDS_scheme \<times> LifecycleContext" where
  "ResetConsoleForNextMatch cn instanceID frame requestedSeed n x =
     (if \<not> valid_instance instanceID \<or> \<not> CN_HasCart cn n then (False, n, x)
      else
        let x1 = RebaseStartupFrames instanceID frame (LifecycleResetStartupHookState instanceID x);
            n1 = ApplyRuntimeConfig (GameHooksContext x1) (CN_Reset cn n);
            n2 = snd (WriteRandomSeed requestedSeed n1);
            n3 = CN_MPBegin cn (CN_Start cn (CN_SetupDirectBoot cn n2));
            n4 = ApplyRuntimeConfig (GameHooksContext x1) n3
        in (True, snd (WriteRandomSeed requestedSeed n4), request_seed instanceID requestedSeed x1))"

definition RestoreGameplayCheckpoint ::
  "'m NDS_scheme Emulator \<Rightarrow> 'm NDS_scheme Console \<Rightarrow> int \<Rightarrow> u32 \<Rightarrow> u32 \<Rightarrow> 'm NDS_scheme \<Rightarrow> LifecycleContext
     \<Rightarrow> bool \<times> 'm NDS_scheme \<times> LifecycleContext" where
  "RestoreGameplayCheckpoint em cn instanceID frame requestedSeed n x =
     (let checkpoint = IN_GameplayCheckpoint (match_state instanceID x);
          (ok, n1) = EM_Load em FullState (CK_Buffer checkpoint) n
      in if \<not> ok then (False, n1, x)
         else
           let n2 = CN_MPBegin cn (InvalidateMainRAMJIT em (LX_Rollback x) (ram_size n1) n1);
               x1 = ScheduleJitHelperPatchAfterRestore instanceID frame (CK_Frame checkpoint) x;
               n3 = snd (LifecycleWriteARM9U32 kHookStageGroupAddr 9 n2);
               n4 = snd (LifecycleWriteARM9U32 kHookVsModeAddr 1 n3);
               n5 = snd (LifecycleWriteARM9U32 kSceneNextSceneSettingsAddr (LX_CurrentStageSceneSettings x1) n4)
           in (True, snd (WriteRandomSeed requestedSeed (ApplyRuntimeConfig (GameHooksContext x1) n5)), x1))"

section \<open>The result of a game\<close>

definition player_result :: "u32 \<Rightarrow> u32 \<Rightarrow> 'm NDS_scheme \<Rightarrow> u32" where
  "player_result addr player n = ARM9Read32 (addr + 4 * player) n"

definition player_dead :: "u32 \<Rightarrow> 'm NDS_scheme \<Rightarrow> u32" where
  "player_dead player n = ucast (ARM9Read8 (kGamePlayerDeadAddr + player) n)"

definition counts_out :: "MvlConfig \<Rightarrow> u32 \<Rightarrow> 'm NDS_scheme \<Rightarrow> bool" where
  "counts_out config player n \<longleftrightarrow> MC_LifeModeSelector config \<noteq> 2 \<and> player_dead player n \<noteq> 0"

definition player_lives :: "MvlConfig \<Rightarrow> u32 \<Rightarrow> 'm NDS_scheme \<Rightarrow> u32" where
  "player_lives config player n = (if counts_out config player n then 0 else player_result kGamePlayerLivesAddr player n)"

definition player_deaths :: "MvlConfig \<Rightarrow> u32 \<Rightarrow> 'm NDS_scheme \<Rightarrow> u32" where
  "player_deaths config player n =
     (let deaths = player_result kGamePlayerDeathsAddr player n
      in if counts_out config player n then max deaths (MC_InitialLives config) else deaths)"

definition ReadResultSnapshot :: "MvlConfig \<Rightarrow> 'm NDS_scheme \<Rightarrow> ResultSnapshot" where
  "ReadResultSnapshot config n =
     \<lparr>RE_BattleStars = (player_result kGamePlayerBattleStarsAddr 0 n, player_result kGamePlayerBattleStarsAddr 1 n),
      RE_DisplayedStars = (player_result kGamePlayerDisplayedStarsAddr 0 n, player_result kGamePlayerDisplayedStarsAddr 1 n),
      RE_CollectedStars = (player_result kGamePlayerCollectedStarsAddr 0 n, player_result kGamePlayerCollectedStarsAddr 1 n),
      RE_Lives = (player_lives config 0 n, player_lives config 1 n),
      RE_Deaths = (player_deaths config 0 n, player_deaths config 1 n),
      RE_Dead = (player_dead 0 n, player_dead 1 n)\<rparr>"

definition ComposeSceneSettingsForStage :: "int \<Rightarrow> u32" where
  "ComposeSceneSettingsForStage stage = push_bit 16 (0xB4 + u32_of_int (clamp stage 0 4)) OR 0xFF00"

definition RefreshGameSelection :: "int \<Rightarrow> LifecycleContext \<Rightarrow> LifecycleContext" where
  "RefreshGameSelection instanceID x =
     (if \<not> valid_instance instanceID then x
      else
        let stage = clamp (StageForGame instanceID (LX_Mvl x) (LX_CurrentStage x) (LX_Runtime x)) 0 4
        in x\<lparr>LX_CurrentStage := stage, LX_CurrentStageSceneSettings := ComposeSceneSettingsForStage stage\<rparr>)"

text \<open>Outside the results scene: a restarted game that hangs between the scenes is sent on, and the
  result marks are cleared.\<close>

definition clear_result :: "InstanceState \<Rightarrow> InstanceState" where
  "clear_result s = s\<lparr>IN_InResult := False, IN_ResultScored := False, IN_ResultUnresolvedLogged := False\<rparr>"

definition outside_results :: "int \<Rightarrow> u32 \<Rightarrow> 'm NDS_scheme \<Rightarrow> LifecycleContext \<Rightarrow> 'm NDS_scheme \<times> LifecycleContext" where
  "outside_results instanceID frame n x =
     (let s = match_state instanceID x;
          n1 = (if 0 < IN_RestartCount s \<and> ARM9Read16 kSceneCurrentSceneIDAddr n = 3
                   \<and> ARM9Read16 kScenePreviousSceneIDAddr n = kResultsScene
                   \<and> ARM9Read16 kSceneNextSceneIDAddr n = 3 \<and> 30 \<le> frame - IN_LastRestartFrame s
                then ARM9Write16 kSceneNextSceneIDAddr 0x0181 n else n)
      in (n1, update_match instanceID clear_result x))"

definition add_win :: "int \<Rightarrow> int \<times> int \<Rightarrow> int \<times> int" where
  "add_win winner wins = (if winner = 0 then (fst wins + 1, snd wins) else (fst wins, snd wins + 1))"

text \<open>Scoring, once per visit of the results scene; the left side is the early return of an unresolved
  result.\<close>

definition score_result :: "int \<Rightarrow> u32 \<Rightarrow> 'm NDS_scheme \<Rightarrow> LifecycleContext \<Rightarrow> LifecycleContext + LifecycleContext" where
  "score_result instanceID frame n x =
     (let s = match_state instanceID x in
      if IN_ResultScored s then Inr x
      else
        let winner = ResolveResultWinner (ReadResultSnapshot (LX_Mvl x) n)
        in if winner < 0
           then Inl (if \<not> IN_ResultUnresolvedLogged s \<and> MC_AutoRestartDelayFrames (LX_Mvl x) \<le> frame - IN_ResultFrame s
                     then update_match instanceID (\<lambda>s. s\<lparr>IN_ResultUnresolvedLogged := True\<rparr>) x else x)
           else Inr (update_match instanceID (\<lambda>s. s\<lparr>IN_Wins := add_win winner (IN_Wins s), IN_ResultScored := True\<rparr>) x))"

definition series_over :: "MvlConfig \<Rightarrow> InstanceState \<Rightarrow> bool" where
  "series_over config s \<longleftrightarrow> MC_TargetWins config \<le> max (fst (IN_Wins s)) (snd (IN_Wins s))"

text \<open>The three ways into the next game, tried in this order; 0 is none.\<close>

definition restart_path ::
  "'m NDS_scheme Emulator \<Rightarrow> 'm NDS_scheme Console \<Rightarrow> int \<Rightarrow> u32 \<Rightarrow> int \<Rightarrow> u32 \<Rightarrow> 'm NDS_scheme \<Rightarrow> LifecycleContext
     \<Rightarrow> int \<times> 'm NDS_scheme \<times> LifecycleContext" where
  "restart_path em cn instanceID frame requestedStage requestedSeed n x =
     (let (boot, n1, x1) = RestoreBootstrapCheckpoint em cn instanceID frame requestedSeed n x
      in if boot then (3, n1, x1)
         else
           let checkpoint = IN_GameplayCheckpoint (match_state instanceID x1)
           in if CK_Buffer checkpoint \<noteq> [] \<and> CK_Stage checkpoint = requestedStage
              then (let (ok, n2, x2) = RestoreGameplayCheckpoint em cn instanceID frame requestedSeed n1 x1
                    in (if ok then 1 else 0, n2, x2))
              else (let (ok, n2, x2) = ResetConsoleForNextMatch cn instanceID frame requestedSeed n1 x1
                    in (if ok then 4 else 0, n2, x2)))"

definition restart_match ::
  "'m NDS_scheme Emulator \<Rightarrow> 'm NDS_scheme Console \<Rightarrow> int \<Rightarrow> u32 \<Rightarrow> 'm NDS_scheme \<Rightarrow> LifecycleContext
     \<Rightarrow> bool \<times> 'm NDS_scheme \<times> LifecycleContext" where
  "restart_match em cn instanceID frame n x =
     (let nextRestartCount = IN_RestartCount (match_state instanceID x) + 1;
          x1 = update_match instanceID (\<lambda>s. s\<lparr>IN_RestartCount := nextRestartCount\<rparr>) x;
          requestedStage = clamp (StageForGame instanceID (LX_Mvl x1) (LX_CurrentStage x1) (LX_Runtime x1)) 0 4;
          requestedSeed = MatchSeedForGame instanceID (LX_Mvl x1) (LX_Runtime x1);
          x2 = x1\<lparr>LX_CurrentStage := requestedStage,
                  LX_CurrentStageSceneSettings := ComposeSceneSettingsForStage requestedStage\<rparr>;
          n1 = snd (WriteRandomSeed requestedSeed n);
          (path, n2, x3) = restart_path em cn instanceID frame requestedStage requestedSeed n1 x2
      in if path = 0
         then (False, n2, update_match instanceID (\<lambda>s. s\<lparr>IN_RestartCount := nextRestartCount - 1\<rparr>) x3)
         else
           (True, n2, update_match instanceID clear_result (ResetSyncStateForRestart instanceID frame
             (update_match instanceID (\<lambda>s. s\<lparr>IN_LastRestartFrame := frame\<rparr>) x3))))"

text \<open>The part of the call after the scoring.\<close>

definition after_scoring ::
  "'m NDS_scheme Emulator \<Rightarrow> 'm NDS_scheme Console \<Rightarrow> int \<Rightarrow> u32 \<Rightarrow> 'm NDS_scheme \<Rightarrow> LifecycleContext
     \<Rightarrow> bool \<times> 'm NDS_scheme option \<times> LifecycleContext" where
  "after_scoring em cn instanceID frame n x =
     (if series_over (LX_Mvl x) (match_state instanceID x)
         \<or> frame - IN_ResultFrame (match_state instanceID x) < MC_AutoRestartDelayFrames (LX_Mvl x)
      then (False, Some n, x)
      else let (ok, n2, x2) = restart_match em cn instanceID frame n x in (ok, Some n2, x2))"

definition RestartAfterResultIfNeeded ::
  "'m NDS_scheme Emulator \<Rightarrow> 'm NDS_scheme Console \<Rightarrow> int \<Rightarrow> u32 \<Rightarrow> 'm NDS_scheme option \<Rightarrow> LifecycleContext
     \<Rightarrow> bool \<times> 'm NDS_scheme option \<times> LifecycleContext" where
  "RestartAfterResultIfNeeded em cn instanceID frame nds x =
     (case nds of
        None \<Rightarrow> (False, None, x)
      | Some n \<Rightarrow>
          if \<not> MC_AutoRestartAfterResult (LX_Mvl x) \<or> MC_TargetWins (LX_Mvl x) < 1 \<or> \<not> valid_instance instanceID
          then (False, Some n, x)
          else if ARM9Read16 kSceneCurrentSceneIDAddr n \<noteq> kResultsScene
          then (let (n1, x1) = outside_results instanceID frame n x in (False, Some n1, x1))
          else if \<not> IN_InResult (match_state instanceID x)
          then (False, Some n, update_match instanceID
                 (\<lambda>s. s\<lparr>IN_InResult := True, IN_ResultUnresolvedLogged := False, IN_ResultFrame := frame\<rparr>) x)
          else
            (case score_result instanceID frame n x of
               Inl x1 \<Rightarrow> (False, Some n, x1)
             | Inr x1 \<Rightarrow> after_scoring em cn instanceID frame n x1))"

section \<open>Pauses and checkpoints\<close>

definition ShouldServiceNetworkForResult :: "int \<Rightarrow> 'm NDS_scheme option \<Rightarrow> LifecycleContext \<Rightarrow> bool" where
  "ShouldServiceNetworkForResult instanceID nds x =
     (case nds of
        None \<Rightarrow> False
      | Some n \<Rightarrow>
          if \<not> IC_NetplayOnly (LX_Input x) \<or> \<not> MC_AutoRestartAfterResult (LX_Mvl x) \<or> MC_TargetWins (LX_Mvl x) < 1
             \<or> \<not> valid_instance instanceID \<or> ARM9Read16 kSceneCurrentSceneIDAddr n \<noteq> kResultsScene
          then False else IN_InResult (match_state instanceID x))"

definition ShouldPauseInputForRestart :: "int \<Rightarrow> 'm NDS_scheme option \<Rightarrow> LifecycleContext \<Rightarrow> bool" where
  "ShouldPauseInputForRestart instanceID nds x =
     (if \<not> ShouldServiceNetworkForResult instanceID nds x \<or> MC_TargetWins (LX_Mvl x) \<le> 1 then False
      else \<not> series_over (LX_Mvl x) (match_state instanceID x))"

text \<open>\<^verbatim>\<open>nds->DoSavestate\<close> on a fresh savestate.\<close>

definition save_failed :: "MvlCheckpoint \<Rightarrow> MvlCheckpoint" where
  "save_failed c = c\<lparr>CK_Logged := True\<rparr>"

definition bootstrap_ready :: "u32 \<Rightarrow> MvlConfig \<Rightarrow> 'm NDS_scheme \<Rightarrow> bool" where
  "bootstrap_ready frame config n \<longleftrightarrow>
     MC_AutoRestartBootstrapFrame config \<le> frame \<and> ARM9Read32 kHookStageGroupAddr n \<noteq> 9
     \<and> ARM9Read16 kSceneCurrentSceneIDAddr n = 4 \<and> ARM9Read16 kSceneNextSceneIDAddr n = 6
     \<and> ARM9Read16 kSceneIsSceneActiveAddr n \<noteq> 0"

definition SaveBootstrapCheckpointIfNeeded ::
  "'m NDS_scheme Emulator \<Rightarrow> int \<Rightarrow> u32 \<Rightarrow> 'm NDS_scheme option \<Rightarrow> LifecycleContext \<Rightarrow> LifecycleContext" where
  "SaveBootstrapCheckpointIfNeeded em instanceID frame nds x =
     (case nds of
        None \<Rightarrow> x
      | Some n \<Rightarrow>
          if \<not> MC_AutoRestartAfterResult (LX_Mvl x) \<or> MC_TargetWins (LX_Mvl x) \<le> 1 \<or> \<not> valid_instance instanceID then x
          else
            let s = match_state instanceID x
            in if CK_Buffer (IN_BootstrapCheckpoint s) \<noteq> [] \<or> IN_RestartCount s \<noteq> 0 \<or> IN_InResult s then x
               else if \<not> bootstrap_ready frame (LX_Mvl x) n then x
               else update_match instanceID (\<lambda>s. s\<lparr>IN_BootstrapCheckpoint :=
                      (case EM_Save em FullState n of
                         None \<Rightarrow> save_failed (IN_BootstrapCheckpoint s)
                       | Some buffer \<Rightarrow> (IN_BootstrapCheckpoint s)\<lparr>CK_Buffer := buffer, CK_Frame := frame, CK_Logged := True\<rparr>)\<rparr>) x)"

definition gameplay_ready :: "'m NDS_scheme \<Rightarrow> bool" where
  "gameplay_ready n \<longleftrightarrow>
     ARM9Read16 kSceneCurrentSceneIDAddr n = 3 \<and> ARM9Read16 kSceneIsSceneActiveAddr n \<noteq> 0
     \<and> ARM9Read32 kHookStageGroupAddr n = 9 \<and> ARM9Read32 kHookVsModeAddr n = 1"

definition SaveGameplayCheckpointIfNeeded ::
  "'m NDS_scheme Emulator \<Rightarrow> ('m NDS_scheme \<Rightarrow> GameStateSample) \<Rightarrow> int \<Rightarrow> u32 \<Rightarrow> 'm NDS_scheme option \<Rightarrow> LifecycleContext
     \<Rightarrow> LifecycleContext" where
  "SaveGameplayCheckpointIfNeeded em ReadGameStateSample instanceID frame nds x =
     (case nds of
        None \<Rightarrow> x
      | Some n \<Rightarrow>
          if \<not> MC_AutoRestartAfterResult (LX_Mvl x) \<or> MC_TargetWins (LX_Mvl x) \<le> 1 \<or> ND_MainRAM n = None
             \<or> \<not> valid_instance instanceID then x
          else
            let s = match_state instanceID x
            in if CK_Buffer (IN_GameplayCheckpoint s) \<noteq> [] \<or> IN_InResult s \<or> IN_RestartCount s \<noteq> 0 \<or> \<not> gameplay_ready n
               then x
               else
                 let sample = ReadGameStateSample n
                 in if GS_Word sample ''PlayerActor0Found'' = 0 \<or> GS_Word sample ''PlayerActor1Found'' = 0
                       \<or> GS_Word sample ''VsStarActorFound'' = 0 \<or> GS_Word sample ''StageSceneFound'' = 0
                       \<or> GS_Word sample ''StageSceneStateType'' \<noteq> 1
                    then x
                    else update_match instanceID (\<lambda>s. s\<lparr>IN_GameplayCheckpoint :=
                           (case EM_Save em FullState n of
                              None \<Rightarrow> save_failed (IN_GameplayCheckpoint s)
                            | Some buffer \<Rightarrow> (IN_GameplayCheckpoint s)\<lparr>CK_Buffer := buffer, CK_Frame := frame,
                                CK_Stage := int_of_u32 (GS_Word sample ''StageID''), CK_Logged := True\<rparr>)\<rparr>) x)"

section \<open>What the operations keep\<close>

text \<open>The score sheet of an instance: how many instances there are, the target, the restart count, whether
  the current result is counted, and the wins.\<close>

definition sheet :: "int \<Rightarrow> LifecycleContext \<Rightarrow> nat \<times> int \<times> int \<times> bool \<times> int \<times> int" where
  "sheet i x = (length (MV_Instances (LX_Runtime x)), MC_TargetWins (LX_Mvl x), IN_RestartCount (match_state i x),
     IN_ResultScored (match_state i x), IN_Wins (match_state i x))"

definition sized :: "int \<Rightarrow> LifecycleContext \<Rightarrow> bool" where
  "sized i x \<longleftrightarrow> valid_instance i \<and> length (MV_Instances (LX_Runtime x)) = 16"

text \<open>The part of the settings that reaches the configuration block.\<close>

definition match_rules :: "MvlConfig \<Rightarrow> bool \<times> u32 \<times> u32 \<times> u32" where
  "match_rules c = (MC_RuntimeConfigEnabled c, MC_InitialLives c, MC_LifeModeSelector c, MC_BigStarSelector c)"

named_theorems keeps "fields that an operation of the lifecycle leaves alone"

lemma match_update [keeps]: "sized i x \<Longrightarrow> match_state i (update_match i g x) = g (match_state i x)"
  by (auto simp: sized_def valid_instance_def update_match_def mark_instance_def)

lemma sized_update [keeps]: "sized i (update_match i g x) = sized i x"
  by (simp add: sized_def update_match_def mark_instance_def)

lemma update_fields [keeps]:
  "LX_Mvl (update_match i g x) = LX_Mvl x" "LX_Connection (update_match i g x) = LX_Connection x"
  "LX_Handshake (update_match i g x) = LX_Handshake x" "LX_Inputs (update_match i g x) = LX_Inputs x"
  "LX_CurrentStage (update_match i g x) = LX_CurrentStage x" "LX_Host (update_match i g x) = LX_Host x"
  "LX_CurrentStageSceneSettings (update_match i g x) = LX_CurrentStageSceneSettings x"
  "LX_GameSync (update_match i g x) = LX_GameSync x" "LX_Delivery (update_match i g x) = LX_Delivery x"
  "LX_PacketBridgeRuntime (update_match i g x) = LX_PacketBridgeRuntime x"
  by (simp_all add: update_match_def)

lemma rebase_keeps [keeps]:
  "sized i (rebase_frames g x) = sized i x" "LX_Runtime (rebase_frames g x) = LX_Runtime x"
  "MC_TargetWins (LX_Mvl (rebase_frames g x)) = MC_TargetWins (LX_Mvl x)"
  "LX_Host (rebase_frames g x) = LX_Host x" "LX_CurrentStage (rebase_frames g x) = LX_CurrentStage x"
  "CC_StartFrame (LX_Connection (rebase_frames g x)) = CC_StartFrame (LX_Connection x)"
  "LX_CurrentStageSceneSettings (rebase_frames g x) = LX_CurrentStageSceneSettings x"
  "match_rules (LX_Mvl (rebase_frames g x)) = match_rules (LX_Mvl x)"
  by (simp_all add: rebase_frames_def sized_def match_rules_def)

text \<open>What the restore operations keep: the sheet, the marks of the result, the role, the stage with its
  scene settings and the rules.\<close>

definition same_match :: "int \<Rightarrow> LifecycleContext \<Rightarrow> LifecycleContext \<Rightarrow> bool" where
  "same_match i x y \<longleftrightarrow> sheet i x = sheet i y \<and> IN_InResult (match_state i x) = IN_InResult (match_state i y)
     \<and> IN_LastRestartFrame (match_state i x) = IN_LastRestartFrame (match_state i y)
     \<and> LX_Host x = LX_Host y \<and> LX_CurrentStage x = LX_CurrentStage y
     \<and> LX_CurrentStageSceneSettings x = LX_CurrentStageSceneSettings y
     \<and> match_rules (LX_Mvl x) = match_rules (LX_Mvl y)
     \<and> CC_StartFrame (LX_Connection x) = CC_StartFrame (LX_Connection y)"

lemma same_match_refl [simp]: "same_match i x x"
  by (simp add: same_match_def)

lemma same_match_trans: "same_match i x y \<Longrightarrow> same_match i y z \<Longrightarrow> same_match i x z"
  by (simp add: same_match_def)

lemma same_match_sized: "same_match i x y \<Longrightarrow> sized i x = sized i y"
  by (simp add: same_match_def sheet_def sized_def)

lemma hook_reset_match: "sized i x \<Longrightarrow> same_match i x (LifecycleResetStartupHookState i x)"
  by (auto simp: same_match_def sheet_def sized_def LifecycleResetStartupHookState_def MvlResetStartupHookState_def
      MvlIsValidInstance_def valid_instance_def)

lemma rebase_match: "same_match i x (RebaseStartupFrames i f x)"
  "same_match i x (RebaseStartupFramesFromCheckpoint i f c x)"
  by (simp_all add: same_match_def sheet_def RebaseStartupFrames_def RebaseStartupFramesFromCheckpoint_def keeps
      SetStartupFrameBase_def Let_def)

lemma request_seed_match: "sized i x \<Longrightarrow> same_match i x (request_seed i seed x)"
proof -
  assume s: "sized i x"
  let ?y = "x\<lparr>LX_Mvl := (LX_Mvl x)\<lparr>MC_NetRandom := (MC_NetRandom (LX_Mvl x))
    \<lparr>NR_Value := seed, NR_Enabled := True, NR_Auto := True\<rparr>\<rparr>\<rparr>"
  have "sized i ?y"
    using s by (simp add: sized_def)
  then have "match_state i (request_seed i seed x) = (match_state i x)\<lparr>IN_NetRandomPatchApplied := False\<rparr>"
    by (simp add: request_seed_def match_update)
  then show ?thesis
    by (simp add: same_match_def sheet_def request_seed_def update_match_def mark_instance_def match_rules_def)
qed

lemma jit_match: "same_match i x (ScheduleJitHelperPatchAfterRestore i f c x)"
  by (simp add: same_match_def sheet_def ScheduleJitHelperPatchAfterRestore_def)

lemma bootstrap_match:
  assumes "sized i x" "RestoreBootstrapCheckpoint em cn i f seed n x = (ok, n', x')"
  shows "same_match i x x'"
proof -
  have 1: "same_match i x (RebaseStartupFramesFromCheckpoint i f c (LifecycleResetStartupHookState i x))" for c
    by (rule same_match_trans [OF hook_reset_match [OF assms(1)] rebase_match(2)])
  then have "sized i (RebaseStartupFramesFromCheckpoint i f c (LifecycleResetStartupHookState i x))" for c
    using same_match_sized assms(1) by blast
  then have "same_match i x (request_seed i seed (RebaseStartupFramesFromCheckpoint i f c (LifecycleResetStartupHookState i x)))" for c
    using 1 request_seed_match same_match_trans by blast
  with 1 assms(2) show ?thesis
    by (auto simp: RestoreBootstrapCheckpoint_def Let_def split: if_splits prod.splits)
qed

lemma console_match:
  assumes "sized i x" "ResetConsoleForNextMatch cn i f seed n x = (ok, n', x')"
  shows "same_match i x x'"
proof -
  have 1: "same_match i x (RebaseStartupFrames i f (LifecycleResetStartupHookState i x))"
    by (rule same_match_trans [OF hook_reset_match [OF assms(1)] rebase_match(1)])
  then have "sized i (RebaseStartupFrames i f (LifecycleResetStartupHookState i x))"
    using same_match_sized assms(1) by blast
  then have "same_match i x (request_seed i seed (RebaseStartupFrames i f (LifecycleResetStartupHookState i x)))"
    using 1 request_seed_match same_match_trans by blast
  with assms(2) show ?thesis
    by (auto simp: ResetConsoleForNextMatch_def Let_def split: if_splits)
qed

lemma gameplay_match: "RestoreGameplayCheckpoint em cn i f seed n x = (ok, n', x') \<Longrightarrow> same_match i x x'"
  by (auto simp: RestoreGameplayCheckpoint_def Let_def jit_match split: if_splits prod.splits)

lemma restart_path_match:
  assumes "sized i x" "restart_path em cn i f stage seed n x = (path, n', x')"
  shows "same_match i x x'"
proof -
  obtain boot n1 x1 where boot: "RestoreBootstrapCheckpoint em cn i f seed n x = (boot, n1, x1)"
    by (cases "RestoreBootstrapCheckpoint em cn i f seed n x") auto
  have 1: "same_match i x x1"
    using assms(1) boot by (rule bootstrap_match)
  then have "sized i x1"
    using same_match_sized assms(1) by blast
  then have "same_match i x1 x'"
    using assms(2) boot by (auto simp: restart_path_def Let_def split: if_splits prod.splits dest: gameplay_match console_match)
  with 1 show ?thesis
    by (rule same_match_trans)
qed

lemma sync_reset_keeps [keeps]:
  "LX_Runtime (ResetSyncStateForRestart i f x) = LX_Runtime x" "LX_Mvl (ResetSyncStateForRestart i f x) = LX_Mvl x"
  "LX_CurrentStage (ResetSyncStateForRestart i f x) = LX_CurrentStage x"
  "LX_CurrentStageSceneSettings (ResetSyncStateForRestart i f x) = LX_CurrentStageSceneSettings x"
  "sized i (ResetSyncStateForRestart i f x) = sized i x"
  by (simp_all add: ResetSyncStateForRestart_def sized_def Let_def)

text \<open>The context in which the restart path runs, and what comes back from it.\<close>

definition next_game :: "int \<Rightarrow> LifecycleContext \<Rightarrow> LifecycleContext" where
  "next_game i x = update_match i (\<lambda>s. s\<lparr>IN_RestartCount := IN_RestartCount s + 1\<rparr>) x"

definition next_stage :: "int \<Rightarrow> LifecycleContext \<Rightarrow> int" where
  "next_stage i x = clamp (StageForGame i (LX_Mvl x) (LX_CurrentStage x) (LX_Runtime (next_game i x))) 0 4"

definition next_seed :: "int \<Rightarrow> LifecycleContext \<Rightarrow> u32" where
  "next_seed i x = MatchSeedForGame i (LX_Mvl x) (LX_Runtime (next_game i x))"

lemma restart_match_cases:
  assumes "restart_match em cn i f n x = (ok, n', x')"
  obtains path x3 where
    "restart_path em cn i f (next_stage i x) (next_seed i x) (snd (WriteRandomSeed (next_seed i x) n))
       ((next_game i x)\<lparr>LX_CurrentStage := next_stage i x,
          LX_CurrentStageSceneSettings := ComposeSceneSettingsForStage (next_stage i x)\<rparr>) = (path, n', x3)"
    "ok \<longleftrightarrow> path \<noteq> 0"
    "\<not> ok \<longrightarrow> x' = update_match i (\<lambda>s. s\<lparr>IN_RestartCount := IN_RestartCount (match_state i x)\<rparr>) x3"
    "ok \<longrightarrow> x' = update_match i clear_result (ResetSyncStateForRestart i f
       (update_match i (\<lambda>s. s\<lparr>IN_LastRestartFrame := f\<rparr>) x3))"
proof -
  have g: "update_match i (\<lambda>s. s\<lparr>IN_RestartCount := IN_RestartCount (match_state i x) + 1\<rparr>) x = next_game i x"
    by (simp add: next_game_def update_match_def mark_instance_def)
  show ?thesis
    using assms that unfolding restart_match_def Let_def g
    by (auto simp: next_stage_def next_seed_def next_game_def update_fields split: prod.splits if_splits)
qed

lemma next_game_sized: "sized i (next_game i x) = sized i x"
  by (simp add: next_game_def keeps)

lemma next_game_sheet:
  assumes "sized i x"
  shows "match_state i (next_game i x) = (match_state i x)\<lparr>IN_RestartCount := IN_RestartCount (match_state i x) + 1\<rparr>"
  using assms by (simp add: next_game_def keeps)

lemma restart_match_result:
  assumes "sized i x" "restart_match em cn i f n x = (ok, n', x')"
  shows "sheet i x' = (16, MC_TargetWins (LX_Mvl x),
      if ok then IN_RestartCount (match_state i x) + 1 else IN_RestartCount (match_state i x),
      \<not> ok \<and> IN_ResultScored (match_state i x), IN_Wins (match_state i x))"
    and "ok \<Longrightarrow> IN_LastRestartFrame (match_state i x') = f \<and> \<not> IN_InResult (match_state i x')"
    and "\<not> ok \<Longrightarrow> IN_LastRestartFrame (match_state i x') = IN_LastRestartFrame (match_state i x)
      \<and> IN_InResult (match_state i x') = IN_InResult (match_state i x)"
    and "LX_CurrentStage x' = next_stage i x"
    and "LX_CurrentStageSceneSettings x' = ComposeSceneSettingsForStage (next_stage i x)"
    and "match_rules (LX_Mvl x') = match_rules (LX_Mvl x)"
proof -
  obtain path x3 where path: "restart_path em cn i f (next_stage i x) (next_seed i x) (snd (WriteRandomSeed (next_seed i x) n))
       ((next_game i x)\<lparr>LX_CurrentStage := next_stage i x,
          LX_CurrentStageSceneSettings := ComposeSceneSettingsForStage (next_stage i x)\<rparr>) = (path, n', x3)"
    and bad: "\<not> ok \<longrightarrow> x' = update_match i (\<lambda>s. s\<lparr>IN_RestartCount := IN_RestartCount (match_state i x)\<rparr>) x3"
    and good: "ok \<longrightarrow> x' = update_match i clear_result (ResetSyncStateForRestart i f
       (update_match i (\<lambda>s. s\<lparr>IN_LastRestartFrame := f\<rparr>) x3))"
    using assms(2) by (rule restart_match_cases)
  have s2: "sized i ((next_game i x)\<lparr>LX_CurrentStage := a, LX_CurrentStageSceneSettings := b\<rparr>)" for a b
    using assms(1) next_game_sized [of i x] by (simp add: sized_def)
  have m: "same_match i ((next_game i x)\<lparr>LX_CurrentStage := next_stage i x,
      LX_CurrentStageSceneSettings := ComposeSceneSettingsForStage (next_stage i x)\<rparr>) x3"
    using s2 path by (rule restart_path_match)
  then have s3: "sized i x3"
    using s2 same_match_sized by blast
  have view: "sheet i x3 = (16, MC_TargetWins (LX_Mvl x), IN_RestartCount (match_state i x) + 1,
      IN_ResultScored (match_state i x), IN_Wins (match_state i x))"
    "IN_LastRestartFrame (match_state i x3) = IN_LastRestartFrame (match_state i x)"
    "IN_InResult (match_state i x3) = IN_InResult (match_state i x)" "LX_CurrentStage x3 = next_stage i x"
    "LX_CurrentStageSceneSettings x3 = ComposeSceneSettingsForStage (next_stage i x)"
    "match_rules (LX_Mvl x3) = match_rules (LX_Mvl x)"
    using m assms(1) next_game_sheet [OF assms(1)]
    by (auto simp: same_match_def sheet_def sized_def next_game_def update_match_def mark_instance_def)
  note upd = match_update [OF s3] sized_update s3
  have up2: "match_state i (update_match i clear_result (ResetSyncStateForRestart i f (update_match i (\<lambda>s. s\<lparr>IN_LastRestartFrame := f\<rparr>) x3)))
      = clear_result ((match_state i x3)\<lparr>IN_LastRestartFrame := f\<rparr>)"
    using s3 by (simp add: match_update keeps)
  have len: "length (MV_Instances (LX_Runtime (update_match i g y))) = length (MV_Instances (LX_Runtime y))" for g y
    by (simp add: update_match_def mark_instance_def)
  show "sheet i x' = (16, MC_TargetWins (LX_Mvl x),
      if ok then IN_RestartCount (match_state i x) + 1 else IN_RestartCount (match_state i x),
      \<not> ok \<and> IN_ResultScored (match_state i x), IN_Wins (match_state i x))"
    using good bad view(1) up2 upd by (cases ok) (auto simp: sheet_def clear_result_def len keeps)
  show "ok \<Longrightarrow> IN_LastRestartFrame (match_state i x') = f \<and> \<not> IN_InResult (match_state i x')"
    using good up2 by (simp add: clear_result_def)
  show "\<not> ok \<Longrightarrow> IN_LastRestartFrame (match_state i x') = IN_LastRestartFrame (match_state i x)
      \<and> IN_InResult (match_state i x') = IN_InResult (match_state i x)"
    using bad view upd by simp
  show "LX_CurrentStage x' = next_stage i x"
    "LX_CurrentStageSceneSettings x' = ComposeSceneSettingsForStage (next_stage i x)"
    "match_rules (LX_Mvl x') = match_rules (LX_Mvl x)"
    using good bad view(4-6) by (cases ok; simp add: keeps)+
qed

section \<open>The length of a series\<close>

definition series_inv :: "nat \<times> int \<times> int \<times> bool \<times> int \<times> int \<Rightarrow> bool" where
  "series_inv v = (case v of (len, target, restarts, scored, wins0, wins1) \<Rightarrow>
     len = 16 \<and> 0 \<le> restarts \<and> 0 \<le> wins0 \<and> 0 \<le> wins1 \<and> restarts + of_bool scored \<le> wins0 + wins1
     \<and> restarts \<le> max 0 (2 * target - 2))"

lemma score_result_cases:
  assumes "sized i x" "score_result i f n x = r"
  obtains x1 where "r = Inl x1" "sheet i x1 = sheet i x" "\<not> IN_ResultScored (match_state i x)"
      "IN_InResult (match_state i x1) = IN_InResult (match_state i x)"
  | "r = Inr x" "IN_ResultScored (match_state i x)"
  | x1 w where "r = Inr x1" "\<not> IN_ResultScored (match_state i x)" "w = ResolveResultWinner (ReadResultSnapshot (LX_Mvl x) n)" "0 \<le> w"
      "match_state i x1 = (match_state i x)\<lparr>IN_Wins := add_win w (IN_Wins (match_state i x)), IN_ResultScored := True\<rparr>"
      "sized i x1" "LX_Mvl x1 = LX_Mvl x"
proof (cases "IN_ResultScored (match_state i x)")
  case True
  then show ?thesis
    using assms(2) that(2) by (simp add: score_result_def)
next
  case False
  let ?w = "ResolveResultWinner (ReadResultSnapshot (LX_Mvl x) n)"
  show ?thesis
  proof (cases "?w < 0")
    case True
    let ?y = "update_match i (\<lambda>s. s\<lparr>IN_ResultUnresolvedLogged := True\<rparr>) x"
    have "sheet i ?y = sheet i x" "IN_InResult (match_state i ?y) = IN_InResult (match_state i x)"
      using assms(1) by (simp_all add: sheet_def match_update [OF assms(1)] update_fields) (simp add: update_match_def mark_instance_def)
    then show ?thesis
      using assms(2) True False that(1) by (auto simp: score_result_def Let_def split: if_splits)
  next
    case pos: False
    let ?y = "update_match i (\<lambda>s. s\<lparr>IN_Wins := add_win ?w (IN_Wins s), IN_ResultScored := True\<rparr>) x"
    have "r = Inr ?y"
      using assms(2) pos False by (simp add: score_result_def)
    then show ?thesis
      using False pos assms(1) by (intro that(3) [of ?y ?w]) (simp_all add: keeps)
  qed
qed

lemma sheet_update:
  assumes "sized i x"
  shows "sheet i (update_match i g x) = (16, MC_TargetWins (LX_Mvl x), IN_RestartCount (g (match_state i x)),
    IN_ResultScored (g (match_state i x)), IN_Wins (g (match_state i x)))"
  using assms by (simp add: sheet_def match_update [OF assms] update_fields) (simp add: sized_def update_match_def mark_instance_def)

lemma after_scoring_sheet:
  assumes "sized i x1" "IN_ResultScored (match_state i x1)" "after_scoring em cn i f n x1 = (ok, n', x')"
  shows "ok \<Longrightarrow> max (fst (IN_Wins (match_state i x1))) (snd (IN_Wins (match_state i x1))) < MC_TargetWins (LX_Mvl x1)
      \<and> sheet i x' = (16, MC_TargetWins (LX_Mvl x1), IN_RestartCount (match_state i x1) + 1, False, IN_Wins (match_state i x1))"
    and "\<not> ok \<Longrightarrow> sheet i x' = (16, MC_TargetWins (LX_Mvl x1), IN_RestartCount (match_state i x1), True, IN_Wins (match_state i x1))"
proof -
  have "restart_match em cn i f n x1 = (ok, the n', x')
      \<and> max (fst (IN_Wins (match_state i x1))) (snd (IN_Wins (match_state i x1))) < MC_TargetWins (LX_Mvl x1)
      \<or> \<not> ok \<and> x' = x1"
    using assms(3) by (auto simp: after_scoring_def series_over_def not_le split: if_splits prod.splits)
  then show "ok \<Longrightarrow> max (fst (IN_Wins (match_state i x1))) (snd (IN_Wins (match_state i x1))) < MC_TargetWins (LX_Mvl x1)
      \<and> sheet i x' = (16, MC_TargetWins (LX_Mvl x1), IN_RestartCount (match_state i x1) + 1, False, IN_Wins (match_state i x1))"
    and "\<not> ok \<Longrightarrow> sheet i x' = (16, MC_TargetWins (LX_Mvl x1), IN_RestartCount (match_state i x1), True, IN_Wins (match_state i x1))"
    using restart_match_result(1) [OF assms(1), of em cn f n ok "the n'" x'] assms(1,2) by (auto simp: sheet_def sized_def)
qed

text \<open>One call, by what it does to the sheet.\<close>

lemma restart_call:
  assumes "sized i x"
  obtains (kept) "\<not> fst (RestartAfterResultIfNeeded em cn i f nds x)"
      "sheet i (snd (snd (RestartAfterResultIfNeeded em cn i f nds x))) = sheet i x"
  | (left) n where "nds = Some n" "ARM9Read16 kSceneCurrentSceneIDAddr n \<noteq> kResultsScene"
      "\<not> fst (RestartAfterResultIfNeeded em cn i f nds x)"
      "sheet i (snd (snd (RestartAfterResultIfNeeded em cn i f nds x)))
       = (16, MC_TargetWins (LX_Mvl x), IN_RestartCount (match_state i x), False, IN_Wins (match_state i x))"
  | (counted) w where "0 \<le> w" "\<not> IN_ResultScored (match_state i x)"
      "\<not> fst (RestartAfterResultIfNeeded em cn i f nds x)"
      "sheet i (snd (snd (RestartAfterResultIfNeeded em cn i f nds x)))
       = (16, MC_TargetWins (LX_Mvl x), IN_RestartCount (match_state i x), True, add_win w (IN_Wins (match_state i x)))"
  | (restarted) wins where "fst (RestartAfterResultIfNeeded em cn i f nds x)"
      "(IN_ResultScored (match_state i x) \<and> wins = IN_Wins (match_state i x)
        \<or> \<not> IN_ResultScored (match_state i x) \<and> (\<exists>w. 0 \<le> w \<and> wins = add_win w (IN_Wins (match_state i x))))"
      "max (fst wins) (snd wins) < MC_TargetWins (LX_Mvl x)"
      "sheet i (snd (snd (RestartAfterResultIfNeeded em cn i f nds x)))
       = (16, MC_TargetWins (LX_Mvl x), IN_RestartCount (match_state i x) + 1, False, wins)"
proof -
  let ?r = "RestartAfterResultIfNeeded em cn i f nds x"
  note def = RestartAfterResultIfNeeded_def
  show ?thesis
  proof (cases nds)
    case None
    then show ?thesis
      by (intro kept) (simp_all add: def)
  next
    case (Some n)
    consider (off) "\<not> MC_AutoRestartAfterResult (LX_Mvl x) \<or> MC_TargetWins (LX_Mvl x) < 1 \<or> \<not> valid_instance i"
      | (outside) "MC_AutoRestartAfterResult (LX_Mvl x)" "\<not> MC_TargetWins (LX_Mvl x) < 1" "valid_instance i"
          "ARM9Read16 kSceneCurrentSceneIDAddr n \<noteq> kResultsScene"
      | (entry) "MC_AutoRestartAfterResult (LX_Mvl x)" "\<not> MC_TargetWins (LX_Mvl x) < 1" "valid_instance i"
          "ARM9Read16 kSceneCurrentSceneIDAddr n = kResultsScene" "\<not> IN_InResult (match_state i x)"
      | (inside) "MC_AutoRestartAfterResult (LX_Mvl x)" "\<not> MC_TargetWins (LX_Mvl x) < 1" "valid_instance i"
          "ARM9Read16 kSceneCurrentSceneIDAddr n = kResultsScene" "IN_InResult (match_state i x)"
      by blast
    then show ?thesis
    proof cases
      case off
      then show ?thesis
        using Some by (intro kept) (auto simp: def)
    next
      case outside
      then show ?thesis
        using Some assms by (intro left [of n])
          (simp_all add: def outside_results_def Let_def sheet_update clear_result_def)
    next
      case entry
      have "sheet i x = (16, MC_TargetWins (LX_Mvl x), IN_RestartCount (match_state i x), IN_ResultScored (match_state i x),
          IN_Wins (match_state i x))"
        using assms by (simp add: sheet_def sized_def)
      then show ?thesis
        using entry Some assms by (intro kept) (simp_all add: def sheet_update)
    next
      case inside
      have r: "?r = (case score_result i f n x of Inl x1 \<Rightarrow> (False, Some n, x1) | Inr x1 \<Rightarrow> after_scoring em cn i f n x1)"
        using inside Some by (simp add: def)
      from assms refl [of "score_result i f n x"] show ?thesis
      proof (cases rule: score_result_cases)
        case (1 x1)
        then show ?thesis
          using r by (intro kept) simp_all
      next
        case 2
        obtain ok n' x' where a: "after_scoring em cn i f n x = (ok, n', x')"
          by (cases "after_scoring em cn i f n x") auto
        show ?thesis
        proof (cases ok)
          case True
          then show ?thesis
            using after_scoring_sheet [OF assms _ a] 2 r a by (intro restarted [of "IN_Wins (match_state i x)"]) simp_all
        next
          case False
          then show ?thesis
            using after_scoring_sheet [OF assms _ a] 2 r a assms by (intro kept) (simp_all add: sheet_def sized_def)
        qed
      next
        case (3 x1 w)
        obtain ok n' x' where a: "after_scoring em cn i f n x1 = (ok, n', x')"
          by (cases "after_scoring em cn i f n x1") auto
        show ?thesis
        proof (cases ok)
          case True
          then show ?thesis
            using after_scoring_sheet [OF 3(6) _ a] 3 r a
            by (intro restarted [of "add_win w (IN_Wins (match_state i x))"]) auto
        next
          case False
          then show ?thesis
            using after_scoring_sheet [OF 3(6) _ a] 3 r a by (intro counted [of w]) simp_all
        qed
      qed
    qed
  qed
qed

lemma restart_call_series:
  assumes "valid_instance i" "series_inv (sheet i x)"
  shows "series_inv (sheet i (snd (snd (RestartAfterResultIfNeeded em cn i f nds x))))"
proof -
  have s: "sized i x"
    using assms by (auto simp: series_inv_def sheet_def sized_def)
  from s show ?thesis
  proof (cases rule: restart_call [where em = em and cn = cn and f = f and nds = nds])
    case (restarted wins)
    then show ?thesis
      using assms(2) by (auto simp: series_inv_def sheet_def add_win_def split: prod.splits if_splits)
  qed (use assms(2) in \<open>cases "IN_ResultScored (match_state i x)"; auto simp: series_inv_def sheet_def add_win_def split: prod.splits if_splits\<close>)+
qed

text \<open>A match of one instance: the calls the frame loop makes, in any order, with any machine, while the
  rest of the program may do what it likes with everything but the sheet.\<close>

inductive match_run :: "int \<Rightarrow> LifecycleContext \<Rightarrow> bool" for i where
  start: "length (MV_Instances (LX_Runtime x)) = 16 \<Longrightarrow> match_state i x = InstanceState_default \<Longrightarrow> match_run i x"
| frame: "match_run i x \<Longrightarrow> match_run i (snd (snd (RestartAfterResultIfNeeded (em :: NDS Emulator) cn i f nds x)))"
| bootstrap: "match_run i x \<Longrightarrow> match_run i (SaveBootstrapCheckpointIfNeeded (em :: NDS Emulator) i f nds x)"
| gameplay: "match_run i x \<Longrightarrow> match_run i (SaveGameplayCheckpointIfNeeded (em :: NDS Emulator) rd i f nds x)"
| refresh: "match_run i x \<Longrightarrow> match_run i (RefreshGameSelection i x)"
| other: "match_run i x \<Longrightarrow> sheet i y = sheet i x \<Longrightarrow> match_run i y"

lemma save_keeps_sheet:
  assumes "sized i x"
  shows "sheet i (SaveBootstrapCheckpointIfNeeded em i f nds x) = sheet i x"
    and "sheet i (SaveGameplayCheckpointIfNeeded em rd i f nds x) = sheet i x"
    and "sheet i (RefreshGameSelection i x) = sheet i x"
proof -
  have *: "sheet i (update_match i (\<lambda>s. s\<lparr>IN_BootstrapCheckpoint := h s\<rparr>) x) = sheet i x"
    "sheet i (update_match i (\<lambda>s. s\<lparr>IN_GameplayCheckpoint := h s\<rparr>) x) = sheet i x" for h
    using assms by (simp_all add: sheet_update) (simp_all add: sheet_def sized_def)
  show "sheet i (SaveBootstrapCheckpointIfNeeded em i f nds x) = sheet i x"
    by (simp add: SaveBootstrapCheckpointIfNeeded_def Let_def * split: option.split)
  show "sheet i (SaveGameplayCheckpointIfNeeded em rd i f nds x) = sheet i x"
    by (simp add: SaveGameplayCheckpointIfNeeded_def Let_def * split: option.split)
  show "sheet i (RefreshGameSelection i x) = sheet i x"
    by (simp add: RefreshGameSelection_def sheet_def Let_def)
qed

lemma series_sized: "series_inv (sheet i x) \<Longrightarrow> valid_instance i \<Longrightarrow> sized i x"
  by (auto simp: series_inv_def sheet_def sized_def)

lemma match_run_inv: "match_run i x \<Longrightarrow> valid_instance i \<Longrightarrow> series_inv (sheet i x)"
proof (induction rule: match_run.induct)
  case (start x)
  then show ?case
    by (simp add: series_inv_def sheet_def InstanceState_default_def)
next
  case (frame x em cn f nds)
  then show ?case
    by (simp add: restart_call_series)
qed (simp_all add: save_keeps_sheet series_sized)

text \<open>C15: A series of games ends. Whatever happens in the match, an instance restarts at most as often
  as there are games that have been counted, and never more than twice the wins needed less two: a
  first-to-three match has at most five games. The restart count, and with it the generation of the
  session, cannot run away even when results are shown repeatedly or restarts fail.\<close>

theorem series_length_bounded:
  assumes "match_run i x" "valid_instance i"
  shows "IN_RestartCount (match_state i x) \<le> max 0 (2 * MC_TargetWins (LX_Mvl x) - 2)
    \<and> IN_RestartCount (match_state i x) \<le> fst (IN_Wins (match_state i x)) + snd (IN_Wins (match_state i x))"
  using match_run_inv [OF assms] by (cases "IN_ResultScored (match_state i x)") (auto simp: series_inv_def sheet_def)

section \<open>A result is counted once\<close>

text \<open>The calls made while the results scene stays on, up to the first restart.\<close>

fun stay :: "'m NDS_scheme Emulator \<Rightarrow> 'm NDS_scheme Console \<Rightarrow> int \<Rightarrow> (u32 \<times> 'm NDS_scheme) list \<Rightarrow> LifecycleContext \<Rightarrow> LifecycleContext" where
  "stay em cn i [] x = x"
| "stay em cn i ((f, n) # cs) x =
     (let (restarted, n', x') = RestartAfterResultIfNeeded em cn i f (Some n) x in if restarted then x' else stay em cn i cs x')"

lemma sheet_sized: "sheet i x = (16, v) \<Longrightarrow> valid_instance i \<Longrightarrow> sized i x"
  by (simp add: sheet_def sized_def)

lemma stay_scored:
  assumes "sized i x" "IN_ResultScored (match_state i x)"
    and "\<forall>c \<in> set cs. ARM9Read16 kSceneCurrentSceneIDAddr (snd c) = kResultsScene"
  shows "IN_Wins (match_state i (stay em cn i cs x)) = IN_Wins (match_state i x)"
  using assms
proof (induction cs arbitrary: x)
  case (Cons c cs)
  obtain f n where c: "c = (f, n)"
    by force
  from Cons.prems(1) show ?case
  proof (cases rule: restart_call [where em = em and cn = cn and f = f and nds = "Some n"])
    case kept
    let ?x = "snd (snd (RestartAfterResultIfNeeded em cn i f (Some n) x))"
    have "sized i ?x" "IN_ResultScored (match_state i ?x)" "IN_Wins (match_state i ?x) = IN_Wins (match_state i x)"
      using kept(2) Cons.prems(1,2) by (simp_all add: sheet_def sized_def)
    then show ?thesis
      using Cons.IH [of ?x] Cons.prems(3) kept(1) by (simp add: c case_prod_beta)
  next
    case (left m)
    then show ?thesis
      using Cons.prems(3) by (simp add: c)
  next
    case (counted w)
    then show ?thesis
      using Cons.prems(2) by simp
  next
    case (restarted wins)
    then show ?thesis
      using Cons.prems(2) by (auto simp: c case_prod_beta sheet_def)
  qed
qed simp

text \<open>C16: A finished game is counted once. However many frames the results scene stays on, and however
  often the restart is tried meanwhile, the calls up to and including the restart add at most one win,
  and they add it to one of the two players.\<close>

theorem result_counted_once:
  assumes "sized i x" "\<forall>c \<in> set cs. ARM9Read16 kSceneCurrentSceneIDAddr (snd c) = kResultsScene"
  shows "IN_Wins (match_state i (stay em cn i cs x))
    \<in> {IN_Wins (match_state i x), add_win 0 (IN_Wins (match_state i x)), add_win 1 (IN_Wins (match_state i x))}"
  using assms
proof (induction cs arbitrary: x)
  case (Cons c cs)
  obtain f n where c: "c = (f, n)"
    by force
  let ?x = "snd (snd (RestartAfterResultIfNeeded em cn i f (Some n) x))"
  have win: "add_win w v \<in> {add_win 0 v, add_win 1 v}" for w v
    by (simp add: add_win_def)
  from Cons.prems(1) show ?case
  proof (cases rule: restart_call [where em = em and cn = cn and f = f and nds = "Some n"])
    case kept
    then have "sized i ?x" "IN_Wins (match_state i ?x) = IN_Wins (match_state i x)"
      using Cons.prems(1) by (simp_all add: sheet_def sized_def)
    then show ?thesis
      using Cons.IH [of ?x] Cons.prems(2) kept(1) by (simp add: c case_prod_beta)
  next
    case (left m)
    then show ?thesis
      using Cons.prems(2) by (simp add: c)
  next
    case (counted w)
    then have "sized i ?x" "IN_ResultScored (match_state i ?x)" "IN_Wins (match_state i ?x) = add_win w (IN_Wins (match_state i x))"
      using Cons.prems(1) by (simp_all add: sheet_def sized_def)
    then have "IN_Wins (match_state i (stay em cn i cs ?x)) = add_win w (IN_Wins (match_state i x))"
      using stay_scored [of i ?x cs em cn] Cons.prems(2) by simp
    then show ?thesis
      using counted(3) win by (simp add: c case_prod_beta)
  next
    case (restarted wins)
    then have "wins \<in> {IN_Wins (match_state i x), add_win 0 (IN_Wins (match_state i x)), add_win 1 (IN_Wins (match_state i x))}"
      using win by blast
    moreover have "IN_Wins (match_state i ?x) = wins"
      using restarted(4) by (simp add: sheet_def)
    ultimately show ?thesis
      using restarted(1) by (simp add: c case_prod_beta)
  qed
qed simp

section \<open>The next game is the same on both sides\<close>

















section \<open>A match in the small\<close>

definition idle_console :: "'m NDS_scheme Console" where
  "idle_console = \<lparr>CN_HasCart = \<lambda>n. True, CN_Reset = \<lambda>n. n, CN_SetupDirectBoot = \<lambda>n. n, CN_Start = \<lambda>n. n, CN_MPBegin = \<lambda>n. n\<rparr>"

definition results_nds :: NDS where
  "results_nds = poke 0x3BD34 (u16_le 0x000A) (poke 0x8B36C (u32_le 5) sample_nds)"

definition sample_lifecycle :: LifecycleContext where
  "sample_lifecycle = \<lparr>LX_Mvl = MvlConfig_default\<lparr>MC_TargetWins := 3, MC_AutoRestartAfterResult := True,
       MC_RuntimeConfigEnabled := True, MC_MatchSeed := 77\<rparr>,
     LX_Connection = ConnectionConfig_default, LX_PacketBridge = PacketBridgeConfig_default, LX_Input = InputConfig_default,
     LX_RuntimePatch = RuntimePatchConfig_default, LX_Rollback = RollbackConfig_default,
     LX_Runtime = mark_instance 0 (\<lambda>s. s\<lparr>IN_InResult := True\<rparr>) MvlRuntime_init,
     LX_PacketBridgeRuntime = BridgeRuntime_init, LX_Handshake = HandshakeRuntime_init, LX_Delivery = DeliveryRuntime_init,
     LX_Inputs = TimelineRuntime_init, LX_Coordinator = Coordinator_init, LX_GameSync = StateSyncRuntime_init,
     LX_TraceLastWrittenFrame = replicate 16 0, LX_CurrentStage = 2, LX_CurrentStageSceneSettings = 0,
     LX_Host = True, LX_Client = False\<rparr>"

lemma full_sample: "full_ram sample_nds"
  by (simp add: full_ram_def sample_nds_def)

lemma full_results: "full_ram results_nds"
  by (simp add: results_nds_def poke_full full_sample)


lemma sample_sized: "sized 0 sample_lifecycle"
  by (simp add: sized_def valid_instance_def sample_lifecycle_def mark_instance_def MvlRuntime_init_def kInstanceCount_def)

lemma sample_state: "match_state 0 sample_lifecycle = InstanceState_default\<lparr>IN_InResult := True\<rparr>"
  by (simp add: sample_lifecycle_def mark_instance_def MvlRuntime_init_def kInstanceCount_def)

lemmas sample_state0 = sample_state [unfolded nat_0]

lemma results_scene: "ARM9Read16 kSceneCurrentSceneIDAddr results_nds = kResultsScene"
proof -
  have "kSceneCurrentSceneIDAddr = ram_addr 0x3BD34"
    by (simp add: kSceneCurrentSceneIDAddr_def)
  then have "ARM9Read16 kSceneCurrentSceneIDAddr results_nds = rd16 (main_ram results_nds) 0x3BD34"
    using ARM9Read16_ram [OF full_results, of "0x3BD34"] by simp
  then show ?thesis
    by (simp add: results_nds_def rd16_poke_same poke_full full_sample kResultsScene_def)
qed

lemma results_byte: "off < 0x400000 \<Longrightarrow> off \<notin> {0x3BD34, 0x3BD35, 0x8B36C, 0x8B36D, 0x8B36E, 0x8B36F} \<Longrightarrow> main_ram results_nds ! off = 7"
  by (auto simp: results_nds_def poke_nth poke_full full_sample) (simp add: sample_nds_def)

lemma results_winner: "ResolveResultWinner (ReadResultSnapshot c results_nds) = 1"
proof -
  have "player_dead 0 results_nds = 7" "player_dead 1 results_nds = 7"
    using ARM9Read8_ram [OF full_results, of "0x8B328"] ARM9Read8_ram [OF full_results, of "0x8B329"]
      results_byte [of "0x8B328"] results_byte [of "0x8B329"]
    by (simp_all add: player_dead_def kGamePlayerDeadAddr_def)
  moreover have "player_result kGamePlayerBattleStarsAddr 0 results_nds = 5"
    using ARM9Read32_ram [OF full_results, of "0x8B36C"]
    by (simp add: player_result_def kGamePlayerBattleStarsAddr_def results_nds_def rd32_poke_other rd32_poke_same poke_full full_sample outside_def)
  moreover have "player_result kGamePlayerBattleStarsAddr 1 results_nds = 0x07070707"
    using ARM9Read32_ram [OF full_results, of "0x8B370"] results_byte [of "0x8B370"] results_byte [of "0x8B371"]
      results_byte [of "0x8B372"] results_byte [of "0x8B373"]
    by (simp add: player_result_def kGamePlayerBattleStarsAddr_def rd32_def u32_of_bytes_def)
  ultimately show ?thesis
    by (simp add: ResolveResultWinner_def ReadResultSnapshot_def higherWins_def)
qed

abbreviation sample_restart :: "bool \<times> NDS option \<times> LifecycleContext" where
  "sample_restart \<equiv> RestartAfterResultIfNeeded idle_emulator idle_console 0 200 (Some results_nds) sample_lifecycle"

definition scored_sample :: LifecycleContext where
  "scored_sample = update_match 0 (\<lambda>s. s\<lparr>IN_Wins := add_win 1 (IN_Wins s), IN_ResultScored := True\<rparr>) sample_lifecycle"

lemma scored_state: "match_state 0 scored_sample = InstanceState_default\<lparr>IN_InResult := True, IN_Wins := (0, 1), IN_ResultScored := True\<rparr>"
  unfolding scored_sample_def match_update [OF sample_sized] sample_state
  by (simp add: InstanceState_default_def add_win_def)

lemmas scored_state0 = scored_state [unfolded nat_0]

lemma sample_scores: "score_result 0 200 results_nds sample_lifecycle = Inr scored_sample"
  by (simp add: score_result_def Let_def sample_state0 results_winner scored_sample_def InstanceState_default_def)

lemma idle_console_restarts: "valid_instance i \<Longrightarrow> fst (ResetConsoleForNextMatch idle_console i f seed n x)"
  by (simp add: ResetConsoleForNextMatch_def idle_console_def Let_def)

lemma idle_path:
  assumes "valid_instance i" "CK_Buffer (IN_BootstrapCheckpoint (match_state i x)) = []"
    "CK_Buffer (IN_GameplayCheckpoint (match_state i x)) = []"
  shows "fst (restart_path em idle_console i f stage seed n x) = 4"
  using assms idle_console_restarts [of i f seed n x]
  by (simp add: restart_path_def RestoreBootstrapCheckpoint_def Let_def case_prod_beta)

lemma idle_restarts:
  assumes "sized i x" "CK_Buffer (IN_BootstrapCheckpoint (match_state i x)) = []"
    "CK_Buffer (IN_GameplayCheckpoint (match_state i x)) = []"
  shows "fst (restart_match em idle_console i f n x)"
proof -
  have "valid_instance i"
    using assms(1) by (simp add: sized_def)
  then have "fst (restart_path em idle_console i f stage seed m
      ((next_game i x)\<lparr>LX_CurrentStage := a, LX_CurrentStageSceneSettings := b\<rparr>)) = 4" for stage seed m a b
    using assms by (intro idle_path) (simp_all add: next_game_sheet)
  note path = this
  obtain ok n' x' where r: "restart_match em idle_console i f n x = (ok, n', x')"
    by (metis prod.exhaust)
  show ?thesis
    by (rule restart_match_cases [OF r]) (use path r in \<open>metis fst_conv zero_neq_numeral\<close>)
qed

lemma sample_restarts: "fst sample_restart"
proof -
  have "sized 0 scored_sample"
    by (simp add: scored_sample_def sized_update sample_sized)
  then have "fst (restart_match idle_emulator idle_console 0 200 results_nds scored_sample)"
    by (rule idle_restarts) (simp_all add: scored_state0 InstanceState_default_def MvlCheckpoint_default_def)
  moreover have "LX_Mvl scored_sample = LX_Mvl sample_lifecycle"
    by (simp add: scored_sample_def keeps)
  ultimately have "fst (after_scoring idle_emulator idle_console 0 200 results_nds scored_sample)"
    by (simp add: after_scoring_def series_over_def scored_state0 InstanceState_default_def case_prod_beta)
      (simp add: sample_lifecycle_def MvlConfig_default_def)
  moreover have "MC_AutoRestartAfterResult (LX_Mvl sample_lifecycle)" "\<not> MC_TargetWins (LX_Mvl sample_lifecycle) < 1" "valid_instance 0"
    by (simp_all add: sample_lifecycle_def valid_instance_def)
  ultimately show ?thesis
    by (simp add: RestartAfterResultIfNeeded_def results_scene sample_state0 sample_scores InstanceState_default_def)
qed


theorem result_counted_once_witness:
  "IN_Wins (match_state 0 (stay idle_emulator idle_console 0 [(200, results_nds), (201, results_nds)] sample_lifecycle))
    \<in> {(0, 0), (1, 0), (0, 1)}"
  using result_counted_once [OF sample_sized, of "[(200, results_nds), (201, results_nds)]" idle_emulator idle_console]
  by (simp add: results_scene sample_state0 InstanceState_default_def add_win_def)

theorem series_length_bounded_witness:
  "IN_RestartCount (match_state 0 (snd (snd sample_restart))) \<le> 4"
proof -
  let ?x0 = "update_match 0 (\<lambda>s. s\<lparr>IN_InResult := False\<rparr>) sample_lifecycle"
  have "match_run 0 ?x0"
    using sample_sized match_update [OF sample_sized]
    by (intro match_run.start) (simp_all add: sample_state0 InstanceState_default_def sized_def update_match_def mark_instance_def)
  moreover have "sheet 0 sample_lifecycle = sheet 0 ?x0"
    by (simp add: sheet_update [OF sample_sized]) (use sample_sized in \<open>simp add: sheet_def sized_def\<close>)
  ultimately have "match_run 0 sample_lifecycle"
    by (rule match_run.other)
  then have run: "match_run 0 (snd (snd sample_restart))"
    by (rule match_run.frame)
  have "MC_TargetWins (LX_Mvl (snd (snd sample_restart))) = 3"
    using sample_sized
  proof (cases rule: restart_call [where em = idle_emulator and cn = idle_console and f = 200 and nds = "Some results_nds"])
    case (restarted wins)
    then show ?thesis
      by (simp add: sheet_def) (simp add: sample_lifecycle_def)
  qed (use sample_restarts in simp_all)
  then show ?thesis
    using series_length_bounded [OF run] by (simp add: valid_instance_def)
qed

end
