(* ===== verification/Object_Scan.thy ===== *)
theory Object_Scan
  imports State_Sync Machine_Memory
begin

text \<open>
  The search for objects in the game memory, \<^verbatim>\<open>NsmbGameStateReader.cpp\<close>: the header every object of
  the game starts with, the scan of the whole memory, the walk over the process lists, the cache built
  from that walk and the lookups that use either. The thread local pointer to the active cache is an
  argument, and a null machine is left out. An object sample is a record of its header and of its
  other words by member name. \<^verbatim>\<open>std::sort\<close> leaves the order of equal keys open; the model keeps them in
  the order they were found.
\<close>

unbundle bit_operations_syntax

section \<open>Samples\<close>

record ObjectScanSample =
  OS_Found :: u32
  OS_GUID :: u32
  OS_Base :: u32
  OS_Settings :: u32
  OS_StateType :: u32
  OS_Flags :: u32
  OS_Word :: "string \<Rightarrow> u32"

definition ObjectScanSample_default :: ObjectScanSample where
  "ObjectScanSample_default = \<lparr>OS_Found = 0, OS_GUID = 0, OS_Base = 0, OS_Settings = 0, OS_StateType = 0,
     OS_Flags = 0, OS_Word = (\<lambda>_. 0)\<rparr>"

type_synonym PlayerActorScanSample = "ObjectScanSample \<times> ObjectScanSample"
type_synonym ObjectPairScanSample = "ObjectScanSample \<times> ObjectScanSample"

definition kPlayerObjectID :: u16 where "kPlayerObjectID = 0x0015"
definition kVsBattleStarActorObjectID :: u16 where "kVsBattleStarActorObjectID = 0x0022"
definition kVsBattleStarActorSettings :: u32 where "kVsBattleStarActorSettings = 0x00000001"
definition kVsBattleStarCandidateObjectID :: u16 where "kVsBattleStarCandidateObjectID = 0x010C"
definition kNSMBProcessExecuteListAddr :: u32 where "kNSMBProcessExecuteListAddr = 0x0208FB18"
definition kNSMBProcessDeleteListAddr :: u32 where "kNSMBProcessDeleteListAddr = 0x0208FB28"
definition kNSMBProcessRenderListAddr :: u32 where "kNSMBProcessRenderListAddr = 0x0208FB38"
definition kNSMBProcessCreateListAddr :: u32 where "kNSMBProcessCreateListAddr = 0x0208FB48"
definition kNSMBProcessIDLookupListsAddr :: u32 where "kNSMBProcessIDLookupListsAddr = 0x0208FB58"
definition kObjectTraceSlots :: nat where "kObjectTraceSlots = 16"

section \<open>Reads with a bounds check\<close>

abbreviation ram_length :: "'m NDS_scheme \<Rightarrow> u32" where
  "ram_length n \<equiv> ND_MainRAMMask n + 1"

definition ReaderRangeValid :: "u32 \<Rightarrow> u32 \<Rightarrow> 'm NDS_scheme \<Rightarrow> bool" where
  "ReaderRangeValid address len n =
     (if ND_MainRAM n = None \<or> len = 0 \<or> address < 0x02000000 then False
      else
        let offset = address - 0x02000000
        in offset < ram_length n \<and> len \<le> ram_length n - offset)"

definition ReaderAddressU32 :: "u32 \<Rightarrow> 'm NDS_scheme \<Rightarrow> u32 option" where
  "ReaderAddressU32 address n =
     (if \<not> ReaderRangeValid address 4 n then None else Some (rd32 (main_ram n) (unat (address - 0x02000000))))"

definition ReaderAddressU16 :: "u32 \<Rightarrow> 'm NDS_scheme \<Rightarrow> u16 option" where
  "ReaderAddressU16 address n =
     (if \<not> ReaderRangeValid address 2 n then None else Some (rd16 (main_ram n) (unat (address - 0x02000000))))"

definition ReaderU32 :: "u32 \<Rightarrow> 'm NDS_scheme \<Rightarrow> u32 option" where
  "ReaderU32 offset n =
     (if ND_MainRAM n = None \<or> ND_MainRAMMask n < offset \<or> ram_length n - offset < 4 then None
      else Some (rd32 (main_ram n) (unat offset)))"

definition ReaderU16 :: "u32 \<Rightarrow> 'm NDS_scheme \<Rightarrow> u16 option" where
  "ReaderU16 offset n =
     (if ND_MainRAM n = None \<or> ND_MainRAMMask n < offset \<or> ram_length n - offset < 2 then None
      else Some (rd16 (main_ram n) (unat offset)))"

definition ReaderU8 :: "u32 \<Rightarrow> 'm NDS_scheme \<Rightarrow> u8 option" where
  "ReaderU8 offset n =
     (if ND_MainRAM n = None \<or> ND_MainRAMMask n < offset then None else Some (rd8 (main_ram n) (unat offset)))"

section \<open>One object\<close>

record ObjectHeader =
  OH_VTable :: u32
  OH_GUID :: u32
  OH_ObjectID :: u16
  OH_StateType :: u16
  OH_Flags :: u32

definition read_header :: "u32 \<Rightarrow> 'm NDS_scheme \<Rightarrow> ObjectHeader option" where
  "read_header off n =
     (case (ReaderU32 off n, ReaderU32 (off + 4) n, ReaderU16 (off + 0x0C) n, ReaderU16 (off + 0x0E) n,
            ReaderU32 (off + 0x10) n) of
        (Some vtable, Some guid, Some objectID, Some stateType, Some flags) \<Rightarrow>
          Some \<lparr>OH_VTable = vtable, OH_GUID = guid, OH_ObjectID = objectID, OH_StateType = stateType, OH_Flags = flags\<rparr>
      | _ \<Rightarrow> None)"

definition plausible :: "u32 \<Rightarrow> ObjectHeader \<Rightarrow> bool" where
  "plausible ramLen h \<longleftrightarrow> 0x02000000 \<le> OH_VTable h \<and> OH_VTable h < 0x02000000 + ramLen
     \<and> OH_GUID h \<noteq> 0 \<and> OH_GUID h < 0x10000"

definition strict_state :: "ObjectHeader \<Rightarrow> bool" where
  "strict_state h \<longleftrightarrow> (OH_StateType h = 1 \<or> OH_StateType h = 2 \<or> OH_StateType h = 3) \<and> OH_Flags h < 0x10000000"

definition transform_words :: "(u32 \<times> string) list" where
  "transform_words = [(0x60, ''PosX''), (0x64, ''PosY''), (0x68, ''PosZ''), (0x70, ''PrevX''), (0x74, ''PrevY''),
     (0x78, ''PrevZ''), (0x80, ''LastStepX''), (0x84, ''LastStepY''), (0x88, ''LastStepZ''), (0xB0, ''VelH''),
     (0xB4, ''TargetVelH''), (0xB8, ''AccelV''), (0xBC, ''TargetVelV''), (0xC0, ''AccelH''), (0xD0, ''VelX''),
     (0xD4, ''VelY''), (0xD8, ''VelZ''), (0xE0, ''TargetVelX''), (0xE4, ''TargetVelY''), (0xE8, ''TargetVelZ'')]"

definition ReadObjectTransform :: "u32 \<Rightarrow> 'm NDS_scheme \<Rightarrow> ObjectScanSample \<Rightarrow> ObjectScanSample" where
  "ReadObjectTransform off n s =
     s\<lparr>OS_Word := foldl (\<lambda>w (k, name). case ReaderU32 (off + k) n of None \<Rightarrow> w | Some v \<Rightarrow> w(name := v))
        (OS_Word s) transform_words\<rparr>"

definition scanned :: "u32 \<Rightarrow> u32 \<Rightarrow> ObjectHeader \<Rightarrow> 'm NDS_scheme \<Rightarrow> ObjectScanSample" where
  "scanned off settings h n = ReadObjectTransform off n
     \<lparr>OS_Found = 1, OS_GUID = OH_GUID h, OS_Base = 0x02000000 + off, OS_Settings = settings,
      OS_StateType = ucast (OH_StateType h), OS_Flags = OH_Flags h, OS_Word = (\<lambda>_. 0)\<rparr>"

text \<open>The body of the scanning loops; \<open>None\<close> is \<^verbatim>\<open>continue\<close>. In the first form the settings are part of
  the condition, in the second they are read afterwards.\<close>

definition candidate :: "(ObjectHeader \<Rightarrow> u32 \<Rightarrow> bool) \<Rightarrow> 'm NDS_scheme \<Rightarrow> u32 \<Rightarrow> ObjectScanSample option" where
  "candidate want n off =
     (case (read_header off n, ReaderU32 (off + 8) n) of
        (Some h, Some settings) \<Rightarrow>
          if plausible (ram_length n) h \<and> want h settings then Some (scanned off settings h n) else None
      | _ \<Rightarrow> None)"

definition candidate_any :: "(ObjectHeader \<Rightarrow> bool) \<Rightarrow> 'm NDS_scheme \<Rightarrow> u32 \<Rightarrow> ObjectScanSample option" where
  "candidate_any want n off =
     (case read_header off n of
        None \<Rightarrow> None
      | Some h \<Rightarrow>
          if plausible (ram_length n) h \<and> want h
          then Some (scanned off (case ReaderU32 (off + 8) n of None \<Rightarrow> 0 | Some settings \<Rightarrow> settings) h n) else None)"

definition scan_offsets :: "u32 \<Rightarrow> 'm NDS_scheme \<Rightarrow> u32 list" where
  "scan_offsets span n =
     (if ram_length n < span then []
      else map (\<lambda>k. of_nat (4 * k)) [0 ..< Suc (unat (ram_length n - span) div 4)])"

fun first_found :: "('a \<Rightarrow> ObjectScanSample option) \<Rightarrow> 'a list \<Rightarrow> ObjectScanSample" where
  "first_found f [] = ObjectScanSample_default"
| "first_found f (x # xs) = (case f x of None \<Rightarrow> first_found f xs | Some s \<Rightarrow> s)"

section \<open>The cache\<close>

record GameStateObjectScanEntry =
  CE_Actor :: ObjectScanSample
  CE_Offset :: u32
  CE_VTable :: u32
  CE_ObjectID :: u16
  CE_LifecycleState :: u8
  CE_Type :: u8
  CE_SkipFlags :: u8

record ObjectLifecycleSummary =
  LS_Total :: u32
  LS_NotCreated :: u32
  LS_Active :: u32
  LS_Dead :: u32
  LS_SkipUpdate :: u32
  LS_SkipRender :: u32
  LS_FirstNotCreatedID :: u32
  LS_FirstNotCreatedBase :: u32
  LS_FirstNotCreatedFlags :: u32
  LS_SecondNotCreatedID :: u32
  LS_SecondNotCreatedBase :: u32
  LS_SecondNotCreatedFlags :: u32
  LS_ActiveID :: "u32 list"
  LS_ActiveSettings :: "u32 list"
  LS_ActiveBase :: "u32 list"

definition ObjectLifecycleSummary_default :: ObjectLifecycleSummary where
  "ObjectLifecycleSummary_default = \<lparr>LS_Total = 0, LS_NotCreated = 0, LS_Active = 0, LS_Dead = 0, LS_SkipUpdate = 0,
     LS_SkipRender = 0, LS_FirstNotCreatedID = 0, LS_FirstNotCreatedBase = 0, LS_FirstNotCreatedFlags = 0,
     LS_SecondNotCreatedID = 0, LS_SecondNotCreatedBase = 0, LS_SecondNotCreatedFlags = 0,
     LS_ActiveID = replicate kObjectTraceSlots 0, LS_ActiveSettings = replicate kObjectTraceSlots 0,
     LS_ActiveBase = replicate kObjectTraceSlots 0\<rparr>"

record GameStateObjectScanCache =
  OC_Entries :: "GameStateObjectScanEntry list"
  OC_Lifecycle :: ObjectLifecycleSummary

definition GameStateObjectScanCache_default :: GameStateObjectScanCache where
  "GameStateObjectScanCache_default = \<lparr>OC_Entries = [], OC_Lifecycle = ObjectLifecycleSummary_default\<rparr>"

definition IsCachedObjectStrict :: "GameStateObjectScanEntry \<Rightarrow> bool" where
  "IsCachedObjectStrict entry \<longleftrightarrow>
     (OS_StateType (CE_Actor entry) = 1 \<or> OS_StateType (CE_Actor entry) = 2 \<or> OS_StateType (CE_Actor entry) = 3)
     \<and> OS_Flags (CE_Actor entry) < 0x10000000"

definition FindCachedObject :: "GameStateObjectScanCache \<Rightarrow> u16 \<Rightarrow> bool \<Rightarrow> u32 \<Rightarrow> bool \<Rightarrow> ObjectScanSample" where
  "FindCachedObject cache expectedObjectID matchSettings expectedSettings strict =
     first_found (\<lambda>entry.
       if CE_ObjectID entry \<noteq> expectedObjectID then None
       else if matchSettings \<and> OS_Settings (CE_Actor entry) \<noteq> expectedSettings then None
       else if strict \<and> \<not> IsCachedObjectStrict entry then None
       else Some (CE_Actor entry)) (OC_Entries cache)"

definition FindCachedObjectBaseByID :: "GameStateObjectScanCache \<Rightarrow> u16 \<Rightarrow> u32" where
  "FindCachedObjectBaseByID cache objectID =
     OS_Base (first_found (\<lambda>entry.
       if CE_Offset entry < 0x080000 \<or> CE_ObjectID entry \<noteq> objectID then None
       else if OS_StateType (CE_Actor entry) = 0 \<or> 2 < OS_StateType (CE_Actor entry) then None
       else if OS_Flags (CE_Actor entry) AND 0xFFFF0000 = 0 then None
       else Some (CE_Actor entry)) (OC_Entries cache))"

text \<open>One counted object; \<^verbatim>\<open>AddGameStateProcessObject\<close> and \<^verbatim>\<open>SummarizeObjectLifecycle\<close> count the same way.\<close>

definition count_state :: "u8 \<Rightarrow> u8 \<Rightarrow> u8 \<Rightarrow> u32 \<Rightarrow> u32 \<Rightarrow> u32 \<Rightarrow> ObjectLifecycleSummary \<Rightarrow> ObjectLifecycleSummary" where
  "count_state state ty skipFlags objectID settings base s =
     (if state = 0 then
        let s1 = s\<lparr>LS_NotCreated := LS_NotCreated s + 1\<rparr>;
            flags = push_bit 16 (ucast ty) OR push_bit 24 (ucast skipFlags)
        in if LS_FirstNotCreatedBase s1 = 0
           then s1\<lparr>LS_FirstNotCreatedID := objectID, LS_FirstNotCreatedBase := base, LS_FirstNotCreatedFlags := flags\<rparr>
           else if LS_SecondNotCreatedBase s1 = 0
           then s1\<lparr>LS_SecondNotCreatedID := objectID, LS_SecondNotCreatedBase := base, LS_SecondNotCreatedFlags := flags\<rparr>
           else s1
      else if state = 1 then
        let index = unat (LS_Active s);
            s1 = (if index < kObjectTraceSlots
                  then s\<lparr>LS_ActiveID := (LS_ActiveID s)[index := objectID],
                         LS_ActiveSettings := (LS_ActiveSettings s)[index := settings],
                         LS_ActiveBase := (LS_ActiveBase s)[index := base]\<rparr>
                  else s)
        in s1\<lparr>LS_Active := LS_Active s1 + 1\<rparr>
      else s\<lparr>LS_Dead := LS_Dead s + 1\<rparr>)"

definition count_object :: "u8 \<Rightarrow> u8 \<Rightarrow> u8 \<Rightarrow> u32 \<Rightarrow> u32 \<Rightarrow> u32 \<Rightarrow> ObjectLifecycleSummary \<Rightarrow> ObjectLifecycleSummary" where
  "count_object state ty skipFlags objectID settings base s =
     (if 2 < state \<or> 2 < ty then s
      else
        let s1 = count_state state ty skipFlags objectID settings base (s\<lparr>LS_Total := LS_Total s + 1\<rparr>);
            s2 = (if skipFlags AND 0x02 \<noteq> 0 then s1\<lparr>LS_SkipUpdate := LS_SkipUpdate s1 + 1\<rparr> else s1)
        in if skipFlags AND 0x08 \<noteq> 0 then s2\<lparr>LS_SkipRender := LS_SkipRender s2 + 1\<rparr> else s2)"

text \<open>The words kept for the actors 83 (Goomba), 94 (Koopa) and 31 (item).\<close>

definition code_pointer :: "u32 \<Rightarrow> 'm NDS_scheme \<Rightarrow> u32 option" where
  "code_pointer address n =
     (case ReaderAddressU32 address n of
        None \<Rightarrow> None
      | Some function \<Rightarrow> if ReaderRangeValid (function AND NOT 1) 4 n then Some function else None)"

definition update_words :: "u16 \<Rightarrow> u32 \<Rightarrow> 'm NDS_scheme \<Rightarrow> (string \<Rightarrow> u32) \<Rightarrow> string \<Rightarrow> u32" where
  "update_words objectID base n w =
     (if (objectID = 83 \<or> objectID = 94) \<and> ReaderRangeValid base 0x344 n
      then (case ReaderAddressU32 (base + 0x340) n of
              None \<Rightarrow> w
            | Some updateState \<Rightarrow> w(''EntityUpdateStateFound'' := 1, ''EntityUpdateStateRaw'' := updateState))
      else w)"

definition goomba_words :: "u16 \<Rightarrow> u32 \<Rightarrow> 'm NDS_scheme \<Rightarrow> (string \<Rightarrow> u32) \<Rightarrow> string \<Rightarrow> u32" where
  "goomba_words objectID base n w =
     (if objectID = 83 \<and> ReaderRangeValid base 0x3FC n
      then (case code_pointer (base + 0x3F4) n of
              None \<Rightarrow> w
            | Some function \<Rightarrow> w(''GoombaBehaviorFunctionRaw'' := function))
      else w)"

definition contact_words :: "u16 \<Rightarrow> u32 \<Rightarrow> 'm NDS_scheme \<Rightarrow> (string \<Rightarrow> u32) \<Rightarrow> string \<Rightarrow> u32" where
  "contact_words objectID base n w =
     (if (objectID = 83 \<or> objectID = 94) \<and> ReaderRangeValid base 0x3F2 n \<and> ReaderRangeValid 0x020CA290 1 n
      then w(''NpcCollidedGroupsRaw'' := ucast (ARM9Read16 (base + 0x1C0) n),
             ''NpcPlayerContactXRaw'' := ARM9Read32 (base + 0x15C) n,
             ''NpcPlayerContactYRaw'' := ARM9Read32 (base + 0x184) n,
             ''NpcContactPlayerRaw'' := ucast (ARM9Read8 (base + 0x1C7) n),
             ''NpcStompTriggerRaw'' := ucast (ARM9Read8 (base + 0x3EC) n),
             ''NpcStompSpecialRaw'' := ucast (ARM9Read8 (base + 0x3F1) n),
             ''NpcStompGraceRaw'' := ucast (ARM9Read8 0x020CA290 n),
             ''NpcColliderCenterXRaw'' := ARM9Read32 (base + 0x134) n,
             ''NpcColliderCenterYRaw'' := ARM9Read32 (base + 0x138) n,
             ''NpcColliderHalfWidthRaw'' := ARM9Read32 (base + 0x13C) n,
             ''NpcColliderHalfHeightRaw'' := ARM9Read32 (base + 0x140) n,
             ''NpcContactFound'' := 1)
      else w)"

definition item_words :: "u16 \<Rightarrow> u32 \<Rightarrow> 'm NDS_scheme \<Rightarrow> (string \<Rightarrow> u32) \<Rightarrow> string \<Rightarrow> u32" where
  "item_words objectID base n w =
     (if objectID = 31 \<and> ReaderRangeValid base 0x5CE n
      then (case code_pointer (base + 0x53C) n of
              None \<Rightarrow> w
            | Some function \<Rightarrow>
                w(''ItemBehaviorFunctionRaw'' := function, ''ItemBehaviorStepRaw'' := ucast (ARM9Read8 (base + 0x5CD) n),
                  ''ItemDirectionRaw'' := ucast (ARM9Read8 (base + 0x2BD) n),
                  ''ItemEmergenceTargetYRaw'' := ARM9Read32 (base + 0x568) n,
                  ''ItemKindRaw'' := ucast (ARM9Read16 (base + 0x5A0) n),
                  ''ItemRollingSuppressedRaw'' := ucast (ARM9Read8 (base + 0x5C2) n)))
      else w)"

definition koopa_words :: "u16 \<Rightarrow> u32 \<Rightarrow> 'm NDS_scheme \<Rightarrow> (string \<Rightarrow> u32) \<Rightarrow> string \<Rightarrow> u32" where
  "koopa_words objectID base n w =
     (if objectID = 94 \<and> ReaderRangeValid base 0x474 n
      then (case code_pointer (base + 0x40C) n of
              None \<Rightarrow> w
            | Some function \<Rightarrow>
                w(''KoopaBehaviorFunctionRaw'' := function, ''KoopaBehaviorStepRaw'' := ucast (ARM9Read8 (base + 0x473) n),
                  ''KoopaShellModeRaw'' := ucast (ARM9Read8 (base + 0x471) n),
                  ''KoopaDirectionRaw'' := ucast (ARM9Read8 (base + 0x2BD) n),
                  ''KoopaCollisionRaw'' := ARM9Read32 (base + 0x24C) n))
      else w)"

definition actor_words :: "u16 \<Rightarrow> u32 \<Rightarrow> 'm NDS_scheme \<Rightarrow> (string \<Rightarrow> u32) \<Rightarrow> string \<Rightarrow> u32" where
  "actor_words objectID base n w =
     koopa_words objectID base n (item_words objectID base n (contact_words objectID base n
       (goomba_words objectID base n (update_words objectID base n w))))"

text \<open>The entry of an object that is in a process list, \<open>None\<close> where \<^verbatim>\<open>AddGameStateProcessObject\<close> gives up.\<close>

definition process_entry :: "u32 \<Rightarrow> 'm NDS_scheme \<Rightarrow> GameStateObjectScanEntry option" where
  "process_entry base n =
     (case (ReaderAddressU32 base n, ReaderAddressU32 (base + 4) n, ReaderAddressU32 (base + 8) n,
            ReaderAddressU16 (base + 0x0C) n, ReaderAddressU16 (base + 0x0E) n) of
        (Some vtable, Some guid, Some settings, Some objectID, Some stateType) \<Rightarrow>
          let offset = base - 0x02000000;
              flags = rd32 (main_ram n) (unat offset + 0x10);
              h = \<lparr>OH_VTable = vtable, OH_GUID = guid, OH_ObjectID = objectID, OH_StateType = stateType, OH_Flags = flags\<rparr>;
              actor = ReadObjectTransform offset n
                \<lparr>OS_Found = 1, OS_GUID = guid, OS_Base = base, OS_Settings = settings,
                 OS_StateType = ucast stateType, OS_Flags = flags, OS_Word = (\<lambda>_. 0)\<rparr>
          in if \<not> plausible (ram_length n) h \<or> objectID = 0 \<or> 0x400 \<le> objectID then None
             else Some \<lparr>CE_Actor = actor\<lparr>OS_Word := actor_words objectID base n (OS_Word actor)\<rparr>,
               CE_Offset = offset, CE_VTable = vtable, CE_ObjectID = objectID,
               CE_LifecycleState = rd8 (main_ram n) (unat offset + 0x0E),
               CE_Type = rd8 (main_ram n) (unat offset + 0x12), CE_SkipFlags = rd8 (main_ram n) (unat offset + 0x13)\<rparr>
      | _ \<Rightarrow> None)"

definition AddGameStateProcessObject ::
  "'m NDS_scheme \<Rightarrow> GameStateObjectScanCache \<times> u32 set \<Rightarrow> u32 \<Rightarrow> GameStateObjectScanCache \<times> u32 set" where
  "AddGameStateProcessObject n state base =
     (let (cache, seenBases) = state in
      if \<not> ReaderRangeValid base 0x120 n \<or> base \<in> seenBases then (cache, seenBases)
      else
        (case process_entry base n of
           None \<Rightarrow> (cache, insert base seenBases)
         | Some entry \<Rightarrow>
             (cache\<lparr>OC_Entries := OC_Entries cache @ [entry],
                OC_Lifecycle := count_object (CE_LifecycleState entry) (CE_Type entry) (CE_SkipFlags entry)
                  (ucast (CE_ObjectID entry)) (OS_Settings (CE_Actor entry)) base (OC_Lifecycle cache)\<rparr>,
              insert base seenBases)))"

section \<open>The process lists\<close>

text \<open>The objects of a list in the order the loop visits its nodes: at most 512 nodes, none twice.\<close>

fun node_bases :: "nat \<Rightarrow> u32 \<Rightarrow> u32 set \<Rightarrow> 'm NDS_scheme \<Rightarrow> u32 list" where
  "node_bases 0 node seenNodes n = []"
| "node_bases (Suc k) node seenNodes n =
     (if \<not> ReaderRangeValid node 0x0C n \<or> node \<in> seenNodes then []
      else
        let next = (case ReaderAddressU32 (node + 0x04) n of None \<Rightarrow> 0 | Some v \<Rightarrow> v);
            base = (case ReaderAddressU32 (node + 0x08) n of None \<Rightarrow> 0 | Some v \<Rightarrow> v)
        in base # node_bases k next (insert node seenNodes) n)"

definition list_bases :: "u32 \<Rightarrow> 'm NDS_scheme \<Rightarrow> u32 list" where
  "list_bases listAddress n =
     (case ReaderAddressU32 listAddress n of None \<Rightarrow> [] | Some node \<Rightarrow> node_bases 512 node {} n)"

definition process_lists :: "u32 list" where
  "process_lists = [kNSMBProcessExecuteListAddr, kNSMBProcessDeleteListAddr, kNSMBProcessRenderListAddr,
     kNSMBProcessCreateListAddr] @ map (\<lambda>i. kNSMBProcessIDLookupListsAddr + of_nat (i * 8)) [0 ..< 8]"

definition AddGameStateProcessList ::
  "'m NDS_scheme \<Rightarrow> GameStateObjectScanCache \<times> u32 set \<Rightarrow> u32 \<Rightarrow> GameStateObjectScanCache \<times> u32 set" where
  "AddGameStateProcessList n state listAddress = foldl (AddGameStateProcessObject n) state (list_bases listAddress n)"

definition BuildGameStateObjectScanCache :: "'m NDS_scheme \<Rightarrow> GameStateObjectScanCache" where
  "BuildGameStateObjectScanCache n =
     (if ND_MainRAM n = None then GameStateObjectScanCache_default
      else fst (foldl (AddGameStateProcessList n) (GameStateObjectScanCache_default, {}) process_lists))"

section \<open>Lookups\<close>

definition FindObjectBaseByID :: "GameStateObjectScanCache option \<Rightarrow> u16 \<Rightarrow> 'm NDS_scheme \<Rightarrow> u32" where
  "FindObjectBaseByID active objectID n =
     (if ND_MainRAM n = None then 0
      else
        (case active of
           Some cache \<Rightarrow> FindCachedObjectBaseByID cache objectID
         | None \<Rightarrow>
             OS_Base (first_found (\<lambda>off.
               case read_header off n of
                 None \<Rightarrow> None
               | Some h \<Rightarrow>
                   if OH_ObjectID h \<noteq> objectID \<or> OH_StateType h = 0 \<or> 2 < OH_StateType h then None
                   else if OH_VTable h < 0x02000000 \<or> 0x02400000 \<le> OH_VTable h then None
                   else if OH_Flags h AND 0xFFFF0000 = 0 then None
                   else Some (ObjectScanSample_default\<lparr>OS_Base := 0x02000000 + off\<rparr>))
               (filter (\<lambda>off. 0x080000 \<le> off) (scan_offsets 0x80 n)))))"

definition FindVsBattleStarCandidate :: "GameStateObjectScanCache option \<Rightarrow> 'm NDS_scheme \<Rightarrow> ObjectScanSample" where
  "FindVsBattleStarCandidate active n =
     (if ND_MainRAM n = None then ObjectScanSample_default
      else
        (case active of
           Some cache \<Rightarrow> FindCachedObject cache kVsBattleStarCandidateObjectID False 0 True
         | None \<Rightarrow> first_found (candidate_any (\<lambda>h. OH_ObjectID h = kVsBattleStarCandidateObjectID \<and> strict_state h) n)
                     (scan_offsets 0x120 n)))"

definition FindObjectByIDAndSettings ::
  "GameStateObjectScanCache option \<Rightarrow> u16 \<Rightarrow> u32 \<Rightarrow> 'm NDS_scheme \<Rightarrow> ObjectScanSample" where
  "FindObjectByIDAndSettings active expectedObjectID expectedSettings n =
     (if ND_MainRAM n = None then ObjectScanSample_default
      else
        (case active of
           Some cache \<Rightarrow> FindCachedObject cache expectedObjectID True expectedSettings True
         | None \<Rightarrow> first_found (candidate (\<lambda>h settings.
                       OH_ObjectID h = expectedObjectID \<and> settings = expectedSettings \<and> strict_state h) n)
                     (scan_offsets 0x120 n)))"

definition FindObjectByID :: "GameStateObjectScanCache option \<Rightarrow> u16 \<Rightarrow> 'm NDS_scheme \<Rightarrow> ObjectScanSample" where
  "FindObjectByID active expectedObjectID n =
     (if ND_MainRAM n = None then ObjectScanSample_default
      else
        (case active of
           Some cache \<Rightarrow> FindCachedObject cache expectedObjectID False 0 True
         | None \<Rightarrow> first_found (candidate (\<lambda>h settings. OH_ObjectID h = expectedObjectID \<and> strict_state h) n)
                     (scan_offsets 0x120 n)))"

definition FindObjectByIDAndSettingsLoose ::
  "GameStateObjectScanCache option \<Rightarrow> u16 \<Rightarrow> u32 \<Rightarrow> 'm NDS_scheme \<Rightarrow> ObjectScanSample" where
  "FindObjectByIDAndSettingsLoose active expectedObjectID expectedSettings n =
     (if ND_MainRAM n = None then ObjectScanSample_default
      else
        (case active of
           Some cache \<Rightarrow> FindCachedObject cache expectedObjectID True expectedSettings False
         | None \<Rightarrow> first_found (candidate (\<lambda>h settings. OH_ObjectID h = expectedObjectID \<and> settings = expectedSettings) n)
                     (scan_offsets 0x120 n)))"

text \<open>The two objects furthest to the left, and the two players with the lowest identifiers.\<close>

definition left_of :: "ObjectScanSample \<Rightarrow> ObjectScanSample \<Rightarrow> bool" where
  "left_of a b \<longleftrightarrow> OS_Word a ''PosX'' < OS_Word b ''PosX''
     \<or> OS_Word a ''PosX'' = OS_Word b ''PosX'' \<and> OS_GUID a < OS_GUID b"

definition InsertObjectByPosX :: "ObjectPairScanSample \<Rightarrow> ObjectScanSample \<Rightarrow> ObjectPairScanSample" where
  "InsertObjectByPosX p actor =
     (let (l, r) = p in
      if OS_Found actor = 0 then (l, r)
      else if OS_Found l = 0 \<or> left_of actor l then (actor, l)
      else if (OS_Found r = 0 \<or> left_of actor r) \<and> OS_GUID actor \<noteq> OS_GUID l then (l, actor)
      else (l, r))"

definition FindObjectPairByIDSortedX :: "GameStateObjectScanCache option \<Rightarrow> u16 \<Rightarrow> 'm NDS_scheme \<Rightarrow> ObjectPairScanSample" where
  "FindObjectPairByIDSortedX active expectedObjectID n =
     (let none = (ObjectScanSample_default, ObjectScanSample_default) in
      if ND_MainRAM n = None then none
      else
        (case active of
           Some cache \<Rightarrow> foldl InsertObjectByPosX none (map CE_Actor
             (filter (\<lambda>entry. CE_ObjectID entry = expectedObjectID \<and> OS_Flags (CE_Actor entry) < 0x10000000) (OC_Entries cache)))
         | None \<Rightarrow> foldl InsertObjectByPosX none (List.map_filter
             (candidate (\<lambda>h settings. OH_ObjectID h = expectedObjectID \<and> OH_Flags h < 0x10000000) n) (scan_offsets 0x120 n))))"

definition InsertPlayerActorByGUID :: "PlayerActorScanSample \<Rightarrow> ObjectScanSample \<Rightarrow> PlayerActorScanSample" where
  "InsertPlayerActorByGUID players actor =
     (let (actor0, actor1) = players in
      if OS_Found actor = 0 then (actor0, actor1)
      else if OS_Found actor0 = 0 \<or> OS_GUID actor < OS_GUID actor0 then (actor, actor0)
      else if (OS_Found actor1 = 0 \<or> OS_GUID actor < OS_GUID actor1) \<and> OS_GUID actor \<noteq> OS_GUID actor0 then (actor0, actor)
      else (actor0, actor1))"

definition player_candidates :: "GameStateObjectScanCache option \<Rightarrow> 'm NDS_scheme \<Rightarrow> ObjectScanSample list" where
  "player_candidates active n =
     (case active of
        Some cache \<Rightarrow> map CE_Actor (filter (\<lambda>entry. CE_ObjectID entry = kPlayerObjectID \<and> IsCachedObjectStrict entry) (OC_Entries cache))
      | None \<Rightarrow> List.map_filter (candidate_any (\<lambda>h. OH_ObjectID h = kPlayerObjectID \<and> strict_state h) n) (scan_offsets 0x120 n))"

definition FindPlayerActors :: "GameStateObjectScanCache option \<Rightarrow> 'm NDS_scheme \<Rightarrow> PlayerActorScanSample" where
  "FindPlayerActors active n =
     (let none = (ObjectScanSample_default, ObjectScanSample_default) in
      if ND_MainRAM n = None then none else foldl InsertPlayerActorByGUID none (player_candidates active n))"

text \<open>An object at a known base; the players keep theirs between frames.\<close>

definition read_at_base :: "u32 \<Rightarrow> (ObjectHeader \<Rightarrow> u32 \<Rightarrow> bool) \<Rightarrow> u32 \<Rightarrow> 'm NDS_scheme \<Rightarrow> ObjectScanSample option" where
  "read_at_base expectedGUID want base n =
     (if ND_MainRAM n = None \<or> base < 0x02000000 then None
      else
        let off = base - 0x02000000
        in if ram_length n < off + 0x120 then None
           else candidate (\<lambda>h settings. (expectedGUID = 0 \<or> OH_GUID h = expectedGUID) \<and> want h settings \<and> strict_state h) n off)"

definition ReadPlayerActorByBase :: "u32 \<Rightarrow> u32 \<Rightarrow> 'm NDS_scheme \<Rightarrow> ObjectScanSample option" where
  "ReadPlayerActorByBase base expectedGUID n = read_at_base expectedGUID (\<lambda>h settings. OH_ObjectID h = kPlayerObjectID) base n"

definition ReadObjectByBase :: "u32 \<Rightarrow> u32 \<Rightarrow> u16 \<Rightarrow> u32 \<Rightarrow> 'm NDS_scheme \<Rightarrow> ObjectScanSample option" where
  "ReadObjectByBase base expectedGUID expectedObjectID expectedSettings n =
     read_at_base expectedGUID (\<lambda>h settings. OH_ObjectID h = expectedObjectID \<and> settings = expectedSettings) base n"

definition GetPlayerActorCached ::
  "GameStateObjectScanCache option \<Rightarrow> int \<Rightarrow> int \<Rightarrow> 'm NDS_scheme \<Rightarrow> StateSyncRuntime \<Rightarrow> ObjectScanSample \<times> StateSyncRuntime" where
  "GetPlayerActorCached active instanceID player n s =
     (if \<not> sync_instance instanceID \<or> player < 0 \<or> 1 < player then (ObjectScanSample_default, s)
      else
        let pick = (\<lambda>p. if player = 0 then fst p else snd p);
            put = (\<lambda>v p. if player = 0 then (v, snd p) else (fst p, v));
            cachedBase = pick (SS_PlayerActorBaseCache s ! nat instanceID);
            cachedGUID = pick (SS_PlayerActorGUIDCache s ! nat instanceID);
            known = (if cachedBase = 0 then None else ReadPlayerActorByBase cachedBase cachedGUID n)
        in (case known of
              Some actor \<Rightarrow> (actor, s)
            | None \<Rightarrow>
                let actor = (if player = 0 then fst (FindPlayerActors active n) else snd (FindPlayerActors active n))
                in (actor, s\<lparr>SS_PlayerActorBaseCache := (SS_PlayerActorBaseCache s)[nat instanceID :=
                                put (if OS_Found actor \<noteq> 0 then OS_Base actor else 0) (SS_PlayerActorBaseCache s ! nat instanceID)],
                             SS_PlayerActorGUIDCache := (SS_PlayerActorGUIDCache s)[nat instanceID :=
                                put (if OS_Found actor \<noteq> 0 then OS_GUID actor else 0) (SS_PlayerActorGUIDCache s ! nat instanceID)]\<rparr>)))"

text \<open>The active objects of one kind, from the process lists.\<close>

definition take_active ::
  "u16 \<Rightarrow> u32 \<Rightarrow> bool \<Rightarrow> 'm NDS_scheme \<Rightarrow> ObjectScanSample list \<times> u32 set \<Rightarrow> u32 \<Rightarrow> ObjectScanSample list \<times> u32 set" where
  "take_active expectedObjectID expectedSettings includeStateType2 n state base =
     (let (actors, seenBases) = state in
      if base \<in> seenBases then (actors, seenBases)
      else
        (case ReadObjectByBase base 0 expectedObjectID expectedSettings n of
           None \<Rightarrow> (actors, insert base seenBases)
         | Some actor \<Rightarrow>
             (if OS_StateType actor = 1 \<or> includeStateType2 \<and> OS_StateType actor = 2 then actors @ [actor] else actors,
              insert base seenBases)))"

definition FindActiveObjectsByIDAndSettings :: "u16 \<Rightarrow> u32 \<Rightarrow> bool \<Rightarrow> 'm NDS_scheme \<Rightarrow> ObjectScanSample list" where
  "FindActiveObjectsByIDAndSettings expectedObjectID expectedSettings includeStateType2 n =
     (if ND_MainRAM n = None then []
      else sort_key OS_GUID (fst (foldl (take_active expectedObjectID expectedSettings includeStateType2 n) ([], {})
             (concat (map (\<lambda>l. list_bases l n) process_lists)))))"

definition FindNewestActiveObjectByIDAndSettings :: "u16 \<Rightarrow> u32 \<Rightarrow> bool \<Rightarrow> 'm NDS_scheme \<Rightarrow> ObjectScanSample" where
  "FindNewestActiveObjectByIDAndSettings expectedObjectID expectedSettings includeStateType2 n =
     (let actors = FindActiveObjectsByIDAndSettings expectedObjectID expectedSettings includeStateType2 n
      in if actors = [] then ObjectScanSample_default else last actors)"

definition lifecycle_object :: "'m NDS_scheme \<Rightarrow> ObjectLifecycleSummary \<Rightarrow> u32 \<Rightarrow> ObjectLifecycleSummary" where
  "lifecycle_object n s off =
     (case (ReaderU32 off n, ReaderU32 (off + 4) n, ReaderU32 (off + 8) n, ReaderU16 (off + 0x0C) n,
            ReaderU8 (off + 0x0E) n, ReaderU8 (off + 0x12) n, ReaderU8 (off + 0x13) n) of
        (Some vtable, Some guid, Some settings, Some objectID, Some state, Some ty, Some skipFlags) \<Rightarrow>
          if vtable < 0x02000000 \<or> 0x02000000 + ram_length n \<le> vtable \<or> guid = 0 \<or> 0x10000 \<le> guid
             \<or> objectID = 0 \<or> 0x400 \<le> objectID then s
          else count_object state ty skipFlags (ucast objectID) settings (0x02000000 + off) s
      | _ \<Rightarrow> s)"

definition SummarizeObjectLifecycle :: "GameStateObjectScanCache option \<Rightarrow> 'm NDS_scheme \<Rightarrow> ObjectLifecycleSummary" where
  "SummarizeObjectLifecycle active n =
     (if ND_MainRAM n = None then ObjectLifecycleSummary_default
      else (case active of
              Some cache \<Rightarrow> OC_Lifecycle cache
            | None \<Rightarrow> foldl (lifecycle_object n) ObjectLifecycleSummary_default (scan_offsets 0x5C n)))"

section \<open>The two players\<close>

abbreviation found :: "ObjectScanSample \<Rightarrow> bool" where
  "found a \<equiv> OS_Found a \<noteq> 0"

definition lowest_two :: "ObjectScanSample list \<Rightarrow> PlayerActorScanSample \<Rightarrow> bool" where
  "lowest_two xs p \<longleftrightarrow>
     map OS_GUID (filter found [fst p, snd p]) = take 2 (sorted_list_of_set (OS_GUID ` set (filter found xs)))
     \<and> (found (snd p) \<longrightarrow> found (fst p))
     \<and> (\<forall>a \<in> {fst p, snd p}. found a \<longrightarrow> a \<in> set xs)"

lemma insert_lowest_two:
  assumes "lowest_two xs p"
  shows "lowest_two (xs @ [a]) (InsertPlayerActorByGUID p a)"
proof (cases "found a")
  case True
  let ?ids = "OS_GUID ` set (filter found xs)"
  let ?zs = "sorted_list_of_set ?ids"
  obtain a0 a1 where p: "p = (a0, a1)"
    by force
  have ids: "OS_GUID ` set (filter found (xs @ [a])) = insert (OS_GUID a) ?ids"
    using True by auto
  have zs: "sorted ?zs" "distinct ?zs" "set ?zs = ?ids"
    by simp_all
  have sorted: "sorted_list_of_set (insert (OS_GUID a) ?ids) = (if OS_GUID a \<in> ?ids then ?zs else insort (OS_GUID a) ?zs)"
    by (cases "OS_GUID a \<in> ?ids") (simp_all only: insert_absorb if_True if_False, simp)
  have inv: "map OS_GUID (filter found [a0, a1]) = take 2 ?zs" "found a1 \<longrightarrow> found a0"
    "found a0 \<longrightarrow> a0 \<in> set xs" "found a1 \<longrightarrow> a1 \<in> set xs"
    using assms by (auto simp: lowest_two_def p)
  consider "?zs = []" | x where "?zs = [x]" | x y r where "?zs = x # y # r"
    by (metis neq_Nil_conv)
  then show ?thesis
  proof cases
    case 1
    then have "?ids = {}" "\<not> found a0" "\<not> found a1"
      using zs inv by (auto split: if_splits)
    then show ?thesis
      using True by (auto simp: lowest_two_def p InsertPlayerActorByGUID_def ids)
  next
    case (2 x)
    then have "?ids = {x}" "found a0" "\<not> found a1" "OS_GUID a0 = x"
      using zs inv by (auto split: if_splits)
    then show ?thesis
      using True inv unfolding lowest_two_def p ids sorted 2
      by (auto simp: InsertPlayerActorByGUID_def)
  next
    case (3 x y r)
    then have f: "found a0" "found a1" "OS_GUID a0 = x" "OS_GUID a1 = y"
      using inv by (auto split: if_splits)
    have le: "x < y" "\<forall>z \<in> set r. y \<le> z" "?ids = insert x (insert y (set r))"
      using zs unfolding 3 by auto
    then show ?thesis
      using True inv f unfolding lowest_two_def p ids sorted 3
      by (auto simp: InsertPlayerActorByGUID_def)
  qed
next
  case False
  then show ?thesis
    using assms by (auto simp: lowest_two_def InsertPlayerActorByGUID_def split: prod.splits)
qed

lemma fold_lowest_two:
  "lowest_two xs (foldl InsertPlayerActorByGUID (ObjectScanSample_default, ObjectScanSample_default) xs)"
proof (induction xs rule: rev_induct)
  case (snoc a xs)
  then show ?case
    using insert_lowest_two by simp
qed (simp add: lowest_two_def ObjectScanSample_default_def)

text \<open>The players are told apart by their identifiers, not by where they lie in memory. The search
  for the two players returns the found candidates with the lowest and the second lowest identifier,
  in this order, each a candidate of the scan (or of the cache) it was given; a slot stays empty only
  when there are fewer distinct identifiers. So two machines that hold the same players assign the
  same slots, whatever the order of the objects.\<close>

theorem player_slots_by_identifier:
  assumes "ND_MainRAM n \<noteq> None" "FindPlayerActors active n = (a0, a1)"
  shows "map OS_GUID (filter found [a0, a1])
      = take 2 (sorted_list_of_set (OS_GUID ` set (filter found (player_candidates active n))))
    \<and> (\<forall>a \<in> {a0, a1}. found a \<longrightarrow> a \<in> set (player_candidates active n))"
proof -
  have "foldl InsertPlayerActorByGUID (ObjectScanSample_default, ObjectScanSample_default) (player_candidates active n) = (a0, a1)"
    using assms by (auto simp: FindPlayerActors_def Let_def)
  then show ?thesis
    using fold_lowest_two [of "player_candidates active n"] unfolding lowest_two_def by simp
qed

section \<open>A found object can be read at its base\<close>

definition same_object :: "ObjectScanSample \<Rightarrow> ObjectScanSample \<Rightarrow> bool" where
  "same_object a b \<longleftrightarrow> OS_Found a = OS_Found b \<and> OS_GUID a = OS_GUID b \<and> OS_Base a = OS_Base b
     \<and> OS_Settings a = OS_Settings b \<and> OS_StateType a = OS_StateType b \<and> OS_Flags a = OS_Flags b
     \<and> (\<forall>name \<in> snd ` set transform_words. OS_Word a name = OS_Word b name)"

lemma first_found_Some: "found (first_found f xs) \<Longrightarrow> \<exists>x \<in> set xs. f x = Some (first_found f xs)"
  by (induction xs) (auto simp: ObjectScanSample_default_def split: option.splits)

lemma scan_offset_bound: "off \<in> set (scan_offsets span n) \<Longrightarrow> span \<le> ram_length n \<and> off \<le> ram_length n - span"
proof -
  assume "off \<in> set (scan_offsets span n)"
  then obtain k where k: "span \<le> ram_length n" "off = of_nat (4 * k)" "k \<le> unat (ram_length n - span) div 4"
    by (auto simp: scan_offsets_def split: if_splits)
  then have "4 * k \<le> unat (ram_length n - span)"
    by simp
  then have "unat off \<le> unat (ram_length n - span)"
    unfolding k(2) by (metis mod_less_eq_dividend order_trans unat_of_nat)
  then show ?thesis
    using k(1) by (simp add: word_le_nat_alt)
qed

lemma candidate_Some:
  assumes "candidate want n off = Some s"
  obtains h settings where "read_header off n = Some h" "ReaderU32 (off + 8) n = Some settings"
    "plausible (ram_length n) h" "want h settings" "s = scanned off settings h n"
  using assms by (auto simp: candidate_def split: option.splits if_splits)

lemma scanned_fields [simp]:
  "OS_Found (scanned off settings h n) = 1" "OS_GUID (scanned off settings h n) = OH_GUID h"
  "OS_Base (scanned off settings h n) = 0x02000000 + off" "OS_Settings (scanned off settings h n) = settings"
  "OS_StateType (scanned off settings h n) = ucast (OH_StateType h)" "OS_Flags (scanned off settings h n) = OH_Flags h"
  by (simp_all add: scanned_def ReadObjectTransform_def)

lemma offset_base:
  assumes "ND_MainRAMMask n \<le> 0xFFFFFF" "0x120 \<le> ram_length n" "off \<le> ram_length n - 0x120"
  shows "\<not> 0x02000000 + off < 0x02000000" "\<not> ram_length n < off + 0x120" "off < ram_length n"
    "0x120 \<le> ram_length n - off"
proof -
  have m: "unat (ram_length n) = unat (ND_MainRAMMask n) + 1" "unat (ND_MainRAMMask n) \<le> 0xFFFFFF"
    using assms(1) by (simp_all add: word_le_nat_alt unat_word_ariths)
  then have "unat (ram_length n - 0x120) = unat (ram_length n) - 0x120" "0x120 \<le> unat (ram_length n)"
    using assms(2) by (simp_all add: unat_sub word_le_nat_alt)
  then have o: "unat off + 0x120 \<le> unat (ram_length n)"
    using assms(3) by (simp add: word_le_nat_alt)
  have "unat (0x02000000 + off) = 0x02000000 + unat off" "unat (off + 0x120) = unat off + 0x120"
    using m o by (simp_all add: unat_word_ariths)
  then show "\<not> 0x02000000 + off < 0x02000000" "\<not> ram_length n < off + 0x120" "off < ram_length n"
    using o by (simp_all add: word_less_nat_alt)
  moreover have "unat (ram_length n - off) = unat (ram_length n) - unat off"
    using o by (simp add: unat_sub word_le_nat_alt)
  ultimately show "0x120 \<le> ram_length n - off"
    using o by (simp add: word_le_nat_alt)
qed

lemma scan_reads_back:
  assumes "ND_MainRAM n \<noteq> None" "ND_MainRAMMask n \<le> 0xFFFFFF" "off \<in> set (scan_offsets 0x120 n)"
    "candidate (\<lambda>h settings. want h settings \<and> strict_state h) n off = Some a"
  shows "read_at_base (OS_GUID a) want (OS_Base a) n = Some a"
proof -
  note b = offset_base [OF assms(2)] scan_offset_bound [OF assms(3)]
  from assms(4) show ?thesis
    by (rule candidate_Some) (use assms(1) b in \<open>auto simp: read_at_base_def candidate_def Let_def\<close>)
qed

text \<open>The words of the special actors do not touch the words of the transform.\<close>

definition actor_names :: "string set" where
  "actor_names = {''EntityUpdateStateFound'', ''EntityUpdateStateRaw'', ''GoombaBehaviorFunctionRaw'',
     ''NpcCollidedGroupsRaw'', ''NpcPlayerContactXRaw'', ''NpcPlayerContactYRaw'', ''NpcContactPlayerRaw'',
     ''NpcStompTriggerRaw'', ''NpcStompSpecialRaw'', ''NpcStompGraceRaw'', ''NpcColliderCenterXRaw'',
     ''NpcColliderCenterYRaw'', ''NpcColliderHalfWidthRaw'', ''NpcColliderHalfHeightRaw'', ''NpcContactFound'',
     ''ItemBehaviorFunctionRaw'', ''ItemBehaviorStepRaw'', ''ItemDirectionRaw'', ''ItemEmergenceTargetYRaw'',
     ''ItemKindRaw'', ''ItemRollingSuppressedRaw'', ''KoopaBehaviorFunctionRaw'', ''KoopaBehaviorStepRaw'',
     ''KoopaShellModeRaw'', ''KoopaDirectionRaw'', ''KoopaCollisionRaw''}"

lemma transform_names: "\<forall>(k, name) \<in> set transform_words. name \<notin> actor_names"
  by (simp add: transform_words_def actor_names_def)

lemma actor_words_keep: "name \<notin> actor_names \<Longrightarrow> actor_words objectID base n w name = w name"
  unfolding actor_words_def koopa_words_def item_words_def contact_words_def goomba_words_def update_words_def actor_names_def
  by (simp split: option.split)

lemma reader_at_address:
  assumes "ND_MainRAMMask n \<le> 0xFFFFFF" "ReaderRangeValid base 0x120 n" "unat k + 4 \<le> 0x120"
  shows "ReaderAddressU32 (base + k) n = ReaderU32 (base - 0x02000000 + k) n"
    and "ReaderAddressU16 (base + k) n = ReaderU16 (base - 0x02000000 + k) n"
    and "ReaderU32 (base - 0x02000000 + k) n = Some (rd32 (main_ram n) (unat (base - 0x02000000) + unat k))"
proof -
  define p where "p = base - 0x02000000"
  define len where "len = ram_length n"
  have base: "base = 0x02000000 + p"
    by (simp add: p_def)
  have r: "ND_MainRAM n \<noteq> None" "p < len" "0x120 \<le> len - p"
    using assms(2) by (auto simp: ReaderRangeValid_def Let_def p_def len_def split: if_splits)
  have m: "unat len = unat (ND_MainRAMMask n) + 1" "unat (ND_MainRAMMask n) \<le> 0xFFFFFF"
    using assms(1) by (simp_all add: word_le_nat_alt unat_word_ariths len_def)
  have "unat (len - p) = unat len - unat p"
    using r(2) by (intro unat_sub) simp
  then have le: "unat p + 0x120 \<le> unat len"
    using r(2,3) by (simp add: word_le_nat_alt word_less_nat_alt)
  have k: "unat (p + k) = unat p + unat k" "unat (0x02000000 + (p + k)) = 0x02000000 + (unat p + unat k)"
    using le m assms(3) by (simp_all add: unat_word_ariths)
  have rest: "unat (len - (p + k)) = unat len - (unat p + unat k)"
    using le k(1) assms(3) by (subst unat_sub) (simp_all add: word_le_nat_alt)
  have valid: "ReaderRangeValid (base + k) w n" if "unat w \<le> 4" "w \<noteq> 0" for w
    using that r(1) k rest le assms(3)
    by (simp add: ReaderRangeValid_def Let_def base add.assoc len_def [symmetric] word_less_nat_alt word_le_nat_alt)
  have off: "base + k - 0x02000000 = p + k"
    by (simp add: base)
  have plain: "\<not> ND_MainRAMMask n < p + k" "\<not> len - (p + k) < 4" "\<not> len - (p + k) < 2"
    using k(1) rest le m assms(3) by (simp_all add: word_less_nat_alt)
  show "ReaderAddressU32 (base + k) n = ReaderU32 (base - 0x02000000 + k) n"
    and "ReaderAddressU16 (base + k) n = ReaderU16 (base - 0x02000000 + k) n"
    and "ReaderU32 (base - 0x02000000 + k) n = Some (rd32 (main_ram n) (unat (base - 0x02000000) + unat k))"
    using valid [of 4] valid [of 2] plain r(1) k(1)
    by (simp_all add: ReaderAddressU32_def ReaderAddressU16_def ReaderU32_def ReaderU16_def off p_def [symmetric] len_def [symmetric])
qed

text \<open>Every entry of the cache is the entry of its own base.\<close>

definition cache_inv :: "'m NDS_scheme \<Rightarrow> GameStateObjectScanCache \<Rightarrow> bool" where
  "cache_inv n cache \<longleftrightarrow> (\<forall>e \<in> set (OC_Entries cache).
     ReaderRangeValid (OS_Base (CE_Actor e)) 0x120 n \<and> process_entry (OS_Base (CE_Actor e)) n = Some e)"

lemma process_entry_base: "process_entry base n = Some e \<Longrightarrow> OS_Base (CE_Actor e) = base"
  by (auto simp: process_entry_def Let_def ReadObjectTransform_def split: option.splits if_splits)

lemma add_object_inv: "cache_inv n (fst st) \<Longrightarrow> cache_inv n (fst (AddGameStateProcessObject n st base))"
  by (auto simp: AddGameStateProcessObject_def cache_inv_def process_entry_base split: prod.splits option.splits)

lemma add_list_inv: "cache_inv n (fst st) \<Longrightarrow> cache_inv n (fst (AddGameStateProcessList n st l))"
proof -
  have "cache_inv n (fst (foldl (AddGameStateProcessObject n) st bs))" if "cache_inv n (fst st)" for bs
    using that by (induction bs arbitrary: st) (simp_all add: add_object_inv)
  then show "cache_inv n (fst st) \<Longrightarrow> ?thesis"
    by (simp add: AddGameStateProcessList_def)
qed

lemma built_cache_inv: "cache_inv n (BuildGameStateObjectScanCache n)"
proof -
  have "cache_inv n (fst (foldl (AddGameStateProcessList n) st ls))" if "cache_inv n (fst st)" for st ls
    using that by (induction ls arbitrary: st) (simp_all add: add_list_inv)
  moreover have "cache_inv n GameStateObjectScanCache_default"
    by (simp add: cache_inv_def GameStateObjectScanCache_default_def)
  ultimately show ?thesis
    by (simp add: BuildGameStateObjectScanCache_def)
qed

lemma process_entry_reads:
  assumes "ND_MainRAMMask n \<le> 0xFFFFFF" "ReaderRangeValid base 0x120 n" "process_entry base n = Some e"
  obtains h settings where "read_header (base - 0x02000000) n = Some h" "ReaderU32 (base - 0x02000000 + 8) n = Some settings"
    "plausible (ram_length n) h" "OH_ObjectID h = CE_ObjectID e"
    "CE_Actor e = (scanned (base - 0x02000000) settings h n)
       \<lparr>OS_Word := actor_words (CE_ObjectID e) base n (OS_Word (scanned (base - 0x02000000) settings h n))\<rparr>"
proof -
  note r = reader_at_address [OF assms(1,2)]
  have at: "ReaderAddressU32 base n = ReaderU32 (base - 0x02000000) n"
    "ReaderAddressU32 (base + 4) n = ReaderU32 (base - 0x02000000 + 4) n"
    "ReaderAddressU32 (base + 8) n = ReaderU32 (base - 0x02000000 + 8) n"
    "ReaderAddressU16 (base + 0x0C) n = ReaderU16 (base - 0x02000000 + 0x0C) n"
    "ReaderAddressU16 (base + 0x0E) n = ReaderU16 (base - 0x02000000 + 0x0E) n"
    "ReaderU32 (base - 0x02000000 + 0x10) n = Some (rd32 (main_ram n) (unat (base - 0x02000000) + 0x10))"
    using r(1) [of 0] r(1) [of 4] r(1) [of 8] r(2) [of "0x0C"] r(2) [of "0x0E"] r(3) [of "0x10"] by simp_all
  obtain vtable guid settings objectID stateType where
      w: "ReaderAddressU32 base n = Some vtable" "ReaderAddressU32 (base + 4) n = Some guid"
        "ReaderAddressU32 (base + 8) n = Some settings" "ReaderAddressU16 (base + 0x0C) n = Some objectID"
        "ReaderAddressU16 (base + 0x0E) n = Some stateType"
    using assms(3) by (auto simp: process_entry_def split: option.splits)
  let ?h = "\<lparr>OH_VTable = vtable, OH_GUID = guid, OH_ObjectID = objectID, OH_StateType = stateType,
    OH_Flags = rd32 (main_ram n) (unat (base - 0x02000000) + 0x10)\<rparr>"
  show ?thesis
  proof (rule that [of ?h settings])
    show "read_header (base - 0x02000000) n = Some ?h" "ReaderU32 (base - 0x02000000 + 8) n = Some settings"
      unfolding read_header_def w [unfolded at(1-5)] at(6) by simp_all
    show "plausible (ram_length n) ?h" "OH_ObjectID ?h = CE_ObjectID e"
      "CE_Actor e = (scanned (base - 0x02000000) settings ?h n)
        \<lparr>OS_Word := actor_words (CE_ObjectID e) base n (OS_Word (scanned (base - 0x02000000) settings ?h n))\<rparr>"
      using assms(3) unfolding process_entry_def w Let_def scanned_def by (auto split: if_splits)
  qed
qed

lemma half_word_eq: "(ucast (x :: u16) = (1 :: u32)) = (x = 1)" "(ucast x = (2 :: u32)) = (x = 2)" "(ucast x = (3 :: u32)) = (x = 3)"
proof -
  have "ucast (ucast y :: u32) = y" for y :: u16
    by (rule bit_word_eqI) (auto simp: bit_simps)
  then have "(ucast x = (ucast y :: u32)) = (x = y)" for y
    by metis
  from this [of 1] this [of 2] this [of 3]
  show "(ucast x = (1 :: u32)) = (x = 1)" "(ucast x = (2 :: u32)) = (x = 2)" "(ucast x = (3 :: u32)) = (x = 3)"
    by simp_all
qed

lemma word_room:
  assumes "(p :: u32) < len" "k \<le> len - p"
  shows "p + k \<le> len"
proof -
  have "unat (len - p) = unat len - unat p"
    using assms(1) by (intro unat_sub) simp
  then have le: "unat p + unat k \<le> unat len"
    using assms by (simp add: word_le_nat_alt word_less_nat_alt)
  moreover have "unat len < 2 ^ 32"
    using unsigned_less [of len] by simp
  ultimately have "unat (p + k) = unat p + unat k"
    by (simp add: unat_word_ariths)
  with le show ?thesis
    by (simp add: word_le_nat_alt)
qed

lemma cached_reads_back:
  assumes "ND_MainRAM n \<noteq> None" "ND_MainRAMMask n \<le> 0xFFFFFF" "e \<in> set (OC_Entries (BuildGameStateObjectScanCache n))"
    "IsCachedObjectStrict e"
  obtains h b where "read_header (OS_Base b - 0x02000000) n = Some h" "OH_ObjectID h = CE_ObjectID e" "same_object (CE_Actor e) b"
    "\<And>want. want h (OS_Settings b) \<Longrightarrow> read_at_base (OS_GUID b) want (OS_Base b) n = Some b"
proof -
  let ?base = "OS_Base (CE_Actor e)"
  have v: "ReaderRangeValid ?base 0x120 n" "process_entry ?base n = Some e"
    using built_cache_inv [of n] assms(3) by (auto simp: cache_inv_def)
  obtain h settings where e: "read_header (?base - 0x02000000) n = Some h" "ReaderU32 (?base - 0x02000000 + 8) n = Some settings"
      "plausible (ram_length n) h" "OH_ObjectID h = CE_ObjectID e"
      "CE_Actor e = (scanned (?base - 0x02000000) settings h n)
         \<lparr>OS_Word := actor_words (CE_ObjectID e) ?base n (OS_Word (scanned (?base - 0x02000000) settings h n))\<rparr>"
    using process_entry_reads [OF assms(2) v] by blast
  let ?b = "scanned (?base - 0x02000000) settings h n"
  have f: "OS_Base ?b = ?base" "OS_StateType (CE_Actor e) = ucast (OH_StateType h)" "OS_Flags (CE_Actor e) = OH_Flags h"
    by (simp, (subst e(5), simp)+)
  have same: "same_object (CE_Actor e) ?b"
    using transform_names by (subst e(5)) (auto simp: same_object_def actor_words_keep)
  have strict: "strict_state h"
    using assms(4) unfolding IsCachedObjectStrict_def f strict_state_def by (simp add: half_word_eq)
  have r: "0x02000000 \<le> ?base" "?base - 0x02000000 < ram_length n" "0x120 \<le> ram_length n - (?base - 0x02000000)"
    using v(1) by (auto simp: ReaderRangeValid_def Let_def split: if_splits)
  have bounds: "\<not> ?base < 0x02000000" "\<not> ram_length n < ?base - 0x02000000 + 0x120"
    using r(1) word_room [OF r(2,3)] by (simp_all add: not_less)
  show ?thesis
    by (rule that [of ?b h]) (use e same strict bounds f assms(1) in \<open>auto simp: read_at_base_def candidate_def Let_def\<close>)
qed

text \<open>Whatever way an object was found, by the scan of the memory or through the cache of the process
  lists, it is really there: reading the object at the returned base with the returned identifier, the
  kind and the settings that were asked for succeeds and gives the same header and the same transform.
  In particular the cache never returns an object whose memory no longer passes the checks of the
  scan.\<close>

theorem found_object_reads_back:
  assumes "ND_MainRAMMask n \<le> 0xFFFFFF" "active = None \<or> active = Some (BuildGameStateObjectScanCache n)"
    and "found (FindObjectByIDAndSettings active objectID settings n)"
  shows "\<exists>b. ReadObjectByBase (OS_Base (FindObjectByIDAndSettings active objectID settings n))
      (OS_GUID (FindObjectByIDAndSettings active objectID settings n)) objectID settings n = Some b
    \<and> same_object (FindObjectByIDAndSettings active objectID settings n) b"
proof -
  let ?a = "FindObjectByIDAndSettings active objectID settings n"
  let ?want = "\<lambda>h s. OH_ObjectID h = objectID \<and> s = settings"
  have ram: "ND_MainRAM n \<noteq> None"
  proof
    assume "ND_MainRAM n = None"
    with assms(3) show False
      by (simp add: FindObjectByIDAndSettings_def ObjectScanSample_default_def)
  qed
  show ?thesis
  proof (cases active)
    case None
    then have a: "?a = first_found (candidate (\<lambda>h s. ?want h s \<and> strict_state h) n) (scan_offsets 0x120 n)"
      using ram by (auto simp: FindObjectByIDAndSettings_def conj_assoc)
    obtain off where "off \<in> set (scan_offsets 0x120 n)" "candidate (\<lambda>h s. ?want h s \<and> strict_state h) n off = Some ?a"
      using first_found_Some assms(3) unfolding a by blast
    then have "read_at_base (OS_GUID ?a) ?want (OS_Base ?a) n = Some ?a"
      by (rule scan_reads_back [OF ram assms(1)])
    then show ?thesis
      by (simp add: ReadObjectByBase_def same_object_def)
  next
    case (Some cache)
    then have a: "?a = FindCachedObject (BuildGameStateObjectScanCache n) objectID True settings True"
      using ram assms(2) by (auto simp: FindObjectByIDAndSettings_def)
    obtain e where e: "e \<in> set (OC_Entries (BuildGameStateObjectScanCache n))" "IsCachedObjectStrict e" "?a = CE_Actor e"
        "CE_ObjectID e = objectID" "OS_Settings (CE_Actor e) = settings"
      using assms(3) first_found_Some unfolding a FindCachedObject_def by (fastforce split: if_splits)
    obtain h b where b: "OH_ObjectID h = CE_ObjectID e" "same_object (CE_Actor e) b"
        "\<And>want. want h (OS_Settings b) \<Longrightarrow> read_at_base (OS_GUID b) want (OS_Base b) n = Some b"
      using cached_reads_back [OF ram assms(1) e(1,2)] by metis
    then have "ReadObjectByBase (OS_Base b) (OS_GUID b) objectID settings n = Some b"
      using e(4,5) by (simp add: ReadObjectByBase_def same_object_def)
    then show ?thesis
      using b(2) unfolding e(3) by (auto simp: same_object_def)
  qed
qed

section \<open>Objects in the small\<close>

definition star_nds :: NDS where
  "star_nds = sample_nds\<lparr>ND_MainRAM := Some ([16, 0, 0, 2, 5, 0, 0, 0, 1, 0, 0, 0, 0x22, 0, 1, 0, 0, 0, 0, 0] @ replicate 0x1EC 9),
     ND_MainRAMMask := 0x1FF\<rparr>"

theorem found_object_reads_back_witness:
  "\<exists>b. ReadObjectByBase 0x02000000 5 0x22 1 star_nds = Some b
    \<and> same_object (FindObjectByIDAndSettings None 0x22 1 star_nds) b"
proof -
  have "scan_offsets 0x120 star_nds = 0 # map (\<lambda>k. of_nat (4 * k)) [1 ..< 57]"
    by (simp add: scan_offsets_def star_nds_def upt_conv_Cons)
  moreover have "candidate (\<lambda>h s. OH_ObjectID h = 0x22 \<and> s = 1 \<and> strict_state h) star_nds 0
      = Some (scanned 0 1 \<lparr>OH_VTable = 0x02000010, OH_GUID = 5, OH_ObjectID = 0x22, OH_StateType = 1, OH_Flags = 0\<rparr> star_nds)"
    by (simp add: candidate_def read_header_def ReaderU32_def ReaderU16_def star_nds_def rd32_def rd16_def
        u32_of_bytes_def u16_of_bytes_def plausible_def strict_state_def)
  ultimately have a: "FindObjectByIDAndSettings None 0x22 1 star_nds
      = scanned 0 1 \<lparr>OH_VTable = 0x02000010, OH_GUID = 5, OH_ObjectID = 0x22, OH_StateType = 1, OH_Flags = 0\<rparr> star_nds"
    by (simp add: FindObjectByIDAndSettings_def) (simp add: star_nds_def)
  then show ?thesis
    using found_object_reads_back [of star_nds None "0x22" 1] by (simp add: star_nds_def)
qed

definition two_players :: GameStateObjectScanCache where
  "two_players = GameStateObjectScanCache_default\<lparr>OC_Entries := map (\<lambda>guid.
     \<lparr>CE_Actor = ObjectScanSample_default\<lparr>OS_Found := 1, OS_GUID := guid, OS_StateType := 1\<rparr>, CE_Offset = 0, CE_VTable = 0x02000010,
      CE_ObjectID = kPlayerObjectID, CE_LifecycleState = 1, CE_Type = 2, CE_SkipFlags = 0\<rparr>) [9, 4, 12]\<rparr>"

theorem player_slots_by_identifier_witness:
  "map OS_GUID (filter found [fst (FindPlayerActors (Some two_players) star_nds), snd (FindPlayerActors (Some two_players) star_nds)])
    = [4, 9]"
proof -
  have "sorted_list_of_set {4, 9, 12 :: u32} = [4, 9, 12]"
    by (rule sorted_list_of_set_unique [THEN iffD1]) auto
  moreover have "OS_GUID ` set (filter found (player_candidates (Some two_players) star_nds)) = {4, 9, 12}"
    by (auto simp: player_candidates_def two_players_def IsCachedObjectStrict_def ObjectScanSample_default_def)
  moreover have "ND_MainRAM star_nds \<noteq> None"
    by (simp add: star_nds_def)
  ultimately show ?thesis
    using player_slots_by_identifier [of star_nds "Some two_players"
        "fst (FindPlayerActors (Some two_players) star_nds)" "snd (FindPlayerActors (Some two_players) star_nds)"]
    by simp
qed

end
