(* ===== verification/State_Apply.thy ===== *)
theory State_Apply
  imports Object_Scan Match_Hooks
begin

text \<open>
  Reading the counters of the game into a sample and writing a received sample back into the game:
  the word tables of \<^verbatim>\<open>NsmbGameStateReader.cpp\<close>, \<^verbatim>\<open>NsmbGameStateWriter.cpp\<close>, \<^verbatim>\<open>ApplyRemote\<close> of
  \<^verbatim>\<open>NsmbGameStateSync.cpp\<close> and the two hooks of \<^verbatim>\<open>NsmbMvlGameHooks.cpp\<close> that look for actors. The registers
  of the processor, which are not part of the machine model, are an argument. No object cache is
  active while the code writes, so the searches scan the memory. A null machine and the printed lines
  are left out.
\<close>

unbundle bit_operations_syntax

section \<open>Reading words into a sample\<close>

datatype bus_width = Bus8 | Bus16 | Bus32

fun bus_read :: "bus_width \<Rightarrow> u32 \<Rightarrow> 'm NDS_scheme \<Rightarrow> u32" where
  "bus_read Bus8 addr n = ucast (ARM9Read8 addr n)"
| "bus_read Bus16 addr n = ucast (ARM9Read16 addr n)"
| "bus_read Bus32 addr n = ARM9Read32 addr n"

definition put_word :: "string \<Rightarrow> u32 \<Rightarrow> GameStateSample \<Rightarrow> GameStateSample" where
  "put_word name v s = s\<lparr>GS_Word := (GS_Word s)(name := v)\<rparr>"

definition read_sample_words :: "(string \<times> bus_width \<times> u32) list \<Rightarrow> 'm NDS_scheme \<Rightarrow> GameStateSample \<Rightarrow> GameStateSample" where
  "read_sample_words table n s = foldl (\<lambda>s (name, width, addr). put_word name (bus_read width addr n) s) s table"

record ARM9Registers =
  AR_R13 :: u32
  AR_R14 :: u32
  AR_R15 :: u32
  AR_CPSR :: u32

definition core_words_before :: "(string \<times> bus_width \<times> u32) list" where
  "core_words_before = [(''StageID'', Bus32, 0x02085A14), (''StageGroup'', Bus32, 0x02085A18), (''VsMode'', Bus32, 0x02085A84),
     (''LocalPlayerID'', Bus32, 0x02085A7C)]"

definition core_words_after :: "(string \<times> bus_width \<times> u32) list" where
  "core_words_after = [(''AppFrameLength'', Bus8, 0x02039810), (''AppUpdateTask'', Bus32, 0x02039824),
     (''AppSleepPhase'', Bus8, 0x0208596C), (''AppSleepControl'', Bus8, 0x02085974),
     (''AppSleeping'', Bus8, 0x02085978), (''AppSleepPhaseTimer'', Bus16, 0x0208597C),
     (''AppSleepWakeUpTimer'', Bus16, 0x02085980), (''AppBootParam'', Bus32, 0x0208598C),
     (''AppBootTarget'', Bus32, 0x02085990), (''AppBootScene'', Bus32, 0x02085994),
     (''GGID'', Bus32, 0x02088858), (''NetCurrentLanguage'', Bus32, 0x020887E8),
     (''NetLocalAid'', Bus32, 0x020887F0), (''NetState14'', Bus32, 0x020887FC),
     (''NetState1C'', Bus32, 0x02088804), (''NetState20'', Bus32, 0x02088808),
     (''NetState24'', Bus32, 0x0208880C), (''NetExpectedConsoleCount'', Bus32, 0x0208880C),
     (''NetMultiBootSession'', Bus32, 0x02088810), (''NetSessionState'', Bus32, 0x02088814),
     (''NetModuleState'', Bus32, 0x02088818), (''NetMaxSessionChildren'', Bus32, 0x0208881C),
     (''NetMaxConsoleCount'', Bus32, 0x0208882C), (''NetState5C'', Bus16, 0x0208883C),
     (''NetPacketTick'', Bus16, 0x020888E0), (''NetPacketKeys'', Bus16, 0x020888E2),
     (''NetPacketAction'', Bus8, 0x020888E4), (''NetPacketByte5'', Bus8, 0x020888E5),
     (''NetPacketByte6'', Bus8, 0x020888E6), (''NetPacketByte7'', Bus8, 0x020888E7),
     (''NetRandomValue'', Bus32, 0x02088A68), (''NetRandomCallCount'', Bus8, 0x02088A48),
     (''NetRandomBranchAddress'', Bus32, 0x0208885C), (''InputConsole0Held'', Bus16, 0x02087650),
     (''InputConsole0Pressed'', Bus16, 0x02087652), (''InputConsole1Held'', Bus16, 0x02087654),
     (''InputConsole1Pressed'', Bus16, 0x02087656), (''InputPlayer0Held'', Bus16, 0x02087660),
     (''InputPlayer1Held'', Bus16, 0x02087662), (''InputPlayer0Pressed'', Bus16, 0x02087664),
     (''InputPlayer1Pressed'', Bus16, 0x02087666), (''StageActorFreezeFlag'', Bus8, 0x020CA28C),
     (''SceneIsSceneActive'', Bus32, 0x0203BD28), (''ScenePreviousSceneID'', Bus16, 0x0203BD2C),
     (''SceneNextSceneID'', Bus16, 0x0203BD30), (''SceneCurrentSceneID'', Bus16, 0x0203BD34),
     (''SceneNextSceneSettings'', Bus32, 0x02088F38)]"

definition global_words :: "(string \<times> bus_width \<times> u32) list" where
  "global_words = [(''PlayerCount'', Bus32, 0x0208B348), (''PlayerTransitionStatus0'', Bus32, 0x0208B354),
     (''PlayerTransitionStatus1'', Bus32, 0x0208B358), (''EntranceSpawnID0'', Bus8, 0x0208B094),
     (''EntranceSpawnID1'', Bus8, 0x0208B095), (''EntranceTransitionFlags0'', Bus8, 0x0208B098),
     (''EntranceTransitionFlags1'', Bus8, 0x0208B099), (''EntranceSpawnPtr0'', Bus32, 0x0208B0A0),
     (''EntranceSpawnPtr1'', Bus32, 0x0208B0A4), (''Player0Powerup'', Bus8, 0x0208B324),
     (''Player1Powerup'', Bus8, 0x0208B325), (''Player0InventoryPowerup'', Bus8, 0x0208B32C),
     (''Player1InventoryPowerup'', Bus8, 0x0208B32D), (''Player0DamageGuardTimer'', Bus16, 0x0208B344),
     (''Player1DamageGuardTimer'', Bus16, 0x0208B346), (''Player0Dead'', Bus8, 0x0208B328),
     (''Player1Dead'', Bus8, 0x0208B329), (''Player0Character'', Bus8, 0x0208B330),
     (''Player1Character'', Bus8, 0x0208B331), (''Player0Lives'', Bus32, 0x0208B364),
     (''Player1Lives'', Bus32, 0x0208B368), (''Player0BattleStars'', Bus32, 0x0208B36C),
     (''Player1BattleStars'', Bus32, 0x0208B370), (''Player0Coins'', Bus32, 0x0208B37C),
     (''Player1Coins'', Bus32, 0x0208B380), (''Player0Score'', Bus32, 0x0208B384),
     (''Player1Score'', Bus32, 0x0208B388), (''Player0DisplayedStars'', Bus32, 0x0208B38C),
     (''Player1DisplayedStars'', Bus32, 0x0208B390), (''Player0Deaths'', Bus32, 0x0208B394),
     (''Player1Deaths'', Bus32, 0x0208B398), (''Player0CollectedStars'', Bus32, 0x0208B39C),
     (''Player1CollectedStars'', Bus32, 0x0208B3A0), (''VsCoinCount'', Bus32, 0x0208B37C),
     (''StageCameraGlobalX0'', Bus32, 0x020CAE1C), (''StageCameraGlobalX1'', Bus32, 0x020CAE20),
     (''StageCameraGlobalY0'', Bus32, 0x020CAD94), (''StageCameraGlobalY1'', Bus32, 0x020CAD98),
     (''StageCameraGlobalWidth0'', Bus32, 0x020CADA4), (''StageCameraGlobalWidth1'', Bus32, 0x020CADA8),
     (''StageCameraGlobalHeight0'', Bus32, 0x020CAD8C), (''StageCameraGlobalHeight1'', Bus32, 0x020CAD90),
     (''PlayerCameraFocusPosX0'', Bus32, 0x020CAEBC), (''PlayerCameraFocusPosX1'', Bus32, 0x020CAECC),
     (''PlayerCameraFocusPosY0'', Bus32, 0x020CAEC0), (''PlayerCameraFocusPosY1'', Bus32, 0x020CAED0),
     (''PlayerCameraFocusPosZ0'', Bus32, 0x020CAEC4), (''PlayerCameraFocusPosZ1'', Bus32, 0x020CAED4),
     (''PlayerCameraFocusVelX0'', Bus32, 0x020CAEEC), (''PlayerCameraFocusVelX1'', Bus32, 0x020CAEFC),
     (''PlayerCameraFocusVelY0'', Bus32, 0x020CAEF0), (''PlayerCameraFocusVelY1'', Bus32, 0x020CAF00),
     (''PlayerCameraFocusVelZ0'', Bus32, 0x020CAEF4), (''PlayerCameraFocusVelZ1'', Bus32, 0x020CAF04),
     (''StageDisplayCameraX'', Bus32, 0x02085AB4), (''CameraDbgCA880'', Bus32, 0x020CA880),
     (''CameraDbgCAE04'', Bus32, 0x020CAE04), (''CameraDbgCAE14'', Bus32, 0x020CAE14),
     (''CameraDbgCAD6C'', Bus32, 0x020CAD6C), (''CameraDbgCAD8C'', Bus32, 0x020CAD8C),
     (''CameraDbgCADB4'', Bus32, 0x020CADB4), (''CameraDbgCAE60'', Bus32, 0x020CAE60),
     (''CameraDbgCAE64'', Bus32, 0x020CAE64)]"

definition read_registers :: "ARM9Registers \<Rightarrow> GameStateSample \<Rightarrow> GameStateSample" where
  "read_registers r s =
     put_word ''Arm9CPSR'' (AR_CPSR r) (put_word ''Arm9SP'' (AR_R13 r) (put_word ''Arm9LR'' (AR_R14 r)
       (put_word ''Arm9PC'' (AR_R15 r - (if AR_CPSR r AND 0x20 \<noteq> 0 then 2 else 4)) s)))"

definition ReadCoreState :: "ARM9Registers \<Rightarrow> 'm NDS_scheme \<Rightarrow> GameStateSample \<Rightarrow> GameStateSample" where
  "ReadCoreState r n s = read_sample_words core_words_after n (read_registers r (read_sample_words core_words_before n s))"

definition ReadPlayerAndCameraGlobals :: "'m NDS_scheme \<Rightarrow> GameStateSample \<Rightarrow> GameStateSample" where
  "ReadPlayerAndCameraGlobals n s = read_sample_words global_words n s"

text \<open>The members of a found object, under a prefix.\<close>

definition copy_header :: "string \<Rightarrow> ObjectScanSample \<Rightarrow> GameStateSample \<Rightarrow> GameStateSample" where
  "copy_header prefix a s =
     put_word (prefix @ ''Flags'') (OS_Flags a) (put_word (prefix @ ''StateType'') (OS_StateType a)
       (put_word (prefix @ ''Settings'') (OS_Settings a) (put_word (prefix @ ''Base'') (OS_Base a)
         (put_word (prefix @ ''GUID'') (OS_GUID a) (put_word (prefix @ ''Found'') (OS_Found a) s)))))"

definition copy_object_words :: "string \<Rightarrow> string list \<Rightarrow> ObjectScanSample \<Rightarrow> GameStateSample \<Rightarrow> GameStateSample" where
  "copy_object_words prefix names a s = foldl (\<lambda>s name. put_word (prefix @ name) (OS_Word a name) s) s names"

definition ReadBattleStarState :: "GameStateObjectScanCache option \<Rightarrow> 'm NDS_scheme \<Rightarrow> GameStateSample \<Rightarrow> GameStateSample" where
  "ReadBattleStarState active n s =
     (let star = FindVsBattleStarCandidate active n;
          s1 = copy_object_words ''VsStar'' [''PosX'', ''PosY'', ''PosZ''] star (copy_header ''VsStar'' star s);
          starActor = FindObjectByIDAndSettings active kVsBattleStarActorObjectID kVsBattleStarActorSettings n
      in copy_object_words ''VsStarActor'' [''PosX'', ''PosY'', ''PosZ''] starActor (copy_header ''VsStarActor'' starActor s1))"

definition player_prefix :: "int \<Rightarrow> string" where
  "player_prefix player = (if player = 0 then ''PlayerActor0'' else ''PlayerActor1'')"

definition CopyPlayerActor :: "ObjectScanSample \<Rightarrow> int \<Rightarrow> GameStateSample \<Rightarrow> GameStateSample" where
  "CopyPlayerActor actor player s =
     copy_object_words (player_prefix player)
       [''PosX'', ''PosY'', ''PosZ'', ''PrevX'', ''PrevY'', ''PrevZ'', ''VelX'', ''VelY'', ''VelZ''] actor
       (copy_header (player_prefix player) actor s)"

definition ReadPlayerTileDamage :: "ObjectScanSample \<Rightarrow> int \<Rightarrow> 'm NDS_scheme \<Rightarrow> GameStateSample \<Rightarrow> GameStateSample" where
  "ReadPlayerTileDamage actor player n s =
     (if OS_Found actor = 0 \<or> \<not> ReaderRangeValid (OS_Base actor + 0xBB3) 1 n then s
      else put_word (player_prefix player @ ''TileDamageType'') (ucast (ARM9Read8 (OS_Base actor + 0xBB3) n))
             (put_word (player_prefix player @ ''TileDamageFlags'') (ucast (ARM9Read8 (OS_Base actor + 0xBB2) n)) s))"

section \<open>Writing objects\<close>

definition kNetRandomBranchAddressAddr :: u32 where "kNetRandomBranchAddressAddr = 0x0208885C"
definition kGamePlayerPowerupAddr :: u32 where "kGamePlayerPowerupAddr = 0x0208B324"
definition kGamePlayerCountAddr :: u32 where "kGamePlayerCountAddr = 0x0208B348"
definition kGamePlayerScoreAddr :: u32 where "kGamePlayerScoreAddr = 0x0208B384"
definition kGameVsCoinCountAddr :: u32 where "kGameVsCoinCountAddr = 0x0208B37C"
definition kPlayerActorPlayerIDOffset :: u32 where "kPlayerActorPlayerIDOffset = 0x11E"
definition kPlayerBasePowerupStateOffset :: u32 where "kPlayerBasePowerupStateOffset = 0x7AB"
definition kPlayerBasePowerupFormStateOffset :: u32 where "kPlayerBasePowerupFormStateOffset = 0x7AC"
definition kPlayerBasePowerupSubStateOffset :: u32 where "kPlayerBasePowerupSubStateOffset = 0x7AD"
definition kStageSceneObjectID :: u16 where "kStageSceneObjectID = 0x0003"
definition kStageCameraObjectID :: u16 where "kStageCameraObjectID = 0x013C"

definition IsARM9MainRAMAddress :: "u32 \<Rightarrow> bool" where
  "IsARM9MainRAMAddress address \<longleftrightarrow> address AND 0xFF000000 = 0x02000000"

definition WriteMainRAMU32 :: "u32 \<Rightarrow> u32 \<Rightarrow> 'm NDS_scheme \<Rightarrow> bool \<times> 'm NDS_scheme" where
  "WriteMainRAMU32 offset v n =
     (case ND_MainRAM n of
        None \<Rightarrow> (False, n)
      | Some ram \<Rightarrow>
          if unat (ND_MainRAMMask n + 1) < unat offset + 4 then (False, n)
          else (True, n\<lparr>ND_MainRAM := Some (copy_in (unat offset) (u32_le v) ram)\<rparr>))"

text \<open>A run of words at offsets from an object.\<close>

definition write_object_words :: "u32 \<Rightarrow> (u32 \<times> u32) list \<Rightarrow> 'm NDS_scheme \<Rightarrow> 'm NDS_scheme" where
  "write_object_words offset ws n = foldl (\<lambda>n (k, v). snd (WriteMainRAMU32 (offset + k) v n)) n ws"

definition WriteObjectWordByIDAndSettings :: "u16 \<Rightarrow> u32 \<Rightarrow> u32 \<Rightarrow> u32 \<Rightarrow> 'm NDS_scheme \<Rightarrow> bool \<times> 'm NDS_scheme" where
  "WriteObjectWordByIDAndSettings expectedObjectID expectedSettings relativeOffset v n =
     (let actor = FindObjectByIDAndSettings None expectedObjectID expectedSettings n in
      if OS_Found actor = 0 \<or> OS_Base actor < 0x02000000 then (False, n)
      else (True, write_object_words (OS_Base actor - 0x02000000) [(relativeOffset, v)] n))"

text \<open>The object with a given identifier; a found one has a header that passes the checks.\<close>

definition guid_matches :: "u32 \<Rightarrow> 'm NDS_scheme \<Rightarrow> u32 \<Rightarrow> bool" where
  "guid_matches guid n offset \<longleftrightarrow>
     unat (offset + 4) + 4 \<le> unat (ND_MainRAMMask n + 1) \<and> rd32 (main_ram n) (unat (offset + 4)) = guid
     \<and> (let vtable = rd32 (main_ram n) (unat offset);
            objectID = rd16 (main_ram n) (unat (offset + 0x0C));
            stateType = rd16 (main_ram n) (unat (offset + 0x0E));
            flags = rd32 (main_ram n) (unat (offset + 0x10))
        in \<not> (vtable < 0x02000000 \<or> 0x02000000 + ram_length n \<le> vtable \<or> objectID = 0 \<or> 0x400 \<le> objectID
             \<or> stateType \<noteq> 1 \<and> stateType \<noteq> 2 \<and> stateType \<noteq> 3 \<or> 0x10000000 \<le> flags))"

definition object_with_guid :: "u32 \<Rightarrow> 'm NDS_scheme \<Rightarrow> u32 option" where
  "object_with_guid guid n =
     (if ND_MainRAM n = None \<or> guid = 0 then None else List.find (guid_matches guid n) (scan_offsets 0x120 n))"

definition position_words :: "u32 \<times> u32 \<times> u32 \<Rightarrow> (u32 \<times> u32) list" where
  "position_words pos = (let (x, y, z) = pos in [(0x60, x), (0x64, y), (0x68, z)])"

definition both_position_words :: "u32 \<times> u32 \<times> u32 \<Rightarrow> (u32 \<times> u32) list" where
  "both_position_words pos = (let (x, y, z) = pos in position_words pos @ [(0x70, x), (0x74, y), (0x78, z)])"

definition WriteObjectPositionByGUID :: "u32 \<Rightarrow> u32 \<times> u32 \<times> u32 \<Rightarrow> 'm NDS_scheme \<Rightarrow> bool \<times> 'm NDS_scheme" where
  "WriteObjectPositionByGUID guid pos n =
     (case object_with_guid guid n of
        None \<Rightarrow> (False, n)
      | Some offset \<Rightarrow> (True, write_object_words offset (position_words pos) n))"

definition WriteObjectPositionByIDAndSettings :: "u16 \<Rightarrow> u32 \<Rightarrow> u32 \<times> u32 \<times> u32 \<Rightarrow> 'm NDS_scheme \<Rightarrow> bool \<times> 'm NDS_scheme" where
  "WriteObjectPositionByIDAndSettings expectedObjectID expectedSettings pos n =
     (let actor = FindObjectByIDAndSettings None expectedObjectID expectedSettings n in
      if OS_Found actor = 0 \<or> OS_Base actor < 0x02000000 then (False, n)
      else (True, write_object_words (OS_Base actor - 0x02000000) (both_position_words pos) n))"

definition WriteVsBattleStarCandidatePosition :: "u32 \<times> u32 \<times> u32 \<Rightarrow> 'm NDS_scheme \<Rightarrow> bool \<times> 'm NDS_scheme" where
  "WriteVsBattleStarCandidatePosition pos n =
     (let actor = FindVsBattleStarCandidate None n in
      if OS_Found actor = 0 \<or> OS_Base actor < 0x02000000 then (False, n)
      else (True, write_object_words (OS_Base actor - 0x02000000) (both_position_words pos) n))"

type_synonym ObjectTransform = "(u32 \<times> u32 \<times> u32) \<times> (u32 \<times> u32 \<times> u32) \<times> (u32 \<times> u32 \<times> u32)"

definition transform_writes :: "ObjectTransform \<Rightarrow> (u32 \<times> u32) list" where
  "transform_writes t =
     (let (pos, (px, py, pz), (vx, vy, vz)) = t in
      position_words pos @ [(0x70, px), (0x74, py), (0x78, pz), (0xD0, vx), (0xD4, vy), (0xD8, vz)])"

definition WriteObjectTransformByGUID :: "u32 \<Rightarrow> ObjectTransform \<Rightarrow> 'm NDS_scheme \<Rightarrow> bool \<times> 'm NDS_scheme" where
  "WriteObjectTransformByGUID guid t n =
     (case object_with_guid guid n of
        None \<Rightarrow> (False, n)
      | Some offset \<Rightarrow> (True, write_object_words offset (transform_writes t) n))"

definition WriteObjectTransformByBase :: "u32 \<Rightarrow> ObjectTransform \<Rightarrow> 'm NDS_scheme \<Rightarrow> bool \<times> 'm NDS_scheme" where
  "WriteObjectTransformByBase base t n =
     (if ND_MainRAM n = None \<or> base < 0x02000000 then (False, n)
      else
        let offset = base - 0x02000000
        in if ram_length n < offset + 0xDC then (False, n) else (True, write_object_words offset (transform_writes t) n))"

text \<open>Here the result tells whether every word was in range.\<close>

definition still_words :: "u32 \<times> u32 \<times> u32 \<Rightarrow> (u32 \<times> u32) list" where
  "still_words pos = both_position_words pos @ [(0x80, 0), (0x84, 0), (0x88, 0), (0xD0, 0), (0xD4, 0), (0xD8, 0)]"

definition WriteObjectTransformAndClearMotionByBase :: "u32 \<Rightarrow> u32 \<times> u32 \<times> u32 \<Rightarrow> 'm NDS_scheme \<Rightarrow> bool \<times> 'm NDS_scheme" where
  "WriteObjectTransformAndClearMotionByBase base pos n =
     (if ND_MainRAM n = None \<or> base < 0x02000000 then (False, n)
      else
        let offset = base - 0x02000000
        in (list_all (\<lambda>(k, v). fst (WriteMainRAMU32 (offset + k) v n)) (still_words pos),
            write_object_words offset (still_words pos) n))"

section \<open>Applying a sample\<close>

record GameStateApplyOptions =
  AO_RemotePlayerOnly :: bool
  AO_RemotePlayer :: int
  AO_CriticalGlobals :: bool
  AO_StageObjects :: bool
  AO_StarObjects :: bool
  AO_PlayerActors :: bool
  AO_StageSceneSettings :: u32

definition sample_triple :: "string \<Rightarrow> string \<Rightarrow> GameStateSample \<Rightarrow> u32 \<times> u32 \<times> u32" where
  "sample_triple prefix part s =
     (GS_Word s (prefix @ part @ ''X''), GS_Word s (prefix @ part @ ''Y''), GS_Word s (prefix @ part @ ''Z''))"

definition player_transform :: "int \<Rightarrow> GameStateSample \<Rightarrow> ObjectTransform" where
  "player_transform player s =
     (sample_triple (player_prefix player) ''Pos'' s, sample_triple (player_prefix player) ''Prev'' s,
      sample_triple (player_prefix player) ''Vel'' s)"

definition apply_remote_player :: "GameStateSample \<Rightarrow> int \<Rightarrow> 'm NDS_scheme \<Rightarrow> bool \<times> 'm NDS_scheme" where
  "apply_remote_player s player n =
     (let localPlayers = FindPlayerActors None n;
          actor = (if player = 0 then fst localPlayers else snd localPlayers)
      in if (player = 0 \<or> player = 1) \<and> GS_Word s (player_prefix player @ ''Found'') \<noteq> 0
         then WriteObjectTransformByBase (if OS_Found actor \<noteq> 0 then OS_Base actor else 0) (player_transform player s) n
         else (False, n))"

definition critical_words :: "(u32 \<times> string) list" where
  "critical_words = [(kNetRandomBranchAddressAddr, ''NetRandomBranchAddress''), (kGamePlayerCountAddr, ''PlayerCount''),
     (kGamePlayerBattleStarsAddr, ''Player0BattleStars''), (kGamePlayerBattleStarsAddr + 4, ''Player1BattleStars''),
     (kGamePlayerCoinsAddr, ''Player0Coins''), (kGamePlayerCoinsAddr + 4, ''Player1Coins''),
     (kGamePlayerScoreAddr, ''Player0Score''), (kGamePlayerScoreAddr + 4, ''Player1Score''),
     (kGamePlayerDisplayedStarsAddr, ''Player0DisplayedStars''), (kGamePlayerDisplayedStarsAddr + 4, ''Player1DisplayedStars''),
     (kGamePlayerDeathsAddr, ''Player0Deaths''), (kGamePlayerDeathsAddr + 4, ''Player1Deaths''),
     (kGamePlayerCollectedStarsAddr, ''Player0CollectedStars''), (kGamePlayerCollectedStarsAddr + 4, ''Player1CollectedStars''),
     (kGameVsCoinCountAddr, ''VsCoinCount'')]"

definition apply_globals :: "GameStateSample \<Rightarrow> 'm NDS_scheme \<Rightarrow> 'm NDS_scheme" where
  "apply_globals s n =
     (let n1 = ARM9Write32 kNetRandomValueAddr (GS_Word s ''NetRandomValue'') n;
          n2 = ARM9Write8 kNetRandomCallCountAddr (ucast (GS_Word s ''NetRandomCallCount'' AND 0xFF)) n1
      in foldl (\<lambda>n (addr, name). ARM9Write32 addr (GS_Word s name) n) n2 critical_words)"

definition apply_stage_objects :: "u32 \<Rightarrow> GameStateSample \<Rightarrow> 'm NDS_scheme \<Rightarrow> 'm NDS_scheme" where
  "apply_stage_objects sceneSettings s n =
     (let put = (\<lambda>objectID settings n (k, name). snd (WriteObjectWordByIDAndSettings objectID settings k (GS_Word s name) n));
          n1 = (if GS_Word s ''StageCameraFound'' \<noteq> 0
                then foldl (put kStageCameraObjectID 0) n [(0x190, ''StageCameraWord190''), (0x194, ''StageCameraWord194''),
                       (0x19C, ''StageCameraWord19C''), (0x1A0, ''StageCameraWord1A0'')] else n);
          n2 = (if GS_Word s ''StageSceneFound'' \<noteq> 0
                then foldl (put kStageSceneObjectID sceneSettings) n1 [(0x154, ''StageSceneWord154''), (0x160, ''StageSceneWord160'')]
                else n1)
      in if GS_Word s ''MovingHazardFound'' \<noteq> 0
         then snd (WriteObjectTransformByGUID (GS_Word s ''MovingHazardGUID'')
                (sample_triple ''MovingHazard'' ''Pos'' s, sample_triple ''MovingHazard'' ''Pos'' s,
                 (GS_Word s ''MovingHazardVelX'', GS_Word s ''MovingHazardVelY'', 0)) n2)
         else n2)"

definition apply_star_objects :: "GameStateSample \<Rightarrow> 'm NDS_scheme \<Rightarrow> 'm NDS_scheme" where
  "apply_star_objects s n =
     (let starPos = sample_triple ''VsStar'' ''Pos'' s; actorPos = sample_triple ''VsStarActor'' ''Pos'' s;
          n1 = (if GS_Word s ''VsStarFound'' \<noteq> 0
                then (let (ok, m) = WriteObjectPositionByGUID (GS_Word s ''VsStarGUID'') starPos n
                      in if ok then m else snd (WriteVsBattleStarCandidatePosition starPos m))
                else snd (WriteVsBattleStarCandidatePosition (0, 0, 0) n))
      in if GS_Word s ''VsStarActorFound'' \<noteq> 0
         then (let (ok, m) = WriteObjectPositionByGUID (GS_Word s ''VsStarActorGUID'') actorPos n1
               in if ok then m
                  else snd (WriteObjectPositionByIDAndSettings kVsBattleStarActorObjectID kVsBattleStarActorSettings actorPos m))
         else snd (WriteObjectPositionByIDAndSettings kVsBattleStarActorObjectID kVsBattleStarActorSettings (0, 0, 0) n1))"

definition apply_player_actor :: "GameStateSample \<Rightarrow> int \<Rightarrow> 'm NDS_scheme \<Rightarrow> 'm NDS_scheme" where
  "apply_player_actor s player n =
     (if GS_Word s (player_prefix player @ ''Found'') \<noteq> 0
      then snd (WriteObjectTransformByGUID (GS_Word s (player_prefix player @ ''GUID'')) (player_transform player s) n) else n)"

definition ApplyGameState :: "GameStateSample \<Rightarrow> GameStateApplyOptions \<Rightarrow> 'm NDS_scheme \<Rightarrow> bool \<times> 'm NDS_scheme" where
  "ApplyGameState s options n =
     (if ND_MainRAM n = None then (False, n)
      else if AO_RemotePlayerOnly options then apply_remote_player s (AO_RemotePlayer options) n
      else
        let n1 = (if AO_CriticalGlobals options then apply_globals s n else n);
            n2 = (if AO_StageObjects options then apply_stage_objects (AO_StageSceneSettings options) s n1 else n1);
            n3 = (if AO_StarObjects options then apply_star_objects s n2 else n2)
        in (False, if AO_PlayerActors options then apply_player_actor s 1 (apply_player_actor s 0 n3) else n3))"

text \<open>The pump of the network and the local player are the hooks of the caller.\<close>

definition apply_due :: "int \<Rightarrow> u32 \<Rightarrow> SyncContext \<Rightarrow> bool" where
  "apply_due instanceID frame x \<longleftrightarrow>
     SX_Enabled x \<and> SY_GameApplyEnabled (SX_StateSync x)
     \<and> (SY_GameApplyRemotePlayerOnly (SX_StateSync x) \<or> SX_Client x) \<and> sync_instance instanceID
     \<and> SX_SessionReady x \<and> CC_SharedLogicalEpoch (SX_Connection x) \<le> frame"

definition apply_options :: "int \<Rightarrow> SyncContext \<Rightarrow> GameStateApplyOptions" where
  "apply_options localPlayer x =
     (let config = SX_StateSync x in
      \<lparr>AO_RemotePlayerOnly = SY_GameApplyRemotePlayerOnly config,
       AO_RemotePlayer = (if SY_GameApplyRemotePlayerOnly config then localPlayer XOR 1 else 0),
       AO_CriticalGlobals = SY_GameApplyCriticalGlobals config, AO_StageObjects = SY_GameApplyStageObjects config,
       AO_StarObjects = SY_GameApplyStarObjects config, AO_PlayerActors = SY_GameApplyPlayerActors config,
       AO_StageSceneSettings = SX_StageSceneSettings x\<rparr>)"

definition ApplyRemote ::
  "(SyncContext \<Rightarrow> SyncContext) \<Rightarrow> int \<Rightarrow> int \<Rightarrow> u32 \<Rightarrow> 'm NDS_scheme \<Rightarrow> SyncContext \<Rightarrow> 'm NDS_scheme \<times> SyncContext" where
  "ApplyRemote pumpNetwork localPlayer instanceID frame n x =
     (if \<not> apply_due instanceID frame x \<or> ND_MainRAM n = None then (n, x)
      else
        let x1 = pumpNetwork x
        in (case FindLatestGameState instanceID frame (SS_RemoteState (SX_Runtime x1)) of
              None \<Rightarrow> (n, x1)
            | Some (sample, sampleFrame) \<Rightarrow> (snd (ApplyGameState sample (apply_options localPlayer x) n), x1)))"

section \<open>The hooks that look for actors\<close>

definition ApplyPlayerStickToStar :: "int \<Rightarrow> u32 \<Rightarrow> HooksContext \<Rightarrow> 'm NDS_scheme \<Rightarrow> 'm NDS_scheme" where
  "ApplyPlayerStickToStar instanceID frame x n =
     (let p = HX_Patches x in
      if PC_PlayerStickToStarStartFrame p = 0 \<and> PC_PlayerStickToStarEndFrame p = 0 then n
      else if frame < PC_PlayerStickToStarStartFrame p \<or> PC_PlayerStickToStarEndFrame p < frame then n
      else if \<not> HookIsValidInstance instanceID \<or> ND_MainRAM n = None then n
      else
        let actorStar = FindObjectByIDAndSettings None kVsBattleStarActorObjectID kVsBattleStarActorSettings n;
            star = (if OS_Found actorStar = 0 then FindVsBattleStarCandidate None n else actorStar);
            player = (if PC_PlayerStickToStarSlot p = 1 then snd (FindPlayerActors None n) else fst (FindPlayerActors None n))
        in if OS_Found star = 0 \<or> OS_Found player = 0 then n
           else snd (WriteObjectTransformAndClearMotionByBase (OS_Base player)
                  (OS_Word star ''PosX'', OS_Word star ''PosY'', OS_Word star ''PosZ'') n))"

definition write_actor_powerup :: "u8 \<times> u8 \<Rightarrow> 'm NDS_scheme \<Rightarrow> ObjectScanSample \<Rightarrow> 'm NDS_scheme" where
  "write_actor_powerup vs n actor =
     (if OS_Found actor = 0 \<or> \<not> IsARM9MainRAMAddress (OS_Base actor) then n
      else
        let player = ARM9Read8 (OS_Base actor + kPlayerActorPlayerIDOffset) n AND 1;
            v = (if player = 0 then fst vs else snd vs)
        in ARM9Write8 (OS_Base actor + kPlayerBasePowerupSubStateOffset) 0
             (ARM9Write8 (OS_Base actor + kPlayerBasePowerupFormStateOffset) v
               (ARM9Write8 (OS_Base actor + kPlayerBasePowerupStateOffset) v n)))"

definition WritePlayerPowerupPatch :: "u8 \<times> u8 \<Rightarrow> 'm NDS_scheme \<Rightarrow> 'm NDS_scheme" where
  "WritePlayerPowerupPatch vs n =
     (if ND_MainRAM n = None then n
      else
        let n1 = ARM9Write8 (kGamePlayerPowerupAddr + 1) (snd vs) (ARM9Write8 kGamePlayerPowerupAddr (fst vs) n);
            players = FindPlayerActors None n1
        in foldl (write_actor_powerup vs) n1 [fst players, snd players])"

definition ForcePlayerPowerups :: "int \<Rightarrow> u32 \<Rightarrow> HooksContext \<Rightarrow> 'm NDS_scheme \<Rightarrow> 'm NDS_scheme" where
  "ForcePlayerPowerups instanceID frame x n =
     (let p = HX_Patches x in
      if \<not> force_due (PC_ForcePlayerPowerupsEnabled p) instanceID frame (PC_ForcePlayerPowerupsStartFrame p)
           (PC_ForcePlayerPowerupsEndFrame p) n then n
      else WritePlayerPowerupPatch
             (ucast (PC_ForcePlayerPowerup0 p AND 0xFF), ucast (PC_ForcePlayerPowerup1 p AND 0xFF)) n)"

section \<open>The counters of the host reach the client\<close>

lemma put_word_get [simp]: "GS_Word (put_word name v s) = (GS_Word s)(name := v)"
  by (simp add: put_word_def)

lemma read_sample_words_other: "name \<notin> fst ` set table \<Longrightarrow> GS_Word (read_sample_words table n s) name = GS_Word s name"
  by (induction table arbitrary: s) (auto simp: read_sample_words_def)

lemma read_sample_words_at:
  "distinct (map fst table) \<Longrightarrow> (name, width, addr) \<in> set table \<Longrightarrow> GS_Word (read_sample_words table n s) name = bus_read width addr n"
proof (induction table arbitrary: s)
  case (Cons e table)
  obtain name' width' addr' where e: "e = (name', width', addr')"
    by (cases e)
  have step: "read_sample_words (e # table) n s = read_sample_words table n (put_word name' (bus_read width' addr' n) s)"
    by (simp add: read_sample_words_def e)
  show ?case
  proof (cases "name = name'")
    case True
    then have "name \<notin> fst ` set table" "width = width'" "addr = addr'"
      using Cons.prems by (force simp: e)+
    then show ?thesis
      by (simp add: step True read_sample_words_other)
  next
    case False
    then show ?thesis
      using Cons.IH Cons.prems False unfolding step by (simp add: e)
  qed
qed simp

lemma global_names: "distinct (map fst global_words)"
  by (simp add: global_words_def)

lemma core_names: "distinct (map fst core_words_after)"
  by (simp add: core_words_after_def)

definition write_cells :: "(nat \<times> u32) list \<Rightarrow> 'm NDS_scheme \<Rightarrow> 'm NDS_scheme" where
  "write_cells ws n = foldl (\<lambda>n (off, v). ARM9Write32 (ram_addr off) v n) n ws"

lemma write_cells_snoc: "write_cells (ws @ [(off, v)]) n = ARM9Write32 (ram_addr off) v (write_cells ws n)"
  by (simp add: write_cells_def)

lemma write_cells_full:
  assumes "full_ram n" "\<forall>(off, v) \<in> set ws. off mod 4 = 0 \<and> off < 0x400000"
  shows "full_ram (write_cells ws n)"
  using assms(2)
proof (induction ws rule: rev_induct)
  case (snoc w ws)
  obtain off v where w: "w = (off, v)"
    by force
  then have "off mod 4 = 0" "off < 0x400000"
    using snoc.prems by auto
  moreover from this have "off + 4 \<le> 0x400000"
    by presburger
  ultimately show ?case
    using snoc by (simp add: w write_cells_snoc ARM9Write32_poke poke_full)
qed (simp add: write_cells_def assms(1))

lemma aligned_outside: "k mod 4 = 0 \<Longrightarrow> off mod 4 = 0 \<Longrightarrow> k \<noteq> off \<Longrightarrow> outside k 4 off 4"
  unfolding outside_def by presburger

lemma write_cells_word:
  assumes "full_ram n" "\<forall>(off, v) \<in> set ws. off mod 4 = 0 \<and> off < 0x400000" "k mod 4 = 0" "k < 0x400000"
  shows "rd32 (main_ram (write_cells ws n)) k = (case map_of (rev ws) k of None \<Rightarrow> rd32 (main_ram n) k | Some v \<Rightarrow> v)"
  using assms(2)
proof (induction ws rule: rev_induct)
  case (snoc w ws)
  obtain off v where w: "w = (off, v)"
    by force
  have off: "off mod 4 = 0" "off < 0x400000" "off + 4 \<le> 0x400000" "k + 4 \<le> 0x400000"
    using snoc.prems w assms(3,4) by auto
  have full: "full_ram (write_cells ws n)"
    using snoc.prems by (intro write_cells_full assms(1)) auto
  show ?case
    using snoc off full assms(3) aligned_outside [of k off]
    by (simp add: w write_cells_snoc ARM9Write32_poke rd32_poke_same rd32_poke_other)
qed (simp add: write_cells_def)

lemma write_cells_byte:
  assumes "full_ram n" "\<forall>(off, v) \<in> set ws. off mod 4 = 0 \<and> off < 0x400000 \<and> outside i 1 off 4" "i < 0x400000"
  shows "main_ram (write_cells ws n) ! i = main_ram n ! i"
  using assms(2)
proof (induction ws rule: rev_induct)
  case (snoc w ws)
  obtain off v where w: "w = (off, v)"
    by force
  have off: "off mod 4 = 0" "off < 0x400000" "outside i 1 off 4" "off + 4 \<le> 0x400000"
    using snoc.prems w by auto
  have full: "full_ram (write_cells ws n)"
    using snoc.prems by (intro write_cells_full assms(1)) auto
  show ?case
    using snoc off full assms(3)
    by (simp add: w write_cells_snoc ARM9Write32_poke) (auto simp: poke_nth outside_def)
qed (simp add: write_cells_def)

text \<open>The cells the critical globals are read from and written to.\<close>

definition counter_cells :: "(string \<times> bus_width \<times> u32) list" where
  "counter_cells = [(''NetRandomValue'', Bus32, 0x02088A68), (''NetRandomCallCount'', Bus8, 0x02088A48),
     (''NetRandomBranchAddress'', Bus32, 0x0208885C), (''PlayerCount'', Bus32, 0x0208B348),
     (''Player0BattleStars'', Bus32, 0x0208B36C), (''Player1BattleStars'', Bus32, 0x0208B370),
     (''Player0Coins'', Bus32, 0x0208B37C), (''Player1Coins'', Bus32, 0x0208B380),
     (''Player0Score'', Bus32, 0x0208B384), (''Player1Score'', Bus32, 0x0208B388),
     (''Player0DisplayedStars'', Bus32, 0x0208B38C), (''Player1DisplayedStars'', Bus32, 0x0208B390),
     (''Player0Deaths'', Bus32, 0x0208B394), (''Player1Deaths'', Bus32, 0x0208B398),
     (''Player0CollectedStars'', Bus32, 0x0208B39C), (''Player1CollectedStars'', Bus32, 0x0208B3A0),
     (''VsCoinCount'', Bus32, 0x0208B37C)]"

lemma counter_cell_tables:
  "\<forall>c \<in> set counter_cells. c \<in> set global_words \<or> c \<in> set core_words_after \<and> fst c \<notin> fst ` set global_words"
  by code_simp

lemma counter_cells_wire: "\<forall>c \<in> set counter_cells. fst c \<in> set GameStateWireFields"
  by code_simp

lemma counters_read:
  assumes "(name, width, addr) \<in> set counter_cells"
  shows "GS_Word (ReadPlayerAndCameraGlobals n (ReadCoreState r n s)) name = bus_read width addr n"
  using counter_cell_tables assms
  by (force simp: ReadPlayerAndCameraGlobals_def ReadCoreState_def read_sample_words_at [OF global_names]
      read_sample_words_at [OF core_names] read_sample_words_other)

definition critical_cells :: "(nat \<times> string) list" where
  "critical_cells = [(0x8885C, ''NetRandomBranchAddress''), (0x8B348, ''PlayerCount''), (0x8B36C, ''Player0BattleStars''),
     (0x8B370, ''Player1BattleStars''), (0x8B37C, ''Player0Coins''), (0x8B380, ''Player1Coins''), (0x8B384, ''Player0Score''),
     (0x8B388, ''Player1Score''), (0x8B38C, ''Player0DisplayedStars''), (0x8B390, ''Player1DisplayedStars''),
     (0x8B394, ''Player0Deaths''), (0x8B398, ''Player1Deaths''), (0x8B39C, ''Player0CollectedStars''),
     (0x8B3A0, ''Player1CollectedStars''), (0x8B37C, ''VsCoinCount'')]"

lemma critical_words_cells: "critical_words = map (\<lambda>(off, name). (ram_addr off, name)) critical_cells"
  by (simp add: critical_words_def critical_cells_def hook_addresses kNetRandomBranchAddressAddr_def kGamePlayerCountAddr_def
      kGamePlayerScoreAddr_def kGameVsCoinCountAddr_def)

lemma apply_globals_cells:
  "apply_globals s n = write_cells (map (\<lambda>(off, name). (off, GS_Word s name)) critical_cells)
     (ARM9Write8 (ram_addr 0x88A48) (ucast (GS_Word s ''NetRandomCallCount'' AND 0xFF))
       (ARM9Write32 (ram_addr 0x88A68) (GS_Word s ''NetRandomValue'') n))"
  by (simp add: apply_globals_def write_cells_def critical_words_cells foldl_map case_prod_beta Let_def
      kNetRandomValueAddr_def kNetRandomCallCountAddr_def)

lemma byte_of_low: "ucast (ucast (b :: u8) AND 0xFF :: u32) = b"
proof -
  have "ucast (ucast b AND mask 8 :: u32) = b"
    by (rule bit_word_eqI) (auto simp: bit_simps)
  then show ?thesis
    by (simp add: mask_eq_exp_minus_1)
qed

lemma apply_globals_reads:
  assumes "full_ram n" "(name, width, addr) \<in> set counter_cells" "GS_Word s ''Player0Coins'' = GS_Word s ''VsCoinCount''"
    "GS_Word s ''NetRandomCallCount'' = ucast (b :: u8)"
  shows "bus_read width addr (apply_globals s n) = GS_Word s name"
proof -
  let ?v = "GS_Word s ''NetRandomValue''"
  define n2 where "n2 = poke 0x88A48 [b] (poke 0x88A68 (u32_le ?v) n)"
  define ws where "ws = map (\<lambda>(off, name). (off, GS_Word s name)) critical_cells"
  have full: "full_ram n2"
    using assms(1) by (simp add: n2_def poke_full)
  have m: "apply_globals s n = write_cells ws n2"
    using assms(1,4) ARM9Write32_poke [of n "0x88A68" ?v]
      ARM9Write8_poke [of "poke 0x88A68 (u32_le ?v) n" "0x88A48" b]
    unfolding apply_globals_cells ws_def n2_def by (simp add: poke_full byte_of_low)
  have ws: "\<forall>(off, v) \<in> set ws. off mod 4 = 0 \<and> off < 0x400000"
    by (simp add: ws_def critical_cells_def)
  have word: "ARM9Read32 (ram_addr k) (write_cells ws n2)
      = (case map_of (rev ws) k of None \<Rightarrow> rd32 (main_ram n2) k | Some v \<Rightarrow> v)" if "k mod 4 = 0" "k < 0x400000" for k
    using that write_cells_word [OF full ws that] write_cells_full [OF full ws] by (simp add: ARM9Read32_ram)
  have found: "ARM9Read32 (ram_addr k) (write_cells ws n2) = GS_Word s name"
    if "k mod 4 = 0" "k < 0x400000" "map_of (rev ws) k = Some (GS_Word s name)" for k name
    using word that by simp
  have cells: "ARM9Read32 (ram_addr 0x8885C) (write_cells ws n2) = GS_Word s ''NetRandomBranchAddress''"
    "ARM9Read32 (ram_addr 0x8B348) (write_cells ws n2) = GS_Word s ''PlayerCount''"
    "ARM9Read32 (ram_addr 0x8B36C) (write_cells ws n2) = GS_Word s ''Player0BattleStars''"
    "ARM9Read32 (ram_addr 0x8B370) (write_cells ws n2) = GS_Word s ''Player1BattleStars''"
    "ARM9Read32 (ram_addr 0x8B37C) (write_cells ws n2) = GS_Word s ''VsCoinCount''"
    "ARM9Read32 (ram_addr 0x8B380) (write_cells ws n2) = GS_Word s ''Player1Coins''"
    "ARM9Read32 (ram_addr 0x8B384) (write_cells ws n2) = GS_Word s ''Player0Score''"
    "ARM9Read32 (ram_addr 0x8B388) (write_cells ws n2) = GS_Word s ''Player1Score''"
    "ARM9Read32 (ram_addr 0x8B38C) (write_cells ws n2) = GS_Word s ''Player0DisplayedStars''"
    "ARM9Read32 (ram_addr 0x8B390) (write_cells ws n2) = GS_Word s ''Player1DisplayedStars''"
    "ARM9Read32 (ram_addr 0x8B394) (write_cells ws n2) = GS_Word s ''Player0Deaths''"
    "ARM9Read32 (ram_addr 0x8B398) (write_cells ws n2) = GS_Word s ''Player1Deaths''"
    "ARM9Read32 (ram_addr 0x8B39C) (write_cells ws n2) = GS_Word s ''Player0CollectedStars''"
    "ARM9Read32 (ram_addr 0x8B3A0) (write_cells ws n2) = GS_Word s ''Player1CollectedStars''"
    by (rule found; simp add: ws_def critical_cells_def)+
  have "rd32 (main_ram n2) 0x88A68 = ?v"
    using assms(1) by (simp add: n2_def rd32_poke_other rd32_poke_same poke_full outside_def)
  then have random: "ARM9Read32 0x02088A68 (write_cells ws n2) = ?v"
    using word [of "0x88A68"] by (simp add: ws_def critical_cells_def)
  have "main_ram (write_cells ws n2) ! 0x88A48 = main_ram n2 ! 0x88A48"
    by (rule write_cells_byte [OF full]) (simp_all add: ws_def critical_cells_def outside_def)
  then have count: "ARM9Read8 0x02088A48 (write_cells ws n2) = b"
    using ARM9Read8_ram [OF write_cells_full [OF full ws], of "0x88A48"] assms(1) by (simp add: n2_def poke_nth poke_full)
  show ?thesis
    using assms(2) cells [simplified] random count assms(3,4) unfolding m counter_cells_def by auto
qed

text \<open>C33: The client takes over the counters of the host. The host reads its game into a sample (the
  parts of the reader that look for objects write other fields, so the sample agrees with the core and
  the player globals on the counters) and sends it. When the client applies the received sample with
  the critical globals and none of the objects, as the apply mode \<^verbatim>\<open>globals\<close> asks, every counter cell of
  its memory (random value, call count and branch, player count, stars, coins, scores, deaths) holds
  the value of the same cell of the host's memory. The coins of the first player and the coin count of
  the match, which share one cell, do not disturb this.\<close>

theorem client_counters_follow_host:
  assumes "full_ram host" "full_ram client" "apply_due i f x"
    and "\<not> SY_GameApplyRemotePlayerOnly (SX_StateSync x)" "SY_GameApplyCriticalGlobals (SX_StateSync x)"
    "\<not> SY_GameApplyStageObjects (SX_StateSync x)" "\<not> SY_GameApplyStarObjects (SX_StateSync x)"
    "\<not> SY_GameApplyPlayerActors (SX_StateSync x)"
    and "\<forall>name \<in> fst ` set counter_cells. GS_Word sample name = GS_Word (ReadPlayerAndCameraGlobals host (ReadCoreState r host s0)) name"
    and "sent = game_state_bytes (EncodeWireGameState g j gen sample hashes)"
    and "DecodeWireGameState (game_state_of_bytes sent) = Some d"
    and "FindLatestGameState i f (SS_RemoteState (SX_Runtime (pump x))) = Some (DG_Sample d, g)"
  shows "\<forall>(name, width, addr) \<in> set counter_cells.
    bus_read width addr (fst (ApplyRemote pump localPlayer i f client x)) = bus_read width addr host"
proof -
  have d: "DG_Sample d = \<lparr>GS_Word = copy_words GameStateWireFields (GS_Word sample), GS_Hash = SH_Basic hashes\<rparr>"
    using assms(11) unfolding assms(10) decode_encode_game_state by auto
  have same: "GS_Word (DG_Sample d) name = bus_read width addr host" if "(name, width, addr) \<in> set counter_cells" for name width addr
  proof -
    have "name \<in> fst ` set counter_cells" "name \<in> set GameStateWireFields"
      using that counter_cells_wire by force+
    moreover from this(1) have "GS_Word sample name = bus_read width addr host"
      using assms(9) counters_read [OF that] by metis
    ultimately show ?thesis
      by (simp add: d copy_words_def)
  qed
  have coins: "GS_Word (DG_Sample d) ''Player0Coins'' = GS_Word (DG_Sample d) ''VsCoinCount''"
    "GS_Word (DG_Sample d) ''NetRandomCallCount'' = ucast (ARM9Read8 0x02088A48 host)"
    using same [of "''Player0Coins''" Bus32 "0x0208B37C"] same [of "''VsCoinCount''" Bus32 "0x0208B37C"]
      same [of "''NetRandomCallCount''" Bus8 "0x02088A48"] by (simp_all add: counter_cells_def)
  obtain ram where "ND_MainRAM client = Some ram"
    using assms(2) by (auto simp: full_ram_def)
  then have "fst (ApplyRemote pump localPlayer i f client x) = apply_globals (DG_Sample d) client"
    using assms(3-8,12) by (simp add: ApplyRemote_def Let_def ApplyGameState_def apply_options_def)
  then show ?thesis
    using apply_globals_reads [OF assms(2) _ coins] same by auto
qed

text \<open>A client in the apply mode \<^verbatim>\<open>globals\<close>, and a host with five stars.\<close>

definition globals_client :: SyncContext where
  "globals_client = sample_sync_context\<lparr>SX_Client := True,
     SX_StateSync := StateSyncConfig_default\<lparr>SY_GameApplyEnabled := True, SY_GameApplyCriticalGlobals := True,
       SY_GameApplyStageObjects := False, SY_GameApplyStarObjects := False, SY_GameApplyPlayerActors := False,
       SY_GameApplyRemotePlayerOnly := False\<rparr>\<rparr>"

definition five_star_host :: NDS where
  "five_star_host = poke 0x8B36C (u32_le 5) sample_nds"

theorem client_counters_follow_host_witness:
  "\<exists>pump. ARM9Read32 0x0208B36C (fst (ApplyRemote pump 0 0 120 sample_nds globals_client)) = 5
    \<and> ARM9Read32 0x0208B36C sample_nds = 0x07070707"
proof -
  let ?r = "\<lparr>AR_R13 = 0, AR_R14 = 0, AR_R15 = 4, AR_CPSR = 0\<rparr>"
  let ?s = "ReadPlayerAndCameraGlobals five_star_host (ReadCoreState ?r five_star_host GameStateSample_default)"
  let ?sent = "game_state_bytes (EncodeWireGameState 60 0 0 ?s GameStateSyncHashes_default)"
  obtain d where d: "DecodeWireGameState (game_state_of_bytes ?sent) = Some d" "DG_Frame d = 60" "DG_Instance d = 0"
    using decode_encode_game_state by force
  let ?pump = "\<lambda>x. x\<lparr>SX_Runtime := StateSyncRuntime_init\<lparr>SS_RemoteState := StoreGameState d RemoteStateStore_init\<rparr>\<rparr>"
  have "fm_last_upto (GameStateKey 0 120) (RM_GameStates (StoreGameState d RemoteStateStore_init)) = Some (GameStateKey 0 60)"
    using GameStateKey_le [of 0 60 120] d(2,3)
    by (auto simp: fm_last_upto_Some StoreGameState_def RemoteStateStore_init_def int_of_u32_def Let_def)
  moreover have "\<not> GameStateKey 0 60 < GameStateKey 0 0"
    using GameStateKey_le [of 0 0 60] by (simp add: not_less)
  ultimately have latest: "FindLatestGameState 0 120 (SS_RemoteState (SX_Runtime (?pump globals_client))) = Some (DG_Sample d, 60)"
    using d(2,3) by (simp add: FindLatestGameState_def StoreGameState_def RemoteStateStore_init_def int_of_u32_def ucast_GameStateKey Let_def)
  have "full_ram sample_nds"
    by (simp add: full_ram_def sample_nds_def)
  then have full: "full_ram sample_nds" "full_ram five_star_host"
    by (simp_all add: five_star_host_def poke_full)
  have due: "apply_due 0 120 globals_client"
    by (simp add: apply_due_def globals_client_def sample_sync_context_def sync_instance_def ConnectionConfig_default_def)
  have "\<forall>(name, width, addr) \<in> set counter_cells.
      bus_read width addr (fst (ApplyRemote ?pump 0 0 120 sample_nds globals_client)) = bus_read width addr five_star_host"
    by (rule client_counters_follow_host [where pump = ?pump and r = ?r and ?s0.0 = GameStateSample_default,
        OF full(2,1) due _ _ _ _ _ _ refl d(1) latest])
      (simp_all add: globals_client_def)
  then have "ARM9Read32 0x0208B36C (fst (ApplyRemote ?pump 0 0 120 sample_nds globals_client)) = ARM9Read32 0x0208B36C five_star_host"
    by (simp add: counter_cells_def)
  moreover have "ARM9Read32 0x0208B36C five_star_host = 5"
    using ARM9Read32_ram [of five_star_host "0x8B36C"] full by (simp add: five_star_host_def rd32_poke_same)
  moreover have "ARM9Read32 0x0208B36C sample_nds = 0x07070707"
    using ARM9Read32_ram [of sample_nds "0x8B36C"] full(1) by (simp add: rd32_def u32_of_bytes_def sample_nds_def)
  ultimately show ?thesis
    by (intro exI [of _ ?pump]) simp
qed

end
