(* ===== verification/Bridge_Integration.thy ===== *)
theory Bridge_Integration
  imports Live_Packets Session_Waits
begin

text \<open>
  \<^verbatim>\<open>NsmbPacketBridgeIntegration.cpp\<close>: the packet bridge between the network, the store of live
  packets and the memory of the game. The context holds the configuration, the runtime of the
  bridge, the transport, the packets ENet accepted and the two stores of \<^verbatim>\<open>ARM.cpp\<close>. The hooks of
  the caller are parameters; \<^verbatim>\<open>RecordAppliedInput\<close> is the list of applied inputs that
  \<open>WriteJitScratchInputs\<close> returns. A null \<^verbatim>\<open>nds\<close> is \<^term>\<open>None\<close>. Trace output is left out.
\<close>

section \<open>Data\<close>

record BridgeContext =
  IX_Config :: PacketBridgeConfig
  IX_RuntimePatch :: RuntimePatchConfig
  IX_Input :: InputConfig
  IX_Connection :: ConnectionConfig
  IX_State :: BridgeRuntime
  IX_Transport :: TransportState
  IX_Generation :: u32
  IX_Wire :: "payload list"
  IX_Live :: live_packets
  IX_Local :: "NSMLLocalPacketCapture option"

record 'a IntegrationHooks =
  IH_SendMatchSeedLocked :: "BridgeContext \<Rightarrow> BridgeContext"
  IH_PumpNetworkLocked :: "'a option \<Rightarrow> u32 \<Rightarrow> BridgeContext \<Rightarrow> BridgeContext"
  IH_PrepareRuntimeInput :: "InputState \<Rightarrow> InputState"
  IH_ApplyAutomatedInput :: "int \<Rightarrow> u32 \<Rightarrow> 'a \<Rightarrow> int \<Rightarrow> InputState \<Rightarrow> InputState"

definition kGameStageGroupAddr :: u32 where "kGameStageGroupAddr = 0x02085A18"
definition kGameLocalPlayerIDAddr :: u32 where "kGameLocalPlayerIDAddr = 0x02085A7C"
definition kGameVsModeAddr :: u32 where "kGameVsModeAddr = 0x02085A84"
definition kNetPacketTickAddr :: u32 where "kNetPacketTickAddr = 0x020888E0"
definition kNetPacketActionAddr :: u32 where "kNetPacketActionAddr = 0x020888E4"
definition kPacketBridgeJitScratchBaseAddr :: u32 where "kPacketBridgeJitScratchBaseAddr = 0x023C1200"
definition kPacketBridgeJitScratchTickAddr :: u32 where "kPacketBridgeJitScratchTickAddr = kPacketBridgeJitScratchBaseAddr"
definition kPacketBridgeJitScratchActionAddr :: u32 where "kPacketBridgeJitScratchActionAddr = kPacketBridgeJitScratchBaseAddr + 0x04"
definition kPacketBridgeJitScratchKeysAddr :: u32 where "kPacketBridgeJitScratchKeysAddr = kPacketBridgeJitScratchBaseAddr + 0x08"
definition kPacketBridgeJitScratchPacketsAddr :: u32 where "kPacketBridgeJitScratchPacketsAddr = kPacketBridgeJitScratchBaseAddr + 0x40"

section \<open>The packet on the wire\<close>

definition nsml_to_bytes :: "WireNSMLPacket \<Rightarrow> payload" where
  "nsml_to_bytes p = u32_le (NW_Magic p) @ u32_le (NW_Version p) @ u32_le (NW_Kind p) @ u32_le (NW_Generation p)
     @ u32_le (NW_Frame p) @ u32_le (NW_Player p) @ u32_le (NW_Tick p) @ NW_Packet p"

definition nsml_of_bytes :: "payload \<Rightarrow> WireNSMLPacket" where
  "nsml_of_bytes bs = \<lparr>NW_Magic = rd32 bs 0, NW_Version = rd32 bs 4, NW_Kind = rd32 bs 8, NW_Generation = rd32 bs 12,
     NW_Frame = rd32 bs 16, NW_Player = rd32 bs 20, NW_Tick = rd32 bs 24, NW_Packet = drop 28 bs\<rparr>"

section \<open>Sending\<close>

definition IsMarioVsLuigiGameplay :: "'m NDS_scheme option \<Rightarrow> bool" where
  "IsMarioVsLuigiGameplay nds \<longleftrightarrow>
     (case nds of None \<Rightarrow> False
      | Some n \<Rightarrow> ARM9Read32 kGameStageGroupAddr n = 9 \<and> ARM9Read32 kGameVsModeAddr n = 1)"

definition SendWirePacketNowLocked :: "NetEnv \<Rightarrow> WireNSMLPacket \<Rightarrow> BridgeContext \<Rightarrow> BridgeContext" where
  "SendWirePacketNowLocked env packet c =
     (let data = nsml_to_bytes packet;
          result = fst (Send (NE_PacketCreate env data) (NE_PeerSend env data) True (IX_Transport c))
      in if result = 0 then c\<lparr>IX_Wire := IX_Wire c @ [data]\<rparr> else c)"

definition FlushDelayedPacketsLocked :: "NetEnv \<Rightarrow> u32 \<Rightarrow> BridgeContext \<Rightarrow> BridgeContext" where
  "FlushDelayedPacketsLocked env frame c =
     (if \<not> BC_Enabled (IX_Config c) \<or> \<not> IsConnected (IX_Transport c) \<or> DelayedPacketCount (IX_State c) = 0 then c
      else
        let (packets, r) = TakeDueOutgoingPackets frame (NE_Now env) (IX_State c)
        in foldl (\<lambda>c packet. SendWirePacketNowLocked env packet c) (c\<lparr>IX_State := r\<rparr>) packets)"

definition SendPacketLocked :: "'a IntegrationHooks \<Rightarrow> NetEnv \<Rightarrow> u32 \<Rightarrow> u32 \<Rightarrow> u32 \<Rightarrow> u8 list \<Rightarrow> BridgeContext \<Rightarrow> BridgeContext" where
  "SendPacketLocked hooks env frame player tick packetBytes c =
     (if \<not> BC_Enabled (IX_Config c) \<or> \<not> IsConnected (IX_Transport c) \<or> 1 < player then c
      else
        let c1 = IH_SendMatchSeedLocked hooks c;
            (immediate, r) = PrepareOutgoingPacket (IX_Generation c1) frame player tick (Some packetBytes)
              (IX_Config c1) (NE_Now env) (IX_State c1);
            c2 = c1\<lparr>IX_State := r\<rparr>;
            c3 = (case immediate of None \<Rightarrow> c2 | Some packet \<Rightarrow> SendWirePacketNowLocked env packet c2)
        in if BC_TraceEnabled (IX_Config c3) then c3\<lparr>IX_State := snd (ShouldTraceSentTick tick (IX_State c3))\<rparr> else c3)"

definition WriteARM9U32 :: "u32 \<Rightarrow> u32 \<Rightarrow> 'm NDS_scheme option \<Rightarrow> bool \<times> 'm NDS_scheme option" where
  "WriteARM9U32 address val nds =
     (case nds of
        None \<Rightarrow> (False, nds)
      | Some n \<Rightarrow>
          if ND_MainRAM n = None \<or> address < 0x02000000 then (False, nds)
          else
            let offset = address - 0x02000000; len = ND_MainRAMMask n + 1
            in if len \<le> offset \<or> len - offset < 4 then (False, nds)
               else (True, Some (ARM9Write32 address val n)))"

definition LocalPlayerID :: "BridgeContext \<Rightarrow> 'm NDS_scheme option \<Rightarrow> u32" where
  "LocalPlayerID c nds =
     (case nds of
        None \<Rightarrow> 0
      | Some n \<Rightarrow>
          if BC_Enabled (IX_Config c) \<and> 0 \<le> BC_LocalPlayerOverride (IX_Config c) \<and> BC_LocalPlayerOverride (IX_Config c) \<le> 1
          then u32_of_int (BC_LocalPlayerOverride (IX_Config c))
          else if BC_Enabled (IX_Config c) \<and> BC_AllowPreGame (IX_Config c) \<and> \<not> IsMarioVsLuigiGameplay nds
          then u32_of_int (CC_LocalInstance (IX_Connection c) AND 1)
          else ARM9Read32 kGameLocalPlayerIDAddr n AND 1)"

section \<open>Receiving\<close>

definition ReceivePacketLocked :: "payload option \<Rightarrow> bool \<Rightarrow> BridgeContext \<Rightarrow> BridgeContext" where
  "ReceivePacketLocked data hasNds c =
     (case data of
        None \<Rightarrow> c
      | Some bytes \<Rightarrow>
          let packet = nsml_of_bytes bytes
          in if length bytes \<noteq> kWireNSMLPacketSize \<or> \<not> IsAcceptedIncomingPacket packet (IX_Generation c) then c
             else
               let c1 = (if BC_Enabled (IX_Config c) \<and> hasNds
                         then c\<lparr>IX_Live := NSML_PushMarioVsLuigiRemotePacket (NW_Player packet) (NW_Packet packet) (IX_Live c)\<rparr>
                         else c\<lparr>IX_State := QueuePendingPacket packet (IX_State c)\<rparr>)
               in c1\<lparr>IX_State := snd (RecordReceivedPacket (NW_Player packet) (NW_Tick packet) (NW_Frame packet) (IX_State c1))\<rparr>)"

definition ApplyPendingPacketsLocked :: "bool \<Rightarrow> BridgeContext \<Rightarrow> BridgeContext" where
  "ApplyPendingPacketsLocked hasNds c =
     (if \<not> BC_Enabled (IX_Config c) \<or> \<not> hasNds \<or> PendingPacketCount (IX_State c) = 0 then c
      else
        let (packets, r) = TakePendingPackets (IX_State c)
        in c\<lparr>IX_State := r, IX_Live :=
             foldl (\<lambda>live packet. NSML_PushMarioVsLuigiRemotePacket (NW_Player packet) (NW_Packet packet) live)
               (IX_Live c) packets\<rparr>)"

definition BridgePumpLocked :: "'m NDS_scheme IntegrationHooks \<Rightarrow> NetEnv \<Rightarrow> 'm NDS_scheme option \<Rightarrow> u32 \<Rightarrow> BridgeContext \<Rightarrow> BridgeContext" where
  "BridgePumpLocked hooks env nds frame c =
     IH_SendMatchSeedLocked hooks
       (ApplyPendingPacketsLocked (nds \<noteq> None)
         (IH_PumpNetworkLocked hooks nds frame (FlushDelayedPacketsLocked env frame c)))"

section \<open>Capturing the local packet\<close>

definition capture_local :: "LiveEnv \<Rightarrow> 'm NDS_scheme \<Rightarrow> BridgeContext \<Rightarrow> (u8 list \<times> u32 \<times> u32) option \<times> BridgeContext" where
  "capture_local e n c =
     (let (taken, l) = NSML_TakeMarioVsLuigiLocalPacket (IX_Local c);
          c1 = c\<lparr>IX_Local := l\<rparr>
      in case taken of
           Some t \<Rightarrow> (Some t, c1)
         | None \<Rightarrow>
             if BC_DirectCaptureEnabled (IX_Config c1) then (NSML_BuildMarioVsLuigiLocalPacket e n, c1) else (None, c1))"

definition override_keys :: "InputState option \<Rightarrow> u8 list \<Rightarrow> u8 list" where
  "override_keys overrideInput packet =
     (case overrideInput of
        None \<Rightarrow> packet
      | Some input \<Rightarrow>
          let keys = NOT (KeyMask input) AND 0x0FFF
          in packet[2 := ucast keys, 3 := ucast (drop_bit 8 keys)])"

definition CaptureAndSendPacketLocked :: "LiveEnv \<Rightarrow> 'm NDS_scheme IntegrationHooks \<Rightarrow> NetEnv \<Rightarrow> u32
    \<Rightarrow> 'm NDS_scheme option \<Rightarrow> BridgeContext \<Rightarrow> BridgeContext" where
  "CaptureAndSendPacketLocked e hooks env frame nds c =
     (case nds of
        None \<Rightarrow> c
      | Some n \<Rightarrow>
          if \<not> BC_Enabled (IX_Config c) then c
          else
            case capture_local e n c of
              (None, c1) \<Rightarrow> c1
            | (Some (packet, tick, keys), c1) \<Rightarrow>
                let packet1 = override_keys (PacketInput frame (IX_State c1)) packet;
                    epoch = CC_SharedLogicalEpoch (IX_Connection c1);
                    forced = (BC_ForceTickEnabled (IX_Config c1) \<and> epoch \<le> frame \<and> 0 \<le> BC_ForceTickBase (IX_Config c1));
                    tick2 = (if forced then CanonicalTick (IX_Config c1) epoch frame tick else tick);
                    packet2 = (if forced then set_tick tick2 packet1 else packet1);
                    localPlayer = LocalPlayerID c1 nds;
                    c2 = c1\<lparr>IX_Live := NSML_PushMarioVsLuigiRemotePacket localPlayer packet2 (IX_Live c1)\<rparr>;
                    c3 = SendPacketLocked hooks env frame localPlayer tick2 packet2 c2
                in c3\<lparr>IX_State := PrunePacketInputs frame 240 (IX_State c3)\<rparr>)"

section \<open>Writes into the game\<close>

definition ForceTickIfNeeded :: "int \<Rightarrow> u32 \<Rightarrow> 'm NDS_scheme option \<Rightarrow> BridgeContext \<Rightarrow> 'm NDS_scheme option \<times> BridgeContext" where
  "ForceTickIfNeeded instanceID frame nds c =
     (case nds of
        None \<Rightarrow> (nds, c)
      | Some n \<Rightarrow>
          if \<not> BC_ForceTickEnabled (IX_Config c) \<or> instanceID < 0 \<or> 16 \<le> instanceID
             \<or> frame < CC_SharedLogicalEpoch (IX_Connection c) then (nds, c)
          else
            let (marked, r) = MarkForcedTickFrame instanceID frame (IX_State c);
                c1 = c\<lparr>IX_State := r\<rparr>
            in if \<not> marked then (nds, c1)
               else
                 let tick = CanonicalTick (IX_Config c1) (CC_SharedLogicalEpoch (IX_Connection c1)) frame
                       (ucast (ARM9Read16 kNetPacketTickAddr n))
                 in (Some (ARM9Write16 kNetPacketTickAddr (ucast tick) n), c1))"

definition ForceGameLocalPlayerIDIfNeeded :: "u32 \<Rightarrow> BridgeContext \<Rightarrow> 'm NDS_scheme option \<Rightarrow> 'm NDS_scheme option" where
  "ForceGameLocalPlayerIDIfNeeded frame c nds =
     (case nds of
        None \<Rightarrow> nds
      | Some n \<Rightarrow>
          if BC_ForceGameLocalPlayerID (IX_Config c) < 0 \<or> frame < BC_ForceGameLocalPlayerIDStartFrame (IX_Config c) then nds
          else if \<not> BC_ForceGameLocalPlayerIDEarly (IX_Config c) \<and> \<not> IsMarioVsLuigiGameplay nds then nds
          else Some (ARM9Write32 kGameLocalPlayerIDAddr (u32_of_int (BC_ForceGameLocalPlayerID (IX_Config c) AND 1)) n))"

section \<open>The frame throttle\<close>

text \<open>A round holds the hooks of one iteration, the environment of its pump and the time of the deadline test.\<close>

record 'a bridge_round =
  GR_Hooks :: "'a IntegrationHooks"
  GR_Env :: NetEnv
  GR_Now :: time_point

definition throttle_done :: "u32 \<Rightarrow> u32 \<Rightarrow> BridgeContext \<Rightarrow> bool" where
  "throttle_done remotePlayer frame c \<longleftrightarrow>
     (let remoteFrame = RP_Frame (ReceivedPacketProgress remotePlayer (IX_State c))
      in remoteFrame = kUnsetProgress \<or> remoteFrame < CC_SharedLogicalEpoch (IX_Connection c)
         \<or> int_of_u32 frame - int_of_u32 remoteFrame \<le> BC_MaxFrameLead (IX_Config c))"

definition throttle_pump :: "'m NDS_scheme bridge_round \<Rightarrow> 'm NDS_scheme option \<Rightarrow> u32 \<Rightarrow> BridgeContext \<Rightarrow> BridgeContext" where
  "throttle_pump r nds frame c =
     BridgePumpLocked (GR_Hooks r) (GR_Env r) nds frame
       (if BC_TraceEnabled (IX_Config c) then c\<lparr>IX_State := snd (ShouldTraceFrameThrottle frame (IX_State c))\<rparr> else c)"

fun bridge_throttle_loop :: "time_point \<Rightarrow> u32 \<Rightarrow> 'm NDS_scheme option \<Rightarrow> u32 \<Rightarrow> 'm NDS_scheme bridge_round list \<Rightarrow> BridgeContext
    \<Rightarrow> BridgeContext option" where
  "bridge_throttle_loop start remotePlayer nds frame [] c =
     (if throttle_done remotePlayer frame c then Some c else None)"
| "bridge_throttle_loop start remotePlayer nds frame (r # rs) c =
     (if throttle_done remotePlayer frame c then Some c
      else
        let c1 = throttle_pump r nds frame c
        in if 0 < BC_ThrottleTimeoutMs (IX_Config c1) \<and> BC_ThrottleTimeoutMs (IX_Config c1) \<le> elapsed_ms (GR_Now r) start
           then Some c1
           else bridge_throttle_loop start remotePlayer nds frame rs c1)"

definition BridgeThrottleFrameLead :: "time_point \<Rightarrow> 'm NDS_scheme option \<Rightarrow> u32 \<Rightarrow> 'm NDS_scheme bridge_round list \<Rightarrow> BridgeContext
    \<Rightarrow> BridgeContext option" where
  "BridgeThrottleFrameLead start nds frame rounds c =
     (if BC_MaxFrameLead (IX_Config c) < 0 \<or> nds = None \<or> frame < CC_SharedLogicalEpoch (IX_Connection c) then Some c
      else bridge_throttle_loop start (LocalPlayerID c nds XOR 1) nds frame rounds c)"

section \<open>The input scratch of the game\<close>

definition scratch_tick :: "BridgeContext \<Rightarrow> u32 \<Rightarrow> 'm NDS_scheme \<Rightarrow> u32 \<times> 'm NDS_scheme" where
  "scratch_tick c frame n =
     (let epoch = CC_SharedLogicalEpoch (IX_Connection c)
      in if IC_NetplayOnly (IX_Input c) \<and> epoch \<noteq> 0 \<and> epoch \<le> frame
         then let tick = (frame - epoch) AND 0xFFFF in (tick, ARM9Write16 kNetPacketTickAddr (ucast tick) n)
         else (ucast (ARM9Read16 kNetPacketTickAddr n), n))"

definition scratch_packet :: "u32 \<Rightarrow> u8 \<Rightarrow> InputState \<Rightarrow> 'm NDS_scheme \<Rightarrow> u8 list" where
  "scratch_packet tick action input n =
     (let keys = NOT (KeyMask input) AND 0x0FFF;
          packet = [ucast tick, ucast (drop_bit 8 tick), ucast keys, ucast (drop_bit 8 keys), action,
              if Touching input then 1 else 0, ucast (min (TouchX input) 255), ucast (min (TouchY input) 191)]
            @ map (\<lambda>index. ARM9Read8 (0x020888E8 + of_nat index) n) [0..<44]
      in packet[0x29 := ARM9Read8 0x02088A4C n])"

definition write_scratch_player :: "'m NDS_scheme IntegrationHooks \<Rightarrow> int \<Rightarrow> u32 \<Rightarrow> u32 \<Rightarrow> u8 \<Rightarrow> u32 \<Rightarrow> InputState
    \<Rightarrow> 'm NDS_scheme \<Rightarrow> InputState \<times> 'm NDS_scheme" where
  "write_scratch_player hooks instanceID frame tick action player selected n =
     (let input = IH_ApplyAutomatedInput hooks instanceID frame n (uint player) (IH_PrepareRuntimeInput hooks selected);
          keys = NOT (KeyMask input) AND 0x0FFF;
          n1 = ARM9Write16 (kPacketBridgeJitScratchKeysAddr + player * 2) (ucast keys) n
      in (input, write_bytes (kPacketBridgeJitScratchPacketsAddr + player * 0x40) (scratch_packet tick action input n1) n1))"

definition WriteJitScratchInputs :: "'m NDS_scheme IntegrationHooks \<Rightarrow> BridgeContext \<Rightarrow> int \<Rightarrow> u32 \<Rightarrow> int \<Rightarrow> InputState \<Rightarrow> InputState
    \<Rightarrow> bool \<Rightarrow> 'm NDS_scheme \<Rightarrow> InputState list \<times> 'm NDS_scheme" where
  "WriteJitScratchInputs hooks c instanceID frame localPlayer localInput remoteInput hasRemoteInput n =
     (if ND_MainRAM n = None then ([], n)
      else
        let (tick, n1) = scratch_tick c frame n;
            action = ARM9Read8 kNetPacketActionAddr n1;
            n2 = ARM9Write8 kPacketBridgeJitScratchActionAddr action (ARM9Write16 kPacketBridgeJitScratchTickAddr (ucast tick) n1);
            selected = (\<lambda>player. SelectPlayerInput player localPlayer localInput remoteInput hasRemoteInput);
            (input0, n3) = write_scratch_player hooks instanceID frame tick action 0 (selected 0) n2;
            (input1, n4) = write_scratch_player hooks instanceID frame tick action 1 (selected 1) n3
        in ([input0, input1], n4))"

section \<open>Patches\<close>

definition read_words :: "u32 \<Rightarrow> 'm NDS_scheme \<Rightarrow> patch_words" where
  "read_words address n = (ARM9Read32 address n, ARM9Read32 (address + 4) n, ARM9Read32 (address + 8) n, ARM9Read32 (address + 12) n)"

definition write_word :: "'m NDS_scheme Emulator \<Rightarrow> u32 \<Rightarrow> u32 \<Rightarrow> u32 \<Rightarrow> 'm NDS_scheme \<Rightarrow> 'm NDS_scheme" where
  "write_word em address old new n =
     (if old = new then n else EM_CheckAndInvalidate em address (ARM9Write32 address new n))"

definition InstallGameTickInputBoundary :: "'m NDS_scheme Emulator \<Rightarrow> 'm NDS_scheme option \<Rightarrow> bool \<times> 'm NDS_scheme option" where
  "InstallGameTickInputBoundary em nds =
     (case nds of
        None \<Rightarrow> (False, nds)
      | Some n \<Rightarrow>
          if ND_MainRAM n = None \<or> ARM9Read32 0x02001AC8 n \<noteq> 0x32505447 then (False, nds)
          else
            let branch = ARM9Read32 0x02001B4C n;
                address = 0x02001B4C + 8 + signed_drop_bit 6 (push_bit 8 branch)
            in if branch AND 0xFF000000 \<noteq> 0x0A000000 then (False, nds)
               else if address AND 3 \<noteq> 0 \<or> address < 0x02001B50 \<or> 0x02001CD0 < address then (False, nds)
               else
                 case read_words address n of (w0, w1, w2, w3) \<Rightarrow>
                   let installed = (w0 AND 0xFFFFF000 = 0xE59F2000);
                       load = (if installed then w0 else w1);
                       literalAddress = address + (if installed then 8 else 12) + (load AND 0xFFF)
                   in if 0x02001D00 \<le> literalAddress \<or> literalAddress AND 3 \<noteq> 0 then (False, nds)
                      else
                        case BuildGameTickInputBoundaryPatch address (w0, w1, w2, w3) (ARM9Read32 literalAddress n) of
                          None \<Rightarrow> (False, nds)
                        | Some (p0, p1, p2, p3) \<Rightarrow>
                            (True, Some (write_word em (address + 12) w3 p3 (write_word em (address + 8) w2 p2
                              (write_word em (address + 4) w1 p1 (write_word em address w0 p0 n))))))"

definition jit_helper_words :: "(u32 \<times> u32) list" where
  "jit_helper_words =
     [(0x0200E854, 0xE59F1008), (0x0200E858, 0xE0811080), (0x0200E85C, 0xE1D100B0), (0x0200E860, 0xE12FFF1E),
      (0x0200E864, kPacketBridgeJitScratchKeysAddr),
      (0x0200E7D0, 0xE59F2024), (0x0200E7D4, 0xE0822301), (0x0200E7D8, 0xE5D23006), (0x0200E7DC, 0xE1C030B0),
      (0x0200E7E0, 0xE5D23007), (0x0200E7E4, 0xE1C030B2), (0x0200E7E8, 0xE5D23005), (0x0200E7EC, 0xE1C030B4),
      (0x0200E7F0, 0xE3A03000), (0x0200E7F4, 0xE1C030B6), (0x0200E7F8, 0xE12FFF1E),
      (0x0200E7FC, kPacketBridgeJitScratchPacketsAddr)]"

fun write_words :: "(u32 \<times> u32) list \<Rightarrow> 'm NDS_scheme option \<Rightarrow> 'm NDS_scheme option" where
  "write_words [] nds = nds"
| "write_words ((address, v) # ws) nds = write_words ws (snd (WriteARM9U32 address v nds))"

definition invalidate_range :: "'a Emulator \<Rightarrow> u32 \<Rightarrow> nat \<Rightarrow> 'a \<Rightarrow> 'a" where
  "invalidate_range em start words n = foldl (\<lambda>n i. EM_CheckAndInvalidate em (start + 4 * of_nat i) n) n [0..<words]"

definition ApplyJitHelperPatchIfNeeded :: "'m NDS_scheme Emulator \<Rightarrow> int \<Rightarrow> u32 \<Rightarrow> 'm NDS_scheme option \<Rightarrow> BridgeContext
    \<Rightarrow> 'm NDS_scheme option \<times> BridgeContext" where
  "ApplyJitHelperPatchIfNeeded em instanceID frame nds c =
     (case nds of
        None \<Rightarrow> (nds, c)
      | Some n \<Rightarrow>
          if \<not> PC_PacketBridgeJitHelperPatchEnabled (IX_RuntimePatch c) \<or> ND_MainRAM n = None \<or> instanceID < 0 \<or> 16 \<le> instanceID
             \<or> \<not> ShouldApplyJitHook instanceID frame (PC_PacketBridgeJitHelperPatchFrame (IX_RuntimePatch c)) (IX_State c)
          then (nds, c)
          else
            (map_option (\<lambda>n. invalidate_range em 0x0200E7D0 12 (invalidate_range em 0x0200E854 5 n)) (write_words jit_helper_words nds),
             c\<lparr>IX_State := MarkJitHookApplied instanceID (IX_State c)\<rparr>))"

end
