(* ===== verification/Rollback_Correction.thy ===== *)
theory Rollback_Correction
  imports Rollback_Preimage
begin

text \<open>
  What a correction of the rollback runtime does to the machine: it is the run from the restored
  checkpoint with the recorded local inputs and the confirmed remote ones. And what it leaves
  behind in the checkpoint store with a preimage backend.
\<close>

section \<open>Resimulation\<close>

text \<open>What a replayed frame is given: the recorded local input, and the confirmed remote input when
  there is one.\<close>

definition authoritative :: "TimelineRuntime \<Rightarrow> int \<Rightarrow> u32 \<Rightarrow> ReplayFrameInputs \<Rightarrow> bool" where
  "authoritative t localPlayer f i \<longleftrightarrow>
     RF_Local i = (case fmlookup (TR_LocalInputs t) f of None \<Rightarrow> InputState_default | Some l \<Rightarrow> l)
     \<and> (case fmlookup (TR_RemoteInputs t) f of
          None \<Rightarrow> RF_RemotePredicted i
        | Some r \<Rightarrow> RF_Remote i = r \<and> \<not> RF_RemotePredicted i)
     \<and> RF_Players i = [InputState_default, InputState_default][nat localPlayer := RF_Local i, nat (1 - localPlayer) := RF_Remote i]"

lemma ResolveReplayFrameInputs_replay:
  assumes "localPlayer = 0 \<or> localPlayer = 1"
  obtains i p where "ResolveReplayFrameInputs f localPlayer InputState_default (replay_probe config) t
      = (Some i, t\<lparr>TR_RollbackInputs := p\<rparr>)"
    "authoritative t localPlayer f i" "PR_PendingRollbackFrame p = PR_PendingRollbackFrame (TR_RollbackInputs t)"
proof -
  let ?loc = "case fmlookup (TR_LocalInputs t) f of None \<Rightarrow> InputState_default | Some i \<Rightarrow> i"
  obtain remote predicted p where r: "Resolve f (TR_RemoteInputs t) InputState_default (replay_probe config)
      (TR_RollbackInputs t) = ((remote, predicted), p)"
    by (metis surj_pair)
  then have "PR_PendingRollbackFrame p = PR_PendingRollbackFrame (TR_RollbackInputs t)"
    "case fmlookup (TR_RemoteInputs t) f of None \<Rightarrow> predicted | Some i \<Rightarrow> remote = i \<and> \<not> predicted"
    by (auto simp: Resolve_def replay_probe_def Let_def split: option.splits if_splits)
  moreover have "\<not> (localPlayer < 0 \<or> 1 < localPlayer)"
    using assms by auto
  ultimately show thesis
    using r by (intro that [of "\<lparr>RF_Local = ?loc, RF_Remote = remote, RF_Players = [InputState_default, InputState_default]
          [nat localPlayer := ?loc, nat (1 - localPlayer) := remote], RF_RemotePredicted = predicted\<rparr>" p])
      (simp_all add: ResolveReplayFrameInputs_def authoritative_def Let_def split: option.splits)
qed

definition same_inputs :: "RollbackContext \<Rightarrow> RollbackContext \<Rightarrow> bool" where
  "same_inputs y x \<longleftrightarrow> RX_Config y = RX_Config x \<and> RX_Input y = RX_Input x
     \<and> RX_NetplayStartFrame y = RX_NetplayStartFrame x
     \<and> TR_LocalInputs (RX_Inputs y) = TR_LocalInputs (RX_Inputs x)
     \<and> TR_RemoteInputs (RX_Inputs y) = TR_RemoteInputs (RX_Inputs x)
     \<and> pending_rollback y = pending_rollback x"

lemma same_inputs_refl [simp]: "same_inputs x x"
  by (simp add: same_inputs_def)

lemma same_inputs_trans: "same_inputs z y \<Longrightarrow> same_inputs y x \<Longrightarrow> same_inputs z x"
  by (simp add: same_inputs_def)

lemma same_inputs_Refresh [simp]: "same_inputs (RefreshFrameShadowLocked f n x) x"
  by (simp add: same_inputs_def RefreshFrameShadowLocked_def)

lemma same_inputs_Prune [simp]: "same_inputs (PruneHistoryLocked f x) x"
  by (simp add: same_inputs_def PruneHistoryLocked_def PredictionPrune_def Let_def)

lemma same_inputs_record [simp]: "same_inputs (record_save b us x) x"
  by (simp add: same_inputs_def record_save_def)

lemma same_inputs_store: "same_inputs (x\<lparr>RX_Store := s\<rparr>) x"
  by (simp add: same_inputs_def)

lemma same_inputs_store_checkpoint: "same_inputs (store_checkpoint em clk f n x) x"
proof -
  have "same_inputs (PruneHistoryLocked f (record_save b us (RefreshFrameShadowLocked f n (x\<lparr>RX_Store := s\<rparr>)))) x" for b us s
    using same_inputs_Prune [THEN same_inputs_trans] same_inputs_record [THEN same_inputs_trans]
      same_inputs_Refresh [THEN same_inputs_trans] same_inputs_store by blast
  then show ?thesis
    by (simp add: store_checkpoint_def Let_def case_prod_beta split: option.split)
qed

lemma same_inputs_SaveNow: "same_inputs (SaveCheckpointNowLocked em clk f force n x) x"
  by (simp add: SaveCheckpointNowLocked_def same_inputs_store_checkpoint)

abbreviation replay_run :: "'a Emulator \<Rightarrow> 'a ResimulationHooks \<Rightarrow> RollbackConfig \<Rightarrow> int \<Rightarrow> int
    \<Rightarrow> (u32 \<Rightarrow> ReplayFrameInputs) \<Rightarrow> u32 \<Rightarrow> u32 \<Rightarrow> 'a \<Rightarrow> 'a" where
  "replay_run em hooks config instanceID localPlayer ins f k \<equiv>
     fold (\<lambda>g. replay_frame em hooks config instanceID localPlayer g (ins g)) (replay_frames f k)"

lemma replay_frames_step:
  assumes "f < frame"
  shows "replay_frames f (frame - f) = f # replay_frames (f + 1) (frame - (f + 1))"
proof -
  have "unat (frame - f) = Suc (unat (frame - (f + 1)))"
    using assms u32_less_imp_not_max [OF assms] u32_Suc_le [of f frame]
    by (simp add: unat_sub_u32 unat_Suc_u32 less_imp_le word_less_nat_alt)
  then show ?thesis
    by (simp add: replay_frames_def upt_conv_Cons map_Suc_upt [symmetric] del: upt_Suc)
qed

lemma replay_frames_nil [simp]: "replay_frames f 0 = []"
  by (simp add: replay_frames_def)

lemma authoritative_cong:
  "same_inputs y x \<Longrightarrow> authoritative (RX_Inputs y) localPlayer g i = authoritative (RX_Inputs x) localPlayer g i"
  unfolding authoritative_def same_inputs_def by metis

lemma replay_frames_range:
  assumes "f \<le> frame"
  shows "g \<in> set (replay_frames f (frame - f)) \<Longrightarrow> f \<le> g \<and> g < frame"
  using assms
proof (induction "unat (frame - f)" arbitrary: f)
  case 0
  then show ?case
    by (simp add: replay_frames_def)
next
  case (Suc k)
  then have lt: "f < frame"
    by (cases "f = frame") auto
  then have max: "f \<noteq> u32_max"
    by (rule u32_less_imp_not_max)
  have next_le: "f + 1 \<le> frame"
    using u32_Suc_le [OF max] lt by blast
  then have k: "k = unat (frame - (f + 1))"
    using Suc.hyps(2) lt max by (simp add: unat_sub_u32 unat_Suc_u32)
  from Suc.prems(1) have "g = f \<or> g \<in> set (replay_frames (f + 1) (frame - (f + 1)))"
    by (simp add: replay_frames_step [OF lt])
  with Suc.hyps(1) [OF k _ next_le] lt max show ?case
    by (auto simp: u32_Suc_le)
qed

lemma resim_loop_step:
  assumes "f < frame" "ResolveReplayFrameInputs f localPlayer InputState_default (replay_probe (RX_Config x)) (RX_Inputs x) = (Some i, t)"
  shows "resim_loop em hooks clk instanceID localPlayer frame f n x r =
    (let n1 = replay_frame em hooks (RX_Config x) instanceID localPlayer f i n; x1 = x\<lparr>RX_Inputs := t\<rparr>;
         r1 = count_frame (KC_RunFrameUs clk f) r
     in if ShouldSaveResimulationCheckpoint (f + 1) frame (RB_SkipIntermediateResimCheckpoints (RX_Config x))
        then resim_loop em hooks clk instanceID localPlayer frame (f + 1) n1
               (SaveCheckpointNowLocked em clk (f + 1) False n1 x1) (count_save (KC_CheckpointSaveUs clk (f + 1)) r1)
        else resim_loop em hooks clk instanceID localPlayer frame (f + 1) n1 x1 r1)"
  by (subst resim_loop.simps) (simp only: assms not_not if_False simp_thms Let_def prod.case option.case)

lemma resim_loop_replays:
  assumes lp: "localPlayer = 0 \<or> localPlayer = 1" and le: "f \<le> frame"
  shows "\<exists>n' x' r' ins. resim_loop em hooks clk instanceID localPlayer frame f n x r = (True, n', x', r')
    \<and> same_inputs x' x
    \<and> n' = replay_run em hooks (RX_Config x) instanceID localPlayer ins f (frame - f) n
    \<and> (\<forall>g. f \<le> g \<longrightarrow> g < frame \<longrightarrow> authoritative (RX_Inputs x) localPlayer g (ins g))"
proof -
  show ?thesis
    using le
  proof (induction "unat (frame - f)" arbitrary: f n x r)
    case 0
    then have "f = frame"
      by (simp add: unat_eq_0)
    then show ?case
      by (auto simp: resim_loop.simps dest: leD)
  next
    case (Suc k)
    then have lt: "f < frame" 
      by (cases "f = frame") auto
    then have max: "f \<noteq> u32_max" and next_le: "f + 1 \<le> frame"
      using u32_less_imp_not_max u32_Suc_le by blast+
    have k: "k = unat (frame - (f + 1))"
      using Suc.hyps(2) lt next_le max by (simp add: unat_sub_u32 unat_Suc_u32)
    obtain i p where res: "ResolveReplayFrameInputs f localPlayer InputState_default (replay_probe (RX_Config x)) (RX_Inputs x)
        = (Some i, (RX_Inputs x)\<lparr>TR_RollbackInputs := p\<rparr>)"
      and i: "authoritative (RX_Inputs x) localPlayer f i"
      and p: "PR_PendingRollbackFrame p = pending_rollback x"
      using ResolveReplayFrameInputs_replay [OF lp] by blast
    let ?n = "replay_frame em hooks (RX_Config x) instanceID localPlayer f i n"
    let ?x = "x\<lparr>RX_Inputs := (RX_Inputs x)\<lparr>TR_RollbackInputs := p\<rparr>\<rparr>"
    obtain y s where step: "resim_loop em hooks clk instanceID localPlayer frame f n x r
        = resim_loop em hooks clk instanceID localPlayer frame (f + 1) ?n y s" and y: "same_inputs y ?x"
      using resim_loop_step [OF lt res, unfolded Let_def] same_inputs_SaveNow [of em clk "f + 1" False ?n ?x]
      by (metis same_inputs_refl)
    have "same_inputs ?x x"
      using p by (simp add: same_inputs_def)
    with y have y: "same_inputs y x"
      by (rule same_inputs_trans)
    obtain n' x' r' ins where rec: "resim_loop em hooks clk instanceID localPlayer frame (f + 1) ?n y s = (True, n', x', r')"
      "same_inputs x' y" "n' = replay_run em hooks (RX_Config y) instanceID localPlayer ins (f + 1) (frame - (f + 1)) ?n"
      "\<forall>g. f + 1 \<le> g \<longrightarrow> g < frame \<longrightarrow> authoritative (RX_Inputs y) localPlayer g (ins g)"
      using Suc.hyps(1) [OF k next_le, of ?n y s] by blast
    let ?ins = "ins(f := i)"
    have tail: "replay_run em hooks (RX_Config y) instanceID localPlayer ?ins (f + 1) (frame - (f + 1)) ?n = n'"
      unfolding rec(3) using replay_frames_range [OF next_le] u32_Suc_le [OF max, of f]
      by (intro fold_cong) (auto simp: fun_upd_def)
    have config: "RX_Config y = RX_Config x"
      using y by (simp add: same_inputs_def)
    have "n' = replay_run em hooks (RX_Config x) instanceID localPlayer ?ins f (frame - f) n"
      using tail by (simp add: replay_frames_step [OF lt] config)
    moreover have ok: "authoritative (RX_Inputs x) localPlayer g (?ins g)" if g: "f \<le> g" "g < frame" for g
    proof (cases "g = f")
      case False
      with g max have "f + 1 \<le> g"
        by (simp add: u32_Suc_le)
      with rec(4) g False show ?thesis
        by (simp add: authoritative_cong [OF y])
    qed (use i in simp)
    moreover have "resim_loop em hooks clk instanceID localPlayer frame f n x r = (True, n', x', r')"
      using step rec(1) by simp
    ultimately show ?case
      using same_inputs_trans [OF rec(2) y]
      by (intro exI [of _ n'] exI [of _ x'] exI [of _ r'] exI [of _ ?ins] conjI allI impI)
  qed
qed


lemma same_inputs_clear: "RX_Config (clear_pending g x) = RX_Config x" "RX_Input (clear_pending g x) = RX_Input x"
  "RX_NetplayStartFrame (clear_pending g x) = RX_NetplayStartFrame x" "RX_Store (clear_pending g x) = RX_Store x"
  "TR_LocalInputs (RX_Inputs (clear_pending g x)) = TR_LocalInputs (RX_Inputs x)"
  "TR_RemoteInputs (RX_Inputs (clear_pending g x)) = TR_RemoteInputs (RX_Inputs x)"
  "pending_rollback (clear_pending ClearPendingRollback x) = None"
  by (simp_all add: clear_pending_def ClearPendingRollback_def)

lemma resimulate_replays:
  assumes lp: "HK_CurrentLocalPlayer hooks = 0 \<or> HK_CurrentLocalPlayer hooks = 1" and le: "restoreFrame \<le> frame"
    and restored: "restore_machine em (RX_Config x) checkpoint source n = (True, n0)"
  shows "\<exists>n' x' ins. resimulate em hooks clk instanceID frame restoreFrame checkpoint source n x = (True, n', x')
    \<and> same_inputs x' x
    \<and> n' = replay_run em hooks (RX_Config x) instanceID (HK_CurrentLocalPlayer hooks) ins restoreFrame (frame - restoreFrame) n0
    \<and> (\<forall>g. restoreFrame \<le> g \<longrightarrow> g < frame \<longrightarrow> authoritative (RX_Inputs x) (HK_CurrentLocalPlayer hooks) g (ins g))"
proof -
  let ?x = "RefreshFrameShadowLocked restoreFrame n0 x"
  obtain n' x' r' ins where loop: "resim_loop em hooks clk instanceID (HK_CurrentLocalPlayer hooks) frame restoreFrame n0 ?x
      resim_totals_init = (True, n', x', r')" "same_inputs x' ?x"
    and ins: "n' = replay_run em hooks (RX_Config ?x) instanceID (HK_CurrentLocalPlayer hooks) ins restoreFrame (frame - restoreFrame) n0"
      "\<forall>g. restoreFrame \<le> g \<longrightarrow> g < frame \<longrightarrow> authoritative (RX_Inputs ?x) (HK_CurrentLocalPlayer hooks) g (ins g)"
    using resim_loop_replays [OF lp le, of em hooks clk instanceID n0 ?x resim_totals_init] by blast
  let ?y = "RefreshFrameShadowLocked frame n' x'"
  obtain st where run: "resimulate em hooks clk instanceID frame restoreFrame checkpoint source n x
      = (True, n', ?y\<lparr>RX_Statistics := st\<rparr>)"
    using restored loop(1) by (simp add: resimulate_def Let_def)
  have "same_inputs ?y x"
    using loop(2) same_inputs_Refresh same_inputs_trans by blast
  then have same: "same_inputs (?y\<lparr>RX_Statistics := st\<rparr>) x"
    by (simp add: same_inputs_def)
  have "\<forall>g. restoreFrame \<le> g \<longrightarrow> g < frame \<longrightarrow> authoritative (RX_Inputs x) (HK_CurrentLocalPlayer hooks) g (ins g)"
    using ins(2) authoritative_cong [OF same_inputs_Refresh [of restoreFrame n0 x]] by simp
  with run same ins(1) show ?thesis
    by auto
qed


section \<open>The plan\<close>

text \<open>When a correction is due: the configuration lets it run, and the earliest mispredicted frame is
  in the past, not deeper than the cap, with the delay elapsed.\<close>

definition correction_due :: "int \<Rightarrow> u32 \<Rightarrow> u32 \<Rightarrow> RollbackContext \<Rightarrow> bool" where
  "correction_due instanceID frame mismatchFrame x \<longleftrightarrow>
     RB_Enabled (RX_Config x) \<and> RB_Resimulate (RX_Config x) \<and> IC_NetplayOnly (RX_Input x)
     \<and> 0 \<le> instanceID \<and> instanceID < 16 \<and> \<not> rom_loop (RX_Config x)
     \<and> (let y = ConfirmPredictionProbeLocked frame x in
        pending_rollback y = Some mismatchFrame \<and> mismatchFrame < frame
        \<and> ClampResimulationMismatch mismatchFrame frame (RB_MaxResimFrames (RX_Config x)) = mismatchFrame
        \<and> IsResimulationDelayElapsed frame (PR_PendingRollbackObservedFrame (TR_RollbackInputs (RX_Inputs y)))
            (RB_ResimulateDelayFrames (RX_Config x)))"

lemma correction_due_less: "correction_due instanceID frame mismatchFrame x \<Longrightarrow> mismatchFrame < frame"
  by (simp add: correction_due_def Let_def)

lemma ConfirmPredictionProbeLocked_keeps [simp]:
  "RX_Config (ConfirmPredictionProbeLocked f x) = RX_Config x"
  "RX_Input (ConfirmPredictionProbeLocked f x) = RX_Input x"
  "RX_Store (ConfirmPredictionProbeLocked f x) = RX_Store x"
  by (simp_all add: ConfirmPredictionProbeLocked_def Let_def)

lemma plan_correction_restore:
  assumes "correction_due instanceID frame mismatchFrame x"
    and "LatestAtOrBefore mismatchFrame (RX_Store x) = Some (restoreFrame, checkpoint)"
    and "restore_source_for restoreFrame (ConfirmPredictionProbeLocked frame x) = Some source"
  defines "y \<equiv> clear_pending ClearPendingRollback (ConfirmPredictionProbeLocked frame x)"
  shows "plan_correction frame n x =
    (PlanRestore restoreFrame checkpoint source, y\<lparr>RX_Store := EraseAfter restoreFrame (RX_Store x)\<rparr>)"
proof -
  have rl: "\<not> rom_loop (RX_Config x)" and lt: "mismatchFrame < frame"
    using assms(1) by (simp_all add: correction_due_def Let_def)
  show ?thesis
    using assms(1) lt rl
    by (simp add: correction_due_def plan_correction_def Let_def planned_mismatch_def max_resim_frames_def
        resim_checkpoint_def resim_source_def assms(2,3) y_def same_inputs_clear not_le)
qed


section \<open>A correction is a run with the right inputs\<close>

definition reference_inputs :: "TimelineRuntime \<Rightarrow> int \<Rightarrow> u32 \<Rightarrow> ReplayFrameInputs" where
  "reference_inputs t localPlayer f =
     (let loc = (case fmlookup (TR_LocalInputs t) f of None \<Rightarrow> InputState_default | Some i \<Rightarrow> i);
          remote = (case fmlookup (TR_RemoteInputs t) f of None \<Rightarrow> InputState_default | Some i \<Rightarrow> i)
      in \<lparr>RF_Local = loc, RF_Remote = remote,
          RF_Players = [InputState_default, InputState_default][nat localPlayer := loc, nat (1 - localPlayer) := remote],
          RF_RemotePredicted = False\<rparr>)"

lemma authoritative_reference:
  assumes "authoritative t localPlayer f i" "fmlookup (TR_RemoteInputs t) f = Some r"
  shows "i = reference_inputs t localPlayer f"
  using assms by (cases i) (simp add: authoritative_def reference_inputs_def Let_def)

text \<open>What is relied on of the savestates of the emulator: a full state that was written is read back
  into any machine, and gives the machine it was written from. It is stated for every mode of writing
  main memory, so it is meant for the backends whose checkpoints are full states; a backend that leaves
  main memory out of the buffer does not satisfy it, and its restores are the subject of
  the theory of the preimages.\<close>

definition savestate_law :: "'a Emulator \<Rightarrow> RollbackConfig \<Rightarrow> bool" where
  "savestate_law em config \<longleftrightarrow> (\<forall>mode m buffer n. EM_Save em (save_kind config mode None) m = Some buffer \<longrightarrow>
     EM_Load em (save_kind config kMainRAMModeFull None) buffer n = (True, m))"

lemma restore_full_checkpoint:
  assumes "Copy f (RX_Store x) = Some st" "\<not> SS_MainRAMDelta st" "\<not> IsPreimageBackend (RX_Config x)"
    "savestate_law em (RX_Config x)" "EM_Save em (save_kind (RX_Config x) mode None) m = Some (SS_Buffer st)"
  shows "restore_source_for f x = Some (DeltaChain [st])"
    "restore_machine em (RX_Config x) st (DeltaChain [st]) n = (True, m)"
proof -
  have "BuildRestoreChain f (RX_Store x) = (True, [st])"
    using assms(1,2) by (simp add: BuildRestoreChain_def Copy_def)
  then show "restore_source_for f x = Some (DeltaChain [st])"
    using assms(3) by (simp add: restore_source_for_def)
  have "EM_Load em (save_kind (RX_Config x) kMainRAMModeFull None) (SS_Buffer st) n = (True, m)"
    using assms(4,5) by (auto simp: savestate_law_def)
  then show "restore_machine em (RX_Config x) st (DeltaChain [st]) n = (True, m)"
    using assms(2) by (simp add: restore_machine_def RestoreCheckpointBuffer_def)
qed

lemma ResimulateIfNeeded_replays:
  assumes due: "correction_due instanceID frame mismatchFrame x"
    and latest: "LatestAtOrBefore mismatchFrame (RX_Store x) = Some (restoreFrame, checkpoint)"
    and source: "restore_source_for restoreFrame (ConfirmPredictionProbeLocked frame x) = Some source"
    and restored: "restore_machine em (RX_Config x) checkpoint source n = (True, n0)"
    and lp: "localPlayer = 0 \<or> localPlayer = 1" "HK_CurrentLocalPlayer hooks = localPlayer"
  defines "y \<equiv> ConfirmPredictionProbeLocked frame x"
  shows "\<exists>n' x' ins. ResimulateIfNeeded em hooks clk instanceID frame (Some n) x = (Returned True, Some n', x')
    \<and> pending_rollback x' = None \<and> RX_Config x' = RX_Config x
    \<and> n' = replay_run em hooks (RX_Config x) instanceID localPlayer ins restoreFrame (frame - restoreFrame) n0
    \<and> (\<forall>g. restoreFrame \<le> g \<longrightarrow> g < frame \<longrightarrow> authoritative (RX_Inputs y) localPlayer g (ins g))"
proof -
  let ?x = "clear_pending ClearPendingRollback y\<lparr>RX_Store := EraseAfter restoreFrame (RX_Store x)\<rparr>"
  have plan: "plan_correction frame n x = (PlanRestore restoreFrame checkpoint source, ?x)"
    unfolding y_def by (rule plan_correction_restore [OF due latest source])
  have config: "RX_Config ?x = RX_Config x"
    by (simp add: same_inputs_clear y_def)
  have "restoreFrame \<le> mismatchFrame"
    using LatestAtOrBefore_Some latest by blast
  then have le: "restoreFrame \<le> frame"
    using correction_due_less [OF due] by (meson less_imp_le order_trans)
  have same: "authoritative (RX_Inputs ?x) localPlayer g i = authoritative (RX_Inputs y) localPlayer g i" for g i
    by (simp add: authoritative_def same_inputs_clear)
  obtain n' x' ins where r: "resimulate em hooks clk instanceID frame restoreFrame checkpoint source n ?x = (True, n', x')"
    "same_inputs x' ?x"
    "n' = replay_run em hooks (RX_Config x) instanceID localPlayer ins restoreFrame (frame - restoreFrame) n0"
    "\<forall>g. restoreFrame \<le> g \<longrightarrow> g < frame \<longrightarrow> authoritative (RX_Inputs ?x) localPlayer g (ins g)"
    using resimulate_replays [of hooks restoreFrame frame em ?x checkpoint source n n0 clk instanceID,
        unfolded config lp(2), OF lp(1) le restored] by blast
  have "\<not> rom_loop (RX_Config x)"
    using due by (simp add: correction_due_def)
  then have "ResimulateIfNeeded em hooks clk instanceID frame (Some n) x = (Returned True, Some n', x')"
    using due plan r(1) by (simp add: ResimulateIfNeeded_def correction_due_def)
  moreover have "pending_rollback x' = None" "RX_Config x' = RX_Config x"
    using r(2) config by (simp_all add: same_inputs_def same_inputs_clear)
  ultimately show ?thesis
    using r(3,4) same by blast
qed

text \<open>C4: a correction leaves the machine as if the right inputs had been there from the start. When a
  misprediction is due and the latest checkpoint at or before it holds the full state of machine \<open>m\<close>,
  \<open>ResimulateIfNeeded\<close> returns true with exactly the machine that runs from \<open>m\<close> over every frame
  from the checkpoint to the current one with the recorded local inputs and the confirmed remote
  ones; nothing of the mispredicted machine is left, and the request is taken back.\<close>

theorem correction_equals_reference_run:
  assumes due: "correction_due instanceID frame mismatchFrame x"
    and latest: "LatestAtOrBefore mismatchFrame (RX_Store x) = Some (restoreFrame, checkpoint)"
    and full: "\<not> SS_MainRAMDelta checkpoint" "\<not> IsPreimageBackend (RX_Config x)"
    and law: "savestate_law em (RX_Config x)"
    and saved: "EM_Save em (save_kind (RX_Config x) mode None) m = Some (SS_Buffer checkpoint)"
    and lp: "localPlayer = 0 \<or> localPlayer = 1" "HK_CurrentLocalPlayer hooks = localPlayer"
    and confirmed: "\<forall>g. restoreFrame \<le> g \<and> g < frame \<longrightarrow>
      fmlookup (TR_RemoteInputs (RX_Inputs (ConfirmPredictionProbeLocked frame x))) g \<noteq> None"
  shows "\<exists>x'. ResimulateIfNeeded em hooks clk instanceID frame (Some n) x =
      (Returned True, Some (replay_run em hooks (RX_Config x) instanceID localPlayer
         (reference_inputs (RX_Inputs (ConfirmPredictionProbeLocked frame x)) localPlayer)
         restoreFrame (frame - restoreFrame) m), x')
    \<and> pending_rollback x' = None"
proof -
  let ?y = "ConfirmPredictionProbeLocked frame x"
  have copy: "Copy restoreFrame (RX_Store ?y) = Some checkpoint" and le: "restoreFrame \<le> mismatchFrame"
    using LatestAtOrBefore_Some latest by (auto simp: Copy_def)
  then have le: "restoreFrame \<le> frame"
    using correction_due_less [OF due] by (meson less_imp_le order_trans)
  note restore = restore_full_checkpoint [OF copy full(1), of em mode m]
  obtain n' x' ins where r: "ResimulateIfNeeded em hooks clk instanceID frame (Some n) x = (Returned True, Some n', x')"
    "pending_rollback x' = None"
    "n' = replay_run em hooks (RX_Config x) instanceID localPlayer ins restoreFrame (frame - restoreFrame) m"
    "\<forall>g. restoreFrame \<le> g \<longrightarrow> g < frame \<longrightarrow> authoritative (RX_Inputs ?y) localPlayer g (ins g)"
    using ResimulateIfNeeded_replays [OF due latest _ _ lp, of "DeltaChain [checkpoint]" em n m clk] restore full law saved
    by auto
  have "ins g = reference_inputs (RX_Inputs ?y) localPlayer g" if "g \<in> set (replay_frames restoreFrame (frame - restoreFrame))" for g
    using replay_frames_range [OF le that] r(4) confirmed authoritative_reference by blast
  then have "n' = replay_run em hooks (RX_Config x) instanceID localPlayer (reference_inputs (RX_Inputs ?y) localPlayer)
      restoreFrame (frame - restoreFrame) m"
    unfolding r(3) by (intro fold_cong) auto
  with r(1,2) show ?thesis
    by blast
qed


text \<open>A small machine for the witness: its whole state is its memory, and the bridge appends the keys
  of the remote player.\<close>

definition tape_emulator :: "NDS Emulator" where
  "tape_emulator = idle_emulator\<lparr>
     EM_Save := \<lambda>k m. if m = small_nds (main_ram m) then Some (main_ram m) else None,
     EM_Load := \<lambda>k buffer n. (True, small_nds buffer)\<rparr>"

definition tape_hooks :: "NDS ResimulationHooks" where
  "tape_hooks = \<lparr>HK_CurrentLocalPlayer = 0, HK_ApplyFramePatches = \<lambda>i f n. n,
     HK_WritePacketBridgeInputs = \<lambda>i f lp loc remote b predicted n. small_nds (main_ram n @ [ucast (KeyMask remote)]),
     HK_PrepareRuntimeInput = \<lambda>i. i, HK_ApplyPostFramePatches = \<lambda>f n. n\<rparr>"

definition keys_input :: "u32 \<Rightarrow> InputState" where
  "keys_input k = InputState_default\<lparr>KeyMask := k\<rparr>"

definition mispredicted_context :: RollbackContext where
  "mispredicted_context = preimage_context\<lparr>
     RX_Config := (RX_Config preimage_context)\<lparr>RB_Backend := Savestate\<rparr>,
     RX_Store := Store_init\<lparr>ST_States := fmupd 1 (StoredState_default\<lparr>SS_Buffer := [9]\<rparr>) fmempty\<rparr>,
     RX_Inputs := TimelineRuntime_init\<lparr>TR_RemoteInputs := fmupd 1 (keys_input 5) (fmupd 2 (keys_input 6) fmempty),
       TR_RollbackInputs := PredictionRuntime_init\<lparr>PR_PendingRollbackFrame := Some 1\<rparr>\<rparr>\<rparr>"

theorem correction_equals_reference_run_witness:
  "\<exists>x'. ResimulateIfNeeded tape_emulator tape_hooks idle_clock 0 3 (Some (small_nds [9, 7, 7])) mispredicted_context
      = (Returned True, Some (small_nds [9, 5, 6]), x') \<and> pending_rollback x' = None"
proof -
  let ?x = mispredicted_context and ?cp = "StoredState_default\<lparr>SS_Buffer := [9]\<rparr>"
  have y: "ConfirmPredictionProbeLocked 3 ?x = ?x"
    by (simp add: ConfirmPredictionProbeLocked_def mispredicted_context_def preimage_context_def
        RollbackConfig_default_def u32_of_int_def)
  have due: "correction_due 0 3 1 ?x" and latest: "LatestAtOrBefore 1 (RX_Store ?x) = Some (1, ?cp)"
    and full: "\<not> SS_MainRAMDelta ?cp" "\<not> IsPreimageBackend (RX_Config ?x)"
    by code_simp+
  have law: "savestate_law tape_emulator (RX_Config ?x)"
    by (auto simp: savestate_law_def tape_emulator_def small_nds_def split: if_splits)
  have saved: "EM_Save tape_emulator (save_kind (RX_Config ?x) 0 None) (small_nds [9]) = Some (SS_Buffer ?cp)"
    by (simp add: tape_emulator_def)
  have confirmed: "\<forall>g. 1 \<le> g \<and> g < 3 \<longrightarrow> fmlookup (TR_RemoteInputs (RX_Inputs (ConfirmPredictionProbeLocked 3 ?x))) g \<noteq> None"
    unfolding y
  proof (intro allI impI)
    fix g :: u32
    assume "1 \<le> g \<and> g < 3"
    then have "unat g = 1 \<or> unat g = 2"
      by (auto simp: word_le_nat_alt word_less_nat_alt)
    then have "g = 1 \<or> g = 2"
      by (simp add: word_unat_eq_iff)
    then show "fmlookup (TR_RemoteInputs (RX_Inputs ?x)) g \<noteq> None"
      by (auto simp: mispredicted_context_def)
  qed
  have lp: "(0::int) = 0 \<or> (0::int) = 1" "HK_CurrentLocalPlayer tape_hooks = 0"
    by (simp_all add: tape_hooks_def)
  have run: "replay_run tape_emulator tape_hooks (RX_Config ?x) 0 0 (reference_inputs (RX_Inputs ?x) 0) 1 (3 - 1) (small_nds [9])
      = small_nds [9, 5, 6]"
    by code_simp
  show ?thesis
    using correction_equals_reference_run [OF due latest full law saved lp confirmed, of idle_clock "small_nds [9, 7, 7]"]
    unfolding y run .
qed

section \<open>Corrections break the chain of preimages\<close>

lemma store_checkpoint_absent:
  assumes "fmlookup (ST_States (RX_Store x)) g = None" "g \<noteq> f"
  shows "fmlookup (ST_States (RX_Store (store_checkpoint em clk f n x))) g = None"
proof -
  have "fmlookup (ST_States (RX_Store (PruneHistoryLocked f (record_save b us (RefreshFrameShadowLocked f n (x\<lparr>RX_Store := snd (Put f st (RX_Store x))\<rparr>)))))) g = None"
    for b us st
    using assms by (simp add: PruneHistoryLocked_def record_save_def RefreshFrameShadowLocked_def Put_def UpdateFrameShadow_def
        fmlookup_Prune Let_def)
  then show ?thesis
    using assms(1) by (simp add: store_checkpoint_def Let_def case_prod_beta split: option.split)
qed

lemma resim_loop_absent:
  assumes "resim_loop em hooks clk instanceID localPlayer frame f n x r = (True, n', x', r')"
    "fmlookup (ST_States (RX_Store x)) frame = None"
  shows "fmlookup (ST_States (RX_Store x')) frame = None \<and> RX_Config x' = RX_Config x"
  using assms
proof (induction "unat frame - unat f" arbitrary: f n x r rule: less_induct)
  case less
  show ?case
  proof (cases "f < frame")
    case False
    with less.prems show ?thesis
      by (simp add: resim_loop.simps)
  next
    case True
    obtain res t where res: "ResolveReplayFrameInputs f localPlayer InputState_default (replay_probe (RX_Config x)) (RX_Inputs x) = (res, t)"
      by fastforce
    then obtain i where i: "res = Some i"
      using less.prems(1) True by (subst (asm) resim_loop.simps) (cases res; simp)
    have saved: "fmlookup (ST_States (RX_Store (SaveCheckpointNowLocked em clk (f + 1) False m (x\<lparr>RX_Inputs := t\<rparr>)))) frame = None"
      if "ShouldSaveResimulationCheckpoint (f + 1) frame skip" for m skip
      using that less.prems(2) store_checkpoint_absent [of "x\<lparr>RX_Inputs := t\<rparr>" frame "f + 1" em clk m]
      by (auto simp: SaveCheckpointNowLocked_def ShouldSaveResimulationCheckpoint_def)
    let ?n = "replay_frame em hooks (RX_Config x) instanceID localPlayer f i n"
    let ?save = "ShouldSaveResimulationCheckpoint (f + 1) frame (RB_SkipIntermediateResimCheckpoints (RX_Config x))"
    let ?x = "if ?save then SaveCheckpointNowLocked em clk (f + 1) False ?n (x\<lparr>RX_Inputs := t\<rparr>) else x\<lparr>RX_Inputs := t\<rparr>"
    obtain s where "resim_loop em hooks clk instanceID localPlayer frame (f + 1) ?n ?x s = (True, n', x', r')"
      using resim_loop_step [OF True res [unfolded i], of em hooks clk instanceID n r, unfolded Let_def] less.prems(1)
      by (cases ?save) auto
    moreover have "fmlookup (ST_States (RX_Store ?x)) frame = None"
      using saved less.prems(2) by simp
    moreover have "RX_Config ?x = RX_Config x"
      using same_inputs_SaveNow [of em clk "f + 1" False ?n "x\<lparr>RX_Inputs := t\<rparr>"] by (simp add: same_inputs_def)
    ultimately show ?thesis
      using less.hyps [OF u32_loop_decreases [OF True]] by metis
  qed
qed

text \<open>The store after a correction: no state of the current frame, and the shadow at that frame.\<close>

lemma resimulate_store:
  assumes "resimulate em hooks clk instanceID frame restoreFrame checkpoint source n x = (True, n', x')"
    "fmlookup (ST_States (RX_Store x)) frame = None" "IsPreimageBackend (RX_Config x)"
    "ND_MainRAM n' = Some ram" "length ram = ram_size n'" "ram \<noteq> []"
  shows "RX_Config x' = RX_Config x"
    "fmlookup (ST_States (RX_Store x')) frame = None" "ST_FrameShadowFrame (RX_Store x') = frame"
proof -
  obtain n0 where n0: "restore_machine em (RX_Config x) checkpoint source n = (True, n0)"
    using assms(1) by (cases "restore_machine em (RX_Config x) checkpoint source n") (simp add: resimulate_def split: if_splits)
  obtain ok n2 x1 r where loop: "resim_loop em hooks clk instanceID (HK_CurrentLocalPlayer hooks) frame restoreFrame n0
      (RefreshFrameShadowLocked restoreFrame n0 x) resim_totals_init = (ok, n2, x1, r)"
    by (metis prod_cases4)
  then have ok: "ok" "n2 = n'" and store: "RX_Store x' = RX_Store (RefreshFrameShadowLocked frame n' x1)"
    "RX_Config x' = RX_Config x1"
    using assms(1) n0 by (auto simp: resimulate_def Let_def split: if_splits)
  have "fmlookup (ST_States (RX_Store (RefreshFrameShadowLocked restoreFrame n0 x))) frame = None"
    using assms(2) by (auto simp: RefreshFrameShadowLocked_def UpdateFrameShadow_def)
  then have x1: "fmlookup (ST_States (RX_Store x1)) frame = None \<and> RX_Config x1 = RX_Config (RefreshFrameShadowLocked restoreFrame n0 x)"
    by (rule resim_loop_absent [OF loop [unfolded eqTrueI [OF ok(1)]]])
  then show config: "RX_Config x' = RX_Config x"
    using store(2) by simp
  show "fmlookup (ST_States (RX_Store x')) frame = None" "ST_FrameShadowFrame (RX_Store x') = frame"
    using x1 assms(3-6) store config by (auto simp: RefreshFrameShadowLocked_def UpdateFrameShadow_def)
qed


lemma no_preimage_below:
  assumes "ST_FrameShadowFrame s = frame" "g < frame"
    "\<And>st. fmlookup (ST_States s) frame = Some st \<Longrightarrow> \<not> SS_MainRAMFramePreimage st"
  shows "\<not> fst (BuildPreimageRestore g s)"
proof
  obtain sts ram where b: "BuildPreimageRestore g s = (fst (BuildPreimageRestore g s), sts, ram)"
    by (metis prod.collapse)
  assume "fst (BuildPreimageRestore g s)"
  with b have "preimage_chain (ST_States s) g frame sts"
    using assms(1) BuildPreimageRestore_iff [of g s sts ram] by auto
  then show False
    using assms(2,3) by cases auto
qed

lemma save_without_shadow:
  assumes "IsPreimageBackend (RX_Config x)" "ND_MainRAM n = Some ram" "length ram = ram_size n" "ram \<noteq> []"
    and shadow: "ST_FrameShadowFrame (RX_Store x) = frame" "fmlookup (ST_States (RX_Store x)) frame = None"
    and s_def: "s = RX_Store (snd (SaveCheckpointIfNeeded em clk instanceID frame (Some n) x))"
  shows "ST_FrameShadowFrame s = frame" "fmlookup (ST_States s) frame = Some st \<Longrightarrow> \<not> SS_MainRAMFramePreimage st"
proof -
  have "PrepareDeltaSaveLocked frame x = (StoredState_default, [])"
    using shadow by (simp add: PrepareDeltaSave_preimage [OF assms(1)] HasUsableFrameShadow_def)
  then have "s = RX_Store x \<or> (\<exists>buffer. s = after_save frame (StoredState_default\<lparr>SS_Buffer := buffer\<rparr>) ram x)"
    using SaveCheckpointIfNeeded_preimage [OF assms(1), of em clk instanceID frame n]
      store_checkpoint_preimage [OF assms(1-3), of em clk frame]
    by (auto simp: s_def CaptureFramePreimage_def StoredState_default_def Let_def split: option.splits)
  then show "ST_FrameShadowFrame s = frame" "fmlookup (ST_States s) frame = Some st \<Longrightarrow> \<not> SS_MainRAMFramePreimage st"
    using shadow after_save_lookups(1,3) [OF assms(4)] by (auto simp: StoredState_default_def)
qed

lemma clamp_before_current:
  "mismatchFrame < frame \<Longrightarrow> maxFrames < 2 ^ 31 \<Longrightarrow> ClampResimulationMismatch mismatchFrame frame maxFrames < frame"
  using resimulation_depth_bounded [of maxFrames mismatchFrame frame]
  by (cases "0 < maxFrames") (auto simp: ClampResimulationMismatch_def)

lemma plan_correction_erases:
  assumes "plan_correction frame n x = (PlanRestore restoreFrame checkpoint source, y)" "\<not> rom_loop (RX_Config x)"
    "RB_MaxResimFrames (RX_Config x) < 2 ^ 31"
  shows "restoreFrame < frame \<and> RX_Config y = RX_Config x \<and> RX_Store y = EraseAfter restoreFrame (RX_Store x)"
proof -
  have "LatestAtOrBefore m (RX_Store x) = Some (restoreFrame, checkpoint) \<Longrightarrow> m < frame \<Longrightarrow> restoreFrame < frame" for m
    using LatestAtOrBefore_Some le_less_trans by blast
  then show ?thesis
    using assms clamp_before_current [OF _ assms(3), of _ frame]
    by (auto simp: plan_correction_def Let_def planned_mismatch_def max_resim_frames_def resim_checkpoint_def
        same_inputs_clear not_le split: option.splits if_splits)
qed

text \<open>C10: with a preimage backend a correction cuts the chain of preimages. After \<open>ResimulateIfNeeded\<close>
  has corrected the machine at a frame, and the following \<open>SaveCheckpointIfNeeded\<close> for that frame has
  run, no frame before it can be restored: the shadow stands at a frame that is not stored, so the
  save keeps no preimage, and a later mismatch before that frame is dropped.\<close>

theorem correction_cuts_preimage_chain:
  assumes backend: "IsPreimageBackend (RX_Config x)"
    and corrected: "ResimulateIfNeeded em hooks clk instanceID frame (Some n) x = (Returned True, Some n', x')"
    and ram: "ND_MainRAM n' = Some ram" "length ram = ram_size n'" "ram \<noteq> []"
    and earlier: "g < frame" and int_range: "RB_MaxResimFrames (RX_Config x) < 2 ^ 31"
  shows "\<not> fst (BuildPreimageRestore g (RX_Store (snd (SaveCheckpointIfNeeded em clk instanceID frame (Some n') x'))))"
proof -
  have rl: "\<not> rom_loop (RX_Config x)"
    using backend by (auto simp: rom_loop_def IsPreimageBackend_def)
  obtain restoreFrame checkpoint source y where plan: "plan_correction frame n x = (PlanRestore restoreFrame checkpoint source, y)"
    and resim: "resimulate em hooks clk instanceID frame restoreFrame checkpoint source n y = (True, n', x')"
    using corrected rl by (auto simp: ResimulateIfNeeded_def split: if_splits prod.splits resim_plan.splits)
  note erased = plan_correction_erases [OF plan rl int_range]
  then have absent: "fmlookup (ST_States (RX_Store y)) frame = None"
    by (auto simp: EraseAfter_def)
  have "IsPreimageBackend (RX_Config y)"
    using erased backend by simp
  note store = resimulate_store [OF resim absent this ram]
  then have pre: "IsPreimageBackend (RX_Config x')"
    using erased backend by simp
  show ?thesis
    using save_without_shadow [OF pre ram store(3,2) refl, of em clk instanceID] earlier
    by (intro no_preimage_below) auto
qed


definition idle_hooks :: "NDS ResimulationHooks" where
  "idle_hooks = \<lparr>HK_CurrentLocalPlayer = 0, HK_ApplyFramePatches = \<lambda>i f n. n,
     HK_WritePacketBridgeInputs = \<lambda>i f lp loc remote b predicted n. n,
     HK_PrepareRuntimeInput = \<lambda>i. i, HK_ApplyPostFramePatches = \<lambda>f n. n\<rparr>"

definition requested_context :: RollbackContext where
  "requested_context = two_saves\<lparr>RX_Inputs := TimelineRuntime_init\<lparr>
     TR_RollbackInputs := PredictionRuntime_init\<lparr>PR_PendingRollbackFrame := Some 1\<rparr>\<rparr>\<rparr>"

theorem correction_cuts_preimage_chain_witness:
  "fst (BuildPreimageRestore 1 (RX_Store requested_context))
   \<and> (\<exists>x'. ResimulateIfNeeded idle_emulator idle_hooks idle_clock 0 3 (Some (small_nds [1, 3])) requested_context
          = (Returned True, Some (small_nds [1, 2]), x')
        \<and> \<not> fst (BuildPreimageRestore 1 (RX_Store (snd (SaveCheckpointIfNeeded idle_emulator idle_clock 0 3
                (Some (small_nds [1, 2])) x')))))"
proof -
  let ?r = "ResimulateIfNeeded idle_emulator idle_hooks idle_clock 0 3 (Some (small_nds [1, 3])) requested_context"
  have "fst ?r = Returned True" "fst (snd ?r) = Some (small_nds [1, 2])"
    by code_simp+
  then obtain x' where r: "?r = (Returned True, Some (small_nds [1, 2]), x')"
    by (metis prod.collapse)
  have start: "IsPreimageBackend (RX_Config requested_context)" "RB_MaxResimFrames (RX_Config requested_context) < 2 ^ 31"
    "fst (BuildPreimageRestore 1 (RX_Store requested_context))"
    by code_simp+
  have "\<not> fst (BuildPreimageRestore 1 (RX_Store (snd (SaveCheckpointIfNeeded idle_emulator idle_clock 0 3
      (Some (small_nds [1, 2])) x'))))"
    using correction_cuts_preimage_chain [OF start(1) r, where g = 1 and ram = "[1, 2]"] start(2) by simp
  with r start(3) show ?thesis
    by blast
qed

end
