(* ===== verification/Armed_Replay.thy ===== *)
theory Armed_Replay
  imports Bridge_Integration Machine_Memory Rollback_Correction
begin

text \<open>
  What the packet bridge and the rollback runtime leave in the memory of the game: the input scratch
  of a frame, and the history a correction arms for the replay inside the game.
\<close>

section \<open>The input scratch\<close>

definition pad_keys :: "InputState \<Rightarrow> u16" where
  "pad_keys input = ucast (NOT (KeyMask input) AND 0x0FFF)"

definition pad_metadata :: "u8 \<Rightarrow> InputState \<Rightarrow> u32" where
  "pad_metadata action input = u32_of_bytes action (if Touching input then 1 else 0)
     (ucast (min (TouchX input) 255)) (ucast (min (TouchY input) 191))"

definition scratch_offset :: "nat \<Rightarrow> bool" where
  "scratch_offset i \<longleftrightarrow> 0x888E0 \<le> i \<and> i < 0x888E2 \<or> 0x3C1200 \<le> i \<and> i < 0x3C12C0"

definition same_but_memory :: "'m NDS_scheme \<Rightarrow> 'm NDS_scheme \<Rightarrow> bool" where
  "same_but_memory n n' \<longleftrightarrow> n' = n\<lparr>ND_MainRAM := ND_MainRAM n'\<rparr>"

lemma same_but_memory_poke: "same_but_memory n (poke off bs n)"
  by (simp add: same_but_memory_def poke_def)

lemma same_but_memory_trans: "same_but_memory n m \<Longrightarrow> same_but_memory m k \<Longrightarrow> same_but_memory n k"
  unfolding same_but_memory_def by (metis NDS.surjective NDS.update_convs(1))

lemma length_scratch_packet [simp]: "length (scratch_packet tick action input n) = 52"
  by (simp add: scratch_packet_def Let_def)

lemma scratch_packet_metadata:
  "scratch_packet tick action input n ! 4 = action"
  "scratch_packet tick action input n ! 5 = (if Touching input then 1 else 0)"
  "scratch_packet tick action input n ! 6 = ucast (min (TouchX input) 255)"
  "scratch_packet tick action input n ! 7 = ucast (min (TouchY input) 191)"
  by (simp_all add: scratch_packet_def Let_def)

lemma bridge_addresses:
  "kNetPacketTickAddr = ram_addr 0x888E0" "kNetPacketActionAddr = ram_addr 0x888E4"
  "kPacketBridgeJitScratchTickAddr = ram_addr 0x3C1200" "kPacketBridgeJitScratchActionAddr = ram_addr 0x3C1204"
  "kPacketBridgeJitScratchKeysAddr = ram_addr 0x3C1208" "kPacketBridgeJitScratchPacketsAddr = ram_addr 0x3C1240"
  "kPacketBridgeScratchTickAddress = ram_addr 0x3C1200" "kPacketBridgeScratchKeysAddress = ram_addr 0x3C1208"
  "kPacketBridgeScratchPacketsAddress = ram_addr 0x3C1240"
  "ram_addr 0x3C1208 + 2 = ram_addr 0x3C120A" "ram_addr 0x3C1240 + 0x40 = ram_addr 0x3C1280"
  "ram_addr 0x3C1240 + 4 = ram_addr 0x3C1244" "ram_addr 0x3C1280 + 4 = ram_addr 0x3C1284"
  by (simp_all add: kNetPacketTickAddr_def kNetPacketActionAddr_def kPacketBridgeJitScratchTickAddr_def
      kPacketBridgeJitScratchActionAddr_def kPacketBridgeJitScratchKeysAddr_def kPacketBridgeJitScratchPacketsAddr_def
      kPacketBridgeJitScratchBaseAddr_def kPacketBridgeScratchTickAddress_def kPacketBridgeScratchKeysAddress_def
      kPacketBridgeScratchPacketsAddress_def)

lemma write_scratch_player_poke:
  assumes "full_ram n" "k \<le> 1"
  shows "write_scratch_player hooks instanceID frame tick action (of_nat k) selected n =
    (let input = IH_ApplyAutomatedInput hooks instanceID frame n (int k) (IH_PrepareRuntimeInput hooks selected);
         n1 = poke (0x3C1208 + 2 * k) (u16_le (pad_keys input)) n
     in (input, poke (0x3C1240 + 0x40 * k) (scratch_packet tick action input n1) n1))"
proof -
  have addr: "kPacketBridgeJitScratchKeysAddr + of_nat k * 2 = ram_addr (0x3C1208 + 2 * k)"
    "kPacketBridgeJitScratchPacketsAddr + of_nat k * 0x40 = ram_addr (0x3C1240 + 0x40 * k)"
    by (simp_all add: bridge_addresses)
  have w: "ARM9Write16 (ram_addr (0x3C1208 + 2 * k)) v n = poke (0x3C1208 + 2 * k) (u16_le v) n" for v
    using assms by (intro ARM9Write16_poke) (auto simp: le_Suc_eq)
  have f: "full_ram (poke (0x3C1208 + 2 * k) (u16_le v) n)" for v
    using assms by (intro poke_full) auto
  have b: "write_bytes (ram_addr (0x3C1240 + 0x40 * k)) (scratch_packet tick action i m) m'
      = poke (0x3C1240 + 0x40 * k) (scratch_packet tick action i m) m'" if "full_ram m'" for i m m'
    using assms(2) that by (intro write_bytes_poke) (auto simp flip: length_greater_0_conv)
  have u: "uint (of_nat k :: u32) = int k"
    using assms(2) by (auto simp: le_Suc_eq)
  show ?thesis
    unfolding write_scratch_player_def addr w Let_def pad_keys_def [symmetric] b [OF f] u ..
qed

lemmas write_scratch_player_0 = write_scratch_player_poke [where k = 0, simplified]
lemmas write_scratch_player_1 = write_scratch_player_poke [where k = 1, simplified]

definition tick_of :: "BridgeContext \<Rightarrow> u32 \<Rightarrow> 'm NDS_scheme \<Rightarrow> u16" where
  "tick_of c frame n =
     (let epoch = CC_SharedLogicalEpoch (IX_Connection c)
      in if IC_NetplayOnly (IX_Input c) \<and> epoch \<noteq> 0 \<and> epoch \<le> frame then ucast (frame - epoch)
         else rd16 (main_ram n) 0x888E0)"

definition replay_entry :: "u16 \<Rightarrow> u8 \<Rightarrow> InputState \<Rightarrow> InputState \<Rightarrow> ReplayInput" where
  "replay_entry tick action input0 input1 =
     \<lparr>RY_Tick = tick, RY_Keys0 = pad_keys input0, RY_Keys1 = pad_keys input1,
      RY_Player0Metadata = pad_metadata action input0, RY_Player1Metadata = pad_metadata action input1\<rparr>"

lemma ucast_low16: "ucast (w AND 0xFFFF) = (ucast w :: u16)" for w :: u32
  unfolding low16 by (rule bit_word_eqI) (auto simp: bit_simps)

lemma ucast_up_down: "ucast (ucast h :: u32) = (h :: u16)"
  by (rule bit_word_eqI) (auto simp: bit_simps)

lemma scratch_tick_poke:
  assumes "full_ram n" "scratch_tick c frame n = (tick, n1)"
  shows "ucast tick = tick_of c frame n" "n1 = n \<or> n1 = poke 0x888E0 (u16_le (tick_of c frame n)) n"
  using assms ARM9Write16_poke [OF assms(1), of "0x888E0"] ARM9Read16_ram [OF assms(1), of "0x888E0"]
  by (auto simp: scratch_tick_def tick_of_def Let_def bridge_addresses ucast_low16 ucast_up_down split: if_splits)

definition scratch_image :: "u16 \<Rightarrow> u8 \<Rightarrow> u16 \<Rightarrow> u8 list \<Rightarrow> u16 \<Rightarrow> u8 list \<Rightarrow> 'm NDS_scheme \<Rightarrow> 'm NDS_scheme" where
  "scratch_image tick action keys0 packet0 keys1 packet1 n =
     poke 0x3C1280 packet1 (poke 0x3C120A (u16_le keys1) (poke 0x3C1240 packet0 (poke 0x3C1208 (u16_le keys0)
       (poke 0x3C1204 [action] (poke 0x3C1200 (u16_le tick) n)))))"

lemma scratch_image_effect:
  fixes n :: "'m NDS_scheme" and tick action ka pa kb pb
  assumes "full_ram n" "length pa = 52" "length pb = 52"
  defines "m \<equiv> scratch_image tick action ka pa kb pb n"
  shows "full_ram m" "same_but_memory n m"
    "i < 0x400000 \<Longrightarrow> \<not> scratch_offset i \<Longrightarrow> main_ram m ! i = main_ram n ! i"
    "rd16 (main_ram m) 0x3C1200 = tick" "rd16 (main_ram m) 0x3C1208 = ka" "rd16 (main_ram m) 0x3C120A = kb"
    "rd32 (main_ram m) 0x3C1244 = rd32 pa 4" "rd32 (main_ram m) 0x3C1284 = rd32 pb 4"
proof -
  define n1 where "n1 = poke 0x3C1200 (u16_le tick) n"
  define n2 where "n2 = poke 0x3C1204 [action] n1"
  define n3 where "n3 = poke 0x3C1208 (u16_le ka) n2"
  define n4 where "n4 = poke 0x3C1240 pa n3"
  define n5 where "n5 = poke 0x3C120A (u16_le kb) n4"
  have m: "m = poke 0x3C1280 pb n5"
    by (simp add: m_def scratch_image_def n1_def n2_def n3_def n4_def n5_def)
  have f1: "full_ram n1" using assms(1) by (simp add: n1_def poke_full)
  have f2: "full_ram n2" using f1 by (simp add: n2_def poke_full)
  have f3: "full_ram n3" using f2 by (simp add: n3_def poke_full)
  have f4: "full_ram n4" using f3 assms(2) by (simp add: n4_def poke_full)
  have f5: "full_ram n5" using f4 by (simp add: n5_def poke_full)
  have nth1: "main_ram n1 ! j = (if 0x3C1200 \<le> j \<and> j < 0x3C1202 then u16_le tick ! (j - 0x3C1200) else main_ram n ! j)"
    if "j < 0x400000" for j using that assms(1) by (simp add: n1_def poke_nth)
  have nth2: "main_ram n2 ! j = (if j = 0x3C1204 then action else main_ram n1 ! j)"
    if "j < 0x400000" for j using that f1 by (auto simp: n2_def poke_nth)
  have nth3: "main_ram n3 ! j = (if 0x3C1208 \<le> j \<and> j < 0x3C120A then u16_le ka ! (j - 0x3C1208) else main_ram n2 ! j)"
    if "j < 0x400000" for j using that f2 by (simp add: n3_def poke_nth)
  have nth4: "main_ram n4 ! j = (if 0x3C1240 \<le> j \<and> j < 0x3C1274 then pa ! (j - 0x3C1240) else main_ram n3 ! j)"
    if "j < 0x400000" for j using that f3 assms(2) by (simp add: n4_def poke_nth)
  have nth5: "main_ram n5 ! j = (if 0x3C120A \<le> j \<and> j < 0x3C120C then u16_le kb ! (j - 0x3C120A) else main_ram n4 ! j)"
    if "j < 0x400000" for j using that f4 by (simp add: n5_def poke_nth)
  have nth: "main_ram m ! j = (if 0x3C1280 \<le> j \<and> j < 0x3C12B4 then pb ! (j - 0x3C1280) else main_ram n5 ! j)"
    if "j < 0x400000" for j using that f5 assms(3) by (simp add: m poke_nth)
  show "full_ram m"
    using f5 assms(3) by (simp add: m poke_full)
  show "same_but_memory n m"
    by (simp add: same_but_memory_def m n1_def n2_def n3_def n4_def n5_def poke_def)
  show "main_ram m ! i = main_ram n ! i" if "i < 0x400000" "\<not> scratch_offset i"
    using that by (auto simp: nth nth1 nth2 nth3 nth4 nth5 scratch_offset_def)
  show "rd16 (main_ram m) 0x3C1200 = tick" "rd16 (main_ram m) 0x3C1208 = ka" "rd16 (main_ram m) 0x3C120A = kb"
    by (simp_all add: rd16_def u16_le_def nth nth1 nth2 nth3 nth4 nth5)
  show "rd32 (main_ram m) 0x3C1244 = rd32 pa 4" "rd32 (main_ram m) 0x3C1284 = rd32 pb 4"
    by (simp_all add: rd32_def nth nth1 nth2 nth3 nth4 nth5)
qed

lemma scratch_packet_rd32: "rd32 (scratch_packet tick action input n) 4 = pad_metadata action input"
  by (simp add: rd32_def scratch_packet_metadata pad_metadata_def)

lemma WriteJitScratchInputs_effect:
  assumes "full_ram n"
    and "WriteJitScratchInputs hooks c instanceID frame localPlayer localInput remoteInput hasRemote n = (inputs, n')"
  shows "\<exists>input0 input1. inputs = [input0, input1]
      \<and> read_replay_input n' = replay_entry (tick_of c frame n) (main_ram n ! 0x888E4) input0 input1
      \<and> (\<exists>m0. input0 = IH_ApplyAutomatedInput hooks instanceID frame m0 0
           (IH_PrepareRuntimeInput hooks (SelectPlayerInput 0 localPlayer localInput remoteInput hasRemote)))
      \<and> (\<exists>m1. input1 = IH_ApplyAutomatedInput hooks instanceID frame m1 1
           (IH_PrepareRuntimeInput hooks (SelectPlayerInput 1 localPlayer localInput remoteInput hasRemote)))
      \<and> full_ram n' \<and> same_but_memory n n'
      \<and> (\<forall>i < 0x400000. \<not> scratch_offset i \<longrightarrow> main_ram n' ! i = main_ram n ! i)"
proof -
  obtain tick n1 where st: "scratch_tick c frame n = (tick, n1)"
    by fastforce
  note tick = scratch_tick_poke [OF assms(1) st]
  have f1: "full_ram n1" and same1: "same_but_memory n n1"
    using tick(2) assms(1) poke_full [OF assms(1), of "0x888E0" "u16_le (tick_of c frame n)"]
      same_but_memory_poke [of n] by (auto simp: same_but_memory_def)
  have keep1: "main_ram n1 ! i = main_ram n ! i" if "i < 0x400000" "\<not> scratch_offset i" for i
    using tick(2) that poke_nth [OF assms(1), of "0x888E0" "u16_le (tick_of c frame n)" i]
    by (auto simp: scratch_offset_def)
  define action where "action = ARM9Read8 kNetPacketActionAddr n1"
  have action: "action = main_ram n ! 0x888E4"
    using ARM9Read8_ram [OF f1, of "0x888E4"] keep1 [of "0x888E4"]
    by (simp add: action_def bridge_addresses scratch_offset_def)
  have n2: "ARM9Write8 kPacketBridgeJitScratchActionAddr action (ARM9Write16 kPacketBridgeJitScratchTickAddr (ucast tick) n1)
      = poke 0x3C1204 [action] (poke 0x3C1200 (u16_le (tick_of c frame n)) n1)"
    using ARM9Write16_poke [OF f1, of "0x3C1200" "tick_of c frame n"]
      ARM9Write8_poke [OF poke_full [OF f1, of "0x3C1200" "u16_le (tick_of c frame n)"], of "0x3C1204" action]
    by (simp add: bridge_addresses tick(1))
  let ?n2 = "poke 0x3C1204 [action] (poke 0x3C1200 (u16_le (tick_of c frame n)) n1)"
  let ?sel = "\<lambda>p. SelectPlayerInput p localPlayer localInput remoteInput hasRemote"
  have f2: "full_ram ?n2"
    using f1 by (simp add: poke_full)
  define input0 where "input0 = IH_ApplyAutomatedInput hooks instanceID frame ?n2 0 (IH_PrepareRuntimeInput hooks (?sel 0))"
  define m0 where "m0 = poke 0x3C1208 (u16_le (pad_keys input0)) ?n2"
  define n3 where "n3 = poke 0x3C1240 (scratch_packet tick action input0 m0) m0"
  have f3: "full_ram n3"
    unfolding n3_def m0_def by (intro poke_full f2) simp_all
  define input1 where "input1 = IH_ApplyAutomatedInput hooks instanceID frame n3 1 (IH_PrepareRuntimeInput hooks (?sel 1))"
  define m1 where "m1 = poke 0x3C120A (u16_le (pad_keys input1)) n3"
  have w0: "write_scratch_player hooks instanceID frame tick action 0 (?sel 0) ?n2 = (input0, n3)"
    unfolding write_scratch_player_0 [OF f2] by (simp add: Let_def input0_def m0_def n3_def)
  have w1: "write_scratch_player hooks instanceID frame tick action 1 (?sel 1) n3
      = (input1, poke 0x3C1280 (scratch_packet tick action input1 m1) m1)"
    unfolding write_scratch_player_1 [OF f3] by (simp add: Let_def input1_def m1_def)
  have ram: "\<not> ND_MainRAM n = None"
    using assms(1) by (auto simp: full_ram_def)
  have "WriteJitScratchInputs hooks c instanceID frame localPlayer localInput remoteInput hasRemote n
      = ([input0, input1], poke 0x3C1280 (scratch_packet tick action input1 m1) m1)"
    unfolding WriteJitScratchInputs_def if_not_P [OF ram] st Let_def prod.case action_def [symmetric] n2 w0 w1 ..
  then have result: "inputs = [input0, input1]"
    "n' = scratch_image (tick_of c frame n) action (pad_keys input0) (scratch_packet tick action input0 m0)
       (pad_keys input1) (scratch_packet tick action input1 m1) n1"
    using assms(2) by (simp_all add: scratch_image_def m1_def n3_def m0_def)
  have len: "length (scratch_packet tick action input0 m0) = 52" "length (scratch_packet tick action input1 m1) = 52"
    by simp_all
  note effect = scratch_image_effect [OF f1 len, where tick = "tick_of c frame n" and action = action
      and ka = "pad_keys input0" and kb = "pad_keys input1", folded result(2)]
  have read: "read_replay_input n' = replay_entry (tick_of c frame n) (main_ram n ! 0x888E4) input0 input1"
    using effect(4-8) ARM9Read16_ram [OF effect(1), of "0x3C1200"] ARM9Read16_ram [OF effect(1), of "0x3C1208"]
      ARM9Read16_ram [OF effect(1), of "0x3C120A"] ARM9Read32_ram [OF effect(1), of "0x3C1244"]
      ARM9Read32_ram [OF effect(1), of "0x3C1284"]
    by (simp add: read_replay_input_def replay_entry_def bridge_addresses scratch_packet_rd32 action)
  have keep: "\<forall>i < 0x400000. \<not> scratch_offset i \<longrightarrow> main_ram n' ! i = main_ram n ! i"
    using effect(3) keep1 by simp
  show ?thesis
    using result(1) read keep effect(1) same_but_memory_trans [OF same1 effect(2)] input0_def input1_def
    by (intro exI [of _ input0] exI [of _ input1]) blast
qed

section \<open>The history of a correction\<close>

definition applied_input :: "'a IntegrationHooks \<Rightarrow> (u32 \<Rightarrow> int \<Rightarrow> InputState \<Rightarrow> InputState) \<Rightarrow> int \<Rightarrow> u32 \<Rightarrow> ReplayFrameInputs \<Rightarrow> int \<Rightarrow> InputState" where
  "applied_input ih automated localPlayer f i p =
     automated f p (IH_PrepareRuntimeInput ih (SelectPlayerInput p localPlayer (RF_Local i) (RF_Remote i) True))"

definition history_input :: "'a IntegrationHooks \<Rightarrow> (u32 \<Rightarrow> int \<Rightarrow> InputState \<Rightarrow> InputState) \<Rightarrow> int \<Rightarrow> u32 \<Rightarrow> u8
    \<Rightarrow> u32 \<times> ReplayFrameInputs \<Rightarrow> ReplayInput" where
  "history_input ih automated localPlayer epoch action = (\<lambda>(f, i).
     replay_entry (ucast (f - epoch)) action (applied_input ih automated localPlayer f i 0) (applied_input ih automated localPlayer f i 1))"

definition entry_bytes :: "ReplayInput \<Rightarrow> u8 list" where
  "entry_bytes r = u16_le (RY_Tick r) @ u16_le (RY_Keys0 r) @ u16_le (RY_Keys1 r) @ u16_le 0
     @ u32_le (RY_Player0Metadata r) @ u32_le (RY_Player1Metadata r)"

lemma length_entry_bytes [simp]: "length (entry_bytes r) = 16"
  by (simp add: entry_bytes_def)

lemma length_history [simp]: "length (concat (map entry_bytes rs)) = 16 * length rs"
  by (induction rs) simp_all

lemma collect_replay_inputs:
  assumes hook: "HK_WritePacketBridgeInputs hooks =
      (\<lambda>i f lp l r has predicted n. snd (WriteJitScratchInputs ih c i f lp l r has n))"
    and auto: "\<And>f m p x. IH_ApplyAutomatedInput ih instanceID f m p x = automated f p x"
    and epoch: "IC_NetplayOnly (IX_Input c)" "CC_SharedLogicalEpoch (IX_Connection c) \<noteq> 0"
  shows "full_ram n \<Longrightarrow> \<forall>(f, i) \<in> set fs. CC_SharedLogicalEpoch (IX_Connection c) \<le> f
    \<Longrightarrow> collect_replay hooks instanceID localPlayer fs n = (rs, n')
    \<Longrightarrow> rs = map (history_input ih automated localPlayer (CC_SharedLogicalEpoch (IX_Connection c)) (main_ram n ! 0x888E4)) fs
      \<and> full_ram n' \<and> same_but_memory n n' \<and> (\<forall>i < 0x400000. \<not> scratch_offset i \<longrightarrow> main_ram n' ! i = main_ram n ! i)"
proof (induction fs arbitrary: n rs)
  case Nil
  then show ?case
    by (simp add: same_but_memory_def)
next
  case (Cons fi fs)
  obtain f i where fi: "fi = (f, i)"
    by fastforce
  obtain inputs n1 where w: "WriteJitScratchInputs ih c instanceID f localPlayer (RF_Local i) (RF_Remote i) True n = (inputs, n1)"
    by fastforce
  obtain rs1 where rec: "collect_replay hooks instanceID localPlayer fs n1 = (rs1, n')" "rs = read_replay_input n1 # rs1"
    using Cons.prems(3) by (auto simp: fi hook w Let_def split: prod.splits)
  have tick: "tick_of c f n = ucast (f - CC_SharedLogicalEpoch (IX_Connection c))"
    using Cons.prems(2) epoch by (simp add: tick_of_def fi Let_def)
  from WriteJitScratchInputs_effect [OF Cons.prems(1) w]
  have read: "read_replay_input n1 = history_input ih automated localPlayer (CC_SharedLogicalEpoch (IX_Connection c)) (main_ram n ! 0x888E4) fi"
    and n1: "full_ram n1" "same_but_memory n n1" "\<forall>i < 0x400000. \<not> scratch_offset i \<longrightarrow> main_ram n1 ! i = main_ram n ! i"
    by (auto simp: auto history_input_def applied_input_def fi tick)
  have action: "main_ram n1 ! 0x888E4 = main_ram n ! 0x888E4"
    using n1(3) [rule_format, of "0x888E4"] by (simp add: scratch_offset_def)
  have "\<forall>(f, i) \<in> set fs. CC_SharedLogicalEpoch (IX_Connection c) \<le> f"
    using Cons.prems(2) by simp
  from Cons.IH [OF n1(1) this rec(1)] show ?case
    using read n1 rec(2) same_but_memory_trans [OF n1(2)] by (auto simp: action)
qed

lemma write_history_entry_poke:
  assumes "full_ram n" "k < 12"
  shows "write_history_entry (of_nat k) r n = poke (0x3C1300 + 16 * k) (entry_bytes r) n"
proof -
  let ?o = "0x3C1300 + 16 * k"
  have addr: "kRomLoopHistoryAddress + of_nat k * kRomLoopHistoryEntrySize = ram_addr ?o"
    "ram_addr ?o + 2 = ram_addr (?o + 2)" "ram_addr ?o + 4 = ram_addr (?o + 4)" "ram_addr ?o + 6 = ram_addr (?o + 6)"
    "ram_addr ?o + 8 = ram_addr (?o + 8)" "ram_addr ?o + 12 = ram_addr (?o + 12)"
    by (simp_all add: kRomLoopHistoryAddress_def kRomLoopHistoryEntrySize_def)
  define n1 where "n1 = poke ?o (u16_le (RY_Tick r)) n"
  define n2 where "n2 = poke (?o + 2) (u16_le (RY_Keys0 r)) n1"
  define n3 where "n3 = poke (?o + 4) (u16_le (RY_Keys1 r)) n2"
  define n4 where "n4 = poke (?o + 6) (u16_le 0) n3"
  define n5 where "n5 = poke (?o + 8) (u32_le (RY_Player0Metadata r)) n4"
  have f1: "full_ram n1" using assms by (simp add: n1_def poke_full)
  have f2: "full_ram n2" using f1 assms(2) by (simp add: n2_def poke_full)
  have f3: "full_ram n3" using f2 assms(2) by (simp add: n3_def poke_full)
  have f4: "full_ram n4" using f3 assms(2) by (simp add: n4_def poke_full)
  have f5: "full_ram n5" using f4 assms(2) by (simp add: n5_def poke_full)
  have even: "?o mod 2 = 0" "(?o + 2) mod 2 = 0" "(?o + 4) mod 2 = 0" "(?o + 6) mod 2 = 0" "(?o + 8) mod 4 = 0" "(?o + 12) mod 4 = 0"
    by presburger+
  have e1: "ARM9Write16 (ram_addr ?o) (RY_Tick r) n = n1"
    unfolding n1_def by (rule ARM9Write16_poke [OF assms(1) _ even(1)]) (use assms(2) in simp)
  have e2: "ARM9Write16 (ram_addr (?o + 2)) (RY_Keys0 r) n1 = n2"
    unfolding n2_def by (rule ARM9Write16_poke [OF f1 _ even(2)]) (use assms(2) in simp)
  have e3: "ARM9Write16 (ram_addr (?o + 4)) (RY_Keys1 r) n2 = n3"
    unfolding n3_def by (rule ARM9Write16_poke [OF f2 _ even(3)]) (use assms(2) in simp)
  have e4: "ARM9Write16 (ram_addr (?o + 6)) 0 n3 = n4"
    unfolding n4_def by (rule ARM9Write16_poke [OF f3 _ even(4)]) (use assms(2) in simp)
  have e5: "ARM9Write32 (ram_addr (?o + 8)) (RY_Player0Metadata r) n4 = n5"
    unfolding n5_def by (rule ARM9Write32_poke [OF f4 _ even(5)]) (use assms(2) in simp)
  have e6: "ARM9Write32 (ram_addr (?o + 12)) (RY_Player1Metadata r) n5 = poke (?o + 12) (u32_le (RY_Player1Metadata r)) n5"
    by (rule ARM9Write32_poke [OF f5 _ even(6)]) (use assms(2) in simp)
  have grow: "poke (?o + length bs) cs (poke ?o bs n) = poke ?o (bs @ cs) n" if "length bs + length cs \<le> 16" for bs cs
    using that assms by (intro poke_append) auto
  have "n2 = poke ?o (u16_le (RY_Tick r) @ u16_le (RY_Keys0 r)) n"
    using grow [of "u16_le (RY_Tick r)" "u16_le (RY_Keys0 r)"] by (simp add: n2_def n1_def)
  then have "n3 = poke ?o (u16_le (RY_Tick r) @ u16_le (RY_Keys0 r) @ u16_le (RY_Keys1 r)) n"
    using grow [of "u16_le (RY_Tick r) @ u16_le (RY_Keys0 r)" "u16_le (RY_Keys1 r)"] by (simp add: n3_def)
  then have "n4 = poke ?o (u16_le (RY_Tick r) @ u16_le (RY_Keys0 r) @ u16_le (RY_Keys1 r) @ u16_le 0) n"
    using grow [of "u16_le (RY_Tick r) @ u16_le (RY_Keys0 r) @ u16_le (RY_Keys1 r)" "u16_le 0"] by (simp add: n4_def)
  then have "n5 = poke ?o (u16_le (RY_Tick r) @ u16_le (RY_Keys0 r) @ u16_le (RY_Keys1 r) @ u16_le 0
      @ u32_le (RY_Player0Metadata r)) n"
    using grow [of "u16_le (RY_Tick r) @ u16_le (RY_Keys0 r) @ u16_le (RY_Keys1 r) @ u16_le 0" "u32_le (RY_Player0Metadata r)"]
    by (simp add: n5_def)
  then have "poke (?o + 12) (u32_le (RY_Player1Metadata r)) n5 = poke ?o (entry_bytes r) n"
    using grow [of "u16_le (RY_Tick r) @ u16_le (RY_Keys0 r) @ u16_le (RY_Keys1 r) @ u16_le 0 @ u32_le (RY_Player0Metadata r)"
        "u32_le (RY_Player1Metadata r)"]
    by (simp add: entry_bytes_def)
  then show ?thesis
    unfolding write_history_entry_def addr Let_def e1 e2 e3 e4 e5 e6 .
qed

lemma write_history_poke:
  "full_ram n \<Longrightarrow> k + length rs \<le> 12 \<Longrightarrow> rs \<noteq> [] \<Longrightarrow>
    write_history (of_nat k) rs n = poke (0x3C1300 + 16 * k) (concat (map entry_bytes rs)) n"
proof (induction rs arbitrary: k n)
  case (Cons r rs)
  have entry: "write_history_entry (of_nat k) r n = poke (0x3C1300 + 16 * k) (entry_bytes r) n"
    using Cons.prems by (intro write_history_entry_poke) simp_all
  show ?case
  proof (cases "rs = []")
    case False
    have "of_nat k + 1 = (of_nat (Suc k) :: u32)"
      by simp
    moreover have "write_history (of_nat (Suc k)) rs (poke (0x3C1300 + 16 * k) (entry_bytes r) n)
        = poke (0x3C1300 + 16 * Suc k) (concat (map entry_bytes rs)) (poke (0x3C1300 + 16 * k) (entry_bytes r) n)"
      using Cons.prems False by (intro Cons.IH poke_full) simp_all
    moreover have "\<dots> = poke (0x3C1300 + 16 * k) (entry_bytes r @ concat (map entry_bytes rs)) n"
      using poke_append [of n "0x3C1300 + 16 * k" "entry_bytes r" "concat (map entry_bytes rs)"] Cons.prems
      by (simp add: add.commute add.left_commute)
    ultimately show ?thesis
      by (simp only: write_history.simps entry list.map concat.simps)
  qed (simp add: entry)
qed simp

lemma write_transaction_effect:
  fixes n :: "'m NDS_scheme" and rs cnt gameFrame
  assumes "full_ram n" "rs \<noteq> []" "length rs \<le> 12"
  defines "m \<equiv> write_transaction cnt gameFrame rs n"
  shows "full_ram m" "same_but_memory n m"
    "rd32 (main_ram m) 0x1ACC = 1" "rd32 (main_ram m) 0x1AD0 = 0" "rd32 (main_ram m) 0x1AD4 = cnt"
    "rd32 (main_ram m) 0x1AD8 = 1" "rd32 (main_ram m) 0x1ADC = gameFrame"
    "copy_out 0x3C1300 (16 * length rs) (main_ram m) = concat (map entry_bytes rs)"
proof -
  let ?h = "concat (map entry_bytes rs)"
  have addr: "historyIndexAddr = ram_addr 0x1AD0" "historyCountAddr = ram_addr 0x1AD4" "historyTargetAddr = ram_addr 0x1AD8"
    "historyStartFrameAddr = ram_addr 0x1ADC" "historyEnabledAddr = ram_addr 0x1ACC"
    "(0x02001AC4 :: u32) = ram_addr 0x1AC4" "(0x02001AC0 :: u32) = ram_addr 0x1AC0"
    by (simp_all add: historyIndexAddr_def historyCountAddr_def historyTargetAddr_def historyStartFrameAddr_def historyEnabledAddr_def)
  have word: "ARM9Write32 (ram_addr k) w q = poke k (u32_le w) q" "full_ram (poke k (u32_le w) q)"
    if "full_ram q" "k < 0x1AE0" "k mod 4 = 0" for k w and q :: "'m NDS_scheme"
    using that by (auto intro!: ARM9Write32_poke poke_full)
  define n1 where "n1 = poke 0x1AD0 (u32_le 0) n"
  define n2 where "n2 = poke 0x1AD4 (u32_le cnt) n1"
  define n3 where "n3 = poke 0x1AD8 (u32_le 1) n2"
  define n4 where "n4 = poke 0x1ADC (u32_le gameFrame) n3"
  define n5 where "n5 = poke 0x3C1300 ?h n4"
  define n6 where "n6 = poke 0x1ACC (u32_le 1) n5"
  define n7 where "n7 = poke 0x1AC4 (u32_le 0) n6"
  have f1: "full_ram n1" using assms(1) by (simp add: n1_def word)
  have f2: "full_ram n2" using f1 by (simp add: n2_def word)
  have f3: "full_ram n3" using f2 by (simp add: n3_def word)
  have f4: "full_ram n4" using f3 by (simp add: n4_def word)
  have f5: "full_ram n5" using f4 assms(3) by (simp add: n5_def poke_full)
  have f6: "full_ram n6" using f5 by (simp add: n6_def word)
  have f7: "full_ram n7" using f6 by (simp add: n7_def word)
  have w1: "ARM9Write32 (ram_addr 0x1AD0) 0 n = n1"
    unfolding n1_def by (rule word(1) [OF assms(1)]) simp_all
  have w2: "ARM9Write32 (ram_addr 0x1AD4) cnt n1 = n2"
    unfolding n2_def by (rule word(1) [OF f1]) simp_all
  have w3: "ARM9Write32 (ram_addr 0x1AD8) 1 n2 = n3"
    unfolding n3_def by (rule word(1) [OF f2]) simp_all
  have w4: "ARM9Write32 (ram_addr 0x1ADC) gameFrame n3 = n4"
    unfolding n4_def by (rule word(1) [OF f3]) simp_all
  have w5: "ARM9Write32 (ram_addr 0x1ACC) 1 n5 = n6"
    unfolding n6_def by (rule word(1) [OF f5]) simp_all
  have w6: "ARM9Write32 (ram_addr 0x1AC4) 0 n6 = n7"
    unfolding n7_def by (rule word(1) [OF f6]) simp_all
  have w7: "ARM9Write32 (ram_addr 0x1AC0) 0 n7 = poke 0x1AC0 (u32_le 0) n7"
    by (rule word(1) [OF f7]) simp_all
  have h: "write_history 0 rs n4 = n5"
    using write_history_poke [OF f4, of 0 rs] assms(2,3) by (simp add: n5_def)
  have m: "m = poke 0x1AC0 (u32_le 0) n7"
    unfolding m_def write_transaction_def addr w1 w2 w3 w4 h w5 w6 w7 ..
  show "full_ram m"
    using f7 by (simp add: m word)
  show "same_but_memory n m"
    by (simp add: same_but_memory_def m n1_def n2_def n3_def n4_def n5_def n6_def n7_def poke_def)
  have other: "rd32 (main_ram (poke off bs q)) k = rd32 (main_ram q) k"
    if "full_ram q" "k < 0x2000" "k + 4 \<le> off \<or> off + length bs \<le> k" "off + length bs \<le> 0x400000"
    for k off bs and q :: "'m NDS_scheme"
    using that by (intro rd32_poke_other) (auto simp: outside_def)
  have k8: "rd32 (main_ram m) k = rd32 (main_ram n6) k" if "0x1AC8 \<le> k" "k < 0x2000" for k
    using that other [OF f7, of k "0x1AC0" "u32_le 0"] other [OF f6, of k "0x1AC4" "u32_le 0"] by (simp add: m n7_def)
  have k6: "rd32 (main_ram n6) k = rd32 (main_ram n4) k" if "0x1AD0 \<le> k" "k < 0x2000" for k
    using that other [OF f5, of k "0x1ACC" "u32_le 1"] other [OF f4, of k "0x3C1300" ?h] assms(3) by (simp add: n5_def n6_def)
  show "rd32 (main_ram m) 0x1ACC = 1"
    using rd32_poke_same [OF f5, of "0x1ACC"] by (simp add: k8 n6_def)
  have s4: "rd32 (main_ram m) 0x1ADC = rd32 (main_ram n4) 0x1ADC" and s3: "rd32 (main_ram m) 0x1AD8 = rd32 (main_ram n3) 0x1AD8"
    and s2: "rd32 (main_ram m) 0x1AD4 = rd32 (main_ram n2) 0x1AD4" and s1: "rd32 (main_ram m) 0x1AD0 = rd32 (main_ram n1) 0x1AD0"
    using other [OF f3, of _ "0x1ADC" "u32_le gameFrame"] other [OF f2, of _ "0x1AD8" "u32_le 1"]
      other [OF f1, of _ "0x1AD4" "u32_le cnt"] by (simp_all add: k8 k6 n4_def n3_def n2_def)
  show "rd32 (main_ram m) 0x1ADC = gameFrame"
    using rd32_poke_same [OF f3] by (simp add: s4 n4_def)
  show "rd32 (main_ram m) 0x1AD8 = 1"
    using rd32_poke_same [OF f2] by (simp add: s3 n3_def)
  show "rd32 (main_ram m) 0x1AD4 = cnt"
    using rd32_poke_same [OF f1] by (simp add: s2 n2_def)
  show "rd32 (main_ram m) 0x1AD0 = 0"
    using rd32_poke_same [OF assms(1)] by (simp add: s1 n1_def)
  have c: "copy_out 0x3C1300 (16 * length rs) (main_ram (poke off (u32_le v) q)) = copy_out 0x3C1300 (16 * length rs) (main_ram q)"
    if "full_ram q" "off < 0x2000" for off v and q :: "'m NDS_scheme"
    using that assms(3) by (intro copy_out_poke_other) (auto simp: outside_def)
  show "copy_out 0x3C1300 (16 * length rs) (main_ram m) = ?h"
    using c [OF f7] c [OF f6] c [OF f5] copy_out_poke_same [OF f4, of "0x3C1300" ?h] assms(3)
    by (simp add: m n7_def n6_def n5_def)
qed

lemma apply_pending_restore:
  assumes "full_ram m" "ND_RestorePending m" "ND_RestoreData m = Some img" "ND_RestoreLength m = of_nat (length img)"
    "length img = 0x400000"
  shows "ApplyNSMLPendingGameRAMRestore enabled us m = m\<lparr>ND_MainRAM := Some (restore_image 0x400000 img (main_ram m)),
      ND_RestoreUs := us, ND_RestoreBytes := 0x400000, ND_RestorePending := False, ND_RestoreData := None,
      ND_RestoreLength := 0, ND_RestoreOwnedBuffer := []\<rparr>"
proof -
  obtain ram where ram: "ND_MainRAM m = Some ram"
    using assms(1) by (rule full_ramE)
  show ?thesis
    using assms(2-5) full_ram_length [OF assms(1)] by (simp add: ApplyNSMLPendingGameRAMRestore_def ram)
qed

lemma resolve_frames_authoritative:
  assumes "localPlayer = 0 \<or> localPlayer = 1"
  shows "\<exists>resolved p. resolve_frames (replay_probe config) localPlayer fs t = (Some resolved, t\<lparr>TR_RollbackInputs := p\<rparr>)
    \<and> map fst resolved = fs \<and> (\<forall>(f, i) \<in> set resolved. authoritative t localPlayer f i)"
proof (induction fs arbitrary: t)
  case Nil
  have "t = t\<lparr>TR_RollbackInputs := TR_RollbackInputs t\<rparr>"
    by simp
  then show ?case
    by (intro exI [of _ "[]"] exI [of _ "TR_RollbackInputs t"]) simp
next
  case (Cons f fs)
  obtain i p where i: "ResolveReplayFrameInputs f localPlayer InputState_default (replay_probe config) t
      = (Some i, t\<lparr>TR_RollbackInputs := p\<rparr>)" "authoritative t localPlayer f i"
    using ResolveReplayFrameInputs_replay [OF assms] by metis
  obtain resolved q where r: "resolve_frames (replay_probe config) localPlayer fs (t\<lparr>TR_RollbackInputs := p\<rparr>)
      = (Some resolved, t\<lparr>TR_RollbackInputs := q\<rparr>)" "map fst resolved = fs"
      "\<forall>(g, j) \<in> set resolved. authoritative (t\<lparr>TR_RollbackInputs := p\<rparr>) localPlayer g j"
    using Cons.IH [of "t\<lparr>TR_RollbackInputs := p\<rparr>"] by auto
  have same: "authoritative (t\<lparr>TR_RollbackInputs := p\<rparr>) localPlayer g j = authoritative t localPlayer g j" for g j
    by (simp add: authoritative_def)
  show ?case
    using i r by (intro exI [of _ "(f, i) # resolved"] exI [of _ q]) (auto simp: same)
qed

lemma restored_reads:
  assumes "length ram = 0x400000" "length img = 0x400000"
  shows "k \<in> {0x1ACC, 0x1AD0, 0x1AD4, 0x1AD8, 0x1ADC} \<Longrightarrow> rd32 (restore_image 0x400000 img ram) k = rd32 ram k"
    "len \<le> historyLength \<Longrightarrow> copy_out historyOffset len (restore_image 0x400000 img ram) = copy_out historyOffset len ram"
proof -
  note nth = restore_image_nth [OF assms]
  show "rd32 (restore_image 0x400000 img ram) k = rd32 ram k" if "k \<in> {0x1ACC, 0x1AD0, 0x1AD4, 0x1AD8, 0x1ADC}"
    using that by (auto simp: rd32_def nth preserved_offset_def ram_layout)
  show "copy_out historyOffset len (restore_image 0x400000 img ram) = copy_out historyOffset len ram" if "len \<le> historyLength"
    by (rule nth_equalityI)
      (use that nth assms in \<open>auto simp: length_copy_out nth_copy_out ram_layout preserved_offset_def\<close>)
qed

lemma Discard_memory:
  "ND_MainRAM (snd (DiscardNSMLGameRAMCheckpointsAfter f n)) = ND_MainRAM n"
  "ND_MainRAMMask (snd (DiscardNSMLGameRAMCheckpointsAfter f n)) = ND_MainRAMMask n"
  "ND_RestorePending (snd (DiscardNSMLGameRAMCheckpointsAfter f n)) = ND_RestorePending n"
  "ND_RestoreData (snd (DiscardNSMLGameRAMCheckpointsAfter f n)) = ND_RestoreData n"
  "ND_RestoreLength (snd (DiscardNSMLGameRAMCheckpointsAfter f n)) = ND_RestoreLength n"
  by (simp_all add: DiscardNSMLGameRAMCheckpointsAfter_def Let_def split: prod.splits)

lemma same_but_memory_fields:
  assumes "same_but_memory n m"
  shows "ND_RestorePending m = ND_RestorePending n" "ND_HistoryReachedExitGate m = ND_HistoryReachedExitGate n"
    "ND_RestoreData m = ND_RestoreData n" "ND_RestoreLength m = ND_RestoreLength n"
  by (subst assms [unfolded same_but_memory_def], simp)+

definition can_arm :: "u32 \<Rightarrow> u32 \<Rightarrow> StoredState \<Rightarrow> 'm NDS_scheme \<Rightarrow> bool" where
  "can_arm restoreFrame frame checkpoint n \<longleftrightarrow> restoreFrame \<le> frame \<and> frame - restoreFrame < 12 \<and> frame \<noteq> 0xFFFFFFFF
     \<and> SS_GameFrame checkpoint \<noteq> kNoFrame \<and> length (SS_MainRAMCopy checkpoint) = 0x400000
     \<and> full_ram n \<and> rd32 (main_ram n) 0x1AC8 = 0x32505447 \<and> rd32 (main_ram n) 0x1ACC = 0
     \<and> \<not> ND_RestorePending n \<and> \<not> ND_HistoryReachedExitGate n"

lemma can_arm_count:
  assumes "restoreFrame \<le> frame" "frame - restoreFrame < 12" "frame \<noteq> 0xFFFFFFFF"
  shows "RequiredHistoryCount restoreFrame frame = frame - restoreFrame + 1"
    "unat (frame - restoreFrame + 1) = Suc (unat (frame - restoreFrame))" "unat (frame - restoreFrame) < 12"
proof -
  show u: "unat (frame - restoreFrame) < 12"
    using assms(2) by (simp add: word_less_nat_alt)
  then show "unat (frame - restoreFrame + 1) = Suc (unat (frame - restoreFrame))"
    by (simp add: unat_word_ariths)
  show "RequiredHistoryCount restoreFrame frame = frame - restoreFrame + 1"
    using assms u by (simp add: RequiredHistoryCount_def Let_def word_less_nat_alt not_less word_le_nat_alt)
qed

lemma transaction_frames_range:
  assumes "restoreFrame \<le> frame" "frame - restoreFrame < 12" "f \<in> set (replay_frames restoreFrame (frame - restoreFrame + 1))"
  shows "restoreFrame \<le> f"
proof -
  obtain k where k: "k < unat (frame - restoreFrame + 1)" "f = restoreFrame + of_nat k"
    using assms(3) by (auto simp: replay_frames_def)
  have "unat (frame - restoreFrame) < 12"
    using assms(2) by (simp add: word_less_nat_alt)
  then have "k \<le> unat frame - unat restoreFrame" "k < 12"
    using k(1) assms(1) by (auto simp: unat_word_ariths unat_sub_u32 split: if_splits)
  moreover have "unat restoreFrame \<le> unat frame" "unat frame < 2 ^ 32"
    using assms(1) unat_u32_less by (auto simp: word_le_nat_alt)
  ultimately have "unat restoreFrame + k < 2 ^ 32"
    by linarith
  then have "unat f = unat restoreFrame + k"
    using \<open>k < 12\<close> by (simp add: k(2) unat_word_ariths unat_of_nat)
  then show ?thesis
    by (simp add: word_le_nat_alt)
qed

lemma arm_correction_armed:
  assumes hook: "HK_WritePacketBridgeInputs hooks =
      (\<lambda>i f lp l r has predicted n. snd (WriteJitScratchInputs ih c i f lp l r has n))"
    and auto: "\<forall>f m p x. IH_ApplyAutomatedInput ih instanceID f m p x = automated f p x"
    and epoch: "IC_NetplayOnly (IX_Input c)" "CC_SharedLogicalEpoch (IX_Connection c) = epoch" "epoch \<noteq> 0" "epoch \<le> restoreFrame"
    and player: "HK_CurrentLocalPlayer hooks = localPlayer" "localPlayer = 0 \<or> localPlayer = 1"
    and arm: "can_arm restoreFrame frame checkpoint n"
  shows "\<exists>n' x' resolved. arm_correction hooks instanceID frame restoreFrame checkpoint n x = (True, n', x')
    \<and> map fst resolved = replay_frames restoreFrame (frame - restoreFrame + 1)
    \<and> (\<forall>(f, i) \<in> set resolved. authoritative (RX_Inputs x) localPlayer f i)
    \<and> full_ram n' \<and> ND_RestorePending n' \<and> ND_RestoreData n' = Some (SS_MainRAMCopy checkpoint)
    \<and> ND_RestoreLength n' = of_nat (length (SS_MainRAMCopy checkpoint))
    \<and> rd32 (main_ram n') 0x1ACC = 1 \<and> rd32 (main_ram n') 0x1AD0 = 0 \<and> rd32 (main_ram n') 0x1AD4 = of_nat (length resolved)
    \<and> rd32 (main_ram n') 0x1ADC = SS_GameFrame checkpoint \<and> length resolved \<le> 12
    \<and> copy_out historyOffset (16 * length resolved) (main_ram n')
      = concat (map (entry_bytes \<circ> history_input ih automated localPlayer epoch (main_ram n ! 0x888E4)) resolved)"
proof -
  note can = arm [unfolded can_arm_def]
  let ?t = "frame - restoreFrame + 1" and ?img = "SS_MainRAMCopy checkpoint"
  have cnt: "RequiredHistoryCount restoreFrame frame = ?t" "unat ?t = Suc (unat (frame - restoreFrame))" "unat (frame - restoreFrame) < 12"
    using can can_arm_count by auto
  have guard: "\<not> (?t = 0 \<or> kRomLoopHistoryCapacity < ?t \<or> SS_GameFrame checkpoint = kNoFrame
      \<or> ARM9Read32 kRomLoopMagicAddress n \<noteq> kRomLoopMagic)"
    using can cnt(2,3) ARM9Read32_ram [of n "0x1AC8"]
    by (auto simp: kRomLoopMagicAddress_def kRomLoopMagic_def kRomLoopHistoryCapacity_def word_less_nat_alt word_unat_eq_iff)
  obtain resolved p where resolved: "resolve_frames (replay_probe (RX_Config x)) localPlayer (replay_frames restoreFrame ?t) (RX_Inputs x)
      = (Some resolved, (RX_Inputs x)\<lparr>TR_RollbackInputs := p\<rparr>)" "map fst resolved = replay_frames restoreFrame ?t"
      "\<forall>(f, i) \<in> set resolved. authoritative (RX_Inputs x) localPlayer f i"
    using resolve_frames_authoritative [OF player(2)] by metis
  have len: "length resolved = unat ?t"
    using arg_cong [OF resolved(2), of length] by (simp add: replay_frames_def)
  have "restoreFrame \<le> f" if "(f, i) \<in> set resolved" for f i
    using transaction_frames_range [of restoreFrame frame f] can that resolved(2) by (metis fst_conv image_eqI list.set_map)
  then have range: "\<forall>(f, i) \<in> set resolved. CC_SharedLogicalEpoch (IX_Connection c) \<le> f"
    using epoch order_trans by fastforce
  obtain rs n1 where collect: "collect_replay hooks instanceID localPlayer resolved n = (rs, n1)"
    by fastforce
  have "CC_SharedLogicalEpoch (IX_Connection c) \<noteq> 0" "full_ram n"
    using epoch can by auto
  from collect_replay_inputs [OF hook _ epoch(1) this(1) this(2) range collect] auto
  have rs: "rs = map (history_input ih automated localPlayer epoch (main_ram n ! 0x888E4)) resolved"
    and n1: "full_ram n1" "same_but_memory n n1" "\<forall>i < 0x400000. \<not> scratch_offset i \<longrightarrow> main_ram n1 ! i = main_ram n ! i"
    by (auto simp: epoch(2))
  have fields: "ND_RestorePending n1 = ND_RestorePending n" "ND_HistoryReachedExitGate n1 = ND_HistoryReachedExitGate n"
    using n1(2) same_but_memory_fields by auto
  have "rd32 (main_ram n1) 0x1ACC = rd32 (main_ram n) 0x1ACC"
    using n1(3) by (simp add: rd32_def scratch_offset_def)
  then have idle: "\<not> IsNSMLGameRAMRollbackTransactionInFlight n1"
    using can fields ARM9Read32_ram [OF n1(1), of "0x1ACC"]
    by (simp add: IsNSMLGameRAMRollbackTransactionInFlight_def historyEnabledAddr_def)
  define n2 where "n2 = n1\<lparr>ND_RestoreOwnedBuffer := ?img, ND_RestoreData := Some ?img, ND_RestoreLength := of_nat (length ?img),
      ND_HistoryReachedExitGate := False, ND_ReplayDisplayStartFrame := restoreFrame, ND_RestorePending := True\<rparr>"
  have schedule: "ScheduleNSMLGameRAMRestore ?img restoreFrame n1 = (True, n2)"
    using idle can n1(1) full_ram_length [OF n1(1)] by (auto simp: ScheduleNSMLGameRAMRestore_def n2_def full_ram_def)
  define n3 where "n3 = snd (DiscardNSMLGameRAMCheckpointsAfter restoreFrame n2)"
  have f3: "full_ram n3"
    using n1(1) by (simp add: n3_def full_ram_def Discard_memory n2_def)
  define n4 where "n4 = write_transaction ?t (SS_GameFrame checkpoint) rs n3"
  have "rs \<noteq> []" "length rs \<le> 12"
    using len cnt by (auto simp: rs)
  note written = write_transaction_effect [OF f3 this, where cnt = ?t and gameFrame = "SS_GameFrame checkpoint", folded n4_def]
  have armed: "arm_correction hooks instanceID frame restoreFrame checkpoint n x
      = (True, n4, x\<lparr>RX_Inputs := (RX_Inputs x)\<lparr>TR_RollbackInputs := p\<rparr>\<rparr>)"
    unfolding arm_correction_def player(1) cnt(1) Let_def if_not_P [OF guard] resolved(1) prod.case option.case collect schedule
    by (simp add: n4_def n3_def)
  have pending: "ND_RestorePending n4" "ND_RestoreData n4 = Some ?img" "ND_RestoreLength n4 = of_nat (length ?img)"
    using same_but_memory_fields [OF written(2)] by (simp_all add: n3_def Discard_memory n2_def)
  show ?thesis
    using armed resolved(2,3) written pending len cnt
    by (intro exI [of _ n4] exI [of _ "x\<lparr>RX_Inputs := (RX_Inputs x)\<lparr>TR_RollbackInputs := p\<rparr>\<rparr>"] exI [of _ resolved])
      (simp add: rs historyOffset_def comp_def)
qed

text \<open>C6: A correction that is replayed inside the game replays exactly the resolved inputs. On a
  machine with the replay loop installed, no transaction in flight and at most twelve frames to replay,
  \<^verbatim>\<open>ResimulateIfNeeded\<close> arms the transaction. At the next gate the memory holds, as bytes, one history
  entry per frame from the checkpoint to the current frame, in order: the tick of that frame in the
  match, and for each player the keys and the touch data that \<^verbatim>\<open>WriteJitScratchInputs\<close> derives from the
  recorded local input and the confirmed remote input (a prediction where none is confirmed). The
  control words ask for that number of frames from the game frame of the checkpoint, and the rest of the
  memory is the checkpoint, except what belongs to the present.\<close>

theorem armed_replay_inputs_exact:
  assumes hook: "HK_WritePacketBridgeInputs hooks =
      (\<lambda>i f lp l r has predicted n. snd (WriteJitScratchInputs ih c i f lp l r has n))"
    and auto: "\<forall>f m p x. IH_ApplyAutomatedInput ih instanceID f m p x = automated f p x"
    and epoch: "IC_NetplayOnly (IX_Input c)" "CC_SharedLogicalEpoch (IX_Connection c) = epoch" "epoch \<noteq> 0" "epoch \<le> restoreFrame"
    and player: "HK_CurrentLocalPlayer hooks = localPlayer" "localPlayer = 0 \<or> localPlayer = 1"
    and arm: "can_arm restoreFrame frame checkpoint n"
  shows "\<exists>n' x' resolved. arm_correction hooks instanceID frame restoreFrame checkpoint n x = (True, n', x')
    \<and> map fst resolved = replay_frames restoreFrame (frame - restoreFrame + 1)
    \<and> (\<forall>(f, i) \<in> set resolved. authoritative (RX_Inputs x) localPlayer f i)
    \<and> (let m = ApplyNSMLPendingGameRAMRestore enabled us n' in
        \<not> ND_RestorePending m
        \<and> copy_out historyOffset (16 * length resolved) (main_ram m)
          = concat (map (entry_bytes \<circ> history_input ih automated localPlayer epoch (main_ram n ! 0x888E4)) resolved)
        \<and> ARM9Read32 historyEnabledAddr m = 1 \<and> ARM9Read32 historyIndexAddr m = 0
        \<and> ARM9Read32 historyCountAddr m = of_nat (length resolved)
        \<and> ARM9Read32 historyStartFrameAddr m = SS_GameFrame checkpoint
        \<and> (\<forall>i < 0x400000. \<not> preserved_offset i \<longrightarrow> main_ram m ! i = SS_MainRAMCopy checkpoint ! i))"
proof -
  let ?img = "SS_MainRAMCopy checkpoint"
  obtain n' x' resolved where armed: "arm_correction hooks instanceID frame restoreFrame checkpoint n x = (True, n', x')"
    "map fst resolved = replay_frames restoreFrame (frame - restoreFrame + 1)"
    "\<forall>(f, i) \<in> set resolved. authoritative (RX_Inputs x) localPlayer f i"
    and n': "full_ram n'" "ND_RestorePending n'" "ND_RestoreData n' = Some ?img" "ND_RestoreLength n' = of_nat (length ?img)"
    and words: "rd32 (main_ram n') 0x1ACC = 1" "rd32 (main_ram n') 0x1AD0 = 0" "rd32 (main_ram n') 0x1AD4 = of_nat (length resolved)"
      "rd32 (main_ram n') 0x1ADC = SS_GameFrame checkpoint" "length resolved \<le> 12"
    and history: "copy_out historyOffset (16 * length resolved) (main_ram n')
      = concat (map (entry_bytes \<circ> history_input ih automated localPlayer epoch (main_ram n ! 0x888E4)) resolved)"
    using arm_correction_armed [OF assms, of x] by blast
  have img: "length ?img = 0x400000"
    using arm by (simp add: can_arm_def)
  obtain ram where ram: "ND_MainRAM n' = Some ram" "length ram = 0x400000" "ND_MainRAMMask n' = 0x3FFFFF"
    using n'(1) by (rule full_ramE)
  define m where "m = ApplyNSMLPendingGameRAMRestore enabled us n'"
  have m: "ND_MainRAM m = Some (restore_image 0x400000 ?img ram)" "ND_MainRAMMask m = 0x3FFFFF" "\<not> ND_RestorePending m"
    unfolding m_def apply_pending_restore [OF n' img] by (simp_all add: ram)
  have fm: "full_ram m"
    using m restore_image_nth(1) [OF ram(2) img] by (simp add: full_ram_def)
  note reads = restored_reads [OF ram(2) img]
  have "ARM9Read32 historyEnabledAddr m = 1" "ARM9Read32 historyIndexAddr m = 0"
    "ARM9Read32 historyCountAddr m = of_nat (length resolved)" "ARM9Read32 historyStartFrameAddr m = SS_GameFrame checkpoint"
    using words reads(1) [of "0x1ACC"] reads(1) [of "0x1AD0"] reads(1) [of "0x1AD4"] reads(1) [of "0x1ADC"]
      ARM9Read32_ram [OF fm, of "0x1ACC"] ARM9Read32_ram [OF fm, of "0x1AD0"] ARM9Read32_ram [OF fm, of "0x1AD4"]
      ARM9Read32_ram [OF fm, of "0x1ADC"]
    by (simp_all add: m ram historyEnabledAddr_def historyIndexAddr_def historyCountAddr_def historyStartFrameAddr_def)
  moreover have "copy_out historyOffset (16 * length resolved) (main_ram m)
      = copy_out historyOffset (16 * length resolved) (main_ram n')"
    using reads(2) [of "16 * length resolved"] words(5) by (simp add: m ram historyLength_def)
  moreover have "main_ram m ! i = ?img ! i" if "i < 0x400000" "\<not> preserved_offset i" for i
    using restore_image_nth(2) [OF ram(2) img that(1)] that(2) by (simp add: m)
  ultimately show ?thesis
    using armed history m(3) unfolding m_def
    by (intro exI [of _ n'] exI [of _ x'] exI [of _ resolved]) (simp add: Let_def)
qed

section \<open>A correction on a concrete machine\<close>

definition replay_machine :: NDS where
  "replay_machine = sample_nds\<lparr>ND_MainRAM := Some (copy_in 0x1AC8 (u32_le 0x32505447) (replicate 0x400000 0))\<rparr>"

definition plain_bridge_hooks :: "NDS IntegrationHooks" where
  "plain_bridge_hooks = \<lparr>IH_SendMatchSeedLocked = id, IH_PumpNetworkLocked = \<lambda>_ _ c. c, IH_PrepareRuntimeInput = id,
     IH_ApplyAutomatedInput = \<lambda>_ _ _ _ input. input\<rparr>"

definition match_context :: BridgeContext where
  "match_context = \<lparr>IX_Config = PacketBridgeConfig_default\<lparr>BC_Enabled := True\<rparr>, IX_RuntimePatch = RuntimePatchConfig_default,
     IX_Input = InputConfig_default\<lparr>IC_NetplayOnly := True\<rparr>,
     IX_Connection = ConnectionConfig_default\<lparr>CC_SharedLogicalEpoch := 100\<rparr>, IX_State = BridgeRuntime_init,
     IX_Transport = TransportState_init, IX_Generation = 1, IX_Wire = [], IX_Live = fmempty, IX_Local = None\<rparr>"

definition bridged_hooks :: "NDS ResimulationHooks" where
  "bridged_hooks = idle_hooks\<lparr>HK_WritePacketBridgeInputs :=
     (\<lambda>i f lp l r has predicted n. snd (WriteJitScratchInputs plain_bridge_hooks match_context i f lp l r has n))\<rparr>"

definition game_checkpoint :: StoredState where
  "game_checkpoint = StoredState_default\<lparr>SS_MainRAMCopy := replicate 0x400000 7, SS_GameFrame := 40\<rparr>"

lemma replay_machine_can_arm: "can_arm 120 122 game_checkpoint replay_machine"
proof -
  let ?ram = "copy_in 0x1AC8 (u32_le 0x32505447) (replicate 0x400000 (0 :: u8))"
  have len: "length ?ram = 0x400000"
    by simp
  have "rd32 ?ram 0x1AC8 = 0x32505447" "rd32 ?ram 0x1ACC = 0"
    by (simp_all add: rd32_def nth_copy_in u32_le_def del: length_copy_in, simp_all add: u32_of_bytes_def)
  then show ?thesis
    using len by (simp add: can_arm_def full_ram_def replay_machine_def sample_nds_def game_checkpoint_def kNoFrame_def)
qed

theorem armed_replay_inputs_exact_witness:
  "\<exists>n' x'. arm_correction bridged_hooks 0 122 120 game_checkpoint replay_machine mispredicted_context = (True, n', x')
    \<and> ARM9Read32 historyCountAddr (ApplyNSMLPendingGameRAMRestore True 0 n') = 3
    \<and> main_ram (ApplyNSMLPendingGameRAMRestore True 0 n') ! 0x200000 = 7"
proof -
  have hook: "HK_WritePacketBridgeInputs bridged_hooks =
      (\<lambda>i f lp l r has predicted n. snd (WriteJitScratchInputs plain_bridge_hooks match_context i f lp l r has n))"
    by (simp add: bridged_hooks_def)
  have auto: "\<forall>f m p x. IH_ApplyAutomatedInput plain_bridge_hooks 0 f m p x = (\<lambda>f p x. x) f p x"
    by (simp add: plain_bridge_hooks_def)
  have epoch: "IC_NetplayOnly (IX_Input match_context)" "CC_SharedLogicalEpoch (IX_Connection match_context) = 100"
    "(100 :: u32) \<noteq> 0" "(100 :: u32) \<le> 120" "HK_CurrentLocalPlayer bridged_hooks = 0" "(0 :: int) = 0 \<or> (0 :: int) = 1"
    by (simp_all add: match_context_def bridged_hooks_def idle_hooks_def)
  obtain n' x' and resolved :: "(u32 \<times> ReplayFrameInputs) list" where r:
    "arm_correction bridged_hooks 0 122 120 game_checkpoint replay_machine mispredicted_context = (True, n', x')"
    "map fst resolved = replay_frames 120 (122 - 120 + 1)"
    "ARM9Read32 historyCountAddr (ApplyNSMLPendingGameRAMRestore True 0 n') = of_nat (length resolved)"
    "\<forall>i < 0x400000. \<not> preserved_offset i
       \<longrightarrow> main_ram (ApplyNSMLPendingGameRAMRestore True 0 n') ! i = SS_MainRAMCopy game_checkpoint ! i"
    using armed_replay_inputs_exact [OF hook auto epoch replay_machine_can_arm, where enabled = True and us = 0 and x = mispredicted_context]
    unfolding Let_def by blast
  have "length resolved = 3"
    using arg_cong [OF r(2), of length] by (simp add: replay_frames_def)
  then show ?thesis
    using r(1,3) r(4) [rule_format, of "0x200000"] by (auto simp: preserved_offset_def ram_layout game_checkpoint_def)
qed

end
