(* ===== verification/Bridge_Delivery.thy ===== *)
theory Bridge_Delivery
  imports Armed_Replay Session_Delivery
begin

text \<open>
  A packet of the game from its capture on one machine to the store of live packets of the other.
\<close>

section \<open>The wire format\<close>

lemma nsml_of_to_bytes: "length (NW_Packet p) = 52 \<Longrightarrow> nsml_of_bytes (nsml_to_bytes p) = p"
  by (cases p) (simp add: nsml_of_bytes_def nsml_to_bytes_def)

lemma length_nsml: "length (NW_Packet p) = 52 \<Longrightarrow> length (nsml_to_bytes p) = kWireNSMLPacketSize"
  by (simp add: nsml_to_bytes_def wire_sizes)

interpretation nsml: codec nsml_to_bytes "\<lambda>bs. if length bs = kWireNSMLPacketSize then Some (nsml_of_bytes bs) else None"
  "\<lambda>p. length (NW_Packet p) = 52"
  by unfold_locales (simp add: nsml_of_to_bytes length_nsml)

section \<open>Sending\<close>

lemma SendWirePacketNowLocked_sent:
  assumes "enet_accepts env" "IsConnected (IX_Transport c)"
  shows "SendWirePacketNowLocked env p c = c\<lparr>IX_Wire := IX_Wire c @ [nsml_to_bytes p]\<rparr>"
proof -
  obtain h where "NE_PacketCreate env (nsml_to_bytes p) = Some h" "NE_PeerSend env (nsml_to_bytes p) = 0"
    using assms(1) by (auto simp: enet_accepts_def)
  then show ?thesis
    using assms(2) by (auto simp: SendWirePacketNowLocked_def IsConnected_def Send_def Let_def)
qed

lemma LocalPlayerID_le: "LocalPlayerID c nds \<le> 1"
proof -
  have w: "w AND 1 \<le> 1" for w :: u32
    by (simp add: and_one_eq mod_2_eq_odd)
  have i: "u32_of_int (v AND 1) \<le> 1" for v
    by (simp add: and_one_eq mod_2_eq_odd u32_of_int_def)
  have o: "u32_of_int v \<le> 1" if "0 \<le> v" "v \<le> 1" for v
  proof -
    have "v = 0 \<or> v = 1"
      using that by linarith
    then show ?thesis
      by (auto simp: u32_of_int_def)
  qed
  show ?thesis
    using w i o by (auto simp: LocalPlayerID_def split: option.split)
qed

lemma send_all_sent:
  "enet_accepts env \<Longrightarrow> IsConnected (IX_Transport c) \<Longrightarrow>
    foldl (\<lambda>c p. SendWirePacketNowLocked env p c) c ps = c\<lparr>IX_Wire := IX_Wire c @ map nsml_to_bytes ps\<rparr>"
  by (induction ps arbitrary: c) (simp_all add: SendWirePacketNowLocked_sent)

lemma FlushDelayedPacketsLocked_sent:
  assumes "enet_accepts env" "IsConnected (IX_Transport c)" "BC_Enabled (IX_Config c)"
  shows "set (IX_Wire (FlushDelayedPacketsLocked env frame c)) = set (IX_Wire c)
      \<union> (nsml_to_bytes \<circ> DP_Packet) ` {d \<in> set (BR_DelayedPackets (IX_State c)). delayed_due (frame, NE_Now env) d}"
proof (cases "BR_DelayedPackets (IX_State c) = []")
  case False
  then show ?thesis
    using assms
    by (auto simp: FlushDelayedPacketsLocked_def DelayedPacketCount_def TakeDueOutgoingPackets_def Let_def
        bridge_queue.drain_filter send_all_sent)
qed (simp add: FlushDelayedPacketsLocked_def DelayedPacketCount_def)

definition wire_packet :: "u32 \<Rightarrow> u32 \<Rightarrow> u32 \<Rightarrow> u32 \<Rightarrow> u8 list \<Rightarrow> WireNSMLPacket" where
  "wire_packet gen frame player tick bytes = \<lparr>NW_Magic = kMagic, NW_Version = kVersion, NW_Kind = kWireKindPacket,
     NW_Generation = gen, NW_Frame = frame, NW_Player = player, NW_Tick = tick, NW_Packet = bytes\<rparr>"

lemma receive_wire_packet:
  assumes "player \<le> 1" "length bytes = 52" "BC_Enabled (IX_Config d)" "IX_Generation d = gen" "entries_sized (IX_Live d)"
  shows "packet_at player (packet_tick bytes)
      (IX_Live (ReceivePacketLocked (Some (nsml_to_bytes (wire_packet gen frame player tick bytes))) True d)) = Some bytes"
proof -
  let ?p = "wire_packet gen frame player tick bytes"
  have "length (nsml_to_bytes ?p) = kWireNSMLPacketSize" "nsml_of_bytes (nsml_to_bytes ?p) = ?p"
    using assms(2) length_nsml [of ?p] nsml_of_to_bytes [of ?p] by (simp_all add: wire_packet_def)
  moreover have "IsAcceptedIncomingPacket ?p (IX_Generation d)"
    using assms(1,4) by (simp add: IsAcceptedIncomingPacket_def wire_packet_def)
  ultimately show ?thesis
    using assms(3) push_lookup [OF assms(1,5,1), of "packet_tick bytes" bytes] assms(2)
    by (simp add: ReceivePacketLocked_def Let_def wire_packet_def)
qed


section \<open>From the capture to the other machine\<close>

definition seed_only :: "'a IntegrationHooks \<Rightarrow> bool" where
  "seed_only hooks \<longleftrightarrow> (\<forall>c. \<exists>ws. IH_SendMatchSeedLocked hooks c = c\<lparr>IX_Wire := IX_Wire c @ ws\<rparr>)"

text \<open>What is sent for a captured packet: the keys of the recorded input of the frame, and the tick of the frame
  in the match when ticks are forced.\<close>

definition outgoing_tick :: "BridgeContext \<Rightarrow> u32 \<Rightarrow> u32 \<Rightarrow> u32" where
  "outgoing_tick c frame tick =
     (if BC_ForceTickEnabled (IX_Config c) \<and> CC_SharedLogicalEpoch (IX_Connection c) \<le> frame \<and> 0 \<le> BC_ForceTickBase (IX_Config c)
      then CanonicalTick (IX_Config c) (CC_SharedLogicalEpoch (IX_Connection c)) frame tick else tick)"

definition outgoing_packet :: "BridgeContext \<Rightarrow> u32 \<Rightarrow> u8 list \<Rightarrow> u32 \<Rightarrow> u8 list" where
  "outgoing_packet c frame packet tick =
     (let keyed = override_keys (PacketInput frame (IX_State c)) packet
      in if BC_ForceTickEnabled (IX_Config c) \<and> CC_SharedLogicalEpoch (IX_Connection c) \<le> frame \<and> 0 \<le> BC_ForceTickBase (IX_Config c)
         then set_tick (outgoing_tick c frame tick) keyed else keyed)"

lemma length_outgoing [simp]: "length (outgoing_packet c frame packet tick) = length packet"
  by (simp add: outgoing_packet_def Let_def set_tick_def override_keys_def split: option.split)

lemma capture_local_keeps:
  assumes "capture_local e n c = (r, c1)"
  shows "c1 = c\<lparr>IX_Local := IX_Local c1\<rparr>"
  using assms by (auto simp: capture_local_def Let_def split: prod.splits option.splits if_splits)

lemma SendPacketLocked_sent:
  fixes tick :: u32
  assumes "seed_only hooks" "enet_accepts env" "IsConnected (IX_Transport c)" "BC_Enabled (IX_Config c)" "player \<le> 1" "length bytes = 52"
    and flush: "enet_accepts env'" "send_delay_frames frame (IX_Config c) \<le> 0
        \<or> frame + u32_of_int (send_delay_frames frame (IX_Config c)) \<le> frame'"
  defines "c' \<equiv> SendPacketLocked hooks env frame player tick bytes c"
  shows "IX_Live c' = IX_Live c"
    "nsml_to_bytes (wire_packet (IX_Generation c) frame player tick bytes) \<in> set (IX_Wire (FlushDelayedPacketsLocked env' frame'
      (c'\<lparr>IX_State := PrunePacketInputs f k (IX_State c')\<rparr>)))"
proof -
  let ?p = "wire_packet (IX_Generation c) frame player tick bytes"
  obtain ws where ws: "IH_SendMatchSeedLocked hooks c = c\<lparr>IX_Wire := IX_Wire c @ ws\<rparr>"
    using assms(1) by (auto simp: seed_only_def)
  have "\<not> 1 < player"
    using assms(5) by simp
  then have c': "c' = (let c1 = c\<lparr>IX_Wire := IX_Wire c @ ws\<rparr>;
      c2 = (if send_delay_frames frame (IX_Config c) \<le> 0 then c1\<lparr>IX_Wire := IX_Wire c1 @ [nsml_to_bytes ?p]\<rparr>
        else c1\<lparr>IX_State := snd (PrepareOutgoingPacket (IX_Generation c) frame player tick (Some bytes) (IX_Config c) (NE_Now env) (IX_State c))\<rparr>)
     in if BC_TraceEnabled (IX_Config c) then c2\<lparr>IX_State := snd (ShouldTraceSentTick tick (IX_State c2))\<rparr> else c2)"
    using assms(2-6) ws
    by (simp add: c'_def SendPacketLocked_def PrepareOutgoingPacket_def wire_packet_def SendWirePacketNowLocked_sent Let_def)
  show "IX_Live c' = IX_Live c"
    by (simp add: c' Let_def)
  have conn: "IsConnected (IX_Transport c')" "BC_Enabled (IX_Config c')"
    using assms(3,4) by (simp_all add: c' Let_def)
  let ?d = "c'\<lparr>IX_State := PrunePacketInputs f k (IX_State c')\<rparr>"
  have delayed: "BR_DelayedPackets (IX_State ?d) = BR_DelayedPackets (IX_State c')"
    by (simp add: PrunePacketInputs_def Let_def)
  have set: "set (IX_Wire (FlushDelayedPacketsLocked env' frame' ?d)) = set (IX_Wire c')
      \<union> (nsml_to_bytes \<circ> DP_Packet) ` {d \<in> set (BR_DelayedPackets (IX_State c')). delayed_due (frame', NE_Now env') d}"
    using FlushDelayedPacketsLocked_sent [OF flush(1), of ?d frame'] conn delayed by simp
  show "nsml_to_bytes ?p \<in> set (IX_Wire (FlushDelayedPacketsLocked env' frame' ?d))"
  proof (cases "send_delay_frames frame (IX_Config c) \<le> 0")
    case True
    then have "nsml_to_bytes ?p \<in> set (IX_Wire c')"
      by (simp add: c' Let_def)
    then show ?thesis
      by (simp add: set)
  next
    case False
    let ?e = "\<lparr>DP_ReleaseFrame = frame + u32_of_int (send_delay_frames frame (IX_Config c)),
        DP_ReleaseTime = NE_Now env + 1000000 * ((send_delay_frames frame (IX_Config c) * 1000 + 59) div 60), DP_Packet = ?p\<rparr>"
    have "?e \<in> set (BR_DelayedPackets (IX_State c'))"
      using False \<open>\<not> 1 < player\<close> assms(6)
      by (simp add: c' Let_def PrepareOutgoingPacket_def ShouldTraceSentTick_def wire_packet_def split: prod.splits)
    moreover have "delayed_due (frame', NE_Now env') ?e"
      using False flush(2) by (simp add: delayed_due_def)
    ultimately show ?thesis
      unfolding set by (intro UnI2 image_eqI [of _ _ ?e]) simp_all
  qed
qed


text \<open>C7: A packet the game produces is the same on both machines. When the bridge captures the local
  packet of a frame, its own store holds the outgoing packet (with the keys recorded for the frame and
  the tick of the match) under the local player and the tick of the packet; and once the send delay has
  passed, a payload is on the wire that puts exactly the same bytes under the same player and tick into
  the store of a peer of the same generation. ENet is assumed to accept the payloads, and the match seed
  hook only to send.\<close>

theorem captured_packet_reaches_peer:
  assumes "seed_only hooks" "enet_accepts env" "IsConnected (IX_Transport c)" "BC_Enabled (IX_Config c)" "entries_sized (IX_Live c)"
    and captured: "capture_local e n c = (Some (packet, tick, keys), c1)" "length packet = 52"
    and flush: "enet_accepts env'" "send_delay_frames frame (IX_Config c) \<le> 0
        \<or> frame + u32_of_int (send_delay_frames frame (IX_Config c)) \<le> frame'"
    and receiver: "BC_Enabled (IX_Config d)" "IX_Generation d = IX_Generation c" "entries_sized (IX_Live d)"
  shows "let sent = CaptureAndSendPacketLocked e hooks env frame (Some n) c;
      player = LocalPlayerID c (Some n); bytes = outgoing_packet c frame packet tick in
      packet_at player (packet_tick bytes) (IX_Live sent) = Some bytes
      \<and> (\<exists>data \<in> set (IX_Wire (FlushDelayedPacketsLocked env' frame' sent)).
          packet_at player (packet_tick bytes) (IX_Live (ReceivePacketLocked (Some data) True d)) = Some bytes)"
proof -
  let ?sent = "CaptureAndSendPacketLocked e hooks env frame (Some n) c" and ?bytes = "outgoing_packet c frame packet tick"
  let ?tick = "outgoing_tick c frame tick"
  define player where "player = LocalPlayerID c (Some n)"
  have p: "player \<le> 1"
    unfolding player_def by (rule LocalPlayerID_le)
  note c1 = capture_local_keeps [OF captured(1)]
  have same: "IX_Config c1 = IX_Config c" "IX_State c1 = IX_State c" "IX_Connection c1 = IX_Connection c" "IX_Live c1 = IX_Live c"
    "IX_Transport c1 = IX_Transport c" "IX_Generation c1 = IX_Generation c"
    by (subst c1, simp)+
  have local: "LocalPlayerID c1 (Some n) = player"
    by (simp add: player_def LocalPlayerID_def same)
  define c2 where "c2 = c1\<lparr>IX_Live := NSML_PushMarioVsLuigiRemotePacket player ?bytes (IX_Live c1)\<rparr>"
  have sent: "?sent = (SendPacketLocked hooks env frame player ?tick ?bytes c2)\<lparr>IX_State :=
      PrunePacketInputs frame 240 (IX_State (SendPacketLocked hooks env frame player ?tick ?bytes c2))\<rparr>"
    using assms(4) captured(1) local
    by (simp add: CaptureAndSendPacketLocked_def outgoing_packet_def outgoing_tick_def same c2_def Let_def)
  have c2: "IsConnected (IX_Transport c2)" "BC_Enabled (IX_Config c2)" "IX_Config c2 = IX_Config c" "IX_Generation c2 = IX_Generation c"
    using assms(3,4) by (simp_all add: c2_def same)
  have len: "length ?bytes = 52"
    using captured(2) by simp
  note out = SendPacketLocked_sent [OF assms(1,2) c2(1,2) p len flush(1), unfolded c2(3), OF flush(2)]
  have "packet_at player (packet_tick ?bytes) (IX_Live ?sent) = Some ?bytes"
    using push_lookup [OF p assms(5) p, of "packet_tick ?bytes" ?bytes] out(1) len by (simp add: sent c2_def same)
  moreover have "nsml_to_bytes (wire_packet (IX_Generation c) frame player ?tick ?bytes)
      \<in> set (IX_Wire (FlushDelayedPacketsLocked env' frame' ?sent))"
    using out(2) unfolding sent c2(4) .
  ultimately show ?thesis
    using receive_wire_packet [OF p len receiver, of frame ?tick] unfolding Let_def player_def [symmetric] by blast
qed


section \<open>A packet between two concrete machines\<close>

definition bridge_sender :: BridgeContext where
  "bridge_sender = match_context\<lparr>IX_Config := PacketBridgeConfig_default\<lparr>BC_Enabled := True, BC_LocalPlayerOverride := 1,
       BC_ForceTickEnabled := True, BC_ForceTickBase := 0, BC_SendDelayFrames := 2\<rparr>,
     IX_Transport := TransportState_init\<lparr>TP_Peer := Some 1\<rparr>,
     IX_Local := Some \<lparr>LP_Available = True, LP_Tick = 7, LP_Keys = 0, LP_Frame = 120, LP_Packet = sample_packet 7 0 0\<rparr>\<rparr>"

theorem captured_packet_reaches_peer_witness:
  "let sent = CaptureAndSendPacketLocked sample_live_env plain_bridge_hooks sample_env 120 (Some replay_machine) bridge_sender in
    packet_at 1 20 (IX_Live sent) = Some (sample_packet 20 0 0)
    \<and> (\<exists>data \<in> set (IX_Wire (FlushDelayedPacketsLocked sample_env 122 sent)).
        packet_at 1 20 (IX_Live (ReceivePacketLocked (Some data) True match_context)) = Some (sample_packet 20 0 0))"
proof -
  have env: "enet_accepts sample_env"
    by (simp add: enet_accepts_def sample_env_def)
  have hooks: "seed_only plain_bridge_hooks"
    by (auto simp: seed_only_def plain_bridge_hooks_def intro: exI [of _ "[]"])
  have sender: "IsConnected (IX_Transport bridge_sender)" "BC_Enabled (IX_Config bridge_sender)" "entries_sized (IX_Live bridge_sender)"
    "BC_Enabled (IX_Config match_context)" "IX_Generation match_context = IX_Generation bridge_sender" "entries_sized (IX_Live match_context)"
    by (simp_all add: bridge_sender_def match_context_def IsConnected_def entries_sized_def)
  obtain c1 where captured: "capture_local sample_live_env replay_machine bridge_sender = (Some (sample_packet 7 0 0, 7, 0), c1)"
    by (simp add: capture_local_def NSML_TakeMarioVsLuigiLocalPacket_def bridge_sender_def Let_def)
  have len: "length (sample_packet 7 0 0) = 52"
    by (simp add: sample_packet_def)
  have delay: "send_delay_frames 120 (IX_Config bridge_sender) \<le> 0
      \<or> 120 + u32_of_int (send_delay_frames 120 (IX_Config bridge_sender)) \<le> 122"
    by (simp add: bridge_sender_def send_delay_frames_def u32_of_int_def PacketBridgeConfig_default_def)
  have vals: "outgoing_packet bridge_sender 120 (sample_packet 7 0 0) 7 = sample_packet 20 0 0" "packet_tick (sample_packet 20 0 0) = 20"
    by code_simp+
  have player: "LocalPlayerID bridge_sender (Some replay_machine) = 1"
    by (simp add: LocalPlayerID_def bridge_sender_def u32_of_int_def)
  show ?thesis
    using captured_packet_reaches_peer [OF hooks env sender(1-3) captured len env delay sender(4-6)]
    unfolding Let_def player vals .
qed

end
