(* ===== verification/Spec2Isabelle.thy ===== *)
theory Spec2Isabelle
  imports Wait_Bounds Mvl_Lifecycle State_Apply Bridge_Delivery
begin

text \<open>
  A verification library for the netplay runtime of New Super Mario Bros., Mario vs. Luigi, in the
  bigstar fork of the melonDS emulator. Paths below are relative to \<^verbatim>\<open>src/src/frontend/qt_sdl/\<close>
  unless they start with \<^verbatim>\<open>src/\<close>.

  \<^bold>\<open>The program.\<close> Two emulators run the same match in lockstep. Each frame, the controller input of the
  local player is stored in the input timeline, sent to the peer over ENet and combined with the input
  of the remote player. An input that has not arrived is waited for, or predicted; when a prediction
  turns out wrong, the rollback runtime restores a checkpoint and replays the frames since then, either
  by running the emulator again or by arming a replay loop inside the patched game. The packet bridge
  hands inputs and game packets to the game through its memory. A session layer agrees on the start of
  a match, detects lost connections and resumes them.

  \<^bold>\<open>Data.\<close> Machine integers are words of their width; a C++ \<^verbatim>\<open>int\<close> is an \<^typ>\<open>int\<close> with the conversions to
  and from 32 bits written out where the code casts. A \<^verbatim>\<open>std::map\<close> by frame is a finite map, a nullable
  pointer or \<^verbatim>\<open>std::optional\<close> an option, a struct a record whose field prefix names it, a payload a list
  of bytes. An operation takes the object it changes as its last argument and returns it updated.
  Errors are the left side of a sum, or \<^term>\<open>None\<close>. Time points count nanoseconds. What ENet, the clock
  and the random device return is an argument (\<open>NetEnv\<close>, the rounds of the waits). The emulator core,
  its savestates and the callbacks of the frontend are the parameters \<open>Emulator\<close>,
  \<open>ResimulationHooks\<close> and \<open>IntegrationHooks\<close>; what is relied on of them is a named
  hypothesis (\<open>savestate_law\<close>, \<open>seed_only\<close>, \<open>enet_accepts\<close>).

  \<^bold>\<open>The theories, in the order of the data flow.\<close>

  \<^item> \<open>Nsmb_Prelude\<close>, \<open>Wire_Bytes\<close>: types, conversions, ordered maps, little endian fields, and the
    contracts \<open>state_machine\<close>, \<open>release_queue\<close>, \<open>codec\<close> and \<open>fixed_codec\<close> as locales that the components interpret.
  \<^item> \<open>Input_Protocol\<close> (\<^verbatim>\<open>NsmbInputProtocol.cpp\<close>): the two input packets. Encoding and decoding are
    inverse, and the decoder accepts only consistent packets.
  \<^item> \<open>Input_Delivery\<close> (\<^verbatim>\<open>NsmbInputDelivery.cpp\<close>): which inputs a packet carries, acknowledgements and
    delayed payloads. What is built decodes to what was selected; acknowledgements never move back.
  \<^item> \<open>Input_Timeline\<close> (\<^verbatim>\<open>NsmbInputTimeline.cpp\<close>): input maps, prediction, confirmation and the request of a
    rollback. The contiguous frontier is sound, no stale prediction survives a mismatch, and the
    requested frame is the earliest mispredicted one.
  \<^item> \<open>Input_Script\<close> (\<^verbatim>\<open>NsmbInputTimeline.cpp\<close>, scripts): the parser and the recorder; a recorded script
    replays the recorded inputs.
  \<^item> \<open>Netplay_Config\<close>, \<open>Config_Loading\<close> (\<^verbatim>\<open>NsmbNetplayConfig.h\<close>, \<^verbatim>\<open>.cpp\<close>): the settings and how they are read
    from the environment. Each of the nine groups of settings that is loaded is well formed, whatever
    the environment holds.
  \<^item> \<open>Session_Protocol\<close>, \<open>Packet_Classifier\<close>, \<open>Session_Handshake\<close> (\<^verbatim>\<open>NsmbNetplayProtocol.cpp\<close>): session
    messages, the dispatch of packets by size and the start handshake with its barrier.
  \<^item> \<open>Transport\<close> (\<^verbatim>\<open>NsmbNetplayTransport.cpp\<close>): the ENet host, peer and their lifetime.
  \<^item> \<open>Phase_Recovery\<close> (\<^verbatim>\<open>NsmbPhaseRecovery.cpp\<close>): pacing of a peer that runs ahead, with \<^verbatim>\<open>double\<close>
    arithmetic as rounded rational numbers.
  \<^item> \<open>Netplay_Session\<close>, \<open>Session_Waits\<close> (\<^verbatim>\<open>NsmbNetplaySession.cpp\<close>): the pump, the handlers of received
    packets, recovery and resumption, and the blocking waits as loops over rounds.
  \<^item> \<open>Peer_Network\<close>, \<open>Session_Delivery\<close>, \<open>Wait_Bounds\<close>: two sessions and a network that loses, repeats and
    reorders packets, as a step relation. Peers never disagree on an input they both hold; one bundle
    closes any gap; after a reconnection exactly the missing inputs are sent again; every wait ends
    within its number of rounds, and what holds when it returns.
  \<^item> \<open>Coordinator\<close> (\<^verbatim>\<open>NsmbNetplayCoordinator.cpp\<close>): the frame barrier and the serial turns between
    emulator threads, as interleavings of the code between two waits.
  \<^item> \<open>Rollback_Store\<close> (\<^verbatim>\<open>NsmbRollbackStore.cpp\<close>): stored checkpoints, delta and preimage chains and
    pruning. The chain of a frame is exactly the states its bases lead through (\<open>restore_chain_exact\<close>),
    and pruning keeps the chains of the window.
  \<^item> \<open>Game_RAM\<close> (\<^verbatim>\<open>src/src/NSMLGameRAMRollback.h\<close>, the NSMLGameRAM members of \<^verbatim>\<open>src/src/NDS.cpp\<close>): the ring of
    game memory checkpoints, which refines a bounded log, and the restore at the gate of the game.
  \<^item> \<open>Rollback_Runtime\<close>, \<open>Rollback_Preimage\<close>, \<open>Rollback_Correction\<close> (\<^verbatim>\<open>NsmbRollbackRuntime.cpp\<close>): saving,
    restoring and correcting. Preimages give every frame of the window its memory back; a correction
    leaves the machine that runs from the checkpoint with the right inputs.
  \<^item> \<open>Live_Packets\<close> (\<^verbatim>\<open>src/src/ARM.cpp\<close>), \<open>Packet_Bridge\<close> (\<^verbatim>\<open>NsmbPacketBridgeRuntime.cpp\<close>), \<open>Bridge_Integration\<close>
    (\<^verbatim>\<open>NsmbPacketBridgeIntegration.cpp\<close>), \<open>Bridge_Delivery\<close>: game packets from the capture on one
    machine to the store of the other, and the queue of complete input pairs.
  \<^item> \<open>Machine_Memory\<close>, \<open>Armed_Replay\<close>: the algebra of the memory accesses, and the composition of bridge,
    rollback runtime and game memory: the history that the replay inside the game reads holds exactly
    the resolved inputs of the replayed frames.
  \<^item> \<open>Mvl_Runtime\<close> (\<^verbatim>\<open>NsmbMvlRuntime.cpp\<close>), \<open>Match_Hooks\<close> (\<^verbatim>\<open>NsmbMvlGameHooks.cpp\<close>), \<open>Mvl_Lifecycle\<close>
    (\<^verbatim>\<open>NsmbMvlLifecycle.cpp\<close>): winner, stage and seed of the games of a match, the values that are kept
    in the game, and the scoring and restart of a game. A match ends within its number of games, a
    result counts once, and peers that agree on the match begin the next game with the same stage, rules
    and seed.
  \<^item> \<open>Game_State\<close> (\<^verbatim>\<open>NsmbGameState.cpp\<close>), \<open>State_Sync\<close> (\<^verbatim>\<open>NsmbGameStateSync.cpp\<close>): the sample of the game
    state, its hashes and its packet; the exchange and comparison of samples. Samples that
    differ in one value have differing start hashes, a divergence of the compared hashes is noticed and
    reported once, and the state that is applied is the newest one.
  \<^item> \<open>Object_Scan\<close> (\<^verbatim>\<open>NsmbGameStateReader.cpp\<close>), \<open>State_Apply\<close> (\<^verbatim>\<open>NsmbGameStateWriter.cpp\<close>, \<^verbatim>\<open>ApplyRemote\<close> of
    \<^verbatim>\<open>NsmbGameStateSync.cpp\<close>): the objects of the game found by scanning its memory or walking its lists,
    reading the counters of the game and writing a received sample back. A found object has in memory
    what was looked for, the two players are the ones with the lowest identifiers
    (\<open>found_object_reads_back\<close>, \<open>player_slots_by_identifier\<close>), and the counters of the client become those
    of the host.

  \<^bold>\<open>Bounds.\<close> The pump handles at most 64 events per call, as \<^verbatim>\<open>kPumpEventLimit\<close> does. Waits run over a list of
  rounds; the theorems give the length that is enough for a clock that advances by the millisecond each
  iteration sleeps (the timeout in milliseconds plus one, 61001 rounds for a remote input with recovery).
  The depth counters of the restore chains are the ones of the source, and are shown never to cut a
  chain short. The ring of game memory checkpoints has 16 slots and the replay history 12 entries, as in
  the code; the memory theorems are about a machine with four megabytes of main memory.

  \<^bold>\<open>Not modelled.\<close> Trace, diagnostic and status output; the loaders of the diagnostics and AI settings;
  the members of a game state sample that the reader fills from the transition, the runtime, the stage,
  the projectiles and the collision of the game (\<^verbatim>\<open>NsmbGameStateReader.cpp\<close>, offsets into the game's
  memory); the players driven by rules or a learned policy; the frame loop that calls the components
  (\<^verbatim>\<open>NsmbMvlNetplayRuntime.cpp\<close>) beyond the calls the theorems compose; the processor hooks of
  \<^verbatim>\<open>src/src/ARM.cpp\<close> that read and jump with registers; the emulator core itself, the user interfaces
  and the vendored libraries.
\<close>

end
